(* ===== verification/Prelude.thy ===== *)
theory Prelude
  imports Complex_Main "HOL-Library.Char_ord" "HOL-Library.List_Lexorder"
begin

text \<open>
  What every component shares: results of fallible code, Python text, Python dictionaries as
  association lists, and the lemma collections the component proofs draw on.

  Text.  A Python \<open>str\<close> is a \<open>string\<close>, one \<open>char\<close> per code point, so the model's text is the
  text with code points 0 to 255.  On it the character classes (\<open>str.isspace\<close>, \<open>str.isalnum\<close>),
  \<open>str.casefold\<close>, \<open>str.strip\<close> and \<open>str.splitlines\<close> below are Python's.  The code point of the
  micro sign folds to one above 255 in Python; no other code point of the model folds there, so
  the model leaves it alone and comparisons of folded text come out the same.  Lone surrogates are
  above 255, so the checks that reject them never fire here.
\<close>

section \<open>Results\<close>

text \<open>A call that may raise gives \<open>Inl\<close> the exception or \<open>Inr\<close> the value.\<close>

type_synonym ('e, 'a) res = "'e + 'a"

named_theorems res_simps "evaluation rules of the result combinators"
named_theorems wf_intros "well-formedness facts of what the operations return"

fun bindE :: "('e, 'a) res \<Rightarrow> ('a \<Rightarrow> ('e, 'b) res) \<Rightarrow> ('e, 'b) res" where
  "bindE (Inl e) f = Inl e"
| "bindE (Inr x) f = f x"

definition checkE :: "bool \<Rightarrow> 'e \<Rightarrow> ('e, unit) res" where
  "checkE c e = (if c then Inr () else Inl e)"

text \<open>Statements run in order; the first one that raises ends the block.\<close>

fun seqE :: "('e, unit) res list \<Rightarrow> ('e, unit) res" where
  "seqE [] = Inr ()"
| "seqE (Inl e # xs) = Inl e"
| "seqE (Inr u # xs) = seqE xs"

fun mapE :: "('a \<Rightarrow> ('e, 'b) res) \<Rightarrow> 'a list \<Rightarrow> ('e, 'b list) res" where
  "mapE f [] = Inr []"
| "mapE f (x # xs) = bindE (f x) (\<lambda>y. bindE (mapE f xs) (\<lambda>ys. Inr (y # ys)))"

fun map_errE :: "('e \<Rightarrow> 'f) \<Rightarrow> ('e, 'a) res \<Rightarrow> ('f, 'a) res" where
  "map_errE g (Inl e) = Inl (g e)"
| "map_errE g (Inr x) = Inr x"

lemma bindE_Inr_iff [res_simps]: "bindE r f = Inr y \<longleftrightarrow> (\<exists>x. r = Inr x \<and> f x = Inr y)"
  by (cases r) auto

lemma bindE_Inl_iff: "bindE r f = Inl e \<longleftrightarrow> r = Inl e \<or> (\<exists>x. r = Inr x \<and> f x = Inl e)"
  by (cases r) auto

lemma checkE_Inr_iff [res_simps]: "checkE c e = Inr u \<longleftrightarrow> c"
  by (simp add: checkE_def)

lemma checkE_Inl_iff [res_simps]: "checkE c e = Inl e' \<longleftrightarrow> \<not> c \<and> e' = e"
  by (auto simp: checkE_def)

lemma checkE_True [simp]: "checkE True e = Inr ()"
  and checkE_False [simp]: "checkE False e = Inl e"
  by (simp_all add: checkE_def)

lemma seqE_Cons_Inr_iff: "seqE (r # rs) = Inr u \<longleftrightarrow> r = Inr () \<and> seqE rs = Inr ()"
  by (cases r) auto

lemma seqE_Inr_iff [res_simps]: "seqE rs = Inr u \<longleftrightarrow> list_all (\<lambda>r. r = Inr ()) rs"
  by (induction rs) (auto simp: seqE_Cons_Inr_iff)

lemma seqE_Inl_mem: "seqE rs = Inl e \<Longrightarrow> Inl e \<in> set rs"
  by (induction rs rule: seqE.induct) auto

lemma seqE_append: "seqE (rs @ ss) = bindE (seqE rs) (\<lambda>_. seqE ss)"
  by (induction rs rule: seqE.induct) auto

lemma map_errE_Inr_iff [res_simps]: "map_errE g r = Inr x \<longleftrightarrow> r = Inr x"
  by (cases r) auto

lemma map_errE_Inl_iff [res_simps]: "map_errE g r = Inl e \<longleftrightarrow> (\<exists>e'. r = Inl e' \<and> e = g e')"
  by (cases r) auto

lemma mapE_Inr_iff: "mapE f xs = Inr ys \<longleftrightarrow> list_all2 (\<lambda>x y. f x = Inr y) xs ys"
proof (induction xs arbitrary: ys)
  case Nil
  then show ?case by auto
next
  case (Cons x xs)
  then show ?case by (cases ys) (auto simp: bindE_Inr_iff)
qed

lemma mapE_map_Inr: "(\<And>x. x \<in> set xs \<Longrightarrow> f (g x) = Inr (h x)) \<Longrightarrow> mapE f (map g xs) = Inr (map h xs)"
  by (induction xs) auto

lemma mapE_length: "mapE f xs = Inr ys \<Longrightarrow> length ys = length xs"
  by (auto simp: mapE_Inr_iff dest: list_all2_lengthD)

lemma mapE_in_set: "mapE f xs = Inr ys \<Longrightarrow> y \<in> set ys \<Longrightarrow> \<exists>x \<in> set xs. f x = Inr y"
  by (induction xs arbitrary: ys) (auto simp: bindE_Inr_iff)

lemma fold_max_le: "fold max xs (a :: nat) \<le> n \<longleftrightarrow> a \<le> n \<and> (\<forall>x \<in> set xs. x \<le> n)"
  by (induction xs arbitrary: a) auto

section \<open>Characters and text\<close>

abbreviation code_pt :: "char \<Rightarrow> nat" where
  "code_pt c \<equiv> of_char c"

definition in_rng :: "nat \<Rightarrow> nat \<Rightarrow> char \<Rightarrow> bool" where
  "in_rng lo hi c \<longleftrightarrow> lo \<le> code_pt c \<and> code_pt c \<le> hi"

definition is_digit :: "char \<Rightarrow> bool" where
  "is_digit c = in_rng 48 57 c"

definition is_ascii_alpha :: "char \<Rightarrow> bool" where
  "is_ascii_alpha c = (in_rng 65 90 c \<or> in_rng 97 122 c)"

definition is_ascii_alnum :: "char \<Rightarrow> bool" where
  "is_ascii_alnum c = (is_digit c \<or> is_ascii_alpha c)"

text \<open>\<open>str.isspace\<close> on one code point.\<close>

definition isspace :: "char \<Rightarrow> bool" where
  "isspace c = (in_rng 9 13 c \<or> in_rng 28 32 c \<or> code_pt c = 133 \<or> code_pt c = 160)"

text \<open>\<open>str.isalnum\<close> on one code point: letters, digits and the numeric signs of the first 256.\<close>

definition isalnum :: "char \<Rightarrow> bool" where
  "isalnum c = (is_ascii_alnum c \<or> code_pt c \<in> {170, 178, 179, 181, 185, 186, 188, 189, 190}
     \<or> in_rng 192 214 c \<or> in_rng 216 246 c \<or> in_rng 248 255 c)"

definition lower_char :: "char \<Rightarrow> char" where
  "lower_char c = (if in_rng 65 90 c \<or> in_rng 192 214 c \<or> in_rng 216 222 c
     then char_of (code_pt c + 32) else c)"

text \<open>\<open>str.casefold\<close>: the sharp s (code point 223) folds to two letters.\<close>

definition casefold :: "string \<Rightarrow> string" where
  "casefold s = concat (map (\<lambda>c. if code_pt c = 223 then ''ss'' else [lower_char c]) s)"

definition lower :: "string \<Rightarrow> string" where
  "lower s = map lower_char s"

definition lstrip :: "string \<Rightarrow> string" where
  "lstrip s = dropWhile isspace s"

definition rstrip :: "string \<Rightarrow> string" where
  "rstrip s = rev (dropWhile isspace (rev s))"

definition strip :: "string \<Rightarrow> string" where
  "strip s = rstrip (lstrip s)"

text \<open>\<open>str.split(sep)\<close> for a one-character separator.\<close>

fun split_on :: "char \<Rightarrow> string \<Rightarrow> string list" where
  "split_on sep [] = [[]]"
| "split_on sep (c # cs) =
     (if c = sep then [] # split_on sep cs
      else (case split_on sep cs of [] \<Rightarrow> [[c]] | w # ws \<Rightarrow> (c # w) # ws))"

fun join :: "string \<Rightarrow> string list \<Rightarrow> string" where
  "join sep [] = []"
| "join sep [x] = x"
| "join sep (x # xs) = x @ sep @ join sep xs"

abbreviation newline :: char where
  "newline \<equiv> CHR 0x0A"

text \<open>A decimal numeral without sign, as \<open>str(n)\<close> prints it and \<open>int(s)\<close> reads it.\<close>

definition digit_char :: "nat \<Rightarrow> char" where
  "digit_char d = char_of (48 + d)"

definition digit_val :: "char \<Rightarrow> nat" where
  "digit_val c = code_pt c - 48"

fun show_nat :: "nat \<Rightarrow> string" where
  "show_nat n = (if n < 10 then [digit_char n] else show_nat (n div 10) @ [digit_char (n mod 10)])"

declare show_nat.simps [simp del]

definition read_nat :: "string \<Rightarrow> nat" where
  "read_nat s = foldl (\<lambda>a c. 10 * a + digit_val c) 0 s"

definition show_int :: "int \<Rightarrow> string" where
  "show_int i = (if i < 0 then CHR ''-'' # show_nat (nat (- i)) else show_nat (nat i))"

lemma split_on_not_Nil [simp]: "split_on sep s \<noteq> []"
  by (induction s) (auto split: list.splits)

lemma split_on_no_sep: "sep \<notin> set s \<Longrightarrow> split_on sep s = [s]"
  by (induction s) auto

lemma split_on_append_sep: "sep \<notin> set s \<Longrightarrow> split_on sep (s @ sep # t) = s # split_on sep t"
  by (induction s) auto

lemma split_on_elem: "w \<in> set (split_on sep s) \<Longrightarrow> sep \<notin> set w"
proof (induction s arbitrary: w)
  case Nil
  then show ?case by simp
next
  case (Cons c cs)
  then show ?case
    by (cases "split_on sep cs") (auto split: if_splits)
qed

lemma join_split_on: "join [sep] (split_on sep s) = s"
proof (induction s)
  case Nil
  then show ?case by simp
next
  case (Cons c cs)
  then obtain w ws where w: "split_on sep cs = w # ws" by (cases "split_on sep cs") auto
  with Cons.IH show ?case by (cases ws) auto
qed

lemma join_Cons: "ws \<noteq> [] \<Longrightarrow> join sep (w # ws) = w @ sep @ join sep ws"
  by (cases ws) auto

lemma split_on_join:
  assumes "ws \<noteq> []" and "\<forall>w \<in> set ws. sep \<notin> set w"
  shows "split_on sep (join [sep] ws) = ws"
  using assms
proof (induction ws)
  case Nil
  then show ?case by simp
next
  case (Cons w ws)
  then show ?case
    by (cases "ws = []") (auto simp: split_on_no_sep split_on_append_sep join_Cons)
qed

subsection \<open>Numerals\<close>

lemma code_pt_digit_char: "d < 10 \<Longrightarrow> code_pt (digit_char d) = 48 + d"
  by (simp add: digit_char_def of_char_of)

lemma digit_char_props [simp]:
  assumes "d < 10"
  shows "is_digit (digit_char d)" and "digit_val (digit_char d) = d"
  using assms by (simp_all add: is_digit_def in_rng_def digit_val_def code_pt_digit_char)

lemma show_nat_not_Nil [simp]: "show_nat n \<noteq> []"
  by (subst show_nat.simps) simp

lemma show_nat_digits: "list_all is_digit (show_nat n)"
proof (induction n rule: show_nat.induct)
  case (1 n)
  then show ?case by (subst show_nat.simps) (auto simp del: show_nat.simps)
qed

lemma read_nat_Nil [simp]: "read_nat [] = 0"
  by (simp add: read_nat_def)

lemma read_nat_snoc: "read_nat (s @ [c]) = 10 * read_nat s + digit_val c"
  by (simp add: read_nat_def)

lemma read_show_nat [simp]: "read_nat (show_nat n) = n"
proof (induction n rule: show_nat.induct)
  case (1 n)
  show ?case
  proof (cases "n < 10")
    case True
    then show ?thesis by (subst show_nat.simps) (simp add: read_nat_def)
  next
    case False
    with 1 show ?thesis by (subst show_nat.simps) (simp add: read_nat_snoc)
  qed
qed

lemma read_nat_append: "read_nat (s @ t) = read_nat s * 10 ^ length t + read_nat t"
proof (induction t rule: rev_induct)
  case Nil
  then show ?case by simp
next
  case (snoc c t)
  have "read_nat (s @ t @ [c]) = 10 * read_nat (s @ t) + digit_val c"
    using read_nat_snoc [of "s @ t" c] by simp
  then show ?case using snoc.IH by (simp add: read_nat_snoc algebra_simps)
qed

lemma read_nat_zeros: "read_nat (replicate k (CHR ''0'')) = 0"
  by (induction k) (simp_all add: replicate_append_same [symmetric] read_nat_snoc digit_val_def
      del: replicate_append_same)

section \<open>Dictionaries\<close>

text \<open>
  A Python dictionary keeps insertion order: an association list with distinct keys.  Assigning
  to a present key keeps its place.
\<close>

fun dict_set :: "'k \<Rightarrow> 'v \<Rightarrow> ('k \<times> 'v) list \<Rightarrow> ('k \<times> 'v) list" where
  "dict_set k v [] = [(k, v)]"
| "dict_set k v ((k', v') # d) = (if k' = k then (k, v) # d else (k', v') # dict_set k v d)"

definition dict_of :: "('k \<times> 'v) list \<Rightarrow> ('k \<times> 'v) list" where
  "dict_of kvs = fold (\<lambda>(k, v) d. dict_set k v d) kvs []"

definition keys :: "('k \<times> 'v) list \<Rightarrow> 'k list" where
  "keys d = map fst d"

text \<open>\<open>list(dict.fromkeys(xs))\<close>: the first occurrence of each element, in order.\<close>

fun fromkeys_acc :: "'a list \<Rightarrow> 'a list \<Rightarrow> 'a list" where
  "fromkeys_acc seen [] = []"
| "fromkeys_acc seen (x # xs) =
     (if x \<in> set seen then fromkeys_acc seen xs else x # fromkeys_acc (x # seen) xs)"

definition fromkeys :: "'a list \<Rightarrow> 'a list" where
  "fromkeys xs = fromkeys_acc [] xs"

lemma map_of_dict_set [simp]: "map_of (dict_set k v d) = (map_of d)(k \<mapsto> v)"
  by (induction k v d rule: dict_set.induct) auto

lemma set_keys_dict_set: "set (keys (dict_set k v d)) = insert k (set (keys d))"
  by (induction k v d rule: dict_set.induct) (auto simp: keys_def)

lemma distinct_dict_set: "distinct (keys d) \<Longrightarrow> distinct (keys (dict_set k v d))"
proof (induction k v d rule: dict_set.induct)
  case (2 k v k' v' d)
  then show ?case
    using set_keys_dict_set [of k v d] by (auto simp: keys_def)
qed (simp add: keys_def)

lemma dict_set_fresh: "k \<notin> set (keys d) \<Longrightarrow> dict_set k v d = d @ [(k, v)]"
  by (induction k v d rule: dict_set.induct) (auto simp: keys_def)

lemma dict_of_distinct: "distinct (keys d) \<Longrightarrow> dict_of d = d"
proof (induction d rule: rev_induct)
  case Nil
  then show ?case by (simp add: dict_of_def)
next
  case (snoc x d)
  obtain k v where x: "x = (k, v)" by (cases x)
  from snoc.prems have d: "distinct (keys d)" and k: "k \<notin> set (keys d)"
    by (auto simp: keys_def x)
  have "dict_of (d @ [x]) = dict_set k v (dict_of d)" by (simp add: dict_of_def x)
  with snoc.IH [OF d] k show ?case by (simp add: dict_set_fresh x)
qed

lemma distinct_dict_of: "distinct (keys (dict_of d))"
proof -
  have "distinct (keys a) \<Longrightarrow> distinct (keys (fold (\<lambda>(k, v) d. dict_set k v d) d a))" for a
    by (induction d arbitrary: a) (auto simp: distinct_dict_set)
  from this [of "[]"] show ?thesis by (simp add: dict_of_def keys_def)
qed

lemma fromkeys_acc_set: "set (fromkeys_acc seen xs) = set xs - set seen"
  by (induction xs arbitrary: seen) auto

lemma fromkeys_acc_distinct: "distinct (fromkeys_acc seen xs)"
  by (induction xs arbitrary: seen) (auto simp: fromkeys_acc_set)

lemma set_fromkeys [simp]: "set (fromkeys xs) = set xs"
  by (simp add: fromkeys_def fromkeys_acc_set)

lemma distinct_fromkeys [simp]: "distinct (fromkeys xs)"
  by (simp add: fromkeys_def fromkeys_acc_distinct)

lemma fromkeys_acc_id:
  "distinct xs \<Longrightarrow> set xs \<inter> set seen = {} \<Longrightarrow> fromkeys_acc seen xs = xs"
  by (induction xs arbitrary: seen) auto

lemma fromkeys_id [simp]: "distinct xs \<Longrightarrow> fromkeys xs = xs"
  by (simp add: fromkeys_def fromkeys_acc_id)

lemma fromkeys_Nil_iff [simp]: "fromkeys xs = [] \<longleftrightarrow> xs = []"
  by (metis set_empty set_fromkeys)

end
