(* ===== verification/Json.thy ===== *)
theory Json
  imports Prelude
begin

text \<open>
  JSON as Python's \<open>json\<close> module reads and writes it, for the components that store or parse
  JSON text (run rows, suite and profile hashes, verdict extraction).

  A float is its shortest decimal text: sign, mantissa and power of ten, mantissa without trailing
  zeros (the value \<open>float.__repr__\<close> prints), or an infinity or NaN.  Decimal literals are read
  exactly; rounding to 53 bits and overflow to infinity are not modelled.  \<open>loads\<close> gives the three
  exceptions the module can raise: \<open>JSONDecodeError\<close>, the \<open>ValueError\<close> of an integer literal with
  more than 4300 digits (a \<open>ValueError\<close> that is no \<open>JSONDecodeError\<close>), and \<open>RecursionError\<close> when
  containers nest deeper than the interpreter's limit, which is the first argument.  An escape
  for a code point above 255 reads as a question mark (the text model ends at 255).
\<close>

section \<open>Values\<close>

datatype flt =
    Fin bool nat int  \<comment> \<open>negative?, mantissa, power of ten\<close>
  | Infin bool
  | NotANumber

datatype json =
    JNull
  | JBool bool
  | JInt int
  | JFloat flt
  | JStr string
  | JList "json list"
  | JObj "(string \<times> json) list"

function norm_dec :: "nat \<Rightarrow> int \<Rightarrow> nat \<times> int" where
  "norm_dec m e =
     (if m = 0 then (0, 0) else if m mod 10 = 0 then norm_dec (m div 10) (e + 1) else (m, e))"
  by pat_completeness auto
termination by (relation "measure fst") auto

declare norm_dec.simps [simp del]

definition mk_flt :: "bool \<Rightarrow> nat \<Rightarrow> int \<Rightarrow> flt" where
  "mk_flt neg m e = (case norm_dec m e of (m', e') \<Rightarrow> Fin neg m' e')"

text \<open>The floats as they are kept: normalised mantissas.\<close>

fun flt_ok :: "flt \<Rightarrow> bool" where
  "flt_ok (Fin neg m e) = (if m = 0 then e = 0 else m mod 10 \<noteq> 0)"
| "flt_ok _ = True"

definition pow10 :: "int \<Rightarrow> rat" where
  "pow10 e = (if 0 \<le> e then 10 ^ nat e else 1 / 10 ^ nat (- e))"

fun flt_val :: "flt \<Rightarrow> rat option" where
  "flt_val (Fin neg m e) = Some ((if neg then -1 else 1) * of_nat m * pow10 e)"
| "flt_val _ = None"

text \<open>\<open>float(i)\<close> of an integer.\<close>

definition flt_of_int :: "int \<Rightarrow> flt" where
  "flt_of_int i = mk_flt (i < 0) (nat \<bar>i\<bar>) 0"

text \<open>Comparisons with a constant; every comparison with NaN is false.\<close>

fun flt_le_rat :: "flt \<Rightarrow> rat \<Rightarrow> bool" where
  "flt_le_rat (Fin neg m e) q = ((if neg then -1 else 1) * of_nat m * pow10 e \<le> q)"
| "flt_le_rat (Infin neg) q = neg"
| "flt_le_rat NotANumber q = False"

fun rat_le_flt :: "rat \<Rightarrow> flt \<Rightarrow> bool" where
  "rat_le_flt q (Fin neg m e) = (q \<le> (if neg then -1 else 1) * of_nat m * pow10 e)"
| "rat_le_flt q (Infin neg) = (\<not> neg)"
| "rat_le_flt q NotANumber = False"

fun is_finite_flt :: "flt \<Rightarrow> bool" where
  "is_finite_flt (Fin _ _ _) = True"
| "is_finite_flt _ = False"

fun is_str :: "json \<Rightarrow> bool" where
  "is_str (JStr _) = True"
| "is_str _ = False"

fun is_obj :: "json \<Rightarrow> bool" where
  "is_obj (JObj _) = True"
| "is_obj _ = False"

text \<open>
  The values Python can hold and print: normalised floats, integers within the digit limit of
  integer-to-text conversion, objects with distinct keys.
\<close>

definition int_max_str_digits :: nat where
  "int_max_str_digits = 4300"

fun json_ok :: "json \<Rightarrow> bool" where
  "json_ok (JFloat f) = flt_ok f"
| "json_ok (JInt i) = (length (show_nat (nat \<bar>i\<bar>)) \<le> int_max_str_digits)"
| "json_ok (JList xs) = list_all json_ok xs"
| "json_ok (JObj kvs) = (distinct (map fst kvs) \<and> list_all (\<lambda>kv. json_ok (snd kv)) kvs)"
| "json_ok _ = True"

fun depth :: "json \<Rightarrow> nat" where
  "depth (JList xs) = Suc (fold max (map depth xs) 0)"
| "depth (JObj kvs) = Suc (fold max (map (\<lambda>kv. depth (snd kv)) kvs) 0)"
| "depth _ = 0"

section \<open>Writing: \<open>json.dumps\<close> with \<open>ensure_ascii\<close>\<close>

definition hex_digit :: "nat \<Rightarrow> char" where
  "hex_digit d = (if d < 10 then char_of (48 + d) else char_of (87 + d))"

definition esc_char :: "char \<Rightarrow> string" where
  "esc_char c =
     (if c = CHR 0x22 then [CHR 0x5C, CHR 0x22]
      else if c = CHR 0x5C then [CHR 0x5C, CHR 0x5C]
      else if c = CHR 0x0A then [CHR 0x5C, CHR ''n'']
      else if c = CHR 0x0D then [CHR 0x5C, CHR ''r'']
      else if c = CHR 0x09 then [CHR 0x5C, CHR ''t'']
      else if c = CHR 0x0C then [CHR 0x5C, CHR ''f'']
      else if c = CHR 0x08 then [CHR 0x5C, CHR ''b'']
      else if in_rng 32 126 c then [c]
      else [CHR 0x5C, CHR ''u'', CHR ''0'', CHR ''0'',
            hex_digit (code_pt c div 16), hex_digit (code_pt c mod 16)])"

definition dump_str :: "string \<Rightarrow> string" where
  "dump_str s = CHR 0x22 # concat (map esc_char s) @ [CHR 0x22]"

text \<open>\<open>float.__repr__\<close>: the point stands after \<open>k\<close> digits; fixed notation for \<open>-4 < k \<le> 16\<close>.\<close>

definition show_exp :: "int \<Rightarrow> string" where
  "show_exp x = (if x < 0 then CHR ''-'' else CHR ''+'')
     # (let d = show_nat (nat \<bar>x\<bar>) in if length d < 2 then CHR ''0'' # d else d)"

definition dump_dec :: "nat \<Rightarrow> int \<Rightarrow> string" where
  "dump_dec m e =
     (let ds = show_nat m; n = int (length ds); k = n + e in
      if m = 0 then ''0.0''
      else if -4 < k \<and> k \<le> 16 then
        (if k \<le> 0 then ''0.'' @ replicate (nat (- k)) (CHR ''0'') @ ds
         else if n \<le> k then ds @ replicate (nat (k - n)) (CHR ''0'') @ ''.0''
         else take (nat k) ds @ ''.'' @ drop (nat k) ds)
      else take 1 ds @ (if n = 1 then [] else CHR ''.'' # drop 1 ds)
        @ ''e'' @ show_exp (k - 1))"

fun dump_flt :: "flt \<Rightarrow> string" where
  "dump_flt (Fin neg m e) = (if neg then ''-'' else []) @ dump_dec m e"
| "dump_flt (Infin neg) = (if neg then ''-Infinity'' else ''Infinity'')"
| "dump_flt NotANumber = ''NaN''"

text \<open>The item separator and the key separator are the \<open>separators\<close> argument.\<close>

fun dumps_with :: "string \<Rightarrow> string \<Rightarrow> json \<Rightarrow> string" where
  "dumps_with isep ksep JNull = ''null''"
| "dumps_with isep ksep (JBool b) = (if b then ''true'' else ''false'')"
| "dumps_with isep ksep (JInt i) = show_int i"
| "dumps_with isep ksep (JFloat f) = dump_flt f"
| "dumps_with isep ksep (JStr s) = dump_str s"
| "dumps_with isep ksep (JList xs) = ''['' @ join isep (map (dumps_with isep ksep) xs) @ '']''"
| "dumps_with isep ksep (JObj kvs) =
     ''{'' @ join isep (map (\<lambda>kv. dump_str (fst kv) @ ksep @ dumps_with isep ksep (snd kv)) kvs)
     @ ''}''"

text \<open>The default separators of a single-line dump, and the compact ones of the hashes.\<close>

definition dumps :: "json \<Rightarrow> string" where
  "dumps = dumps_with '', '' '': ''"

text \<open>\<open>sort_keys=True\<close>: every object's pairs in the order of their keys.\<close>

fun sort_json :: "json \<Rightarrow> json" where
  "sort_json (JList xs) = JList (map sort_json xs)"
| "sort_json (JObj kvs) = JObj (sort_key fst (map (\<lambda>kv. (fst kv, sort_json (snd kv))) kvs))"
| "sort_json j = j"

definition canonical_dumps :: "json \<Rightarrow> string" where
  "canonical_dumps j = dumps_with '','' '':'' (sort_json j)"

section \<open>Reading: \<open>json.loads\<close>\<close>

datatype json_exn = JSONDecodeError | IntDigitsError | JRecursionError

text \<open>A reader gives the value and the rest of the text, or the exception.\<close>

datatype 'a reading = Got 'a string | Fail json_exn

definition is_ws :: "char \<Rightarrow> bool" where
  "is_ws c = (c = CHR '' '' \<or> c = CHR 0x09 \<or> c = CHR 0x0A \<or> c = CHR 0x0D)"

definition skip_ws :: "string \<Rightarrow> string" where
  "skip_ws s = dropWhile is_ws s"

definition hex_val :: "char \<Rightarrow> nat option" where
  "hex_val c = (if is_digit c then Some (digit_val c)
     else if in_rng 97 102 c then Some (code_pt c - 87)
     else if in_rng 65 70 c then Some (code_pt c - 55)
     else None)"

definition hex4 :: "char \<Rightarrow> char \<Rightarrow> char \<Rightarrow> char \<Rightarrow> nat option" where
  "hex4 a b c d = (case (hex_val a, hex_val b, hex_val c, hex_val d) of
     (Some w, Some x, Some y, Some z) \<Rightarrow> Some (((w * 16 + x) * 16 + y) * 16 + z)
   | _ \<Rightarrow> None)"

definition unescape :: "char \<Rightarrow> char option" where
  "unescape c =
     (if c = CHR 0x22 \<or> c = CHR 0x5C \<or> c = CHR ''/'' then Some c
      else if c = CHR ''b'' then Some (CHR 0x08)
      else if c = CHR ''f'' then Some (CHR 0x0C)
      else if c = CHR ''n'' then Some (CHR 0x0A)
      else if c = CHR ''r'' then Some (CHR 0x0D)
      else if c = CHR ''t'' then Some (CHR 0x09)
      else None)"

definition uchar :: "nat \<Rightarrow> char" where
  "uchar n = (if n < 256 then char_of n else CHR ''?'')"

text \<open>The text after an opening quote: the string and what follows its closing quote.\<close>

fun parse_chars :: "string \<Rightarrow> (string \<times> string) option" where
  "parse_chars [] = None"
| "parse_chars (c # t) =
     (if c = CHR 0x22 then Some ([], t)
      else if c = CHR 0x5C then
        (case t of
           [] \<Rightarrow> None
         | x # t' \<Rightarrow>
             (if x = CHR ''u'' then
                (case t' of
                   a # b # p # q # t'' \<Rightarrow>
                     (case hex4 a b p q of
                        None \<Rightarrow> None
                      | Some n \<Rightarrow>
                          map_option (\<lambda>(s, r). (uchar n # s, r)) (parse_chars t''))
                 | _ \<Rightarrow> None)
              else
                (case unescape x of
                   None \<Rightarrow> None
                 | Some y \<Rightarrow> map_option (\<lambda>(s, r). (y # s, r)) (parse_chars t'))))
      else if code_pt c < 32 then None
      else map_option (\<lambda>(s, r). (c # s, r)) (parse_chars t))"

lemma parse_chars_shorter: "parse_chars t = Some (k, r) \<Longrightarrow> length r < length t"
proof (induction t arbitrary: k r rule: parse_chars.induct)
  case 1
  then show ?case by simp
next
  case (2 c t)
  then show ?case
    by (auto split: if_splits list.splits option.splits) fastforce+
qed

lemma skip_ws_le [termination_simp, simp]: "length (skip_ws s) \<le> length s"
  by (simp add: skip_ws_def length_dropWhile_le)

lemma skip_ws_Cons_le: "skip_ws s = c # t \<Longrightarrow> length t < length s"
  using skip_ws_le [of s] by (simp del: skip_ws_le)

text \<open>
  A number is \<open>-?(0|[1-9][0-9]*)(\.[0-9]+)?([eE][-+]?[0-9]+)?\<close>, longest match; without fraction and
  exponent it is an integer, whose conversion refuses more than 4300 digits.
\<close>

definition parse_intpart :: "string \<Rightarrow> (string \<times> string) option" where
  "parse_intpart s = (case s of
     [] \<Rightarrow> None
   | c # t \<Rightarrow> if c = CHR ''0'' then Some ([c], t)
       else if is_digit c then Some (takeWhile is_digit s, dropWhile is_digit s)
       else None)"

definition parse_frac :: "string \<Rightarrow> string option \<times> string" where
  "parse_frac s = (case s of
     c # d # t \<Rightarrow> if c = CHR ''.'' \<and> is_digit d
        then (Some (takeWhile is_digit (d # t)), dropWhile is_digit (d # t)) else (None, s)
   | _ \<Rightarrow> (None, s))"

definition parse_digits_exp :: "bool \<Rightarrow> string \<Rightarrow> string \<Rightarrow> int option \<times> string" where
  "parse_digits_exp neg t s = (case t of
     d # _ \<Rightarrow> if is_digit d
        then (Some ((if neg then -1 else 1) * int (read_nat (takeWhile is_digit t))),
              dropWhile is_digit t)
        else (None, s)
   | _ \<Rightarrow> (None, s))"

definition parse_exp :: "string \<Rightarrow> int option \<times> string" where
  "parse_exp s = (case s of
     c # t \<Rightarrow>
       (if c = CHR ''e'' \<or> c = CHR ''E'' then
          (case t of
             sg # t' \<Rightarrow>
               if sg = CHR ''-'' then parse_digits_exp True t' s
               else if sg = CHR ''+'' then parse_digits_exp False t' s
               else parse_digits_exp False t s
           | [] \<Rightarrow> (None, s))
        else (None, s))
   | [] \<Rightarrow> (None, s))"

definition number_value :: "bool \<Rightarrow> string \<Rightarrow> string option \<Rightarrow> int option \<Rightarrow> json_exn + json" where
  "number_value neg ip fr ex =
     (if fr = None \<and> ex = None then
        (if int_max_str_digits < length ip then Inl IntDigitsError
         else Inr (JInt ((if neg then -1 else 1) * int (read_nat ip))))
      else
        (let f = (case fr of None \<Rightarrow> [] | Some f \<Rightarrow> f); x = (case ex of None \<Rightarrow> 0 | Some x \<Rightarrow> x)
         in Inr (JFloat (mk_flt neg (read_nat (ip @ f)) (x - int (length f))))))"

definition parse_number :: "bool \<Rightarrow> string \<Rightarrow> json reading" where
  "parse_number neg s = (case parse_intpart s of
     None \<Rightarrow> Fail JSONDecodeError
   | Some (ip, r) \<Rightarrow>
       (case parse_frac r of (fr, r1) \<Rightarrow>
          (case parse_exp r1 of (ex, r2) \<Rightarrow>
             (case number_value neg ip fr ex of
                Inl e \<Rightarrow> Fail e
              | Inr v \<Rightarrow> Got v r2))))"

fun strip_prefix :: "string \<Rightarrow> string \<Rightarrow> string option" where
  "strip_prefix [] s = Some s"
| "strip_prefix (p # ps) [] = None"
| "strip_prefix (p # ps) (c # cs) = (if p = c then strip_prefix ps cs else None)"

definition parse_word :: "string \<Rightarrow> json \<Rightarrow> string \<Rightarrow> json reading" where
  "parse_word w v s = (case strip_prefix w s of None \<Rightarrow> Fail JSONDecodeError | Some r \<Rightarrow> Got v r)"

text \<open>The scalars of \<open>scan_once\<close>: literals, numbers and the three non-finite names.\<close>

definition parse_atom :: "string \<Rightarrow> json reading" where
  "parse_atom s = (case s of
     [] \<Rightarrow> Fail JSONDecodeError
   | c # t \<Rightarrow>
       (if c = CHR ''n'' then parse_word ''null'' JNull s
        else if c = CHR ''t'' then parse_word ''true'' (JBool True) s
        else if c = CHR ''f'' then parse_word ''false'' (JBool False) s
        else if c = CHR ''N'' then parse_word ''NaN'' (JFloat NotANumber) s
        else if c = CHR ''I'' then parse_word ''Infinity'' (JFloat (Infin False)) s
        else if c = CHR ''-'' then
          (case t of
             x # _ \<Rightarrow> if x = CHR ''I'' then parse_word ''-Infinity'' (JFloat (Infin True)) s
                      else parse_number True t
           | [] \<Rightarrow> Fail JSONDecodeError)
        else parse_number False s))"

text \<open>
  Values, array elements after \<open>[\<close>, object members after \<open>{\<close>.  The tests that the rest is shorter
  always succeed (\<open>parse_val_shorter\<close> below); they make the recursion well-founded.
\<close>

function (sequential) parse_val :: "nat \<Rightarrow> string \<Rightarrow> json reading"
  and parse_elems :: "nat \<Rightarrow> string \<Rightarrow> json list reading"
  and parse_members :: "nat \<Rightarrow> string \<Rightarrow> (string \<times> json) list reading" where
  "parse_val d [] = Fail JSONDecodeError"
| "parse_val d (c # t) =
     (if c = CHR 0x22 then
        (case parse_chars t of None \<Rightarrow> Fail JSONDecodeError | Some (x, r) \<Rightarrow> Got (JStr x) r)
      else if c = CHR ''{'' then
        (if d = 0 then Fail JRecursionError
         else (case skip_ws t of
             [] \<Rightarrow> Fail JSONDecodeError
           | x # t' \<Rightarrow>
               if x = CHR ''}'' then Got (JObj []) t'
               else
                 (case parse_members (d - 1) (skip_ws t) of
                    Fail e \<Rightarrow> Fail e
                  | Got kvs r \<Rightarrow> Got (JObj kvs) r)))
      else if c = CHR ''['' then
        (if d = 0 then Fail JRecursionError
         else (case skip_ws t of
             [] \<Rightarrow> Fail JSONDecodeError
           | x # t' \<Rightarrow>
               if x = CHR '']'' then Got (JList []) t'
               else
                 (case parse_elems (d - 1) (skip_ws t) of
                    Fail e \<Rightarrow> Fail e
                  | Got vs r \<Rightarrow> Got (JList vs) r)))
      else parse_atom (c # t))"
| "parse_elems d s =
     (case parse_val d s of
        Fail e \<Rightarrow> Fail e
      | Got v r \<Rightarrow>
          (case skip_ws r of
             [] \<Rightarrow> Fail JSONDecodeError
           | x # r' \<Rightarrow>
               if x = CHR '']'' then Got [v] r'
               else if x = CHR '','' then
                 (if length (skip_ws r') < length s then
                    (case parse_elems d (skip_ws r') of
                       Fail e \<Rightarrow> Fail e
                     | Got vs r'' \<Rightarrow> Got (v # vs) r'')
                  else Fail JSONDecodeError)
               else Fail JSONDecodeError))"
| "parse_members d s =
     (case s of
        [] \<Rightarrow> Fail JSONDecodeError
      | q # t \<Rightarrow>
          if q = CHR 0x22 then
            (case parse_chars t of
               None \<Rightarrow> Fail JSONDecodeError
             | Some (k, r) \<Rightarrow>
                 (case skip_ws r of
                    [] \<Rightarrow> Fail JSONDecodeError
                  | x # r' \<Rightarrow>
                      if x = CHR '':'' then
                        (case parse_val d (skip_ws r') of
                           Fail e \<Rightarrow> Fail e
                         | Got v r'' \<Rightarrow>
                             (case skip_ws r'' of
                                [] \<Rightarrow> Fail JSONDecodeError
                              | y # r3 \<Rightarrow>
                                  if y = CHR ''}'' then Got [(k, v)] r3
                                  else if y = CHR '','' then
                                    (if length (skip_ws r3) < length s then
                                       (case parse_members d (skip_ws r3) of
                                          Fail e \<Rightarrow> Fail e
                                        | Got kvs r4 \<Rightarrow> Got ((k, v) # kvs) r4)
                                     else Fail JSONDecodeError)
                                  else Fail JSONDecodeError))
                      else Fail JSONDecodeError))
          else Fail JSONDecodeError)"
  by pat_completeness auto
termination
proof (relation "measure (\<lambda>x. case x of
        Inl (d, s) \<Rightarrow> 2 * length s
      | Inr (Inl (d, s)) \<Rightarrow> 2 * length s + 1
      | Inr (Inr (d, s)) \<Rightarrow> 2 * length s + 1)", goal_cases)
  case (6 d s q t a k r x r')
  then have "length (skip_ws r') \<le> length r'" "length r' < length r" "length r < length t"
    by (auto dest: parse_chars_shorter skip_ws_Cons_le)
  then have "length (skip_ws r') < length t" by linarith
  with 6 show ?case by simp
qed (auto dest!: parse_chars_shorter skip_ws_Cons_le simp: le_less_trans [OF skip_ws_le])

declare parse_val.simps [simp del] parse_elems.simps [simp del] parse_members.simps [simp del]

text \<open>
  The reader collects the pairs of an object as written; without a hook each object becomes a
  dictionary, in which the last value of a repeated key wins.
\<close>

definition loads_pairs :: "nat \<Rightarrow> string \<Rightarrow> json_exn + json" where
  "loads_pairs limit s = (case parse_val limit (skip_ws s) of
     Fail e \<Rightarrow> Inl e
   | Got v r \<Rightarrow> if skip_ws r = [] then Inr v else Inl JSONDecodeError)"

fun as_dicts :: "json \<Rightarrow> json" where
  "as_dicts (JList xs) = JList (map as_dicts xs)"
| "as_dicts (JObj kvs) = JObj (dict_of (map (\<lambda>kv. (fst kv, as_dicts (snd kv))) kvs))"
| "as_dicts j = j"

definition loads :: "nat \<Rightarrow> string \<Rightarrow> json_exn + json" where
  "loads limit s = (case loads_pairs limit s of Inl e \<Rightarrow> Inl e | Inr v \<Rightarrow> Inr (as_dicts v))"

end
