(* ===== verification/Externals.thy ===== *)
theory Externals
  imports Json
begin

text \<open>
  What the program takes from outside the repository: the identifier and URL patterns and the token
  floor imported from the \<open>switchboard\<close> package (src/measure_twice/config.py, suite.py and ledger.py
  import them), Python's regular-expression engine for patterns that are data, and SHA-256.  They
  are the fields of a record that every definition using them takes as its argument.  The documented
  behaviour of the \<open>switchboard\<close> names (the comment at the import in config.py) is \<open>documented_ext\<close>;
  theorems that need it assume \<open>safe_name_contract\<close>.

  Files are read by the components as \<open>file_read\<close>: absent, unreadable, not UTF-8, or their text.
\<close>

text \<open>The error taxonomy that src/measure_twice/adapters/base.py imports by name.\<close>

datatype reason_class =
    RC_UNREACHABLE | RC_TIMEOUT | RC_OS_ERROR | RC_NON_JSON_BODY | RC_BAD_ENVELOPE | RC_TRUNCATED
  | RC_BAD_VERDICT

record externals =
  sb_safe_name :: "string \<Rightarrow> bool"          \<comment> \<open>\<open>_SAFE_NAME_RE.match\<close>\<close>
  sb_safe_name_full :: "string \<Rightarrow> bool"     \<comment> \<open>\<open>_SAFE_NAME_RE.fullmatch\<close>\<close>
  sb_base_url :: "string \<Rightarrow> bool"           \<comment> \<open>\<open>_BASE_URL_RE.match\<close>\<close>
  sb_min_max_tokens :: int                  \<comment> \<open>\<open>MIN_MAX_TOKENS\<close>\<close>
  re_compile :: "string \<Rightarrow> (string \<Rightarrow> bool) option"
    \<comment> \<open>\<open>re.compile(p, IGNORECASE | DOTALL)\<close>: \<open>None\<close> for \<open>re.error\<close>, else \<open>fullmatch\<close>\<close>
  sha256_hex :: "string \<Rightarrow> string"
  sb_reason :: "reason_class \<Rightarrow> string"     \<comment> \<open>the text of each reason class\<close>

definition name_char :: "char \<Rightarrow> bool" where
  "name_char c = (is_ascii_alnum c \<or> c = CHR ''.'' \<or> c = CHR ''_'' \<or> c = CHR ''-'')"

text \<open>A pattern with \<open>$\<close> under \<open>match\<close> also accepts one trailing line break.\<close>

definition chop_newline :: "string \<Rightarrow> string" where
  "chop_newline s = (if s \<noteq> [] \<and> last s = newline then butlast s else s)"

definition all_name_chars :: "string \<Rightarrow> bool" where
  "all_name_chars s = (s \<noteq> [] \<and> list_all name_char s)"

definition safe_name_contract :: "externals \<Rightarrow> bool" where
  "safe_name_contract ext \<longleftrightarrow>
     (\<forall>s. sb_safe_name ext s \<longleftrightarrow> all_name_chars (chop_newline s)) \<and>
     (\<forall>s. sb_safe_name_full ext s \<longleftrightarrow> all_name_chars s)"

text \<open>
  The documented patterns: \<open>^[A-Za-z0-9._\-]+$\<close> for names and
  \<open>^https?://[A-Za-z0-9._:\-]+(?:/[A-Za-z0-9._\-/]*)?$\<close> for URLs.
\<close>

definition doc_base_url :: "string \<Rightarrow> bool" where
  "doc_base_url s =
     (let u = chop_newline s;
          rest = (case strip_prefix ''https://'' u of Some r \<Rightarrow> Some r
                  | None \<Rightarrow> strip_prefix ''http://'' u)
      in case rest of
           None \<Rightarrow> False
         | Some r \<Rightarrow>
             (let host = takeWhile (\<lambda>c. c \<noteq> CHR ''/'') r; path = dropWhile (\<lambda>c. c \<noteq> CHR ''/'') r
              in host \<noteq> [] \<and> list_all (\<lambda>c. name_char c \<or> c = CHR '':'') host
                 \<and> list_all (\<lambda>c. name_char c \<or> c = CHR ''/'') path))"

text \<open>
  An instance for evaluation: the documented patterns and floor, an engine that knows only literal
  patterns without metacharacters and refuses every other one, and the identity as the digest.
\<close>

definition documented_ext :: externals where
  "documented_ext = \<lparr>
     sb_safe_name = (\<lambda>s. all_name_chars (chop_newline s)),
     sb_safe_name_full = all_name_chars,
     sb_base_url = doc_base_url,
     sb_min_max_tokens = 600,
     re_compile = (\<lambda>p. if list_all is_ascii_alnum p then Some (\<lambda>s. lower s = lower p) else None),
     sha256_hex = (\<lambda>s. s),
     sb_reason = (\<lambda>r. case r of RC_UNREACHABLE \<Rightarrow> ''unreachable'' | RC_TIMEOUT \<Rightarrow> ''timeout''
       | RC_OS_ERROR \<Rightarrow> ''os_error'' | RC_NON_JSON_BODY \<Rightarrow> ''non_json_body''
       | RC_BAD_ENVELOPE \<Rightarrow> ''bad_envelope'' | RC_TRUNCATED \<Rightarrow> ''truncated''
       | RC_BAD_VERDICT \<Rightarrow> ''bad_verdict'')\<rparr>"

lemma documented_ext_sel [simp]:
  "sb_safe_name documented_ext s = all_name_chars (chop_newline s)"
  "sb_safe_name_full documented_ext s = all_name_chars s"
  "sb_base_url documented_ext = doc_base_url"
  "sb_min_max_tokens documented_ext = 600"
  "sha256_hex documented_ext s = s"
  by (simp_all add: documented_ext_def)

lemma documented_ext_contract: "safe_name_contract documented_ext"
  by (simp add: safe_name_contract_def)

text \<open>What \<open>path.read_text\<close> and \<open>open\<close> can do.\<close>

datatype file_read = NoFile | OSFailure | NotUtf8 | FileText string

section \<open>Fields of a JSON object\<close>

definition fld :: "(string \<times> json) list \<Rightarrow> string \<Rightarrow> json" where
  "fld d k = (case map_of d k of Some v \<Rightarrow> v | None \<Rightarrow> JNull)"

definition fld_default :: "(string \<times> json) list \<Rightarrow> string \<Rightarrow> json \<Rightarrow> json" where
  "fld_default d k v = (case map_of d k of Some w \<Rightarrow> w | None \<Rightarrow> v)"

lemma fld_Cons: "fld ((k', v) # d) k = (if k = k' then v else fld d k)"
  by (simp add: fld_def)

lemma fld_default_Cons: "fld_default ((k', v) # d) k w = (if k = k' then v else fld_default d k w)"
  by (simp add: fld_default_def)

definition strs_json :: "string list \<Rightarrow> json" where
  "strs_json xs = JList (map JStr xs)"

fun the_str :: "json \<Rightarrow> string" where
  "the_str (JStr s) = s"
| "the_str _ = []"

lemma the_str_map [simp]: "map (the_str \<circ> JStr) xs = xs" "map the_str (map JStr xs) = xs"
  by (simp_all add: comp_def)

lemma list_all_is_str_map: "list_all is_str (map JStr xs)"
  by (simp add: list_all_iff)

lemma is_str_the_str: "is_str j \<Longrightarrow> JStr (the_str j) = j"
  by (cases j) auto

lemma map_JStr_the_str: "list_all is_str js \<Longrightarrow> map (JStr \<circ> the_str) js = js"
  by (induction js) (auto simp: is_str_the_str)

text \<open>\<open>sorted\<close> of the keys outside, and of the required keys missing from, an object.\<close>

definition unknown_keys :: "(string \<times> json) list \<Rightarrow> string list \<Rightarrow> string list" where
  "unknown_keys d allowed = sort (filter (\<lambda>k. k \<notin> set allowed) (keys d))"

definition missing_keys :: "(string \<times> json) list \<Rightarrow> string list \<Rightarrow> string list" where
  "missing_keys d required = sort (filter (\<lambda>k. k \<notin> set (keys d)) required)"

lemma sort_eq_Nil [simp]: "sort xs = [] \<longleftrightarrow> xs = []"
  by (metis set_empty set_sort)

lemma unknown_keys_Nil_iff: "unknown_keys d allowed = [] \<longleftrightarrow> set (keys d) \<subseteq> set allowed"
  by (auto simp: unknown_keys_def filter_empty_conv)

lemma missing_keys_Nil_iff: "missing_keys d required = [] \<longleftrightarrow> set required \<subseteq> set (keys d)"
  by (auto simp: missing_keys_def filter_empty_conv)

lemma keys_simps: "keys [] = []" "keys ((k, v) # d) = k # keys d" "keys (a @ b) = keys a @ keys b"
  by (simp_all add: keys_def)

lemma map_of_not_key: "k \<notin> set (keys d) \<Longrightarrow> map_of d k = None"
  by (simp add: keys_def map_of_eq_None_iff)

lemma map_of_keys: "k \<in> set (keys d) \<Longrightarrow> map_of d k = Some (fld d k)"
  by (auto simp: fld_def keys_def split: option.splits dest: map_of_SomeD
      simp flip: dom_map_of_conv_image_fst)

section \<open>Stored mappings as a contract\<close>

text \<open>
  Every stored value of the program is written as a JSON mapping and read back by a validating
  constructor: what the constructor accepts is well formed, and a written well-formed value is
  accepted and unchanged.
\<close>

locale mapping_codec =
  fixes to_map :: "'a \<Rightarrow> json" and from_map :: "json \<Rightarrow> ('e, 'a) res" and ok :: "'a \<Rightarrow> bool"
  assumes from_ok: "from_map j = Inr x \<Longrightarrow> ok x"
    and from_to: "ok x \<Longrightarrow> from_map (to_map x) = Inr x"
begin

lemma reread: "from_map j = Inr x \<Longrightarrow> from_map (to_map x) = Inr x"
  by (blast intro: from_to from_ok)

lemma accepted_iff: "(\<exists>j. from_map j = Inr x) \<longleftrightarrow> ok x"
  using from_ok from_to by blast

lemma to_map_inj: "ok x \<Longrightarrow> ok y \<Longrightarrow> to_map x = to_map y \<Longrightarrow> x = y"
  by (metis from_to sum.inject(2))

lemma list_from_ok: "mapE from_map js = Inr xs \<Longrightarrow> list_all ok xs"
  by (auto simp: list_all_iff dest: mapE_in_set from_ok)

lemma list_from_to: "list_all ok xs \<Longrightarrow> mapE from_map (map to_map xs) = Inr xs"
  by (induction xs) (auto simp: from_to)

end

end
