(* ===== verification/Json_Text.thy ===== *)
theory Json_Text
  imports Json
begin

text \<open>
  Facts about the JSON reader and writer that the stores rest on: the reader consumes text, reads
  back everything the writer wrote (\<open>parse_dumps\<close>, \<open>loads_dumps\<close>), the writer's text is printable
  ASCII without line breaks (\<open>dumps_printable\<close>), and no proper prefix of a written container is
  JSON (\<open>loads_prefix\<close>), which is what makes a torn append detectable.
\<close>

section \<open>The reader consumes text\<close>

lemma skip_ws_app: "skip_ws r = c # t \<Longrightarrow> length t < length r"
  by (rule skip_ws_Cons_le)

lemma parse_word_shorter: "parse_word w v s = Got x r \<Longrightarrow> w \<noteq> [] \<Longrightarrow> length r < length s"
proof -
  have "strip_prefix w s = Some r \<Longrightarrow> length s = length w + length r" for w
    by (induction w s rule: strip_prefix.induct) (auto split: if_splits)
  then show "parse_word w v s = Got x r \<Longrightarrow> w \<noteq> [] \<Longrightarrow> length r < length s"
    by (auto simp: parse_word_def split: option.splits)
qed

lemma is_digit_0 [simp]: "is_digit (CHR ''0'')"
  by (simp add: is_digit_def in_rng_def)

lemma list_all_takeWhile: "list_all P (takeWhile P xs)"
  by (induction xs) auto

lemma parse_intpart_Some:
  "parse_intpart s = Some (ip, r) \<Longrightarrow> s = ip @ r \<and> ip \<noteq> [] \<and> list_all is_digit ip"
  by (auto simp: parse_intpart_def list_all_takeWhile split: list.splits if_splits)

lemma parse_frac_app: "parse_frac s = (fr, r) \<Longrightarrow> \<exists>u. s = u @ r"
proof -
  assume "parse_frac s = (fr, r)"
  then have "r = s \<or> (\<exists>c d t. s = c # d # t \<and> r = dropWhile is_digit (d # t))"
    by (auto simp: parse_frac_def split: list.splits if_splits)
  then show ?thesis
  proof
    assume "r = s"
    then show ?thesis by (intro exI [of _ "[]"]) simp
  next
    assume "\<exists>c d t. s = c # d # t \<and> r = dropWhile is_digit (d # t)"
    then obtain c d t where "s = c # d # t" and "r = dropWhile is_digit (d # t)" by blast
    then have "s = (c # takeWhile is_digit (d # t)) @ r" by (simp only: append_Cons takeWhile_dropWhile_id)
    then show ?thesis ..
  qed
qed

lemma parse_digits_exp_app:
  "parse_digits_exp neg t s = (ex, r) \<Longrightarrow> s = v @ t \<Longrightarrow> \<exists>u. s = u @ r"
proof -
  assume a: "parse_digits_exp neg t s = (ex, r)" and s: "s = v @ t"
  then have "r = s \<or> r = dropWhile is_digit t"
    by (auto simp: parse_digits_exp_def split: list.splits if_splits)
  then show ?thesis
  proof
    assume "r = s"
    then show ?thesis by (intro exI [of _ "[]"]) simp
  next
    assume "r = dropWhile is_digit t"
    then have "s = (v @ takeWhile is_digit t) @ r"
      by (simp only: s append_assoc takeWhile_dropWhile_id)
    then show ?thesis ..
  qed
qed

lemma parse_exp_app: "parse_exp s = (ex, r) \<Longrightarrow> \<exists>u. s = u @ r"
proof -
  have nil: "\<exists>u. s = u @ s" by (intro exI [of _ "[]"]) simp
  assume a: "parse_exp s = (ex, r)"
  show ?thesis
  proof (cases s)
    case Nil
    with a show ?thesis by (simp add: parse_exp_def)
  next
    case (Cons c t)
    show ?thesis
    proof (cases t)
      case Nil
      with a Cons nil show ?thesis by (auto simp: parse_exp_def split: if_splits)
    next
      case (Cons sg t')
      have s1: "s = [c] @ t" and s2: "s = [c, sg] @ t'"
        using \<open>s = c # t\<close> Cons by simp_all
      from a \<open>s = c # t\<close> Cons nil parse_digits_exp_app [OF _ s1] parse_digits_exp_app [OF _ s2]
      show ?thesis by (auto simp: parse_exp_def split: if_splits)
    qed
  qed
qed

lemma parse_number_Got:
  assumes "parse_number neg s = Got v r"
  shows "\<exists>ip u fr ex. s = ip @ u @ r \<and> ip \<noteq> [] \<and> list_all is_digit ip \<and>
    number_value neg ip fr ex = Inr v"
proof -
  from assms obtain ip r0 fr r1 ex where p: "parse_intpart s = Some (ip, r0)"
    and f: "parse_frac r0 = (fr, r1)" and e: "parse_exp r1 = (ex, r)"
    and v: "number_value neg ip fr ex = Inr v"
    by (auto simp: parse_number_def split: option.splits prod.splits sum.splits)
  from parse_frac_app [OF f] obtain u1 where "r0 = u1 @ r1" ..
  moreover from parse_exp_app [OF e] obtain u2 where "r1 = u2 @ r" ..
  ultimately have "s = ip @ (u1 @ u2) @ r" using parse_intpart_Some [OF p] by simp
  with parse_intpart_Some [OF p] v show ?thesis by blast
qed

lemma parse_number_shorter: "parse_number neg s = Got v r \<Longrightarrow> length r < length s"
  by (auto dest!: parse_number_Got)

lemma parse_atom_shorter: "parse_atom s = Got v r \<Longrightarrow> length r < length s"
  by (auto simp: parse_atom_def dest!: parse_word_shorter parse_number_shorter
      split: list.splits if_splits)

lemma parse_val_shorter:
  shows "parse_val d s = Got v r \<Longrightarrow> length r < length s"
    and "parse_elems d s = Got vs r \<Longrightarrow> length r < length s"
    and "parse_members d s = Got kvs r \<Longrightarrow> length r < length s"
proof (induction d s and d s and d s arbitrary: v r and vs r and kvs r
    rule: parse_val_parse_elems_parse_members.induct)
  case (1 d)
  then show ?case by (simp add: parse_val.simps)
next
  case (2 d c t)
  have w: "length t' < length t" if "skip_ws t = x # t'" for x t'
    using that by (rule skip_ws_app)
  have m: "length r' < Suc (length t)"
    if "c = CHR ''{''" "d \<noteq> 0" "skip_ws t = x # t'" "x \<noteq> CHR ''}''"
      "parse_members (d - Suc 0) (x # t') = Got k r'" for x t' k r'
    using "2.IH"(1) that w by fastforce
  have l: "length r' < Suc (length t)"
    if "c = CHR ''[''" "d \<noteq> 0" "skip_ws t = x # t'" "x \<noteq> CHR '']''"
      "parse_elems (d - Suc 0) (x # t') = Got k r'" for x t' k r'
    using "2.IH"(2) that w by fastforce
  from "2.prems" show ?case
    by (auto simp: parse_val.simps dest!: parse_atom_shorter parse_chars_shorter
        dest: m l w less_SucI split: if_splits list.splits option.splits reading.splits)
next
  case (3 d s)
  have v: "length r0 < length s" if "parse_val d s = Got v0 r0" for v0 r0
    using that by (rule "3.IH"(1))
  have e: "length r' < length s"
    if "parse_val d s = Got v0 r0" "skip_ws r0 = CHR '','' # r1" "length (skip_ws r1) < length s"
      "parse_elems d (skip_ws r1) = Got k r'" for v0 r0 r1 k r'
    using "3.IH"(2) that by fastforce
  have w: "length r' < length s" if "parse_val d s = Got v0 r0" "skip_ws r0 = x # r'" for v0 r0 x r'
    using v [OF that(1)] skip_ws_app [OF that(2)] by simp
  from "3.prems" show ?case
    by (subst (asm) parse_elems.simps)
      (auto dest: e w split: if_splits list.splits reading.splits)
next
  case (4 d s)
  have v: "length r3 < Suc (length t)"
    if "s = CHR 0x22 # t" "parse_chars t = Some (k, r)" "skip_ws r = CHR '':'' # r1"
      "parse_val d (skip_ws r1) = Got v0 r2" "skip_ws r2 = x # r3" for t k r r1 v0 r2 x r3
  proof -
    have "length r2 < length (skip_ws r1)" using "4.IH"(1) that by force
    with skip_ws_le [of r1] that(1) parse_chars_shorter [OF that(2)] skip_ws_app [OF that(3)]
      skip_ws_app [OF that(5)] show ?thesis by (simp del: skip_ws_le)
  qed
  have m: "length r' < Suc (length t)"
    if "s = CHR 0x22 # t" "parse_chars t = Some (k, r)" "skip_ws r = CHR '':'' # r1"
      "parse_val d (skip_ws r1) = Got v0 r2" "skip_ws r2 = CHR '','' # r3"
      "length (skip_ws r3) < Suc (length t)" "parse_members d (skip_ws r3) = Got kv r'"
      for t k r r1 v0 r2 r3 kv r'
    using "4.IH"(2) that by force
  from "4.prems" show ?case
    by (subst (asm) parse_members.simps)
      (auto dest: v m split: if_splits list.splits option.splits reading.splits)
qed

section \<open>Reading back what was written\<close>

text \<open>What may follow a number without being read as part of it.\<close>

definition num_stop :: "string \<Rightarrow> bool" where
  "num_stop r = (case r of [] \<Rightarrow> True
     | c # _ \<Rightarrow> \<not> is_digit c \<and> c \<noteq> CHR ''.'' \<and> c \<noteq> CHR ''e'' \<and> c \<noteq> CHR ''E'')"

lemma num_stop_Nil [simp]: "num_stop []"
  by (simp add: num_stop_def)

lemma num_stop_Cons [simp]:
  "num_stop (c # r) \<longleftrightarrow> \<not> is_digit c \<and> c \<noteq> CHR ''.'' \<and> c \<noteq> CHR ''e'' \<and> c \<noteq> CHR ''E''"
  by (simp add: num_stop_def)

lemma hex_val_hex_digit: "d < 16 \<Longrightarrow> hex_val (hex_digit d) = Some d"
  by (simp add: hex_val_def hex_digit_def is_digit_def in_rng_def digit_val_def of_char_of)

lemma code_pt_less: "code_pt c < 256"
  by (metis of_char_mod_256 mod_less_divisor zero_less_numeral)

lemma hex4_code_pt:
  "hex4 (CHR ''0'') (CHR ''0'') (hex_digit (code_pt c div 16)) (hex_digit (code_pt c mod 16))
     = Some (code_pt c)"
proof -
  have "code_pt c div 16 < 16" using code_pt_less [of c] by (simp add: less_mult_imp_div_less)
  then have "hex_val (hex_digit (code_pt c div 16)) = Some (code_pt c div 16)"
    by (rule hex_val_hex_digit)
  moreover have "hex_val (hex_digit (code_pt c mod 16)) = Some (code_pt c mod 16)"
    by (rule hex_val_hex_digit) simp
  moreover have "hex_val (CHR ''0'') = Some 0"
    by (simp add: hex_val_def is_digit_def in_rng_def digit_val_def)
  ultimately show ?thesis by (simp add: hex4_def)
qed

lemma uchar_code_pt: "uchar (code_pt c) = c"
  by (simp add: uchar_def code_pt_less)

lemma parse_chars_esc:
  "parse_chars (esc_char c @ t) = map_option (\<lambda>(s, r). (c # s, r)) (parse_chars t)"
proof (cases "c \<in> {CHR 0x22, CHR 0x5C, CHR 0x0A, CHR 0x0D, CHR 0x09, CHR 0x0C, CHR 0x08}")
  case True
  then show ?thesis by (auto simp: esc_char_def unescape_def)
next
  case False
  then show ?thesis
    by (auto simp: esc_char_def in_rng_def hex4_code_pt uchar_code_pt)
qed

lemma parse_chars_dump:
  "parse_chars (concat (map esc_char s) @ CHR 0x22 # r) = Some (s, r)"
  by (induction s) (simp_all add: parse_chars_esc)

lemma digits_split:
  assumes "list_all is_digit ds" and "num_stop r"
  shows "takeWhile is_digit (ds @ r) = ds" and "dropWhile is_digit (ds @ r) = r"
proof -
  have "takeWhile is_digit r = []" "dropWhile is_digit r = r"
    using assms(2) by (cases r; simp)+
  with assms(1) show "takeWhile is_digit (ds @ r) = ds" and "dropWhile is_digit (ds @ r) = r"
    by (auto simp: takeWhile_append2 dropWhile_append2 list_all_iff)
qed

lemma digits_split_dot:
  assumes "list_all is_digit ds" and "\<not> is_digit c"
  shows "takeWhile is_digit (ds @ c # r) = ds" and "dropWhile is_digit (ds @ c # r) = c # r"
  using assms by (auto simp: takeWhile_append2 dropWhile_append2 list_all_iff)

lemma show_nat_head: "0 < n \<Longrightarrow> hd (show_nat n) \<noteq> CHR ''0''"
proof (induction n rule: show_nat.induct)
  case (1 n)
  show ?case
  proof (cases "n < 10")
    case True
    then have "code_pt (digit_char n) = 48 + n" by (rule code_pt_digit_char)
    with "1.prems" have "digit_char n \<noteq> CHR ''0''" by auto
    with True show ?thesis by (subst show_nat.simps) simp
  next
    case False
    with 1 show ?thesis by (subst show_nat.simps) (simp add: hd_append)
  qed
qed

lemma char_of_48: "char_of (48::nat) = CHR ''0''"
  by code_simp

lemma show_nat_0 [simp]: "show_nat 0 = ''0''"
  by (simp add: show_nat.simps digit_char_def char_of_48)

text \<open>An integer part: digits without a superfluous leading zero.\<close>

definition int_digits :: "string \<Rightarrow> bool" where
  "int_digits ds \<longleftrightarrow> ds \<noteq> [] \<and> list_all is_digit ds \<and> (hd ds = CHR ''0'' \<longrightarrow> ds = ''0'')"

lemma int_digits_show_nat [simp]: "int_digits (show_nat n)"
  by (cases "n = 0") (auto simp: int_digits_def show_nat_digits dest: show_nat_head)

lemma parse_intpart_digits:
  assumes "int_digits ds" and "r = [] \<or> \<not> is_digit (hd r)"
  shows "parse_intpart (ds @ r) = Some (ds, r)"
proof (cases "ds = ''0''")
  case True
  then show ?thesis by (simp add: parse_intpart_def)
next
  case False
  with assms obtain c ds' where ds: "ds = c # ds'" "c \<noteq> CHR ''0''" "is_digit c" "list_all is_digit ds'"
    by (cases ds) (auto simp: int_digits_def)
  have "takeWhile is_digit r = []" "dropWhile is_digit r = r"
    using assms(2) by (cases r; simp)+
  with ds show ?thesis
    by (auto simp: parse_intpart_def takeWhile_append2 dropWhile_append2 list_all_iff)
qed

lemma num_stop_not_digit: "num_stop r \<Longrightarrow> r = [] \<or> \<not> is_digit (hd r)"
  by (cases r) auto

lemma num_stop_no_frac: "num_stop r \<Longrightarrow> parse_frac r = (None, r)"
  by (auto simp: parse_frac_def split: list.splits)

lemma num_stop_no_exp: "num_stop r \<Longrightarrow> parse_exp r = (None, r)"
  by (auto simp: parse_exp_def split: list.splits)

lemma parse_number_int:
  assumes "int_digits ds" and "length ds \<le> int_max_str_digits" and "num_stop r"
  shows "parse_number neg (ds @ r) = Got (JInt ((if neg then -1 else 1) * int (read_nat ds))) r"
  using assms parse_intpart_digits [OF assms(1) num_stop_not_digit [OF assms(3)]]
  by (auto simp: parse_number_def num_stop_no_frac num_stop_no_exp number_value_def)

lemma parse_number_int_digits:
  assumes "int_digits ds" and "int_max_str_digits < length ds" and "num_stop r"
  shows "parse_number neg (ds @ r) = Fail IntDigitsError"
  using assms parse_intpart_digits [OF assms(1) num_stop_not_digit [OF assms(3)]]
  by (auto simp: parse_number_def num_stop_no_frac num_stop_no_exp number_value_def)

lemma is_digit_dot [simp]: "\<not> is_digit (CHR ''.'')" "\<not> is_digit (CHR ''e'')"
  by (simp_all add: is_digit_def in_rng_def)

lemma parse_frac_digits:
  assumes "list_all is_digit ds" and "ds \<noteq> []" and "r = [] \<or> \<not> is_digit (hd r)"
  shows "parse_frac (CHR ''.'' # ds @ r) = (Some ds, r)"
proof -
  obtain c ds' where ds: "ds = c # ds'" using assms(2) by (cases ds) auto
  have "takeWhile is_digit (ds @ r) = ds" "dropWhile is_digit (ds @ r) = r"
    using assms(1,3) by (cases r; auto simp: takeWhile_append2 dropWhile_append2 list_all_iff
        takeWhile_eq_all_conv dropWhile_eq_Nil_conv)+
  with assms(1) ds show ?thesis by (simp add: parse_frac_def)
qed

lemma read_nat_Cons_0 [simp]: "read_nat (CHR ''0'' # d) = read_nat d"
  by (simp add: read_nat_def digit_val_def)

lemma parse_exp_show_exp:
  assumes "num_stop r"
  shows "parse_exp (CHR ''e'' # show_exp x @ r) = (Some x, r)"
proof -
  let ?d = "show_nat (nat \<bar>x\<bar>)"
  let ?ds = "if length ?d < 2 then CHR ''0'' # ?d else ?d"
  have ds: "list_all is_digit ?ds" "?ds \<noteq> []" and rd: "read_nat ?ds = nat \<bar>x\<bar>"
    by (auto simp: show_nat_digits)
  obtain c ds' where c: "?ds = c # ds'" "is_digit c" using ds by (cases ?ds) auto
  have "parse_digits_exp neg (?ds @ r) s
      = (Some ((if neg then -1 else 1) * int (nat \<bar>x\<bar>)), r)" for neg s
    using digits_split [OF ds(1) assms] c rd by (auto simp: parse_digits_exp_def)
  then show ?thesis by (auto simp: show_exp_def parse_exp_def Let_def)
qed

lemma parse_number_frac:
  assumes "int_digits ds" and "list_all is_digit fs" and "fs \<noteq> []" and "num_stop r"
  shows "parse_number neg (ds @ CHR ''.'' # fs @ r)
    = Got (JFloat (mk_flt neg (read_nat (ds @ fs)) (- int (length fs)))) r"
  using assms parse_intpart_digits [OF assms(1), of "CHR ''.'' # fs @ r"]
    parse_frac_digits [OF assms(2,3) num_stop_not_digit [OF assms(4)]]
  by (simp add: parse_number_def num_stop_no_exp number_value_def Let_def)

lemma parse_number_exp:
  assumes "int_digits ds" and "num_stop r"
  shows "parse_number neg (ds @ CHR ''e'' # show_exp x @ r)
    = Got (JFloat (mk_flt neg (read_nat ds) x)) r"
proof -
  have "parse_frac (CHR ''e'' # show_exp x @ r) = (None, CHR ''e'' # show_exp x @ r)"
    by (auto simp: parse_frac_def split: list.splits)
  then show ?thesis
    using assms parse_intpart_digits [OF assms(1), of "CHR ''e'' # show_exp x @ r"]
      parse_exp_show_exp [OF assms(2)]
    by (simp add: parse_number_def number_value_def Let_def)
qed

lemma parse_number_frac_exp:
  assumes "int_digits ds" and "list_all is_digit fs" and "fs \<noteq> []" and "num_stop r"
  shows "parse_number neg (ds @ CHR ''.'' # fs @ CHR ''e'' # show_exp x @ r)
    = Got (JFloat (mk_flt neg (read_nat (ds @ fs)) (x - int (length fs)))) r"
  using assms parse_intpart_digits [OF assms(1), of "CHR ''.'' # fs @ CHR ''e'' # show_exp x @ r"]
    parse_frac_digits [OF assms(2,3), of "CHR ''e'' # show_exp x @ r"] parse_exp_show_exp [OF assms(4)]
  by (simp add: parse_number_def number_value_def Let_def)

text \<open>Normalisation undoes the trailing zeros that fixed notation adds.\<close>

lemma norm_dec_id: "flt_ok (Fin neg m e) \<Longrightarrow> norm_dec m e = (m, e)"
  by (subst norm_dec.simps) (auto split: if_splits)

lemma norm_dec_shift:
  "m \<noteq> 0 \<Longrightarrow> m mod 10 \<noteq> 0 \<Longrightarrow> norm_dec (m * 10 ^ j) x = (m, x + int j)"
proof (induction j arbitrary: x)
  case 0
  then show ?case by (subst norm_dec.simps) auto
next
  case (Suc j)
  have "m * 10 ^ Suc j div 10 = m * 10 ^ j" by simp
  with Suc show ?case by (subst norm_dec.simps) (simp add: algebra_simps)
qed

lemma mk_flt_id: "flt_ok (Fin neg m e) \<Longrightarrow> mk_flt neg m e = Fin neg m e"
  by (simp add: mk_flt_def norm_dec_id del: flt_ok.simps)

lemma norm_dec_ok: "norm_dec m e = (m', e') \<Longrightarrow> flt_ok (Fin neg m' e')"
proof (induction m e rule: norm_dec.induct)
  case (1 m e)
  show ?case
  proof (cases "m = 0 \<or> m mod 10 \<noteq> 0")
    case True
    with "1.prems" show ?thesis by (subst (asm) norm_dec.simps) (auto split: if_splits)
  next
    case False
    with "1.prems" have "norm_dec (m div 10) (e + 1) = (m', e')"
      by (subst (asm) norm_dec.simps) simp
    with "1.IH" False show ?thesis by simp
  qed
qed

lemma mk_flt_ok [simp, wf_intros]: "flt_ok (mk_flt neg m e)"
  by (auto simp: mk_flt_def simp del: flt_ok.simps split: prod.splits intro: norm_dec_ok)

lemma show_nat_length: "0 < length (show_nat m)"
  by simp

lemma replicate_0_digits: "list_all is_digit (replicate k (CHR ''0''))"
  by (simp add: list_all_iff)

lemma read_zeros_append: "read_nat (replicate k (CHR ''0'') @ ds) = read_nat ds"
  by (simp add: read_nat_append read_nat_zeros)

lemma list_all_take_drop:
  "list_all P xs \<Longrightarrow> list_all P (take n xs)" "list_all P xs \<Longrightarrow> list_all P (drop n xs)"
  by (auto simp: list_all_iff dest: in_set_takeD in_set_dropD)

lemma int_digits_take:
  assumes "m \<noteq> 0" and "0 < n"
  shows "int_digits (take n (show_nat m))"
proof -
  have "hd (show_nat m) \<noteq> CHR ''0''" using assms(1) show_nat_head by simp
  with assms(2) show ?thesis
    by (auto simp: int_digits_def list_all_take_drop show_nat_digits hd_take)
qed

lemma int_digits_append_zeros:
  assumes "m \<noteq> 0" shows "int_digits (show_nat m @ replicate k (CHR ''0''))"
proof -
  have "hd (show_nat m) \<noteq> CHR ''0''" using assms show_nat_head by simp
  then show ?thesis
    by (auto simp: int_digits_def show_nat_digits list_all_iff dest: bspec
        simp flip: list_all_iff [of is_digit "show_nat m"] split: if_splits)
      (use show_nat_digits in \<open>auto simp: list_all_iff\<close>)
qed

lemma parse_dump_dec:
  assumes ok: "flt_ok (Fin neg m e)" and r: "num_stop r"
  shows "parse_number neg (dump_dec m e @ r) = Got (JFloat (Fin neg m e)) r"
proof (cases "m = 0")
  case True
  have "parse_number neg (''0'' @ CHR ''.'' # ''0'' @ r)
      = Got (JFloat (mk_flt neg (read_nat (''0'' @ ''0'')) (- int (length ''0'')))) r"
    by (rule parse_number_frac [OF _ _ _ r]) (simp_all add: int_digits_def)
  moreover have "mk_flt neg 0 (-1) = Fin neg 0 0"
    by (simp add: mk_flt_def norm_dec.simps)
  ultimately show ?thesis using True ok by (simp add: dump_dec_def)
next
  case m: False
  let ?ds = "show_nat m" and ?k = "int (length (show_nat m)) + e"
  have dig: "list_all is_digit ?ds" by (rule show_nat_digits)
  have m10: "m mod 10 \<noteq> 0" using ok m by simp
  note id = mk_flt_id [OF ok]
  consider (small) "-4 < ?k" "?k \<le> 0" | (int) "?k \<le> 16" "int (length ?ds) \<le> ?k" "0 < ?k"
    | (mid) "?k \<le> 16" "0 < ?k" "?k < int (length ?ds)"
    | (exp1) "?k \<le> -4 \<or> 16 < ?k" "length ?ds = 1" | (exp) "?k \<le> -4 \<or> 16 < ?k" "length ?ds \<noteq> 1"
    by linarith
  then show ?thesis
  proof cases
    case small
    let ?z = "replicate (nat (- ?k)) (CHR ''0'')"
    have "parse_number neg (''0'' @ CHR ''.'' # (?z @ ?ds) @ r)
      = Got (JFloat (mk_flt neg (read_nat (''0'' @ ?z @ ?ds)) (- int (length (?z @ ?ds))))) r"
      by (rule parse_number_frac [OF _ _ _ r]) (simp_all add: int_digits_def dig replicate_0_digits)
    moreover have "- int (length (?z @ ?ds)) = e" using small by simp
    ultimately have "parse_number neg (''0'' @ CHR ''.'' # (?z @ ?ds) @ r)
        = Got (JFloat (Fin neg m e)) r"
      using id by (simp add: read_zeros_append)
    then show ?thesis using small m by (simp add: dump_dec_def Let_def)
  next
    case int
    let ?z = "replicate (nat (?k - int (length ?ds))) (CHR ''0'')"
    have "parse_number neg ((?ds @ ?z) @ CHR ''.'' # ''0'' @ r)
      = Got (JFloat (mk_flt neg (read_nat ((?ds @ ?z) @ ''0'')) (- int (length ''0'')))) r"
      by (rule parse_number_frac [OF _ _ _ r]) (simp_all add: int_digits_append_zeros m)
    moreover have "mk_flt neg (read_nat ((?ds @ ?z) @ ''0'')) (-1) = Fin neg m e"
    proof -
      have "read_nat ((?ds @ ?z) @ ''0'') = m * 10 ^ Suc (nat e)"
        using int by (simp add: read_nat_append read_nat_zeros)
      moreover have "norm_dec (m * 10 ^ Suc (nat e)) (-1) = (m, -1 + int (Suc (nat e)))"
        by (rule norm_dec_shift [OF m m10])
      ultimately show ?thesis using int by (simp add: mk_flt_def)
    qed
    ultimately have "parse_number neg ((?ds @ ?z) @ CHR ''.'' # ''0'' @ r)
        = Got (JFloat (Fin neg m e)) r" by simp
    then show ?thesis using int m by (simp add: dump_dec_def Let_def)
  next
    case mid
    let ?n = "nat ?k"
    have "parse_number neg (take ?n ?ds @ CHR ''.'' # drop ?n ?ds @ r)
      = Got (JFloat (mk_flt neg (read_nat (take ?n ?ds @ drop ?n ?ds))
          (- int (length (drop ?n ?ds))))) r"
      by (rule parse_number_frac [OF _ _ _ r])
        (use mid m in \<open>auto simp: int_digits_take list_all_take_drop dig\<close>)
    moreover have "- int (length (drop ?n ?ds)) = e" using mid by simp
    ultimately have "parse_number neg (take ?n ?ds @ CHR ''.'' # drop ?n ?ds @ r)
        = Got (JFloat (Fin neg m e)) r"
      using id by (simp only: append_take_drop_id read_show_nat)
    then show ?thesis using mid m by (simp add: dump_dec_def Let_def)
  next
    case exp1
    have "parse_number neg (?ds @ CHR ''e'' # show_exp (?k - 1) @ r)
        = Got (JFloat (mk_flt neg (read_nat ?ds) (?k - 1))) r"
      by (rule parse_number_exp [OF _ r]) simp
    then show ?thesis using exp1 m id by (auto simp: dump_dec_def Let_def)
  next
    case exp
    have l: "1 < length ?ds" using exp(2) show_nat_length [of m] by linarith
    have "parse_number neg (take 1 ?ds @ CHR ''.'' # drop 1 ?ds @ CHR ''e'' # show_exp (?k - 1) @ r)
      = Got (JFloat (mk_flt neg (read_nat (take 1 ?ds @ drop 1 ?ds))
          (?k - 1 - int (length (drop 1 ?ds))))) r"
      by (rule parse_number_frac_exp [OF _ _ _ r])
        (use l m in \<open>auto simp: int_digits_take list_all_take_drop dig\<close>)
    moreover have "?k - 1 - int (length (drop 1 ?ds)) = e" using l by simp
    ultimately have "parse_number neg (take 1 ?ds @ CHR ''.'' # drop 1 ?ds @ CHR ''e''
        # show_exp (?k - 1) @ r) = Got (JFloat (Fin neg m e)) r"
      using id by (simp only: append_take_drop_id read_show_nat)
    then show ?thesis using exp m l by (auto simp: dump_dec_def Let_def)
  qed
qed

lemma dump_dec_head: "\<exists>c t. dump_dec m e = c # t \<and> is_digit c"
proof -
  obtain c t where c: "show_nat m = c # t" "is_digit c"
    using show_nat_digits [of m] by (cases "show_nat m") auto
  have "take k (show_nat m) = c # take (k - 1) t" if "0 < k" for k
    using c that by (cases k) auto
  then have "dump_dec m e \<noteq> [] \<and> (hd (dump_dec m e) = c \<or> hd (dump_dec m e) = CHR ''0'')"
    using c(1) by (simp add: dump_dec_def Let_def hd_append hd_take)
  with c(2) show ?thesis by (cases "dump_dec m e") auto
qed

lemma digit_neq:
  "is_digit c \<Longrightarrow> c \<notin> {CHR 0x22, CHR ''{'', CHR ''['', CHR ''n'', CHR ''t'', CHR ''f'', CHR ''N'',
     CHR ''I'', CHR ''-''}"
  by (auto simp: is_digit_def in_rng_def)

lemma parse_val_digit: "is_digit c \<Longrightarrow> parse_val d (c # t) = parse_number False (c # t)"
  using digit_neq [of c] by (simp add: parse_val.simps parse_atom_def)

lemma parse_val_minus:
  "is_digit c \<Longrightarrow> parse_val d (CHR ''-'' # c # t) = parse_number True (c # t)"
  using digit_neq [of c] by (simp add: parse_val.simps parse_atom_def)

lemma parse_val_int:
  assumes "json_ok (JInt i)" and "num_stop r"
  shows "parse_val d (show_int i @ r) = Got (JInt i) r"
proof -
  obtain c t where c: "show_nat (nat \<bar>i\<bar>) = c # t" "is_digit c"
    using show_nat_digits [of "nat \<bar>i\<bar>"] by (cases "show_nat (nat \<bar>i\<bar>)") auto
  have n: "parse_number neg (show_nat (nat \<bar>i\<bar>) @ r)
      = Got (JInt ((if neg then -1 else 1) * int (nat \<bar>i\<bar>))) r" for neg
    using parse_number_int [OF int_digits_show_nat _ assms(2), of "nat \<bar>i\<bar>" neg] assms(1) by simp
  show ?thesis
  proof (cases "i < 0")
    case True
    with c n [of True] show ?thesis
      by (simp add: show_int_def parse_val_minus)
  next
    case False
    with c n [of False] show ?thesis
      by (simp add: show_int_def parse_val_digit)
  qed
qed

lemma parse_val_flt:
  assumes "flt_ok f" and "num_stop r"
  shows "parse_val d (dump_flt f @ r) = Got (JFloat f) r"
proof (cases f)
  case (Fin neg m e)
  obtain c t where c: "dump_dec m e = c # t" "is_digit c" using dump_dec_head by blast
  have "parse_number neg (dump_dec m e @ r) = Got (JFloat f) r"
    using parse_dump_dec assms Fin by blast
  with c Fin show ?thesis by (cases neg) (simp_all add: parse_val_digit parse_val_minus)
qed (auto simp: parse_val.simps parse_atom_def parse_word_def)

definition sep_ok :: "string \<Rightarrow> string \<Rightarrow> bool" where
  "sep_ok isep ksep \<longleftrightarrow>
     (\<exists>w. isep = CHR '','' # w \<and> list_all is_ws w) \<and> (\<exists>w. ksep = CHR '':'' # w \<and> list_all is_ws w)"

text \<open>How a written value starts: no white space and no closing bracket.\<close>

definition val_head :: "string \<Rightarrow> bool" where
  "val_head s = (case s of [] \<Rightarrow> False
     | c # _ \<Rightarrow> \<not> is_ws c \<and> c \<noteq> CHR '']'' \<and> c \<noteq> CHR ''}'')"

lemma val_head_append: "val_head s \<Longrightarrow> val_head (s @ t)"
  by (cases s) (auto simp: val_head_def)

lemma skip_ws_val_head: "val_head s \<Longrightarrow> skip_ws s = s"
  by (cases s) (auto simp: val_head_def skip_ws_def)

lemma skip_ws_append: "list_all is_ws w \<Longrightarrow> skip_ws (w @ s) = skip_ws s"
  by (induction w) (auto simp: skip_ws_def)

lemma skip_ws_Cons [simp]: "\<not> is_ws c \<Longrightarrow> skip_ws (c # s) = c # s"
  by (simp add: skip_ws_def)

lemma val_head_digit: "is_digit c \<Longrightarrow> val_head (c # t)"
  by (auto simp: val_head_def is_ws_def is_digit_def in_rng_def)

lemma val_head_show_nat: "val_head (show_nat n)"
  using show_nat_digits [of n] by (cases "show_nat n") (auto intro: val_head_digit)

lemma val_head_dumps: "val_head (dumps_with isep ksep j)"
proof (cases j)
  case (JInt i)
  then show ?thesis
    by (simp add: show_int_def val_head_show_nat) (simp add: val_head_def is_ws_def)
next
  case (JFloat f)
  show ?thesis
  proof (cases f)
    case (Fin neg m e)
    obtain c t where "dump_dec m e = c # t" "is_digit c" using dump_dec_head by blast
    with JFloat Fin show ?thesis
      by (simp add: val_head_digit) (simp add: val_head_def is_ws_def)
  qed (simp_all add: JFloat val_head_def is_ws_def)
qed (simp_all add: val_head_def is_ws_def dump_str_def)

lemma val_head_dump_str: "val_head (dump_str k @ t)"
  by (simp add: val_head_def is_ws_def dump_str_def)

lemma is_ws_simps [simp]: "\<not> is_ws (CHR '','')" "\<not> is_ws (CHR '':'')" "\<not> is_ws (CHR '']'')"
  "\<not> is_ws (CHR ''}'')" "\<not> is_ws (CHR ''['')" "\<not> is_ws (CHR ''{'')" "\<not> is_ws (CHR 0x22)"
  by (simp_all add: is_ws_def)

lemma num_stop_simps [simp]: "\<not> is_digit (CHR '','')" "\<not> is_digit (CHR '']'')"
  "\<not> is_digit (CHR ''}'')"
  by (simp_all add: is_digit_def in_rng_def)

text \<open>The elements of a list or an object, with white space \<open>z\<close> before the closing bracket.\<close>

lemma num_stop_ws:
  assumes "list_all is_ws z" and "c = CHR '']'' \<or> c = CHR ''}''"
  shows "num_stop (z @ c # r)"
  using assms by (cases z) (auto simp: is_ws_def is_digit_def in_rng_def)

lemma skip_ws_close: "list_all is_ws z \<Longrightarrow> \<not> is_ws c \<Longrightarrow> skip_ws (z @ c # r) = c # r"
  by (simp add: skip_ws_append skip_ws_Cons)

lemma parse_elems_join_ws:
  assumes sep: "isep = CHR '','' # w" "list_all is_ws w" and "xs \<noteq> []" and z: "list_all is_ws z"
    and IH: "\<And>x r. x \<in> set xs \<Longrightarrow> num_stop r \<Longrightarrow> parse_val d (D x @ r) = Got x r"
    and hd: "\<And>x. val_head (D x)"
  shows "parse_elems d (join isep (map D xs) @ z @ CHR '']'' # r) = Got xs r"
  using \<open>xs \<noteq> []\<close> IH
proof (induction xs)
  case Nil
  then show ?case by simp
next
  case (Cons x xs)
  show ?case
  proof (cases "xs = []")
    case True
    with Cons.prems(2) [of x "z @ CHR '']'' # r"] show ?thesis
      by (simp add: parse_elems.simps num_stop_ws [OF z] skip_ws_close [OF z])
  next
    case False
    let ?t = "join isep (map D xs) @ z @ CHR '']'' # r"
    have jn: "join isep (map D (x # xs)) @ z @ CHR '']'' # r = D x @ CHR '','' # w @ ?t"
      using False sep by (simp add: join_Cons)
    have "parse_val d (D x @ CHR '','' # w @ ?t) = Got x (CHR '','' # w @ ?t)"
      using Cons.prems(2) by simp
    moreover have "val_head ?t" using hd False by (cases xs; cases "tl xs") (auto simp: val_head_append)
    then have "skip_ws (w @ ?t) = ?t" using sep(2) by (simp add: skip_ws_append skip_ws_val_head)
    moreover have "length ?t < length (D x @ CHR '','' # w @ ?t)" by simp
    moreover have "parse_elems d ?t = Got xs r" using Cons.IH False Cons.prems(2) by simp
    ultimately show ?thesis
      unfolding jn by (subst parse_elems.simps) simp
  qed
qed

lemmas parse_elems_join = parse_elems_join_ws [where z = "[]", simplified]

lemma val_head_join:
  assumes "xs \<noteq> []" and "\<And>x. val_head (D x)"
  shows "val_head (join isep (map D xs) @ t)"
  using assms by (cases xs; cases "tl xs") (auto intro: val_head_append)

lemma parse_members_join_ws:
  assumes sep: "isep = CHR '','' # w" "list_all is_ws w" and z: "list_all is_ws z"
    and ksep: "ksep = CHR '':'' # v" "list_all is_ws v" and "kvs \<noteq> []"
    and IH: "\<And>kv r. kv \<in> set kvs \<Longrightarrow> num_stop r \<Longrightarrow> parse_val d (D (snd kv) @ r) = Got (snd kv) r"
    and hd: "\<And>x. val_head (D x)"
    and K: "\<And>k. K k = CHR 0x22 # B k @ [CHR 0x22]" "\<And>k s. parse_chars (B k @ CHR 0x22 # s) = Some (k, s)"
  shows "parse_members d (join isep (map (\<lambda>kv. K (fst kv) @ ksep @ D (snd kv)) kvs)
      @ z @ CHR ''}'' # r) = Got kvs r"
  using \<open>kvs \<noteq> []\<close> IH
proof (induction kvs)
  case Nil
  then show ?case by simp
next
  case (Cons kv kvs)
  let ?M = "\<lambda>kv. K (fst kv) @ ksep @ D (snd kv)"
  obtain k x where kv: "kv = (k, x)" by (cases kv)
  have x: "parse_val d (D x @ t) = Got x t" if "num_stop t" for t
    using Cons.prems(2) [of kv t] that kv by simp
  have ws: "skip_ws (v @ D x @ t) = D x @ t" for t
    using ksep(2) hd by (simp add: skip_ws_append skip_ws_val_head val_head_append)
  show ?case
  proof (cases "kvs = []")
    case True
    with x [of "z @ CHR ''}'' # r"] show ?thesis
      by (simp add: kv ksep(1) K parse_members.simps ws num_stop_ws [OF z] skip_ws_close [OF z])
  next
    case False
    let ?t = "join isep (map ?M kvs) @ z @ CHR ''}'' # r"
    have "val_head ?t" by (rule val_head_join [OF False]) (simp add: K(1) val_head_def is_ws_def)
    then have t: "skip_ws (w @ ?t) = ?t" using sep(2) by (simp add: skip_ws_append skip_ws_val_head)
    have jn: "join isep (map ?M (kv # kvs)) @ z @ CHR ''}'' # r
        = CHR 0x22 # B k @ CHR 0x22 # CHR '':'' # v @ D x @ CHR '','' # w @ ?t"
      using False by (simp add: join_Cons kv sep(1) ksep(1) K(1))
    have "parse_val d (D x @ CHR '','' # w @ ?t) = Got x (CHR '','' # w @ ?t)"
      by (rule x) simp
    moreover have "parse_members d ?t = Got kvs r" using Cons.IH False Cons.prems(2) by simp
    ultimately show ?thesis
      unfolding jn by (subst parse_members.simps) (simp add: K(2) ws t kv)
  qed
qed

lemmas parse_members_join = parse_members_join_ws [where z = "[]", simplified]

lemma fold_max_ge: "a \<le> fold max ns (a::nat)"
  by (induction ns arbitrary: a) (auto intro: le_trans [OF max.cobounded2])

lemma in_fold_max: "n \<in> set ns \<Longrightarrow> n \<le> fold max ns (a::nat)"
  by (induction ns arbitrary: a) (auto intro: le_trans [OF max.cobounded1 fold_max_ge])

lemma depth_list: "x \<in> set xs \<Longrightarrow> depth x < depth (JList xs)"
  using in_fold_max [of "depth x" "map depth xs" 0] by (simp add: less_Suc_eq_le)

lemma depth_obj: "kv \<in> set kvs \<Longrightarrow> depth (snd kv) < depth (JObj kvs)"
proof -
  assume "kv \<in> set kvs"
  then have "depth (snd kv) \<in> set (map (\<lambda>kv. depth (snd kv)) kvs)" by auto
  then show ?thesis using in_fold_max by (simp only: depth.simps less_Suc_eq_le)
qed

lemma parse_dumps:
  assumes "sep_ok isep ksep" and "json_ok j" and "depth j \<le> d" and "num_stop r"
  shows "parse_val d (dumps_with isep ksep j @ r) = Got j r"
proof -
  from assms(1) obtain w v where sep: "isep = CHR '','' # w" "list_all is_ws w"
      "ksep = CHR '':'' # v" "list_all is_ws v"
    by (auto simp: sep_ok_def)
  let ?D = "dumps_with isep ksep"
  from assms(2-4) show ?thesis
  proof (induction j arbitrary: d r)
    case JNull
    then show ?case by (simp add: parse_val.simps parse_atom_def parse_word_def)
  next
    case (JBool b)
    then show ?case by (simp add: parse_val.simps parse_atom_def parse_word_def)
  next
    case (JInt i)
    then show ?case by (simp only: dumps_with.simps parse_val_int)
  next
    case (JFloat f)
    then show ?case by (simp add: parse_val_flt)
  next
    case (JStr s)
    then show ?case by (simp add: dump_str_def parse_val.simps parse_chars_dump)
  next
    case (JList xs)
    have d0: "d \<noteq> 0" using JList.prems(2) by (cases d) auto
    show ?case
    proof (cases "xs = []")
      case True
      with d0 show ?thesis by (simp add: parse_val.simps)
    next
      case False
      let ?t = "join isep (map ?D xs) @ CHR '']'' # r"
      have IH: "parse_val (d - 1) (?D x @ s) = Got x s" if "x \<in> set xs" "num_stop s" for x s
        using JList.IH [OF that(1) _ _ that(2)] JList.prems(1,2) depth_list [OF that(1)] that(1)
        by (auto simp: list_all_iff)
      have "parse_elems (d - 1) ?t = Got xs r"
        by (rule parse_elems_join [OF sep(1,2) False IH val_head_dumps])
      moreover have "val_head ?t" by (rule val_head_join [OF False val_head_dumps])
      ultimately show ?thesis using d0
        by (cases ?t) (auto simp: parse_val.simps skip_ws_val_head val_head_def)
    qed
  next
    case (JObj kvs)
    have d0: "d \<noteq> 0" using JObj.prems(2) by (cases d) auto
    show ?case
    proof (cases "kvs = []")
      case True
      with d0 show ?thesis by (simp add: parse_val.simps)
    next
      case False
      let ?M = "\<lambda>kv. dump_str (fst kv) @ ksep @ ?D (snd kv)"
      let ?t = "join isep (map ?M kvs) @ CHR ''}'' # r"
      have IH: "parse_val (d - 1) (?D (snd kv) @ s) = Got (snd kv) s"
        if "kv \<in> set kvs" "num_stop s" for kv s
        using JObj.IH [OF that(1), of "snd kv" "d - 1" s] that JObj.prems(1,2) depth_obj [OF that(1)]
        by (cases kv) (auto simp: list_all_iff)
      have "parse_members (d - 1) ?t = Got kvs r"
        by (rule parse_members_join [OF sep False IH val_head_dumps dump_str_def parse_chars_dump])
      moreover have "val_head ?t"
        by (rule val_head_join [OF False]) (rule val_head_dump_str)
      ultimately show ?thesis using d0
        by (cases ?t) (auto simp: parse_val.simps skip_ws_val_head val_head_def)
    qed
  qed
qed

lemma sep_ok_default: "sep_ok '', '' '': ''" and sep_ok_compact: "sep_ok '','' '':''"
  by (auto simp: sep_ok_def is_ws_def)

lemma as_dicts_id: "json_ok j \<Longrightarrow> as_dicts j = j"
proof (induction j)
  case (JList xs)
  then show ?case by (auto simp: list_all_iff intro: map_idI)
next
  case (JObj kvs)
  have "map (\<lambda>kv. (fst kv, as_dicts (snd kv))) kvs = kvs"
  proof (rule map_idI)
    fix kv
    assume "kv \<in> set kvs"
    then have "json_ok (snd kv)" "snd kv \<in> Basic_BNFs.snds kv"
      using JObj.prems by (auto simp: list_all_iff snds.simps prod_eq_iff)
    then show "(fst kv, as_dicts (snd kv)) = kv" using JObj.IH [of kv "snd kv"] \<open>kv \<in> set kvs\<close> by (cases kv) simp
  qed
  then show ?case using JObj.prems by (simp add: dict_of_distinct keys_def)
qed simp_all

lemma loads_pairs_dumps:
  assumes "sep_ok isep ksep" and "json_ok j" and "depth j \<le> d"
  shows "loads_pairs d (dumps_with isep ksep j) = Inr j"
  using parse_dumps [OF assms num_stop_Nil] by (simp add: loads_pairs_def skip_ws_val_head val_head_dumps) (simp add: skip_ws_def)

lemma loads_dumps_with:
  assumes "sep_ok isep ksep" and "json_ok j" and "depth j \<le> d"
  shows "loads d (dumps_with isep ksep j) = Inr j"
  by (simp add: loads_def loads_pairs_dumps [OF assms] as_dicts_id [OF assms(2)])

theorem loads_dumps:
  assumes "json_ok j" and "depth j \<le> d"
  shows "loads d (dumps j) = Inr j"
  unfolding dumps_def by (rule loads_dumps_with [OF sep_ok_default assms])

section \<open>Torn text\<close>

text \<open>Reading is stable under appending: what follows a complete value does not change it.\<close>

lemma skip_ws_ext: "skip_ws r = x # r' \<Longrightarrow> skip_ws (r @ q) = x # r' @ q"
  by (induction r) (auto simp: skip_ws_def split: if_splits)

lemma dropWhile_ext:
  "dropWhile P s \<noteq> [] \<Longrightarrow> dropWhile P (s @ q) = dropWhile P s @ q"
  "dropWhile P s \<noteq> [] \<Longrightarrow> takeWhile P (s @ q) = takeWhile P s"
  by (induction s) (auto split: if_splits)

lemma parse_chars_ext: "parse_chars p = Some (s, r) \<Longrightarrow> parse_chars (p @ q) = Some (s, r @ q)"
proof (induction p arbitrary: s r rule: parse_chars.induct)
  case 1
  then show ?case by simp
next
  case (2 c t)
  consider (quote) "c = CHR 0x22" | (esc) "c = CHR 0x5C" | (plain) "c \<noteq> CHR 0x22" "c \<noteq> CHR 0x5C"
    by blast
  then show ?case
  proof cases
    case quote
    with "2.prems" show ?thesis by simp
  next
    case plain
    with "2.prems" obtain s' where "parse_chars t = Some (s', r)" "s = c # s'" "\<not> code_pt c < 32"
      by (auto split: if_splits)
    with plain "2.IH"(3) show ?thesis by simp
  next
    case esc
    with "2.prems" obtain x t' where t: "t = x # t'" by (cases t) auto
    show ?thesis
    proof (cases "x = CHR ''u''")
      case True
      with "2.prems" esc t obtain a b d e t'' where t': "t' = a # b # d # e # t''"
        by (auto split: list.splits)
      with "2.prems" esc t True obtain n s' where "hex4 a b d e = Some n"
          "parse_chars t'' = Some (s', r)" "s = uchar n # s'"
        by (auto split: option.splits)
      with "2.IH"(1) esc t True t' show ?thesis by simp
    next
      case False
      with "2.prems" esc t obtain y s' where "unescape x = Some y"
          "parse_chars t' = Some (s', r)" "s = y # s'"
        by (auto split: option.splits)
      with "2.IH"(2) esc t False show ?thesis by simp
    qed
  qed
qed

lemma parse_word_ext: "parse_word w v p = Got v' r \<Longrightarrow> parse_word w v (p @ q) = Got v' (r @ q)"
proof -
  have "strip_prefix w p = Some r \<Longrightarrow> strip_prefix w (p @ q) = Some (r @ q)" for r
    by (induction w p rule: strip_prefix.induct) (auto split: if_splits)
  then show "parse_word w v p = Got v' r \<Longrightarrow> parse_word w v (p @ q) = Got v' (r @ q)"
    by (auto simp: parse_word_def split: option.splits)
qed

lemma parse_intpart_ext:
  "parse_intpart p = Some (ip, r) \<Longrightarrow> r \<noteq> [] \<Longrightarrow> parse_intpart (p @ q) = Some (ip, r @ q)"
  using dropWhile_ext [of is_digit p q]
  by (auto simp: parse_intpart_def split: list.splits if_splits)

lemma parse_digits_exp_ext:
  assumes "parse_digits_exp neg t s = (ex, r)" and "r \<noteq> []" and "num_stop r" and "\<not> num_stop s"
  shows "parse_digits_exp neg (t @ q) (s @ q) = (ex, r @ q)"
  using assms dropWhile_ext [of is_digit t q]
  by (auto simp: parse_digits_exp_def split: list.splits if_splits)

lemma parse_exp_ext:
  assumes a: "parse_exp s = (ex, r)" and r: "r \<noteq> []" "num_stop r"
  shows "parse_exp (s @ q) = (ex, r @ q)"
proof (cases "\<exists>c t. s = c # t \<and> (c = CHR ''e'' \<or> c = CHR ''E'')")
  case False
  with a r show ?thesis by (cases s) (auto simp: parse_exp_def)
next
  case True
  then obtain c t where s: "s = c # t" "c = CHR ''e'' \<or> c = CHR ''E''" by blast
  then have ns: "\<not> num_stop s" by auto
  show ?thesis
  proof (cases t)
    case Nil
    with a s r show ?thesis by (auto simp: parse_exp_def)
  next
    case (Cons sg t')
    with a s parse_digits_exp_ext [OF _ r ns, of _ t' ex q] parse_digits_exp_ext [OF _ r ns, of _ t ex q]
    show ?thesis by (auto simp: parse_exp_def split: if_splits)
  qed
qed

lemma parse_frac_ext:
  assumes a: "parse_frac s = (fr, r)" and r: "r \<noteq> []" "hd r \<noteq> CHR ''.''"
  shows "parse_frac (s @ q) = (fr, r @ q)"
proof (cases "\<exists>d t. s = CHR ''.'' # d # t \<and> is_digit d")
  case True
  then obtain d t where s: "s = CHR ''.'' # d # t" "is_digit d" by blast
  with a r dropWhile_ext [of is_digit "d # t" q] show ?thesis by (auto simp: parse_frac_def)
next
  case False
  then have "parse_frac s = (None, s)"
    by (auto simp: parse_frac_def split: list.splits)
  with a r have "fr = None" "r = s" by auto
  with r show ?thesis by (cases s) (auto simp: parse_frac_def split: list.splits)
qed

lemma parse_exp_head: "parse_exp s = (ex, r) \<Longrightarrow> r \<noteq> [] \<Longrightarrow> num_stop r \<Longrightarrow> s \<noteq> [] \<and> hd s \<noteq> CHR ''.''"
  by (cases s) (auto simp: parse_exp_def)

lemma parse_frac_nonempty: "parse_frac s = (fr, r) \<Longrightarrow> r \<noteq> [] \<Longrightarrow> s \<noteq> []"
  by (auto simp: parse_frac_def)

lemma parse_number_ext:
  assumes "parse_number neg p = Got v r" and "r \<noteq> []" and "num_stop r"
  shows "parse_number neg (p @ q) = Got v (r @ q)"
proof -
  from assms(1) obtain ip r0 fr r1 ex where p: "parse_intpart p = Some (ip, r0)"
    and f: "parse_frac r0 = (fr, r1)" and e: "parse_exp r1 = (ex, r)"
    and v: "number_value neg ip fr ex = Inr v"
    by (auto simp: parse_number_def split: option.splits prod.splits sum.splits)
  from parse_exp_head [OF e assms(2,3)] have r1: "r1 \<noteq> []" "hd r1 \<noteq> CHR ''.''" by auto
  have "r0 \<noteq> []" using parse_frac_nonempty [OF f r1(1)] .
  with parse_intpart_ext [OF p, of q] parse_frac_ext [OF f r1, of q] parse_exp_ext [OF e assms(2,3), of q] v
  show ?thesis by (simp add: parse_number_def)
qed

lemma parse_atom_ext:
  assumes "parse_atom p = Got v r" and "r \<noteq> []" and "num_stop r"
  shows "parse_atom (p @ q) = Got v (r @ q)"
proof (cases p)
  case Nil
  with assms show ?thesis by (simp add: parse_atom_def)
next
  case (Cons c t)
  note word = parse_word_ext [of _ _ p v r q]
  show ?thesis
  proof (cases "c = CHR ''-''")
    case True
    with assms(1) Cons obtain x t' where t: "t = x # t'" by (auto simp: parse_atom_def split: list.splits)
    show ?thesis
    proof (cases "x = CHR ''I''")
      case True
      with \<open>c = CHR ''-''\<close> Cons t assms(1) word show ?thesis by (simp add: parse_atom_def)
    next
      case False
      with \<open>c = CHR ''-''\<close> Cons t assms parse_number_ext [of True t v r q] show ?thesis
        by (simp add: parse_atom_def)
    qed
  next
    case False
    with Cons assms word parse_number_ext [of False p v r q] show ?thesis
      by (simp add: parse_atom_def split: if_splits)
  qed
qed

text \<open>Self-delimiting values: their last character closes them.\<close>

fun closed_val :: "json \<Rightarrow> bool" where
  "closed_val (JStr _) = True"
| "closed_val (JList _) = True"
| "closed_val (JObj _) = True"
| "closed_val _ = False"

lemma ws_not_num: "is_ws c \<Longrightarrow> \<not> is_digit c \<and> c \<noteq> CHR ''.'' \<and> c \<noteq> CHR ''e'' \<and> c \<noteq> CHR ''E''"
  by (auto simp: is_ws_def is_digit_def in_rng_def)

lemma after_value:
  assumes "skip_ws r = x # r'" and "x \<in> {CHR '','', CHR '']'', CHR ''}''}"
  shows "r \<noteq> [] \<and> num_stop r"
proof (cases r)
  case Nil
  with assms show ?thesis by (simp add: skip_ws_def)
next
  case (Cons c t)
  show ?thesis
  proof (cases "is_ws c")
    case True
    with Cons show ?thesis by (simp add: ws_not_num)
  next
    case False
    with assms Cons show ?thesis by auto
  qed
qed

lemma parse_val_container:
  "parse_val d (CHR ''{'' # t) = Got v r \<Longrightarrow> closed_val v"
  "parse_val d (CHR ''['' # t) = Got v r \<Longrightarrow> closed_val v"
  by (auto simp: parse_val.simps split: list.splits if_splits reading.splits)

lemma parse_number_open: "parse_number neg s = Got v r \<Longrightarrow> \<not> closed_val v"
  by (auto simp: number_value_def Let_def dest!: parse_number_Got split: if_splits)

lemma parse_word_open: "parse_word w v s = Got v' r \<Longrightarrow> v' = v"
  by (auto simp: parse_word_def split: option.splits)

lemma parse_atom_open: "parse_atom s = Got v r \<Longrightarrow> \<not> closed_val v"
  by (auto simp: parse_atom_def dest!: parse_number_open parse_word_open split: list.splits if_splits)

lemma parse_ext:
  shows "parse_val d p = Got v r \<Longrightarrow> r \<noteq> [] \<and> num_stop r \<or> closed_val v \<Longrightarrow>
      parse_val d (p @ q) = Got v (r @ q)"
    and "parse_elems d p = Got vs r \<Longrightarrow> parse_elems d (p @ q) = Got vs (r @ q)"
    and "parse_members d p = Got kvs r \<Longrightarrow> parse_members d (p @ q) = Got kvs (r @ q)"
proof (induction d p and d p and d p arbitrary: v r and vs r and kvs r
    rule: parse_val_parse_elems_parse_members.induct)
  case (1 d)
  then show ?case by (simp add: parse_val.simps)
next
  case (2 d c t)
  consider (str) "c = CHR 0x22" | (obj) "c = CHR ''{''" | (arr) "c = CHR ''[''"
    | (atom) "c \<noteq> CHR 0x22" "c \<noteq> CHR ''{''" "c \<noteq> CHR ''[''" by blast
  then show ?case
  proof cases
    case str
    with "2.prems" show ?thesis
      by (auto simp: parse_val.simps dest: parse_chars_ext [where q = q] split: option.splits)
  next
    case obj
    with "2.prems"(1) obtain x t' where d: "d \<noteq> 0" and t: "skip_ws t = x # t'"
      by (auto simp: parse_val.simps split: if_splits list.splits)
    with skip_ws_ext [OF t, of q] "2.prems"(1) obj "2.IH"(1) [OF _ obj d t] show ?thesis
      by (auto simp: parse_val.simps split: if_splits reading.splits)
  next
    case arr
    with "2.prems"(1) obtain x t' where d: "d \<noteq> 0" and t: "skip_ws t = x # t'"
      by (auto simp: parse_val.simps split: if_splits list.splits)
    with skip_ws_ext [OF t, of q] "2.prems"(1) arr "2.IH"(2) [OF _ _ arr d t] show ?thesis
      by (auto simp: parse_val.simps split: if_splits reading.splits)
  next
    case atom
    with "2.prems"(1) have a: "parse_atom (c # t) = Got v r" by (simp add: parse_val.simps)
    with "2.prems"(2) parse_atom_open [OF a] parse_atom_ext [OF a, of q] atom show ?thesis
      by (simp add: parse_val.simps)
  qed
next
  case (3 d s)
  from "3.prems" obtain v r0 x r1 where v: "parse_val d s = Got v r0" and x: "skip_ws r0 = x # r1"
      "x = CHR '']'' \<or> x = CHR '',''"
    by (subst (asm) parse_elems.simps) (auto split: reading.splits list.splits if_splits)
  from after_value [OF x(1)] x(2) have "r0 \<noteq> [] \<and> num_stop r0" by auto
  then have v': "parse_val d (s @ q) = Got v (r0 @ q)" using "3.IH"(1) v by blast
  note x' = skip_ws_ext [OF x(1), of q]
  show ?case
  proof (cases "x = CHR '']''")
    case True
    with "3.prems" v x v' x' show ?thesis by (simp add: parse_elems.simps)
  next
    case False
    with x have x2: "x = CHR '',''" by simp
    with "3.prems" v x obtain ws where e: "length (skip_ws r1) < length s"
        "parse_elems d (skip_ws r1) = Got ws r" "vs = v # ws"
      by (subst (asm) parse_elems.simps) (auto split: reading.splits if_splits)
    have e': "parse_elems d (skip_ws r1 @ q) = Got ws (r @ q)"
      using "3.IH"(2) [OF v x(1) _ x2 e(1)] e(2) x2 by simp
    have "skip_ws r1 \<noteq> []" using e(2) by (auto simp: parse_elems.simps parse_val.simps)
    then have "skip_ws (r1 @ q) = skip_ws r1 @ q" unfolding skip_ws_def by (rule dropWhile_ext)
    with v' x' x2 e e' show ?thesis by (simp add: parse_elems.simps [of d "s @ q"])
  qed
next
  case (4 d s)
  from "4.prems" obtain t k r0 r1 where s: "s = CHR 0x22 # t" and k: "parse_chars t = Some (k, r0)"
      and c: "skip_ws r0 = CHR '':'' # r1"
    by (subst (asm) parse_members.simps) (auto split: list.splits if_splits option.splits)
  with "4.prems" obtain v r2 x r3 where v: "parse_val d (skip_ws r1) = Got v r2"
      and x: "skip_ws r2 = x # r3" "x = CHR ''}'' \<or> x = CHR '',''"
    by (subst (asm) parse_members.simps) (auto split: reading.splits list.splits if_splits)
  from after_value [OF x(1)] x(2) have "r2 \<noteq> [] \<and> num_stop r2" by auto
  then have v': "parse_val d (skip_ws r1 @ q) = Got v (r2 @ q)"
    using "4.IH"(1) [OF s _ k _ c] v by auto
  have "skip_ws r1 \<noteq> []" using v by (auto simp: parse_val.simps)
  then have r1: "skip_ws (r1 @ q) = skip_ws r1 @ q" unfolding skip_ws_def by (rule dropWhile_ext)
  note k' = parse_chars_ext [OF k, of q] note c' = skip_ws_ext [OF c, of q]
  note x' = skip_ws_ext [OF x(1), of q]
  show ?case
  proof (cases "x = CHR ''}''")
    case True
    with "4.prems" s k c v x k' c' r1 v' x' show ?thesis by (simp add: parse_members.simps)
  next
    case False
    with x have x2: "x = CHR '',''" by simp
    with "4.prems" s k c v x obtain ks where e: "length (skip_ws r3) < length s"
        "parse_members d (skip_ws r3) = Got ks r" "kvs = (k, v) # ks"
      by (subst (asm) parse_members.simps) (auto split: reading.splits if_splits)
    have e': "parse_members d (skip_ws r3 @ q) = Got ks (r @ q)"
      using "4.IH"(2) [OF s _ k _ c _ v x(1) _ x2 e(1)] e(2) x2 by auto
    have "skip_ws r3 \<noteq> []" using e(2) by (auto simp: parse_members.simps)
    then have "skip_ws (r3 @ q) = skip_ws r3 @ q" unfolding skip_ws_def by (rule dropWhile_ext)
    with s k' c' r1 v' x' x2 e e' show ?thesis
      by (simp add: parse_members.simps [of d "CHR 0x22 # t @ q"])
  qed
qed

lemma parse_number_no_rec: "parse_number neg s \<noteq> Fail JRecursionError"
  by (auto simp: parse_number_def number_value_def Let_def
      split: option.splits prod.splits sum.splits if_splits)

lemma parse_word_no_rec: "parse_word w v s \<noteq> Fail JRecursionError"
  by (simp add: parse_word_def split: option.splits)

lemma parse_atom_no_rec: "parse_atom s \<noteq> Fail JRecursionError"
  by (simp add: parse_atom_def parse_number_no_rec parse_word_no_rec split: list.splits)

lemma skip_ws_nonempty: "skip_ws r \<noteq> [] \<Longrightarrow> skip_ws (r @ q) = skip_ws r @ q"
  unfolding skip_ws_def by (rule dropWhile_ext)

text \<open>A reader that gives up on depth gives up on every longer text too.\<close>

lemma parse_rec_ext:
  shows "parse_val d p = Fail JRecursionError \<Longrightarrow> parse_val d (p @ q) = Fail JRecursionError"
    and "parse_elems d p = Fail JRecursionError \<Longrightarrow> parse_elems d (p @ q) = Fail JRecursionError"
    and "parse_members d p = Fail JRecursionError \<Longrightarrow> parse_members d (p @ q) = Fail JRecursionError"
proof (induction d p and d p and d p rule: parse_val_parse_elems_parse_members.induct)
  case (1 d)
  then show ?case by (simp add: parse_val.simps)
next
  case (2 d c t)
  consider (str) "c = CHR 0x22" | (obj) "c = CHR ''{''" | (arr) "c = CHR ''[''"
    | (atom) "c \<noteq> CHR 0x22" "c \<noteq> CHR ''{''" "c \<noteq> CHR ''[''" by blast
  then show ?case
  proof cases
    case str
    with "2.prems" show ?thesis by (auto simp: parse_val.simps split: option.splits prod.splits)
  next
    case obj
    show ?thesis
    proof (cases "d = 0")
      case True
      with obj show ?thesis by (simp add: parse_val.simps)
    next
      case False
      with "2.prems" obj obtain x t' where t: "skip_ws t = x # t'" "x \<noteq> CHR ''}''"
          "parse_members (d - 1) (skip_ws t) = Fail JRecursionError"
        by (auto simp: parse_val.simps split: list.splits if_splits reading.splits)
      with skip_ws_ext [OF t(1), of q] obj False "2.IH"(1) [OF _ obj False t(1,2)] show ?thesis
        by (simp add: parse_val.simps)
    qed
  next
    case arr
    show ?thesis
    proof (cases "d = 0")
      case True
      with arr show ?thesis by (simp add: parse_val.simps)
    next
      case False
      with "2.prems" arr obtain x t' where t: "skip_ws t = x # t'" "x \<noteq> CHR '']''"
          "parse_elems (d - 1) (skip_ws t) = Fail JRecursionError"
        by (auto simp: parse_val.simps split: list.splits if_splits reading.splits)
      with skip_ws_ext [OF t(1), of q] arr False "2.IH"(2) [OF _ _ arr False t(1,2)] show ?thesis
        by (simp add: parse_val.simps)
    qed
  next
    case atom
    with "2.prems" parse_atom_no_rec show ?thesis by (simp add: parse_val.simps)
  qed
next
  case (3 d s)
  show ?case
  proof (cases "parse_val d s = Fail JRecursionError")
    case True
    with "3.IH"(1) show ?thesis by (simp add: parse_elems.simps)
  next
    case False
    with "3.prems" obtain v r0 r1 where v: "parse_val d s = Got v r0"
        and x: "skip_ws r0 = CHR '','' # r1"
        and e: "length (skip_ws r1) < length s" "parse_elems d (skip_ws r1) = Fail JRecursionError"
      by (subst (asm) parse_elems.simps) (auto split: reading.splits list.splits if_splits)
    have "r0 \<noteq> [] \<and> num_stop r0" using after_value [OF x] by simp
    then have v': "parse_val d (s @ q) = Got v (r0 @ q)" using parse_ext(1) [OF v] by blast
    have e': "parse_elems d (skip_ws r1 @ q) = Fail JRecursionError"
      using "3.IH"(2) [OF v x _ refl e(1)] e(2) by simp
    have "skip_ws r1 \<noteq> []" using e(2) by (auto simp: parse_elems.simps parse_val.simps)
    then have "skip_ws (r1 @ q) = skip_ws r1 @ q" by (rule skip_ws_nonempty)
    with v' skip_ws_ext [OF x, of q] e e' show ?thesis by (simp add: parse_elems.simps [of d "s @ q"])
  qed
next
  case (4 d s)
  from "4.prems" obtain t k r0 r1 where s: "s = CHR 0x22 # t" and k: "parse_chars t = Some (k, r0)"
      and c: "skip_ws r0 = CHR '':'' # r1"
    by (subst (asm) parse_members.simps) (auto split: list.splits if_splits option.splits)
  note k' = parse_chars_ext [OF k, of q] note c' = skip_ws_ext [OF c, of q]
  show ?case
  proof (cases "parse_val d (skip_ws r1) = Fail JRecursionError")
    case True
    then have "skip_ws r1 \<noteq> []" by (auto simp: parse_val.simps)
    then have "skip_ws (r1 @ q) = skip_ws r1 @ q" by (rule skip_ws_nonempty)
    with "4.IH"(1) [OF s refl k refl c refl True] s k' c' show ?thesis
      by (simp add: parse_members.simps [of d "CHR 0x22 # t @ q"])
  next
    case False
    with "4.prems" s k c obtain v r2 r3 where v: "parse_val d (skip_ws r1) = Got v r2"
        and x: "skip_ws r2 = CHR '','' # r3"
        and e: "length (skip_ws r3) < length s" "parse_members d (skip_ws r3) = Fail JRecursionError"
      by (subst (asm) parse_members.simps) (auto split: reading.splits list.splits if_splits)
    have "r2 \<noteq> [] \<and> num_stop r2" using after_value [OF x] by simp
    then have v': "parse_val d (skip_ws r1 @ q) = Got v (r2 @ q)" using parse_ext(1) [OF v] by blast
    have "skip_ws r1 \<noteq> []" using v by (auto simp: parse_val.simps)
    then have r1: "skip_ws (r1 @ q) = skip_ws r1 @ q" by (rule skip_ws_nonempty)
    have e': "parse_members d (skip_ws r3 @ q) = Fail JRecursionError"
      using "4.IH"(2) [OF s refl k refl c refl v x _ refl e(1) e(2)] by simp
    have "skip_ws r3 \<noteq> []" using e(2) by (auto simp: parse_members.simps)
    then have "skip_ws (r3 @ q) = skip_ws r3 @ q" by (rule skip_ws_nonempty)
    with s k' c' r1 v' skip_ws_ext [OF x, of q] e e' show ?thesis
      by (simp add: parse_members.simps [of d "CHR 0x22 # t @ q"])
  qed
qed

fun container :: "json \<Rightarrow> bool" where
  "container (JList _) = True"
| "container (JObj _) = True"
| "container _ = False"

theorem loads_prefix:
  assumes ok: "json_ok j" "container j" "depth j \<le> d" and p: "dumps j = p @ q" "q \<noteq> []"
  shows "\<exists>e. loads d p = Inl e \<and> e \<noteq> JRecursionError"
proof -
  have full: "parse_val d (p @ q) = Got j []"
    using parse_dumps [OF sep_ok_default ok(1,3) num_stop_Nil] p(1) by (simp add: dumps_def)
  have ws: "skip_ws p = p"
  proof (cases p)
    case Nil
    then show ?thesis by (simp add: skip_ws_def)
  next
    case (Cons c t)
    with val_head_dumps [of "'', ''" "'': ''" j] p(1) show ?thesis
      by (simp add: val_head_def dumps_def)
  qed
  have "closed_val v" if "parse_val d p = Got v r" for v r
  proof (cases p)
    case Nil
    with that show ?thesis by (simp add: parse_val.simps)
  next
    case (Cons c t)
    with ok(2) p(1) have "c = CHR ''{'' \<or> c = CHR ''[''" by (cases j) (auto simp: dumps_def)
    with that Cons parse_val_container show ?thesis by blast
  qed
  then have no: "parse_val d p \<noteq> Got v r" for v r
    using parse_ext(1) [of d p v r q] full p(2) by auto
  moreover have "parse_val d p \<noteq> Fail JRecursionError"
    using parse_rec_ext(1) [of d p q] full by auto
  ultimately obtain e where "parse_val d p = Fail e" "e \<noteq> JRecursionError"
    by (cases "parse_val d p") auto
  with ws show ?thesis by (simp add: loads_def loads_pairs_def)
qed

section \<open>The writer's alphabet\<close>

abbreviation printable :: "char \<Rightarrow> bool" where
  "printable c \<equiv> in_rng 32 126 c"

lemma printable_digit: "is_digit c \<Longrightarrow> printable c"
  by (simp add: is_digit_def in_rng_def)

lemma printable_hex: "d < 16 \<Longrightarrow> printable (hex_digit d)"
  by (simp add: hex_digit_def in_rng_def of_char_of)

lemma printable_esc: "list_all printable (esc_char c)"
proof -
  have "code_pt c div 16 < 16" using code_pt_less [of c] by (simp add: less_mult_imp_div_less)
  then have "printable (hex_digit (code_pt c div 16))" by (rule printable_hex)
  moreover have "printable (hex_digit (code_pt c mod 16))" by (rule printable_hex) simp
  ultimately show ?thesis by (simp add: esc_char_def) (simp add: in_rng_def)
qed

lemma printable_dump_str: "list_all printable (dump_str s)"
  by (induction s) (use printable_esc in \<open>auto simp: dump_str_def in_rng_def list_all_iff\<close>)

lemma printable_digits: "list_all is_digit ds \<Longrightarrow> list_all printable ds"
  by (auto simp: list_all_iff printable_digit)

lemma printable_show_nat: "list_all printable (show_nat n)"
  by (rule printable_digits [OF show_nat_digits])

lemma printable_dump_dec: "list_all printable (dump_dec m e)"
  using printable_show_nat [of m] printable_show_nat [of "nat \<bar>int (length (show_nat m)) + e - 1\<bar>"]
  by (simp add: dump_dec_def show_exp_def Let_def list_all_take_drop)
    (simp add: in_rng_def list_all_iff)

lemma printable_join:
  "list_all printable sep \<Longrightarrow> list_all (list_all printable) ws \<Longrightarrow> list_all printable (join sep ws)"
  by (induction sep ws rule: join.induct) auto

lemma dumps_printable:
  assumes "list_all printable isep" and "list_all printable ksep"
  shows "list_all printable (dumps_with isep ksep j)"
proof (induction j)
  case (JFloat f)
  then show ?case
    using printable_dump_dec by (cases f) (simp_all, simp_all add: in_rng_def)
next
  case (JList xs)
  have "list_all printable (join isep (map (dumps_with isep ksep) xs))"
    by (rule printable_join [OF assms(1)]) (use JList in \<open>auto simp: list_all_iff\<close>)
  then show ?case by (simp add: in_rng_def)
next
  case (JObj kvs)
  have "list_all printable (dump_str (fst kv) @ ksep @ dumps_with isep ksep (snd kv))"
    if "kv \<in> set kvs" for kv
    using JObj that assms(2) printable_dump_str by (cases kv) auto
  then have "list_all printable
      (join isep (map (\<lambda>kv. dump_str (fst kv) @ ksep @ dumps_with isep ksep (snd kv)) kvs))"
    by (intro printable_join [OF assms(1)]) (auto simp: list_all_iff)
  then show ?case by (simp add: in_rng_def)
qed (simp_all add: show_int_def printable_show_nat printable_dump_str, simp_all add: in_rng_def)

lemma dumps_no_newline: "newline \<notin> set (dumps j)"
proof -
  have "list_all printable (dumps j)"
    unfolding dumps_def by (rule dumps_printable) (simp_all add: in_rng_def)
  then show ?thesis by (auto simp: list_all_iff in_rng_def)
qed

lemma dumps_nonempty [simp]: "dumps j \<noteq> []"
  using val_head_dumps [of "'', ''" "'': ''" j] by (auto simp: dumps_def val_head_def)

section \<open>Integer literals beyond the digit limit\<close>

definition big_int_object :: "string \<Rightarrow> string" where
  "big_int_object key = ''{'' @ dump_str key @ '': '' @ replicate 4301 (CHR ''9'') @ ''}''"

lemma loads_big_int: "loads (Suc d) (big_int_object key) = Inl IntDigitsError"
proof -
  let ?n = "replicate 4301 (CHR ''9'')"
  have d9: "is_digit (CHR ''9'')" by (simp add: is_digit_def in_rng_def)
  have "int_digits ?n"
    using d9 by (auto simp: int_digits_def list_all_iff)
  then have "parse_number False (?n @ ''}'') = Fail IntDigitsError"
    by (rule parse_number_int_digits) (simp_all add: int_max_str_digits_def)
  moreover have n: "?n = CHR ''9'' # replicate 4300 (CHR ''9'')"
    by (simp flip: replicate_Suc)
  ultimately have "parse_val d (?n @ ''}'') = Fail IntDigitsError"
    by (simp only: append_Cons parse_val_digit [OF d9])
  moreover have "skip_ws (CHR '' '' # ?n @ ''}'') = ?n @ ''}''"
  proof -
    have "\<not> is_ws (CHR ''9'')" by (simp add: is_ws_def)
    from skip_ws_Cons [OF this] have "skip_ws (?n @ ''}'') = ?n @ ''}''"
      unfolding n append_Cons .
    moreover have "is_ws (CHR '' '')" by (simp add: is_ws_def)
    ultimately show ?thesis by (simp only: skip_ws_def dropWhile.simps if_True)
  qed
  moreover have "parse_chars (concat (map esc_char key) @ CHR 0x22 # s) = Some (key, s)" for s
    by (rule parse_chars_dump)
  ultimately show ?thesis
    by (simp add: big_int_object_def loads_def loads_pairs_def dump_str_def parse_val.simps parse_members.simps
        del: replicate.simps)
qed

section \<open>Canonical text determines the value\<close>

lemma distinct_map_fst_sort:
  assumes "distinct (map fst kvs)"
  shows "distinct (map fst (sort_key fst kvs))"
proof -
  from assms have d: "distinct kvs" and i: "inj_on fst (set kvs)"
    by (simp_all add: distinct_map)
  from d have "distinct (sort_key fst kvs)" by simp
  moreover from i have "inj_on fst (set (sort_key fst kvs))" by simp
  ultimately show ?thesis by (simp only: distinct_map simp_thms)
qed

lemma json_ok_sort: "json_ok j \<Longrightarrow> json_ok (sort_json j)"
proof (induction j)
  case (JList xs)
  then show ?case by (auto simp: list_all_iff)
next
  case (JObj kvs)
  let ?kvs = "map (\<lambda>kv. (fst kv, sort_json (snd kv))) kvs"
  have "distinct (map fst ?kvs)" using JObj.prems by (simp add: comp_def)
  then have "distinct (map fst (sort_key fst ?kvs))" by (rule distinct_map_fst_sort)
  moreover have "json_ok (sort_json (snd kv))" if "kv \<in> set kvs" for kv
    using JObj.IH [of kv "snd kv"] JObj.prems that by (cases kv) (auto simp: list_all_iff)
  ultimately show ?case by (auto simp: list_all_iff)
qed simp_all

lemma depth_sort: "depth (sort_json j) \<le> depth j"
proof (induction j)
  case (JList xs)
  have "depth (sort_json x) < depth (JList xs)" if "x \<in> set xs" for x
    using JList.IH [OF that] depth_list [OF that] by simp
  then show ?case by (auto simp: fold_max_le less_Suc_eq_le)
next
  case (JObj kvs)
  have "depth (sort_json v) < depth (JObj kvs)" if "(k, v) \<in> set kvs" for k v
    using JObj.IH [of "(k, v)" v] that depth_obj [OF that] by simp
  then show ?case by (auto simp: fold_max_le less_Suc_eq_le)
qed simp_all

lemma canonical_dumps_inj:
  assumes "json_ok a" "json_ok b" "canonical_dumps a = canonical_dumps b"
  shows "sort_json a = sort_json b"
proof -
  let ?d = "depth (sort_json a) + depth (sort_json b)"
  have "parse_val ?d (canonical_dumps a) = Got (sort_json a) []"
    using parse_dumps [OF sep_ok_compact json_ok_sort [OF assms(1)] _ num_stop_Nil, of ?d]
    by (simp only: canonical_dumps_def append_Nil2 le_add1)
  moreover have "parse_val ?d (canonical_dumps b) = Got (sort_json b) []"
    using parse_dumps [OF sep_ok_compact json_ok_sort [OF assms(2)] _ num_stop_Nil, of ?d]
    by (simp only: canonical_dumps_def append_Nil2 le_add2)
  ultimately show ?thesis using assms(3) by simp
qed

end
