(* ===== verification/Profile.thy ===== *)
theory Profile
  imports Externals Json_Text
begin

text \<open>
  src/measure_twice/model_sweep_execution.py: the execution profile (which alias is bound to which
  provider and requested model), the frozen Claude and Gemini request contracts, the canonical hashes
  and the execution receipt.  Constructors take raw JSON values and return the typed record or the
  first \<open>ExecutionProfileError\<close> raised, one error constructor per raise site.
\<close>

section \<open>Vocabulary\<close>

definition UNRESOLVED_MODEL_ID :: string where
  "UNRESOLVED_MODEL_ID = ''UNRESOLVED_PROVIDER_IDENTITY''"

datatype provider = Local | Claude | Gemini

fun provider_name :: "provider \<Rightarrow> string" where
  "provider_name Local = ''local-openai''"
| "provider_name Claude = ''claude-cli''"
| "provider_name Gemini = ''gemini-api''"

definition supported_providers :: "(string \<times> provider) list" where
  "supported_providers = map (\<lambda>p. (provider_name p, p)) [Local, Claude, Gemini]"

text \<open>An ASCII letter or digit, then letters, digits, dot, underscore or hyphen.\<close>

definition model_token :: "string \<Rightarrow> bool" where
  "model_token s = (case s of [] \<Rightarrow> False | c # cs \<Rightarrow> is_ascii_alnum c \<and> list_all name_char cs)"

definition is_concrete_provider_identity :: "json \<Rightarrow> string \<Rightarrow> bool" where
  "is_concrete_provider_identity v prov = (case v of
     JStr s \<Rightarrow>
       (if s = [] \<or> list_ex isspace s then False
        else if s = UNRESOLVED_MODEL_ID then False
        else if prov = provider_name Claude then
          (case strip_prefix ''claude-'' s of Some r \<Rightarrow> model_token r | None \<Rightarrow> False)
        else strip s \<noteq> [])
   | _ \<Rightarrow> False)"

definition CLAUDE_SEALING_MODE :: string where
  "CLAUDE_SEALING_MODE = ''prompt-only-v1''"

definition CLAUDE_EXECUTABLE :: string where
  "CLAUDE_EXECUTABLE = ''claude''"

definition CLAUDE_ARGV_TEMPLATE :: "string list" where
  "CLAUDE_ARGV_TEMPLATE = [''-p'', ''--model'', ''{requested_model}'', ''--output-format'', ''json'',
     ''--safe-mode'', ''--tools'', '''', ''--disable-slash-commands'', ''--no-chrome'',
     ''--no-session-persistence'']"

definition CLAUDE_ENV_ALLOWLIST :: "string list" where
  "CLAUDE_ENV_ALLOWLIST = [''APPDATA'', ''CLAUDE_CODE_OAUTH_TOKEN'', ''COMSPEC'', ''HOME'', ''LANG'',
     ''LC_ALL'', ''LOCALAPPDATA'', ''PATH'', ''PATHEXT'', ''SYSTEMROOT'', ''TEMP'', ''TMP'', ''TMPDIR'',
     ''USERPROFILE'', ''WINDIR'']"

definition GEMINI_REQUEST_CONTRACT :: string where
  "GEMINI_REQUEST_CONTRACT = ''generate-content-text-v1''"

definition gemini_thinking_levels :: "string list" where
  "gemini_thinking_levels = [''low'', ''medium'', ''high'']"

section \<open>Errors and scalar checks\<close>

datatype profile_error =
    NotAJsonObject string
  | BadKeys string "string list" "string list"   \<comment> \<open>label, missing, unknown\<close>
  | BadSafeId string
  | BadSingleLine string
  | BadModelToken string
  | NotPositiveInt string
  | NotFinitePositive string
  | BadProvider
  | BadExecutable
  | BadSealingMode string
  | NotStringList string
  | NotFrozen string
  | BadRequestContract
  | TokensNotInt
  | BadThinkingLevel
  | TimeoutNotNumber
  | BadSchemaVersion string
  | NotAList string
  | NoBindings string
  | DuplicateAliases string "string list"
  | GeminiContextMissing
  | GeminiContextUnused
  | NoBindingFor string
  | ForeignBinding
  | BindingDiffers string
  | NoRuntimeEvidence
  | BadDigest string
  | ClaudeEvidenceMismatch
  | GeminiEvidenceMismatch
  | ReceiptHashMismatch

type_synonym 'a pres = "(profile_error, 'a) res"

definition canonical_sha256 :: "externals \<Rightarrow> json \<Rightarrow> string" where
  "canonical_sha256 ext v = sha256_hex ext (canonical_dumps v)"

definition require_keys ::
    "json \<Rightarrow> string list \<Rightarrow> string list \<Rightarrow> string \<Rightarrow> (string \<times> json) list pres" where
  "require_keys v required optional label = (case v of
     JObj d \<Rightarrow>
       (let missing = missing_keys d required; unknown = unknown_keys d (required @ optional)
        in if missing \<noteq> [] \<or> unknown \<noteq> [] then Inl (BadKeys label missing unknown) else Inr d)
   | _ \<Rightarrow> Inl (NotAJsonObject label))"

definition require_exact_keys ::
    "json \<Rightarrow> string list \<Rightarrow> string \<Rightarrow> (string \<times> json) list pres" where
  "require_exact_keys v expected label = require_keys v expected [] label"

definition require_safe_id :: "json \<Rightarrow> string \<Rightarrow> string pres" where
  "require_safe_id v label = (case v of
     JStr s \<Rightarrow> if all_name_chars s then Inr s else Inl (BadSafeId label)
   | _ \<Rightarrow> Inl (BadSafeId label))"

definition single_line :: "string \<Rightarrow> bool" where
  "single_line s \<longleftrightarrow> s \<noteq> [] \<and> list_all (\<lambda>c. c \<noteq> CHR 0x00 \<and> c \<noteq> CHR 0x0D \<and> c \<noteq> CHR 0x0A) s"

definition require_nonempty_string :: "json \<Rightarrow> string \<Rightarrow> string pres" where
  "require_nonempty_string v label = (case v of
     JStr s \<Rightarrow> if single_line s then Inr s else Inl (BadSingleLine label)
   | _ \<Rightarrow> Inl (BadSingleLine label))"

definition require_claude_model_token :: "json \<Rightarrow> string \<Rightarrow> string pres" where
  "require_claude_model_token v label = (case v of
     JStr s \<Rightarrow> if model_token s then Inr s else Inl (BadModelToken label)
   | _ \<Rightarrow> Inl (BadModelToken label))"

definition require_gemini_model_token :: "json \<Rightarrow> string \<Rightarrow> string pres" where
  "require_gemini_model_token v label = (case v of
     JStr s \<Rightarrow> if model_token s then Inr s else Inl (BadModelToken label)
   | _ \<Rightarrow> Inl (BadModelToken label))"

definition require_positive_int :: "json \<Rightarrow> string \<Rightarrow> int pres" where
  "require_positive_int v label = (case v of
     JInt n \<Rightarrow> if n < 1 then Inl (NotPositiveInt label) else Inr n
   | _ \<Rightarrow> Inl (NotPositiveInt label))"

text \<open>\<open>float(i)\<close> raises \<open>OverflowError\<close> from half a step above the largest double on.\<close>

definition float_of_int :: "int \<Rightarrow> flt option" where
  "float_of_int i = (if \<bar>i\<bar> < 2 ^ 1024 - 2 ^ 970 then Some (flt_of_int i) else None)"

definition finite_positive :: "flt \<Rightarrow> bool" where
  "finite_positive f \<longleftrightarrow> is_finite_flt f \<and> \<not> flt_le_rat f 0"

definition require_finite_positive_number :: "json \<Rightarrow> string \<Rightarrow> flt pres" where
  "require_finite_positive_number v label =
     (case (case v of JInt n \<Rightarrow> float_of_int n | JFloat f \<Rightarrow> Some f | _ \<Rightarrow> None) of
        None \<Rightarrow> Inl (NotFinitePositive label)
      | Some f \<Rightarrow> if finite_positive f then Inr f else Inl (NotFinitePositive label))"

section \<open>Model bindings\<close>

record model_binding =
  mb_alias :: string
  mb_provider :: provider
  mb_requested :: string

definition ModelBinding_init :: "json \<Rightarrow> json \<Rightarrow> json \<Rightarrow> model_binding pres" where
  "ModelBinding_init alias prov requested =
     bindE (require_safe_id alias ''model binding.alias'') (\<lambda>a.
     case (case prov of JStr s \<Rightarrow> map_of supported_providers s | _ \<Rightarrow> None) of
       None \<Rightarrow> Inl BadProvider
     | Some p \<Rightarrow>
         bindE (case p of
             Claude \<Rightarrow> require_claude_model_token requested ''model binding.requested_model''
           | Gemini \<Rightarrow> require_gemini_model_token requested ''model binding.requested_model''
           | Local \<Rightarrow> require_nonempty_string requested ''model binding.requested_model'') (\<lambda>r.
           Inr \<lparr>mb_alias = a, mb_provider = p, mb_requested = r\<rparr>))"

definition binding_fields :: "string list" where
  "binding_fields = [''alias'', ''provider'', ''requested_model'']"

definition ModelBinding_from_mapping :: "json \<Rightarrow> model_binding pres" where
  "ModelBinding_from_mapping v =
     bindE (require_exact_keys v binding_fields ''model binding'') (\<lambda>d.
       ModelBinding_init (fld d ''alias'') (fld d ''provider'') (fld d ''requested_model''))"

definition ModelBinding_to_mapping :: "model_binding \<Rightarrow> json" where
  "ModelBinding_to_mapping b = JObj [
     (''alias'', JStr (mb_alias b)), (''provider'', JStr (provider_name (mb_provider b))),
     (''requested_model'', JStr (mb_requested b))]"

section \<open>The Claude and Gemini request contracts\<close>

record claude_context =
  cc_executable :: string
  cc_sealing_mode :: string
  cc_argv :: "string list"
  cc_env :: "string list"

text \<open>The parts as they reach \<open>__post_init__\<close>: two raw values and two tuples of strings.\<close>

definition ClaudeContext_init ::
    "json \<Rightarrow> json \<Rightarrow> string list \<Rightarrow> string list \<Rightarrow> claude_context pres" where
  "ClaudeContext_init executable sealing argv env =
     (if executable \<noteq> JStr CLAUDE_EXECUTABLE then Inl BadExecutable
      else if sealing \<noteq> JStr CLAUDE_SEALING_MODE then Inl (BadSealingMode ''execution profile.claude'')
      else if argv \<noteq> CLAUDE_ARGV_TEMPLATE then Inl (NotFrozen ''argv_template'')
      else if env \<noteq> CLAUDE_ENV_ALLOWLIST then Inl (NotFrozen ''environment_allowlist'')
      else Inr \<lparr>cc_executable = CLAUDE_EXECUTABLE, cc_sealing_mode = CLAUDE_SEALING_MODE,
                cc_argv = argv, cc_env = env\<rparr>)"

definition string_list :: "json \<Rightarrow> string \<Rightarrow> string list pres" where
  "string_list v label = (case v of
     JList js \<Rightarrow> if list_all is_str js then Inr (map the_str js) else Inl (NotStringList label)
   | _ \<Rightarrow> Inl (NotStringList label))"

definition claude_fields :: "string list" where
  "claude_fields = [''executable'', ''sealing_mode'', ''argv_template'', ''environment_allowlist'']"

definition ClaudeContext_from_mapping :: "json \<Rightarrow> claude_context pres" where
  "ClaudeContext_from_mapping v =
     bindE (require_exact_keys v claude_fields ''execution profile.claude'') (\<lambda>d.
     bindE (string_list (fld d ''argv_template'') ''argv_template'') (\<lambda>argv.
     bindE (string_list (fld d ''environment_allowlist'') ''environment_allowlist'') (\<lambda>env.
       ClaudeContext_init (fld d ''executable'') (fld d ''sealing_mode'') argv env)))"

definition ClaudeContext_to_mapping :: "claude_context \<Rightarrow> json" where
  "ClaudeContext_to_mapping c = JObj [
     (''executable'', JStr (cc_executable c)), (''sealing_mode'', JStr (cc_sealing_mode c)),
     (''argv_template'', strs_json (cc_argv c)), (''environment_allowlist'', strs_json (cc_env c))]"

definition claude_sha256 :: "externals \<Rightarrow> claude_context \<Rightarrow> string" where
  "claude_sha256 ext c = canonical_sha256 ext (ClaudeContext_to_mapping c)"

record gemini_context =
  gc_contract :: string
  gc_max_output_tokens :: int
  gc_thinking_level :: string
  gc_timeout :: flt

definition GeminiContext_init :: "json \<Rightarrow> json \<Rightarrow> json \<Rightarrow> json \<Rightarrow> gemini_context pres" where
  "GeminiContext_init contract tokens level timeout =
     (if contract \<noteq> JStr GEMINI_REQUEST_CONTRACT then Inl BadRequestContract
      else bindE (require_positive_int tokens ''max_output_tokens'') (\<lambda>n.
        if \<not> (is_str level \<and> the_str level \<in> set gemini_thinking_levels) then Inl BadThinkingLevel
        else bindE (require_finite_positive_number timeout ''timeout_s'') (\<lambda>t.
          Inr \<lparr>gc_contract = GEMINI_REQUEST_CONTRACT, gc_max_output_tokens = n,
               gc_thinking_level = the_str level, gc_timeout = t\<rparr>)))"

definition gemini_fields :: "string list" where
  "gemini_fields = [''request_contract'', ''max_output_tokens'', ''thinking_level'', ''timeout_s'']"

fun is_int :: "json \<Rightarrow> bool" where
  "is_int (JInt _) = True"
| "is_int _ = False"

fun is_number :: "json \<Rightarrow> bool" where
  "is_number (JInt _) = True"
| "is_number (JFloat _) = True"
| "is_number _ = False"

definition GeminiContext_from_mapping :: "json \<Rightarrow> gemini_context pres" where
  "GeminiContext_from_mapping v =
     bindE (require_exact_keys v gemini_fields ''execution profile.gemini'') (\<lambda>d.
     bindE (checkE (is_int (fld d ''max_output_tokens'')) TokensNotInt) (\<lambda>_.
     bindE (checkE (is_number (fld d ''timeout_s'')) TimeoutNotNumber) (\<lambda>_.
     bindE (require_finite_positive_number (fld d ''timeout_s'') ''timeout_s'') (\<lambda>t.
       GeminiContext_init (fld d ''request_contract'') (fld d ''max_output_tokens'')
         (fld d ''thinking_level'') (JFloat t)))))"

definition GeminiContext_to_mapping :: "gemini_context \<Rightarrow> json" where
  "GeminiContext_to_mapping g = JObj [
     (''request_contract'', JStr (gc_contract g)), (''max_output_tokens'', JInt (gc_max_output_tokens g)),
     (''thinking_level'', JStr (gc_thinking_level g)), (''timeout_s'', JFloat (gc_timeout g))]"

definition DEFAULT_GEMINI_CONTEXT :: gemini_context where
  "DEFAULT_GEMINI_CONTEXT = \<lparr>gc_contract = GEMINI_REQUEST_CONTRACT, gc_max_output_tokens = 4096,
     gc_thinking_level = ''low'', gc_timeout = Fin False 12 1\<rparr>"

section \<open>The execution profile\<close>

record execution_profile =
  ep_id :: string
  ep_models :: "model_binding list"
  ep_claude :: claude_context
  ep_gemini :: "gemini_context option"

definition duplicate_aliases :: "string list \<Rightarrow> string list" where
  "duplicate_aliases as = sort (fromkeys (filter (\<lambda>a. 1 < count_list as a) as))"

definition uses :: "provider \<Rightarrow> model_binding list \<Rightarrow> bool" where
  "uses p bs = list_ex (\<lambda>b. mb_provider b = p) bs"

text \<open>The schema version is the constant 1 once checked, so the record does not keep it.\<close>

definition Profile_init ::
    "json \<Rightarrow> json \<Rightarrow> model_binding list \<Rightarrow> claude_context \<Rightarrow> gemini_context option
      \<Rightarrow> execution_profile pres" where
  "Profile_init version pid models claude gemini =
     (if version \<noteq> JInt 1 then Inl (BadSchemaVersion ''execution profile'')
      else bindE (require_safe_id pid ''execution profile.id'') (\<lambda>i.
        if models = [] then Inl (NoBindings ''execution profile.models'')
        else
          let dups = duplicate_aliases (map mb_alias models) in
          if dups \<noteq> [] then Inl (DuplicateAliases ''execution profile.models'' dups)
          else if uses Gemini models \<and> gemini = None then Inl GeminiContextMissing
          else if gemini \<noteq> None \<and> \<not> uses Gemini models then Inl GeminiContextUnused
          else Inr \<lparr>ep_id = i, ep_models = models, ep_claude = claude, ep_gemini = gemini\<rparr>))"

definition optional_gemini :: "(string \<times> json) list \<Rightarrow> gemini_context option pres" where
  "optional_gemini d = (case map_of d ''gemini'' of
     None \<Rightarrow> Inr None
   | Some g \<Rightarrow> bindE (GeminiContext_from_mapping g) (\<lambda>c. Inr (Some c)))"

definition profile_fields :: "string list" where
  "profile_fields = [''schema_version'', ''id'', ''models'', ''claude'']"

definition Profile_from_mapping :: "json \<Rightarrow> execution_profile pres" where
  "Profile_from_mapping v =
     bindE (require_keys v profile_fields [''gemini''] ''execution profile'') (\<lambda>d.
     case fld d ''models'' of
       JList raw \<Rightarrow>
         bindE (optional_gemini d) (\<lambda>gemini.
         bindE (mapE ModelBinding_from_mapping raw) (\<lambda>models.
         bindE (ClaudeContext_from_mapping (fld d ''claude'')) (\<lambda>claude.
           Profile_init (fld d ''schema_version'') (fld d ''id'') models claude gemini)))
     | _ \<Rightarrow> Inl (NotAList ''execution profile.models''))"

definition gemini_entry :: "gemini_context option \<Rightarrow> (string \<times> json) list" where
  "gemini_entry g = (case g of None \<Rightarrow> [] | Some c \<Rightarrow> [(''gemini'', GeminiContext_to_mapping c)])"

definition Profile_to_mapping :: "execution_profile \<Rightarrow> json" where
  "Profile_to_mapping p = JObj ([
     (''schema_version'', JInt 1), (''id'', JStr (ep_id p)),
     (''models'', JList (map ModelBinding_to_mapping (ep_models p))),
     (''claude'', ClaudeContext_to_mapping (ep_claude p))] @ gemini_entry (ep_gemini p))"

definition profile_aliases :: "execution_profile \<Rightarrow> string list" where
  "profile_aliases p = map mb_alias (ep_models p)"

definition profile_sha256 :: "externals \<Rightarrow> execution_profile \<Rightarrow> string" where
  "profile_sha256 ext p = canonical_sha256 ext (Profile_to_mapping p)"

definition context_profile_sha256 :: "externals \<Rightarrow> execution_profile \<Rightarrow> string" where
  "context_profile_sha256 ext p = (case ep_gemini p of
     None \<Rightarrow> claude_sha256 ext (ep_claude p)
   | Some g \<Rightarrow> canonical_sha256 ext (JObj [
       (''claude'', ClaudeContext_to_mapping (ep_claude p)), (''gemini'', GeminiContext_to_mapping g)]))"

definition provider_profile_sha256 :: "externals \<Rightarrow> execution_profile \<Rightarrow> string" where
  "provider_profile_sha256 ext p =
     canonical_sha256 ext (JList (map ModelBinding_to_mapping (ep_models p)))"

definition binding_for :: "execution_profile \<Rightarrow> string \<Rightarrow> model_binding pres" where
  "binding_for p alias = (case find (\<lambda>b. mb_alias b = alias) (ep_models p) of
     Some b \<Rightarrow> Inr b
   | None \<Rightarrow> Inl (NoBindingFor alias))"

definition bindings_for :: "execution_profile \<Rightarrow> string list \<Rightarrow> model_binding list pres" where
  "bindings_for p aliases = mapE (binding_for p) aliases"

section \<open>The execution receipt\<close>

record claude_evidence =
  ce_executable :: string
  ce_version :: string

definition ClaudeEvidence_init :: "json \<Rightarrow> json \<Rightarrow> claude_evidence pres" where
  "ClaudeEvidence_init executable version =
     bindE (require_nonempty_string executable ''claude_cli.executable'') (\<lambda>e.
     bindE (require_nonempty_string version ''claude_cli.version'') (\<lambda>v.
       Inr \<lparr>ce_executable = e, ce_version = v\<rparr>))"

definition ClaudeEvidence_from_mapping :: "json \<Rightarrow> claude_evidence pres" where
  "ClaudeEvidence_from_mapping v =
     bindE (require_exact_keys v [''executable'', ''version''] ''execution receipt.claude_cli'') (\<lambda>d.
       ClaudeEvidence_init (fld d ''executable'') (fld d ''version''))"

definition ClaudeEvidence_to_mapping :: "claude_evidence \<Rightarrow> json" where
  "ClaudeEvidence_to_mapping e = JObj [
     (''executable'', JStr (ce_executable e)), (''version'', JStr (ce_version e))]"

record receipt =
  rc_profile_id :: string
  rc_execution_sha :: string
  rc_provider_sha :: string
  rc_context_sha :: string
  rc_bindings :: "model_binding list"
  rc_sealing_mode :: string
  rc_claude :: "claude_evidence option"
  rc_gemini :: "gemini_context option"

definition hex_digest :: "string \<Rightarrow> bool" where
  "hex_digest s \<longleftrightarrow> length s = 64 \<and> list_all (\<lambda>c. in_rng 48 57 c \<or> in_rng 97 102 c) s"

definition require_digest :: "json \<Rightarrow> string \<Rightarrow> string pres" where
  "require_digest v label = (case v of
     JStr s \<Rightarrow> if hex_digest s then Inr s else Inl (BadDigest label)
   | _ \<Rightarrow> Inl (BadDigest label))"

definition Receipt_init ::
    "json \<Rightarrow> json \<Rightarrow> json \<Rightarrow> json \<Rightarrow> json \<Rightarrow> model_binding list \<Rightarrow> json
      \<Rightarrow> claude_evidence option \<Rightarrow> gemini_context option \<Rightarrow> receipt pres" where
  "Receipt_init version pid execution prov context bindings sealing claude gemini =
     (if version \<noteq> JInt 1 then Inl (BadSchemaVersion ''execution receipt'')
      else
        bindE (require_safe_id pid ''execution receipt.profile_id'') (\<lambda>i.
        bindE (require_digest execution ''execution_profile_sha256'') (\<lambda>e.
        bindE (require_digest prov ''provider_profile_sha256'') (\<lambda>p.
        bindE (require_digest context ''context_profile_sha256'') (\<lambda>c.
          if bindings = [] then Inl (NoBindings ''execution receipt.bindings'')
          else if \<not> distinct (map mb_alias bindings)
          then Inl (DuplicateAliases ''execution receipt.bindings'' [])
          else if sealing \<noteq> JStr CLAUDE_SEALING_MODE then Inl (BadSealingMode ''execution receipt'')
          else if uses Claude bindings \<noteq> (claude \<noteq> None) then Inl ClaudeEvidenceMismatch
          else if uses Gemini bindings \<noteq> (gemini \<noteq> None) then Inl GeminiEvidenceMismatch
          else Inr \<lparr>rc_profile_id = i, rc_execution_sha = e, rc_provider_sha = p, rc_context_sha = c,
                    rc_bindings = bindings, rc_sealing_mode = CLAUDE_SEALING_MODE,
                    rc_claude = claude, rc_gemini = gemini\<rparr>)))))"

text \<open>The loop of \<open>create\<close> over the selected bindings.\<close>

definition check_binding :: "execution_profile \<Rightarrow> model_binding \<Rightarrow> unit pres" where
  "check_binding p b = (case binding_for p (mb_alias b) of
     Inl _ \<Rightarrow> Inl ForeignBinding
   | Inr expected \<Rightarrow> checkE (b = expected) (BindingDiffers (mb_alias b)))"

definition runtime_evidence ::
    "model_binding list \<Rightarrow> string option \<Rightarrow> string option \<Rightarrow> claude_evidence option pres" where
  "runtime_evidence selected executable version =
     (if uses Claude selected then
        (case (executable, version) of
           (Some e, Some v) \<Rightarrow>
             bindE (ClaudeEvidence_init (JStr e) (JStr v)) (\<lambda>r. Inr (Some r))
         | _ \<Rightarrow> Inl NoRuntimeEvidence)
      else Inr None)"

definition Receipt_create ::
    "externals \<Rightarrow> execution_profile \<Rightarrow> model_binding list \<Rightarrow> string option \<Rightarrow> string option
      \<Rightarrow> receipt pres" where
  "Receipt_create ext p selected executable version =
     bindE (seqE (map (check_binding p) selected)) (\<lambda>_.
     bindE (runtime_evidence selected executable version) (\<lambda>runtime.
     bindE (if uses Gemini selected
            then (if ep_gemini p = None then Inl GeminiContextMissing else Inr (ep_gemini p))
            else Inr None) (\<lambda>gemini.
       Receipt_init (JInt 1) (JStr (ep_id p)) (JStr (profile_sha256 ext p))
         (JStr (provider_profile_sha256 ext p)) (JStr (context_profile_sha256 ext p)) selected
         (JStr (cc_sealing_mode (ep_claude p))) runtime gemini)))"

definition receipt_payload :: "receipt \<Rightarrow> (string \<times> json) list" where
  "receipt_payload r = [
     (''schema_version'', JInt 1), (''profile_id'', JStr (rc_profile_id r)),
     (''execution_profile_sha256'', JStr (rc_execution_sha r)),
     (''provider_profile_sha256'', JStr (rc_provider_sha r)),
     (''context_profile_sha256'', JStr (rc_context_sha r)),
     (''bindings'', JList (map ModelBinding_to_mapping (rc_bindings r))),
     (''sealing_mode'', JStr (rc_sealing_mode r)),
     (''claude_cli'', case rc_claude r of None \<Rightarrow> JNull | Some e \<Rightarrow> ClaudeEvidence_to_mapping e)]
     @ gemini_entry (rc_gemini r)"

definition receipt_sha256 :: "externals \<Rightarrow> receipt \<Rightarrow> string" where
  "receipt_sha256 ext r = canonical_sha256 ext (JObj (receipt_payload r))"

definition Receipt_to_mapping :: "externals \<Rightarrow> receipt \<Rightarrow> json" where
  "Receipt_to_mapping ext r =
     JObj (receipt_payload r @ [(''receipt_sha256'', JStr (receipt_sha256 ext r))])"

definition receipt_fields :: "string list" where
  "receipt_fields = [''schema_version'', ''profile_id'', ''execution_profile_sha256'',
     ''provider_profile_sha256'', ''context_profile_sha256'', ''bindings'', ''sealing_mode'',
     ''claude_cli'', ''receipt_sha256'']"

definition optional_evidence :: "json \<Rightarrow> claude_evidence option pres" where
  "optional_evidence v =
     (if v = JNull then Inr None
      else bindE (ClaudeEvidence_from_mapping v) (\<lambda>e. Inr (Some e)))"

definition Receipt_from_mapping :: "externals \<Rightarrow> json \<Rightarrow> receipt pres" where
  "Receipt_from_mapping ext v =
     bindE (require_keys v receipt_fields [''gemini''] ''execution receipt'') (\<lambda>d.
     case fld d ''bindings'' of
       JList raw \<Rightarrow>
         bindE (optional_gemini d) (\<lambda>gemini.
         bindE (mapE ModelBinding_from_mapping raw) (\<lambda>bindings.
         bindE (optional_evidence (fld d ''claude_cli'')) (\<lambda>claude.
         bindE (Receipt_init (fld d ''schema_version'') (fld d ''profile_id'')
             (fld d ''execution_profile_sha256'') (fld d ''provider_profile_sha256'')
             (fld d ''context_profile_sha256'') bindings (fld d ''sealing_mode'') claude gemini) (\<lambda>r.
         bindE (checkE (fld d ''receipt_sha256'' = JStr (receipt_sha256 ext r)) ReceiptHashMismatch) (\<lambda>_.
           Inr r)))))
     | _ \<Rightarrow> Inl (NotAList ''execution receipt.bindings''))"

definition local_binding :: "string \<Rightarrow> model_binding" where
  "local_binding a = \<lparr>mb_alias = a, mb_provider = Local, mb_requested = a\<rparr>"

definition claude_binding :: "string \<Rightarrow> model_binding" where
  "claude_binding a = \<lparr>mb_alias = a, mb_provider = Claude, mb_requested = a\<rparr>"

definition frozen_claude :: claude_context where
  "frozen_claude = \<lparr>cc_executable = CLAUDE_EXECUTABLE, cc_sealing_mode = CLAUDE_SEALING_MODE,
     cc_argv = CLAUDE_ARGV_TEMPLATE, cc_env = CLAUDE_ENV_ALLOWLIST\<rparr>"

definition DEFAULT_EXECUTION_PROFILE :: execution_profile where
  "DEFAULT_EXECUTION_PROFILE = \<lparr>ep_id = ''model-sweep-execution-v1'',
     ep_models = [local_binding ''general-35b'', local_binding ''coder-30b'',
       claude_binding ''haiku'', claude_binding ''sonnet'', claude_binding ''opus'',
       claude_binding ''fable''],
     ep_claude = frozen_claude, ep_gemini = None\<rparr>"

section \<open>What validated values satisfy\<close>

definition binding_ok :: "model_binding \<Rightarrow> bool" where
  "binding_ok b \<longleftrightarrow> all_name_chars (mb_alias b) \<and>
     (if mb_provider b = Local then single_line (mb_requested b) else model_token (mb_requested b))"

definition gemini_ok :: "gemini_context \<Rightarrow> bool" where
  "gemini_ok g \<longleftrightarrow> gc_contract g = GEMINI_REQUEST_CONTRACT \<and> 1 \<le> gc_max_output_tokens g
     \<and> gc_thinking_level g \<in> set gemini_thinking_levels \<and> finite_positive (gc_timeout g)"

definition evidence_ok :: "claude_evidence \<Rightarrow> bool" where
  "evidence_ok e \<longleftrightarrow> single_line (ce_executable e) \<and> single_line (ce_version e)"

definition bindings_ok :: "model_binding list \<Rightarrow> bool" where
  "bindings_ok bs \<longleftrightarrow> bs \<noteq> [] \<and> list_all binding_ok bs \<and> distinct (map mb_alias bs)"

definition profile_ok :: "execution_profile \<Rightarrow> bool" where
  "profile_ok p \<longleftrightarrow> all_name_chars (ep_id p) \<and> bindings_ok (ep_models p) \<and> ep_claude p = frozen_claude
     \<and> (case ep_gemini p of None \<Rightarrow> \<not> uses Gemini (ep_models p)
        | Some g \<Rightarrow> uses Gemini (ep_models p) \<and> gemini_ok g)"

definition receipt_ok :: "receipt \<Rightarrow> bool" where
  "receipt_ok r \<longleftrightarrow> all_name_chars (rc_profile_id r) \<and> hex_digest (rc_execution_sha r)
     \<and> hex_digest (rc_provider_sha r) \<and> hex_digest (rc_context_sha r) \<and> bindings_ok (rc_bindings r)
     \<and> rc_sealing_mode r = CLAUDE_SEALING_MODE
     \<and> (case rc_claude r of None \<Rightarrow> \<not> uses Claude (rc_bindings r)
        | Some e \<Rightarrow> uses Claude (rc_bindings r) \<and> evidence_ok e)
     \<and> (case rc_gemini r of None \<Rightarrow> \<not> uses Gemini (rc_bindings r)
        | Some g \<Rightarrow> uses Gemini (rc_bindings r) \<and> gemini_ok g)"

section \<open>Bindings\<close>

lemma require_keys_Inr:
  "require_keys v req opt label = Inr d \<longleftrightarrow>
     v = JObj d \<and> set req \<subseteq> set (keys d) \<and> set (keys d) \<subseteq> set req \<union> set opt"
  by (cases v) (auto simp: require_keys_def Let_def unknown_keys_Nil_iff missing_keys_Nil_iff)

lemma require_safe_id_Inr: "require_safe_id v l = Inr s \<longleftrightarrow> v = JStr s \<and> all_name_chars s"
  by (cases v) (auto simp: require_safe_id_def)

lemma require_nonempty_string_Inr: "require_nonempty_string v l = Inr s \<longleftrightarrow> v = JStr s \<and> single_line s"
  by (cases v) (auto simp: require_nonempty_string_def)

lemma require_model_token_Inr:
  "require_claude_model_token v l = Inr s \<longleftrightarrow> v = JStr s \<and> model_token s"
  "require_gemini_model_token v l = Inr s \<longleftrightarrow> v = JStr s \<and> model_token s"
  by (cases v; auto simp: require_claude_model_token_def require_gemini_model_token_def)+

lemma require_positive_int_Inr: "require_positive_int v l = Inr n \<longleftrightarrow> v = JInt n \<and> 1 \<le> n"
  by (cases v) (auto simp: require_positive_int_def)

lemma require_finite_positive_JFloat:
  "require_finite_positive_number (JFloat f) l = Inr g \<longleftrightarrow> g = f \<and> finite_positive f"
  by (auto simp: require_finite_positive_number_def)

lemma require_finite_positive_ok: "require_finite_positive_number v l = Inr f \<Longrightarrow> finite_positive f"
  by (auto simp: require_finite_positive_number_def split: option.splits if_splits)

lemma require_digest_Inr: "require_digest v l = Inr s \<longleftrightarrow> v = JStr s \<and> hex_digest s"
  by (cases v) (auto simp: require_digest_def)

lemma map_of_supported: "map_of supported_providers s = Some p \<longleftrightarrow> s = provider_name p"
  by (cases p) (auto simp: supported_providers_def split: if_splits)

lemma provider_name_inj [simp]: "provider_name p = provider_name q \<longleftrightarrow> p = q"
  by (cases p; cases q) simp_all

lemma ModelBinding_init_Inr:
  "ModelBinding_init a p r = Inr b \<longleftrightarrow>
     a = JStr (mb_alias b) \<and> p = JStr (provider_name (mb_provider b)) \<and> r = JStr (mb_requested b)
     \<and> binding_ok b"
proof -
  have "ModelBinding_init a (JStr (provider_name q)) r = Inr b \<longleftrightarrow>
      a = JStr (mb_alias b) \<and> q = mb_provider b \<and> r = JStr (mb_requested b) \<and> binding_ok b" for q
    using map_of_supported [of "provider_name q" q]
    by (cases b; cases q) (auto simp: ModelBinding_init_def bindE_Inr_iff require_safe_id_Inr
        require_nonempty_string_Inr require_model_token_Inr binding_ok_def)
  moreover have "\<exists>q. p = JStr (provider_name q)" if "ModelBinding_init a p r = Inr b"
    using that by (cases p) (auto simp: ModelBinding_init_def bindE_Inr_iff map_of_supported
        split: option.splits)
  ultimately show ?thesis by auto
qed

lemma binding_roundtrip: "binding_ok b \<Longrightarrow> ModelBinding_from_mapping (ModelBinding_to_mapping b) = Inr b"
  by (simp add: ModelBinding_from_mapping_def ModelBinding_to_mapping_def require_exact_keys_def
      bindE_Inr_iff require_keys_Inr binding_fields_def keys_def fld_Cons ModelBinding_init_Inr)

lemma ModelBinding_from_mapping_ok: "ModelBinding_from_mapping v = Inr b \<Longrightarrow> binding_ok b"
  by (auto simp: ModelBinding_from_mapping_def bindE_Inr_iff ModelBinding_init_Inr)

interpretation bindings: mapping_codec ModelBinding_to_mapping ModelBinding_from_mapping binding_ok
  by unfold_locales (simp_all add: ModelBinding_from_mapping_ok binding_roundtrip)

section \<open>Contexts, profiles and receipts read back\<close>

lemma ClaudeContext_init_Inr:
  "ClaudeContext_init e sm a v = Inr c \<longleftrightarrow> e = JStr CLAUDE_EXECUTABLE \<and> sm = JStr CLAUDE_SEALING_MODE
     \<and> a = CLAUDE_ARGV_TEMPLATE \<and> v = CLAUDE_ENV_ALLOWLIST \<and> c = frozen_claude"
  by (auto simp: ClaudeContext_init_def frozen_claude_def)

lemma string_list_strs_json: "string_list (strs_json xs) l = Inr xs"
  by (simp add: string_list_def strs_json_def list_all_is_str_map)

lemma claude_roundtrip: "ClaudeContext_from_mapping (ClaudeContext_to_mapping frozen_claude) = Inr frozen_claude"
  by (simp add: ClaudeContext_from_mapping_def ClaudeContext_to_mapping_def require_exact_keys_def
      bindE_Inr_iff require_keys_Inr claude_fields_def keys_def fld_Cons string_list_strs_json
      ClaudeContext_init_Inr, simp add: frozen_claude_def)

lemma ClaudeContext_from_mapping_frozen: "ClaudeContext_from_mapping v = Inr c \<Longrightarrow> c = frozen_claude"
  by (auto simp: ClaudeContext_from_mapping_def bindE_Inr_iff ClaudeContext_init_Inr)

lemma GeminiContext_init_Inr:
  "GeminiContext_init co t l (JFloat f) = Inr g \<longleftrightarrow>
     co = JStr (gc_contract g) \<and> t = JInt (gc_max_output_tokens g) \<and> l = JStr (gc_thinking_level g)
     \<and> f = gc_timeout g \<and> gemini_ok g"
  by (cases g; cases l) (auto simp: GeminiContext_init_def bindE_Inr_iff require_positive_int_Inr
      require_finite_positive_JFloat gemini_ok_def)

lemma gemini_roundtrip: "gemini_ok g \<Longrightarrow> GeminiContext_from_mapping (GeminiContext_to_mapping g) = Inr g"
  by (simp add: GeminiContext_from_mapping_def GeminiContext_to_mapping_def require_exact_keys_def
      bindE_Inr_iff require_keys_Inr gemini_fields_def keys_def fld_Cons checkE_Inr_iff
      require_finite_positive_JFloat GeminiContext_init_Inr, simp add: gemini_ok_def)

lemma GeminiContext_from_mapping_ok: "GeminiContext_from_mapping v = Inr g \<Longrightarrow> gemini_ok g"
  by (auto simp: GeminiContext_from_mapping_def bindE_Inr_iff GeminiContext_init_Inr)

lemma optional_gemini_ok: "optional_gemini d = Inr (Some g) \<Longrightarrow> gemini_ok g"
  by (auto simp: optional_gemini_def bindE_Inr_iff GeminiContext_from_mapping_ok split: option.splits)

lemma optional_gemini_entry:
  assumes "''gemini'' \<notin> set (keys d)" "''gemini'' \<notin> set (keys e)" "\<And>c. g = Some c \<Longrightarrow> gemini_ok c"
  shows "optional_gemini (d @ gemini_entry g @ e) = Inr g"
proof (cases g)
  case None
  with assms(1,2) show ?thesis
    by (simp add: optional_gemini_def gemini_entry_def map_of_append map_of_not_key map_add_def)
next
  case (Some c)
  with assms show ?thesis
    by (simp add: optional_gemini_def gemini_entry_def map_of_append map_of_not_key map_add_def
        gemini_roundtrip)
qed

lemma keys_gemini_entry: "keys (gemini_entry g) = (if g = None then [] else [''gemini''])"
  by (auto simp: gemini_entry_def keys_def split: option.splits)

lemma fld_gemini_entry [simp]: "k \<noteq> ''gemini'' \<Longrightarrow> fld (gemini_entry g @ e) k = fld e k"
  by (auto simp: gemini_entry_def fld_Cons split: option.splits)

lemma duplicate_aliases_Nil: "duplicate_aliases as = [] \<longleftrightarrow> distinct as"
proof -
  have "(\<exists>x \<in> set as. 1 < count_list as x) \<longleftrightarrow> \<not> distinct as"
  proof (induction as)
    case (Cons x as)
    then show ?case by (auto simp: count_list_0_iff)
  qed simp
  then show ?thesis by (auto simp: duplicate_aliases_def filter_empty_conv)
qed

lemma Profile_init_Inr:
  "Profile_init v i ms c g = Inr p \<longleftrightarrow>
     v = JInt 1 \<and> i = JStr (ep_id p) \<and> ms = ep_models p \<and> c = ep_claude p \<and> g = ep_gemini p
     \<and> all_name_chars (ep_id p) \<and> ms \<noteq> [] \<and> distinct (map mb_alias ms)
     \<and> (uses Gemini ms \<longleftrightarrow> g \<noteq> None)"
  by (cases p) (auto simp: Profile_init_def Let_def bindE_Inr_iff require_safe_id_Inr
      duplicate_aliases_Nil split: if_splits)

lemma Profile_from_mapping_parts:
  assumes "Profile_from_mapping v = Inr p"
  obtains d raw where "v = JObj d" and "mapE ModelBinding_from_mapping raw = Inr (ep_models p)"
    and "optional_gemini d = Inr (ep_gemini p)" and "ClaudeContext_from_mapping (fld d ''claude'') = Inr (ep_claude p)"
    and "Profile_init (fld d ''schema_version'') (fld d ''id'') (ep_models p) (ep_claude p) (ep_gemini p) = Inr p"
proof -
  from assms obtain d where v: "v = JObj d" and r: "(case fld d ''models'' of JList raw \<Rightarrow>
         bindE (optional_gemini d) (\<lambda>gemini.
         bindE (mapE ModelBinding_from_mapping raw) (\<lambda>models.
         bindE (ClaudeContext_from_mapping (fld d ''claude'')) (\<lambda>claude.
           Profile_init (fld d ''schema_version'') (fld d ''id'') models claude gemini)))
     | _ \<Rightarrow> Inl (NotAList ''execution profile.models'')) = Inr p"
    unfolding Profile_from_mapping_def bindE_Inr_iff require_keys_Inr by blast
  from r obtain raw g ms c where "optional_gemini d = Inr g" "mapE ModelBinding_from_mapping raw = Inr ms"
      "ClaudeContext_from_mapping (fld d ''claude'') = Inr c"
      and i: "Profile_init (fld d ''schema_version'') (fld d ''id'') ms c g = Inr p"
    by (cases "fld d ''models''") (simp_all only: json.case bindE_Inr_iff, blast+)
  moreover from i have "ms = ep_models p" "c = ep_claude p" "g = ep_gemini p"
    by (simp_all add: Profile_init_Inr)
  ultimately show thesis using that v by blast
qed

lemma Profile_from_mapping_ok:
  assumes "Profile_from_mapping v = Inr p" shows "profile_ok p"
  using assms
proof (rule Profile_from_mapping_parts)
  fix d raw
  assume m: "mapE ModelBinding_from_mapping raw = Inr (ep_models p)"
    and g: "optional_gemini d = Inr (ep_gemini p)"
    and c: "ClaudeContext_from_mapping (fld d ''claude'') = Inr (ep_claude p)"
    and i: "Profile_init (fld d ''schema_version'') (fld d ''id'') (ep_models p) (ep_claude p) (ep_gemini p) = Inr p"
  show ?thesis
    using i bindings.list_from_ok [OF m] ClaudeContext_from_mapping_frozen [OF c] optional_gemini_ok g
    by (auto simp: profile_ok_def Profile_init_Inr bindings_ok_def split: option.splits)
qed

lemma profile_roundtrip_ok:
  assumes "profile_ok p" shows "Profile_from_mapping (Profile_to_mapping p) = Inr p"
proof -
  let ?d = "[(''schema_version'', JInt 1), (''id'', JStr (ep_id p)),
     (''models'', JList (map ModelBinding_to_mapping (ep_models p))),
     (''claude'', ClaudeContext_to_mapping (ep_claude p))]"
  have "optional_gemini (?d @ gemini_entry (ep_gemini p) @ []) = Inr (ep_gemini p)"
    by (rule optional_gemini_entry) (use assms in \<open>auto simp: keys_def profile_ok_def\<close>)
  then have g: "optional_gemini (?d @ gemini_entry (ep_gemini p)) = Inr (ep_gemini p)" by simp
  have k: "set (keys (?d @ gemini_entry (ep_gemini p))) \<subseteq> set profile_fields \<union> set [''gemini'']"
      "set profile_fields \<subseteq> set (keys (?d @ gemini_entry (ep_gemini p)))"
    by (auto simp: keys_simps keys_gemini_entry profile_fields_def)
  have c: "ClaudeContext_from_mapping (ClaudeContext_to_mapping (ep_claude p)) = Inr (ep_claude p)"
    using assms claude_roundtrip by (simp add: profile_ok_def)
  have m: "mapE ModelBinding_from_mapping (map ModelBinding_to_mapping (ep_models p)) = Inr (ep_models p)"
    using assms by (simp add: profile_ok_def bindings_ok_def bindings.list_from_to)
  have "Profile_init (JInt 1) (JStr (ep_id p)) (ep_models p) (ep_claude p) (ep_gemini p) = Inr p"
    using assms by (auto simp: Profile_init_Inr profile_ok_def bindings_ok_def split: option.splits)
  with g k c m show ?thesis
    by (simp add: Profile_from_mapping_def Profile_to_mapping_def bindE_Inr_iff require_keys_Inr fld_Cons)
qed

lemma Receipt_init_Inr:
  "Receipt_init v i e pr c bs sm cl g = Inr r \<longleftrightarrow>
     v = JInt 1 \<and> i = JStr (rc_profile_id r) \<and> e = JStr (rc_execution_sha r) \<and> pr = JStr (rc_provider_sha r)
     \<and> c = JStr (rc_context_sha r) \<and> bs = rc_bindings r \<and> sm = JStr (rc_sealing_mode r)
     \<and> cl = rc_claude r \<and> g = rc_gemini r \<and> all_name_chars (rc_profile_id r)
     \<and> hex_digest (rc_execution_sha r) \<and> hex_digest (rc_provider_sha r) \<and> hex_digest (rc_context_sha r)
     \<and> bs \<noteq> [] \<and> distinct (map mb_alias bs) \<and> rc_sealing_mode r = CLAUDE_SEALING_MODE
     \<and> (uses Claude bs \<longleftrightarrow> cl \<noteq> None) \<and> (uses Gemini bs \<longleftrightarrow> g \<noteq> None)"
  by (cases r) (auto simp: Receipt_init_def bindE_Inr_iff require_safe_id_Inr require_digest_Inr
      split: if_splits)

lemma evidence_init_Inr:
  "ClaudeEvidence_init e v = Inr c \<longleftrightarrow> e = JStr (ce_executable c) \<and> v = JStr (ce_version c) \<and> evidence_ok c"
  by (cases c) (auto simp: ClaudeEvidence_init_def bindE_Inr_iff require_nonempty_string_Inr evidence_ok_def)

lemma evidence_roundtrip: "evidence_ok e \<Longrightarrow> ClaudeEvidence_from_mapping (ClaudeEvidence_to_mapping e) = Inr e"
  by (simp add: ClaudeEvidence_from_mapping_def ClaudeEvidence_to_mapping_def require_exact_keys_def
      bindE_Inr_iff require_keys_Inr keys_def fld_Cons evidence_init_Inr)

lemma optional_evidence_ok: "optional_evidence v = Inr (Some e) \<Longrightarrow> evidence_ok e"
  by (auto simp: optional_evidence_def bindE_Inr_iff ClaudeEvidence_from_mapping_def evidence_init_Inr
      split: if_splits)

lemma optional_evidence_roundtrip:
  "(\<And>x. e = Some x \<Longrightarrow> evidence_ok x) \<Longrightarrow>
    optional_evidence (case e of None \<Rightarrow> JNull | Some x \<Rightarrow> ClaudeEvidence_to_mapping x) = Inr e"
  by (cases e) (simp_all add: optional_evidence_def evidence_roundtrip, simp add: ClaudeEvidence_to_mapping_def)

lemma Receipt_from_mapping_parts:
  assumes "Receipt_from_mapping ext v = Inr r"
  obtains d raw where "v = JObj d" and "mapE ModelBinding_from_mapping raw = Inr (rc_bindings r)"
    and "optional_gemini d = Inr (rc_gemini r)" and "optional_evidence (fld d ''claude_cli'') = Inr (rc_claude r)"
    and "Receipt_init (fld d ''schema_version'') (fld d ''profile_id'') (fld d ''execution_profile_sha256'')
      (fld d ''provider_profile_sha256'') (fld d ''context_profile_sha256'') (rc_bindings r)
      (fld d ''sealing_mode'') (rc_claude r) (rc_gemini r) = Inr r"
    and "fld d ''receipt_sha256'' = JStr (receipt_sha256 ext r)"
proof -
  from assms obtain d where v: "v = JObj d" and r: "(case fld d ''bindings'' of JList raw \<Rightarrow>
         bindE (optional_gemini d) (\<lambda>gemini.
         bindE (mapE ModelBinding_from_mapping raw) (\<lambda>bindings.
         bindE (optional_evidence (fld d ''claude_cli'')) (\<lambda>claude.
         bindE (Receipt_init (fld d ''schema_version'') (fld d ''profile_id'')
             (fld d ''execution_profile_sha256'') (fld d ''provider_profile_sha256'')
             (fld d ''context_profile_sha256'') bindings (fld d ''sealing_mode'') claude gemini) (\<lambda>r.
         bindE (checkE (fld d ''receipt_sha256'' = JStr (receipt_sha256 ext r)) ReceiptHashMismatch) (\<lambda>_.
           Inr r)))))
     | _ \<Rightarrow> Inl (NotAList ''execution receipt.bindings'')) = Inr r"
    unfolding Receipt_from_mapping_def bindE_Inr_iff require_keys_Inr by blast
  from r obtain raw g bs cl where "optional_gemini d = Inr g" "mapE ModelBinding_from_mapping raw = Inr bs"
      "optional_evidence (fld d ''claude_cli'') = Inr cl"
      and i: "Receipt_init (fld d ''schema_version'') (fld d ''profile_id'')
             (fld d ''execution_profile_sha256'') (fld d ''provider_profile_sha256'')
             (fld d ''context_profile_sha256'') bs (fld d ''sealing_mode'') cl g = Inr r"
      and "fld d ''receipt_sha256'' = JStr (receipt_sha256 ext r)"
    by (cases "fld d ''bindings''") (simp_all only: json.case bindE_Inr_iff checkE_Inr_iff sum.inject, blast+)
  moreover from i have "bs = rc_bindings r" "cl = rc_claude r" "g = rc_gemini r"
    by (simp_all add: Receipt_init_Inr)
  ultimately show thesis using that v by blast
qed

lemma Receipt_from_mapping_ok:
  assumes "Receipt_from_mapping ext v = Inr r" shows "receipt_ok r"
  using assms
proof (rule Receipt_from_mapping_parts)
  fix d raw
  assume m: "mapE ModelBinding_from_mapping raw = Inr (rc_bindings r)"
    and g: "optional_gemini d = Inr (rc_gemini r)"
    and e: "optional_evidence (fld d ''claude_cli'') = Inr (rc_claude r)"
    and i: "Receipt_init (fld d ''schema_version'') (fld d ''profile_id'') (fld d ''execution_profile_sha256'')
      (fld d ''provider_profile_sha256'') (fld d ''context_profile_sha256'') (rc_bindings r)
      (fld d ''sealing_mode'') (rc_claude r) (rc_gemini r) = Inr r"
  show ?thesis
    using i bindings.list_from_ok [OF m] optional_gemini_ok g optional_evidence_ok e
    by (auto simp: receipt_ok_def Receipt_init_Inr bindings_ok_def split: option.splits)
qed

lemma keys_payload: "keys (receipt_payload r) = [''schema_version'', ''profile_id'',
    ''execution_profile_sha256'', ''provider_profile_sha256'', ''context_profile_sha256'', ''bindings'',
    ''sealing_mode'', ''claude_cli''] @ keys (gemini_entry (rc_gemini r))"
  by (simp add: receipt_payload_def keys_simps)

lemma receipt_roundtrip_ok:
  assumes "receipt_ok r" shows "Receipt_from_mapping ext (Receipt_to_mapping ext r) = Inr r"
proof -
  let ?e = "[(''receipt_sha256'', JStr (receipt_sha256 ext r))]"
  let ?d = "receipt_payload r @ ?e"
  have "optional_gemini ?d = Inr (rc_gemini r)"
    unfolding receipt_payload_def append_assoc
    by (rule optional_gemini_entry) (use assms in \<open>auto simp: keys_simps receipt_ok_def\<close>)
  moreover have "set (keys ?d) \<subseteq> set receipt_fields \<union> set [''gemini'']" "set receipt_fields \<subseteq> set (keys ?d)"
    by (auto simp: keys_simps keys_payload keys_gemini_entry receipt_fields_def)
  moreover have "optional_evidence (case rc_claude r of None \<Rightarrow> JNull | Some x \<Rightarrow> ClaudeEvidence_to_mapping x)
      = Inr (rc_claude r)"
    by (rule optional_evidence_roundtrip) (use assms in \<open>simp add: receipt_ok_def\<close>)
  moreover have "mapE ModelBinding_from_mapping (map ModelBinding_to_mapping (rc_bindings r)) = Inr (rc_bindings r)"
    using assms by (simp add: receipt_ok_def bindings_ok_def bindings.list_from_to)
  moreover have "Receipt_init (JInt 1) (JStr (rc_profile_id r)) (JStr (rc_execution_sha r))
      (JStr (rc_provider_sha r)) (JStr (rc_context_sha r)) (rc_bindings r) (JStr (rc_sealing_mode r))
      (rc_claude r) (rc_gemini r) = Inr r"
    using assms by (auto simp: Receipt_init_Inr receipt_ok_def bindings_ok_def split: option.splits)
  moreover have "fld ?d ''schema_version'' = JInt 1" "fld ?d ''profile_id'' = JStr (rc_profile_id r)"
      "fld ?d ''execution_profile_sha256'' = JStr (rc_execution_sha r)"
      "fld ?d ''provider_profile_sha256'' = JStr (rc_provider_sha r)"
      "fld ?d ''context_profile_sha256'' = JStr (rc_context_sha r)"
      "fld ?d ''bindings'' = JList (map ModelBinding_to_mapping (rc_bindings r))"
      "fld ?d ''sealing_mode'' = JStr (rc_sealing_mode r)"
      "fld ?d ''claude_cli'' = (case rc_claude r of None \<Rightarrow> JNull | Some e \<Rightarrow> ClaudeEvidence_to_mapping e)"
      "fld ?d ''receipt_sha256'' = JStr (receipt_sha256 ext r)"
    by (simp_all add: receipt_payload_def fld_Cons)
  ultimately show ?thesis
    by (simp add: Receipt_from_mapping_def Receipt_to_mapping_def bindE_Inr_iff require_keys_Inr)
qed

section \<open>Hashes identify what they hash\<close>

lemma ModelBinding_sort_inj:
  "sort_json (ModelBinding_to_mapping a) = sort_json (ModelBinding_to_mapping b) \<longleftrightarrow> a = b"
  by (cases a; cases b) (auto simp: ModelBinding_to_mapping_def)

lemma ModelBindings_sort_inj:
  "map (sort_json \<circ> ModelBinding_to_mapping) as = map (sort_json \<circ> ModelBinding_to_mapping) bs \<longleftrightarrow> as = bs"
proof -
  have "inj (sort_json \<circ> ModelBinding_to_mapping)" by (simp add: inj_def ModelBinding_sort_inj)
  then show ?thesis by (simp add: inj_map_eq_map)
qed

lemma sort_strs_json [simp]: "sort_json (strs_json xs) = strs_json xs"
  by (simp add: strs_json_def comp_def)

lemma GeminiContext_sort_inj:
  "sort_json (GeminiContext_to_mapping a) = sort_json (GeminiContext_to_mapping b) \<longleftrightarrow> a = b"
  by (cases a; cases b) (auto simp: GeminiContext_to_mapping_def)

lemma ClaudeEvidence_sort_inj:
  "sort_json (ClaudeEvidence_to_mapping a) = sort_json (ClaudeEvidence_to_mapping b) \<longleftrightarrow> a = b"
  by (cases a; cases b) (auto simp: ClaudeEvidence_to_mapping_def)

lemma ClaudeEvidence_not_null [simp]: "sort_json (ClaudeEvidence_to_mapping e) \<noteq> JNull"
  "JNull \<noteq> sort_json (ClaudeEvidence_to_mapping e)"
  by (simp_all add: ClaudeEvidence_to_mapping_def)

lemma sort_payload:
  "sort_json (JObj (receipt_payload r)) = JObj ([
     (''bindings'', JList (map (sort_json \<circ> ModelBinding_to_mapping) (rc_bindings r))),
     (''claude_cli'', case rc_claude r of None \<Rightarrow> JNull | Some e \<Rightarrow> sort_json (ClaudeEvidence_to_mapping e)),
     (''context_profile_sha256'', JStr (rc_context_sha r)),
     (''execution_profile_sha256'', JStr (rc_execution_sha r))]
     @ (case rc_gemini r of None \<Rightarrow> [] | Some g \<Rightarrow> [(''gemini'', sort_json (GeminiContext_to_mapping g))])
     @ [(''profile_id'', JStr (rc_profile_id r)), (''provider_profile_sha256'', JStr (rc_provider_sha r)),
     (''schema_version'', JInt 1), (''sealing_mode'', JStr (rc_sealing_mode r))])"
  by (cases "rc_gemini r"; cases "rc_claude r") (simp_all add: receipt_payload_def gemini_entry_def)

lemma sort_payload_inj:
  assumes "sort_json (JObj (receipt_payload r)) = sort_json (JObj (receipt_payload q))"
  shows "r = q"
  using assms unfolding sort_payload
  by (cases r; cases q) (auto simp: ModelBindings_sort_inj GeminiContext_sort_inj ClaudeEvidence_sort_inj
      split: option.splits)

lemma ClaudeContext_sort_inj:
  "sort_json (ClaudeContext_to_mapping a) = sort_json (ClaudeContext_to_mapping b) \<Longrightarrow> a = b"
  by (cases a; cases b) (auto simp: ClaudeContext_to_mapping_def strs_json_def inj_map_eq_map inj_def)

lemma sort_profile:
  "sort_json (Profile_to_mapping p) = JObj (
     (''claude'', sort_json (ClaudeContext_to_mapping (ep_claude p)))
     # (case ep_gemini p of None \<Rightarrow> [] | Some g \<Rightarrow> [(''gemini'', sort_json (GeminiContext_to_mapping g))])
     @ [(''id'', JStr (ep_id p)),
     (''models'', JList (map (sort_json \<circ> ModelBinding_to_mapping) (ep_models p))),
     (''schema_version'', JInt 1)])"
  by (cases "ep_gemini p") (simp_all add: Profile_to_mapping_def gemini_entry_def)

lemma sort_profile_inj:
  assumes "sort_json (Profile_to_mapping p) = sort_json (Profile_to_mapping q)"
  shows "p = q"
  using assms unfolding sort_profile
  by (cases p; cases q) (auto simp: ModelBindings_sort_inj GeminiContext_sort_inj
      dest: ClaudeContext_sort_inj split: option.splits)

interpretation profiles: mapping_codec Profile_to_mapping Profile_from_mapping profile_ok
  by unfold_locales (simp_all add: Profile_from_mapping_ok profile_roundtrip_ok)

interpretation receipts: mapping_codec "Receipt_to_mapping ext" "Receipt_from_mapping ext" receipt_ok for ext
  by unfold_locales (simp_all add: Receipt_from_mapping_ok receipt_roundtrip_ok)

lemma evidence_from_ok: "ClaudeEvidence_from_mapping v = Inr e \<Longrightarrow> evidence_ok e"
  by (auto simp: ClaudeEvidence_from_mapping_def bindE_Inr_iff evidence_init_Inr)

interpretation evidence: mapping_codec ClaudeEvidence_to_mapping ClaudeEvidence_from_mapping evidence_ok
  by unfold_locales (simp_all add: evidence_from_ok evidence_roundtrip)

interpretation gemini: mapping_codec GeminiContext_to_mapping GeminiContext_from_mapping gemini_ok
  by unfold_locales (simp_all add: GeminiContext_from_mapping_ok gemini_roundtrip)

section \<open>Lookup\<close>

lemma binding_for_Inr:
  "binding_for p a = Inr b \<Longrightarrow> b \<in> set (ep_models p) \<and> mb_alias b = a"
  by (auto simp: binding_for_def find_Some_iff split: option.splits)

lemma binding_for_Inl: "binding_for p a = Inl e \<longleftrightarrow> a \<notin> set (profile_aliases p) \<and> e = NoBindingFor a"
  by (auto simp: binding_for_def profile_aliases_def find_None_iff find_Some_iff split: option.splits)

lemma binding_for_unique:
  assumes "bindings_ok (ep_models p)" "b \<in> set (ep_models p)"
  shows "binding_for p (mb_alias b) = Inr b"
proof -
  from assms(2) have "\<exists>c. find (\<lambda>c. mb_alias c = mb_alias b) (ep_models p) = Some c"
    by (metis (mono_tags, lifting) find_None_iff2 not_None_eq)
  then obtain c where c: "find (\<lambda>c. mb_alias c = mb_alias b) (ep_models p) = Some c" ..
  then have "c \<in> set (ep_models p)" "mb_alias c = mb_alias b" by (auto simp: find_Some_iff)
  with assms have "c = b" by (auto simp: bindings_ok_def distinct_map dest: inj_onD)
  with c show ?thesis by (simp add: binding_for_def)
qed

lemma check_bindings_Inr:
  "seqE (map (check_binding p) bs) = Inr () \<longleftrightarrow> (\<forall>b \<in> set bs. binding_for p (mb_alias b) = Inr b)"
proof -
  have "check_binding p b = Inr () \<longleftrightarrow> binding_for p (mb_alias b) = Inr b" for b
    by (cases "binding_for p (mb_alias b)") (auto simp: check_binding_def checkE_Inr_iff)
  then show ?thesis by (simp add: seqE_Inr_iff list_all_iff)
qed

section \<open>Properties\<close>

definition sample_profile :: execution_profile where
  "sample_profile = \<lparr>ep_id = ''p-1'',
     ep_models = [local_binding ''m'',
       \<lparr>mb_alias = ''flash'', mb_provider = Gemini, mb_requested = ''gemini-3.8-flash''\<rparr>],
     ep_claude = frozen_claude, ep_gemini = Some DEFAULT_GEMINI_CONTEXT\<rparr>"

lemma sample_profile_read: "Profile_from_mapping (Profile_to_mapping sample_profile) = Inr sample_profile"
  by code_simp

text \<open>An execution profile that is read back satisfies its schema: unique safe aliases, each bound to
  one of the three providers with a requested model in that provider's grammar, the frozen Claude
  contract, and a Gemini contract exactly when a Gemini model is bound; writing it out and reading it
  again gives the same profile.\<close>

theorem profile_read_sound:
  assumes "Profile_from_mapping j = Inr p"
  shows "profile_ok p \<and> Profile_from_mapping (Profile_to_mapping p) = Inr p"
  using profiles.from_ok [OF assms] profiles.reread [OF assms] by simp

theorem profile_read_sound_witness: "profile_ok sample_profile"
  using profile_read_sound [OF sample_profile_read] by simp

text \<open>No alias is dispatched by default: a lookup gives the one binding of that alias in the profile,
  and an alias without a binding is an error, never a local model.\<close>

theorem binding_lookup:
  assumes "profile_ok p"
  shows "(case binding_for p a of
      Inr b \<Rightarrow> mb_alias b = a \<and> b \<in> set (ep_models p) \<and>
        (\<forall>c \<in> set (ep_models p). mb_alias c = a \<longrightarrow> c = b)
    | Inl e \<Rightarrow> a \<notin> set (profile_aliases p) \<and> e = NoBindingFor a)"
proof (cases "binding_for p a")
  case (Inl e)
  with binding_for_Inl [of p a e] show ?thesis by simp
next
  case (Inr b)
  have ok: "bindings_ok (ep_models p)" using assms by (simp add: profile_ok_def)
  have "c = b" if "c \<in> set (ep_models p)" "mb_alias c = a" for c
    using binding_for_unique [OF ok that(1)] that(2) Inr by simp
  with Inr binding_for_Inr [OF Inr] show ?thesis by auto
qed

theorem binding_lookup_witness:
  "binding_for sample_profile ''other'' = Inl (NoBindingFor ''other'')"
proof -
  have "profile_ok sample_profile" by (rule profiles.from_ok [OF sample_profile_read])
  moreover have "\<exists>e. binding_for sample_profile ''other'' = Inl e"
    by (simp add: binding_for_def sample_profile_def local_binding_def)
  ultimately show ?thesis using binding_lookup [of sample_profile "''other''"] by auto
qed

text \<open>Two different valid profiles never hash the same text, so every provider, requested model and
  Gemini setting is part of the profile hash; equal hashes would be a SHA-256 collision.\<close>

theorem profile_hash_identifies:
  assumes "json_ok (Profile_to_mapping p)" and "json_ok (Profile_to_mapping q)" and "p \<noteq> q"
  shows "canonical_dumps (Profile_to_mapping p) \<noteq> canonical_dumps (Profile_to_mapping q) \<and>
    (profile_sha256 ext p = profile_sha256 ext q \<longrightarrow> (\<exists>x y. x \<noteq> y \<and> sha256_hex ext x = sha256_hex ext y))"
proof -
  have "canonical_dumps (Profile_to_mapping p) \<noteq> canonical_dumps (Profile_to_mapping q)"
    using canonical_dumps_inj [OF assms(1,2)] sort_profile_inj assms(3) by blast
  then show ?thesis by (auto simp: profile_sha256_def canonical_sha256_def)
qed

theorem profile_hash_identifies_witness:
  "canonical_dumps (Profile_to_mapping sample_profile)
     \<noteq> canonical_dumps (Profile_to_mapping (sample_profile\<lparr>ep_gemini :=
         Some (DEFAULT_GEMINI_CONTEXT\<lparr>gc_max_output_tokens := 4097\<rparr>)\<rparr>))"
proof -
  have "json_ok (JInt 4096)" "json_ok (JInt 4097)" "json_ok (JInt 1)"
    by (simp_all add: int_max_str_digits_def show_nat.simps)
  moreover have "flt_ok (Fin False 12 1)" by simp
  ultimately have "json_ok (Profile_to_mapping sample_profile)"
      "json_ok (Profile_to_mapping (sample_profile\<lparr>ep_gemini :=
         Some (DEFAULT_GEMINI_CONTEXT\<lparr>gc_max_output_tokens := 4097\<rparr>)\<rparr>))"
    by (simp_all add: Profile_to_mapping_def sample_profile_def gemini_entry_def DEFAULT_GEMINI_CONTEXT_def
        GeminiContext_to_mapping_def ClaudeContext_to_mapping_def ModelBinding_to_mapping_def
        strs_json_def list_all_iff local_binding_def)
  moreover have "sample_profile \<noteq> sample_profile\<lparr>ep_gemini :=
         Some (DEFAULT_GEMINI_CONTEXT\<lparr>gc_max_output_tokens := 4097\<rparr>)\<rparr>"
    by (simp add: sample_profile_def DEFAULT_GEMINI_CONTEXT_def)
  ultimately show ?thesis using profile_hash_identifies by blast
qed

text \<open>A receipt created for a selection binds exactly that selection as the profile has it, records
  Claude runtime evidence exactly when a Claude model is selected and the profile's Gemini contract
  exactly when a Gemini model is, and survives being written to the manifest and read back.\<close>

theorem receipt_create_sound:
  assumes "Receipt_create ext p selected exe ver = Inr r" and "profile_ok p"
  shows "rc_bindings r = selected \<and> set selected \<subseteq> set (ep_models p) \<and>
    (rc_claude r \<noteq> None \<longleftrightarrow> uses Claude selected) \<and>
    rc_gemini r = (if uses Gemini selected then ep_gemini p else None) \<and>
    rc_context_sha r = context_profile_sha256 ext p \<and>
    Receipt_from_mapping ext (Receipt_to_mapping ext r) = Inr r"
proof -
  from assms(1) obtain rt g where b: "seqE (map (check_binding p) selected) = Inr ()"
    and rt: "runtime_evidence selected exe ver = Inr rt"
    and g: "(if uses Gemini selected then (if ep_gemini p = None then Inl GeminiContextMissing
        else Inr (ep_gemini p)) else Inr None) = (Inr g :: gemini_context option pres)"
    and i: "Receipt_init (JInt 1) (JStr (ep_id p)) (JStr (profile_sha256 ext p))
         (JStr (provider_profile_sha256 ext p)) (JStr (context_profile_sha256 ext p)) selected
         (JStr (cc_sealing_mode (ep_claude p))) rt g = Inr r"
    unfolding Receipt_create_def bindE_Inr_iff by auto
  from b have sub: "set selected \<subseteq> set (ep_models p)"
    by (auto simp: check_bindings_Inr dest: binding_for_Inr)
  have gm: "g = (if uses Gemini selected then ep_gemini p else None)" using g by (auto split: if_splits)
  have "evidence_ok e" if "rt = Some e" for e
    using rt that by (auto simp: runtime_evidence_def bindE_Inr_iff evidence_init_Inr
        split: if_splits option.splits)
  moreover have "gemini_ok c" if "g = Some c" for c
    using gm that assms(2) by (auto simp: profile_ok_def split: if_splits option.splits)
  moreover have "list_all binding_ok selected"
    using sub assms(2) by (auto simp: profile_ok_def bindings_ok_def list_all_iff)
  ultimately have "receipt_ok r"
    using i by (auto simp: Receipt_init_Inr receipt_ok_def bindings_ok_def split: option.splits)
  then have "Receipt_from_mapping ext (Receipt_to_mapping ext r) = Inr r" by (rule receipts.from_to)
  with i sub gm show ?thesis by (auto simp: Receipt_init_Inr)
qed

text \<open>A digest that is always 64 zeros: enough to run the receipt code.\<close>

definition zero_digest_ext :: externals where
  "zero_digest_ext = documented_ext\<lparr>sha256_hex := (\<lambda>_. replicate 64 (CHR ''0''))\<rparr>"

definition sample_receipt :: receipt where
  "sample_receipt = \<lparr>rc_profile_id = ''p-1'', rc_execution_sha = replicate 64 (CHR ''0''),
     rc_provider_sha = replicate 64 (CHR ''0''), rc_context_sha = replicate 64 (CHR ''0''),
     rc_bindings = [local_binding ''m''], rc_sealing_mode = ''prompt-only-v1'', rc_claude = None,
     rc_gemini = None\<rparr>"

lemma sample_receipt_created:
  "Receipt_create zero_digest_ext sample_profile [local_binding ''m''] None None = Inr sample_receipt"
proof -
  have sha: "canonical_sha256 zero_digest_ext v = replicate 64 (CHR ''0'')" for v
    by (simp add: canonical_sha256_def zero_digest_ext_def)
  have "binding_for sample_profile ''m'' = Inr (local_binding ''m'')"
    by (simp add: binding_for_def sample_profile_def local_binding_def)
  then have b: "seqE (map (check_binding sample_profile) [local_binding ''m'']) = Inr ()"
    by (simp only: check_bindings_Inr) (simp add: local_binding_def)
  have ctx: "context_profile_sha256 zero_digest_ext sample_profile = replicate 64 (CHR ''0'')"
      "profile_sha256 zero_digest_ext sample_profile = replicate 64 (CHR ''0'')"
      "provider_profile_sha256 zero_digest_ext sample_profile = replicate 64 (CHR ''0'')"
    by (simp_all add: context_profile_sha256_def profile_sha256_def provider_profile_sha256_def
        claude_sha256_def sha split: option.split)
  have "hex_digest (replicate 64 (CHR ''0''))" by code_simp
  moreover have "all_name_chars ''p-1''" by code_simp
  moreover have "uses Claude [local_binding ''m''] = False" "uses Gemini [local_binding ''m''] = False"
    by (simp_all add: uses_def local_binding_def)
  ultimately have i: "Receipt_init (JInt 1) (JStr ''p-1'') (JStr (replicate 64 (CHR ''0'')))
      (JStr (replicate 64 (CHR ''0''))) (JStr (replicate 64 (CHR ''0''))) [local_binding ''m'']
      (JStr CLAUDE_SEALING_MODE) None None = Inr sample_receipt"
    by (simp add: Receipt_init_Inr sample_receipt_def CLAUDE_SEALING_MODE_def)
  have "ep_id sample_profile = ''p-1''" "cc_sealing_mode (ep_claude sample_profile) = CLAUDE_SEALING_MODE"
    by (simp_all add: sample_profile_def frozen_claude_def)
  then show ?thesis
    by (simp only: Receipt_create_def b ctx i bindE.simps runtime_evidence_def
        \<open>uses Claude [local_binding ''m''] = False\<close> \<open>uses Gemini [local_binding ''m''] = False\<close> if_False)
qed

theorem receipt_create_sound_witness:
  "Receipt_from_mapping zero_digest_ext (Receipt_to_mapping zero_digest_ext sample_receipt) = Inr sample_receipt"
  using receipt_create_sound [OF sample_receipt_created profiles.from_ok [OF sample_profile_read]] by simp

text \<open>A stored receipt is tamper evident: what is read carries the hash of its own payload, and two
  different receipts never have the same canonical payload, so a changed receipt that kept its
  recorded hash would be a SHA-256 collision.\<close>

theorem receipt_tamper_evident:
  assumes "Receipt_from_mapping ext (JObj d) = Inr r" and "Receipt_from_mapping ext (JObj e) = Inr q"
    and "json_ok (JObj (receipt_payload r))" and "json_ok (JObj (receipt_payload q))" and "r \<noteq> q"
  shows "fld d ''receipt_sha256'' = JStr (receipt_sha256 ext r) \<and>
    canonical_dumps (JObj (receipt_payload r)) \<noteq> canonical_dumps (JObj (receipt_payload q)) \<and>
    (fld d ''receipt_sha256'' = fld e ''receipt_sha256'' \<longrightarrow>
      (\<exists>x y. x \<noteq> y \<and> sha256_hex ext x = sha256_hex ext y))"
proof -
  have "fld d ''receipt_sha256'' = JStr (receipt_sha256 ext r)"
    using assms(1) by (rule Receipt_from_mapping_parts) simp
  moreover have "fld e ''receipt_sha256'' = JStr (receipt_sha256 ext q)"
    using assms(2) by (rule Receipt_from_mapping_parts) simp
  moreover have "canonical_dumps (JObj (receipt_payload r)) \<noteq> canonical_dumps (JObj (receipt_payload q))"
    using canonical_dumps_inj [OF assms(3,4)] sort_payload_inj assms(5) by blast
  ultimately show ?thesis by (auto simp: receipt_sha256_def canonical_sha256_def)
qed

lemma sample_receipts_ok:
  "receipt_ok sample_receipt" "receipt_ok (sample_receipt\<lparr>rc_profile_id := ''p-2''\<rparr>)"
proof -
  have "hex_digest (replicate 64 (CHR ''0''))" by code_simp
  moreover have "all_name_chars ''p-1''" "all_name_chars ''p-2''" by code_simp+
  moreover have "bindings_ok [local_binding ''m'']" by code_simp
  moreover have "uses Claude [local_binding ''m''] = False" "uses Gemini [local_binding ''m''] = False"
    by (simp_all add: uses_def local_binding_def)
  ultimately show "receipt_ok sample_receipt" "receipt_ok (sample_receipt\<lparr>rc_profile_id := ''p-2''\<rparr>)"
    by (simp_all add: receipt_ok_def sample_receipt_def CLAUDE_SEALING_MODE_def)
qed

theorem receipt_tamper_evident_witness:
  "canonical_dumps (JObj (receipt_payload sample_receipt))
     \<noteq> canonical_dumps (JObj (receipt_payload (sample_receipt\<lparr>rc_profile_id := ''p-2''\<rparr>)))"
proof -
  have ok: "json_ok (JObj (receipt_payload (sample_receipt\<lparr>rc_profile_id := i\<rparr>)))" for i
    by (simp add: receipt_payload_def sample_receipt_def gemini_entry_def local_binding_def
        ModelBinding_to_mapping_def int_max_str_digits_def show_nat.simps)
  have j: "json_ok (JObj (receipt_payload sample_receipt))"
    using ok [of "''p-1''"] by (simp add: sample_receipt_def)
  have ne: "sample_receipt \<noteq> sample_receipt\<lparr>rc_profile_id := ''p-2''\<rparr>" by (simp add: sample_receipt_def)
  show ?thesis
    using receipt_tamper_evident [OF receipts.from_to [OF sample_receipts_ok(1), of zero_digest_ext,
          unfolded Receipt_to_mapping_def] receipts.from_to [OF sample_receipts_ok(2), of zero_digest_ext,
          unfolded Receipt_to_mapping_def] j ok ne]
    by blast
qed

text \<open>A profile that binds no Gemini model is hashed as if the Gemini contract did not exist: its
  context hash is the Claude contract's alone, and its mapping has exactly the four original keys.\<close>

theorem gemini_free_hash:
  assumes "profile_ok p" and "\<not> uses Gemini (ep_models p)"
  shows "context_profile_sha256 ext p = canonical_sha256 ext (ClaudeContext_to_mapping frozen_claude) \<and>
    (\<exists>d. Profile_to_mapping p = JObj d \<and> keys d = profile_fields)"
  using assms by (auto simp: profile_ok_def context_profile_sha256_def claude_sha256_def
      Profile_to_mapping_def gemini_entry_def profile_fields_def keys_simps split: option.splits)

lemma default_profile_ok: "profile_ok DEFAULT_EXECUTION_PROFILE"
  by code_simp

theorem gemini_free_hash_witness:
  "context_profile_sha256 documented_ext DEFAULT_EXECUTION_PROFILE
     = canonical_sha256 documented_ext (ClaudeContext_to_mapping frozen_claude)"
proof -
  have "\<not> uses Gemini (ep_models DEFAULT_EXECUTION_PROFILE)" by code_simp
  with gemini_free_hash [OF default_profile_ok] show ?thesis by blast
qed

end
