(* ===== verification/Config.thy ===== *)
theory Config
  imports Profile
begin

text \<open>
  src/measure_twice/config.py: the validated run configuration, its defaults and the resolver that
  picks the file to read (explicit path, environment variable, working directory, defaults).  The
  file system is a function from paths to what reading them gives; the time between the existence
  check and the read is not modelled.
\<close>

section \<open>Validators\<close>

datatype config_error =
    NamesNotAList string
  | NoNames string
  | BadName string nat
  | UnsafeName string nat
  | NotIntAtLeast string int
  | NotPositiveNumber string
  | BadBaseUrl
  | ProfileNotValidated
  | ProfileError profile_error
  | BadConfigSource
  | UnknownConfigKeys "string list"
  | ConfigFileNotFound string
  | CouldNotReadConfig string
  | ConfigNotAnObject string

type_synonym 'a cres = "(config_error, 'a) res"

fun check_names_from :: "externals \<Rightarrow> nat \<Rightarrow> json list \<Rightarrow> string \<Rightarrow> string list cres" where
  "check_names_from ext i [] label = Inr []"
| "check_names_from ext i (v # vs) label = (case v of
     JStr s \<Rightarrow>
       (if s = [] then Inl (BadName label i)
        else if \<not> sb_safe_name ext s then Inl (UnsafeName label i)
        else bindE (check_names_from ext (Suc i) vs label) (\<lambda>ss. Inr (s # ss)))
   | _ \<Rightarrow> Inl (BadName label i))"

definition validate_name_list :: "externals \<Rightarrow> json \<Rightarrow> string \<Rightarrow> string list cres" where
  "validate_name_list ext v label = (case v of
     JList vs \<Rightarrow> if vs = [] then Inl (NoNames label) else check_names_from ext 0 vs label
   | _ \<Rightarrow> Inl (NamesNotAList label))"

definition validate_config_int :: "json \<Rightarrow> string \<Rightarrow> int \<Rightarrow> int cres" where
  "validate_config_int v label minimum = (case v of
     JInt n \<Rightarrow> if n < minimum then Inl (NotIntAtLeast label minimum) else Inr n
   | _ \<Rightarrow> Inl (NotIntAtLeast label minimum))"

text \<open>The number stays what it was, an integer or a float; \<open>value <= 0\<close> is false of a NaN.\<close>

definition validate_positive_number :: "json \<Rightarrow> string \<Rightarrow> json cres" where
  "validate_positive_number v label = (case v of
     JInt n \<Rightarrow> if n \<le> 0 then Inl (NotPositiveNumber label) else Inr v
   | JFloat f \<Rightarrow> if flt_le_rat f 0 then Inl (NotPositiveNumber label) else Inr v
   | _ \<Rightarrow> Inl (NotPositiveNumber label))"

fun has_dotdot :: "string \<Rightarrow> bool" where
  "has_dotdot (a # b # s) = ((a = CHR ''.'' \<and> b = CHR ''.'') \<or> has_dotdot (b # s))"
| "has_dotdot _ = False"

definition validate_base_url :: "externals \<Rightarrow> json \<Rightarrow> string cres" where
  "validate_base_url ext v = (case v of
     JStr s \<Rightarrow> if \<not> sb_base_url ext s \<or> has_dotdot s then Inl BadBaseUrl else Inr s
   | _ \<Rightarrow> Inl BadBaseUrl)"

section \<open>The configuration\<close>

record run_config =
  cf_roster :: "string list"
  cf_local_base_url :: string
  cf_local_max_tokens :: int
  cf_local_timeout :: json
  cf_claude_pool :: int
  cf_samples :: int
  cf_judges :: "string list"
  cf_max_calls :: int
  cf_profile :: execution_profile
  cf_source :: string

text \<open>\<open>None\<close> as the profile stands for a value that is no validated profile.\<close>

definition RunConfig_init ::
    "externals \<Rightarrow> json \<Rightarrow> json \<Rightarrow> json \<Rightarrow> json \<Rightarrow> json \<Rightarrow> json \<Rightarrow> json \<Rightarrow> json
      \<Rightarrow> execution_profile option \<Rightarrow> string \<Rightarrow> run_config cres" where
  "RunConfig_init ext roster base_url max_tokens timeout pool samples judges max_calls profile source =
     bindE (validate_name_list ext roster ''roster'') (\<lambda>ro.
     bindE (validate_base_url ext base_url) (\<lambda>url.
     bindE (validate_config_int max_tokens ''local_max_tokens'' (sb_min_max_tokens ext)) (\<lambda>mt.
     bindE (validate_positive_number timeout ''local_timeout_s'') (\<lambda>ti.
     bindE (validate_config_int pool ''claude_pool'' 1) (\<lambda>po.
     bindE (validate_config_int samples ''samples_per_cell'' 1) (\<lambda>sa.
     bindE (validate_name_list ext judges ''judges'') (\<lambda>ju.
     bindE (validate_config_int max_calls ''max_calls'' 1) (\<lambda>mc.
     case profile of
       None \<Rightarrow> Inl ProfileNotValidated
     | Some p \<Rightarrow>
         bindE (map_errE ProfileError (bindings_for p ro)) (\<lambda>_.
         bindE (map_errE ProfileError (bindings_for p ju)) (\<lambda>_.
         bindE (checkE (source \<noteq> []) BadConfigSource) (\<lambda>_.
           Inr \<lparr>cf_roster = ro, cf_local_base_url = url, cf_local_max_tokens = mt,
                cf_local_timeout = ti, cf_claude_pool = po, cf_samples = sa, cf_judges = ju,
                cf_max_calls = mc, cf_profile = p, cf_source = source\<rparr>)))))))))))"

definition ALLOWED_CONFIG_FIELDS :: "string list" where
  "ALLOWED_CONFIG_FIELDS = [''roster'', ''local_base_url'', ''local_max_tokens'', ''local_timeout_s'',
     ''claude_pool'', ''samples_per_cell'', ''judges'', ''max_calls'', ''execution_profile'']"

definition DEFAULT_ROSTER :: "string list" where
  "DEFAULT_ROSTER = [''general-35b'', ''coder-30b'', ''haiku'', ''sonnet'', ''opus'']"

definition config_defaults :: "(string \<times> json) list" where
  "config_defaults = [
     (''roster'', strs_json DEFAULT_ROSTER),
     (''local_base_url'', JStr ''http://localhost:8080/v1''),
     (''local_max_tokens'', JInt 2000), (''local_timeout_s'', JFloat (Fin False 12 1)),
     (''claude_pool'', JInt 2), (''samples_per_cell'', JInt 1),
     (''judges'', strs_json [''sonnet'']), (''max_calls'', JInt 500)]"

text \<open>The keyword value of a field, or the field's default.\<close>

definition config_value :: "(string \<times> json) list \<Rightarrow> string \<Rightarrow> json" where
  "config_value d k = fld_default d k (fld config_defaults k)"

definition RunConfig_call ::
    "externals \<Rightarrow> (string \<times> json) list \<Rightarrow> execution_profile option \<Rightarrow> string \<Rightarrow> run_config cres" where
  "RunConfig_call ext d profile source =
     RunConfig_init ext (config_value d ''roster'') (config_value d ''local_base_url'')
       (config_value d ''local_max_tokens'') (config_value d ''local_timeout_s'')
       (config_value d ''claude_pool'') (config_value d ''samples_per_cell'')
       (config_value d ''judges'') (config_value d ''max_calls'') profile source"

text \<open>
  The profile field: absent gives the default, a JSON null stays \<open>None\<close> and fails the type check of
  the constructor, anything else must parse.
\<close>

definition profile_value :: "(string \<times> json) list \<Rightarrow> execution_profile option cres" where
  "profile_value d = (case map_of d ''execution_profile'' of
     None \<Rightarrow> Inr (Some DEFAULT_EXECUTION_PROFILE)
   | Some JNull \<Rightarrow> Inr None
   | Some v \<Rightarrow> bindE (map_errE ProfileError (Profile_from_mapping v)) (\<lambda>p. Inr (Some p)))"

definition RunConfig_from_mapping ::
    "externals \<Rightarrow> (string \<times> json) list \<Rightarrow> string \<Rightarrow> run_config cres" where
  "RunConfig_from_mapping ext d source =
     (if unknown_keys d ALLOWED_CONFIG_FIELDS \<noteq> []
      then Inl (UnknownConfigKeys (unknown_keys d ALLOWED_CONFIG_FIELDS))
      else bindE (profile_value d) (\<lambda>p. RunConfig_call ext d p source))"

definition default_config :: "externals \<Rightarrow> run_config cres" where
  "default_config ext = RunConfig_call ext [] (Some DEFAULT_EXECUTION_PROFILE) ''defaults''"

section \<open>The resolver\<close>

datatype config_exn =
    ConfigError config_error
  | ConfigValueError       \<comment> \<open>an integer literal of more than 4300 digits\<close>
  | ConfigRecursionError   \<comment> \<open>nesting beyond the recursion limit\<close>

record config_env =
  ce_env_var :: "string option"        \<comment> \<open>\<open>$MEASURE_TWICE_CONFIG\<close>\<close>
  ce_cwd_path :: string                \<comment> \<open>\<open><cwd>/measure-twice.json\<close>\<close>
  ce_read :: "string \<Rightarrow> file_read"
  ce_limit :: nat

definition is_file :: "config_env \<Rightarrow> string \<Rightarrow> bool" where
  "is_file env p \<longleftrightarrow> ce_read env p \<noteq> NoFile"

text \<open>Candidate path, source label, and whether the file must exist.\<close>

definition config_candidate :: "config_env \<Rightarrow> string option \<Rightarrow> (string \<times> string \<times> bool) option" where
  "config_candidate env explicit = (case explicit of
     Some p \<Rightarrow> Some (p, ''explicit:'' @ p, True)
   | None \<Rightarrow>
       (case ce_env_var env of
          Some p \<Rightarrow> Some (p, ''env:MEASURE_TWICE_CONFIG'', True)
        | None \<Rightarrow>
            (if is_file env (ce_cwd_path env)
             then Some (ce_cwd_path env, ''cwd:measure-twice.json'', False) else None)))"

definition read_config ::
    "externals \<Rightarrow> config_env \<Rightarrow> string \<Rightarrow> string \<Rightarrow> (config_exn, run_config) res" where
  "read_config ext env path source = (case ce_read env path of
     FileText text \<Rightarrow>
       (case loads (ce_limit env) text of
          Inl JSONDecodeError \<Rightarrow> Inl (ConfigError (CouldNotReadConfig path))
        | Inl IntDigitsError \<Rightarrow> Inl ConfigValueError
        | Inl JRecursionError \<Rightarrow> Inl ConfigRecursionError
        | Inr (JObj d) \<Rightarrow> map_errE ConfigError (RunConfig_from_mapping ext d source)
        | Inr _ \<Rightarrow> Inl (ConfigError (ConfigNotAnObject path)))
   | _ \<Rightarrow> Inl (ConfigError (CouldNotReadConfig path)))"

definition load_config ::
    "externals \<Rightarrow> config_env \<Rightarrow> string option \<Rightarrow> (config_exn, run_config) res" where
  "load_config ext env explicit = (case config_candidate env explicit of
     None \<Rightarrow> map_errE ConfigError (default_config ext)
   | Some (path, source, require_exists) \<Rightarrow>
       (if require_exists \<and> \<not> is_file env path then Inl (ConfigError (ConfigFileNotFound path))
        else read_config ext env path source))"

section \<open>What a loaded configuration satisfies\<close>

definition names_ok :: "externals \<Rightarrow> string list \<Rightarrow> bool" where
  "names_ok ext ns \<longleftrightarrow> ns \<noteq> [] \<and> list_all (\<lambda>s. s \<noteq> [] \<and> sb_safe_name ext s) ns"

definition timeout_ok :: "json \<Rightarrow> bool" where
  "timeout_ok v = (case v of JInt n \<Rightarrow> 0 < n | JFloat f \<Rightarrow> \<not> flt_le_rat f 0 | _ \<Rightarrow> False)"

definition config_ok :: "externals \<Rightarrow> run_config \<Rightarrow> bool" where
  "config_ok ext c \<longleftrightarrow> names_ok ext (cf_roster c) \<and> names_ok ext (cf_judges c)
     \<and> sb_base_url ext (cf_local_base_url c) \<and> \<not> has_dotdot (cf_local_base_url c)
     \<and> sb_min_max_tokens ext \<le> cf_local_max_tokens c \<and> timeout_ok (cf_local_timeout c)
     \<and> 1 \<le> cf_claude_pool c \<and> 1 \<le> cf_samples c \<and> 1 \<le> cf_max_calls c \<and> profile_ok (cf_profile c)
     \<and> set (cf_roster c @ cf_judges c) \<subseteq> set (profile_aliases (cf_profile c)) \<and> cf_source c \<noteq> []"

lemma check_names_from_Inr:
  "check_names_from ext i vs l = Inr ss \<longleftrightarrow> vs = map JStr ss \<and> list_all (\<lambda>s. s \<noteq> [] \<and> sb_safe_name ext s) ss"
proof (induction vs arbitrary: i ss)
  case (Cons v vs)
  then show ?case by (cases v; cases ss) (auto simp: bindE_Inr_iff)
qed auto

lemma validate_name_list_Inr:
  "validate_name_list ext v l = Inr ss \<longleftrightarrow> v = strs_json ss \<and> names_ok ext ss"
  by (cases v) (auto simp: validate_name_list_def check_names_from_Inr strs_json_def names_ok_def)

lemma validate_config_int_Inr: "validate_config_int v l m = Inr n \<longleftrightarrow> v = JInt n \<and> m \<le> n"
  by (cases v) (auto simp: validate_config_int_def)

lemma validate_positive_number_Inr: "validate_positive_number v l = Inr w \<longleftrightarrow> w = v \<and> timeout_ok v"
  by (cases v) (auto simp: validate_positive_number_def timeout_ok_def)

lemma validate_base_url_Inr:
  "validate_base_url ext v = Inr s \<longleftrightarrow> v = JStr s \<and> sb_base_url ext s \<and> \<not> has_dotdot s"
  by (cases v) (auto simp: validate_base_url_def)

lemma bindings_for_Inr:
  "bindings_for p as = Inr bs \<Longrightarrow> set as \<subseteq> set (profile_aliases p) \<and> map mb_alias bs = as \<and> set bs \<subseteq> set (ep_models p)"
proof (induction as arbitrary: bs)
  case (Cons a as)
  then show ?case
    by (auto simp: bindings_for_def bindE_Inr_iff profile_aliases_def dest!: binding_for_Inr)
qed (simp add: bindings_for_def)

lemma bindings_for_total: "set as \<subseteq> set (profile_aliases p) \<longleftrightarrow> (\<exists>bs. bindings_for p as = Inr bs)"
proof (induction as)
  case (Cons a as)
  have "a \<in> set (profile_aliases p) \<longleftrightarrow> (\<exists>b. binding_for p a = Inr b)"
    using binding_for_Inl [of p a] by (cases "binding_for p a") auto
  with Cons show ?case by (auto simp: bindings_for_def bindE_Inr_iff)
qed (simp add: bindings_for_def)

lemma RunConfig_init_Inr:
  "RunConfig_init ext ro url mt ti po sa ju mc (Some p) src = Inr c \<longleftrightarrow>
     ro = strs_json (cf_roster c) \<and> url = JStr (cf_local_base_url c) \<and> mt = JInt (cf_local_max_tokens c)
     \<and> ti = cf_local_timeout c \<and> po = JInt (cf_claude_pool c) \<and> sa = JInt (cf_samples c)
     \<and> ju = strs_json (cf_judges c) \<and> mc = JInt (cf_max_calls c) \<and> p = cf_profile c \<and> src = cf_source c
     \<and> names_ok ext (cf_roster c) \<and> names_ok ext (cf_judges c)
     \<and> sb_base_url ext (cf_local_base_url c) \<and> \<not> has_dotdot (cf_local_base_url c)
     \<and> sb_min_max_tokens ext \<le> cf_local_max_tokens c \<and> timeout_ok (cf_local_timeout c)
     \<and> 1 \<le> cf_claude_pool c \<and> 1 \<le> cf_samples c \<and> 1 \<le> cf_max_calls c
     \<and> set (cf_roster c @ cf_judges c) \<subseteq> set (profile_aliases p) \<and> src \<noteq> []"
  unfolding set_append Un_subset_iff bindings_for_total
  by (cases c) (auto simp: RunConfig_init_def bindE_Inr_iff validate_name_list_Inr validate_base_url_Inr
      validate_config_int_Inr validate_positive_number_Inr checkE_Inr_iff map_errE_Inr_iff)

lemma RunConfig_call_ok:
  "RunConfig_call ext d (Some p) src = Inr c \<Longrightarrow> profile_ok p \<Longrightarrow> config_ok ext c \<and> cf_source c = src"
  by (auto simp: RunConfig_call_def RunConfig_init_Inr config_ok_def)

lemma RunConfig_call_None: "RunConfig_call ext d None src \<noteq> Inr c"
  by (simp add: RunConfig_call_def RunConfig_init_def bindE_Inr_iff)

lemma profile_value_ok:
  assumes "profile_value d = Inr (Some p)" shows "profile_ok p"
proof (cases "map_of d ''execution_profile''")
  case None
  with assms show ?thesis by (simp add: profile_value_def default_profile_ok)
next
  case (Some v)
  with assms show ?thesis
    by (cases v) (auto simp: profile_value_def bindE_Inr_iff map_errE_Inr_iff dest: Profile_from_mapping_ok)
qed

lemma RunConfig_from_mapping_ok:
  assumes "RunConfig_from_mapping ext d src = Inr c" shows "config_ok ext c \<and> cf_source c = src"
proof -
  from assms obtain p where p: "profile_value d = Inr p" and c: "RunConfig_call ext d p src = Inr c"
    by (auto simp: RunConfig_from_mapping_def bindE_Inr_iff split: if_splits)
  then show ?thesis
    by (cases p) (auto simp: RunConfig_call_None dest: profile_value_ok RunConfig_call_ok)
qed

lemma read_config_ok: "read_config ext env path src = Inr c \<Longrightarrow> config_ok ext c \<and> cf_source c = src"
  by (auto simp: read_config_def map_errE_Inr_iff dest: RunConfig_from_mapping_ok
      split: file_read.splits sum.splits json_exn.splits json.splits)

lemma read_config_cong:
  assumes "ce_read env' p = ce_read env p" and "ce_limit env' = ce_limit env"
  shows "read_config ext env' p src = read_config ext env p src"
  unfolding read_config_def assms ..

section \<open>Properties\<close>

definition sample_config_text :: string where
  "sample_config_text = ''{\"roster\": [\"haiku\"], \"max_calls\": 3}''"

definition sample_env :: config_env where
  "sample_env = \<lparr>ce_env_var = Some ''c.json'', ce_cwd_path = ''/w/measure-twice.json'',
     ce_read = (\<lambda>p. if p = ''c.json'' then FileText sample_config_text else NoFile), ce_limit = 9\<rparr>"

definition sample_config :: run_config where
  "sample_config = \<lparr>cf_roster = [''haiku''], cf_local_base_url = ''http://localhost:8080/v1'',
     cf_local_max_tokens = 2000, cf_local_timeout = JFloat (Fin False 12 1), cf_claude_pool = 2,
     cf_samples = 1, cf_judges = [''sonnet''], cf_max_calls = 3, cf_profile = DEFAULT_EXECUTION_PROFILE,
     cf_source = ''env:MEASURE_TWICE_CONFIG''\<rparr>"

lemma sample_config_loaded: "load_config documented_ext sample_env None = Inr sample_config"
  by code_simp

text \<open>A configuration that loads is complete and valid: safe non-empty names, counts and token floor
  respected, a safe URL, every roster model and judge bound by a valid execution profile, and its
  recorded source is the label of the tier that supplied it, which the file itself cannot set.\<close>

theorem load_config_sound:
  assumes "load_config ext env explicit = Inr c"
  shows "config_ok ext c \<and>
    cf_source c = (case config_candidate env explicit of None \<Rightarrow> ''defaults'' | Some (p, l, r) \<Rightarrow> l)"
proof (cases "config_candidate env explicit")
  case None
  then have "default_config ext = Inr c" using assms by (simp add: load_config_def map_errE_Inr_iff)
  then show ?thesis
    using None RunConfig_call_ok [OF _ default_profile_ok] by (simp add: default_config_def)
next
  case (Some x)
  with assms show ?thesis
    by (auto simp: load_config_def dest: read_config_ok split: prod.splits if_splits)
qed

theorem load_config_sound_witness:
  "config_ok documented_ext sample_config \<and> cf_source sample_config = ''env:MEASURE_TWICE_CONFIG''"
  using load_config_sound [OF sample_config_loaded]
  by (simp add: config_candidate_def sample_env_def)

text \<open>A named configuration is never silently replaced: with an explicit path, or without one and with
  the environment variable set (to anything, the empty text included), a missing file is an error and
  the outcome depends on that file alone; the working directory and the defaults are used only when
  neither names a file.\<close>

theorem named_config_wins:
  "(ce_read env p = NoFile \<longrightarrow>
      load_config ext env (Some p) = Inl (ConfigError (ConfigFileNotFound p)) \<and>
      (ce_env_var env = Some p \<longrightarrow> load_config ext env None = Inl (ConfigError (ConfigFileNotFound p)))) \<and>
   (ce_read env' p = ce_read env p \<and> ce_limit env' = ce_limit env \<longrightarrow>
      load_config ext env' (Some p) = load_config ext env (Some p) \<and>
      (ce_env_var env' = Some p \<and> ce_env_var env = Some p \<longrightarrow>
         load_config ext env' None = load_config ext env None)) \<and>
   (ce_env_var env = None \<and> ce_read env (ce_cwd_path env) = NoFile \<longrightarrow>
      load_config ext env None = map_errE ConfigError (default_config ext))"
  using read_config_cong [of env' p env ext]
  by (simp add: load_config_def config_candidate_def is_file_def)

theorem named_config_wins_witness:
  "load_config documented_ext (sample_env\<lparr>ce_env_var := Some []\<rparr>) None
     = Inl (ConfigError (ConfigFileNotFound []))"
  using named_config_wins [of "sample_env\<lparr>ce_env_var := Some []\<rparr>" "[]" documented_ext sample_env]
  by (simp add: sample_env_def)

text \<open>Reading a selected file can leave the loader as something other than a \<open>ConfigError\<close> in exactly two
  ways: nesting beyond the recursion limit, and an integer literal of more than 4300 digits.\<close>

theorem load_config_escapes:
  "(load_config ext env (Some p) = Inl ConfigRecursionError \<longleftrightarrow>
      (\<exists>text. ce_read env p = FileText text \<and> loads (ce_limit env) text = Inl JRecursionError)) \<and>
   (load_config ext env (Some p) = Inl ConfigValueError \<longleftrightarrow>
      (\<exists>text. ce_read env p = FileText text \<and> loads (ce_limit env) text = Inl IntDigitsError)) \<and>
   load_config ext (sample_env\<lparr>ce_read := (\<lambda>_. FileText (replicate 10 (CHR ''['')))\<rparr>) (Some p)
     = Inl ConfigRecursionError \<and>
   load_config ext (sample_env\<lparr>ce_read := (\<lambda>_. FileText (big_int_object ''max_calls''))\<rparr>) (Some p)
     = Inl ConfigValueError"
proof -
  have "loads 9 (replicate 10 (CHR ''['')) = Inl JRecursionError" by code_simp
  moreover have "loads 9 (big_int_object ''max_calls'') = Inl IntDigitsError"
    using loads_big_int [of 8 "''max_calls''"] by simp
  ultimately show ?thesis
    by (auto simp: load_config_def config_candidate_def is_file_def read_config_def sample_env_def
        map_errE_Inl_iff split: file_read.splits sum.splits json_exn.splits json.splits)
qed

text \<open>The check for a positive timeout lets a NaN through: \<open>value <= 0\<close> is false for it.\<close>

lemma nan_timeout_accepted:
  "\<exists>c. load_config documented_ext (sample_env\<lparr>ce_read := (\<lambda>_. FileText ''{\"local_timeout_s\": NaN}'')\<rparr>) None
     = Inr c \<and> cf_local_timeout c = JFloat NotANumber"
proof -
  have "load_config documented_ext (sample_env\<lparr>ce_read := (\<lambda>_. FileText ''{\"local_timeout_s\": NaN}'')\<rparr>) None
     = Inr (sample_config\<lparr>cf_roster := DEFAULT_ROSTER, cf_max_calls := 500,
         cf_local_timeout := JFloat NotANumber\<rparr>)"
    by code_simp
  then show ?thesis by simp
qed

end
