(* ===== verification/Adapters.thy ===== *)
theory Adapters
  imports Config
begin

text \<open>
  src/measure_twice/adapters: the outcome of one model call (base.py), the local endpoint
  (local.py), the Gemini endpoint (gemini.py), and the Claude command line with its call budget and
  bounded batch (claude_cli.py).  The network and the process are arguments: a transport or a runner
  is a function from the request to what comes back, or to the class of exception raised.  The
  elapsed time of a call is an argument too.
\<close>

section \<open>The outcome of one call\<close>

text \<open>
  The no-response sentinel wraps its tag in code points above 255, so no text of the model equals
  it: a response is the sentinel or a text.
\<close>

datatype response = NO_RESPONSE | Text string

record model_call_result =
  mr_response :: response
  mr_resolved :: string
  mr_elapsed :: flt
  mr_reason :: "reason_class option"

definition no_response :: "model_call_result \<Rightarrow> bool" where
  "no_response r \<longleftrightarrow> mr_response r = NO_RESPONSE"

definition is_error :: "model_call_result \<Rightarrow> bool" where
  "is_error r \<longleftrightarrow> mr_reason r \<noteq> None"

definition call_ok :: "model_call_result \<Rightarrow> bool" where
  "call_ok r \<longleftrightarrow> mr_reason r = None \<and> \<not> no_response r"

datatype adapter_error =
    EmptySuccess
  | UnboundAlias string
  | WrongProvider string
  | BadRequestContractArg
  | UnsafeModelToken string
  | BudgetNotPositive int

definition success :: "response \<Rightarrow> string \<Rightarrow> flt \<Rightarrow> (adapter_error, model_call_result) res" where
  "success resp resolved elapsed =
     (case resp of
        NO_RESPONSE \<Rightarrow> Inl EmptySuccess
      | Text s \<Rightarrow> if strip s = [] then Inl EmptySuccess
          else Inr \<lparr>mr_response = resp, mr_resolved = resolved, mr_elapsed = elapsed, mr_reason = None\<rparr>)"

definition no_response_result :: "string \<Rightarrow> flt \<Rightarrow> model_call_result" where
  "no_response_result resolved elapsed =
     \<lparr>mr_response = NO_RESPONSE, mr_resolved = resolved, mr_elapsed = elapsed, mr_reason = None\<rparr>"

definition error :: "reason_class \<Rightarrow> string \<Rightarrow> flt \<Rightarrow> model_call_result" where
  "error rc resolved elapsed =
     \<lparr>mr_response = Text [], mr_resolved = resolved, mr_elapsed = elapsed, mr_reason = Some rc\<rparr>"

text \<open>A text that is not blank is the identity; anything else is unresolved.\<close>

definition identity_of :: "json \<Rightarrow> string" where
  "identity_of v = (case v of
     JStr s \<Rightarrow> if strip s = [] then UNRESOLVED_MODEL_ID else s
   | _ \<Rightarrow> UNRESOLVED_MODEL_ID)"

definition resolved_model_of :: "(string \<times> json) list \<Rightarrow> string" where
  "resolved_model_of payload = identity_of (fld payload ''model'')"

section \<open>The local endpoint\<close>

datatype transport_outcome =
    Body string
  | TransportTimeout
  | TransportUrlError bool   \<comment> \<open>does it wrap a timeout?\<close>
  | TransportOSError
  | TransportOther

text \<open>\<open>RecursionError\<close> of the body's JSON is not among the exceptions \<open>local_chat\<close> catches.\<close>

datatype call_exn = AdapterError adapter_error | CallRecursionError

definition classify_transport_error :: "transport_outcome \<Rightarrow> reason_class" where
  "classify_transport_error t = (case t of
     TransportTimeout \<Rightarrow> RC_TIMEOUT
   | TransportUrlError wraps \<Rightarrow> if wraps then RC_TIMEOUT else RC_UNREACHABLE
   | _ \<Rightarrow> RC_OS_ERROR)"

definition first_choice :: "(string \<times> json) list \<Rightarrow> (string \<times> json) list option" where
  "first_choice payload = (case fld payload ''choices'' of
     JList (JObj c # _) \<Rightarrow> Some c
   | _ \<Rightarrow> None)"

definition message_of :: "(string \<times> json) list \<Rightarrow> (string \<times> json) list option" where
  "message_of payload = (case first_choice payload of
     None \<Rightarrow> None
   | Some c \<Rightarrow> (case fld c ''message'' of JObj m \<Rightarrow> Some m | _ \<Rightarrow> None))"

definition finish_reason_of :: "(string \<times> json) list \<Rightarrow> string option" where
  "finish_reason_of payload = (case first_choice payload of
     None \<Rightarrow> None
   | Some c \<Rightarrow> (case fld c ''finish_reason'' of JStr s \<Rightarrow> Some s | _ \<Rightarrow> None))"

definition local_body :: "string \<Rightarrow> string \<Rightarrow> int \<Rightarrow> json" where
  "local_body model prompt max_tokens = JObj [
     (''model'', JStr model),
     (''messages'', JList [JObj [(''role'', JStr ''user''), (''content'', JStr prompt)]]),
     (''temperature'', JInt 0), (''max_tokens'', JInt max_tokens)]"

definition local_url :: "string \<Rightarrow> string" where
  "local_url base_url = base_url @ ''/chat/completions''"

text \<open>The part of \<open>local_chat\<close> after the response body has arrived.\<close>

definition classify_local :: "nat \<Rightarrow> flt \<Rightarrow> string \<Rightarrow> (call_exn, model_call_result) res" where
  "classify_local limit elapsed raw_body = (case loads limit raw_body of
     Inl JRecursionError \<Rightarrow> Inl CallRecursionError
   | Inl _ \<Rightarrow> Inr (error RC_NON_JSON_BODY UNRESOLVED_MODEL_ID elapsed)
   | Inr (JObj payload) \<Rightarrow>
       (let resolved = resolved_model_of payload in
        case message_of payload of
          None \<Rightarrow> Inr (error RC_BAD_ENVELOPE resolved elapsed)
        | Some msg \<Rightarrow>
            (let content = the_str (fld msg ''content'') in
             if strip content = [] then Inr (no_response_result resolved elapsed)
             else if finish_reason_of payload = Some ''length'' then Inr (error RC_TRUNCATED resolved elapsed)
             else map_errE AdapterError (success (Text content) resolved elapsed)))
   | Inr _ \<Rightarrow> Inr (error RC_BAD_ENVELOPE UNRESOLVED_MODEL_ID elapsed))"

definition local_chat ::
    "nat \<Rightarrow> run_config \<Rightarrow> (string \<Rightarrow> string \<Rightarrow> transport_outcome) \<Rightarrow> flt \<Rightarrow> string \<Rightarrow> string
      \<Rightarrow> (call_exn, model_call_result) res" where
  "local_chat limit config transport elapsed model prompt =
     (case transport (local_url (cf_local_base_url config))
             (dumps (local_body model prompt (cf_local_max_tokens config))) of
        Body raw \<Rightarrow> classify_local limit elapsed raw
      | TransportOther \<Rightarrow> Inr (error RC_NON_JSON_BODY UNRESOLVED_MODEL_ID elapsed)
      | t \<Rightarrow> Inr (error (classify_transport_error t) UNRESOLVED_MODEL_ID elapsed))"

section \<open>The Gemini endpoint\<close>

datatype credential_error =
    MissingOrBlank
  | InvalidCharacters
  | SetButBlank string
  | WinnerInvalid string
  | NoKeyFound

definition validate_gemini_credential :: "string \<Rightarrow> (credential_error, string) res" where
  "validate_gemini_credential v =
     (if strip v = [] then Inl MissingOrBlank
      else if list_ex (\<lambda>c. \<not> in_rng 33 126 c) v then Inl InvalidCharacters
      else Inr v)"

definition credential_env_vars :: "string list" where
  "credential_env_vars = [''GOOGLE_API_KEY'', ''GEMINI_API_KEY'']"

fun resolve_credential :: "(string \<Rightarrow> string option) \<Rightarrow> string list \<Rightarrow> (credential_error, string) res" where
  "resolve_credential env [] = Inl NoKeyFound"
| "resolve_credential env (n # ns) = (case env n of
     None \<Rightarrow> resolve_credential env ns
   | Some v \<Rightarrow>
       (if strip v = [] then Inl (SetButBlank n)
        else map_errE (\<lambda>_. WinnerInvalid n) (validate_gemini_credential v)))"

definition resolve_gemini_credential :: "(string \<Rightarrow> string option) \<Rightarrow> (credential_error, string) res" where
  "resolve_gemini_credential env = resolve_credential env credential_env_vars"

definition endpoint :: "string \<Rightarrow> (adapter_error, string) res" where
  "endpoint requested =
     (if model_token requested
      then Inr (''https://generativelanguage.googleapis.com/v1beta/models/'' @ requested @ '':generateContent'')
      else Inl (UnsafeModelToken requested))"

definition build_request_body :: "string \<Rightarrow> gemini_context \<Rightarrow> string" where
  "build_request_body prompt ctx = dumps (JObj [
     (''contents'', JList [JObj [(''role'', JStr ''user''), (''parts'', JList [JObj [(''text'', JStr prompt)]])]]),
     (''generationConfig'', JObj [
        (''maxOutputTokens'', JInt (gc_max_output_tokens ctx)),
        (''thinkingConfig'', JObj [(''thinkingLevel'', JStr (gc_thinking_level ctx))])])])"

definition gemini_resolved_model :: "(string \<times> json) list \<Rightarrow> string" where
  "gemini_resolved_model payload = identity_of (fld payload ''modelVersion'')"

definition prompt_block_reasons :: "string list" where
  "prompt_block_reasons = [''SAFETY'', ''OTHER'', ''BLOCKLIST'', ''PROHIBITED_CONTENT'', ''IMAGE_SAFETY'']"

definition block_finish_reasons :: "string list" where
  "block_finish_reasons = [''SAFETY'', ''RECITATION'', ''BLOCKLIST'', ''PROHIBITED_CONTENT'', ''SPII'',
     ''IMAGE_SAFETY'']"

definition non_text_fields :: "string list" where
  "non_text_fields = [''inlineData'', ''functionCall'', ''functionResponse'', ''fileData'',
     ''executableCode'', ''codeExecutionResult'', ''toolCall'', ''toolResponse'']"

definition block_reason :: "(string \<times> json) list \<Rightarrow> bool \<times> string option" where
  "block_reason payload = (case map_of payload ''promptFeedback'' of
     None \<Rightarrow> (True, None)
   | Some (JObj fb) \<Rightarrow>
       (case map_of fb ''blockReason'' of
          None \<Rightarrow> (True, None)
        | Some (JStr s) \<Rightarrow>
            (if s = ''BLOCK_REASON_UNSPECIFIED'' then (True, None)
             else if s \<in> set prompt_block_reasons then (True, Some s) else (False, None))
        | Some _ \<Rightarrow> (False, None))
   | Some _ \<Rightarrow> (False, None))"

fun is_bool :: "json \<Rightarrow> bool" where
  "is_bool (JBool _) = True"
| "is_bool _ = False"

text \<open>The loop over the parts; \<open>None\<close> stands for the pair \<open>(False, "")\<close>.\<close>

fun join_parts :: "json list \<Rightarrow> string option" where
  "join_parts [] = Some []"
| "join_parts (p # ps) = (case p of
     JObj d \<Rightarrow>
       (if list_ex (\<lambda>k. k \<in> set (keys d)) non_text_fields then None
        else if ''thought'' \<in> set (keys d) \<and> \<not> is_bool (fld d ''thought'') then None
        else (case fld d ''text'' of
                JStr s \<Rightarrow>
                  (case join_parts ps of
                     None \<Rightarrow> None
                   | Some rest \<Rightarrow> Some (if fld d ''thought'' = JBool True then rest else s @ rest))
              | _ \<Rightarrow> None))
   | _ \<Rightarrow> None)"

definition extract_answer :: "json \<Rightarrow> string option" where
  "extract_answer content = (case content of
     JObj c \<Rightarrow> (case fld c ''parts'' of JList ps \<Rightarrow> join_parts ps | _ \<Rightarrow> None)
   | _ \<Rightarrow> None)"

definition classify_candidate ::
    "string \<Rightarrow> flt \<Rightarrow> (string \<times> json) list \<Rightarrow> (adapter_error, model_call_result) res" where
  "classify_candidate resolved elapsed cand =
     (case fld cand ''finishReason'' of
        JStr finish \<Rightarrow>
          (if finish \<in> set block_finish_reasons then Inr (no_response_result resolved elapsed)
           else if finish \<notin> {''STOP'', ''MAX_TOKENS''} then Inr (error RC_BAD_ENVELOPE resolved elapsed)
           else (case extract_answer (fld cand ''content'') of
                   None \<Rightarrow> Inr (error RC_BAD_ENVELOPE resolved elapsed)
                 | Some answer \<Rightarrow>
                     (if strip answer = [] then Inr (no_response_result resolved elapsed)
                      else if finish = ''MAX_TOKENS'' then Inr (error RC_TRUNCATED resolved elapsed)
                      else success (Text answer) resolved elapsed)))
      | _ \<Rightarrow> Inr (error RC_BAD_ENVELOPE resolved elapsed))"

definition classify_body :: "nat \<Rightarrow> flt \<Rightarrow> string \<Rightarrow> (adapter_error, model_call_result) res" where
  "classify_body limit elapsed raw_body = (case loads limit raw_body of
     Inl JRecursionError \<Rightarrow> Inr (error RC_BAD_ENVELOPE UNRESOLVED_MODEL_ID elapsed)
   | Inl _ \<Rightarrow> Inr (error RC_NON_JSON_BODY UNRESOLVED_MODEL_ID elapsed)
   | Inr (JObj payload) \<Rightarrow>
       (let resolved = gemini_resolved_model payload in
        if ''modelVersion'' \<in> set (keys payload) \<and> \<not> is_str (fld payload ''modelVersion'')
        then Inr (error RC_BAD_ENVELOPE resolved elapsed)
        else (case block_reason payload of
                (False, _) \<Rightarrow> Inr (error RC_BAD_ENVELOPE resolved elapsed)
              | (True, Some _) \<Rightarrow> Inr (no_response_result resolved elapsed)
              | (True, None) \<Rightarrow>
                  (case fld payload ''candidates'' of
                     JList [JObj cand] \<Rightarrow> classify_candidate resolved elapsed cand
                   | _ \<Rightarrow> Inr (error RC_BAD_ENVELOPE resolved elapsed))))
   | Inr _ \<Rightarrow> Inr (error RC_BAD_ENVELOPE UNRESOLVED_MODEL_ID elapsed))"

definition gemini_generate ::
    "nat \<Rightarrow> gemini_context \<Rightarrow> string \<Rightarrow> (string \<Rightarrow> string \<Rightarrow> string \<Rightarrow> transport_outcome) \<Rightarrow> flt
      \<Rightarrow> string \<Rightarrow> string \<Rightarrow> (adapter_error, model_call_result) res" where
  "gemini_generate limit ctx api_key transport elapsed requested prompt =
     (if gc_contract ctx \<noteq> GEMINI_REQUEST_CONTRACT then Inl BadRequestContractArg
      else bindE (endpoint requested) (\<lambda>url.
        case transport url (build_request_body prompt ctx) api_key of
          Body raw \<Rightarrow> classify_body limit elapsed raw
        | TransportOther \<Rightarrow> Inr (error RC_NON_JSON_BODY UNRESOLVED_MODEL_ID elapsed)
        | t \<Rightarrow> Inr (error (classify_transport_error t) UNRESOLVED_MODEL_ID elapsed)))"

section \<open>The call budget\<close>

record call_budget =
  bu_max :: int
  bu_used :: int

definition CallBudget_init :: "int \<Rightarrow> (adapter_error, call_budget) res" where
  "CallBudget_init max_calls =
     (if max_calls < 1 then Inl (BudgetNotPositive max_calls)
      else Inr \<lparr>bu_max = max_calls, bu_used = 0\<rparr>)"

text \<open>One locked check-and-increment; \<open>None\<close> is \<open>BudgetExhaustedError\<close>.\<close>

definition consume :: "call_budget \<Rightarrow> call_budget option" where
  "consume b = (if bu_max b \<le> bu_used b then None else Some (b\<lparr>bu_used := bu_used b + 1\<rparr>))"

definition remaining :: "call_budget \<Rightarrow> int" where
  "remaining b = bu_max b - bu_used b"

definition exhausted :: "call_budget \<Rightarrow> bool" where
  "exhausted b \<longleftrightarrow> bu_max b \<le> bu_used b"

section \<open>The Claude command line\<close>

record claude_runtime =
  rt_executable :: string
  rt_context :: claude_context
  rt_env :: "(string \<times> string) list"
  rt_probe_env :: "(string \<times> string) list"
  rt_command_processor :: "string option"
  rt_version :: "string option"

datatype argv = Native "string list" | CommandLine string

record invocation =
  iv_argv :: argv
  iv_cwd :: string
  iv_env :: "(string \<times> string) list"

datatype setup_error =
    RuntimeUnresolved          \<comment> \<open>from resolving the executable\<close>
  | CwdNotAbsolute
  | ProbeFailed "string list"
  | VersionExit int
  | NoVersionText
  | HelpExit int
  | UnsupportedFlags "string list"

datatype run_outcome =
    Completed int string string   \<comment> \<open>return code, stdout, stderr\<close>
  | RunTimeout
  | RunFileNotFound
  | RunOSError
  | RunOther

definition quoted :: "string \<Rightarrow> string" where
  "quoted a = CHR 0x22 # a @ [CHR 0x22]"

definition launcher_argv :: "claude_runtime \<Rightarrow> string list \<Rightarrow> argv" where
  "launcher_argv rt args =
     (let direct = rt_executable rt # args in
      case rt_command_processor rt of
        None \<Rightarrow> Native direct
      | Some cmd \<Rightarrow> CommandLine (quoted cmd @ '' /d /s /c '' @ quoted (join '' '' (map quoted direct))))"

definition is_absolute :: "string \<Rightarrow> bool" where
  "is_absolute p \<longleftrightarrow> p \<noteq> [] \<and> hd p = CHR ''/''"

definition CLAUDE_MODEL_PLACEHOLDER :: string where
  "CLAUDE_MODEL_PLACEHOLDER = ''{requested_model}''"

definition build_claude_invocation ::
    "claude_runtime \<Rightarrow> string \<Rightarrow> string \<Rightarrow> (setup_error, invocation) res" where
  "build_claude_invocation rt requested cwd =
     (if \<not> is_absolute cwd then Inl CwdNotAbsolute
      else Inr \<lparr>iv_argv = launcher_argv rt (map (\<lambda>a. if a = CLAUDE_MODEL_PLACEHOLDER then requested else a)
                  (cc_argv (rt_context rt))),
                iv_cwd = cwd, iv_env = rt_env rt\<rparr>)"

definition probe_invocation :: "claude_runtime \<Rightarrow> string list \<Rightarrow> string \<Rightarrow> invocation" where
  "probe_invocation rt args cwd =
     \<lparr>iv_argv = launcher_argv rt args, iv_cwd = cwd, iv_env = rt_probe_env rt\<rparr>"

text \<open>A word character of the pattern language, and the characters that may follow a flag.\<close>

definition word_char :: "char \<Rightarrow> bool" where
  "word_char c \<longleftrightarrow> isalnum c \<or> c = CHR ''_''"

definition flag_here :: "char option \<Rightarrow> string \<Rightarrow> string \<Rightarrow> bool" where
  "flag_here prev flag s =
     ((case prev of None \<Rightarrow> True | Some c \<Rightarrow> \<not> word_char c \<and> c \<noteq> CHR ''-'') \<and>
      (case strip_prefix flag s of
         None \<Rightarrow> False
       | Some [] \<Rightarrow> True
       | Some (c # _) \<Rightarrow> isspace c \<or> c = CHR '','' \<or> c = CHR ''='' \<or> c = CHR ''/''))"

fun flag_in :: "char option \<Rightarrow> string \<Rightarrow> string \<Rightarrow> bool" where
  "flag_in prev flag [] = flag_here prev flag []"
| "flag_in prev flag (c # cs) = (flag_here prev flag (c # cs) \<or> flag_in (Some c) flag cs)"

definition help_advertises_flag :: "string \<Rightarrow> string \<Rightarrow> bool" where
  "help_advertises_flag help flag = flag_in None flag help"

definition REQUIRED_CLAUDE_FLAGS :: "string list" where
  "REQUIRED_CLAUDE_FLAGS = [''-p'', ''--model'', ''--output-format'', ''--safe-mode'', ''--tools'',
     ''--disable-slash-commands'', ''--no-chrome'', ''--no-session-persistence'']"

text \<open>
  \<open>str.splitlines\<close> without its blank lines: every separator is white space, so the lines that are
  not blank are those between any two separators.
\<close>

definition line_break :: "char \<Rightarrow> bool" where
  "line_break c \<longleftrightarrow> in_rng 10 13 c \<or> in_rng 28 30 c \<or> code_pt c = 133"

definition nonblank_lines :: "string \<Rightarrow> string list" where
  "nonblank_lines s = filter (\<lambda>l. l \<noteq> [])
     (map strip (split_on newline (map (\<lambda>c. if line_break c then newline else c) s)))"

text \<open>The two probes: \<open>run\<close> gives what an invocation with an empty standard input does.\<close>

definition probe ::
    "(invocation \<Rightarrow> run_outcome) \<Rightarrow> claude_runtime \<Rightarrow> string \<Rightarrow> string list
      \<Rightarrow> (setup_error, int \<times> string \<times> string) res" where
  "probe run rt cwd args = (case run (probe_invocation rt args cwd) of
     Completed code out err \<Rightarrow> Inr (code, out, err)
   | _ \<Rightarrow> Inl (ProbeFailed args))"

definition doctor_claude_runtime ::
    "(setup_error, claude_runtime) res \<Rightarrow> (invocation \<Rightarrow> run_outcome) \<Rightarrow> string
      \<Rightarrow> (setup_error, claude_runtime) res" where
  "doctor_claude_runtime built run cwd =
     bindE built (\<lambda>rt.
     bindE (probe run rt cwd [''--version'']) (\<lambda>(vcode, vout, verr).
     if vcode \<noteq> 0 then Inl (VersionExit vcode)
     else case nonblank_lines vout of
       [] \<Rightarrow> Inl NoVersionText
     | v # _ \<Rightarrow>
         bindE (probe run rt cwd [''--help'']) (\<lambda>(hcode, hout, herr).
         if hcode \<noteq> 0 then Inl (HelpExit hcode)
         else
           let help = hout @ newline # herr;
               unsupported = filter (\<lambda>f. \<not> help_advertises_flag help f) REQUIRED_CLAUDE_FLAGS
           in if unsupported \<noteq> [] then Inl (UnsupportedFlags unsupported)
              else Inr (rt\<lparr>rt_version := Some v\<rparr>))))"

fun infix_of :: "string \<Rightarrow> string \<Rightarrow> bool" where
  "infix_of w [] = (w = [])"
| "infix_of w (c # cs) = (strip_prefix w (c # cs) \<noteq> None \<or> infix_of w cs)"

definition is_truncation_subtype :: "json \<Rightarrow> bool" where
  "is_truncation_subtype v = (case v of
     JStr s \<Rightarrow> list_ex (\<lambda>m. infix_of m (lower s)) [''max_turns'', ''max_tokens'', ''length'']
   | _ \<Rightarrow> False)"

definition resolved_claude_model :: "(string \<times> json) list \<Rightarrow> string" where
  "resolved_claude_model payload =
     (if fld payload ''type'' \<noteq> JStr ''result'' then UNRESOLVED_MODEL_ID
      else (case fld payload ''modelUsage'' of
              JObj [(model, JObj _)] \<Rightarrow> if strip model = [] then UNRESOLVED_MODEL_ID else model
            | _ \<Rightarrow> UNRESOLVED_MODEL_ID))"

text \<open>The envelope of a process that has ended; a \<open>RecursionError\<close> meets the catch-all.\<close>

definition classify_envelope :: "nat \<Rightarrow> flt \<Rightarrow> int \<Rightarrow> string \<Rightarrow> model_call_result" where
  "classify_envelope limit elapsed code out = (case loads limit out of
     Inl JRecursionError \<Rightarrow> error RC_OS_ERROR UNRESOLVED_MODEL_ID elapsed
   | Inl _ \<Rightarrow> error (if code \<noteq> 0 then RC_OS_ERROR else RC_NON_JSON_BODY) UNRESOLVED_MODEL_ID elapsed
   | Inr (JObj env) \<Rightarrow>
       (let resolved = resolved_claude_model env in
        if code \<noteq> 0 then error RC_OS_ERROR resolved elapsed
        else if fld env ''is_error'' = JBool True then
          error (if is_truncation_subtype (fld env ''subtype'') then RC_TRUNCATED else RC_OS_ERROR)
            resolved elapsed
        else (case fld env ''result'' of
                JStr text \<Rightarrow>
                  (if strip text = [] then no_response_result resolved elapsed
                   else (case success (Text text) resolved elapsed of
                           Inr r \<Rightarrow> r
                         | Inl _ \<Rightarrow> error RC_OS_ERROR resolved elapsed))
              | _ \<Rightarrow> error RC_BAD_ENVELOPE resolved elapsed))
   | Inr _ \<Rightarrow> error (if code \<noteq> 0 then RC_OS_ERROR else RC_BAD_ENVELOPE) UNRESOLVED_MODEL_ID elapsed)"

text \<open>The result of a call with the processes it started: the invocation and what it was given.\<close>

type_synonym process_log = "(invocation \<times> string) list"

definition run_claude_logged ::
    "nat \<Rightarrow> claude_runtime \<Rightarrow> (invocation \<Rightarrow> string \<Rightarrow> run_outcome) \<Rightarrow> string \<Rightarrow> flt \<Rightarrow> string \<Rightarrow> string
      \<Rightarrow> model_call_result \<times> process_log" where
  "run_claude_logged limit rt run cwd elapsed requested prompt =
     (case build_claude_invocation rt requested cwd of
        Inl _ \<Rightarrow> (error RC_OS_ERROR UNRESOLVED_MODEL_ID elapsed, [])
      | Inr iv \<Rightarrow>
          (case run iv prompt of
             Completed code out err \<Rightarrow> classify_envelope limit elapsed code out
           | RunTimeout \<Rightarrow> error RC_TIMEOUT UNRESOLVED_MODEL_ID elapsed
           | RunFileNotFound \<Rightarrow> error RC_UNREACHABLE UNRESOLVED_MODEL_ID elapsed
           | RunOSError \<Rightarrow> error RC_OS_ERROR UNRESOLVED_MODEL_ID elapsed
           | RunOther \<Rightarrow> error RC_OS_ERROR UNRESOLVED_MODEL_ID elapsed, [(iv, prompt)]))"

definition run_claude ::
    "nat \<Rightarrow> claude_runtime \<Rightarrow> (invocation \<Rightarrow> string \<Rightarrow> run_outcome) \<Rightarrow> string \<Rightarrow> flt \<Rightarrow> string \<Rightarrow> string
      \<Rightarrow> model_call_result" where
  "run_claude limit rt run cwd elapsed requested prompt =
     fst (run_claude_logged limit rt run cwd elapsed requested prompt)"

datatype claude_exn =
    ClaudeAdapterError adapter_error
  | ClaudeSetupError setup_error
  | BudgetExhausted

text \<open>What one process sees of the outside: its runner, its directory, the elapsed time.\<close>

record process_world =
  pw_run :: "invocation \<Rightarrow> string \<Rightarrow> run_outcome"
  pw_cwd :: string
  pw_elapsed :: flt

text \<open>Setup comes before the budget, the budget before the process.\<close>

definition claude_call_logged ::
    "nat \<Rightarrow> run_config \<Rightarrow> claude_runtime option \<Rightarrow> (setup_error, claude_runtime) res \<Rightarrow> process_world
      \<Rightarrow> string \<Rightarrow> string \<Rightarrow> call_budget \<Rightarrow> (claude_exn, model_call_result) res \<times> process_log \<times> call_budget" where
  "claude_call_logged limit config runtime doctor world alias prompt budget =
     (case binding_for (cf_profile config) alias of
        Inl _ \<Rightarrow> (Inl (ClaudeAdapterError (UnboundAlias alias)), [], budget)
      | Inr b \<Rightarrow>
          (if mb_provider b \<noteq> Claude then (Inl (ClaudeAdapterError (WrongProvider alias)), [], budget)
           else (case (case runtime of Some rt \<Rightarrow> Inr rt | None \<Rightarrow> doctor) of
                   Inl e \<Rightarrow> (Inl (ClaudeSetupError e), [], budget)
                 | Inr rt \<Rightarrow>
                     (case consume budget of
                        None \<Rightarrow> (Inl BudgetExhausted, [], budget)
                      | Some budget' \<Rightarrow>
                          (case run_claude_logged limit rt (pw_run world) (pw_cwd world) (pw_elapsed world)
                                  (mb_requested b) prompt of
                             (r, procs) \<Rightarrow> (Inr r, procs, budget'))))))"

definition claude_call ::
    "nat \<Rightarrow> run_config \<Rightarrow> claude_runtime option \<Rightarrow> (setup_error, claude_runtime) res \<Rightarrow> process_world
      \<Rightarrow> string \<Rightarrow> string \<Rightarrow> call_budget \<Rightarrow> (claude_exn, model_call_result) res \<times> call_budget" where
  "claude_call limit config runtime doctor world alias prompt budget =
     (case claude_call_logged limit config runtime doctor world alias prompt budget of (r, procs, b) \<Rightarrow> (r, b))"

lemma claude_call_eq:
  "claude_call limit config runtime doctor world alias prompt budget =
     (case binding_for (cf_profile config) alias of
        Inl _ \<Rightarrow> (Inl (ClaudeAdapterError (UnboundAlias alias)), budget)
      | Inr b \<Rightarrow>
          (if mb_provider b \<noteq> Claude then (Inl (ClaudeAdapterError (WrongProvider alias)), budget)
           else (case (case runtime of Some rt \<Rightarrow> Inr rt | None \<Rightarrow> doctor) of
                   Inl e \<Rightarrow> (Inl (ClaudeSetupError e), budget)
                 | Inr rt \<Rightarrow>
                     (case consume budget of
                        None \<Rightarrow> (Inl BudgetExhausted, budget)
                      | Some budget' \<Rightarrow>
                          (Inr (run_claude limit rt (pw_run world) (pw_cwd world) (pw_elapsed world)
                                  (mb_requested b) prompt), budget')))))"
  by (simp add: claude_call_def claude_call_logged_def run_claude_def case_prod_beta
      split: sum.splits option.splits)

text \<open>
  The batch.  The pool's workers reach the budget in some order: \<open>sched\<close> lists the requests in the
  order in which they do.  Each slot keeps its own result; the list returned is in request order.
\<close>

fun run_slots ::
    "nat \<Rightarrow> run_config \<Rightarrow> claude_runtime \<Rightarrow> (nat \<Rightarrow> process_world) \<Rightarrow> (string \<times> string) list \<Rightarrow> nat list
      \<Rightarrow> call_budget \<Rightarrow> (nat \<rightharpoonup> (claude_exn, model_call_result) res) \<times> call_budget" where
  "run_slots limit config rt worlds reqs [] budget = (Map.empty, budget)"
| "run_slots limit config rt worlds reqs (i # sched) budget =
     (case claude_call limit config (Some rt) (Inr rt) (worlds i) (fst (reqs ! i)) (snd (reqs ! i)) budget of
        (r, budget') \<Rightarrow>
          (case run_slots limit config rt worlds reqs sched budget' of
             (m, budget'') \<Rightarrow> (m(i \<mapsto> r), budget'')))"

datatype slot_result = Result model_call_result | Refused

text \<open>The loop over the futures: a refused slot becomes a marker, any other exception is raised.  A slot
  outside the schedule has no result to wait for; a schedule of all requests leaves none.\<close>

fun collect_slots ::
    "(claude_exn, model_call_result) res option list \<Rightarrow> (claude_exn, slot_result list) res" where
  "collect_slots [] = Inr []"
| "collect_slots (r # rs) = (case r of
     Some (Inr x) \<Rightarrow> bindE (collect_slots rs) (\<lambda>ys. Inr (Result x # ys))
   | Some (Inl BudgetExhausted) \<Rightarrow> bindE (collect_slots rs) (\<lambda>ys. Inr (Refused # ys))
   | Some (Inl e) \<Rightarrow> Inl e
   | None \<Rightarrow> Inr [])"

definition claude_call_batch ::
    "nat \<Rightarrow> run_config \<Rightarrow> claude_runtime \<Rightarrow> (nat \<Rightarrow> process_world) \<Rightarrow> nat list \<Rightarrow> (string \<times> string) list
      \<Rightarrow> call_budget \<Rightarrow> (claude_exn, slot_result list) res \<times> call_budget" where
  "claude_call_batch limit config rt worlds sched reqs budget =
     (case run_slots limit config rt worlds reqs sched budget of
        (m, budget') \<Rightarrow> (collect_slots (map m [0..<length reqs]), budget'))"

section \<open>The budget as a contract\<close>

locale call_meter =
  fixes draw :: "'b \<Rightarrow> 'b option" and spent :: "'b \<Rightarrow> int" and cap :: "'b \<Rightarrow> int"
  assumes draw_Some: "draw b = Some b' \<Longrightarrow> spent b' = spent b + 1 \<and> cap b' = cap b \<and> spent b < cap b"
    and draw_None: "draw b = None \<longleftrightarrow> cap b \<le> spent b"
begin

lemma draw_iff: "(\<exists>b'. draw b = Some b') \<longleftrightarrow> spent b < cap b"
  using draw_None [of b] by (cases "draw b") auto

lemma draw_within: "draw b = Some b' \<Longrightarrow> spent b' \<le> cap b'"
  by (auto dest!: draw_Some)

lemma draws:
  "((\<lambda>r. Option.bind r draw) ^^ n) (Some b) = Some b' \<Longrightarrow> spent b' = spent b + int n \<and> cap b' = cap b"
proof (induction n arbitrary: b')
  case (Suc n)
  then obtain c where "((\<lambda>r. Option.bind r draw) ^^ n) (Some b) = Some c" "draw c = Some b'"
    by (auto simp: bind_eq_Some_conv)
  with Suc.IH draw_Some show ?case by fastforce
qed simp

lemma draws_bounded:
  "((\<lambda>r. Option.bind r draw) ^^ n) (Some b) = Some b' \<Longrightarrow> spent b \<le> cap b \<Longrightarrow> spent b + int n \<le> cap b"
proof (cases n)
  case (Suc k)
  assume "((\<lambda>r. Option.bind r draw) ^^ n) (Some b) = Some b'"
  with Suc obtain c where c: "((\<lambda>r. Option.bind r draw) ^^ k) (Some b) = Some c" "draw c = Some b'"
    by (auto simp: bind_eq_Some_conv)
  with draws [OF c(1)] draw_Some [OF c(2)] Suc show ?thesis by simp
qed simp

end

lemma consume_Some: "consume b = Some b' \<longleftrightarrow> bu_used b < bu_max b \<and> b' = b\<lparr>bu_used := bu_used b + 1\<rparr>"
  by (auto simp: consume_def)

interpretation budget: call_meter consume bu_used bu_max
  by unfold_locales (auto simp: consume_Some, auto simp: consume_def split: if_splits)

section \<open>Well-formed outcomes\<close>

text \<open>Exactly one of the three states: real text, no response, a classified error without text.\<close>

definition result_ok :: "model_call_result \<Rightarrow> bool" where
  "result_ok r \<longleftrightarrow> (case mr_reason r of
     None \<Rightarrow> (case mr_response r of NO_RESPONSE \<Rightarrow> True | Text s \<Rightarrow> strip s \<noteq> [])
   | Some rc \<Rightarrow> mr_response r = Text [])"

lemma result_ok_intros [wf_intros, simp]:
  "result_ok (error rc m t)" "result_ok (no_response_result m t)"
  by (simp_all add: result_ok_def error_def no_response_result_def)

lemma result_ok_Text [simp]:
  "result_ok \<lparr>mr_response = Text s, mr_resolved = m, mr_elapsed = t, mr_reason = None\<rparr> \<longleftrightarrow> strip s \<noteq> []"
  by (simp add: result_ok_def)

lemma success_Text: "success (Text s) m t =
    (if strip s = [] then Inl EmptySuccess
     else Inr \<lparr>mr_response = Text s, mr_resolved = m, mr_elapsed = t, mr_reason = None\<rparr>)"
  by (simp add: success_def)

lemma success_ok: "success x m t = Inr r \<Longrightarrow> result_ok r"
  by (cases x) (auto simp: success_def result_ok_def split: if_splits)

lemma classify_local_ok: "classify_local limit t raw = Inr r \<Longrightarrow> result_ok r"
  by (auto simp: classify_local_def Let_def map_errE_Inr_iff dest: success_ok
      split: sum.splits json_exn.splits json.splits option.splits if_splits)

lemma classify_local_Inl:
  "classify_local limit t raw = Inl e \<longleftrightarrow> loads limit raw = Inl JRecursionError \<and> e = CallRecursionError"
  by (auto simp: classify_local_def Let_def success_Text
      split: sum.splits json_exn.splits json.splits option.splits if_splits)

lemma classify_candidate_ok: "\<exists>r. classify_candidate m t c = Inr r \<and> result_ok r"
proof (cases "fld c ''finishReason''")
  case (JStr f)
  show ?thesis
  proof (cases "extract_answer (fld c ''content'')")
    case None
    with JStr show ?thesis by (auto simp: classify_candidate_def)
  next
    case (Some a)
    with JStr show ?thesis by (auto simp: classify_candidate_def success_Text)
  qed
qed (simp_all add: classify_candidate_def)

lemma classify_payload_ok:
  "\<exists>r. (case fld p ''candidates'' of JList [JObj cand] \<Rightarrow> classify_candidate m t cand
      | _ \<Rightarrow> Inr (error RC_BAD_ENVELOPE m t)) = Inr r \<and> result_ok r"
  using classify_candidate_ok by (auto split: json.split list.split)

lemma classify_body_ok: "\<exists>r. classify_body limit t raw = Inr r \<and> result_ok r"
proof (cases "loads limit raw")
  case (Inl e)
  then show ?thesis by (cases e) (simp_all add: classify_body_def)
next
  case (Inr j)
  show ?thesis
  proof (cases j)
    case (JObj p)
    obtain v b where vb: "block_reason p = (v, b)" by (cases "block_reason p")
    show ?thesis
      using Inr JObj vb classify_payload_ok [where p = p and m = "gemini_resolved_model p" and t = t]
      by (cases v; cases b) (simp_all add: classify_body_def Let_def)
  qed (use Inr in \<open>simp_all add: classify_body_def\<close>)
qed

lemma classify_envelope_ok: "result_ok (classify_envelope limit t code out)"
  by (auto simp: classify_envelope_def Let_def dest: success_ok
      split: sum.splits json_exn.splits json.splits if_splits)

lemma run_claude_ok: "result_ok (run_claude limit rt run cwd t m p)"
  by (simp add: run_claude_def run_claude_logged_def classify_envelope_ok split: sum.split run_outcome.split)

section \<open>The batch\<close>

text \<open>Every request names an alias that the profile binds to Claude.\<close>

definition claude_bound :: "run_config \<Rightarrow> string \<Rightarrow> bool" where
  "claude_bound config alias \<longleftrightarrow>
     (\<exists>b. binding_for (cf_profile config) alias = Inr b \<and> mb_provider b = Claude)"

definition requested_of :: "run_config \<Rightarrow> string \<Rightarrow> string" where
  "requested_of config alias = (case binding_for (cf_profile config) alias of
     Inr b \<Rightarrow> mb_requested b | Inl _ \<Rightarrow> [])"

text \<open>What slot \<open>i\<close> gets when it gets a call.\<close>

definition slot_value ::
    "nat \<Rightarrow> run_config \<Rightarrow> claude_runtime \<Rightarrow> (nat \<Rightarrow> process_world) \<Rightarrow> (string \<times> string) list \<Rightarrow> nat
      \<Rightarrow> model_call_result" where
  "slot_value limit config rt worlds reqs i =
     run_claude limit rt (pw_run (worlds i)) (pw_cwd (worlds i)) (pw_elapsed (worlds i))
       (requested_of config (fst (reqs ! i))) (snd (reqs ! i))"

lemma claude_call_bound:
  assumes "claude_bound config (fst (reqs ! i))"
  shows "claude_call limit config (Some rt) d (worlds i) (fst (reqs ! i)) (snd (reqs ! i)) b =
    (case consume b of None \<Rightarrow> (Inl BudgetExhausted, b)
     | Some b' \<Rightarrow> (Inr (slot_value limit config rt worlds reqs i), b'))"
  using assms by (auto simp: claude_bound_def claude_call_eq slot_value_def requested_of_def
      split: option.split)

definition granted :: "call_budget \<Rightarrow> nat list \<Rightarrow> nat" where
  "granted b sched = min (length sched) (nat (remaining b))"

lemma run_slots_spec:
  assumes "\<forall>i \<in> set sched. claude_bound config (fst (reqs ! i))" and "distinct sched"
    and "run_slots limit config rt worlds reqs sched b = (m, b')"
  shows "b' = b\<lparr>bu_used := bu_used b + int (granted b sched)\<rparr> \<and>
    (\<forall>i. m i = (if i \<in> set (take (granted b sched) sched) then Some (Inr (slot_value limit config rt worlds reqs i))
      else if i \<in> set sched then Some (Inl BudgetExhausted) else None))"
  using assms
proof (induction sched arbitrary: b m b')
  case Nil
  then show ?case by (auto simp: granted_def)
next
  case (Cons i sched)
  have bound: "claude_bound config (fst (reqs ! i))" using Cons.prems(1) by simp
  show ?case
  proof (cases "consume b")
    case None
    then have z: "granted b (i # sched) = 0" "granted b sched = 0"
      by (auto simp: granted_def remaining_def consume_def split: if_splits)
    obtain m1 b1 where r: "run_slots limit config rt worlds reqs sched b = (m1, b1)"
      by (cases "run_slots limit config rt worlds reqs sched b")
    have "m = m1(i \<mapsto> Inl BudgetExhausted)" "b' = b1"
      using Cons.prems(3) claude_call_bound [OF bound] None r by auto
    moreover have IH: "b1 = b \<and> (\<forall>j. m1 j = (if j \<in> set sched then Some (Inl BudgetExhausted) else None))"
      using Cons.IH [OF _ _ r] Cons.prems(1,2) z by simp
    ultimately show ?thesis by (simp add: z)
  next
    case (Some b0)
    then have b0: "b0 = b\<lparr>bu_used := bu_used b + 1\<rparr>" and lt: "bu_used b < bu_max b"
      by (auto simp: consume_Some)
    have g: "granted b (i # sched) = Suc (granted b0 sched)"
      using lt by (simp add: granted_def remaining_def b0 min_def nat_diff_distrib) linarith
    obtain m1 b1 where r: "run_slots limit config rt worlds reqs sched b0 = (m1, b1)"
      by (cases "run_slots limit config rt worlds reqs sched b0")
    have m: "m = m1(i \<mapsto> Inr (slot_value limit config rt worlds reqs i))" "b' = b1"
      using Cons.prems(3) claude_call_bound [OF bound] Some r by auto
    have IH: "b1 = b0\<lparr>bu_used := bu_used b0 + int (granted b0 sched)\<rparr> \<and>
        (\<forall>j. m1 j = (if j \<in> set (take (granted b0 sched) sched)
            then Some (Inr (slot_value limit config rt worlds reqs j))
          else if j \<in> set sched then Some (Inl BudgetExhausted) else None))"
      using Cons.IH [OF _ _ r] Cons.prems(1,2) by simp
    have "i \<notin> set sched" using Cons.prems(2) by simp
    then show ?thesis using IH by (auto simp: g m b0)
  qed
qed

text \<open>The results when the slots of \<open>served\<close> were granted.\<close>

definition slot_results ::
    "nat \<Rightarrow> run_config \<Rightarrow> claude_runtime \<Rightarrow> (nat \<Rightarrow> process_world) \<Rightarrow> (string \<times> string) list \<Rightarrow> nat set
      \<Rightarrow> slot_result list" where
  "slot_results limit config rt worlds reqs served =
     map (\<lambda>i. if i \<in> served then Result (slot_value limit config rt worlds reqs i) else Refused)
       [0..<length reqs]"

lemma collect_slots_map:
  assumes "\<forall>i \<in> set is. m i = (if i \<in> served then Some (Inr (v i)) else Some (Inl BudgetExhausted))"
  shows "collect_slots (map m is) = Inr (map (\<lambda>i. if i \<in> served then Result (v i) else Refused) is)"
  using assms by (induction "is") auto

section \<open>Properties\<close>

text \<open>A call to the local endpoint ends in exactly one well-formed state (real text, no response, or a
  classified error without text), whatever the transport does; the one exception that escapes is the
  \<open>RecursionError\<close> of a response body nested beyond the limit.\<close>

theorem local_chat_total:
  "(case local_chat limit config transport t model prompt of
      Inr r \<Rightarrow> result_ok r
    | Inl e \<Rightarrow> e = CallRecursionError \<and>
        (\<exists>raw. transport (local_url (cf_local_base_url config))
            (dumps (local_body model prompt (cf_local_max_tokens config))) = Body raw \<and>
          loads limit raw = Inl JRecursionError)) \<and>
   local_chat 9 config (\<lambda>_ _. Body (replicate 10 (CHR ''['')))  t model prompt = Inl CallRecursionError"
proof -
  have "loads 9 (replicate 10 (CHR ''['')) = Inl JRecursionError" by code_simp
  then have "classify_local 9 t (replicate 10 (CHR ''['')) = Inl CallRecursionError"
    by (simp add: classify_local_Inl)
  then show ?thesis
    by (auto simp: local_chat_def classify_local_Inl dest: classify_local_ok
        split: sum.split transport_outcome.split)
qed

text \<open>An empty or white-space answer of the local endpoint is the no-response state whatever the finish
  reason says; a non-empty answer that was cut off is a truncation error, never a success.\<close>

theorem local_empty_before_truncated:
  assumes "loads limit raw = Inr (JObj payload)" and "message_of payload = Some msg"
  shows "(strip (the_str (fld msg ''content'')) = [] \<longrightarrow>
      (\<exists>r. classify_local limit t raw = Inr r \<and> no_response r \<and> mr_reason r = None)) \<and>
    (strip (the_str (fld msg ''content'')) \<noteq> [] \<longrightarrow>
      (\<exists>r. classify_local limit t raw = Inr r \<and> \<not> no_response r \<and>
        (if finish_reason_of payload = Some ''length'' then mr_reason r = Some RC_TRUNCATED
         else call_ok r \<and> mr_response r = Text (the_str (fld msg ''content'')))))"
  using assms
  by (simp add: classify_local_def Let_def success_Text no_response_def call_ok_def
      no_response_result_def error_def)

definition sample_body :: string where
  "sample_body = ''{\"model\": \"m\", \"choices\": [{\"finish_reason\": \"length\", \"message\": {\"content\": \"  \"}}]}''"

theorem local_empty_before_truncated_witness:
  "\<exists>r. classify_local 9 (Fin False 1 0) sample_body = Inr r \<and> no_response r"
proof -
  let ?m = "[(''content'', JStr ''  '')]"
  let ?p = "[(''model'', JStr ''m''), (''choices'', JList [JObj [(''finish_reason'', JStr ''length''),
    (''message'', JObj ?m)]])]"
  have "loads 9 sample_body = Inr (JObj ?p)" by code_simp
  moreover have "message_of ?p = Some ?m" by (simp add: message_of_def first_choice_def fld_Cons)
  moreover have "strip (the_str (fld ?m ''content'')) = []" by code_simp
  ultimately show ?thesis using local_empty_before_truncated by blast
qed

text \<open>A Gemini call under a validated profile never raises and ends in exactly one well-formed state,
  whatever the transport returns, nesting bombs included.\<close>

theorem gemini_generate_total:
  assumes "profile_ok p" and "ep_gemini p = Some ctx" and "b \<in> set (ep_models p)"
    and "mb_provider b = Gemini"
  shows "\<exists>r. gemini_generate limit ctx key transport t (mb_requested b) prompt = Inr r \<and> result_ok r"
proof -
  have "gc_contract ctx = GEMINI_REQUEST_CONTRACT" and "binding_ok b"
    using assms by (auto simp: profile_ok_def gemini_ok_def bindings_ok_def list_all_iff)
  moreover from \<open>binding_ok b\<close> assms(4) have "model_token (mb_requested b)" by (simp add: binding_ok_def)
  ultimately show ?thesis
    using classify_body_ok by (simp add: gemini_generate_def endpoint_def split: transport_outcome.split)
qed

theorem gemini_generate_total_witness:
  "\<exists>r. gemini_generate 9 DEFAULT_GEMINI_CONTEXT ''k'' (\<lambda>_ _ _. Body (replicate 10 (CHR ''[''))) (Fin False 1 0)
     ''gemini-3.8-flash'' ''hello'' = Inr r \<and> result_ok r"
  using gemini_generate_total [of sample_profile DEFAULT_GEMINI_CONTEXT
      "\<lparr>mb_alias = ''flash'', mb_provider = Gemini, mb_requested = ''gemini-3.8-flash''\<rparr>"]
    profiles.from_ok [OF sample_profile_read]
  by (simp add: sample_profile_def)

text \<open>C3: No model process runs uncounted.  With the log of the processes it starts, a Claude call that is
  refused - unbound alias, other provider, failed doctor, spent budget - starts none and costs nothing; any
  other costs exactly one call within the maximum and starts exactly one process, on its prompt, unless the
  command line can not be built; and on a spent budget no process is ever started.\<close>

theorem claude_call_budget:
  assumes "claude_call_logged limit config runtime doctor world alias prompt b = (r, procs, b')"
  shows "int (length procs) \<le> bu_used b' - bu_used b \<and> bu_max b' = bu_max b \<and>
    (exhausted b \<longrightarrow> procs = []) \<and> (r = Inl BudgetExhausted \<longrightarrow> exhausted b) \<and>
    (case r of
       Inl e \<Rightarrow> b' = b \<and> procs = []
     | Inr x \<Rightarrow> result_ok x \<and> bu_used b' = bu_used b + 1 \<and> bu_used b' \<le> bu_max b \<and>
         (\<exists>c rt. binding_for (cf_profile config) alias = Inr c \<and> mb_provider c = Claude \<and>
            (case runtime of Some rt' \<Rightarrow> rt = rt' | None \<Rightarrow> doctor = Inr rt) \<and>
            procs = (case build_claude_invocation rt (mb_requested c) (pw_cwd world) of Inl _ \<Rightarrow> [] | Inr iv \<Rightarrow> [(iv, prompt)])))"
proof (cases "binding_for (cf_profile config) alias")
  case (Inl e)
  with assms show ?thesis by (auto simp: claude_call_logged_def)
next
  case (Inr c)
  define rdy where "rdy = (case runtime of Some rt \<Rightarrow> Inr rt | None \<Rightarrow> doctor)"
  note call = assms [unfolded claude_call_logged_def Inr sum.case, folded rdy_def]
  show ?thesis
  proof (cases "mb_provider c = Claude")
    case False
    with call show ?thesis by auto
  next
    case True
    show ?thesis
    proof (cases rdy)
      case (Inl e)
      with call True show ?thesis by auto
    next
      case (Inr rt)
      then have rt: "case runtime of Some rt' \<Rightarrow> rt = rt' | None \<Rightarrow> doctor = Inr rt"
        by (auto simp: rdy_def split: option.splits)
      show ?thesis
      proof (cases "consume b")
        case None
        with call True Inr budget.draw_None [of b] show ?thesis by (auto simp: exhausted_def)
      next
        case (Some b1)
        from call True Inr Some obtain x where x: "run_claude_logged limit rt (pw_run world) (pw_cwd world)
            (pw_elapsed world) (mb_requested c) prompt = (x, procs)" "r = Inr x" "b' = b1"
          by (auto split: prod.splits)
        have "result_ok x" using run_claude_ok [of limit rt "pw_run world" "pw_cwd world"] x(1)
          by (metis run_claude_def fst_conv)
        moreover have "procs = (case build_claude_invocation rt (mb_requested c) (pw_cwd world) of Inl _ \<Rightarrow> [] | Inr iv \<Rightarrow> [(iv, prompt)])"
          using x(1) by (auto simp: run_claude_logged_def split: sum.splits)
        moreover from this have "length procs \<le> 1" by (auto split: sum.splits)
        moreover note budget.draw_Some [OF Some]
        ultimately show ?thesis using x(2,3) True rt \<open>binding_for (cf_profile config) alias = Inr c\<close>
          by (auto simp: exhausted_def)
      qed
    qed
  qed
qed

definition sample_runtime :: claude_runtime where
  "sample_runtime = \<lparr>rt_executable = ''/bin/claude'', rt_context = frozen_claude, rt_env = [],
     rt_probe_env = [], rt_command_processor = None, rt_version = Some ''2.0''\<rparr>"

definition sample_world :: process_world where
  "sample_world = \<lparr>pw_run = (\<lambda>_ _. RunTimeout), pw_cwd = ''/t'', pw_elapsed = Fin False 1 0\<rparr>"

lemma haiku_bound: "claude_bound sample_config ''haiku''"
  by (simp add: claude_bound_def binding_for_def sample_config_def DEFAULT_EXECUTION_PROFILE_def
      local_binding_def claude_binding_def)

theorem claude_call_budget_witness:
  "\<exists>r procs. claude_call_logged 9 sample_config (Some sample_runtime) (Inl RuntimeUnresolved) sample_world ''haiku'' ''p''
     \<lparr>bu_max = 3, bu_used = 2\<rparr> = (Inr r, procs, \<lparr>bu_max = 3, bu_used = 3\<rparr>) \<and> result_ok r \<and> length procs \<le> 1"
proof -
  let ?c = "claude_call_logged 9 sample_config (Some sample_runtime) (Inl RuntimeUnresolved) sample_world ''haiku''
    ''p'' \<lparr>bu_max = 3, bu_used = 2\<rparr>"
  have "\<exists>r. claude_call 9 sample_config (Some sample_runtime) (Inl RuntimeUnresolved) sample_world ''haiku''
    ''p'' \<lparr>bu_max = 3, bu_used = 2\<rparr> = (Inr r, \<lparr>bu_max = 3, bu_used = 3\<rparr>)"
    using claude_call_bound [of sample_config "[(''haiku'', ''p'')]" 0 9 sample_runtime
        "Inl RuntimeUnresolved" "\<lambda>_. sample_world"] haiku_bound
    by (simp add: consume_def)
  then obtain r procs where r: "?c = (Inr r, procs, \<lparr>bu_max = 3, bu_used = 3\<rparr>)"
    by (auto simp: claude_call_def split: prod.splits)
  from claude_call_budget [OF r] r show ?thesis by simp
qed

lemma batch_facts:
  fixes b :: call_budget
  assumes "\<forall>r \<in> set reqs. claude_bound config (fst r)" and "distinct sched" and "set sched = {..<length reqs}"
  defines "n \<equiv> granted b sched"
  shows "claude_call_batch limit config rt worlds sched reqs b =
      (Inr (slot_results limit config rt worlds reqs (set (take n sched))), b\<lparr>bu_used := bu_used b + int n\<rparr>)"
    and "card (set (take n sched)) = n" and "length sched = length reqs"
proof -
  obtain m b' where r: "run_slots limit config rt worlds reqs sched b = (m, b')"
    by (cases "run_slots limit config rt worlds reqs sched b")
  have "\<forall>i \<in> set sched. claude_bound config (fst (reqs ! i))" using assms(1,3) by auto
  note spec = run_slots_spec [OF this assms(2) r, folded n_def]
  have "collect_slots (map m [0..<length reqs]) =
      Inr (slot_results limit config rt worlds reqs (set (take n sched)))"
    unfolding slot_results_def by (rule collect_slots_map) (use spec assms(3) in auto)
  then show "claude_call_batch limit config rt worlds sched reqs b =
      (Inr (slot_results limit config rt worlds reqs (set (take n sched))), b\<lparr>bu_used := bu_used b + int n\<rparr>)"
    using r spec by (auto simp: claude_call_batch_def)
  show "length sched = length reqs"
    using assms(2,3) by (metis card_lessThan distinct_card)
  have "n \<le> length sched" by (simp add: n_def granted_def)
  then show "card (set (take n sched)) = n"
    using assms(2) by (simp add: distinct_card)
qed

text \<open>A batch of Claude calls under any scheduling of its workers runs exactly as many calls as the
  budget still allows, loses none of them, returns one entry per request in request order with each
  slot's own result, and marks exactly the remaining slots as refused.\<close>

theorem batch_loses_nothing:
  fixes b :: call_budget
  assumes "\<forall>r \<in> set reqs. claude_bound config (fst r)" and "distinct sched" and "set sched = {..<length reqs}"
  defines "n \<equiv> granted b sched"
  shows "claude_call_batch limit config rt worlds sched reqs b =
      (Inr (slot_results limit config rt worlds reqs (set (take n sched))), b\<lparr>bu_used := bu_used b + int n\<rparr>) \<and>
    card (set (take n sched)) = min (length reqs) (nat (remaining b))"
  using batch_facts(1,2) [OF assms(1-3), where b = b] batch_facts(3) [OF assms(1-3)]
  by (simp add: n_def granted_def)

theorem batch_loses_nothing_witness:
  "claude_call_batch 9 sample_config sample_runtime (\<lambda>_. sample_world) [1, 0] [(''haiku'', ''a''), (''haiku'', ''b'')]
     \<lparr>bu_max = 3, bu_used = 2\<rparr> =
   (Inr [Refused, Result (error RC_TIMEOUT UNRESOLVED_MODEL_ID (Fin False 1 0))], \<lparr>bu_max = 3, bu_used = 3\<rparr>)"
proof -
  let ?b = "\<lparr>bu_max = 3, bu_used = 2\<rparr>" and ?q = "[(''haiku'', ''a''), (''haiku'', ''b'')]"
  have g: "granted ?b [1, 0] = 1" by (simp add: granted_def remaining_def)
  have v: "slot_value 9 sample_config sample_runtime (\<lambda>_. sample_world) ?q 1
      = error RC_TIMEOUT UNRESOLVED_MODEL_ID (Fin False 1 0)"
    by (simp add: slot_value_def run_claude_def run_claude_logged_def build_claude_invocation_def is_absolute_def sample_world_def)
  have "set [1, 0 :: nat] = {..<length ?q}" by (auto simp: lessThan_def)
  with batch_loses_nothing [where reqs = ?q and config = sample_config and sched = "[1, 0]" and b = ?b
      and limit = 9 and rt = sample_runtime and worlds = "\<lambda>_. sample_world"] haiku_bound
  show ?thesis by (simp add: g [simplified] v [simplified] slot_results_def)
qed

text \<open>The invocation of a validated Claude binding is sealed: the allowlisted environment, the given
  directory, and an argument vector that is the frozen template with the requested model in its place,
  in which every argument is made of letters, digits, dots, underscores and hyphens only, so nothing
  in it can end a quoted argument or be a shell metacharacter, and the model is not an option.\<close>

theorem sealed_invocation:
  assumes "binding_ok b" and "mb_provider b = Claude" and "rt_context rt = frozen_claude"
    and "build_claude_invocation rt (mb_requested b) cwd = Inr iv"
  shows "iv_env iv = rt_env rt \<and> iv_cwd iv = cwd \<and> hd (mb_requested b) \<noteq> CHR ''-'' \<and>
    (\<exists>args. iv_argv iv = launcher_argv rt args \<and> list_all (list_all name_char) args \<and>
      args = [''-p'', ''--model'', mb_requested b, ''--output-format'', ''json'', ''--safe-mode'',
        ''--tools'', [], ''--disable-slash-commands'', ''--no-chrome'', ''--no-session-persistence''])"
proof -
  let ?args = "[''-p'', ''--model'', mb_requested b, ''--output-format'', ''json'', ''--safe-mode'',
        ''--tools'', [], ''--disable-slash-commands'', ''--no-chrome'', ''--no-session-persistence'']"
  have "model_token (mb_requested b)" using assms(1,2) by (simp add: binding_ok_def)
  then obtain c cs where m: "mb_requested b = c # cs" "is_ascii_alnum c" "list_all name_char cs"
    by (auto simp: model_token_def split: list.splits)
  have h: "c \<noteq> CHR ''-''" using m(2) by (auto simp: is_ascii_alnum_def is_digit_def is_ascii_alpha_def in_rng_def)
  have n: "list_all name_char (mb_requested b)" using m by (simp add: name_char_def)
  have "list_all (list_all name_char) [''-p'', ''--model'', ''--output-format'', ''json'', ''--safe-mode'',
        ''--tools'', [], ''--disable-slash-commands'', ''--no-chrome'', ''--no-session-persistence'']"
    by code_simp
  then have l: "list_all (list_all name_char) ?args" using n by simp
  have "map (\<lambda>a. if a = CLAUDE_MODEL_PLACEHOLDER then mb_requested b else a) (cc_argv frozen_claude) = ?args"
    by (simp add: frozen_claude_def CLAUDE_ARGV_TEMPLATE_def CLAUDE_MODEL_PLACEHOLDER_def)
  with assms(3,4) have "iv_env iv = rt_env rt" "iv_cwd iv = cwd" "iv_argv iv = launcher_argv rt ?args"
    by (auto simp: build_claude_invocation_def split: if_splits)
  moreover have "hd (mb_requested b) \<noteq> CHR ''-''" using m(1) h by simp
  ultimately show ?thesis using l by blast
qed

theorem sealed_invocation_witness:
  "\<exists>iv. build_claude_invocation sample_runtime ''haiku'' ''/t'' = Inr iv \<and> iv_env iv = [] \<and>
     (\<exists>args. iv_argv iv = launcher_argv sample_runtime args \<and> list_all (list_all name_char) args)"
proof -
  have "binding_ok (claude_binding ''haiku'')" by code_simp
  moreover obtain iv where "build_claude_invocation sample_runtime ''haiku'' ''/t'' = Inr iv"
    by (simp add: build_claude_invocation_def is_absolute_def)
  ultimately show ?thesis
    using sealed_invocation [of "claude_binding ''haiku''" sample_runtime "''/t''" iv]
    by (auto simp: claude_binding_def sample_runtime_def)
qed

lemma probe_Inr: "probe run rt cwd args = Inr (c, o', e) \<longleftrightarrow> run (probe_invocation rt args cwd) = Completed c o' e"
  by (auto simp: probe_def split: run_outcome.splits)

text \<open>The doctor fails closed: a runtime passes only if both probes exit with 0, the version text has a
  line that is not blank, which is recorded, and the help text advertises every required flag as a
  whole token; and it runs nothing but probes under the credential-free environment.\<close>

theorem doctor_fails_closed:
  assumes "doctor_claude_runtime (Inr rt) run cwd = Inr rt'"
  shows "(\<exists>vout verr hout herr v vs.
      run (probe_invocation rt [''--version''] cwd) = Completed 0 vout verr \<and>
      run (probe_invocation rt [''--help''] cwd) = Completed 0 hout herr \<and>
      nonblank_lines vout = v # vs \<and> v \<noteq> [] \<and> rt' = rt\<lparr>rt_version := Some v\<rparr> \<and>
      (\<forall>f \<in> set REQUIRED_CLAUDE_FLAGS. help_advertises_flag (hout @ newline # herr) f)) \<and>
    ((\<forall>iv. iv_env iv = rt_probe_env rt \<longrightarrow> run' iv = run iv) \<longrightarrow>
      doctor_claude_runtime (Inr rt) run' cwd = Inr rt')"
proof -
  from assms obtain vcode vout verr where v: "probe run rt cwd [''--version''] = Inr (vcode, vout, verr)"
    and r: "(if vcode \<noteq> 0 then Inl (VersionExit vcode)
     else case nonblank_lines vout of
       [] \<Rightarrow> Inl NoVersionText
     | v # _ \<Rightarrow>
         bindE (probe run rt cwd [''--help'']) (\<lambda>(hcode, hout, herr).
         if hcode \<noteq> 0 then Inl (HelpExit hcode)
         else
           let help = hout @ newline # herr;
               unsupported = filter (\<lambda>f. \<not> help_advertises_flag help f) REQUIRED_CLAUDE_FLAGS
           in if unsupported \<noteq> [] then Inl (UnsupportedFlags unsupported)
              else Inr (rt\<lparr>rt_version := Some v\<rparr>))) = Inr rt'"
    by (auto simp: doctor_claude_runtime_def bindE_Inr_iff)
  from r obtain w ws where l: "nonblank_lines vout = w # ws" and "vcode = 0"
    by (cases "nonblank_lines vout") (auto split: if_splits)
  with r obtain hout herr where h: "probe run rt cwd [''--help''] = Inr (0, hout, herr)"
    and f: "filter (\<lambda>f. \<not> help_advertises_flag (hout @ newline # herr) f) REQUIRED_CLAUDE_FLAGS = []"
    and rt': "rt' = rt\<lparr>rt_version := Some w\<rparr>"
    by (auto simp: bindE_Inr_iff Let_def split: if_splits)
  have "w \<in> set (nonblank_lines vout)" by (simp add: l)
  then have "w \<noteq> []" by (simp add: nonblank_lines_def)
  moreover have "doctor_claude_runtime (Inr rt) run' cwd = Inr rt'"
    if "\<forall>iv. iv_env iv = rt_probe_env rt \<longrightarrow> run' iv = run iv"
  proof -
    have "probe run' rt cwd = probe run rt cwd"
      using that by (simp add: probe_def probe_invocation_def fun_eq_iff)
    with assms show ?thesis by (simp only: doctor_claude_runtime_def bindE.simps)
  qed
  ultimately show ?thesis
    using v h l f rt' \<open>vcode = 0\<close> by (auto simp: probe_Inr filter_empty_conv)
qed

definition sample_probe :: "invocation \<Rightarrow> run_outcome" where
  "sample_probe iv = (if iv_argv iv = Native [''/bin/claude'', ''--version'']
     then Completed 0 '' 2.0 (Claude Code)'' [] else Completed 0 (join '' '' REQUIRED_CLAUDE_FLAGS) [])"

theorem doctor_fails_closed_witness:
  "\<exists>v. doctor_claude_runtime (Inr sample_runtime) sample_probe ''/t'' = Inr (sample_runtime\<lparr>rt_version := Some v\<rparr>)
     \<and> v \<noteq> []"
proof -
  have "doctor_claude_runtime (Inr sample_runtime) sample_probe ''/t''
      = Inr (sample_runtime\<lparr>rt_version := Some ''2.0 (Claude Code)''\<rparr>)"
    by code_simp
  from doctor_fails_closed [OF this] this show ?thesis by blast
qed

end
