(* ===== verification/Suite.thy ===== *)
theory Suite
  imports Externals Json_Text
begin

text \<open>
  src/measure_twice/suite.py: the scalar validators, the three dataclasses \<open>ScoringSpec\<close>, \<open>Item\<close>
  and \<open>Suite\<close> with their \<open>__post_init__\<close> checks and \<open>from_mapping\<close> constructors, the canonical item
  hash, and the loader.  A constructor takes the raw JSON values and returns the typed record or the
  first \<open>SuiteError\<close> the code raises; there is one error constructor for each raise.
\<close>

section \<open>Errors\<close>

datatype suite_error =
    NotNonemptyString string            \<comment> \<open>the label\<close>
  | UnsafeCharacters string string      \<comment> \<open>label, value\<close>
  | NoAlphanumeric string string
  | NotAListOfStrings string
  | NotAnIntAtLeast string int
  | NotANumber01 string
  | OutOfUnitRange string
  | NotAnObject string                  \<comment> \<open>the noun\<close>
  | UnknownKeys string "string list"
  | MissingKeys string "string list"
  | BadScoringType
  | RegexNotBool
  | RegexNotExact
  | LabelsCollide string string
  | ItemsNotAList
  | NoItems
  | DuplicateIds "string list"
  | BadItemRegex string string          \<comment> \<open>item id, pattern\<close>
  | SuiteFileNotFound
  | CouldNotReadSuite
  | SuiteNotAnObject

type_synonym 'a sres = "(suite_error, 'a) res"

section \<open>Scalar validators\<close>

definition validate_safe_name :: "externals \<Rightarrow> json \<Rightarrow> string \<Rightarrow> string sres" where
  "validate_safe_name ext v label = (case v of
     JStr s \<Rightarrow>
       (if s = [] then Inl (NotNonemptyString label)
        else if \<not> sb_safe_name ext s then Inl (UnsafeCharacters label s)
        else if \<not> list_ex isalnum s then Inl (NoAlphanumeric label s)
        else Inr s)
   | _ \<Rightarrow> Inl (NotNonemptyString label))"

definition validate_nonempty_str :: "json \<Rightarrow> string \<Rightarrow> string sres" where
  "validate_nonempty_str v label = (case v of
     JStr s \<Rightarrow> if s = [] then Inl (NotNonemptyString label) else Inr s
   | _ \<Rightarrow> Inl (NotNonemptyString label))"

definition indexed_label :: "string \<Rightarrow> nat \<Rightarrow> string" where
  "indexed_label label i = label @ ''['' @ show_nat i @ '']''"

fun validate_strs_from :: "nat \<Rightarrow> json list \<Rightarrow> string \<Rightarrow> string list sres" where
  "validate_strs_from i [] label = Inr []"
| "validate_strs_from i (v # vs) label =
     bindE (validate_nonempty_str v (indexed_label label i)) (\<lambda>s.
     bindE (validate_strs_from (Suc i) vs label) (\<lambda>ss. Inr (s # ss)))"

definition validate_str_list :: "json \<Rightarrow> string \<Rightarrow> string list sres" where
  "validate_str_list v label = (case v of
     JList vs \<Rightarrow> validate_strs_from 0 vs label
   | _ \<Rightarrow> Inl (NotAListOfStrings label))"

text \<open>A boolean is no integer here, although Python's \<open>bool\<close> is a subclass of \<open>int\<close>.\<close>

definition validate_int_at_least :: "json \<Rightarrow> string \<Rightarrow> int \<Rightarrow> int sres" where
  "validate_int_at_least v label minimum = (case v of
     JInt n \<Rightarrow> if n < minimum then Inl (NotAnIntAtLeast label minimum) else Inr n
   | _ \<Rightarrow> Inl (NotAnIntAtLeast label minimum))"

text \<open>The accepted number, as the float the caller normalises it to.\<close>

definition validate_unit_float :: "json \<Rightarrow> string \<Rightarrow> flt sres" where
  "validate_unit_float v label = (case v of
     JInt n \<Rightarrow> if 0 \<le> n \<and> n \<le> 1 then Inr (flt_of_int n) else Inl (OutOfUnitRange label)
   | JFloat f \<Rightarrow> if rat_le_flt 0 f \<and> flt_le_rat f 1 then Inr f else Inl (OutOfUnitRange label)
   | _ \<Rightarrow> Inl (NotANumber01 label))"

definition reject_unknown_and_missing ::
    "json \<Rightarrow> string list \<Rightarrow> string list \<Rightarrow> string \<Rightarrow> (string \<times> json) list sres" where
  "reject_unknown_and_missing data allowed required noun = (case data of
     JObj d \<Rightarrow>
       (if unknown_keys d allowed \<noteq> [] then Inl (UnknownKeys noun (unknown_keys d allowed))
        else if missing_keys d required \<noteq> [] then Inl (MissingKeys noun (missing_keys d required))
        else Inr d)
   | _ \<Rightarrow> Inl (NotAnObject noun))"

section \<open>Scoring specification\<close>

datatype scoring_type = Verdict | Exact | Rubric

record scoring_spec =
  sc_type :: scoring_type
  sc_labels :: "string list option"
  sc_regex :: bool

definition allowed_scoring_types :: "(string \<times> scoring_type) list" where
  "allowed_scoring_types = [(''verdict'', Verdict), (''exact'', Exact), (''rubric'', Rubric)]"

text \<open>The loop over the labels: \<open>seen\<close> maps a folded label to the label first seen with it.\<close>

fun label_collision :: "(string \<times> string) list \<Rightarrow> string list \<Rightarrow> (string \<times> string) option" where
  "label_collision seen [] = None"
| "label_collision seen (l # ls) =
     (case map_of seen (casefold l) of
        Some l' \<Rightarrow> Some (l', l)
      | None \<Rightarrow> label_collision ((casefold l, l) # seen) ls)"

definition scoring_labels :: "json \<Rightarrow> string list option sres" where
  "scoring_labels v =
     (if v = JNull then Inr None
      else bindE (validate_str_list v ''scoring.labels'') (\<lambda>ls.
        (case label_collision [] ls of
           Some (a, b) \<Rightarrow> Inl (LabelsCollide a b)
         | None \<Rightarrow> Inr (Some ls))))"

definition ScoringSpec_init :: "json \<Rightarrow> json \<Rightarrow> json \<Rightarrow> scoring_spec sres" where
  "ScoringSpec_init type labels regex =
     (case (case type of JStr s \<Rightarrow> map_of allowed_scoring_types s | _ \<Rightarrow> None) of
        None \<Rightarrow> Inl BadScoringType
      | Some t \<Rightarrow>
          (case regex of
             JBool b \<Rightarrow>
               (if b \<and> t \<noteq> Exact then Inl RegexNotExact
                else bindE (scoring_labels labels) (\<lambda>ls.
                  Inr \<lparr>sc_type = t, sc_labels = ls, sc_regex = b\<rparr>))
           | _ \<Rightarrow> Inl RegexNotBool))"

definition scoring_fields :: "string list" where
  "scoring_fields = [''type'', ''labels'', ''regex'']"

definition ScoringSpec_from_mapping :: "json \<Rightarrow> scoring_spec sres" where
  "ScoringSpec_from_mapping data =
     bindE (reject_unknown_and_missing data scoring_fields [''type''] ''scoring'') (\<lambda>d.
       ScoringSpec_init (fld d ''type'') (fld_default d ''labels'' JNull)
         (fld_default d ''regex'' (JBool False)))"

section \<open>Items\<close>

record item =
  it_id :: string
  it_tags :: "string list"
  it_prompt :: string
  it_expected :: string
  it_prior :: flt
  it_provenance :: string

definition Item_init ::
    "externals \<Rightarrow> json \<Rightarrow> json \<Rightarrow> json \<Rightarrow> json \<Rightarrow> json \<Rightarrow> json \<Rightarrow> item sres" where
  "Item_init ext iid tags prompt expected difficulty_prior provenance =
     bindE (validate_safe_name ext iid ''item id'') (\<lambda>i.
     bindE (validate_str_list tags ''item tags'') (\<lambda>ts.
     bindE (validate_nonempty_str prompt ''item prompt'') (\<lambda>p.
     bindE (validate_nonempty_str expected ''item expected'') (\<lambda>e.
     bindE (validate_unit_float difficulty_prior ''item difficulty_prior'') (\<lambda>d.
     bindE (validate_nonempty_str provenance ''item provenance'') (\<lambda>v.
       Inr \<lparr>it_id = i, it_tags = ts, it_prompt = p, it_expected = e, it_prior = d,
            it_provenance = v\<rparr>))))))"

definition item_fields :: "string list" where
  "item_fields = [''id'', ''tags'', ''prompt'', ''expected'', ''difficulty_prior'', ''provenance'']"

definition Item_from_mapping :: "externals \<Rightarrow> json \<Rightarrow> item sres" where
  "Item_from_mapping ext data =
     bindE (reject_unknown_and_missing data item_fields item_fields ''item'') (\<lambda>d.
       Item_init ext (fld d ''id'') (fld d ''tags'') (fld d ''prompt'') (fld d ''expected'')
         (fld d ''difficulty_prior'') (fld d ''provenance''))"

section \<open>Suites\<close>

record suite =
  su_name :: string
  su_version :: int
  su_description :: string
  su_domain :: string
  su_scoring :: scoring_spec
  su_items :: "item list"

text \<open>The ids met a second time, as the set the loop collects.\<close>

definition duplicate_ids :: "string list \<Rightarrow> string list" where
  "duplicate_ids ids = sort (fromkeys (filter (\<lambda>i. 1 < count_list ids i) ids))"

definition compile_exact_pattern :: "externals \<Rightarrow> string \<Rightarrow> (string \<Rightarrow> bool) option" where
  "compile_exact_pattern ext expected = re_compile ext (strip expected)"

definition check_item_regex :: "externals \<Rightarrow> item \<Rightarrow> unit sres" where
  "check_item_regex ext it =
     checkE (compile_exact_pattern ext (it_expected it) \<noteq> None)
       (BadItemRegex (it_id it) (it_expected it))"

definition Suite_init ::
    "externals \<Rightarrow> json \<Rightarrow> json \<Rightarrow> json \<Rightarrow> json \<Rightarrow> scoring_spec \<Rightarrow> item list \<Rightarrow> suite sres" where
  "Suite_init ext name version description domain scoring items =
     bindE (validate_safe_name ext name ''suite name'') (\<lambda>n.
     bindE (validate_int_at_least version ''suite version'' 1) (\<lambda>v.
     bindE (validate_nonempty_str description ''suite description'') (\<lambda>de.
     bindE (validate_nonempty_str domain ''suite domain'') (\<lambda>dm.
     bindE (checkE (items \<noteq> []) NoItems) (\<lambda>_.
     bindE (let dupes = duplicate_ids (map it_id items) in
            checkE (dupes = []) (DuplicateIds dupes)) (\<lambda>_.
     bindE (if sc_regex scoring then seqE (map (check_item_regex ext) items) else Inr ()) (\<lambda>_.
       Inr \<lparr>su_name = n, su_version = v, su_description = de, su_domain = dm,
            su_scoring = scoring, su_items = items\<rparr>)))))))"

definition suite_fields :: "string list" where
  "suite_fields = [''suite'', ''version'', ''description'', ''domain'', ''scoring'', ''items'']"

definition Suite_from_mapping :: "externals \<Rightarrow> json \<Rightarrow> suite sres" where
  "Suite_from_mapping ext data =
     bindE (reject_unknown_and_missing data suite_fields suite_fields ''suite'') (\<lambda>d.
     bindE (ScoringSpec_from_mapping (fld d ''scoring'')) (\<lambda>scoring.
       (case fld d ''items'' of
          JList raw \<Rightarrow>
            bindE (mapE (Item_from_mapping ext) raw) (\<lambda>items.
              Suite_init ext (fld d ''suite'') (fld d ''version'') (fld d ''description'')
                (fld d ''domain'') scoring items)
        | _ \<Rightarrow> Inl ItemsNotAList)))"

section \<open>Serialisation and the canonical item hash\<close>

definition item_asdict :: "item \<Rightarrow> json" where
  "item_asdict it = JObj [
     (''id'', JStr (it_id it)), (''tags'', strs_json (it_tags it)),
     (''prompt'', JStr (it_prompt it)), (''expected'', JStr (it_expected it)),
     (''difficulty_prior'', JFloat (it_prior it)), (''provenance'', JStr (it_provenance it))]"

fun scoring_type_name :: "scoring_type \<Rightarrow> string" where
  "scoring_type_name Verdict = ''verdict''"
| "scoring_type_name Exact = ''exact''"
| "scoring_type_name Rubric = ''rubric''"

definition scoring_asdict :: "scoring_spec \<Rightarrow> json" where
  "scoring_asdict sc = JObj [
     (''type'', JStr (scoring_type_name (sc_type sc))),
     (''labels'', case sc_labels sc of None \<Rightarrow> JNull | Some ls \<Rightarrow> strs_json ls),
     (''regex'', JBool (sc_regex sc))]"

definition suite_asdict :: "suite \<Rightarrow> json" where
  "suite_asdict s = JObj [
     (''suite'', JStr (su_name s)), (''version'', JInt (su_version s)),
     (''description'', JStr (su_description s)), (''domain'', JStr (su_domain s)),
     (''scoring'', scoring_asdict (su_scoring s)),
     (''items'', JList (map item_asdict (su_items s)))]"

definition canonical_items :: "item list \<Rightarrow> string" where
  "canonical_items items = canonical_dumps (JList (map item_asdict items))"

definition suite_hash :: "externals \<Rightarrow> item list \<Rightarrow> string" where
  "suite_hash ext items = sha256_hex ext (canonical_items items)"

definition item_hash :: "externals \<Rightarrow> suite \<Rightarrow> string" where
  "item_hash ext s = suite_hash ext (su_items s)"

section \<open>The loader\<close>

text \<open>
  The \<open>except\<close> clause names \<open>OSError\<close>, \<open>UnicodeDecodeError\<close>, \<open>JSONDecodeError\<close> and
  \<open>RecursionError\<close>.  The integer-digit \<open>ValueError\<close> of the JSON reader is none of these: it leaves
  the function as it is.
\<close>

datatype suite_exn = SuiteError suite_error | SuiteValueError

definition load_suite :: "externals \<Rightarrow> nat \<Rightarrow> file_read \<Rightarrow> (suite_exn, suite) res" where
  "load_suite ext limit file = (case file of
     NoFile \<Rightarrow> Inl (SuiteError SuiteFileNotFound)
   | OSFailure \<Rightarrow> Inl (SuiteError CouldNotReadSuite)
   | NotUtf8 \<Rightarrow> Inl (SuiteError CouldNotReadSuite)
   | FileText text \<Rightarrow>
       (case loads limit text of
          Inl JSONDecodeError \<Rightarrow> Inl (SuiteError CouldNotReadSuite)
        | Inl JRecursionError \<Rightarrow> Inl (SuiteError CouldNotReadSuite)
        | Inl IntDigitsError \<Rightarrow> Inl SuiteValueError
        | Inr raw \<Rightarrow>
            (if is_obj raw then map_errE SuiteError (Suite_from_mapping ext raw)
             else Inl (SuiteError SuiteNotAnObject))))"

definition validate :: "externals \<Rightarrow> nat \<Rightarrow> file_read \<Rightarrow> (suite_exn, suite) res" where
  "validate ext limit file = load_suite ext limit file"

section \<open>What a validated suite satisfies\<close>

definition safe_name_ok :: "externals \<Rightarrow> string \<Rightarrow> bool" where
  "safe_name_ok ext s \<longleftrightarrow> s \<noteq> [] \<and> sb_safe_name ext s \<and> list_ex isalnum s"

definition prior_ok :: "flt \<Rightarrow> bool" where
  "prior_ok f \<longleftrightarrow> rat_le_flt 0 f \<and> flt_le_rat f 1"

definition item_ok :: "externals \<Rightarrow> item \<Rightarrow> bool" where
  "item_ok ext it \<longleftrightarrow> safe_name_ok ext (it_id it) \<and> [] \<notin> set (it_tags it) \<and> it_prompt it \<noteq> []
     \<and> it_expected it \<noteq> [] \<and> prior_ok (it_prior it) \<and> it_provenance it \<noteq> []"

definition labels_ok :: "string list \<Rightarrow> bool" where
  "labels_ok ls \<longleftrightarrow> [] \<notin> set ls \<and> distinct (map casefold ls)"

definition scoring_ok :: "scoring_spec \<Rightarrow> bool" where
  "scoring_ok sc \<longleftrightarrow> (sc_regex sc \<longrightarrow> sc_type sc = Exact)
     \<and> (case sc_labels sc of None \<Rightarrow> True | Some ls \<Rightarrow> labels_ok ls)"

definition suite_ok :: "externals \<Rightarrow> suite \<Rightarrow> bool" where
  "suite_ok ext s \<longleftrightarrow> safe_name_ok ext (su_name s) \<and> 1 \<le> su_version s \<and> su_description s \<noteq> []
     \<and> su_domain s \<noteq> [] \<and> scoring_ok (su_scoring s) \<and> su_items s \<noteq> []
     \<and> list_all (item_ok ext) (su_items s) \<and> distinct (map it_id (su_items s))
     \<and> (sc_regex (su_scoring s) \<longrightarrow>
          list_all (\<lambda>it. compile_exact_pattern ext (it_expected it) \<noteq> None) (su_items s))"

lemma validate_safe_name_Inr: "validate_safe_name ext v l = Inr s \<longleftrightarrow> v = JStr s \<and> safe_name_ok ext s"
  by (cases v) (auto simp: validate_safe_name_def safe_name_ok_def)

lemma validate_nonempty_str_Inr: "validate_nonempty_str v l = Inr s \<longleftrightarrow> v = JStr s \<and> s \<noteq> []"
  by (cases v) (auto simp: validate_nonempty_str_def)

lemma validate_strs_from_Inr:
  "validate_strs_from i vs l = Inr ss \<longleftrightarrow> vs = map JStr ss \<and> [] \<notin> set ss"
proof (induction vs arbitrary: i ss)
  case Nil
  then show ?case by auto
next
  case (Cons v vs)
  then show ?case
    by (cases ss) (auto simp: bindE_Inr_iff validate_nonempty_str_Inr)
qed

lemma validate_str_list_Inr:
  "validate_str_list v l = Inr ss \<longleftrightarrow> v = strs_json ss \<and> [] \<notin> set ss"
  by (cases v) (auto simp: validate_str_list_def validate_strs_from_Inr strs_json_def)

lemma validate_int_at_least_Inr: "validate_int_at_least v l m = Inr n \<longleftrightarrow> v = JInt n \<and> m \<le> n"
  by (cases v) (auto simp: validate_int_at_least_def)

lemma flt_of_int_01: "flt_of_int 0 = Fin False 0 0" "flt_of_int 1 = Fin False 1 0"
  by (simp_all add: flt_of_int_def mk_flt_def norm_dec.simps)

lemma validate_unit_float_Inr: "validate_unit_float v l = Inr f \<Longrightarrow> prior_ok f"
proof (cases v)
  case (JInt n)
  assume a: "validate_unit_float v l = Inr f"
  with JInt have "n = 0 \<or> n = 1" and "f = flt_of_int n"
    by (auto simp: validate_unit_float_def split: if_splits)
  then show ?thesis by (auto simp: prior_ok_def flt_of_int_01 pow10_def)
qed (auto simp: validate_unit_float_def prior_ok_def split: if_splits)

lemma validate_unit_float_JFloat: "prior_ok f \<Longrightarrow> validate_unit_float (JFloat f) l = Inr f"
  by (simp add: validate_unit_float_def prior_ok_def)

lemma reject_unknown_and_missing_Inr:
  "reject_unknown_and_missing j a r n = Inr d \<longleftrightarrow>
     j = JObj d \<and> set (keys d) \<subseteq> set a \<and> set r \<subseteq> set (keys d)"
  by (cases j) (auto simp: reject_unknown_and_missing_def unknown_keys_Nil_iff missing_keys_Nil_iff)

lemma label_collision_None:
  "label_collision seen ls = None \<longleftrightarrow>
     distinct (map casefold ls) \<and> casefold ` set ls \<inter> fst ` set seen = {}"
proof (induction seen ls rule: label_collision.induct)
  case (1 seen)
  then show ?case by simp
next
  case (2 seen l ls)
  show ?case
  proof (cases "map_of seen (casefold l)")
    case None
    then have "casefold l \<notin> fst ` set seen" by (simp add: map_of_eq_None_iff)
    with "2.IH" [OF None] None show ?thesis by auto
  next
    case (Some a)
    then have "casefold l \<in> fst ` set seen" by (force dest: map_of_SomeD)
    with Some show ?thesis by auto
  qed
qed

lemma collision_case_Inr:
  "(case label_collision [] ls of Some (a, b) \<Rightarrow> Inl (LabelsCollide a b) | None \<Rightarrow> Inr (Some ls)) = Inr r
     \<longleftrightarrow> distinct (map casefold ls) \<and> r = Some ls"
  using label_collision_None [of "[]" ls] by (cases "label_collision [] ls") auto

lemma scoring_labels_Inr:
  "scoring_labels v = Inr r \<longleftrightarrow>
     (case r of None \<Rightarrow> v = JNull | Some ls \<Rightarrow> v = strs_json ls \<and> labels_ok ls)"
  by (cases r) (auto simp: scoring_labels_def bindE_Inr_iff validate_str_list_Inr collision_case_Inr
      labels_ok_def strs_json_def)

lemma map_of_scoring_types:
  "map_of allowed_scoring_types s = Some t \<longleftrightarrow> s = scoring_type_name t"
  by (cases t) (auto simp: allowed_scoring_types_def split: if_splits)

lemma map_of_scoring_name [simp]: "map_of allowed_scoring_types (scoring_type_name t) = Some t"
  "map_of allowed_scoring_types ''exact'' = Some Exact"
  by (simp_all add: map_of_scoring_types)

lemma scoring_type_name_inj [simp]: "scoring_type_name t = scoring_type_name u \<longleftrightarrow> t = u"
  by (cases t; cases u) simp_all

lemma scoring_type_name_exact [simp]: "scoring_type_name t = ''exact'' \<longleftrightarrow> t = Exact"
  "''exact'' = scoring_type_name t \<longleftrightarrow> t = Exact"
  by (cases t; simp)+

lemma ScoringSpec_init_Inr:
  "ScoringSpec_init ty ls rx = Inr sc \<longleftrightarrow>
     ty = JStr (scoring_type_name (sc_type sc)) \<and> rx = JBool (sc_regex sc)
     \<and> scoring_labels ls = Inr (sc_labels sc) \<and> (sc_regex sc \<longrightarrow> sc_type sc = Exact)"
  by (cases sc) (auto simp: ScoringSpec_init_def bindE_Inr_iff map_of_scoring_types
      split: json.splits option.splits)

lemma ScoringSpec_init_ok: "ScoringSpec_init ty ls rx = Inr sc \<Longrightarrow> scoring_ok sc"
  by (auto simp: ScoringSpec_init_Inr scoring_labels_Inr scoring_ok_def split: option.splits)

lemma Item_init_ok: "Item_init ext i t p e d v = Inr it \<Longrightarrow> item_ok ext it"
  by (auto simp: Item_init_def bindE_Inr_iff validate_safe_name_Inr validate_str_list_Inr
      validate_nonempty_str_Inr item_ok_def dest: validate_unit_float_Inr)

lemma Item_from_mapping_ok: "Item_from_mapping ext j = Inr it \<Longrightarrow> item_ok ext it"
  by (auto simp: Item_from_mapping_def bindE_Inr_iff dest: Item_init_ok)

lemma count_list_gt1: "(\<exists>x \<in> set xs. 1 < count_list xs x) \<longleftrightarrow> \<not> distinct xs"
proof (induction xs)
  case Nil
  then show ?case by simp
next
  case (Cons x xs)
  then show ?case by (auto simp: count_list_0_iff)
qed

lemma duplicate_ids_Nil: "duplicate_ids ids = [] \<longleftrightarrow> distinct ids"
  using count_list_gt1 [of ids] by (auto simp: duplicate_ids_def filter_empty_conv)

lemma check_item_regex_Inr:
  "check_item_regex ext it = Inr () \<longleftrightarrow> compile_exact_pattern ext (it_expected it) \<noteq> None"
  by (simp add: check_item_regex_def checkE_Inr_iff)

lemma Suite_init_Inr:
  "Suite_init ext n v de dm sc its = Inr s \<longleftrightarrow>
     n = JStr (su_name s) \<and> v = JInt (su_version s) \<and> de = JStr (su_description s)
     \<and> dm = JStr (su_domain s) \<and> sc = su_scoring s \<and> its = su_items s
     \<and> safe_name_ok ext (su_name s) \<and> 1 \<le> su_version s \<and> su_description s \<noteq> [] \<and> su_domain s \<noteq> []
     \<and> its \<noteq> [] \<and> distinct (map it_id its)
     \<and> (sc_regex sc \<longrightarrow> list_all (\<lambda>it. compile_exact_pattern ext (it_expected it) \<noteq> None) its)"
  by (cases s) (auto simp: Suite_init_def bindE_Inr_iff validate_safe_name_Inr
      validate_int_at_least_Inr validate_nonempty_str_Inr checkE_Inr_iff duplicate_ids_Nil Let_def
      seqE_Inr_iff list_all_iff check_item_regex_Inr split: if_splits)

lemma Suite_from_mapping_Inr:
  assumes "Suite_from_mapping ext j = Inr s"
  obtains d raw where "ScoringSpec_from_mapping (fld d ''scoring'') = Inr (su_scoring s)"
    and "mapE (Item_from_mapping ext) raw = Inr (su_items s)"
    and "Suite_init ext (fld d ''suite'') (fld d ''version'') (fld d ''description'')
           (fld d ''domain'') (su_scoring s) (su_items s) = Inr s"
proof -
  from assms obtain d sc where sc: "ScoringSpec_from_mapping (fld d ''scoring'') = Inr sc"
    and r: "(case fld d ''items'' of JList raw \<Rightarrow> bindE (mapE (Item_from_mapping ext) raw) (\<lambda>items.
        Suite_init ext (fld d ''suite'') (fld d ''version'') (fld d ''description'')
          (fld d ''domain'') sc items) | _ \<Rightarrow> Inl ItemsNotAList) = Inr s"
    unfolding Suite_from_mapping_def bindE_Inr_iff by blast
  from r obtain raw its where "mapE (Item_from_mapping ext) raw = Inr its"
    and "Suite_init ext (fld d ''suite'') (fld d ''version'') (fld d ''description'')
          (fld d ''domain'') sc its = Inr s"
    by (cases "fld d ''items''") (simp_all only: json.case bindE_Inr_iff, blast+)
  moreover from this have "sc = su_scoring s" "its = su_items s" by (simp_all add: Suite_init_Inr)
  ultimately show thesis using that sc by blast
qed

lemma ScoringSpec_from_mapping_ok: "ScoringSpec_from_mapping j = Inr sc \<Longrightarrow> scoring_ok sc"
  by (auto simp: ScoringSpec_from_mapping_def bindE_Inr_iff dest: ScoringSpec_init_ok)

lemma scoring_roundtrip: "scoring_ok sc \<Longrightarrow> ScoringSpec_from_mapping (scoring_asdict sc) = Inr sc"
  by (cases "sc_labels sc")
    (auto simp: ScoringSpec_from_mapping_def scoring_asdict_def bindE_Inr_iff
      reject_unknown_and_missing_Inr scoring_fields_def keys_def fld_Cons fld_default_Cons
      ScoringSpec_init_Inr scoring_labels_Inr scoring_ok_def)

lemma item_roundtrip: "item_ok ext it \<Longrightarrow> Item_from_mapping ext (item_asdict it) = Inr it"
  by (auto simp: Item_from_mapping_def item_asdict_def bindE_Inr_iff
      reject_unknown_and_missing_Inr item_fields_def keys_def fld_Cons Item_init_def
      validate_safe_name_Inr validate_str_list_Inr validate_nonempty_str_Inr
      validate_unit_float_JFloat item_ok_def)

interpretation scoring: mapping_codec scoring_asdict ScoringSpec_from_mapping scoring_ok
  by unfold_locales (simp_all add: ScoringSpec_from_mapping_ok scoring_roundtrip)

interpretation items: mapping_codec item_asdict "Item_from_mapping ext" "item_ok ext" for ext
  by unfold_locales (simp_all add: Item_from_mapping_ok item_roundtrip)

lemma Suite_from_mapping_sound:
  assumes "Suite_from_mapping ext j = Inr s" shows "suite_ok ext s"
  using assms
proof (rule Suite_from_mapping_Inr)
  fix d raw
  assume "ScoringSpec_from_mapping (fld d ''scoring'') = Inr (su_scoring s)"
    and "mapE (Item_from_mapping ext) raw = Inr (su_items s)"
    and "Suite_init ext (fld d ''suite'') (fld d ''version'') (fld d ''description'')
           (fld d ''domain'') (su_scoring s) (su_items s) = Inr s"
  then show ?thesis
    by (simp add: Suite_init_Inr suite_ok_def ScoringSpec_from_mapping_ok items.list_from_ok)
qed

section \<open>Snapshots read back\<close>

lemma Suite_from_mapping_asdict:
  "suite_ok ext s \<Longrightarrow> Suite_from_mapping ext (suite_asdict s) = Inr s"
  by (auto simp: Suite_from_mapping_def suite_asdict_def bindE_Inr_iff
      reject_unknown_and_missing_Inr suite_fields_def keys_def fld_Cons scoring_roundtrip
      items.list_from_to Suite_init_Inr suite_ok_def)

interpretation suites: mapping_codec suite_asdict "Suite_from_mapping ext" "suite_ok ext" for ext
  by unfold_locales (simp_all add: Suite_from_mapping_sound Suite_from_mapping_asdict)

section \<open>The hash names the items\<close>

lemma sort_item_asdict:
  "sort_json (item_asdict it) = JObj [
     (''difficulty_prior'', JFloat (it_prior it)), (''expected'', JStr (it_expected it)),
     (''id'', JStr (it_id it)), (''prompt'', JStr (it_prompt it)),
     (''provenance'', JStr (it_provenance it)), (''tags'', strs_json (it_tags it))]"
  by (simp add: item_asdict_def strs_json_def comp_def)

lemma strs_json_inj [simp]: "strs_json xs = strs_json ys \<longleftrightarrow> xs = ys"
  by (simp add: strs_json_def inj_map_eq_map inj_def)

lemma sort_item_inj: "sort_json (item_asdict a) = sort_json (item_asdict b) \<longleftrightarrow> a = b"
  by (cases a; cases b) (auto simp: sort_item_asdict)

lemma json_ok_strs: "json_ok (strs_json xs)"
  by (simp add: strs_json_def list_all_iff)

lemma item_json_ok: "flt_ok (it_prior it) \<Longrightarrow> json_ok (item_asdict it)"
  by (simp add: item_asdict_def json_ok_strs)

lemma canonical_items_inj:
  assumes ok: "list_all (\<lambda>it. flt_ok (it_prior it)) (as @ bs)"
    and eq: "canonical_items as = canonical_items bs"
  shows "as = bs"
proof -
  have "json_ok (JList (map item_asdict as))" "json_ok (JList (map item_asdict bs))"
    using ok by (auto simp: list_all_iff item_json_ok)
  from canonical_dumps_inj [OF this] eq
  have "map (\<lambda>it. sort_json (item_asdict it)) as = map (\<lambda>it. sort_json (item_asdict it)) bs"
    by (simp add: canonical_items_def comp_def)
  moreover have "inj (\<lambda>it. sort_json (item_asdict it))" by (simp add: inj_def sort_item_inj)
  ultimately show ?thesis by (simp add: inj_map_eq_map)
qed

section \<open>Properties\<close>

definition sample_suite_text :: string where
  "sample_suite_text = ''{\"suite\": \"s-1\", \"version\": 2, \"description\": \"d\", \"domain\": \"x\", ''
     @ ''\"scoring\": {\"type\": \"verdict\", \"labels\": [\"pass\", \"flag\"]}, \"items\": [''
     @ ''{\"id\": \"i1\", \"tags\": [\"a\"], \"prompt\": \"p?\", \"expected\": \"pass\", ''
     @ ''\"difficulty_prior\": 1, \"provenance\": \"authored\"}]}''"

definition sample_item :: item where
  "sample_item = \<lparr>it_id = ''i1'', it_tags = [''a''], it_prompt = ''p?'', it_expected = ''pass'',
     it_prior = Fin False 1 0, it_provenance = ''authored''\<rparr>"

definition sample_suite :: suite where
  "sample_suite = \<lparr>su_name = ''s-1'', su_version = 2, su_description = ''d'', su_domain = ''x'',
     su_scoring = \<lparr>sc_type = Verdict, sc_labels = Some [''pass'', ''flag''], sc_regex = False\<rparr>,
     su_items = [sample_item]\<rparr>"

lemma load_sample: "load_suite documented_ext 9 (FileText sample_suite_text) = Inr sample_suite"
  by code_simp

text \<open>C1: a suite the loader returns satisfies the whole schema: safe names with an alphanumeric
  character, a version of at least 1, non-empty texts, priors within the unit interval, labels
  distinct after case folding, the regex flag on exact scoring only, unique item ids, at least one
  item, and every pattern of a regex suite compiles.\<close>

theorem load_suite_sound:
  assumes "load_suite ext limit file = Inr s" shows "suite_ok ext s"
  using assms
  by (auto simp: load_suite_def map_errE_Inr_iff split: file_read.splits sum.splits json_exn.splits
      if_splits dest: Suite_from_mapping_sound)

theorem load_suite_sound_witness: "suite_ok documented_ext sample_suite"
  by (rule load_suite_sound [OF load_sample])

text \<open>the snapshot a run stores of its suite (\<open>asdict\<close>) is accepted by \<open>Suite.from_mapping\<close> and
  gives the same suite back, so its item hash is the hash of the suite that was measured.\<close>

theorem suite_snapshot_roundtrip:
  assumes "load_suite ext limit file = Inr s"
  shows "Suite_from_mapping ext (suite_asdict s) = Inr s"
proof -
  have "suite_ok ext s"
    using assms by (auto simp: load_suite_def map_errE_Inr_iff dest: Suite_from_mapping_sound
        split: file_read.splits sum.splits json_exn.splits if_splits)
  then show ?thesis by (rule Suite_from_mapping_asdict)
qed

theorem suite_snapshot_roundtrip_witness:
  "Suite_from_mapping documented_ext (suite_asdict sample_suite) = Inr sample_suite"
  by (rule suite_snapshot_roundtrip [OF load_sample])

text \<open>the item hash identifies the instrument: two different item lists never have the same
  canonical text, so equal hashes of different items would be a collision of SHA-256 itself.\<close>

theorem suite_hash_identifies_items:
  assumes "list_all (\<lambda>it. flt_ok (it_prior it)) (as @ bs)" and "as \<noteq> bs"
  shows "canonical_items as \<noteq> canonical_items bs \<and>
    (suite_hash ext as = suite_hash ext bs \<longrightarrow>
       (\<exists>x y. x \<noteq> y \<and> sha256_hex ext x = sha256_hex ext y))"
  using canonical_items_inj [OF assms(1)] assms(2) by (auto simp: suite_hash_def)

theorem suite_hash_identifies_items_witness:
  "canonical_items [sample_item] \<noteq> canonical_items [sample_item\<lparr>it_expected := ''flag''\<rparr>]"
  using suite_hash_identifies_items [of "[sample_item]" "[sample_item\<lparr>it_expected := ''flag''\<rparr>]"
      documented_ext]
  by (simp add: sample_item_def)

text \<open>the loader's contract that every failure is a \<open>SuiteError\<close> has one hole: an integer literal
  of more than 4300 digits makes the JSON reader raise a plain \<open>ValueError\<close>, which the \<open>except\<close>
  clause does not name, and nothing else leaves the loader as anything but a \<open>SuiteError\<close>.\<close>

theorem load_suite_escape:
  "load_suite ext (Suc limit) (FileText (big_int_object ''version'')) = Inl SuiteValueError \<and>
   (load_suite ext limit file = Inl SuiteValueError \<longleftrightarrow>
      (case file of FileText text \<Rightarrow> loads limit text = Inl IntDigitsError | _ \<Rightarrow> False))"
  by (auto simp: load_suite_def loads_big_int map_errE_Inl_iff
      split: file_read.splits sum.splits json_exn.splits if_splits)

end
