(* ===== verification/Scoring.thy ===== *)
theory Scoring
  imports Suite
begin

text \<open>
  src/measure_twice/scoring/deterministic.py: the verdict parse spine (JSON objects, labeled lines,
  prose), the verdict and exact scorers, the suite score and the dispatcher, and the scorer seam of
  src/measure_twice/runner.py that they fill.  A scorer is a function of the item and the raw
  response; the exceptions it can raise are \<open>Inl\<close> values.

  The recursion limit of the JSON reader is the argument \<open>limit\<close>.  Case-insensitive matching
  compares lower-case code points, which is what the regular-expression engine does on the text
  of the model.
\<close>

section \<open>The scorer seam\<close>

record outcome =
  oc_parsed :: "string option"
  oc_score :: "flt option"
  oc_scorer :: "string option"

datatype scoring_error =
    NoLabels
  | ReservedLabel
  | BadExactPattern string
  | EmptyScores
  | RubricNotImplemented   \<comment> \<open>\<open>NotImplementedError\<close>\<close>

type_synonym scorer = "item \<Rightarrow> string \<Rightarrow> (scoring_error, outcome) res"

definition NO_RESPONSE_SCORER :: string where
  "NO_RESPONSE_SCORER = ''no_response''"

definition VERDICT_SCORER :: string where
  "VERDICT_SCORER = ''verdict''"

definition EXACT_SCORER :: string where
  "EXACT_SCORER = ''exact''"

definition PARSE_FAIL_MARKER :: string where
  "PARSE_FAIL_MARKER = ''parse_fail''"

definition collect_only_scorer :: scorer where
  "collect_only_scorer it response_raw =
     Inr \<lparr>oc_parsed = None, oc_score = None, oc_scorer = None\<rparr>"

definition flt_zero :: flt where
  "flt_zero = Fin False 0 0"

definition flt_one :: flt where
  "flt_one = Fin False 1 0"

section \<open>The verdict parse spine\<close>

text \<open>A JSON \<open>null\<close> and a fault both come back as Python's \<open>None\<close>.\<close>

definition try_json :: "nat \<Rightarrow> string \<Rightarrow> json option" where
  "try_json limit candidate = (case loads limit candidate of
     Inl _ \<Rightarrow> None
   | Inr JNull \<Rightarrow> None
   | Inr j \<Rightarrow> Some j)"

text \<open>The scan of \<open>_json_object_spans\<close> from index \<open>i\<close>: depth, start, in a string, after a backslash.\<close>

fun spans_from ::
    "nat \<Rightarrow> nat \<Rightarrow> nat option \<Rightarrow> bool \<Rightarrow> bool \<Rightarrow> string \<Rightarrow> (nat \<times> nat) list" where
  "spans_from i dep start in_str escape [] = []"
| "spans_from i dep start in_str escape (ch # cs) =
     (if in_str then
        (if escape then spans_from (Suc i) dep start True False cs
         else if ch = CHR 0x5C then spans_from (Suc i) dep start True True cs
         else if ch = CHR 0x22 then spans_from (Suc i) dep start False escape cs
         else spans_from (Suc i) dep start True escape cs)
      else if ch = CHR 0x22 then spans_from (Suc i) dep start True escape cs
      else if ch = CHR ''{'' then
        spans_from (Suc i) (Suc dep) (if dep = 0 then Some i else start) False escape cs
      else if ch = CHR ''}'' \<and> 0 < dep then
        (case start of
           Some st \<Rightarrow>
             (if dep - 1 = 0 then (st, Suc i) # spans_from (Suc i) (dep - 1) None False escape cs
              else spans_from (Suc i) (dep - 1) start False escape cs)
         | None \<Rightarrow> spans_from (Suc i) (dep - 1) start False escape cs)
      else spans_from (Suc i) dep start False escape cs)"

definition json_object_spans :: "string \<Rightarrow> (nat \<times> nat) list" where
  "json_object_spans resp = spans_from 0 0 None False False resp"

definition slice :: "string \<Rightarrow> nat \<Rightarrow> nat \<Rightarrow> string" where
  "slice resp a b = take (b - a) (drop a resp)"

fun outside_parts :: "nat \<Rightarrow> string \<Rightarrow> nat \<Rightarrow> (nat \<times> nat) list \<Rightarrow> string list" where
  "outside_parts limit resp prev [] = [drop prev resp]"
| "outside_parts limit resp prev ((a, b) # spans) =
     (if try_json limit (slice resp a b) \<noteq> None
      then slice resp prev a # '' '' # outside_parts limit resp b spans
      else outside_parts limit resp prev spans)"

definition text_outside_valid_json :: "nat \<Rightarrow> string \<Rightarrow> (nat \<times> nat) list \<Rightarrow> string" where
  "text_outside_valid_json limit resp spans = concat (outside_parts limit resp 0 spans)"

text \<open>A literal matched case-insensitively at the head of a text: the rest after it.\<close>

fun strip_ci :: "string \<Rightarrow> string \<Rightarrow> string option" where
  "strip_ci [] s = Some s"
| "strip_ci (p # ps) (c # cs) = (if lower_char p = lower_char c then strip_ci ps cs else None)"
| "strip_ci (p # ps) [] = None"

definition word_here :: "char option \<Rightarrow> string \<Rightarrow> string \<Rightarrow> bool" where
  "word_here prev w s =
     ((case prev of None \<Rightarrow> True | Some c \<Rightarrow> \<not> is_ascii_alnum c) \<and>
      (case strip_ci w s of
         None \<Rightarrow> False
       | Some [] \<Rightarrow> True
       | Some (c # _) \<Rightarrow> \<not> is_ascii_alnum c))"

text \<open>\<open>re.search\<close> of the escaped label between the two look-arounds.\<close>

fun word_in :: "char option \<Rightarrow> string \<Rightarrow> string \<Rightarrow> bool" where
  "word_in prev w [] = word_here prev w []"
| "word_in prev w (c # cs) = (word_here prev w (c # cs) \<or> word_in (Some c) w cs)"

fun labels_present_acc :: "string \<Rightarrow> string list \<Rightarrow> string list \<Rightarrow> string list" where
  "labels_present_acc resp found [] = found"
| "labels_present_acc resp found (l # ls) =
     labels_present_acc resp (if word_in None l resp \<and> l \<notin> set found then found @ [l] else found) ls"

definition labels_present :: "string \<Rightarrow> string list \<Rightarrow> string list" where
  "labels_present resp labels = labels_present_acc resp [] labels"

definition unique_label :: "string \<Rightarrow> string list \<Rightarrow> string option" where
  "unique_label resp labels = (case labels_present resp labels of [l] \<Rightarrow> Some l | _ \<Rightarrow> None)"

definition single_or_conflict :: "string list \<Rightarrow> string option \<times> bool" where
  "single_or_conflict found =
     (case fromkeys found of [l] \<Rightarrow> (Some l, False) | d \<Rightarrow> (None, 2 \<le> length d))"

definition verdict_key_priority :: "string list" where
  "verdict_key_priority = [''verdict'', ''label'', ''answer'', ''classification'']"

text \<open>The inner loop over the key priority: the first key whose string value resolves.\<close>

fun first_resolved :: "(string \<times> json) list \<Rightarrow> string list \<Rightarrow> string list \<Rightarrow> string option" where
  "first_resolved lowered labels [] = None"
| "first_resolved lowered labels (k # ks) =
     (case map_of lowered k of
        Some (JStr v) \<Rightarrow>
          (case unique_label v labels of
             Some l \<Rightarrow> Some l
           | None \<Rightarrow> first_resolved lowered labels ks)
      | _ \<Rightarrow> first_resolved lowered labels ks)"

definition lowered_keys :: "(string \<times> json) list \<Rightarrow> (string \<times> json) list" where
  "lowered_keys d = dict_of (map (\<lambda>(k, v). (casefold k, v)) d)"

definition object_label :: "nat \<Rightarrow> string list \<Rightarrow> string \<Rightarrow> string option" where
  "object_label limit labels candidate = (case try_json limit candidate of
     Some (JObj d) \<Rightarrow> first_resolved (lowered_keys d) labels verdict_key_priority
   | _ \<Rightarrow> None)"

definition json_labels :: "nat \<Rightarrow> string \<Rightarrow> string list \<Rightarrow> (nat \<times> nat) list \<Rightarrow> string list" where
  "json_labels limit resp labels spans =
     concat (map (\<lambda>(a, b). case object_label limit labels (slice resp a b) of
       Some l \<Rightarrow> [l] | None \<Rightarrow> []) spans)"

text \<open>
  \<open>_LABELED_LINE_RE\<close> on one line: the pattern spans no line break, so its matches are the lines that
  start with a keyword, a colon or an equals sign; the group is the rest without the white space
  at its ends.
\<close>

fun strip_ci_any :: "string list \<Rightarrow> string \<Rightarrow> string option" where
  "strip_ci_any [] s = None"
| "strip_ci_any (w # ws) s = (case strip_ci w s of Some r \<Rightarrow> Some r | None \<Rightarrow> strip_ci_any ws s)"

definition labeled_line :: "string \<Rightarrow> string option" where
  "labeled_line l = (case strip_ci_any verdict_key_priority (lstrip l) of
     None \<Rightarrow> None
   | Some r \<Rightarrow>
       (case lstrip r of
          [] \<Rightarrow> None
        | c # v \<Rightarrow> if c = CHR '':'' \<or> c = CHR ''='' then Some (strip v) else None))"

definition labeled_values :: "string \<Rightarrow> string list" where
  "labeled_values resp = concat (map (\<lambda>l. case labeled_line l of Some v \<Rightarrow> [v] | None \<Rightarrow> [])
     (split_on newline resp))"

definition line_labels :: "string \<Rightarrow> string list \<Rightarrow> string list" where
  "line_labels resp labels = concat (map (\<lambda>v. case unique_label v labels of
     Some l \<Rightarrow> [l] | None \<Rightarrow> []) (labeled_values resp))"

definition extract_verdict_label :: "nat \<Rightarrow> string \<Rightarrow> string list \<Rightarrow> string option" where
  "extract_verdict_label limit response_raw labels =
     (if labels = [] then None
      else
        let spans = json_object_spans response_raw in
        case single_or_conflict (json_labels limit response_raw labels spans) of
          (Some l, _) \<Rightarrow> Some l
        | (None, True) \<Rightarrow> None
        | (None, False) \<Rightarrow>
            (case single_or_conflict (line_labels response_raw labels) of
               (Some l, _) \<Rightarrow> Some l
             | (None, True) \<Rightarrow> None
             | (None, False) \<Rightarrow>
                 unique_label (text_outside_valid_json limit response_raw spans) labels))"

section \<open>The scorers\<close>

definition score_verdict :: "nat \<Rightarrow> string list \<Rightarrow> scorer" where
  "score_verdict limit labels it response_raw =
     (case extract_verdict_label limit response_raw labels of
        None \<Rightarrow> Inr \<lparr>oc_parsed = Some PARSE_FAIL_MARKER, oc_score = Some flt_zero,
                     oc_scorer = Some VERDICT_SCORER\<rparr>
      | Some l \<Rightarrow>
          Inr \<lparr>oc_parsed = Some l,
               oc_score = Some (if casefold (strip l) = casefold (strip (it_expected it))
                                then flt_one else flt_zero),
               oc_scorer = Some VERDICT_SCORER\<rparr>)"

definition exact_match ::
    "externals \<Rightarrow> string \<Rightarrow> string \<Rightarrow> bool \<Rightarrow> (scoring_error, bool) res" where
  "exact_match ext response_raw expected regex =
     (if regex then
        (case compile_exact_pattern ext expected of
           None \<Rightarrow> Inl (BadExactPattern expected)
         | Some fullmatch \<Rightarrow> Inr (fullmatch (strip response_raw)))
      else Inr (casefold (strip response_raw) = casefold (strip expected)))"

definition score_exact :: "externals \<Rightarrow> bool \<Rightarrow> scorer" where
  "score_exact ext regex it response_raw =
     bindE (exact_match ext response_raw (it_expected it) regex) (\<lambda>matched.
       Inr \<lparr>oc_parsed = Some (if matched then ''match'' else ''no_match''),
            oc_score = Some (if matched then flt_one else flt_zero),
            oc_scorer = Some EXACT_SCORER\<rparr>)"

text \<open>\<open>statistics.mean\<close> is exact; the two roundings of the float result are not modelled.\<close>

definition suite_score :: "rat list \<Rightarrow> (scoring_error, rat) res" where
  "suite_score item_scores =
     (if item_scores = [] then Inl EmptyScores
      else Inr (100 * (sum_list item_scores / of_nat (length item_scores))))"

definition make_deterministic_scorer ::
    "externals \<Rightarrow> nat \<Rightarrow> scoring_spec \<Rightarrow> (scoring_error, scorer) res" where
  "make_deterministic_scorer ext limit scoring = (case sc_type scoring of
     Verdict \<Rightarrow>
       (case sc_labels scoring of
          None \<Rightarrow> Inl NoLabels
        | Some labels \<Rightarrow>
            (if labels = [] then Inl NoLabels
             else if list_ex (\<lambda>l. casefold l = PARSE_FAIL_MARKER) labels then Inl ReservedLabel
             else Inr (score_verdict limit labels)))
   | Exact \<Rightarrow> Inr (score_exact ext (sc_regex scoring))
   | Rubric \<Rightarrow> Inl RubricNotImplemented)"

section \<open>Labels in a text\<close>

lemma labels_present_acc_set:
  "set (labels_present_acc resp found ls) = set found \<union> {l \<in> set ls. word_in None l resp}"
  by (induction resp found ls rule: labels_present_acc.induct) auto

lemma labels_present_acc_distinct:
  "distinct found \<Longrightarrow> distinct (labels_present_acc resp found ls)"
  by (induction resp found ls rule: labels_present_acc.induct) auto

lemma set_labels_present: "set (labels_present resp ls) = {l \<in> set ls. word_in None l resp}"
  by (simp add: labels_present_def labels_present_acc_set)

lemma distinct_singleton: "distinct xs \<Longrightarrow> set xs = {x} \<longleftrightarrow> xs = [x]"
proof (cases xs)
  case (Cons a as)
  assume "distinct xs"
  with Cons show ?thesis by (cases as) auto
qed simp

lemma list_case_single: "(case xs of [x] \<Rightarrow> Some x | _ \<Rightarrow> None) = Some l \<longleftrightarrow> xs = [l]"
  by (auto split: list.splits)

lemma unique_label_Some:
  "unique_label resp ls = Some l \<longleftrightarrow>
     l \<in> set ls \<and> word_in None l resp \<and> (\<forall>l' \<in> set ls. word_in None l' resp \<longrightarrow> l' = l)"
proof -
  have "distinct (labels_present resp ls)"
    by (simp add: labels_present_def labels_present_acc_distinct)
  then have "unique_label resp ls = Some l \<longleftrightarrow> set (labels_present resp ls) = {l}"
    by (simp add: unique_label_def list_case_single distinct_singleton)
  then show ?thesis by (auto simp: set_labels_present)
qed

lemma unique_label_mem: "unique_label resp ls = Some l \<Longrightarrow> l \<in> set ls"
  by (simp add: unique_label_Some)

lemma strip_ci_refl: "strip_ci w w = Some []"
  by (induction w) auto

lemma word_in_self: "word_in None w w"
proof -
  have "word_here None w w" by (simp add: word_here_def strip_ci_refl)
  then show ?thesis by (cases w) auto
qed

lemma unique_label_self:
  "l \<in> set ls \<Longrightarrow> (\<And>l'. l' \<in> set ls \<Longrightarrow> word_in None l' l \<Longrightarrow> l' = l) \<Longrightarrow> unique_label l ls = Some l"
  by (auto simp: unique_label_Some word_in_self)

lemma single_or_conflict_iff:
  "single_or_conflict found =
     (if \<exists>l. set found = {l} then (Some (the_elem (set found)), False)
      else (None, found \<noteq> []))"
proof (cases "fromkeys found")
  case Nil
  then show ?thesis by (simp add: single_or_conflict_def)
next
  case (Cons a as)
  have d: "distinct (fromkeys found)" by simp
  show ?thesis
  proof (cases as)
    case Nil
    with Cons set_fromkeys [of found] have "set found = {a}" by (simp del: set_fromkeys)
    with Cons Nil show ?thesis by (simp add: single_or_conflict_def)
  next
    fix b bs assume as: "as = b # bs"
    have "set found \<noteq> {l}" for l
    proof
      assume "set found = {l}"
      with distinct_singleton [OF d, of l] have "fromkeys found = [l]"
        by (simp only: set_fromkeys simp_thms)
      with Cons as show False by simp
    qed
    moreover have "found \<noteq> []" using Cons by auto
    ultimately show ?thesis using Cons as by (simp add: single_or_conflict_def)
  qed
qed

lemma single_or_conflict_Nil [simp]: "single_or_conflict [] = (None, False)"
  by (simp add: single_or_conflict_iff)

lemma single_or_conflict_mem: "single_or_conflict found = (Some l, b) \<Longrightarrow> l \<in> set found"
  by (auto simp: single_or_conflict_iff split: if_splits)

lemma single_or_conflict_one: "set found = {l} \<Longrightarrow> single_or_conflict found = (Some l, False)"
  by (simp add: single_or_conflict_iff)


lemma first_resolved_Cons:
  "first_resolved d ls (k # ks) = Some l \<Longrightarrow>
     (\<exists>v. unique_label v ls = Some l) \<or> first_resolved d ls ks = Some l"
proof (cases "map_of d k")
  case (Some j)
  assume "first_resolved d ls (k # ks) = Some l"
  with Some show ?thesis
    by (cases j) (auto split: option.splits)
qed simp

lemma first_resolved_mem: "first_resolved d ls ks = Some l \<Longrightarrow> l \<in> set ls"
proof (induction ks)
  case (Cons k ks)
  from first_resolved_Cons [OF Cons.prems] Cons.IH show ?case by (blast dest: unique_label_mem)
qed simp

lemma object_label_mem: "object_label limit ls c = Some l \<Longrightarrow> l \<in> set ls"
  by (simp add: object_label_def first_resolved_mem split: option.split_asm json.split_asm)

lemma mem_option_concat:
  "l \<in> set (concat (map (\<lambda>x. case f x of Some l \<Rightarrow> [l] | None \<Rightarrow> []) xs)) \<longleftrightarrow> (\<exists>x \<in> set xs. f x = Some l)"
  by (induction xs) (auto split: option.splits)

lemma json_labels_eq:
  "json_labels limit resp ls spans = concat (map (\<lambda>ab. case object_label limit ls (slice resp (fst ab) (snd ab)) of
     Some l \<Rightarrow> [l] | None \<Rightarrow> []) spans)"
  by (simp only: json_labels_def case_prod_unfold)

lemma json_labels_mem: "l \<in> set (json_labels limit resp ls spans) \<Longrightarrow> l \<in> set ls"
  by (simp only: json_labels_eq mem_option_concat) (blast dest: object_label_mem)

lemma line_labels_mem: "l \<in> set (line_labels resp ls) \<Longrightarrow> l \<in> set ls"
  by (simp only: line_labels_def mem_option_concat) (blast dest: unique_label_mem)

lemma extract_mem:
  assumes "extract_verdict_label limit resp ls = Some l"
  shows "l \<in> set ls"
  using assms
  by (auto simp: extract_verdict_label_def Let_def split: if_splits option.splits prod.splits bool.splits
      dest: single_or_conflict_mem json_labels_mem line_labels_mem unique_label_mem)

section \<open>Scanning printed JSON\<close>

text \<open>Inside an object the scan passes over \<open>w\<close> without a span and in the same state.\<close>

definition skips :: "string \<Rightarrow> bool" where
  "skips w \<longleftrightarrow> (\<forall>i dep start r. spans_from i (Suc dep) start False False (w @ r)
     = spans_from (i + length w) (Suc dep) start False False r)"

definition no_braces :: "string \<Rightarrow> bool" where
  "no_braces w = list_all (\<lambda>c. c \<noteq> CHR 0x22 \<and> c \<noteq> CHR ''{'' \<and> c \<noteq> CHR ''}'') w"

lemma spans_no_braces: "no_braces w \<Longrightarrow>
  spans_from i dep start False False (w @ r) = spans_from (i + length w) dep start False False r"
  by (induction w arbitrary: i) (auto simp: no_braces_def)

lemma skips_no_braces: "no_braces w \<Longrightarrow> skips w"
  by (simp add: skips_def spans_no_braces)

lemma skips_append: "skips v \<Longrightarrow> skips w \<Longrightarrow> skips (v @ w)"
  by (simp add: skips_def add.assoc)

lemma skips_Nil: "skips []"
  by (simp add: skips_def)

lemma skips_join: "skips sep \<Longrightarrow> list_all skips ws \<Longrightarrow> skips (join sep ws)"
  by (induction sep ws rule: join.induct) (auto intro: skips_append skips_Nil)

lemma hex_digit_plain: "d < 16 \<Longrightarrow> hex_digit d \<noteq> CHR 0x22 \<and> hex_digit d \<noteq> CHR 0x5C"
proof -
  assume "d < 16"
  then have "code_pt (hex_digit d) \<in> {48..57} \<union> {97..102}"
    by (auto simp: hex_digit_def of_char_of)
  then show ?thesis by auto
qed

lemma spans_esc_char:
  "spans_from i dep start True False (esc_char c @ r)
     = spans_from (i + length (esc_char c)) dep start True False r"
proof -
  have "code_pt c div 16 < 16" using code_pt_less [of c] by (simp add: less_mult_imp_div_less)
  then show ?thesis
    using hex_digit_plain [of "code_pt c div 16"] hex_digit_plain [of "code_pt c mod 16"]
    by (simp add: esc_char_def)
qed

lemma spans_dump_str:
  "spans_from i dep start False False (dump_str s @ r)
     = spans_from (i + length (dump_str s)) dep start False False r"
proof -
  have "spans_from i dep start True False (concat (map esc_char s) @ r)
      = spans_from (i + length (concat (map esc_char s))) dep start True False r" for i r
    by (induction s arbitrary: i) (simp_all add: spans_esc_char add.assoc)
  then show ?thesis by (simp add: dump_str_def)
qed

lemma skips_dump_str: "skips (dump_str s)"
  by (simp add: skips_def spans_dump_str)

lemma no_braces_digits: "list_all is_digit s \<Longrightarrow> no_braces s"
  by (auto simp: no_braces_def list_all_iff is_digit_def in_rng_def)

lemma no_braces_append [simp]: "no_braces (v @ w) \<longleftrightarrow> no_braces v \<and> no_braces w"
  by (simp add: no_braces_def)

lemma no_braces_Cons [simp]:
  "no_braces (c # w) \<longleftrightarrow> c \<noteq> CHR 0x22 \<and> c \<noteq> CHR ''{'' \<and> c \<noteq> CHR ''}'' \<and> no_braces w"
  "no_braces []"
  by (auto simp: no_braces_def)

lemma no_braces_show_nat [simp]: "no_braces (show_nat n)"
  by (rule no_braces_digits [OF show_nat_digits])

lemma no_braces_take_drop [simp]: "no_braces w \<Longrightarrow> no_braces (take n w)" "no_braces w \<Longrightarrow> no_braces (drop n w)"
  by (simp_all add: no_braces_def list_all_take_drop)

lemma no_braces_replicate [simp]: "no_braces (replicate n (CHR ''0''))"
  by (simp add: no_braces_def list_all_iff)

lemma no_braces_dump_flt: "no_braces (dump_flt f)"
  by (cases f) (simp_all add: dump_dec_def show_exp_def Let_def)

lemma skips_braces:
  assumes "skips w"
  shows "skips (CHR ''{'' # w @ ''}'')"
  using assms by (auto simp: skips_def split: option.splits)

lemma skips_dumps:
  assumes "skips isep" "skips ksep"
  shows "skips (dumps_with isep ksep j)"
proof (induction j)
  case (JList xs)
  then have "skips (join isep (map (dumps_with isep ksep) xs))"
    using assms(1) by (intro skips_join) (auto simp: list_all_iff)
  moreover have "skips ''[''" and "skips '']''" by (simp_all add: skips_no_braces)
  ultimately show ?case by (simp only: dumps_with.simps) (intro skips_append)
next
  case (JObj kvs)
  have "skips (dump_str (fst kv) @ ksep @ dumps_with isep ksep (snd kv))" if "kv \<in> set kvs" for kv
    using JObj [of kv "snd kv"] that assms(2) by (cases kv) (simp add: skips_append skips_dump_str)
  then have "skips (join isep (map (\<lambda>kv. dump_str (fst kv) @ ksep @ dumps_with isep ksep (snd kv)) kvs))"
    using assms(1) by (intro skips_join) (auto simp: list_all_iff)
  from skips_braces [OF this] show ?case by simp
qed (auto intro: skips_no_braces skips_dump_str no_braces_dump_flt simp: show_int_def)

section \<open>Responses with embedded objects\<close>

text \<open>Prose, then printed objects, each followed by prose.\<close>

type_synonym embedded = "((string \<times> json) list \<times> string) list"

definition response_of :: "string \<Rightarrow> embedded \<Rightarrow> string" where
  "response_of pre segs = pre @ concat (map (\<lambda>(d, t). dumps (JObj d) @ t) segs)"

definition prose_of :: "string \<Rightarrow> embedded \<Rightarrow> string" where
  "prose_of pre segs = pre @ concat (map (\<lambda>(d, t). '' '' @ t) segs)"

definition embeddable :: "nat \<Rightarrow> string \<Rightarrow> embedded \<Rightarrow> bool" where
  "embeddable limit pre segs \<longleftrightarrow> no_braces pre \<and>
     (\<forall>(d, t) \<in> set segs. json_ok (JObj d) \<and> depth (JObj d) \<le> limit \<and> no_braces t)"

definition object_verdicts :: "string list \<Rightarrow> embedded \<Rightarrow> string list" where
  "object_verdicts labels segs = concat (map (\<lambda>(d, t).
     case first_resolved (lowered_keys d) labels verdict_key_priority of
       Some l \<Rightarrow> [l] | None \<Rightarrow> []) segs)"

fun seg_spans :: "nat \<Rightarrow> embedded \<Rightarrow> (nat \<times> nat) list" where
  "seg_spans i [] = []"
| "seg_spans i ((d, t) # segs) =
     (let n = length (dumps (JObj d)) in (i, i + n) # seg_spans (i + n + length t) segs)"

lemma spans_object:
  "spans_from i 0 None False False (dumps (JObj d) @ r)
     = (i, i + length (dumps (JObj d))) # spans_from (i + length (dumps (JObj d))) 0 None False False r"
proof -
  let ?w = "join '', '' (map (\<lambda>kv. dump_str (fst kv) @ '': '' @ dumps_with '', '' '': '' (snd kv)) d)"
  have sep: "skips '', ''" "skips '': ''" by (simp_all add: skips_no_braces)
  have "skips (dump_str (fst kv) @ '': '' @ dumps_with '', '' '': '' (snd kv))" for kv
    by (intro skips_append skips_dump_str sep skips_dumps)
  then have w: "skips ?w" by (intro skips_join sep) (auto simp: list_all_iff)
  have d: "dumps (JObj d) = CHR ''{'' # ?w @ ''}''" by (simp add: dumps_def)
  from w have "spans_from (Suc i) 1 (Some i) False False (?w @ ''}'' @ r)
      = spans_from (Suc i + length ?w) 1 (Some i) False False (''}'' @ r)"
    unfolding skips_def One_nat_def by blast
  then show ?thesis unfolding d by simp
qed

lemma spans_segs:
  assumes "\<forall>(d, t) \<in> set segs. no_braces t"
  shows "spans_from i 0 None False False (concat (map (\<lambda>(d, t). dumps (JObj d) @ t) segs)) = seg_spans i segs"
  using assms
proof (induction segs arbitrary: i)
  case (Cons s segs)
  obtain d t where s: "s = (d, t)" by (cases s)
  from Cons show ?case by (auto simp: s spans_object spans_no_braces Let_def add.assoc)
qed simp

lemma json_object_spans_response:
  assumes "embeddable limit pre segs"
  shows "json_object_spans (response_of pre segs) = seg_spans (length pre) segs"
  using assms spans_segs [of segs "length pre"]
  by (auto simp: json_object_spans_def response_of_def embeddable_def spans_no_braces)

lemma slice_append: "slice (done @ w @ r) (length done) (length done + length w) = w"
  by (simp add: slice_def)

lemma try_json_dumps:
  "json_ok (JObj d) \<Longrightarrow> depth (JObj d) \<le> limit \<Longrightarrow> try_json limit (dumps (JObj d)) = Some (JObj d)"
  by (simp only: try_json_def loads_dumps sum.case json.case)

lemma json_labels_segs:
  assumes "\<forall>(d, t) \<in> set segs. json_ok (JObj d) \<and> depth (JObj d) \<le> limit"
  shows "json_labels limit (done @ concat (map (\<lambda>(d, t). dumps (JObj d) @ t) segs)) labels
      (seg_spans (length done) segs) = object_verdicts labels segs"
  using assms
proof (induction segs arbitrary: "done")
  case Nil
  then show ?case by (simp add: json_labels_def object_verdicts_def)
next
  case (Cons s segs)
  obtain d t where s: "s = (d, t)" by (cases s)
  let ?o = "dumps (JObj d)" and ?rest = "concat (map (\<lambda>(d, t). dumps (JObj d) @ t) segs)"
  from Cons.prems have ok: "json_ok (JObj d)" "depth (JObj d) \<le> limit" by (auto simp: s)
  have IH: "json_labels limit ((done @ ?o @ t) @ ?rest) labels
      (seg_spans (length (done @ ?o @ t)) segs) = object_verdicts labels segs"
    by (rule Cons.IH) (use Cons.prems in auto)
  have sl: "slice (done @ ?o @ t @ ?rest) (length done) (length done + length ?o) = ?o"
    by (rule slice_append)
  have "object_label limit labels ?o = first_resolved (lowered_keys d) labels verdict_key_priority"
    by (simp only: object_label_def try_json_dumps [OF ok] option.case json.case)
  with IH sl show ?case
    by (simp add: s json_labels_def object_verdicts_def Let_def add.assoc del: depth.simps)
qed

lemma json_labels_response:
  "embeddable limit pre segs \<Longrightarrow>
     json_labels limit (response_of pre segs) labels (seg_spans (length pre) segs)
       = object_verdicts labels segs"
  unfolding response_of_def by (rule json_labels_segs) (auto simp: embeddable_def)

lemma outside_segs:
  assumes "\<forall>(d, t) \<in> set segs. json_ok (JObj d) \<and> depth (JObj d) \<le> limit"
  shows "concat (outside_parts limit (done @ w @ concat (map (\<lambda>(d, t). dumps (JObj d) @ t) segs))
      (length done) (seg_spans (length done + length w) segs)) = prose_of w segs"
  using assms
proof (induction segs arbitrary: "done" w)
  case Nil
  then show ?case by (simp add: prose_of_def)
next
  case (Cons s segs)
  obtain d t where s: "s = (d, t)" by (cases s)
  let ?o = "dumps (JObj d)" and ?rest = "concat (map (\<lambda>(d, t). dumps (JObj d) @ t) segs)"
  from Cons.prems have ok: "json_ok (JObj d)" "depth (JObj d) \<le> limit" by (auto simp: s)
  have IH: "concat (outside_parts limit ((done @ w @ ?o) @ t @ ?rest) (length (done @ w @ ?o))
      (seg_spans (length (done @ w @ ?o) + length t) segs)) = prose_of t segs"
    by (rule Cons.IH) (use Cons.prems in auto)
  have "slice ((done @ w) @ ?o @ t @ ?rest) (length (done @ w)) (length (done @ w) + length ?o) = ?o"
    by (rule slice_append)
  moreover have "slice (done @ w @ ?o @ t @ ?rest) (length done) (length done + length w) = w"
    by (rule slice_append)
  ultimately show ?case
    using IH try_json_dumps [OF ok] by (simp add: s prose_of_def Let_def add.assoc del: depth.simps)
qed

lemma text_outside_response:
  assumes "embeddable limit pre segs"
  shows "text_outside_valid_json limit (response_of pre segs) (seg_spans (length pre) segs) = prose_of pre segs"
proof -
  have "\<forall>(d, t) \<in> set segs. json_ok (JObj d) \<and> depth (JObj d) \<le> limit"
    using assms by (auto simp: embeddable_def)
  from outside_segs [OF this, of "[]" pre] show ?thesis
    by (simp add: text_outside_valid_json_def response_of_def)
qed

lemma extract_response:
  assumes "embeddable limit pre segs" and "labels \<noteq> []"
  shows "extract_verdict_label limit (response_of pre segs) labels =
    (case single_or_conflict (object_verdicts labels segs) of
       (Some l, _) \<Rightarrow> Some l
     | (None, True) \<Rightarrow> None
     | (None, False) \<Rightarrow>
         (case single_or_conflict (line_labels (response_of pre segs) labels) of
            (Some l, _) \<Rightarrow> Some l
          | (None, True) \<Rightarrow> None
          | (None, False) \<Rightarrow> unique_label (prose_of pre segs) labels))"
  using assms
  by (simp only: extract_verdict_label_def if_False Let_def json_object_spans_response
      json_labels_response text_outside_response)

section \<open>The seam as a contract\<close>

text \<open>
  What the runner relies on when it calls a scorer on a real response: no exception, a score that
  is absent, 0 or 1, and never the scorer name reserved for the forced zero.
\<close>

definition unit_score :: "flt option \<Rightarrow> bool" where
  "unit_score s \<longleftrightarrow> s = None \<or> s = Some flt_zero \<or> s = Some flt_one"

locale scorer_seam =
  fixes sc :: scorer and fit :: "item \<Rightarrow> bool"
  assumes total: "fit it \<Longrightarrow> \<exists>oc. sc it resp = Inr oc"
    and tag: "sc it resp = Inr oc \<Longrightarrow> oc_scorer oc \<noteq> Some NO_RESPONSE_SCORER"
    and unit: "sc it resp = Inr oc \<Longrightarrow> unit_score (oc_score oc)"
begin

lemma scored:
  assumes "fit it"
  obtains oc where "sc it resp = Inr oc" and "oc_scorer oc \<noteq> Some NO_RESPONSE_SCORER"
    and "unit_score (oc_score oc)"
  using total [OF assms] tag unit by blast

end

lemma score_verdict_Inr:
  "score_verdict limit labels it resp = Inr oc \<longleftrightarrow>
     oc = (case extract_verdict_label limit resp labels of
        None \<Rightarrow> \<lparr>oc_parsed = Some PARSE_FAIL_MARKER, oc_score = Some flt_zero,
                  oc_scorer = Some VERDICT_SCORER\<rparr>
      | Some l \<Rightarrow> \<lparr>oc_parsed = Some l,
               oc_score = Some (if casefold (strip l) = casefold (strip (it_expected it))
                                then flt_one else flt_zero),
               oc_scorer = Some VERDICT_SCORER\<rparr>)"
  by (auto simp: score_verdict_def split: option.splits)

lemma tags_distinct [simp]:
  "VERDICT_SCORER \<noteq> NO_RESPONSE_SCORER" "EXACT_SCORER \<noteq> NO_RESPONSE_SCORER"
  by (simp_all add: VERDICT_SCORER_def EXACT_SCORER_def NO_RESPONSE_SCORER_def)

interpretation verdict: scorer_seam "score_verdict limit labels" "\<lambda>_. True" for limit labels
  by unfold_locales (auto simp: score_verdict_def unit_score_def split: option.splits)

definition pattern_fits :: "externals \<Rightarrow> bool \<Rightarrow> item \<Rightarrow> bool" where
  "pattern_fits ext regex it \<longleftrightarrow> (regex \<longrightarrow> compile_exact_pattern ext (it_expected it) \<noteq> None)"

interpretation exact: scorer_seam "score_exact ext regex" "pattern_fits ext regex" for ext regex
  by unfold_locales
    (auto simp: score_exact_def exact_match_def bindE_Inr_iff unit_score_def pattern_fits_def
      split: option.splits if_splits)

interpretation collect_only: scorer_seam collect_only_scorer "\<lambda>_. True"
  by unfold_locales (auto simp: collect_only_scorer_def unit_score_def)

lemma make_scorer_cases:
  assumes "make_deterministic_scorer ext limit sp = Inr sc"
  obtains (verdict) labels where "sc_type sp = Verdict" "sc_labels sp = Some labels" "labels \<noteq> []"
      "\<forall>l \<in> set labels. casefold l \<noteq> PARSE_FAIL_MARKER" "sc = score_verdict limit labels"
  | (exact) "sc_type sp = Exact" "sc = score_exact ext (sc_regex sp)"
  using assms
  by (auto simp: make_deterministic_scorer_def list_ex_iff
      split: scoring_type.splits option.splits if_splits)

section \<open>Normalisation\<close>

lemma dropWhile_all_append: "list_all P w \<Longrightarrow> dropWhile P (w @ r) = dropWhile P r"
  by (induction w) auto

lemma dropWhile_snoc_all:
  "list_all P w \<Longrightarrow> dropWhile P (r @ w) = (if dropWhile P r = [] then [] else dropWhile P r @ w)"
  by (induction r) (auto simp: dropWhile_eq_Nil_conv list_all_iff)

lemma strip_pad:
  assumes "list_all isspace v" "list_all isspace w"
  shows "strip (v @ r @ w) = strip r"
proof -
  have "strip (v @ r @ w) = rstrip (dropWhile isspace (r @ w))"
    by (simp add: strip_def lstrip_def dropWhile_all_append assms(1))
  also have "\<dots> = rstrip (dropWhile isspace r)"
    using assms(2)
    by (cases "dropWhile isspace r = []")
      (simp_all only: dropWhile_snoc_all rstrip_def dropWhile_all_append list_all_rev rev_append
        simp_thms if_True if_False)
  finally show ?thesis by (simp add: strip_def lstrip_def)
qed

lemma casefold_strip_self: "casefold PARSE_FAIL_MARKER = PARSE_FAIL_MARKER"
  by code_simp

section \<open>Properties\<close>


text \<open>A labeled line is read as it stands, so a key of an object on it does name a label.\<close>

lemma labeled_line_reads_keys:
  "extract_verdict_label 5 (''VERDICT: '' @ dumps (JObj [(''flag'', JBool True)])) [''pass'', ''flag''] = Some ''flag''"
  by code_simp



text \<open>The canonical answer is read back: prose around \<open>{"verdict": l}\<close> for a label \<open>l\<close> of the suite
  yields exactly \<open>l\<close>, as long as no other label occurs in \<open>l\<close> as a whole word.\<close>

theorem verdict_answer_roundtrip:
  assumes "no_braces pre" and "no_braces post" and "l \<in> set labels"
    and "\<And>l'. l' \<in> set labels \<Longrightarrow> word_in None l' l \<Longrightarrow> l' = l" and "0 < limit"
  shows "extract_verdict_label limit (pre @ dumps (JObj [(''verdict'', JStr l)]) @ post) labels = Some l"
proof -
  have "embeddable limit pre [([(''verdict'', JStr l)], post)]"
    using assms(1,2,5) by (simp add: embeddable_def)
  moreover have "lowered_keys [(''verdict'', JStr l)] = [(''verdict'', JStr l)]"
    by (simp add: lowered_keys_def dict_of_def) code_simp
  then have "object_verdicts labels [([(''verdict'', JStr l)], post)] = [l]"
    using unique_label_self [OF assms(3,4)]
    by (simp add: object_verdicts_def verdict_key_priority_def)
  moreover have "labels \<noteq> []" using assms(3) by auto
  ultimately show ?thesis
    using extract_response [of limit pre "[([(''verdict'', JStr l)], post)]" labels]
    by (simp add: response_of_def single_or_conflict_one)
qed

theorem verdict_answer_roundtrip_witness:
  "extract_verdict_label 1 (''Sure: '' @ dumps (JObj [(''verdict'', JStr ''flag'')]) @ '' (pass?)'')
     [''pass'', ''flag''] = Some ''flag''"
  by (rule verdict_answer_roundtrip) (auto simp: word_here_def is_ascii_alnum_def, code_simp+)

text \<open>A scorer built for a loaded suite never raises, whatever the response: every response to an
  item of the suite gets a score of 0 or 1 under a scorer name that is not the reserved one.\<close>

theorem loaded_scorer_total:
  assumes "load_suite ext limit file = Inr s"
    and "make_deterministic_scorer ext limit (su_scoring s) = Inr sc" and "it \<in> set (su_items s)"
  shows "\<exists>oc. sc it resp = Inr oc \<and> oc_score oc \<in> {Some flt_zero, Some flt_one} \<and>
    oc_scorer oc \<noteq> Some NO_RESPONSE_SCORER"
proof -
  have "suite_ok ext s"
    using assms(1) by (auto simp: load_suite_def map_errE_Inr_iff dest: Suite_from_mapping_sound
        split: file_read.splits sum.splits json_exn.splits if_splits)
  then have fits: "pattern_fits ext (sc_regex (su_scoring s)) it"
    using assms(3) by (auto simp: suite_ok_def pattern_fits_def list_all_iff)
  from assms(2) show ?thesis
  proof (cases rule: make_scorer_cases)
    case (verdict labels)
    then show ?thesis by (auto simp: score_verdict_def split: option.splits)
  next
    case exact
    from exact.scored [OF fits, of resp] obtain oc where oc: "score_exact ext (sc_regex (su_scoring s)) it resp = Inr oc"
      by blast
    then obtain b where "exact_match ext resp (it_expected it) (sc_regex (su_scoring s)) = Inr b"
      by (auto simp: score_exact_def bindE_Inr_iff)
    then show ?thesis using exact by (simp add: score_exact_def)
  qed
qed

lemma sample_scorer:
  "make_deterministic_scorer documented_ext 9 (su_scoring sample_suite)
     = Inr (score_verdict 9 [''pass'', ''flag''])"
  by (simp add: make_deterministic_scorer_def sample_suite_def) code_simp

theorem loaded_scorer_total_witness:
  "\<exists>oc. score_verdict 9 [''pass'', ''flag''] sample_item ''{\"verdict\": '' = Inr oc \<and>
     oc_score oc \<in> {Some flt_zero, Some flt_one} \<and> oc_scorer oc \<noteq> Some NO_RESPONSE_SCORER"
  by (rule loaded_scorer_total [OF load_sample sample_scorer]) (simp add: sample_suite_def)

text \<open>Parse failures stay countable: under a verdict scorer the recorded value is the parse-failure
  marker exactly when no verdict was extracted, and otherwise it is one of the suite's labels, scored
  1 exactly when it is the item's expected label up to case and outer white space.\<close>

theorem parse_fail_countable:
  assumes "make_deterministic_scorer ext limit sp = Inr sc" and "sc_type sp = Verdict"
    and "sc_labels sp = Some labels" and "sc it resp = Inr oc"
  shows "(case extract_verdict_label limit resp labels of
      None \<Rightarrow> oc_parsed oc = Some PARSE_FAIL_MARKER \<and> oc_score oc = Some flt_zero
    | Some l \<Rightarrow> l \<in> set labels \<and> oc_parsed oc = Some l \<and> l \<noteq> PARSE_FAIL_MARKER \<and>
        (oc_score oc = Some flt_one \<longleftrightarrow> casefold (strip l) = casefold (strip (it_expected it))))"
  using assms(1)
proof (cases rule: make_scorer_cases)
  case (verdict ls)
  with assms(3) have [simp]: "ls = labels" by simp
  show ?thesis
  proof (cases "extract_verdict_label limit resp labels")
    case None
    with verdict assms(4) show ?thesis by (auto simp: score_verdict_Inr)
  next
    case (Some l)
    then have l: "l \<in> set labels" by (rule extract_mem)
    with verdict(4) casefold_strip_self have "l \<noteq> PARSE_FAIL_MARKER" by auto
    with verdict assms(4) Some l show ?thesis
      by (auto simp: score_verdict_Inr flt_zero_def flt_one_def)
  qed
qed (use assms(2) in simp)

theorem parse_fail_countable_witness:
  "score_verdict 9 [''pass'', ''flag''] sample_item ''pass or flag''
     = Inr \<lparr>oc_parsed = Some PARSE_FAIL_MARKER, oc_score = Some flt_zero,
            oc_scorer = Some VERDICT_SCORER\<rparr>"
proof -
  have "extract_verdict_label 9 ''pass or flag'' [''pass'', ''flag''] = None" by code_simp
  moreover obtain oc where oc: "score_verdict 9 [''pass'', ''flag''] sample_item ''pass or flag'' = Inr oc"
    using verdict.total by blast
  moreover have "sc_type (su_scoring sample_suite) = Verdict"
      "sc_labels (su_scoring sample_suite) = Some [''pass'', ''flag'']"
    by (simp_all add: sample_suite_def)
  ultimately have "oc_parsed oc = Some PARSE_FAIL_MARKER \<and> oc_score oc = Some flt_zero"
    using parse_fail_countable [OF sample_scorer _ _ oc] by fastforce
  then show ?thesis using oc by (cases oc) (auto simp: score_verdict_Inr split: option.splits)
qed

text \<open>Exact scoring ignores the white space around a response in both modes, literal mode also
  ignores case, and a literal match is never an error.\<close>

theorem exact_match_normalised:
  assumes "list_all isspace v" and "list_all isspace w"
  shows "exact_match ext (v @ resp @ w) expected regex = exact_match ext resp expected regex \<and>
    (\<exists>b. exact_match ext resp expected False = Inr b \<and>
         b = (casefold (strip resp) = casefold (strip expected)))"
  using strip_pad [OF assms, of resp] by (simp add: exact_match_def split: option.split)

theorem exact_match_normalised_witness:
  "exact_match documented_ext ('' PARIS'' @ [newline]) ''paris'' False = Inr True"
proof -
  have "exact_match documented_ext ('' '' @ ''PARIS'' @ [newline]) ''paris'' False
      = exact_match documented_ext ''PARIS'' ''paris'' False"
    using exact_match_normalised [of "'' ''" "[newline]" documented_ext "''PARIS''" "''paris''" False]
    by (simp add: isspace_def in_rng_def)
  moreover have "exact_match documented_ext ''PARIS'' ''paris'' False = Inr True" by code_simp
  ultimately show ?thesis by simp
qed

lemma sum_list_bounds:
  fixes xs :: "rat list"
  assumes "\<forall>x \<in> set xs. 0 \<le> x \<and> x \<le> 1"
  shows "0 \<le> sum_list xs \<and> sum_list xs \<le> of_nat (length xs)
    \<and> (sum_list xs = of_nat (length xs) \<longleftrightarrow> (\<forall>x \<in> set xs. x = 1))"
  using assms
proof (induction xs)
  case (Cons x xs)
  then have x: "0 \<le> x" "x \<le> 1" and IH: "0 \<le> sum_list xs" "sum_list xs \<le> of_nat (length xs)"
      "sum_list xs = of_nat (length xs) \<longleftrightarrow> (\<forall>x \<in> set xs. x = 1)"
    by simp_all
  have "x + sum_list xs = 1 + of_nat (length xs) \<longleftrightarrow> x = 1 \<and> sum_list xs = of_nat (length xs)"
    using x IH by linarith
  then show ?case using x IH by simp
qed simp

text \<open>The suite score of at least one score between 0 and 1 lies between 0 and 100 and is 100 exactly
  when every score is 1; without scores it is an error, not a number.\<close>

theorem suite_score_bounds:
  assumes "\<forall>x \<in> set xs. 0 \<le> x \<and> x \<le> 1"
  shows "(case suite_score xs of
      Inl e \<Rightarrow> xs = [] \<and> e = EmptyScores
    | Inr r \<Rightarrow> xs \<noteq> [] \<and> 0 \<le> r \<and> r \<le> 100 \<and> (r = 100 \<longleftrightarrow> (\<forall>x \<in> set xs. x = 1)))"
  using sum_list_bounds [OF assms] by (auto simp: suite_score_def field_simps)

theorem suite_score_bounds_witness: "suite_score [1, 0] = Inr 50"
  using suite_score_bounds [of "[1, 0]"] by (simp add: suite_score_def)

end
