(* ===== verification/Run_Store.thy ===== *)
theory Run_Store
  imports Adapters Scoring
begin

text \<open>
  src/measure_twice/runner.py, the store of one run: the row record and its JSON line, the append-only
  \<open>rows.jsonl\<close> with its reader that tolerates a torn last line, the manifest and the suite snapshot.

  The rows file is kept as text, so that a crash can cut it anywhere.  The manifest and the snapshot
  are kept as the outcome of parsing them (they are written with indentation, which the text model
  does not print).  \<open>FileText\<close> is the text as \<open>read_text\<close> returns it, line ends translated.
\<close>

section \<open>Errors\<close>

datatype run_error =
    ManifestNotFound
  | CouldNotReadManifest
  | ManifestNotAnObject
  | SelectionNotAliases string
  | BadNames config_error
  | SnapshotNotFound
  | CouldNotReadSnapshot
  | CorruptSnapshot suite_error
  | CorruptRow nat
  | InvalidRunId string
  | RunDirEscapes string
  | EmptyRoster
  | BadSamples int
  | BadMaxCalls int
  | BindingProblem string profile_error
  | ClaudePreflight setup_error
  | NoVersionEvidence
  | ReceiptNotBuilt profile_error
  | JudgesNotClaude "string list"
  | InvalidReceipt profile_error
  | ReceiptNotValidated profile_error
  | ReceiptDiffers
  | GeminiPreflight credential_error
  | LegacyPendingClaude
  | LegacyPendingLocal string
  | CannotResume string
  | HashMismatch
  | CurrentReceiptDiffers
  | RunIdCollision string
  | NoSealedRuntime
  | NoGeminiCredential
  | SweepFailed
  | CannotOpen string
  | SnapshotHashMismatch
  | UnknownItem string
  | NotRubric
  | NoJudges
  | NoStoredReceipt
  | RowCountMismatch nat nat

text \<open>What can leave the module besides \<open>RunError\<close>: exceptions that no clause catches.\<close>

datatype run_exn =
    RunError run_error
  | RawKeyError string
  | RawTypeError
  | RawValueError
  | RawOverflowError
  | RawRecursionError
  | RawOSError
  | RawDecodeError
  | RawScoringError scoring_error
  | RawAdapterError adapter_error

type_synonym 'a rres = "(run_exn, 'a) res"

section \<open>Rows\<close>

text \<open>The casts of \<open>RunRow.from_dict\<close> check nothing, so the fields are raw JSON values.\<close>

record run_row =
  rr_run_id :: json
  rr_model :: json
  rr_resolved :: json
  rr_item_id :: json
  rr_sample_k :: json
  rr_response_raw :: json
  rr_parsed :: json
  rr_score :: json
  rr_scorer :: json
  rr_judge_scores :: json
  rr_elapsed :: json
  rr_error :: json

definition row_fields :: "string list" where
  "row_fields = [''run_id'', ''model'', ''model_id_resolved'', ''item_id'', ''sample_k'',
     ''response_raw'', ''parsed'', ''score'', ''scorer'', ''judge_scores'', ''elapsed_s'', ''error'']"

definition row_json :: "run_row \<Rightarrow> json" where
  "row_json r = JObj [(''run_id'', rr_run_id r), (''model'', rr_model r),
     (''model_id_resolved'', rr_resolved r), (''item_id'', rr_item_id r), (''sample_k'', rr_sample_k r),
     (''response_raw'', rr_response_raw r), (''parsed'', rr_parsed r), (''score'', rr_score r),
     (''scorer'', rr_scorer r), (''judge_scores'', rr_judge_scores r), (''elapsed_s'', rr_elapsed r),
     (''error'', rr_error r)]"

definition to_json_line :: "run_row \<Rightarrow> string" where
  "to_json_line r = dumps (row_json r)"

text \<open>\<open>None\<close> is the \<open>KeyError\<close> of a missing field.\<close>

definition row_from_dict :: "(string \<times> json) list \<Rightarrow> run_row option" where
  "row_from_dict d =
     (if list_all (\<lambda>k. k \<in> set (keys d)) row_fields
      then Some \<lparr>rr_run_id = fld d ''run_id'', rr_model = fld d ''model'',
        rr_resolved = fld d ''model_id_resolved'', rr_item_id = fld d ''item_id'',
        rr_sample_k = fld d ''sample_k'', rr_response_raw = fld d ''response_raw'',
        rr_parsed = fld d ''parsed'', rr_score = fld d ''score'', rr_scorer = fld d ''scorer'',
        rr_judge_scores = fld d ''judge_scores'', rr_elapsed = fld d ''elapsed_s'',
        rr_error = fld d ''error''\<rparr>
      else None)"

text \<open>
  Python's equality of dictionary keys: \<open>True == 1 == 1.0\<close>.  A list or an object is unhashable.
\<close>

fun hash_key :: "json \<Rightarrow> json option" where
  "hash_key (JBool b) = Some (JInt (if b then 1 else 0))"
| "hash_key (JFloat (Fin neg m e)) =
     (if m = 0 then Some (JInt 0)
      else if 0 \<le> e then Some (JInt ((if neg then -1 else 1) * int m * 10 ^ nat e))
      else Some (JFloat (Fin neg m e)))"
| "hash_key (JList _) = None"
| "hash_key (JObj _) = None"
| "hash_key j = Some j"

type_synonym cell_key = "json \<times> json \<times> json"

definition row_cell_key :: "run_row \<Rightarrow> cell_key option" where
  "row_cell_key r = (case (hash_key (rr_model r), hash_key (rr_item_id r), hash_key (rr_sample_k r)) of
     (Some a, Some b, Some c) \<Rightarrow> Some (a, b, c)
   | _ \<Rightarrow> None)"

definition done_keys :: "run_row list \<Rightarrow> cell_key list rres" where
  "done_keys rows =
     (if list_ex (\<lambda>r. row_cell_key r = None) rows then Inl RawTypeError
      else Inr (map (\<lambda>r. the (row_cell_key r)) rows))"

section \<open>The rows file\<close>

datatype line_read = Row run_row | BadLine | LineRecursion

definition read_line :: "nat \<Rightarrow> string \<Rightarrow> line_read" where
  "read_line limit line = (case loads limit line of
     Inl JRecursionError \<Rightarrow> LineRecursion
   | Inl _ \<Rightarrow> BadLine
   | Inr (JObj d) \<Rightarrow> (case row_from_dict d of Some r \<Rightarrow> Row r | None \<Rightarrow> BadLine)
   | Inr _ \<Rightarrow> BadLine)"

text \<open>The loop from line \<open>i\<close>; \<open>ends\<close> tells that the file ended with a line break.\<close>

fun read_lines :: "nat \<Rightarrow> bool \<Rightarrow> nat \<Rightarrow> string list \<Rightarrow> run_row list rres" where
  "read_lines limit ends i [] = Inr []"
| "read_lines limit ends i (line # rest) = (case read_line limit line of
     Row r \<Rightarrow> bindE (read_lines limit ends (Suc i) rest) (\<lambda>rs. Inr (r # rs))
   | BadLine \<Rightarrow>
       (if rest = [] \<and> \<not> ends then Inr [] else Inl (RunError (CorruptRow (i + 1))))
   | LineRecursion \<Rightarrow> Inl RawRecursionError)"

definition read_rows_text :: "nat \<Rightarrow> string \<Rightarrow> (run_row list \<times> bool) rres" where
  "read_rows_text limit text =
     (if text = [] then Inr ([], False)
      else
        let raw = split_on newline text; ends = (last raw = []);
            lines = (if ends then butlast raw else raw)
        in bindE (read_lines limit ends 0 lines) (\<lambda>rows. Inr (rows, \<not> ends)))"

definition read_rows :: "nat \<Rightarrow> file_read \<Rightarrow> (run_row list \<times> bool) rres" where
  "read_rows limit file = (case file of
     NoFile \<Rightarrow> Inr ([], False)
   | OSFailure \<Rightarrow> Inl RawOSError
   | NotUtf8 \<Rightarrow> Inl RawDecodeError
   | FileText text \<Rightarrow> read_rows_text limit text)"

definition row_line :: "run_row \<Rightarrow> string" where
  "row_line r = to_json_line r @ [newline]"

definition rows_text :: "run_row list \<Rightarrow> string" where
  "rows_text rows = concat (map row_line rows)"

text \<open>\<open>_rewrite_rows\<close> replaces the file at once; \<open>_append_row\<close> adds a line to it.\<close>

definition rewrite_rows :: "run_row list \<Rightarrow> file_read" where
  "rewrite_rows rows = FileText (rows_text rows)"

definition append_row :: "file_read \<Rightarrow> run_row \<Rightarrow> file_read" where
  "append_row file r = (case file of
     FileText text \<Rightarrow> FileText (text @ row_line r)
   | NoFile \<Rightarrow> FileText (row_line r)
   | f \<Rightarrow> f)"

section \<open>Manifest and snapshot\<close>

text \<open>What \<open>json.loads(path.read_text())\<close> does: the middle three constructors are the exceptions.\<close>

datatype doc_read = NoDoc | DocUnreadable | DocIntDigits | DocRecursion | Doc json

record run_store =
  rs_manifest :: doc_read
  rs_suite :: doc_read
  rs_rows :: file_read

definition read_manifest :: "run_store \<Rightarrow> (string \<times> json) list rres" where
  "read_manifest st = (case rs_manifest st of
     NoDoc \<Rightarrow> Inl (RunError ManifestNotFound)
   | DocUnreadable \<Rightarrow> Inl (RunError CouldNotReadManifest)
   | DocIntDigits \<Rightarrow> Inl RawValueError
   | DocRecursion \<Rightarrow> Inl RawRecursionError
   | Doc (JObj d) \<Rightarrow> Inr d
   | Doc _ \<Rightarrow> Inl (RunError ManifestNotAnObject))"

definition read_suite_snapshot :: "externals \<Rightarrow> run_store \<Rightarrow> suite rres" where
  "read_suite_snapshot ext st = (case rs_suite st of
     NoDoc \<Rightarrow> Inl (RunError SnapshotNotFound)
   | DocUnreadable \<Rightarrow> Inl (RunError CouldNotReadSnapshot)
   | DocIntDigits \<Rightarrow> Inl RawValueError
   | DocRecursion \<Rightarrow> Inl RawRecursionError
   | Doc j \<Rightarrow> map_errE (\<lambda>e. RunError (CorruptSnapshot e)) (Suite_from_mapping ext j))"

definition validate_names :: "externals \<Rightarrow> string list \<Rightarrow> string \<Rightarrow> unit rres" where
  "validate_names ext names label =
     bindE (map_errE (\<lambda>e. RunError (BadNames e)) (validate_name_list ext (strs_json names) label)) (\<lambda>_. Inr ())"

definition read_manifest_selection ::
    "externals \<Rightarrow> (string \<times> json) list \<Rightarrow> string \<Rightarrow> string list rres" where
  "read_manifest_selection ext manifest label = (case fld manifest label of
     JList js \<Rightarrow>
       (if list_all is_str js then
          bindE (validate_names ext (map the_str js) label) (\<lambda>_. Inr (fromkeys (map the_str js)))
        else Inl (RunError (SelectionNotAliases label)))
   | _ \<Rightarrow> Inl (RunError (SelectionNotAliases label)))"

definition manifest_json ::
    "externals \<Rightarrow> string \<Rightarrow> suite \<Rightarrow> string list \<Rightarrow> int \<Rightarrow> string list \<Rightarrow> run_config \<Rightarrow> int
      \<Rightarrow> string option \<Rightarrow> receipt \<Rightarrow> string \<Rightarrow> json" where
  "manifest_json ext run_id s roster samples judges config max_calls prereg rc started = JObj [
     (''run_id'', JStr run_id), (''suite'', JStr (su_name s)), (''suite_hash'', JStr (item_hash ext s)),
     (''roster'', strs_json roster), (''samples_per_cell'', JInt samples), (''judges'', strs_json judges),
     (''started_utc'', JStr started), (''config_source'', JStr (cf_source config)),
     (''budgets'', JObj [(''max_calls'', JInt max_calls)]),
     (''preregistration'', case prereg of None \<Rightarrow> JNull | Some p \<Rightarrow> JStr p),
     (''execution_receipt'', Receipt_to_mapping ext rc)]"

section \<open>Rows written are rows read\<close>

definition row_ok :: "nat \<Rightarrow> run_row \<Rightarrow> bool" where
  "row_ok limit r \<longleftrightarrow> json_ok (row_json r) \<and> depth (row_json r) \<le> limit"

lemma row_roundtrip: "\<exists>d. row_json r = JObj d \<and> row_from_dict d = Some r"
  by (cases r) (simp add: row_json_def row_from_dict_def row_fields_def keys_simps fld_Cons)

lemma read_line_row: "row_ok limit r \<Longrightarrow> read_line limit (to_json_line r) = Row r"
proof -
  assume "row_ok limit r"
  then have "loads limit (to_json_line r) = Inr (row_json r)"
    by (simp add: row_ok_def to_json_line_def loads_dumps)
  moreover obtain d where "row_json r = JObj d" "row_from_dict d = Some r"
    using row_roundtrip by blast
  ultimately show ?thesis by (simp add: read_line_def)
qed

lemma read_line_torn:
  assumes "row_ok limit r" and "to_json_line r = p @ q" and "q \<noteq> []"
  shows "read_line limit p = BadLine"
proof -
  have "container (row_json r)" by (simp add: row_json_def)
  then obtain e where "loads limit p = Inl e" "e \<noteq> JRecursionError"
    using loads_prefix [of "row_json r" limit p q] assms by (auto simp: row_ok_def to_json_line_def)
  then show ?thesis by (cases e) (simp_all add: read_line_def)
qed

lemma to_json_line_props: "newline \<notin> set (to_json_line r)" "to_json_line r \<noteq> []"
  by (simp_all add: to_json_line_def dumps_no_newline)

lemma split_rows_text:
  "newline \<notin> set t \<Longrightarrow> split_on newline (rows_text rows @ t) = map to_json_line rows @ [t]"
proof (induction rows)
  case Nil
  then show ?case by (simp add: rows_text_def split_on_no_sep)
next
  case (Cons r rows)
  have "split_on newline (to_json_line r @ newline # rows_text rows @ t)
      = to_json_line r # split_on newline (rows_text rows @ t)"
    by (rule split_on_append_sep) (rule to_json_line_props)
  with Cons show ?case by (simp add: rows_text_def row_line_def)
qed

lemma read_lines_rows:
  "list_all (row_ok limit) rows \<Longrightarrow>
     read_lines limit ends i (map to_json_line rows @ rest) =
       bindE (read_lines limit ends (i + length rows) rest) (\<lambda>rs. Inr (rows @ rs))"
proof (induction rows arbitrary: i)
  case Nil
  then show ?case by (cases "read_lines limit ends i rest") simp_all
next
  case (Cons r rows)
  then show ?case
    by (cases "read_lines limit ends (Suc (i + length rows)) rest") (simp_all add: read_line_row)
qed

text \<open>A file of whole lines, followed by an initial piece of a line.\<close>

lemma read_rows_piece:
  assumes ok: "list_all (row_ok limit) rows" "row_ok limit r" and p: "to_json_line r = p @ q"
  shows "read_rows_text limit (rows_text rows @ p) =
    Inr (if q = [] then rows @ [r] else rows, p \<noteq> [])"
proof (cases "rows_text rows @ p = []")
  case True
  then have "rows = []" "p = []" by (cases rows; simp add: rows_text_def row_line_def)+
  moreover have "q \<noteq> []" using p \<open>p = []\<close> to_json_line_props(2) by auto
  ultimately show ?thesis by (simp add: read_rows_text_def rows_text_def)
next
  case False
  have "newline \<notin> set p" using p to_json_line_props(1) [of r] by auto
  note split = split_rows_text [OF this, of rows]
  show ?thesis
  proof (cases "p = []")
    case True
    moreover have "q \<noteq> []" using p True to_json_line_props(2) by auto
    ultimately show ?thesis
      using False split read_lines_rows [OF ok(1), of True 0 "[]"]
      by (simp add: read_rows_text_def Let_def)
  next
    case p': False
    have "read_line limit p = (if q = [] then Row r else BadLine)"
      using read_line_row [OF ok(2)] read_line_torn [OF ok(2) p] p by auto
    then show ?thesis
      using False p' split read_lines_rows [OF ok(1), of False 0 "[p]"]
      by (simp add: read_rows_text_def Let_def)
  qed
qed

lemma read_rows_whole:
  "list_all (row_ok limit) rows \<Longrightarrow> read_rows_text limit (rows_text rows) = Inr (rows, False)"
proof (cases "rows_text rows = []")
  case True
  then have "rows = []" by (cases rows) (simp_all add: rows_text_def row_line_def)
  then show ?thesis by (simp add: read_rows_text_def rows_text_def)
next
  case False
  assume "list_all (row_ok limit) rows"
  then show ?thesis
    using False split_rows_text [of "[]" rows] read_lines_rows [of limit rows True 0 "[]"]
    by (simp add: read_rows_text_def Let_def)
qed

lemma rows_text_prefix:
  assumes "rows_text rows = p @ q"
  shows "(\<exists>k r a b. k < length rows \<and> r = rows ! k \<and> p = rows_text (take k rows) @ a \<and> to_json_line r = a @ b)
    \<or> p = rows_text rows"
  using assms
proof (induction rows arbitrary: p)
  case Nil
  then show ?case by (simp add: rows_text_def)
next
  case (Cons r rows)
  from Cons.prems have e: "row_line r @ rows_text rows = p @ q" by (simp add: rows_text_def)
  show ?case
  proof (cases "length p < length (row_line r)")
    case True
    then obtain b where b: "row_line r = p @ b" "b \<noteq> []"
      using e by (auto simp: append_eq_append_conv2)
    then obtain b' where "to_json_line r = p @ b'"
      by (cases b rule: rev_cases) (auto simp: row_line_def)
    then show ?thesis by (intro disjI1 exI [of _ 0]) (auto simp: rows_text_def)
  next
    case False
    then obtain p' where p': "p = row_line r @ p'" "rows_text rows = p' @ q"
      using e by (auto simp: append_eq_append_conv2)
    from Cons.IH [OF p'(2)] show ?thesis
    proof
      assume "\<exists>k s a b. k < length rows \<and> s = rows ! k \<and> p' = rows_text (take k rows) @ a \<and> to_json_line s = a @ b"
      then obtain k a b where "k < length rows" "p' = rows_text (take k rows) @ a" "to_json_line (rows ! k) = a @ b"
        by blast
      then show ?thesis
        using p'(1) by (intro disjI1 exI [of _ "Suc k"]) (auto simp: rows_text_def)
    next
      assume "p' = rows_text rows"
      then show ?thesis using p'(1) by (simp add: rows_text_def)
    qed
  qed
qed

section \<open>Properties\<close>

definition sample_row :: "int \<Rightarrow> run_row" where
  "sample_row k = \<lparr>rr_run_id = JStr ''run'', rr_model = JStr ''m'', rr_resolved = JStr ''m'',
     rr_item_id = JStr ''i'', rr_sample_k = JInt k, rr_response_raw = JStr ''a'', rr_parsed = JNull,
     rr_score = JNull, rr_scorer = JNull, rr_judge_scores = JNull, rr_elapsed = JFloat (Fin False 1 0),
     rr_error = JNull\<rparr>"

lemma sample_row_ok: "row_ok 3 (sample_row 0)"
  by (simp add: row_ok_def sample_row_def row_json_def int_max_str_digits_def)

text \<open>
  A clean log \<open>old\<close>, and an append of \<open>new\<close> that stops after any number of characters: the rows of
  \<open>old\<close> and an initial part of \<open>new\<close> are read, and the file is clean or reported torn.
\<close>

lemma rows_text_append: "rows_text (xs @ ys) = rows_text xs @ rows_text ys"
  by (simp add: rows_text_def)

lemma rows_text_end: "rows_text rows = [] \<or> last (rows_text rows) = newline"
  by (cases rows rule: rev_cases) (simp_all add: rows_text_def row_line_def)

lemma rows_text_take_mono: "length (rows_text (take k rows)) \<le> length (rows_text (take (Suc k) rows))"
  using take_add [of k 1 rows] by (simp add: rows_text_append)

lemma row_ok_mono: "row_ok l r \<Longrightarrow> l \<le> limit \<Longrightarrow> row_ok limit r"
  by (simp add: row_ok_def)

lemma rows_ok_mono: "list_all (row_ok l) rows \<Longrightarrow> l \<le> limit \<Longrightarrow> list_all (row_ok limit) rows"
  by (auto simp: list_all_iff intro: row_ok_mono)

lemma cut_log:
  assumes ok: "list_all (row_ok l) old" "list_all (row_ok l) new" and cut: "rows_text new = p @ q"
  shows "\<exists>k torn. k \<le> length new \<and>
    (\<forall>limit \<ge> l. read_rows_text limit (rows_text old @ p) = Inr (old @ take k new, torn)) \<and>
    (torn \<longleftrightarrow> p \<noteq> [] \<and> last p \<noteq> newline) \<and> (\<not> torn \<longrightarrow> p = rows_text (take k new)) \<and>
    length p \<le> length (rows_text (take (Suc k) new))"
  using rows_text_prefix [OF cut]
proof
  assume p: "p = rows_text new"
  have "list_all (row_ok l) (old @ new)" using ok by simp
  note whole = read_rows_whole [OF rows_ok_mono [OF this]]
  show ?thesis
    using rows_text_end [of new] p whole
    by (intro exI [of _ "length new"] exI [of _ False]) (auto simp: rows_text_append)
next
  assume "\<exists>k r a b. k < length new \<and> r = new ! k \<and> p = rows_text (take k new) @ a \<and> to_json_line r = a @ b"
  then obtain k a b where k: "k < length new" and p: "p = rows_text (take k new) @ a"
    and ab: "to_json_line (new ! k) = a @ b"
    by blast
  let ?n = "if b = [] then Suc k else k"
  have "list_all (row_ok l) (take k new @ drop k new)" using ok(2) by (simp only: append_take_drop_id)
  then have all: "list_all (row_ok l) (old @ take k new)" using ok(1) by (simp only: list_all_append)
  have "row_ok l (new ! k)" using ok(2) k by (simp add: list_all_length)
  note piece = read_rows_piece [OF rows_ok_mono [OF all] row_ok_mono [OF this] ab]
  have r: "\<forall>limit \<ge> l. read_rows_text limit (rows_text old @ p) = Inr (old @ take ?n new, a \<noteq> [])"
    using k piece by (simp add: p rows_text_append take_Suc_conv_app_nth)
  have "rows_text (take (Suc k) new) = rows_text (take k new) @ (a @ b) @ [newline]"
    using k ab by (simp add: rows_text_def take_Suc_conv_app_nth row_line_def)
  then have len: "length p \<le> length (rows_text (take (Suc ?n) new))"
    using rows_text_take_mono [of "Suc k" new] by (simp add: p)
  have "(a \<noteq> []) = (p \<noteq> [] \<and> last p \<noteq> newline)"
  proof (cases "a = []")
    case True
    then show ?thesis using p rows_text_end [of "take k new"] by auto
  next
    case False
    then have "last p \<in> set (to_json_line (new ! k))" using ab p by simp
    with False p to_json_line_props(1) [of "new ! k"] show ?thesis by auto
  qed
  moreover have "\<not> a \<noteq> [] \<longrightarrow> p = rows_text (take ?n new)"
    using ab p to_json_line_props(2) [of "new ! k"] by auto
  ultimately show ?thesis
    using r len k by (intro exI [of _ ?n] exI [of _ "a \<noteq> []"]) auto
qed

text \<open>Crash consistency of the row log: cut the text that the runner wrote after any number of
  characters, and reading it gives an initial part of the rows written, in order, with at most the
  one being written lost and never an error; the tear is reported exactly when the text does not end
  in a line break, and rewriting what was read gives a clean file that reads back the same.\<close>

theorem torn_log_recovers:
  assumes "list_all (row_ok limit) rows" and "rows_text rows = p @ q"
  shows "\<exists>k torn. read_rows limit (FileText p) = Inr (take k rows, torn) \<and>
    length p \<le> length (rows_text (take (Suc k) rows)) \<and>
    (torn \<longleftrightarrow> p \<noteq> [] \<and> last p \<noteq> newline) \<and>
    read_rows limit (rewrite_rows (take k rows)) = Inr (take k rows, False)"
proof -
  have "list_all (row_ok limit) (take n rows)" for n
    using assms(1) by (metis append_take_drop_id list_all_append)
  from read_rows_whole [OF this]
  have "read_rows limit (rewrite_rows (take n rows)) = Inr (take n rows, False)" for n
    by (simp add: read_rows_def rewrite_rows_def)
  with cut_log [of limit "[]" rows p q] assms show ?thesis
    by (auto simp: read_rows_def rows_text_def)
qed

theorem torn_log_recovers_witness:
  "\<exists>k torn. read_rows 3 (FileText (take 400 (rows_text [sample_row 0, sample_row 0])))
     = Inr (take k [sample_row 0, sample_row 0], torn)"
proof -
  have "list_all (row_ok 3) [sample_row 0, sample_row 0]" by (simp add: sample_row_ok)
  from torn_log_recovers [OF this, of "take 400 (rows_text [sample_row 0, sample_row 0])"
      "drop 400 (rows_text [sample_row 0, sample_row 0])"]
  show ?thesis by auto
qed

text \<open>Damage anywhere but in an unterminated last line is never read around: if a whole line of the
  file does not hold a row, reading fails with an error that names the first such line.\<close>

theorem corrupt_line_is_fatal:
  assumes "list_all (row_ok limit) rows" and "newline \<notin> set bad" and "read_line limit bad = BadLine"
  shows "read_rows limit (FileText (rows_text rows @ bad @ newline # rest))
    = Inl (RunError (CorruptRow (length rows + 1)))"
proof -
  let ?t = "rows_text rows @ bad @ newline # rest"
  have s: "split_on newline ?t = map to_json_line rows @ bad # split_on newline rest"
  proof -
    have "split_on newline (rows_text rs @ bad @ newline # rest)
        = map to_json_line rs @ bad # split_on newline rest" for rs
    proof (induction rs)
      case Nil
      then show ?case by (simp add: rows_text_def split_on_append_sep assms(2))
    next
      case (Cons r rs)
      have "split_on newline (to_json_line r @ newline # rows_text rs @ bad @ newline # rest)
          = to_json_line r # split_on newline (rows_text rs @ bad @ newline # rest)"
        by (rule split_on_append_sep) (rule to_json_line_props)
      with Cons show ?case by (simp add: rows_text_def row_line_def)
    qed
    then show ?thesis .
  qed
  let ?s = "split_on newline rest"
  let ?lines = "if last ?s = [] then butlast ?s else ?s" and ?ends = "last ?s = []"
  have "read_lines limit ?ends (length rows) (bad # ?lines) = Inl (RunError (CorruptRow (length rows + 1)))"
  proof (cases "?ends")
    case False
    then show ?thesis using assms(3) by simp
  qed (simp add: assms(3))
  then have "read_lines limit ?ends 0 (map to_json_line rows @ bad # ?lines)
      = Inl (RunError (CorruptRow (length rows + 1)))"
    using read_lines_rows [OF assms(1), of ?ends 0 "bad # ?lines"] by simp
  moreover have "last (map to_json_line rows @ bad # ?s) = last ?s"
      "butlast (map to_json_line rows @ bad # ?s) = map to_json_line rows @ bad # butlast ?s"
    by (simp_all add: butlast_append)
  ultimately show ?thesis
    by (auto simp: read_rows_def read_rows_text_def s Let_def split: if_splits)
qed

theorem corrupt_line_is_fatal_witness:
  "read_rows 3 (FileText (rows_text [sample_row 0] @ ''{}'' @ newline # [])) = Inl (RunError (CorruptRow 2))"
proof -
  have "read_line 3 ''{}'' = BadLine" by code_simp
  with corrupt_line_is_fatal [of 3 "[sample_row 0]" "''{}''" "[]"] sample_row_ok show ?thesis by simp
qed

end
