(* ===== verification/Runner.thy ===== *)
theory Runner
  imports Run_Store
begin

text \<open>
  src/measure_twice/runner.py, the sweep: one row per cell from the adapter's result and the injected
  scorer, the three provider sweeps under one call budget, a fresh run and a resumed one, and the
  offline re-scoring of a stored run.

  What the adapters see of the outside world is a function of the cell (a run calls each cell at most
  once) and, for the Claude pool, a schedule for each wave.  The output directory is a map from run
  ids to run stores.  Rows are appended as produced: the sweeps return the rows appended so far also
  when they end early.
\<close>

section \<open>Cells and rows\<close>

record cell =
  cl_model :: string
  cl_binding :: model_binding
  cl_item :: item
  cl_sample :: nat

definition cell_key :: "cell \<Rightarrow> cell_key" where
  "cell_key c = (JStr (cl_model c), JStr (it_id (cl_item c)), JInt (int (cl_sample c)))"

definition opt_str :: "string option \<Rightarrow> json" where
  "opt_str x = (case x of None \<Rightarrow> JNull | Some s \<Rightarrow> JStr s)"

definition opt_flt :: "flt option \<Rightarrow> json" where
  "opt_flt x = (case x of None \<Rightarrow> JNull | Some f \<Rightarrow> JFloat f)"

fun response_text :: "response \<Rightarrow> string" where
  "response_text (Text s) = s"
| "response_text NO_RESPONSE = []"

definition build_row ::
    "externals \<Rightarrow> string \<Rightarrow> cell \<Rightarrow> model_call_result \<Rightarrow> scorer \<Rightarrow> (scoring_error, run_row) res" where
  "build_row ext run_id c r scorer =
     (let base = \<lparr>rr_run_id = JStr run_id, rr_model = JStr (cl_model c), rr_resolved = JStr (mr_resolved r),
            rr_item_id = JStr (it_id (cl_item c)), rr_sample_k = JInt (int (cl_sample c)),
            rr_response_raw = JStr [], rr_parsed = JNull, rr_score = JNull, rr_scorer = JNull,
            rr_judge_scores = JNull, rr_elapsed = JFloat (mr_elapsed r), rr_error = JNull\<rparr>
      in case mr_reason r of
           Some rc \<Rightarrow> Inr (base\<lparr>rr_error := JStr (sb_reason ext rc)\<rparr>)
         | None \<Rightarrow>
             (if no_response r then
                Inr (base\<lparr>rr_score := JFloat flt_zero, rr_scorer := JStr NO_RESPONSE_SCORER\<rparr>)
              else
                bindE (scorer (cl_item c) (response_text (mr_response r))) (\<lambda>oc.
                  Inr (base\<lparr>rr_response_raw := JStr (response_text (mr_response r)),
                         rr_parsed := opt_str (oc_parsed oc), rr_score := opt_flt (oc_score oc),
                         rr_scorer := opt_str (oc_scorer oc)\<rparr>))))"

section \<open>The provider sweeps\<close>

record run_world =
  rw_limit :: nat
  rw_local :: "cell \<Rightarrow> string \<Rightarrow> string \<Rightarrow> transport_outcome"
  rw_gemini :: "cell \<Rightarrow> string \<Rightarrow> string \<Rightarrow> string \<Rightarrow> transport_outcome"
  rw_process :: "cell \<Rightarrow> process_world"
  rw_elapsed :: "cell \<Rightarrow> flt"
  rw_sched :: "cell list \<Rightarrow> nat list"
  rw_built :: "(setup_error, claude_runtime) res"
  rw_probe :: "invocation \<Rightarrow> run_outcome"
  rw_probe_cwd :: string
  rw_credential :: "(credential_error, string) res"
  rw_minted :: string
  rw_started :: string

text \<open>What a sweep needs besides the cells.\<close>

record sweep_ctx =
  sx_ext :: externals
  sx_world :: run_world
  sx_run_id :: string
  sx_config :: run_config
  sx_scorer :: scorer

datatype sweep_exn =
    FromScorer scoring_error
  | FromCall call_exn
  | FromGemini adapter_error
  | FromClaude claude_exn

datatype sweep_end = Swept | Aborted | Raised sweep_exn

type_synonym sweep_result = "sweep_end \<times> run_row list \<times> call_budget"

definition put_row :: "run_row \<Rightarrow> sweep_result \<Rightarrow> sweep_result" where
  "put_row row res = (case res of (e, rows, b) \<Rightarrow> (e, row # rows, b))"

definition local_result :: "sweep_ctx \<Rightarrow> cell \<Rightarrow> (sweep_exn, model_call_result) res" where
  "local_result sx c = map_errE FromCall
     (local_chat (rw_limit (sx_world sx)) (sx_config sx) (rw_local (sx_world sx) c)
       (rw_elapsed (sx_world sx) c) (mb_requested (cl_binding c)) (it_prompt (cl_item c)))"

definition gemini_result ::
    "sweep_ctx \<Rightarrow> gemini_context \<Rightarrow> string \<Rightarrow> cell \<Rightarrow> (sweep_exn, model_call_result) res" where
  "gemini_result sx gctx key c = map_errE FromGemini
     (gemini_generate (rw_limit (sx_world sx)) gctx key (rw_gemini (sx_world sx) c)
       (rw_elapsed (sx_world sx) c) (mb_requested (cl_binding c)) (it_prompt (cl_item c)))"

definition row_of :: "sweep_ctx \<Rightarrow> cell \<Rightarrow> model_call_result \<Rightarrow> (sweep_exn, run_row) res" where
  "row_of sx c r = map_errE FromScorer (build_row (sx_ext sx) (sx_run_id sx) c r (sx_scorer sx))"

text \<open>One cell after the other; the budget is consumed before the call.\<close>

fun sweep_sequential ::
    "sweep_ctx \<Rightarrow> (cell \<Rightarrow> (sweep_exn, model_call_result) res) \<Rightarrow> cell list \<Rightarrow> call_budget \<Rightarrow> sweep_result" where
  "sweep_sequential sx call [] b = (Swept, [], b)"
| "sweep_sequential sx call (c # cs) b = (case consume b of
     None \<Rightarrow> (Aborted, [], b)
   | Some b' \<Rightarrow>
       (case bindE (call c) (row_of sx c) of
          Inl e \<Rightarrow> (Raised e, [], b')
        | Inr row \<Rightarrow> put_row row (sweep_sequential sx call cs b')))"

definition sweep_local :: "sweep_ctx \<Rightarrow> cell list \<Rightarrow> call_budget \<Rightarrow> sweep_result" where
  "sweep_local sx = sweep_sequential sx (local_result sx)"

definition sweep_gemini ::
    "sweep_ctx \<Rightarrow> gemini_context \<Rightarrow> string \<Rightarrow> cell list \<Rightarrow> call_budget \<Rightarrow> sweep_result" where
  "sweep_gemini sx gctx key = sweep_sequential sx (gemini_result sx gctx key)"

text \<open>Successive pieces of length \<open>n\<close>, at least 1.\<close>

function chunks :: "nat \<Rightarrow> 'a list \<Rightarrow> 'a list list" where
  "chunks n xs = (if xs = [] \<or> n = 0 then [] else take n xs # chunks n (drop n xs))"
  by pat_completeness auto
termination by (relation "measure (\<lambda>(n, xs). length xs)") auto

declare chunks.simps [simp del]

text \<open>The rows of one wave: a refused slot writes none and marks the wave as aborted.\<close>

fun wave_rows ::
    "sweep_ctx \<Rightarrow> (cell \<times> slot_result) list \<Rightarrow> sweep_end \<times> run_row list" where
  "wave_rows sx [] = (Swept, [])"
| "wave_rows sx ((c, Refused) # rest) =
     (case wave_rows sx rest of
        (Raised e, rows) \<Rightarrow> (Raised e, rows)
      | (_, rows) \<Rightarrow> (Aborted, rows))"
| "wave_rows sx ((c, Result r) # rest) =
     (case row_of sx c r of
        Inl e \<Rightarrow> (Raised e, [])
      | Inr row \<Rightarrow> (case wave_rows sx rest of (e, rows) \<Rightarrow> (e, row # rows)))"

definition claude_requests :: "cell list \<Rightarrow> (string \<times> string) list" where
  "claude_requests cs = map (\<lambda>c. (cl_model c, it_prompt (cl_item c))) cs"

fun sweep_waves :: "sweep_ctx \<Rightarrow> claude_runtime \<Rightarrow> cell list list \<Rightarrow> call_budget \<Rightarrow> sweep_result" where
  "sweep_waves sx rt [] b = (Swept, [], b)"
| "sweep_waves sx rt (chunk # rest) b =
     (if exhausted b then (Aborted, [], b)
      else
        (case claude_call_batch (rw_limit (sx_world sx)) (sx_config sx) rt
                (\<lambda>i. rw_process (sx_world sx) (chunk ! i)) (rw_sched (sx_world sx) chunk)
                (claude_requests chunk) b of
           (Inl e, b') \<Rightarrow> (Raised (FromClaude e), [], b')
         | (Inr results, b') \<Rightarrow>
             (case wave_rows sx (zip chunk results) of
                (Swept, rows) \<Rightarrow>
                  (case sweep_waves sx rt rest b' of (e, rows', b'') \<Rightarrow> (e, rows @ rows', b''))
              | (e, rows) \<Rightarrow> (e, rows, b'))))"

definition sweep_claude :: "sweep_ctx \<Rightarrow> claude_runtime \<Rightarrow> cell list \<Rightarrow> call_budget \<Rightarrow> sweep_result" where
  "sweep_claude sx rt pending b =
     sweep_waves sx rt (chunks (nat (cf_claude_pool (sx_config sx))) pending) b"

section \<open>Pending cells\<close>

definition pending_cells ::
    "model_binding \<Rightarrow> suite \<Rightarrow> int \<Rightarrow> cell_key list \<Rightarrow> cell list" where
  "pending_cells b s samples done =
     filter (\<lambda>c. cell_key c \<notin> set done)
       (concat (map (\<lambda>it. map (\<lambda>k. \<lparr>cl_model = mb_alias b, cl_binding = b, cl_item = it, cl_sample = k\<rparr>)
          [0..<nat samples]) (su_items s)))"

definition has_pending :: "provider \<Rightarrow> model_binding list \<Rightarrow> suite \<Rightarrow> int \<Rightarrow> cell_key list \<Rightarrow> bool" where
  "has_pending p bs s samples done =
     list_ex (\<lambda>b. mb_provider b = p \<and> pending_cells b s samples done \<noteq> []) bs"

definition has_pending_claude :: "model_binding list \<Rightarrow> suite \<Rightarrow> int \<Rightarrow> cell_key list \<Rightarrow> bool" where
  "has_pending_claude = has_pending Claude"

definition has_pending_gemini :: "model_binding list \<Rightarrow> suite \<Rightarrow> int \<Rightarrow> cell_key list \<Rightarrow> bool" where
  "has_pending_gemini = has_pending Gemini"

section \<open>Checks before the sweep\<close>

definition validate_sweep_params :: "string list \<Rightarrow> int \<Rightarrow> int \<Rightarrow> unit rres" where
  "validate_sweep_params roster samples max_calls =
     (if roster = [] then Inl (RunError EmptyRoster)
      else if samples < 1 then Inl (RunError (BadSamples samples))
      else if max_calls < 1 then Inl (RunError (BadMaxCalls max_calls))
      else Inr ())"

definition resolve_bindings :: "run_config \<Rightarrow> string list \<Rightarrow> string \<Rightarrow> model_binding list rres" where
  "resolve_bindings config aliases label =
     map_errE (\<lambda>e. RunError (BindingProblem label e)) (bindings_for (cf_profile config) aliases)"

definition doctor_execution ::
    "externals \<Rightarrow> run_world \<Rightarrow> run_config \<Rightarrow> model_binding list \<Rightarrow> (receipt \<times> claude_runtime option) rres" where
  "doctor_execution ext w config bs =
     bindE (if uses Claude bs then
              bindE (map_errE (\<lambda>e. RunError (ClaudePreflight e))
                      (doctor_claude_runtime (rw_built w) (rw_probe w) (rw_probe_cwd w))) (\<lambda>rt.
                if rt_version rt = None then Inl (RunError NoVersionEvidence) else Inr (Some rt))
            else Inr None) (\<lambda>rt.
     bindE (map_errE (\<lambda>e. RunError (ReceiptNotBuilt e))
             (Receipt_create ext (cf_profile config) bs (map_option rt_executable rt)
               (Option.bind rt rt_version))) (\<lambda>rc.
       Inr (rc, rt)))"

definition execution_bindings ::
    "run_config \<Rightarrow> suite \<Rightarrow> string list \<Rightarrow> string list \<Rightarrow> model_binding list rres" where
  "execution_bindings config s roster judges =
     bindE (if sc_type (su_scoring s) = Rubric then
              bindE (resolve_bindings config (fromkeys judges) ''judges'') (\<lambda>jbs.
                let unsupported = filter (\<lambda>b. mb_provider b \<noteq> Claude) jbs in
                if unsupported \<noteq> [] then Inl (RunError (JudgesNotClaude (map mb_alias unsupported)))
                else Inr (roster @ judges))
            else Inr roster) (\<lambda>aliases.
     resolve_bindings config (fromkeys aliases) ''execution'')"

definition read_execution_receipt :: "externals \<Rightarrow> (string \<times> json) list \<Rightarrow> receipt option rres" where
  "read_execution_receipt ext manifest = (case map_of manifest ''execution_receipt'' of
     None \<Rightarrow> Inr None
   | Some j \<Rightarrow>
       bindE (map_errE (\<lambda>e. RunError (InvalidReceipt e)) (Receipt_from_mapping ext j)) (\<lambda>r. Inr (Some r)))"

definition validate_receipt_profile ::
    "externals \<Rightarrow> receipt \<Rightarrow> run_config \<Rightarrow> model_binding list \<Rightarrow> unit rres" where
  "validate_receipt_profile ext stored config bs =
     bindE (map_errE (\<lambda>e. RunError (ReceiptNotValidated e))
             (Receipt_create ext (cf_profile config) bs (map_option ce_executable (rc_claude stored))
               (map_option ce_version (rc_claude stored)))) (\<lambda>expected.
     checkE (stored = expected) (RunError ReceiptDiffers))"

definition preflight_gemini_credential :: "run_world \<Rightarrow> string rres" where
  "preflight_gemini_credential w =
     map_errE (\<lambda>e. RunError (GeminiPreflight e)) (bindE (rw_credential w) validate_gemini_credential)"

definition CLAUDE_ALIASES :: "string list" where
  "CLAUDE_ALIASES = [''haiku'', ''sonnet'', ''opus'', ''fable'']"

fun validate_legacy_resume ::
    "model_binding list \<Rightarrow> suite \<Rightarrow> int \<Rightarrow> cell_key list \<Rightarrow> unit rres" where
  "validate_legacy_resume [] s samples done = Inr ()"
| "validate_legacy_resume (b # bs) s samples done =
     (if pending_cells b s samples done = [] then validate_legacy_resume bs s samples done
      else if mb_alias b \<in> set CLAUDE_ALIASES then Inl (RunError LegacyPendingClaude)
      else if mb_provider b \<noteq> Local \<or> mb_requested b \<noteq> mb_alias b
      then Inl (RunError (LegacyPendingLocal (mb_alias b)))
      else validate_legacy_resume bs s samples done)"

section \<open>The output directory\<close>

record out_dir =
  od_runs :: "string \<rightharpoonup> run_store"
  od_escapes :: "string \<Rightarrow> bool"   \<comment> \<open>the directory of that name resolves elsewhere\<close>

text \<open>The shape of a minted id: \<open>run_\<close>, 8 digits, \<open>T\<close>, 6 digits, \<open>Z_\<close>, 6 hexadecimal digits.\<close>

definition hex_char :: "char \<Rightarrow> bool" where
  "hex_char c \<longleftrightarrow> is_digit c \<or> in_rng 97 102 c"

fun matches :: "(char \<Rightarrow> bool) list \<Rightarrow> string \<Rightarrow> bool" where
  "matches [] [] = True"
| "matches (p # ps) (c # cs) = (p c \<and> matches ps cs)"
| "matches _ _ = False"

definition run_id_shape :: "(char \<Rightarrow> bool) list" where
  "run_id_shape = map (=) ''run_'' @ replicate 8 is_digit @ [(=) (CHR ''T'')] @ replicate 6 is_digit
     @ map (=) ''Z_'' @ replicate 6 hex_char"

definition run_id_ok :: "string \<Rightarrow> bool" where
  "run_id_ok s = matches run_id_shape s"

definition resolve_run_dir :: "out_dir \<Rightarrow> string \<Rightarrow> unit rres" where
  "resolve_run_dir od run_id =
     (if \<not> run_id_ok run_id then Inl (RunError (InvalidRunId run_id))
      else if od_escapes od run_id then Inl (RunError (RunDirEscapes run_id))
      else Inr ())"

section \<open>Python conversions of manifest values\<close>

text \<open>\<open>str(v) == h\<close> for a hexadecimal digest \<open>h\<close>: the text of any other value has other characters.\<close>

definition str_equals :: "json \<Rightarrow> string \<Rightarrow> bool" where
  "str_equals v h = (case v of JStr s \<Rightarrow> s = h | JInt n \<Rightarrow> show_int n = h | _ \<Rightarrow> False)"

text \<open>\<open>int(text)\<close>: outer white space, a sign, digits with single underscores between them.\<close>

fun digit_groups :: "string \<Rightarrow> bool" where
  "digit_groups [] = False"
| "digit_groups [c] = is_digit c"
| "digit_groups (c # d # s) = (is_digit c \<and> (if d = CHR ''_'' then digit_groups s else digit_groups (d # s)))"

definition int_of_text :: "string \<Rightarrow> int rres" where
  "int_of_text s =
     (let t = strip s;
          (neg, u) = (case t of [] \<Rightarrow> (False, []) | c # r \<Rightarrow>
            if c = CHR ''-'' then (True, r) else if c = CHR ''+'' then (False, r) else (False, t));
          ds = filter (\<lambda>c. c \<noteq> CHR ''_'') u
      in if digit_groups u \<and> length ds \<le> int_max_str_digits
         then Inr ((if neg then -1 else 1) * int (read_nat ds)) else Inl RawValueError)"

definition py_int :: "json \<Rightarrow> int rres" where
  "py_int v = (case v of
     JInt n \<Rightarrow> Inr n
   | JBool b \<Rightarrow> Inr (if b then 1 else 0)
   | JFloat (Fin neg m e) \<Rightarrow>
       Inr ((if neg then -1 else 1) * (if 0 \<le> e then int m * 10 ^ nat e else int m div 10 ^ nat (- e)))
   | JFloat (Infin _) \<Rightarrow> Inl RawOverflowError
   | JFloat NotANumber \<Rightarrow> Inl RawValueError
   | JStr s \<Rightarrow> int_of_text s
   | _ \<Rightarrow> Inl RawTypeError)"

text \<open>\<open>d[k]\<close> raises \<open>KeyError\<close>.\<close>

definition subscript :: "(string \<times> json) list \<Rightarrow> string \<Rightarrow> json rres" where
  "subscript d k = (case map_of d k of Some v \<Rightarrow> Inr v | None \<Rightarrow> Inl (RawKeyError k))"

definition manifest_max_calls :: "json \<Rightarrow> int rres" where
  "manifest_max_calls budgets = (case budgets of
     JObj d \<Rightarrow> bindE (subscript d ''max_calls'') py_int
   | _ \<Rightarrow> Inl RawTypeError)"

section \<open>A run\<close>

record run_args =
  ra_roster :: "string list option"
  ra_samples :: "int option"
  ra_judges :: "string list option"
  ra_max_calls :: "int option"
  ra_preregister :: "string option"
  ra_resume :: "string option"

text \<open>What both branches hand to the sweep.\<close>

record prepared =
  pp_run_id :: string
  pp_roster :: "string list"
  pp_samples :: int
  pp_max_calls :: int
  pp_bindings :: "model_binding list"
  pp_runtime :: "claude_runtime option"
  pp_gemini_key :: "string option"
  pp_existing :: "run_row list"
  pp_done :: "cell_key list"

definition first_some :: "'a option \<Rightarrow> 'a \<Rightarrow> 'a" where
  "first_some x d = (case x of Some v \<Rightarrow> v | None \<Rightarrow> d)"

definition sealed_resume ::
    "externals \<Rightarrow> run_world \<Rightarrow> run_config \<Rightarrow> suite \<Rightarrow> receipt \<Rightarrow> model_binding list \<Rightarrow> model_binding list
      \<Rightarrow> int \<Rightarrow> cell_key list \<Rightarrow> (claude_runtime option \<times> string option) rres" where
  "sealed_resume ext w config s stored bs selected samples done =
     bindE (validate_receipt_profile ext stored config selected) (\<lambda>_.
     bindE (if has_pending_claude bs s samples done then
              bindE (doctor_execution ext w config selected) (\<lambda>(rc, rt).
                if rc \<noteq> stored then Inl (RunError CurrentReceiptDiffers) else Inr rt)
            else Inr None) (\<lambda>rt.
     bindE (if has_pending_gemini bs s samples done then
              bindE (preflight_gemini_credential w) (\<lambda>k. Inr (Some k))
            else Inr None) (\<lambda>key.
       Inr (rt, key))))"

text \<open>The resumed branch up to the first mutation, which is the repair of a torn tail.\<close>

definition prepare_resume ::
    "externals \<Rightarrow> run_world \<Rightarrow> run_config \<Rightarrow> suite \<Rightarrow> run_args \<Rightarrow> out_dir \<Rightarrow> string
      \<Rightarrow> (prepared \<times> run_store \<times> bool) rres" where
  "prepare_resume ext w config s args od run_id =
     bindE (resolve_run_dir od run_id) (\<lambda>_.
     case od_runs od run_id of
       None \<Rightarrow> Inl (RunError (CannotResume run_id))
     | Some st \<Rightarrow>
         bindE (read_manifest st) (\<lambda>m.
         bindE (subscript m ''suite_hash'') (\<lambda>h.
         if \<not> str_equals h (item_hash ext s) then Inl (RunError HashMismatch)
         else
         bindE (read_manifest_selection ext m ''roster'') (\<lambda>roster.
         bindE (bindE (subscript m ''samples_per_cell'') py_int) (\<lambda>samples.
         bindE (read_manifest_selection ext m ''judges'') (\<lambda>judges.
         bindE (subscript m ''budgets'') (\<lambda>budgets.
         bindE (case ra_max_calls args of Some n \<Rightarrow> Inr n | None \<Rightarrow> manifest_max_calls budgets) (\<lambda>max_calls.
         bindE (validate_sweep_params roster samples max_calls) (\<lambda>_.
         bindE (resolve_bindings config roster ''roster'') (\<lambda>bs.
         bindE (resolve_bindings config judges ''judges'') (\<lambda>_.
         bindE (execution_bindings config s roster judges) (\<lambda>selected.
         bindE (read_rows (rw_limit w) (rs_rows st)) (\<lambda>(rows, torn).
         bindE (done_keys rows) (\<lambda>done.
         bindE (read_execution_receipt ext m) (\<lambda>stored.
         bindE (case stored of
                  None \<Rightarrow> bindE (validate_legacy_resume bs s samples done) (\<lambda>_. Inr (None, None))
                | Some rc \<Rightarrow> sealed_resume ext w config s rc bs selected samples done) (\<lambda>(rt, key).
           Inr (\<lparr>pp_run_id = run_id, pp_roster = roster, pp_samples = samples, pp_max_calls = max_calls,
                 pp_bindings = bs, pp_runtime = rt, pp_gemini_key = key, pp_existing = rows, pp_done = done\<rparr>,
                st, torn)))))))))))))))))"

definition repaired :: "run_store \<Rightarrow> run_row list \<Rightarrow> bool \<Rightarrow> run_store" where
  "repaired st rows torn = (if torn then st\<lparr>rs_rows := rewrite_rows rows\<rparr> else st)"

text \<open>The fresh branch up to the creation of the run directory.\<close>

definition prepare_fresh ::
    "externals \<Rightarrow> run_world \<Rightarrow> run_config \<Rightarrow> suite \<Rightarrow> run_args \<Rightarrow> out_dir \<Rightarrow> (prepared \<times> run_store) rres" where
  "prepare_fresh ext w config s args od =
     (let roster = fromkeys (first_some (ra_roster args) (cf_roster config));
          samples = first_some (ra_samples args) (cf_samples config);
          judges = fromkeys (first_some (ra_judges args) (cf_judges config));
          max_calls = first_some (ra_max_calls args) (cf_max_calls config)
      in bindE (validate_sweep_params roster samples max_calls) (\<lambda>_.
         bindE (validate_names ext roster ''roster'') (\<lambda>_.
         bindE (validate_names ext judges ''judges'') (\<lambda>_.
         bindE (resolve_bindings config roster ''roster'') (\<lambda>bs.
         bindE (resolve_bindings config judges ''judges'') (\<lambda>_.
         bindE (execution_bindings config s roster judges) (\<lambda>selected.
         bindE (doctor_execution ext w config selected) (\<lambda>(rc, rt).
         bindE (if uses Gemini bs then bindE (preflight_gemini_credential w) (\<lambda>k. Inr (Some k))
                else Inr None) (\<lambda>key.
         let run_id = rw_minted w in
         if od_runs od run_id \<noteq> None then Inl (RunError (RunIdCollision run_id))
         else
           Inr (\<lparr>pp_run_id = run_id, pp_roster = roster, pp_samples = samples, pp_max_calls = max_calls,
                 pp_bindings = bs, pp_runtime = rt, pp_gemini_key = key, pp_existing = [], pp_done = []\<rparr>,
                \<lparr>rs_manifest = Doc (manifest_json ext run_id s roster samples judges config max_calls
                     (ra_preregister args) rc (rw_started w)),
                 rs_suite = Doc (suite_asdict s), rs_rows = NoFile\<rparr>))))))))))"

text \<open>The loop over the bindings.  A \<open>RunError\<close> keeps its kind; any other exception is wrapped.\<close>

datatype run_end = RunDone bool | RunRaised run_error   \<comment> \<open>aborted?\<close>

definition sweep_binding ::
    "sweep_ctx \<Rightarrow> prepared \<Rightarrow> gemini_context option \<Rightarrow> model_binding \<Rightarrow> cell list \<Rightarrow> call_budget
      \<Rightarrow> run_end \<times> run_row list \<times> call_budget" where
  "sweep_binding sx pp gctx b pending bu =
     (let finish = (\<lambda>(e, rows, bu'). (case e of
            Swept \<Rightarrow> RunDone False | Aborted \<Rightarrow> RunDone True | Raised _ \<Rightarrow> RunRaised SweepFailed, rows, bu'))
      in case mb_provider b of
           Claude \<Rightarrow>
             (case pp_runtime pp of
                None \<Rightarrow> (RunRaised NoSealedRuntime, [], bu)
              | Some rt \<Rightarrow> finish (sweep_claude sx rt pending bu))
         | Local \<Rightarrow> finish (sweep_local sx pending bu)
         | Gemini \<Rightarrow>
             (case (pp_gemini_key pp, gctx) of
                (Some key, Some g) \<Rightarrow> finish (sweep_gemini sx g key pending bu)
              | _ \<Rightarrow> (RunRaised NoGeminiCredential, [], bu)))"

fun sweep_bindings ::
    "sweep_ctx \<Rightarrow> prepared \<Rightarrow> suite \<Rightarrow> gemini_context option \<Rightarrow> model_binding list \<Rightarrow> call_budget
      \<Rightarrow> run_end \<times> run_row list \<times> call_budget" where
  "sweep_bindings sx pp s gctx [] bu = (RunDone False, [], bu)"
| "sweep_bindings sx pp s gctx (b # bs) bu =
     (let pending = pending_cells b s (pp_samples pp) (pp_done pp) in
      if pending = [] then sweep_bindings sx pp s gctx bs bu
      else (case sweep_binding sx pp gctx b pending bu of
              (RunDone False, rows, bu') \<Rightarrow>
                (case sweep_bindings sx pp s gctx bs bu' of (e, rows', bu'') \<Rightarrow> (e, rows @ rows', bu''))
            | (e, rows, bu') \<Rightarrow> (e, rows, bu')))"

record run_result =
  rz_run_id :: string
  rz_cells_total :: nat
  rz_cells_completed :: nat
  rz_cells_this_run :: nat
  rz_budget_used :: int
  rz_budget_max :: int
  rz_aborted :: bool

definition append_rows :: "file_read \<Rightarrow> run_row list \<Rightarrow> file_read" where
  "append_rows file rows = foldl append_row (if file = NoFile then FileText [] else file) rows"

text \<open>The sweep of a prepared run over its store, and the summary.\<close>

definition run_sweep ::
    "externals \<Rightarrow> run_world \<Rightarrow> run_config \<Rightarrow> suite \<Rightarrow> scorer \<Rightarrow> prepared \<Rightarrow> run_store
      \<Rightarrow> run_result rres \<times> run_store" where
  "run_sweep ext w config s scorer pp st =
     (let sx = \<lparr>sx_ext = ext, sx_world = w, sx_run_id = pp_run_id pp, sx_config = config, sx_scorer = scorer\<rparr>
      in case CallBudget_init (pp_max_calls pp) of
           Inl e \<Rightarrow> (Inl (RawAdapterError e), st)
         | Inr bu \<Rightarrow>
             (case sweep_bindings sx pp s (ep_gemini (cf_profile config)) (pp_bindings pp) bu of
                (e, rows, bu') \<Rightarrow>
                  (case e of
                     RunRaised err \<Rightarrow> Inl (RunError err)
                   | RunDone ab \<Rightarrow>
                       Inr \<lparr>rz_run_id = pp_run_id pp,
                            rz_cells_total = length (pp_roster pp) * length (su_items s) * nat (pp_samples pp),
                            rz_cells_completed = length (fromkeys (pp_done pp)) + length rows,
                            rz_cells_this_run = length rows, rz_budget_used = bu_used bu',
                            rz_budget_max = bu_max bu', rz_aborted = ab\<rparr>,
                   st\<lparr>rs_rows := append_rows (rs_rows st) rows\<rparr>)))"

definition run ::
    "externals \<Rightarrow> run_world \<Rightarrow> suite \<Rightarrow> run_config \<Rightarrow> scorer \<Rightarrow> run_args \<Rightarrow> out_dir
      \<Rightarrow> run_result rres \<times> out_dir" where
  "run ext w s config scorer args od =
     (case (case ra_resume args of
              Some run_id \<Rightarrow>
                bindE (prepare_resume ext w config s args od run_id) (\<lambda>(pp, st, torn).
                  Inr (pp, repaired st (pp_existing pp) torn))
            | None \<Rightarrow> prepare_fresh ext w config s args od) of
        Inl e \<Rightarrow> (Inl e, od)
      | Inr (pp, st) \<Rightarrow>
          (case run_sweep ext w config s scorer pp st of
             (r, st') \<Rightarrow> (r, od\<lparr>od_runs := (od_runs od)(pp_run_id pp \<mapsto> st')\<rparr>)))"

section \<open>Re-scoring a stored run\<close>

definition open_run :: "externals \<Rightarrow> out_dir \<Rightarrow> string \<Rightarrow> (run_store \<times> suite) rres" where
  "open_run ext od run_id =
     bindE (resolve_run_dir od run_id) (\<lambda>_.
     case od_runs od run_id of
       None \<Rightarrow> Inl (RunError (CannotOpen run_id))
     | Some st \<Rightarrow>
         bindE (read_manifest st) (\<lambda>m.
         bindE (read_suite_snapshot ext st) (\<lambda>s.
         bindE (subscript m ''suite_hash'') (\<lambda>h.
         if \<not> str_equals h (item_hash ext s) then Inl (RunError SnapshotHashMismatch)
         else Inr (st, s)))))"

definition load_run_suite :: "externals \<Rightarrow> out_dir \<Rightarrow> string \<Rightarrow> suite rres" where
  "load_run_suite ext od run_id = bindE (open_run ext od run_id) (\<lambda>(st, s). Inr s)"

definition load_run_judge_contract ::
    "externals \<Rightarrow> out_dir \<Rightarrow> string \<Rightarrow> run_config \<Rightarrow> (string list \<times> receipt) rres" where
  "load_run_judge_contract ext od run_id config =
     bindE (open_run ext od run_id) (\<lambda>(st, s).
     if sc_type (su_scoring s) \<noteq> Rubric then Inl (RunError NotRubric)
     else
     bindE (read_manifest st) (\<lambda>m.
     bindE (read_manifest_selection ext m ''roster'') (\<lambda>roster.
     bindE (read_manifest_selection ext m ''judges'') (\<lambda>judges.
     if judges = [] then Inl (RunError NoJudges)
     else
     bindE (read_execution_receipt ext m) (\<lambda>stored.
     case stored of
       None \<Rightarrow> Inl (RunError NoStoredReceipt)
     | Some rc \<Rightarrow>
         bindE (execution_bindings config s roster judges) (\<lambda>selected.
         bindE (validate_receipt_profile ext rc config selected) (\<lambda>_.
           Inr (judges, rc))))))))"

definition is_no_response_row :: "run_row \<Rightarrow> bool" where
  "is_no_response_row r \<longleftrightarrow> rr_scorer r = JStr NO_RESPONSE_SCORER"

text \<open>
  What the scorer makes of a stored response.  One that is no text reaches the scorer as it is: the scorers
  that read it raise \<open>RawTypeError\<close>, after their own errors about the item; the collect-only scorer, the one
  that names no scorer in its outcome, does not look at it.
\<close>

definition stored_outcome :: "scorer \<Rightarrow> item \<Rightarrow> json \<Rightarrow> outcome rres" where
  "stored_outcome scorer it raw = (case scorer it (case raw of JStr text \<Rightarrow> text | _ \<Rightarrow> []) of
     Inl e \<Rightarrow> Inl (RawScoringError e)
   | Inr oc \<Rightarrow> if is_str raw \<or> oc_scorer oc = None then Inr oc else Inl RawTypeError)"

text \<open>The body of the re-scoring loop.  The lookup of an unhashable item id raises \<open>TypeError\<close>.\<close>

definition rescore_row :: "scorer \<Rightarrow> item list \<Rightarrow> run_row \<Rightarrow> run_row rres" where
  "rescore_row scorer items r =
     (if rr_error r \<noteq> JNull then Inr r
      else if is_no_response_row r then Inr r
      else if hash_key (rr_item_id r) = None then Inl RawTypeError
      else (case find (\<lambda>it. rr_item_id r = JStr (it_id it)) items of
              None \<Rightarrow> Inl (RunError (UnknownItem (the_str (rr_item_id r))))
            | Some it \<Rightarrow>
                bindE (stored_outcome scorer it (rr_response_raw r)) (\<lambda>oc.
                  Inr (r\<lparr>rr_parsed := opt_str (oc_parsed oc), rr_score := opt_flt (oc_score oc),
                          rr_scorer := opt_str (oc_scorer oc)\<rparr>))))"

record score_result =
  sr_total :: nat
  sr_scored :: nat
  sr_no_response :: nat

definition scoreable :: "run_row \<Rightarrow> bool" where
  "scoreable r \<longleftrightarrow> rr_error r = JNull \<and> \<not> is_no_response_row r"

definition score_run ::
    "externals \<Rightarrow> nat \<Rightarrow> scorer \<Rightarrow> out_dir \<Rightarrow> string \<Rightarrow> score_result rres \<times> out_dir" where
  "score_run ext limit scorer od run_id =
     (case bindE (open_run ext od run_id) (\<lambda>(st, s).
             bindE (read_rows limit (rs_rows st)) (\<lambda>(rows, torn).
             bindE (mapE (rescore_row scorer (su_items s)) rows) (\<lambda>rescored. Inr (st, rows, rescored)))) of
        Inl e \<Rightarrow> (Inl e, od)
      | Inr (st, rows, rescored) \<Rightarrow>
          (Inr \<lparr>sr_total = length rows,
                sr_scored = length (filter (\<lambda>(r, r'). scoreable r \<and> rr_score r' \<noteq> JNull) (zip rows rescored)),
                sr_no_response = length (filter (\<lambda>r. rr_error r = JNull \<and> is_no_response_row r) rows)\<rparr>,
           od\<lparr>od_runs := (od_runs od)(run_id \<mapsto> st\<lparr>rs_rows := rewrite_rows rescored\<rparr>)\<rparr>))"

text \<open>A run-level scorer sees all rows; it may raise.\<close>

type_synonym 'e run_scorer = "run_row list \<Rightarrow> item list \<Rightarrow> ('e, run_row list) res"

definition score_run_batch ::
    "externals \<Rightarrow> nat \<Rightarrow> 'e run_scorer \<Rightarrow> out_dir \<Rightarrow> string
      \<Rightarrow> (run_exn + 'e, score_result) res \<times> out_dir" where
  "score_run_batch ext limit run_scorer od run_id =
     (case bindE (map_errE Inl (open_run ext od run_id)) (\<lambda>(st, s).
             bindE (map_errE Inl (read_rows limit (rs_rows st))) (\<lambda>(rows, torn).
             bindE (map_errE Inr (run_scorer rows (su_items s))) (\<lambda>rescored.
             if length rescored \<noteq> length rows
             then Inl (Inl (RunError (RowCountMismatch (length rescored) (length rows))))
             else Inr (st, rows, rescored)))) of
        Inl e \<Rightarrow> (Inl e, od)
      | Inr (st, rows, rescored) \<Rightarrow>
          (Inr \<lparr>sr_total = length rows,
                sr_scored = length (filter (\<lambda>r. scoreable r \<and> rr_score r \<noteq> JNull) rescored),
                sr_no_response = length (filter is_no_response_row rescored)\<rparr>,
           od\<lparr>od_runs := (od_runs od)(run_id \<mapsto> st\<lparr>rs_rows := rewrite_rows rescored\<rparr>)\<rparr>))"

end
