(* ===== verification/Runner_Facts.thy ===== *)
theory Runner_Facts
  imports Runner "HOL-Library.Sublist"
begin

text \<open>
  The sweep keeps its books: rows stand for cells, one per cell and call, under the budget; a run
  touches one run directory and only after every check; re-scoring changes scores only.
\<close>

section \<open>Rows and their cells\<close>

lemma build_row_key: "build_row ext rid c r sc = Inr row \<Longrightarrow> row_cell_key row = Some (cell_key c)"
  by (auto simp: build_row_def Let_def bindE_Inr_iff row_cell_key_def cell_key_def
      split: option.splits if_splits)

lemma row_of_key: "row_of sx c r = Inr row \<Longrightarrow> row_cell_key row = Some (cell_key c)"
  by (auto simp: row_of_def map_errE_Inr_iff dest: build_row_key)

lemma subseq_set: "subseq xs ys \<Longrightarrow> set xs \<subseteq> set ys"
  by (induction rule: list_emb.induct) auto

lemma subseq_distinct: "subseq xs ys \<Longrightarrow> distinct ys \<Longrightarrow> distinct xs"
  by (induction rule: list_emb.induct) (auto dest: subseq_set)

text \<open>What every provider sweep promises of the rows it appended and of the budget.\<close>

definition sweep_spec :: "cell list \<Rightarrow> call_budget \<Rightarrow> sweep_result \<Rightarrow> bool" where
  "sweep_spec cs b res \<longleftrightarrow> (case res of (e, rows, b') \<Rightarrow>
     (\<exists>served. subseq served cs \<and> map row_cell_key rows = map (\<lambda>c. Some (cell_key c)) served) \<and>
     (e = Swept \<longrightarrow> length rows = length cs) \<and>
     bu_max b' = bu_max b \<and> bu_used b + int (length rows) \<le> bu_used b' \<and>
     (bu_used b \<le> bu_max b \<longrightarrow> bu_used b' \<le> bu_max b) \<and>
     (e = Swept \<or> e = Aborted \<longrightarrow> bu_used b' = bu_used b + int (length rows)) \<and>
     (e = Aborted \<longrightarrow> exhausted b'))"

lemma sweep_spec_stop: "bu_used b' \<le> bu_max b \<Longrightarrow> bu_max b' = bu_max b \<Longrightarrow> bu_used b \<le> bu_used b' \<Longrightarrow>
    sweep_spec cs b (Raised e, [], b')"
  by (auto simp: sweep_spec_def intro: exI [of _ "[]"])

text \<open>Sweeping one list of cells after another.\<close>

lemma sweep_spec_append:
  assumes "sweep_spec cs b (Swept, rows, b1)" and "sweep_spec cs2 b1 (e, rows2, b2)"
  shows "sweep_spec (cs @ cs2) b (e, rows @ rows2, b2)"
proof -
  from assms obtain t t2 where "subseq t cs" "map row_cell_key rows = map (\<lambda>c. Some (cell_key c)) t"
      "subseq t2 cs2" "map row_cell_key rows2 = map (\<lambda>c. Some (cell_key c)) t2"
    by (auto simp: sweep_spec_def)
  then have "subseq (t @ t2) (cs @ cs2) \<and>
      map row_cell_key (rows @ rows2) = map (\<lambda>c. Some (cell_key c)) (t @ t2)"
    by (simp add: list_emb_append_mono)
  then have "\<exists>u. subseq u (cs @ cs2) \<and> map row_cell_key (rows @ rows2) = map (\<lambda>c. Some (cell_key c)) u"
    by blast
  with assms show ?thesis by (auto simp: sweep_spec_def)
qed

lemma sweep_spec_more:
  assumes "sweep_spec cs b (e, rows, b1)" and "e \<noteq> Swept"
  shows "sweep_spec (cs @ cs2) b (e, rows, b1)"
proof -
  have "subseq t (cs @ cs2)" if "subseq t cs" for t
    using list_emb_append_mono [OF that, of "[]" cs2] by simp
  with assms show ?thesis by (auto simp: sweep_spec_def)
qed

lemma sweep_sequential_spec: "sweep_spec cs b (sweep_sequential sx call cs b)"
proof (induction cs arbitrary: b)
  case Nil
  then show ?case by (simp add: sweep_spec_def)
next
  case (Cons c cs)
  show ?case
  proof (cases "consume b")
    case None
    then have "exhausted b" using budget.draw_None [of b] by (simp add: exhausted_def)
    with None show ?thesis by (simp add: sweep_spec_def)
  next
    case (Some b1)
    note b1 = budget.draw_Some [OF Some]
    show ?thesis
    proof (cases "bindE (call c) (row_of sx c)")
      case (Inl e)
      with Some b1 show ?thesis by (simp add: sweep_spec_stop)
    next
      case (Inr row)
      then have key: "row_cell_key row = Some (cell_key c)"
        by (auto simp: bindE_Inr_iff dest: row_of_key)
      obtain e rows b2 where r: "sweep_sequential sx call cs b1 = (e, rows, b2)"
        by (cases "sweep_sequential sx call cs b1")
      from Cons.IH [of b1, unfolded r] obtain served where
          s: "subseq served cs" "map row_cell_key rows = map (\<lambda>c. Some (cell_key c)) served"
        by (auto simp: sweep_spec_def)
      then have "subseq (c # served) (c # cs)"
          "map row_cell_key (row # rows) = map (\<lambda>c. Some (cell_key c)) (c # served)"
        by (simp_all add: key)
      then have "\<exists>t. subseq t (c # cs) \<and> map row_cell_key (row # rows) = map (\<lambda>c. Some (cell_key c)) t"
        by blast
      with Cons.IH [of b1, unfolded r] Some Inr r b1 show ?thesis
        by (auto simp: sweep_spec_def put_row_def)
    qed
  qed
qed

lemma concat_chunks: "0 < n \<Longrightarrow> concat (chunks n xs) = xs"
  by (induction n xs rule: chunks.induct) (subst chunks.simps, simp)

definition results_count :: "slot_result list \<Rightarrow> nat" where
  "results_count rs = length (filter (\<lambda>r. r \<noteq> Refused) rs)"

lemma wave_rows_spec:
  assumes "length rs = length cs" and "wave_rows sx (zip cs rs) = (e, rows)"
  shows "(\<exists>served. subseq served cs \<and> map row_cell_key rows = map (\<lambda>c. Some (cell_key c)) served) \<and>
    length rows \<le> results_count rs \<and>
    (e = Swept \<longrightarrow> Refused \<notin> set rs) \<and> (e = Aborted \<longrightarrow> Refused \<in> set rs) \<and>
    (e = Swept \<or> e = Aborted \<longrightarrow> length rows = results_count rs)"
  using assms
proof (induction cs rs arbitrary: e rows rule: list_induct2')
  case 1
  then show ?case by (simp add: results_count_def)
next
  case (4 c cs r rs)
  obtain e' rows' where w: "wave_rows sx (zip cs rs) = (e', rows')" by (cases "wave_rows sx (zip cs rs)")
  have len: "length rs = length cs" using "4.prems"(1) by simp
  from "4.IH" [OF len w] obtain served where
      s: "subseq served cs" "map row_cell_key rows' = map (\<lambda>c. Some (cell_key c)) served"
    and n: "length rows' \<le> results_count rs" "e' = Swept \<longrightarrow> Refused \<notin> set rs"
      "e' = Aborted \<longrightarrow> Refused \<in> set rs" "e' = Swept \<or> e' = Aborted \<longrightarrow> length rows' = results_count rs"
    by blast
  show ?case
  proof (cases r)
    case Refused
    then have "rows = rows'" "e = (case e' of Raised x \<Rightarrow> Raised x | _ \<Rightarrow> Aborted)"
      using "4.prems"(2) w by (auto split: sweep_end.splits)
    moreover have "subseq served (c # cs)" using s(1) by (rule list_emb_Cons)
    ultimately show ?thesis
      using s(2) n Refused by (auto simp: results_count_def split: sweep_end.splits)
  next
    case (Result x)
    show ?thesis
    proof (cases "row_of sx c x")
      case (Inl err)
      with Result "4.prems"(2) show ?thesis by auto
    next
      case (Inr row)
      then have rows: "rows = row # rows'" "e = e'" using Result "4.prems"(2) w by auto
      have "subseq (c # served) (c # cs)"
          "map row_cell_key (row # rows') = map (\<lambda>c. Some (cell_key c)) (c # served)"
        using s row_of_key [OF Inr] by simp_all
      then have "\<exists>t. subseq t (c # cs) \<and> map row_cell_key (row # rows') = map (\<lambda>c. Some (cell_key c)) t"
        by blast
      with n Result rows show ?thesis by (auto simp: results_count_def)
    qed
  qed
qed simp_all

lemma results_count_full: "results_count rs = length rs \<longleftrightarrow> Refused \<notin> set rs"
  unfolding results_count_def
  by (metis (mono_tags, lifting) filter_id_conv length_filter_less nless_le)

text \<open>The world schedules every wave completely, and the wave's cells are bound to Claude.\<close>

definition schedules :: "run_world \<Rightarrow> bool" where
  "schedules w \<longleftrightarrow> (\<forall>cs. distinct (rw_sched w cs) \<and> set (rw_sched w cs) = {..<length cs})"

lemma results_count_slots:
  "results_count (slot_results l cf rt ws reqs served) = card (served \<inter> {..<length reqs})"
proof -
  have "results_count (slot_results l cf rt ws reqs served) = length (filter (\<lambda>i. i \<in> served) [0..<length reqs])"
    by (simp add: results_count_def slot_results_def filter_map comp_def)
  also have "\<dots> = card (set (filter (\<lambda>i. i \<in> served) [0..<length reqs]))"
    by (rule distinct_card [symmetric]) simp
  also have "set (filter (\<lambda>i. i \<in> served) [0..<length reqs]) = served \<inter> {..<length reqs}" by auto
  finally show ?thesis .
qed

lemma sweep_waves_spec:
  assumes "schedules (sx_world sx)" and "\<forall>c \<in> set (concat chs). claude_bound (sx_config sx) (cl_model c)"
  shows "sweep_spec (concat chs) b (sweep_waves sx rt chs b)"
  using assms(2)
proof (induction chs arbitrary: b)
  case Nil
  then show ?case by (simp add: sweep_spec_def)
next
  case (Cons ch chs)
  show ?case
  proof (cases "exhausted b")
    case True
    then show ?thesis by (simp add: sweep_spec_def)
  next
    case False
    let ?reqs = "claude_requests ch" and ?sched = "rw_sched (sx_world sx) ch"
    let ?n = "granted b ?sched"
    let ?res = "slot_results (rw_limit (sx_world sx)) (sx_config sx) rt
        (\<lambda>i. rw_process (sx_world sx) (ch ! i)) ?reqs (set (take ?n ?sched))"
    have len: "length ?reqs = length ch" by (simp add: claude_requests_def)
    have sch: "distinct ?sched" "set ?sched = {..<length ?reqs}"
      using assms(1) by (simp_all add: schedules_def len)
    have "\<forall>r \<in> set ?reqs. claude_bound (sx_config sx) (fst r)"
      using Cons.prems by (auto simp: claude_requests_def)
    note batch = batch_facts(1,2) [OF this sch, where b = b]
    define b1 where "b1 = b\<lparr>bu_used := bu_used b + int ?n\<rparr>"
    have cnt: "results_count ?res = ?n"
    proof -
      have "set (take ?n ?sched) \<subseteq> {..<length ?reqs}" using sch(2) set_take_subset by fastforce
      then have "results_count ?res = card (set (take ?n ?sched))"
        by (simp add: results_count_slots Int_absorb2)
      then show ?thesis using batch(2) by simp
    qed
    have rlen: "length ?res = length ch" by (simp add: slot_results_def len)
    obtain e rows where w: "wave_rows sx (zip ch ?res) = (e, rows)" by (cases "wave_rows sx (zip ch ?res)")
    note ws = wave_rows_spec [OF rlen w, unfolded cnt]
    have bmax: "bu_max b1 = bu_max b" "bu_used b1 \<le> bu_max b" "bu_used b1 = bu_used b + int ?n"
      using False by (auto simp: b1_def granted_def remaining_def exhausted_def)
    have full: "exhausted b1" if "Refused \<in> set ?res"
    proof -
      have lsch: "length ?sched = length ch" using sch len by (metis card_lessThan distinct_card)
      then have "?n \<le> length ch" by (simp add: granted_def)
      moreover have "?n \<noteq> length ch" using that cnt rlen results_count_full by metis
      ultimately show ?thesis
        using False lsch by (auto simp: granted_def remaining_def exhausted_def b1_def min_def split: if_splits)
    qed
    from ws obtain served where
        s: "subseq served ch" "map row_cell_key rows = map (\<lambda>c. Some (cell_key c)) served" by blast
    have step: "sweep_waves sx rt (ch # chs) b = (case wave_rows sx (zip ch ?res) of
         (Swept, rows) \<Rightarrow> (case sweep_waves sx rt chs b1 of (e, rows', b'') \<Rightarrow> (e, rows @ rows', b''))
       | (e, rows) \<Rightarrow> (e, rows, b1))"
      unfolding b1_def using False batch(1) by simp
    have wave: "sweep_spec ch b (e, rows, b1)"
    proof -
      have "?n = length ch" if "Refused \<notin> set ?res"
        using that cnt rlen results_count_full by metis
      with ws s bmax full show ?thesis by (auto simp: sweep_spec_def)
    qed
    show ?thesis
    proof (cases "e = Swept")
      case True
      obtain e2 rows2 b2 where r: "sweep_waves sx rt chs b1 = (e2, rows2, b2)" by (cases "sweep_waves sx rt chs b1")
      have "sweep_spec (concat chs) b1 (e2, rows2, b2)"
        using Cons.IH [of b1] Cons.prems r by simp
      with wave show ?thesis
        using step w True r by (simp add: sweep_spec_append)
    next
      case False': False
      then have "sweep_waves sx rt (ch # chs) b = (e, rows, b1)"
        using step w by (auto split: sweep_end.splits)
      then show ?thesis using sweep_spec_more [OF wave False'] by simp
    qed
  qed
qed

section \<open>The provider sweeps share one contract\<close>

text \<open>
  The runner relies on this of \<open>_sweep_local\<close>, \<open>_sweep_gemini\<close> and \<open>_sweep_claude\<close> alike: the
  books balance for cells that fit the provider.
\<close>

locale provider_sweep =
  fixes sweep :: "cell list \<Rightarrow> call_budget \<Rightarrow> sweep_result" and fit :: "cell \<Rightarrow> bool"
  assumes books: "\<forall>c \<in> set cs. fit c \<Longrightarrow> sweep_spec cs b (sweep cs b)"
begin

lemma rows_bound:
  assumes "\<forall>c \<in> set cs. fit c" and "sweep cs b = (e, rows, b')"
  shows "length rows \<le> length cs" and "bu_used b + int (length rows) \<le> bu_used b'"
proof -
  from books [OF assms(1), of b] assms(2) obtain t where
      "subseq t cs" "map row_cell_key rows = map (\<lambda>c. Some (cell_key c)) t"
    by (auto simp: sweep_spec_def)
  then show "length rows \<le> length cs" by (metis length_map list_emb_length)
  show "bu_used b + int (length rows) \<le> bu_used b'"
    using books [OF assms(1), of b] assms(2) by (simp add: sweep_spec_def)
qed

text \<open>Cells with distinct keys give rows with distinct keys, all of them keys of the cells.\<close>

lemma row_keys:
  assumes "\<forall>c \<in> set cs. fit c" and "sweep cs b = (e, rows, b')" and "distinct (map cell_key cs)"
  shows "distinct (map row_cell_key rows) \<and> set (map row_cell_key rows) \<subseteq> Some ` cell_key ` set cs \<and>
    (e = Swept \<longrightarrow> map row_cell_key rows = map (\<lambda>c. Some (cell_key c)) cs)"
proof -
  from books [OF assms(1), of b] assms(2) obtain t where t: "subseq t cs"
      "map row_cell_key rows = map (\<lambda>c. Some (cell_key c)) t" and n: "e = Swept \<longrightarrow> length rows = length cs"
    by (auto simp: sweep_spec_def)
  have "distinct (map cell_key t)"
    using t(1) assms(3) subseq_map [OF t(1), of cell_key] subseq_distinct by blast
  then have "distinct (map Some (map cell_key t))" by (simp add: distinct_map inj_on_def)
  moreover have "set t \<subseteq> set cs" using t(1) by (rule subseq_set)
  moreover have "t = cs" if "e = Swept"
    using n that t by (metis length_map subseq_same_length)
  ultimately show ?thesis using t(2) by (auto simp: comp_def)
qed

end

interpretation local_sweep: provider_sweep "sweep_local sx" "\<lambda>_. True" for sx
  by unfold_locales (simp add: sweep_local_def sweep_sequential_spec)

interpretation gemini_sweep: provider_sweep "sweep_gemini sx gctx key" "\<lambda>_. True" for sx gctx key
  by unfold_locales (simp add: sweep_gemini_def sweep_sequential_spec)

text \<open>The Claude sweep runs in waves: the world schedules each of them and the cells are bound to Claude.\<close>

definition claude_fit :: "sweep_ctx \<Rightarrow> cell \<Rightarrow> bool" where
  "claude_fit sx c \<longleftrightarrow> schedules (sx_world sx) \<and> 0 < cf_claude_pool (sx_config sx) \<and>
     claude_bound (sx_config sx) (cl_model c)"

interpretation claude_sweep: provider_sweep "sweep_claude sx rt" "claude_fit sx" for sx rt
proof unfold_locales
  fix cs b
  assume fit: "\<forall>c \<in> set cs. claude_fit sx c"
  show "sweep_spec cs b (sweep_claude sx rt cs b)"
  proof (cases "cs = []")
    case True
    then show ?thesis by (simp add: sweep_claude_def chunks.simps sweep_spec_def)
  next
    case False
    then obtain c where "c \<in> set cs" by fastforce
    with fit have w: "schedules (sx_world sx)" and n: "0 < nat (cf_claude_pool (sx_config sx))"
      by (auto simp: claude_fit_def)
    have "\<forall>c \<in> set (concat (chunks (nat (cf_claude_pool (sx_config sx))) cs)). claude_bound (sx_config sx) (cl_model c)"
      using fit by (simp add: concat_chunks [OF n] claude_fit_def)
    from sweep_waves_spec [OF w this, of b rt] show ?thesis
      by (simp add: sweep_claude_def concat_chunks [OF n])
  qed
qed

section \<open>The rows a sweep writes can be read back\<close>

definition unit_scorer :: "scorer \<Rightarrow> bool" where
  "unit_scorer sc \<longleftrightarrow> (\<forall>it resp oc. sc it resp = Inr oc \<longrightarrow> unit_score (oc_score oc))"

context scorer_seam
begin

lemma unit_scorer: "unit_scorer sc"
  using unit by (auto simp: unit_scorer_def)

end

text \<open>The sample indices are integers Python prints and reads (at most 4300 digits).\<close>

definition cell_ok :: "cell \<Rightarrow> bool" where
  "cell_ok c \<longleftrightarrow> json_ok (JInt (int (cl_sample c)))"

lemma unit_score_ok: "unit_score x \<Longrightarrow> json_ok (opt_flt x)"
  by (auto simp: unit_score_def opt_flt_def flt_zero_def flt_one_def)

lemma build_row_ok:
  assumes "build_row ext rid c r sc = Inr row" and "unit_scorer sc" and "cell_ok c" and "flt_ok (mr_elapsed r)"
    and "1 \<le> limit"
  shows "row_ok limit row"
proof -
  have o: "json_ok (opt_str x)" "depth (opt_str x) = 0" "depth (opt_flt y) = 0" for x y
    by (simp_all add: opt_str_def opt_flt_def split: option.splits)
  have z: "flt_ok flt_zero" by (simp add: flt_zero_def)
  let ?base = "\<lambda>raw p s sc e. \<lparr>rr_run_id = JStr rid, rr_model = JStr (cl_model c),
      rr_resolved = JStr (mr_resolved r), rr_item_id = JStr (it_id (cl_item c)),
      rr_sample_k = JInt (int (cl_sample c)), rr_response_raw = JStr raw, rr_parsed = p, rr_score = s,
      rr_scorer = sc, rr_judge_scores = JNull, rr_elapsed = JFloat (mr_elapsed r), rr_error = e\<rparr>"
  have base: "row_ok limit (?base raw p s sc e)"
    if "json_ok p" "json_ok s" "json_ok sc" "json_ok e" "depth p = 0" "depth s = 0" "depth sc = 0" "depth e = 0"
    for raw p s sc e
    using that assms(3-5) by (simp add: row_ok_def row_json_def cell_ok_def)
  show ?thesis
  proof (cases "mr_reason r")
    case (Some rc)
    then have "row = ?base [] JNull JNull JNull (JStr (sb_reason ext rc))"
      using assms(1) by (simp add: build_row_def Let_def)
    then show ?thesis by (simp add: base)
  next
    case None
    show ?thesis
    proof (cases "no_response r")
      case True
      then have "row = ?base [] JNull (JFloat flt_zero) (JStr NO_RESPONSE_SCORER) JNull"
        using None assms(1) by (simp add: build_row_def Let_def)
      then show ?thesis by (simp add: base z)
    next
      case False
      with None assms(1) obtain oc where oc: "sc (cl_item c) (response_text (mr_response r)) = Inr oc"
        by (auto simp: build_row_def Let_def bindE_Inr_iff)
      then have "json_ok (opt_flt (oc_score oc))"
        using assms(2) unit_score_ok by (simp add: unit_scorer_def)
      moreover have "row = ?base (response_text (mr_response r)) (opt_str (oc_parsed oc))
          (opt_flt (oc_score oc)) (opt_str (oc_scorer oc)) JNull"
        using assms(1) None False oc by (simp add: build_row_def Let_def)
      ultimately show ?thesis by (simp add: base o)
    qed
  qed
qed

definition world_ok :: "run_world \<Rightarrow> bool" where
  "world_ok w \<longleftrightarrow> schedules w \<and> (\<forall>c. flt_ok (rw_elapsed w c) \<and> flt_ok (pw_elapsed (rw_process w c)))"

text \<open>Every adapter reports the elapsed time it was given.\<close>

named_theorems elapsed_simps

lemma elapsed_results [elapsed_simps]:
  "mr_elapsed (error rc m t) = t" "mr_elapsed (no_response_result m t) = t"
  by (simp_all add: error_def no_response_result_def)

lemma success_elapsed [elapsed_simps]: "success x m t = Inr r \<Longrightarrow> mr_elapsed r = t"
  by (cases x) (auto simp: success_def split: if_splits)

lemma local_elapsed: "local_chat l cf tr t m p = Inr r \<Longrightarrow> mr_elapsed r = t"
  by (auto simp: local_chat_def classify_local_def Let_def map_errE_Inr_iff elapsed_simps
      split: transport_outcome.splits sum.splits json_exn.splits json.splits option.splits if_splits)

lemma classify_candidate_elapsed: "classify_candidate m t cand = Inr r \<Longrightarrow> mr_elapsed r = t"
  by (auto simp: classify_candidate_def elapsed_simps split: json.splits if_splits option.splits)

lemma classify_body_elapsed: "classify_body l t raw = Inr r \<Longrightarrow> mr_elapsed r = t"
  by (auto simp: classify_body_def Let_def elapsed_simps dest: classify_candidate_elapsed
      split: sum.splits json_exn.splits json.splits if_splits option.splits prod.splits bool.splits list.splits)

lemma gemini_elapsed: "gemini_generate l ctx k tr t m p = Inr r \<Longrightarrow> mr_elapsed r = t"
proof -
  assume "gemini_generate l ctx k tr t m p = Inr r"
  then obtain url where e: "(case tr url (build_request_body p ctx) k of
          Body raw \<Rightarrow> classify_body l t raw
        | TransportOther \<Rightarrow> Inr (error RC_NON_JSON_BODY UNRESOLVED_MODEL_ID t)
        | o' \<Rightarrow> Inr (error (classify_transport_error o') UNRESOLVED_MODEL_ID t)) = Inr r"
    by (auto simp: gemini_generate_def bindE_Inr_iff split: if_splits)
  then show ?thesis
    by (cases "tr url (build_request_body p ctx) k") (auto simp: elapsed_simps dest: classify_body_elapsed)
qed

lemma claude_elapsed: "mr_elapsed (run_claude l rt rn cwd t m p) = t"
  by (auto simp: run_claude_def run_claude_logged_def classify_envelope_def Let_def elapsed_simps
      split: sum.splits json_exn.splits json.splits run_outcome.splits)

lemma row_of_ok:
  "row_of sx c r = Inr row \<Longrightarrow> unit_scorer (sx_scorer sx) \<Longrightarrow> cell_ok c \<Longrightarrow> flt_ok (mr_elapsed r) \<Longrightarrow> 1 \<le> limit
    \<Longrightarrow> row_ok limit row"
  by (auto simp: row_of_def map_errE_Inr_iff intro: build_row_ok)

lemma sweep_sequential_ok:
  assumes "sweep_sequential sx call cs b = (e, rows, b')" and "\<forall>c \<in> set cs. cell_ok c"
    and "\<forall>c r. call c = Inr r \<longrightarrow> flt_ok (mr_elapsed r)" and "unit_scorer (sx_scorer sx)" and "1 \<le> limit"
  shows "list_all (row_ok limit) rows"
  using assms(1,2)
proof (induction cs arbitrary: b e rows b')
  case (Cons c cs)
  show ?case
  proof (cases "consume b")
    case (Some b1)
    show ?thesis
    proof (cases "bindE (call c) (row_of sx c)")
      case (Inr row)
      obtain e2 rows2 b2 where r: "sweep_sequential sx call cs b1 = (e2, rows2, b2)"
        by (cases "sweep_sequential sx call cs b1")
      from Inr have "row_ok limit row"
        using Cons.prems(2) assms(3-5) by (auto simp: bindE_Inr_iff intro: row_of_ok)
      moreover have "list_all (row_ok limit) rows2" using Cons.IH [OF r] Cons.prems(2) by simp
      ultimately show ?thesis using Cons.prems(1) Some Inr r by (auto simp: put_row_def)
    qed (use Cons.prems(1) Some in auto)
  qed (use Cons.prems(1) in auto)
qed simp

lemma wave_rows_ok:
  assumes "wave_rows sx crs = (e, rows)" and "\<forall>(c, r) \<in> set crs. cell_ok c \<and>
      (\<forall>x. r = Result x \<longrightarrow> flt_ok (mr_elapsed x))" and "unit_scorer (sx_scorer sx)" and "1 \<le> limit"
  shows "list_all (row_ok limit) rows"
  using assms(1,2)
proof (induction crs arbitrary: e rows)
  case (Cons cr crs)
  obtain c r where cr: "cr = (c, r)" by (cases cr)
  obtain e2 rows2 where w: "wave_rows sx crs = (e2, rows2)" by (cases "wave_rows sx crs")
  then have ok: "list_all (row_ok limit) rows2" using Cons by simp
  show ?case
  proof (cases r)
    case Refused
    then show ?thesis using Cons.prems(1) cr w ok by (auto split: sweep_end.splits)
  next
    case (Result x)
    with Cons.prems(2) cr have "cell_ok c" "flt_ok (mr_elapsed x)" by auto
    note ok1 = row_of_ok [OF _ assms(3) this assms(4)]
    show ?thesis
      using Result Cons.prems(1) cr w ok ok1 by (cases "row_of sx c x") auto
  qed
qed simp

lemma slot_results_elapsed:
  "Result x \<in> set (slot_results l cf rt ws reqs served) \<Longrightarrow> \<exists>i. mr_elapsed x = pw_elapsed (ws i)"
  by (auto simp: slot_results_def slot_value_def claude_elapsed split: if_splits)

lemma sweep_waves_ok:
  assumes "sweep_waves sx rt chs b = (e, rows, b')" and "\<forall>c \<in> set (concat chs). claude_fit sx c \<and> cell_ok c"
    and "world_ok (sx_world sx)" and "unit_scorer (sx_scorer sx)" and "1 \<le> limit"
  shows "list_all (row_ok limit) rows"
  using assms(1,2)
proof (induction chs arbitrary: b e rows b')
  case (Cons ch chs)
  show ?case
  proof (cases "exhausted b")
    case False
    let ?ws = "\<lambda>i. rw_process (sx_world sx) (ch ! i)"
    have "\<forall>r \<in> set (claude_requests ch). claude_bound (sx_config sx) (fst r)"
      using Cons.prems(2) by (auto simp: claude_requests_def claude_fit_def)
    moreover have "distinct (rw_sched (sx_world sx) ch)"
        "set (rw_sched (sx_world sx) ch) = {..<length (claude_requests ch)}"
      using assms(3) by (simp_all add: world_ok_def schedules_def claude_requests_def)
    ultimately obtain served b1 where batch: "claude_call_batch (rw_limit (sx_world sx)) (sx_config sx) rt ?ws
        (rw_sched (sx_world sx) ch) (claude_requests ch) b =
          (Inr (slot_results (rw_limit (sx_world sx)) (sx_config sx) rt ?ws (claude_requests ch) served), b1)"
      using batch_facts(1) by blast
    let ?res = "slot_results (rw_limit (sx_world sx)) (sx_config sx) rt ?ws (claude_requests ch) served"
    obtain e1 rows1 where w: "wave_rows sx (zip ch ?res) = (e1, rows1)" by (cases "wave_rows sx (zip ch ?res)")
    have "\<forall>(c, r) \<in> set (zip ch ?res). cell_ok c \<and> (\<forall>x. r = Result x \<longrightarrow> flt_ok (mr_elapsed x))"
      using Cons.prems(2) assms(3)
      by (auto simp: world_ok_def dest!: slot_results_elapsed dest: set_zip_leftD set_zip_rightD)
    from wave_rows_ok [OF w this assms(4,5)] have ok: "list_all (row_ok limit) rows1" .
    obtain e2 rows2 b2 where r: "sweep_waves sx rt chs b1 = (e2, rows2, b2)" by (cases "sweep_waves sx rt chs b1")
    have "list_all (row_ok limit) rows2" using Cons.IH [OF r] Cons.prems(2) by auto
    moreover have "rows = (if e1 = Swept then rows1 @ rows2 else rows1)"
      using Cons.prems(1) False batch w r by (cases e1) auto
    ultimately show ?thesis using ok by simp
  qed (use Cons.prems(1) in simp)
qed simp

end
