(* ===== verification/Runner_Books.thy ===== *)
theory Runner_Books
  imports Runner_Facts
begin

text \<open>
  What one call of \<open>run\<close> does to the books and to the log: from the contract of the three provider
  sweeps to the loop over the bindings, a fresh run's summary, and a log that is extended by any
  number of crashed and resumed attempts.
\<close>

section \<open>The loop over the bindings\<close>

text \<open>The end of a binding loop read as the end of a sweep.\<close>

fun ends :: "run_end \<Rightarrow> sweep_end \<Rightarrow> bool" where
  "ends (RunDone False) x = (x = Swept)"
| "ends (RunDone True) x = (x = Aborted)"
| "ends (RunRaised _) x = (\<exists>e. x = Raised e)"

definition run_spec :: "cell list \<Rightarrow> call_budget \<Rightarrow> run_end \<times> run_row list \<times> call_budget \<Rightarrow> bool" where
  "run_spec cs b res \<longleftrightarrow> (case res of (e, rows, b') \<Rightarrow> \<exists>x. ends e x \<and> sweep_spec cs b (x, rows, b'))"

lemma run_spec_append:
  assumes "run_spec cs b (RunDone False, rows, b1)" and "run_spec cs2 b1 (e, rows2, b2)"
  shows "run_spec (cs @ cs2) b (e, rows @ rows2, b2)"
  using assms by (auto simp: run_spec_def intro: sweep_spec_append)

lemma run_spec_more:
  assumes "run_spec cs b (e, rows, b1)" and "e \<noteq> RunDone False"
  shows "run_spec (cs @ cs2) b (e, rows, b1)"
proof -
  from assms(1) obtain x where "ends e x" and s: "sweep_spec cs b (x, rows, b1)"
    by (auto simp: run_spec_def)
  moreover have "x \<noteq> Swept" using \<open>ends e x\<close> assms(2) by (cases "(e, x)" rule: ends.cases) auto
  ultimately show ?thesis using sweep_spec_more [OF s] by (auto simp: run_spec_def)
qed

lemma run_spec_stop: "bu_used b \<le> bu_max b \<Longrightarrow> run_spec cs b (RunRaised e, [], b)"
  by (auto simp: run_spec_def intro: sweep_spec_stop)

text \<open>The cells of a binding fit its provider.\<close>

definition binding_fit :: "sweep_ctx \<Rightarrow> model_binding \<Rightarrow> bool" where
  "binding_fit sx b \<longleftrightarrow> (mb_provider b = Claude \<longrightarrow>
     schedules (sx_world sx) \<and> 0 < cf_claude_pool (sx_config sx) \<and> claude_bound (sx_config sx) (mb_alias b))"

lemma pending_binding: "c \<in> set (pending_cells b s samples done) \<Longrightarrow> cl_model c = mb_alias b \<and> cl_binding c = b"
  by (auto simp: pending_cells_def)

lemma sweep_binding_spec:
  assumes "binding_fit sx b" and "\<forall>c \<in> set cs. cl_model c = mb_alias b" and "bu_used bu \<le> bu_max bu"
  shows "run_spec cs bu (sweep_binding sx pp gctx b cs bu)"
proof -
  have finish: "run_spec cs bu (case r of (e, rows, bu') \<Rightarrow>
      (case e of Swept \<Rightarrow> RunDone False | Aborted \<Rightarrow> RunDone True | Raised _ \<Rightarrow> RunRaised SweepFailed, rows, bu'))"
    if "sweep_spec cs bu r" for r
    using that by (cases r) (auto simp: run_spec_def split: sweep_end.splits)
  show ?thesis
  proof (cases "mb_provider b")
    case Claude
    then have "\<forall>c \<in> set cs. claude_fit sx c"
      using assms(1,2) by (auto simp: binding_fit_def claude_fit_def)
    then show ?thesis
      using Claude finish claude_sweep.books run_spec_stop [OF assms(3)]
      by (auto simp: sweep_binding_def split: option.split)
  next
    case Local
    then show ?thesis using finish local_sweep.books by (simp add: sweep_binding_def)
  next
    case Gemini
    then show ?thesis
      using finish gemini_sweep.books run_spec_stop [OF assms(3)]
      by (auto simp: sweep_binding_def split: option.split)
  qed
qed

lemma run_spec_budget:
  "run_spec cs b (e, rows, b') \<Longrightarrow> bu_used b \<le> bu_max b \<Longrightarrow> bu_used b' \<le> bu_max b'"
  by (auto simp: run_spec_def sweep_spec_def)

definition plan_cells :: "suite \<Rightarrow> int \<Rightarrow> cell_key list \<Rightarrow> model_binding list \<Rightarrow> cell list" where
  "plan_cells s samples done bs = concat (map (\<lambda>b. pending_cells b s samples done) bs)"

lemma sweep_bindings_spec:
  assumes "\<forall>b \<in> set bs. binding_fit sx b" and "bu_used bu \<le> bu_max bu"
  shows "run_spec (plan_cells s (pp_samples pp) (pp_done pp) bs) bu (sweep_bindings sx pp s gctx bs bu)"
  using assms
proof (induction bs arbitrary: bu)
  case Nil
  then show ?case by (simp add: plan_cells_def run_spec_def sweep_spec_def)
next
  case (Cons b bs)
  let ?cs = "pending_cells b s (pp_samples pp) (pp_done pp)"
  have cells: "plan_cells s (pp_samples pp) (pp_done pp) (b # bs)
      = ?cs @ plan_cells s (pp_samples pp) (pp_done pp) bs"
    by (simp add: plan_cells_def)
  show ?case
  proof (cases "?cs = []")
    case True
    then show ?thesis using Cons cells by simp
  next
    case False
    obtain e rows bu1 where r: "sweep_binding sx pp gctx b ?cs bu = (e, rows, bu1)"
      by (cases "sweep_binding sx pp gctx b ?cs bu")
    have spec: "run_spec ?cs bu (e, rows, bu1)"
      unfolding r [symmetric] using Cons.prems pending_binding by (intro sweep_binding_spec) auto
    obtain e2 rows2 bu2 where r2: "sweep_bindings sx pp s gctx bs bu1 = (e2, rows2, bu2)"
      by (cases "sweep_bindings sx pp s gctx bs bu1")
    have "run_spec (plan_cells s (pp_samples pp) (pp_done pp) bs) bu1 (e2, rows2, bu2)"
      unfolding r2 [symmetric] using Cons run_spec_budget [OF spec] by simp
    then show ?thesis
      using run_spec_append [of ?cs bu rows bu1] run_spec_more [OF spec] spec False r r2 cells
      by (cases "e = RunDone False") (auto split: run_end.splits bool.splits)
  qed
qed

lemma show_nat_mono: "m \<le> n \<Longrightarrow> length (show_nat m) \<le> length (show_nat n)"
proof (induction n arbitrary: m rule: less_induct)
  case (less n)
  show ?case
  proof (cases "m < 10")
    case True
    then have "length (show_nat m) = 1" by (simp add: show_nat.simps [of m])
    then show ?thesis using show_nat_length [of n] by linarith
  next
    case False
    then have "length (show_nat (m div 10)) \<le> length (show_nat (n div 10))"
      using less.prems by (intro less.IH) (auto simp: div_le_mono)
    then show ?thesis using False less.prems by (simp add: show_nat.simps [of m] show_nat.simps [of n])
  qed
qed

section \<open>The cells of a plan\<close>

lemma cell_key_inj:
  "cell_key c = cell_key d \<longleftrightarrow> cl_model c = cl_model d \<and> it_id (cl_item c) = it_id (cl_item d) \<and> cl_sample c = cl_sample d"
  by (simp add: cell_key_def)

lemma pending_filter:
  "pending_cells b s samples done = filter (\<lambda>c. cell_key c \<notin> set done) (pending_cells b s samples [])"
  by (simp add: pending_cells_def)

lemma plan_filter:
  "plan_cells s samples done bs = filter (\<lambda>c. cell_key c \<notin> set done) (plan_cells s samples [] bs)"
  unfolding plan_cells_def by (induction bs) (simp_all add: pending_filter [of _ _ _ "done"])

lemma length_concat_same: "\<forall>xs \<in> set xss. length xs = n \<Longrightarrow> length (concat xss) = length xss * n"
  by (induction xss) auto

lemma plan_length:
  "length (plan_cells s samples [] bs) = length bs * (length (su_items s) * nat samples)"
proof -
  have "length (pending_cells b s samples []) = length (su_items s) * nat samples" for b
    using length_concat_same [where xss = "map (\<lambda>it. map (\<lambda>k. \<lparr>cl_model = mb_alias b, cl_binding = b,
        cl_item = it, cl_sample = k\<rparr>) [0..<nat samples]) (su_items s)"]
    by (simp add: pending_cells_def)
  then show ?thesis
    using length_concat_same [where xss = "map (\<lambda>b. pending_cells b s samples []) bs"]
    by (simp add: plan_cells_def)
qed

lemma in_pending:
  "c \<in> set (pending_cells b s samples []) \<longleftrightarrow>
     cl_model c = mb_alias b \<and> cl_binding c = b \<and> cl_item c \<in> set (su_items s) \<and> cl_sample c < nat samples"
proof
  assume "cl_model c = mb_alias b \<and> cl_binding c = b \<and> cl_item c \<in> set (su_items s) \<and> cl_sample c < nat samples"
  then show "c \<in> set (pending_cells b s samples [])"
    by (cases c) (force simp: pending_cells_def)
qed (auto simp: pending_cells_def)

lemma distinct_keys_concat:
  assumes "distinct xs" and "\<And>x. x \<in> set xs \<Longrightarrow> distinct (map key (g x))"
    and "\<And>x y c d. x \<in> set xs \<Longrightarrow> y \<in> set xs \<Longrightarrow> c \<in> set (g x) \<Longrightarrow> d \<in> set (g y) \<Longrightarrow> key c = key d \<Longrightarrow> x = y"
  shows "distinct (map key (concat (map g xs)))"
  using assms
proof (induction xs)
  case (Cons x xs)
  have "distinct (map key (concat (map g xs)))" using Cons by simp
  moreover have "key ` set (g x) \<inter> key ` set (concat (map g xs)) = {}"
    using Cons.prems(1,3) by fastforce
  ultimately show ?case using Cons.prems(2) by simp
qed simp

lemma plan_distinct:
  assumes "distinct (map mb_alias bs)" and "distinct (map it_id (su_items s))"
  shows "distinct (map cell_key (plan_cells s samples done bs))"
proof -
  have items: "distinct (su_items s)" and inj: "inj_on it_id (set (su_items s))"
    using assms(2) by (simp_all add: distinct_map)
  have "distinct (map cell_key (pending_cells b s samples []))" for b
    unfolding pending_cells_def
    by (simp, rule distinct_keys_concat [OF items])
      (auto simp: cell_key_inj distinct_map inj_on_def dest: inj_onD [OF inj])
  moreover have "distinct bs" and "inj_on mb_alias (set bs)" using assms(1) by (simp_all add: distinct_map)
  ultimately have "distinct (map cell_key (plan_cells s samples [] bs))"
    unfolding plan_cells_def
    by (intro distinct_keys_concat) (auto simp: in_pending cell_key_inj dest: inj_onD)
  then show ?thesis by (subst plan_filter) (rule distinct_map_filter)
qed

lemma resolve_bindings_Inr:
  assumes "resolve_bindings config aliases label = Inr bs"
  shows "map mb_alias bs = aliases" and "\<forall>b \<in> set bs. binding_for (cf_profile config) (mb_alias b) = Inr b"
    and "set bs \<subseteq> set (ep_models (cf_profile config))"
proof -
  have r: "bindings_for (cf_profile config) aliases = Inr bs"
    using assms by (simp add: resolve_bindings_def map_errE_Inr_iff)
  from bindings_for_Inr [OF r] show "map mb_alias bs = aliases" "set bs \<subseteq> set (ep_models (cf_profile config))"
    by simp_all
  show "\<forall>b \<in> set bs. binding_for (cf_profile config) (mb_alias b) = Inr b"
    using r unfolding bindings_for_def by (auto dest!: mapE_in_set dest: binding_for_Inr)
qed

lemma resolved_fit:
  assumes "resolve_bindings (sx_config sx) aliases label = Inr bs" and "schedules (sx_world sx)"
    and "0 < cf_claude_pool (sx_config sx)"
  shows "\<forall>b \<in> set bs. binding_fit sx b"
  using resolve_bindings_Inr(2) [OF assms(1)] assms(2,3) by (auto simp: binding_fit_def claude_bound_def)

section \<open>The rows of a run are well-formed\<close>

lemma sweep_binding_ok:
  assumes "sweep_binding sx pp gctx b cs bu = (e, rows, bu')" and "binding_fit sx b"
    and "\<forall>c \<in> set cs. cl_model c = mb_alias b \<and> cell_ok c"
    and "world_ok (sx_world sx)" and "unit_scorer (sx_scorer sx)" and "1 \<le> limit"
  shows "list_all (row_ok limit) rows"
proof -
  have loc: "list_all (row_ok limit) rs" if "sweep_local sx cs bu = (x, rs, c)" for x rs c
    using that assms(3-6) unfolding sweep_local_def
    by (intro sweep_sequential_ok [OF that [unfolded sweep_local_def]])
      (auto simp: local_result_def map_errE_Inr_iff world_ok_def dest: local_elapsed)
  have gem: "list_all (row_ok limit) rs" if "sweep_gemini sx g k cs bu = (x, rs, c)" for x rs c g k
    using that assms(3-6) unfolding sweep_gemini_def
    by (intro sweep_sequential_ok [OF that [unfolded sweep_gemini_def]])
      (auto simp: gemini_result_def map_errE_Inr_iff world_ok_def dest: gemini_elapsed)
  have cla: "list_all (row_ok limit) rs" if "sweep_claude sx rt cs bu = (x, rs, c)" "mb_provider b = Claude" for x rs c rt
  proof -
    from that(2) assms(2) have "0 < nat (cf_claude_pool (sx_config sx))" by (simp add: binding_fit_def)
    then have "\<forall>c \<in> set (concat (chunks (nat (cf_claude_pool (sx_config sx))) cs)). claude_fit sx c \<and> cell_ok c"
      using assms(2,3) that(2) by (auto simp: concat_chunks binding_fit_def claude_fit_def)
    from sweep_waves_ok [OF that(1) [unfolded sweep_claude_def] this assms(4-6)] show ?thesis .
  qed
  show ?thesis
    using assms(1) loc gem cla
    by (auto simp: sweep_binding_def Let_def split: provider.splits option.splits prod.splits)
qed

lemma sweep_bindings_ok:
  assumes "sweep_bindings sx pp s gctx bs bu = (e, rows, bu')" and "\<forall>b \<in> set bs. binding_fit sx b"
    and "json_ok (JInt (pp_samples pp))"
    and "world_ok (sx_world sx)" and "unit_scorer (sx_scorer sx)" and "1 \<le> limit"
  shows "list_all (row_ok limit) rows"
  using assms(1,2)
proof (induction bs arbitrary: bu e rows bu')
  case (Cons b bs)
  let ?cs = "pending_cells b s (pp_samples pp) (pp_done pp)"
  show ?case
  proof (cases "?cs = []")
    case True
    then show ?thesis using Cons by simp
  next
    case False
    obtain e1 rows1 bu1 where r: "sweep_binding sx pp gctx b ?cs bu = (e1, rows1, bu1)"
      by (cases "sweep_binding sx pp gctx b ?cs bu")
    have "\<forall>c \<in> set ?cs. cl_model c = mb_alias b \<and> cell_ok c"
    proof
      fix c
      assume "c \<in> set ?cs"
      then have "cl_model c = mb_alias b" and "cl_sample c < nat (pp_samples pp)" by (auto simp: pending_cells_def)
      moreover have "length (show_nat (cl_sample c)) \<le> length (show_nat (nat (pp_samples pp)))"
        using calculation(2) by (intro show_nat_mono) simp
      ultimately show "cl_model c = mb_alias b \<and> cell_ok c"
        using assms(3) by (cases "0 \<le> pp_samples pp") (auto simp: cell_ok_def)
    qed
    from sweep_binding_ok [OF r _ this assms(4-6)] Cons.prems(2) have ok: "list_all (row_ok limit) rows1" by simp
    obtain e2 rows2 bu2 where r2: "sweep_bindings sx pp s gctx bs bu1 = (e2, rows2, bu2)"
      by (cases "sweep_bindings sx pp s gctx bs bu1")
    have "list_all (row_ok limit) rows2" using Cons.IH [OF r2] Cons.prems(2) by simp
    moreover have "rows = rows1 \<or> rows = rows1 @ rows2"
      using Cons.prems(1) False r r2 by (auto split: run_end.splits bool.splits)
    ultimately show ?thesis using ok by auto
  qed
qed simp

section \<open>A fresh run\<close>

lemma append_rows_text:
  "append_rows file rows = (case file of
     NoFile \<Rightarrow> FileText (rows_text rows) | FileText t \<Rightarrow> FileText (t @ rows_text rows) | f \<Rightarrow> f)"
proof -
  have t: "foldl append_row (FileText t) rows = FileText (t @ rows_text rows)" for t
    by (induction rows arbitrary: t) (simp_all add: append_row_def rows_text_def)
  have "foldl append_row OSFailure rows = OSFailure" "foldl append_row NotUtf8 rows = NotUtf8"
    by (induction rows) (simp_all add: append_row_def)
  with t show ?thesis by (auto simp: append_rows_def split: file_read.splits)
qed

lemma budget_init: "CallBudget_init n = Inr b \<longleftrightarrow> 1 \<le> n \<and> b = \<lparr>bu_max = n, bu_used = 0\<rparr>"
  by (auto simp: CallBudget_init_def)

text \<open>What a sweep of a prepared plan returns and appends.\<close>

lemma run_sweep_cases:
  assumes "run_sweep ext w config s scorer pp st = (Inr z, st')"
  obtains ab rows bu' where
    "sweep_bindings \<lparr>sx_ext = ext, sx_world = w, sx_run_id = pp_run_id pp, sx_config = config, sx_scorer = scorer\<rparr>
       pp s (ep_gemini (cf_profile config)) (pp_bindings pp) \<lparr>bu_max = pp_max_calls pp, bu_used = 0\<rparr>
       = (RunDone ab, rows, bu')"
    and "1 \<le> pp_max_calls pp"
    and "st' = st\<lparr>rs_rows := append_rows (rs_rows st) rows\<rparr>"
    and "z = \<lparr>rz_run_id = pp_run_id pp,
       rz_cells_total = length (pp_roster pp) * length (su_items s) * nat (pp_samples pp),
       rz_cells_completed = length (fromkeys (pp_done pp)) + length rows,
       rz_cells_this_run = length rows, rz_budget_used = bu_used bu', rz_budget_max = bu_max bu', rz_aborted = ab\<rparr>"
  using assms
  by (auto simp: run_sweep_def Let_def budget_init split: sum.splits prod.splits run_end.splits)

lemma prepare_fresh_facts:
  assumes "prepare_fresh ext w config s args od = Inr (pp, st)"
  shows "pp_done pp = []" and "rs_rows st = NoFile" and "od_runs od (pp_run_id pp) = None"
    and "pp_run_id pp = rw_minted w" and "distinct (pp_roster pp)" and "1 \<le> pp_samples pp"
    and "resolve_bindings config (pp_roster pp) ''roster'' = Inr (pp_bindings pp)"
    and "pp_roster pp = fromkeys (first_some (ra_roster args) (cf_roster config))"
    and "pp_samples pp = first_some (ra_samples args) (cf_samples config)"
  using assms
  by (auto simp: prepare_fresh_def Let_def bindE_Inr_iff validate_sweep_params_def split: if_splits)

text \<open>The keys of the grid: every model of the roster, every item, every sample index.\<close>

definition grid_keys :: "string list \<Rightarrow> suite \<Rightarrow> int \<Rightarrow> cell_key set" where
  "grid_keys roster s samples =
     {(JStr m, JStr (it_id it), JInt k) | m it k. m \<in> set roster \<and> it \<in> set (su_items s) \<and> 0 \<le> k \<and> k < samples}"

lemma grid_keys_fromkeys [simp]: "grid_keys (fromkeys roster) s samples = grid_keys roster s samples"
  by (simp add: grid_keys_def)

lemma plan_grid:
  "c \<in> set (plan_cells s samples done bs) \<Longrightarrow> cell_key c \<in> grid_keys (map mb_alias bs) s samples"
  by (auto simp: plan_cells_def pending_filter [of _ _ _ "done"] in_pending cell_key_def grid_keys_def)

lemma plan_keys: "cell_key ` set (plan_cells s samples [] bs) = grid_keys (map mb_alias bs) s samples"
proof
  show "cell_key ` set (plan_cells s samples [] bs) \<subseteq> grid_keys (map mb_alias bs) s samples"
    using plan_grid by blast
  show "grid_keys (map mb_alias bs) s samples \<subseteq> cell_key ` set (plan_cells s samples [] bs)"
  proof
    fix key
    assume "key \<in> grid_keys (map mb_alias bs) s samples"
    then obtain b it k where b: "b \<in> set bs" "it \<in> set (su_items s)" "0 \<le> k" "k < samples"
        "key = (JStr (mb_alias b), JStr (it_id it), JInt k)"
      by (auto simp: grid_keys_def)
    let ?c = "\<lparr>cl_model = mb_alias b, cl_binding = b, cl_item = it, cl_sample = nat k\<rparr>"
    have "?c \<in> set (pending_cells b s samples [])" using b by (simp add: in_pending)
    then have "?c \<in> set (plan_cells s samples [] bs)" using b(1) by (auto simp: plan_cells_def)
    moreover have "key = cell_key ?c" using b by (simp add: cell_key_def)
    ultimately show "key \<in> cell_key ` set (plan_cells s samples [] bs)" by blast
  qed
qed

lemma pending_keys:
  "cell_key ` set (plan_cells s samples done bs) = grid_keys (map mb_alias bs) s samples - set done"
  unfolding plan_keys [symmetric] by (subst plan_filter) auto

text \<open>The books of a sweep that returns: what it appended, which cells that served, what it reports.\<close>

lemma sweep_accounts:
  assumes "run_sweep ext w config s scorer pp st = (Inr z, st1)"
    and "\<forall>b \<in> set (pp_bindings pp). binding_fit
      \<lparr>sx_ext = ext, sx_world = w, sx_run_id = pp_run_id pp, sx_config = config, sx_scorer = scorer\<rparr> b"
  obtains rows ks where "st1 = st\<lparr>rs_rows := append_rows (rs_rows st) rows\<rparr>"
    and "subseq ks (map cell_key (plan_cells s (pp_samples pp) (pp_done pp) (pp_bindings pp)))"
    and "map row_cell_key rows = map Some ks"
    and "rz_run_id z = pp_run_id pp"
    and "rz_cells_total z = length (pp_roster pp) * length (su_items s) * nat (pp_samples pp)"
    and "rz_cells_completed z = length (fromkeys (pp_done pp)) + length rows" and "rz_cells_this_run z = length rows"
    and "rz_budget_used z = int (length rows)" and "rz_budget_max z = pp_max_calls pp" and "1 \<le> pp_max_calls pp"
    and "int (length rows) \<le> pp_max_calls pp" and "rz_aborted z \<longrightarrow> int (length rows) = pp_max_calls pp"
    and "\<not> rz_aborted z \<longrightarrow> ks = map cell_key (plan_cells s (pp_samples pp) (pp_done pp) (pp_bindings pp))"
    and "world_ok w \<and> unit_scorer scorer \<and> json_ok (JInt (pp_samples pp)) \<longrightarrow>
      list_all (row_ok 1) rows"
proof -
  let ?plan = "plan_cells s (pp_samples pp) (pp_done pp) (pp_bindings pp)"
  from run_sweep_cases [OF assms(1)] obtain ab rows bu' where
      sw: "sweep_bindings \<lparr>sx_ext = ext, sx_world = w, sx_run_id = pp_run_id pp, sx_config = config,
        sx_scorer = scorer\<rparr> pp s (ep_gemini (cf_profile config)) (pp_bindings pp)
        \<lparr>bu_max = pp_max_calls pp, bu_used = 0\<rparr> = (RunDone ab, rows, bu')"
    and m: "1 \<le> pp_max_calls pp" and st1: "st1 = st\<lparr>rs_rows := append_rows (rs_rows st) rows\<rparr>"
    and z: "z = \<lparr>rz_run_id = pp_run_id pp,
       rz_cells_total = length (pp_roster pp) * length (su_items s) * nat (pp_samples pp),
       rz_cells_completed = length (fromkeys (pp_done pp)) + length rows,
       rz_cells_this_run = length rows, rz_budget_used = bu_used bu', rz_budget_max = bu_max bu', rz_aborted = ab\<rparr>" .
  from sweep_bindings_spec [OF assms(2), of "\<lparr>bu_max = pp_max_calls pp, bu_used = 0\<rparr>" s pp
      "ep_gemini (cf_profile config)"] m sw
  have spec: "run_spec ?plan \<lparr>bu_max = pp_max_calls pp, bu_used = 0\<rparr> (RunDone ab, rows, bu')"
    by simp
  then obtain cs where cs: "subseq cs ?plan" "map row_cell_key rows = map (\<lambda>c. Some (cell_key c)) cs"
    by (auto simp: run_spec_def sweep_spec_def)
  have "bu_used bu' = int (length rows)" "bu_max bu' = pp_max_calls pp" "bu_used bu' \<le> pp_max_calls pp"
      "ab \<Longrightarrow> bu_used bu' = pp_max_calls pp" "\<not> ab \<Longrightarrow> length rows = length ?plan"
    using spec m by (cases ab; auto simp: run_spec_def sweep_spec_def exhausted_def)+
  moreover have "length rows = length cs" using cs(2) by (metis length_map)
  then have "length rows = length ?plan \<Longrightarrow> cs = ?plan" using cs(1) by (simp add: subseq_same_length)
  moreover have "subseq (map cell_key cs) (map cell_key ?plan)" using cs(1) by (rule subseq_map)
  moreover have "map row_cell_key rows = map Some (map cell_key cs)" using cs(2) by simp
  moreover have "world_ok w \<and> unit_scorer scorer \<and> json_ok (JInt (pp_samples pp)) \<longrightarrow>
      list_all (row_ok 1) rows"
    using sweep_bindings_ok [OF sw assms(2)] by simp
  ultimately show ?thesis using that [OF st1, of "map cell_key cs"] m by (simp add: z)
qed

text \<open>C4: The books of a fresh run balance: every row stands for one cell of the grid roster times items
  times samples and no cell has two rows, the budget paid for exactly the rows written and never more
  than its maximum, a run that is not aborted wrote every cell, and an aborted one has no call left;
  only the new run's directory was touched, and it did not exist before.\<close>

theorem fresh_run_accounts:
  assumes "run ext w s config scorer args od = (Inr z, od')" and "ra_resume args = None"
    and "suite_ok ext s" and "config_ok ext config" and "schedules w"
  shows "od_runs od (rz_run_id z) = None \<and> (\<exists>st rows. od' = od\<lparr>od_runs := (od_runs od)(rz_run_id z \<mapsto> st)\<rparr> \<and>
    rs_rows st = FileText (rows_text rows) \<and> distinct (map row_cell_key rows) \<and>
    (\<forall>r \<in> set rows. row_cell_key r \<in> Some ` grid_keys (first_some (ra_roster args) (cf_roster config)) s
       (first_some (ra_samples args) (cf_samples config))) \<and>
    rz_cells_completed z = length rows \<and> rz_budget_used z = int (length rows) \<and>
    rz_budget_used z \<le> rz_budget_max z \<and>
    (if rz_aborted z then rz_budget_used z = rz_budget_max z else length rows = rz_cells_total z))"
proof -
  from assms(1,2) obtain pp st where p: "prepare_fresh ext w config s args od = Inr (pp, st)"
    by (cases "prepare_fresh ext w config s args od") (auto simp: run_def)
  note f = prepare_fresh_facts [OF p]
  from assms(1,2) p obtain st' where r: "run_sweep ext w config s scorer pp st = (Inr z, st')"
      and od': "od' = od\<lparr>od_runs := (od_runs od)(pp_run_id pp \<mapsto> st')\<rparr>"
    by (auto simp: run_def split: prod.splits)
  let ?sx = "\<lparr>sx_ext = ext, sx_world = w, sx_run_id = pp_run_id pp, sx_config = config, sx_scorer = scorer\<rparr>"
  let ?plan = "plan_cells s (pp_samples pp) [] (pp_bindings pp)"
  have "\<forall>b \<in> set (pp_bindings pp). binding_fit ?sx b"
    using resolved_fit [where sx = ?sx] f(7) assms(4,5) by (simp add: config_ok_def)
  from sweep_accounts [OF r this, unfolded f(1)] obtain rows ks where
      st': "st' = st\<lparr>rs_rows := append_rows (rs_rows st) rows\<rparr>"
    and k: "subseq ks (map cell_key ?plan)" "map row_cell_key rows = map Some ks"
    and z: "rz_run_id z = pp_run_id pp" "rz_cells_total z = length (pp_roster pp) * length (su_items s) * nat (pp_samples pp)"
      "rz_cells_completed z = length (fromkeys ([] :: cell_key list)) + length rows" "rz_cells_this_run z = length rows"
      "rz_budget_used z = int (length rows)" "rz_budget_max z = pp_max_calls pp" "1 \<le> pp_max_calls pp"
      "int (length rows) \<le> pp_max_calls pp" "rz_aborted z \<longrightarrow> int (length rows) = pp_max_calls pp"
    and all: "\<not> rz_aborted z \<longrightarrow> ks = map cell_key ?plan"
    and "world_ok w \<and> unit_scorer scorer \<and> json_ok (JInt (pp_samples pp)) \<longrightarrow>
      list_all (row_ok 1) rows" .
  note bs = resolve_bindings_Inr(1) [OF f(7)]
  have "distinct (map cell_key ?plan)"
    using plan_distinct [of "pp_bindings pp" s "pp_samples pp" "[]"] bs f(5) assms(3) by (simp add: suite_ok_def)
  then have "distinct (map row_cell_key rows)"
    using k(2) subseq_distinct [OF k(1)] by (simp add: distinct_map)
  moreover have "set (map row_cell_key rows) \<subseteq> Some ` grid_keys (first_some (ra_roster args) (cf_roster config)) s
       (first_some (ra_samples args) (cf_samples config))"
    using subseq_set [OF k(1)] plan_keys [of s "pp_samples pp" "pp_bindings pp"] bs f(8,9) by (auto simp: k(2))
  moreover have "\<not> rz_aborted z \<Longrightarrow> length rows = rz_cells_total z"
    using k(2) all z(2) bs by (metis length_map plan_length mult.assoc)
  moreover have "rs_rows st' = FileText (rows_text rows)"
    using f(2) by (simp add: st' append_rows_text)
  ultimately show ?thesis using od' f(3) z by (intro conjI exI [of _ st'] exI [of _ rows]) auto
qed

text \<open>A small run: one local model that times out, one item, one sample.\<close>

definition local_config :: run_config where
  "local_config = sample_config\<lparr>cf_roster := [''m''], cf_judges := [''m''], cf_profile := sample_profile\<rparr>"

definition sample_run_world :: run_world where
  "sample_run_world = \<lparr>rw_limit = 9, rw_local = (\<lambda>_ _ _. TransportTimeout), rw_gemini = (\<lambda>_ _ _ _. TransportTimeout),
     rw_process = (\<lambda>_. sample_world), rw_elapsed = (\<lambda>_. Fin False 1 0), rw_sched = (\<lambda>cs. [0..<length cs]),
     rw_built = Inl RuntimeUnresolved, rw_probe = (\<lambda>_. RunTimeout), rw_probe_cwd = ''/t'',
     rw_credential = Inl NoKeyFound, rw_minted = ''run_20260101T000000Z_00000a'', rw_started = ''2026''\<rparr>"

definition no_args :: run_args where
  "no_args = \<lparr>ra_roster = None, ra_samples = None, ra_judges = None, ra_max_calls = None,
     ra_preregister = None, ra_resume = None\<rparr>"

definition empty_out :: out_dir where
  "empty_out = \<lparr>od_runs = Map.empty, od_escapes = (\<lambda>_. False)\<rparr>"

lemma resolve_m: "resolve_bindings local_config [''m''] label = Inr [local_binding ''m'']"
  by (simp add: resolve_bindings_def bindings_for_def binding_for_def local_config_def sample_profile_def
      local_binding_def)

definition sample_store :: "int \<Rightarrow> run_store" where
  "sample_store n = \<lparr>rs_manifest = Doc (manifest_json zero_digest_ext (rw_minted sample_run_world) sample_suite [''m''] n
     [''m''] local_config 3 None sample_receipt (rw_started sample_run_world)),
     rs_suite = Doc (suite_asdict sample_suite), rs_rows = NoFile\<rparr>"

definition sample_prep :: "int \<Rightarrow> int \<Rightarrow> prepared" where
  "sample_prep n mx = \<lparr>pp_run_id = rw_minted sample_run_world, pp_roster = [''m''], pp_samples = n, pp_max_calls = mx,
     pp_bindings = [local_binding ''m''], pp_runtime = None, pp_gemini_key = None, pp_existing = [], pp_done = []\<rparr>"

lemma local_config_sel:
  "cf_roster local_config = [''m'']" "cf_judges local_config = [''m'']" "cf_samples local_config = 1"
  "cf_max_calls local_config = 3" "cf_profile local_config = sample_profile"
  by (simp_all add: local_config_def sample_config_def)

lemma validate_m: "validate_names zero_digest_ext [''m''] l = Inr ()"
  by (simp add: validate_names_def validate_name_list_def strs_json_def zero_digest_ext_def
      documented_ext_def all_name_chars_def chop_newline_def name_char_def is_ascii_alnum_def is_ascii_alpha_def
      is_digit_def in_rng_def)

lemma uses_m: "uses Claude [local_binding ''m''] = False" "uses Gemini [local_binding ''m''] = False"
  by (simp_all add: uses_def local_binding_def)

lemma execution_m: "execution_bindings local_config sample_suite [''m''] judges = Inr [local_binding ''m'']"
  using resolve_m by (simp add: execution_bindings_def sample_suite_def)

abbreviation "fresh_args n \<equiv> no_args\<lparr>ra_samples := Some n\<rparr>"

lemma sample_prepared:
  assumes "1 \<le> n"
  shows "prepare_fresh zero_digest_ext sample_run_world local_config sample_suite (fresh_args n) empty_out
     = Inr (sample_prep n 3, sample_store n)"
proof -
  have "doctor_execution zero_digest_ext sample_run_world local_config [local_binding ''m''] = Inr (sample_receipt, None)"
    using sample_receipt_created uses_m by (simp add: doctor_execution_def local_config_sel)
  then show ?thesis
    using resolve_m validate_m uses_m execution_m assms
    by (simp add: prepare_fresh_def Let_def local_config_sel no_args_def first_some_def validate_sweep_params_def
        empty_out_def sample_prep_def sample_store_def)
qed

text \<open>The sweep of that plan, for any store: one row, one call.\<close>

lemma sample_sweep:
  "\<exists>z st'. run_sweep zero_digest_ext sample_run_world local_config sample_suite collect_only_scorer (sample_prep 1 3) st
     = (Inr z, st') \<and> \<not> rz_aborted z"
  by (simp add: run_sweep_def CallBudget_init_def pending_cells_def sample_suite_def sweep_binding_def
      local_binding_def sweep_local_def consume_def local_result_def local_chat_def sample_run_world_def
      row_of_def build_row_def error_def put_row_def sample_prep_def)

lemma sample_inputs_ok:
  "suite_ok zero_digest_ext sample_suite" "config_ok zero_digest_ext local_config" "world_ok sample_run_world"
proof -
  show "suite_ok zero_digest_ext sample_suite" "config_ok zero_digest_ext local_config" by code_simp+
  show "world_ok sample_run_world"
    by (simp add: world_ok_def schedules_def sample_run_world_def sample_world_def) auto
qed

theorem fresh_run_accounts_witness:
  "\<exists>z od' st rows. run zero_digest_ext sample_run_world sample_suite local_config collect_only_scorer (fresh_args 1) empty_out
       = (Inr z, od') \<and> od_runs od' (rz_run_id z) = Some st \<and> rs_rows st = FileText (rows_text rows) \<and>
     rz_budget_used z = int (length rows) \<and> rz_budget_used z \<le> rz_budget_max z"
proof -
  obtain z od' where run: "run zero_digest_ext sample_run_world sample_suite local_config collect_only_scorer
      (fresh_args 1) empty_out = (Inr z, od')"
    using sample_prepared [of 1] sample_sweep [of "sample_store 1"] by (auto simp: run_def no_args_def)
  have "ra_resume (fresh_args 1) = None" by (simp add: no_args_def)
  from fresh_run_accounts [OF run this] sample_inputs_ok
  have "\<exists>st rows. od' = empty_out\<lparr>od_runs := (od_runs empty_out)(rz_run_id z \<mapsto> st)\<rparr> \<and>
    rs_rows st = FileText (rows_text rows) \<and> rz_budget_used z = int (length rows) \<and>
    rz_budget_used z \<le> rz_budget_max z"
    unfolding world_ok_def by blast
  with run show ?thesis by fastforce
qed

end
