(* ===== verification/Run_History.thy ===== *)
theory Run_History
  imports Runner_Books
begin

text \<open>
  The life of one run directory as a state machine: it is created by a fresh run, resumed any number of
  times, re-scored any number of times, and every sweep may be killed after any character it appends.
  The invariant of the row log is proved by rule induction.
\<close>

section \<open>Steps\<close>

definition log_of :: "run_store \<Rightarrow> string" where
  "log_of st = (case rs_rows st of FileText t \<Rightarrow> t | _ \<Rightarrow> [])"

text \<open>What a sweep over \<open>st\<close> may leave behind: nothing new, or any initial part of what it appends.\<close>

definition sweep_leaves ::
    "externals \<Rightarrow> suite \<Rightarrow> run_config \<Rightarrow> prepared \<Rightarrow> run_store \<Rightarrow> run_store \<Rightarrow> bool" where
  "sweep_leaves ext s config pp st st2 \<longleftrightarrow>
     (\<exists>w scorer r st1 p q. config_ok ext config \<and> world_ok w \<and> unit_scorer scorer \<and>
        run_sweep ext w config s scorer pp st = (r, st1) \<and>
        (st2 = st \<or> log_of st1 = log_of st @ p @ q \<and> st2 = st1\<lparr>rs_rows := FileText (log_of st @ p)\<rparr>))"

inductive history :: "externals \<Rightarrow> suite \<Rightarrow> string \<Rightarrow> string list \<Rightarrow> int \<Rightarrow> out_dir \<Rightarrow> bool"
  for ext s rid roster samples where
  Created: "prepare_fresh ext w config s args od = Inr (pp, st) \<Longrightarrow> pp_run_id pp = rid \<Longrightarrow>
     pp_roster pp = roster \<Longrightarrow> pp_samples pp = samples \<Longrightarrow> sweep_leaves ext s config pp st st2 \<Longrightarrow>
     history ext s rid roster samples (od\<lparr>od_runs := (od_runs od)(rid \<mapsto> st2)\<rparr>)"
| Resumed: "history ext s rid roster samples od \<Longrightarrow> 1 \<le> rw_limit w \<Longrightarrow>
     prepare_resume ext w config s args od rid = Inr (pp, st, torn) \<Longrightarrow>
     sweep_leaves ext s config pp (repaired st (pp_existing pp) torn) st2 \<Longrightarrow>
     history ext s rid roster samples (od\<lparr>od_runs := (od_runs od)(rid \<mapsto> st2)\<rparr>)"
| Rescored: "history ext s rid roster samples od \<Longrightarrow> unit_scorer scorer \<Longrightarrow> 1 \<le> limit \<Longrightarrow>
     score_run ext limit scorer od rid = (Inr z, od') \<Longrightarrow> history ext s rid roster samples od'"

section \<open>The invariant of the log\<close>

definition keys_fine :: "string list \<Rightarrow> suite \<Rightarrow> int \<Rightarrow> run_row list \<Rightarrow> bool" where
  "keys_fine roster s samples rows \<longleftrightarrow> distinct (map row_cell_key rows) \<and>
     set (map row_cell_key rows) \<subseteq> Some ` grid_keys roster s samples"

definition log_inv :: "string list \<Rightarrow> suite \<Rightarrow> int \<Rightarrow> run_store \<Rightarrow> run_row list \<Rightarrow> bool \<Rightarrow> bool" where
  "log_inv roster s samples st rows torn \<longleftrightarrow> rs_rows st \<notin> {OSFailure, NotUtf8} \<and>
     list_all (row_ok 1) rows \<and> keys_fine roster s samples rows \<and>
     (\<forall>limit \<ge> 1. read_rows_text limit (log_of st) = Inr (rows, torn)) \<and>
     (\<not> torn \<longrightarrow> log_of st = rows_text rows)"

text \<open>What the stored manifest pins: the roster and the number of samples.\<close>

definition pinned :: "string list \<Rightarrow> int \<Rightarrow> run_store \<Rightarrow> bool" where
  "pinned roster samples st \<longleftrightarrow> (\<exists>m. rs_manifest st = Doc (JObj m) \<and>
     map_of m ''samples_per_cell'' = Some (JInt samples) \<and> fld m ''roster'' = strs_json roster)"

lemma read_rows_log: "rs_rows st \<notin> {OSFailure, NotUtf8} \<Longrightarrow> read_rows limit (rs_rows st) = read_rows_text limit (log_of st)"
  by (cases "rs_rows st") (simp_all add: read_rows_def log_of_def read_rows_text_def)

lemma log_inv_read: "log_inv roster s samples st rows torn \<Longrightarrow> 1 \<le> limit \<Longrightarrow>
    read_rows limit (rs_rows st) = Inr (rows, torn)"
  by (simp add: log_inv_def read_rows_log)

lemma log_inv_clean:
  assumes "list_all (row_ok 1) rows" and "keys_fine roster s samples rows"
    and "rs_rows st = FileText (rows_text rows) \<or> rs_rows st = NoFile \<and> rows = []"
  shows "log_inv roster s samples st rows False"
proof -
  have l: "log_of st = rows_text rows" using assms(3) by (auto simp: log_of_def rows_text_def)
  then show ?thesis
    using assms read_rows_whole [OF rows_ok_mono [OF assms(1)]] by (auto simp: log_inv_def)
qed

section \<open>A sweep keeps the invariant\<close>

lemma run_sweep_log:
  assumes r: "run_sweep ext w config s scorer pp st = (r, st1)"
    and b: "resolve_bindings config (pp_roster pp) l = Inr (pp_bindings pp)" and d: "distinct (pp_roster pp)"
    and ok: "suite_ok ext s" "config_ok ext config" "world_ok w" "unit_scorer scorer" "json_ok (JInt (pp_samples pp))"
    and f: "rs_rows st \<notin> {OSFailure, NotUtf8}"
  shows "\<exists>new. log_of st1 = log_of st @ rows_text new \<and> list_all (row_ok 1) new \<and>
    keys_fine (pp_roster pp) s (pp_samples pp) new \<and>
    set (map row_cell_key new) \<inter> Some ` set (pp_done pp) = {} \<and> rs_manifest st1 = rs_manifest st"
proof (cases "CallBudget_init (pp_max_calls pp)")
  case (Inl e)
  then have "st1 = st" using r by (auto simp: run_sweep_def Let_def)
  then show ?thesis by (intro exI [of _ "[]"]) (simp add: rows_text_def keys_fine_def)
next
  case (Inr bu)
  let ?sx = "\<lparr>sx_ext = ext, sx_world = w, sx_run_id = pp_run_id pp, sx_config = config, sx_scorer = scorer\<rparr>"
  let ?cells = "plan_cells s (pp_samples pp) (pp_done pp) (pp_bindings pp)"
  obtain e new bu' where sw: "sweep_bindings ?sx pp s (ep_gemini (cf_profile config)) (pp_bindings pp) bu = (e, new, bu')"
    by (cases "sweep_bindings ?sx pp s (ep_gemini (cf_profile config)) (pp_bindings pp) bu")
  have st1: "st1 = st\<lparr>rs_rows := append_rows (rs_rows st) new\<rparr>"
    using r Inr sw by (auto simp: run_sweep_def Let_def)
  have al: "map mb_alias (pp_bindings pp) = pp_roster pp" by (rule resolve_bindings_Inr [OF b])
  have fit: "\<forall>b \<in> set (pp_bindings pp). binding_fit ?sx b"
    using resolved_fit [where sx = ?sx] b ok(2,3) by (simp add: world_ok_def config_ok_def)
  have "bu_used bu \<le> bu_max bu" using Inr by (auto simp: budget_init)
  from sweep_bindings_spec [OF fit this, of s pp "ep_gemini (cf_profile config)"] sw
  obtain t where t: "subseq t ?cells" "map row_cell_key new = map (\<lambda>c. Some (cell_key c)) t"
    by (auto simp: run_spec_def sweep_spec_def)
  have dt: "distinct (map cell_key t)"
    using subseq_distinct [OF subseq_map [OF t(1), of cell_key]] plan_distinct al d ok(1)
    by (simp add: suite_ok_def)
  have in_t: "cell_key c \<in> grid_keys (pp_roster pp) s (pp_samples pp) \<and> cell_key c \<notin> set (pp_done pp)"
    if "c \<in> set t" for c
  proof -
    have c: "c \<in> set ?cells" using that subseq_set [OF t(1)] by blast
    then have "cell_key c \<notin> set (pp_done pp)" by (auto simp: plan_cells_def pending_cells_def)
    with plan_grid [OF c, unfolded al] show ?thesis by blast
  qed
  have new: "set (map row_cell_key new) = Some ` cell_key ` set t" by (simp only: t(2) set_map image_image)
  have "keys_fine (pp_roster pp) s (pp_samples pp) new"
    unfolding keys_fine_def new using dt in_t by (fastforce simp: t(2) distinct_map inj_on_def)
  moreover have "set (map row_cell_key new) \<inter> Some ` set (pp_done pp) = {}"
    unfolding new using in_t by blast
  moreover have "list_all (row_ok 1) new"
    using sweep_bindings_ok [OF sw fit] ok by simp
  moreover have "log_of st1 = log_of st @ rows_text new"
    using f by (cases "rs_rows st") (simp_all add: st1 log_of_def append_rows_text)
  ultimately show ?thesis using st1 by auto
qed

lemma keys_fine_append:
  assumes "keys_fine roster s n rows" and "keys_fine roster s n new"
    and "set (map row_cell_key new) \<inter> set (map row_cell_key rows) = {}"
  shows "keys_fine roster s n (rows @ take k new)"
proof -
  have "set (map row_cell_key (take k new)) \<subseteq> set (map row_cell_key new)"
    by (metis set_take_subset take_map)
  moreover have "distinct (map row_cell_key (take k new))"
    using assms(2) by (metis distinct_take keys_fine_def take_map)
  ultimately show ?thesis
    using assms unfolding keys_fine_def map_append distinct_append set_append by blast
qed

lemma sweep_keeps_log:
  assumes leaves: "sweep_leaves ext s config pp st st2"
    and b: "resolve_bindings config (pp_roster pp) l = Inr (pp_bindings pp)" and d: "distinct (pp_roster pp)"
    and ok: "suite_ok ext s" "json_ok (JInt (pp_samples pp))"
    and inv: "log_inv (pp_roster pp) s (pp_samples pp) st rows False"
    and don: "Some ` set (pp_done pp) = set (map row_cell_key rows)"
  shows "(\<exists>rows' torn. log_inv (pp_roster pp) s (pp_samples pp) st2 rows' torn) \<and> rs_manifest st2 = rs_manifest st"
proof -
  from leaves obtain w scorer r st1 p q where c: "config_ok ext config" "world_ok w" "unit_scorer scorer"
    and r: "run_sweep ext w config s scorer pp st = (r, st1)"
    and st2: "st2 = st \<or> log_of st1 = log_of st @ p @ q \<and> st2 = st1\<lparr>rs_rows := FileText (log_of st @ p)\<rparr>"
    unfolding sweep_leaves_def by blast
  have f: "rs_rows st \<notin> {OSFailure, NotUtf8}" and old: "list_all (row_ok 1) rows" "log_of st = rows_text rows"
    and kf: "keys_fine (pp_roster pp) s (pp_samples pp) rows"
    using inv by (simp_all add: log_inv_def)
  from run_sweep_log [OF r b d ok(1) c ok(2) f] obtain new where
      new: "log_of st1 = log_of st @ rows_text new" "list_all (row_ok 1) new"
        "keys_fine (pp_roster pp) s (pp_samples pp) new"
        "set (map row_cell_key new) \<inter> Some ` set (pp_done pp) = {}" "rs_manifest st1 = rs_manifest st"
    by blast
  show ?thesis
  proof (cases "st2 = st")
    case True
    then show ?thesis using inv by blast
  next
    case False
    with st2 new(1) have pq: "rows_text new = p @ q" and s2: "rs_rows st2 = FileText (log_of st @ p)"
        "rs_manifest st2 = rs_manifest st"
      using new(5) by auto
    from cut_log [OF old(1) new(2) pq] obtain k torn where
        k: "\<forall>limit \<ge> 1. read_rows_text limit (rows_text rows @ p) = Inr (rows @ take k new, torn)"
        "\<not> torn \<longrightarrow> p = rows_text (take k new)"
      by blast
    have "list_all (row_ok 1) (take k new)" using new(2) by (metis append_take_drop_id list_all_append)
    then have "list_all (row_ok 1) (rows @ take k new)" using old(1) by simp
    moreover have "keys_fine (pp_roster pp) s (pp_samples pp) (rows @ take k new)"
      using keys_fine_append [OF kf new(3)] new(4) don by simp
    ultimately have "log_inv (pp_roster pp) s (pp_samples pp) st2 (rows @ take k new) torn"
      using k s2(1) old(2) by (simp add: log_inv_def log_of_def rows_text_append)
    then show ?thesis using s2(2) by blast
  qed
qed

section \<open>Resuming and re-scoring keep the invariant\<close>

lemma prepare_resume_facts:
  assumes "prepare_resume ext w config s args od rid = Inr (pp, st, torn)"
  shows "od_runs od rid = Some st" and "read_rows (rw_limit w) (rs_rows st) = Inr (pp_existing pp, torn)"
    and "done_keys (pp_existing pp) = Inr (pp_done pp)" and "pp_run_id pp = rid"
    and "resolve_bindings config (pp_roster pp) ''roster'' = Inr (pp_bindings pp)"
    and "\<exists>m. read_manifest st = Inr m \<and> read_manifest_selection ext m ''roster'' = Inr (pp_roster pp) \<and>
      bindE (subscript m ''samples_per_cell'') py_int = Inr (pp_samples pp)"
  using assms
  by (auto simp: prepare_resume_def bindE_Inr_iff split: option.splits if_splits)

lemma pinned_resume:
  assumes "prepare_resume ext w config s args od rid = Inr (pp, st, torn)" and "pinned roster samples st"
    and "distinct roster"
  shows "pp_roster pp = roster \<and> pp_samples pp = samples"
proof -
  from prepare_resume_facts(6) [OF assms(1)] obtain m where m: "read_manifest st = Inr m"
      "read_manifest_selection ext m ''roster'' = Inr (pp_roster pp)"
      "bindE (subscript m ''samples_per_cell'') py_int = Inr (pp_samples pp)"
    by blast
  from assms(2) m(1) have p: "map_of m ''samples_per_cell'' = Some (JInt samples)" "fld m ''roster'' = strs_json roster"
    by (auto simp: pinned_def read_manifest_def)
  have "map the_str (map JStr roster) = roster" by (induction roster) simp_all
  then have "pp_roster pp = fromkeys roster"
    using m(2) p(2) by (auto simp: read_manifest_selection_def strs_json_def bindE_Inr_iff split: if_splits)
  then show ?thesis using m(3) p(1) assms(3) by (simp add: subscript_def py_int_def)
qed

lemma done_keys_set: "done_keys rows = Inr ks \<Longrightarrow> Some ` set ks = set (map row_cell_key rows)"
  by (force simp: done_keys_def list_ex_iff split: if_splits)

lemma read_rows_file: "read_rows limit f = Inr (rows, torn) \<Longrightarrow> f \<notin> {OSFailure, NotUtf8}"
  by (auto simp: read_rows_def)

lemma done_keys_map: "done_keys rows = Inr ks \<Longrightarrow> map row_cell_key rows = map Some ks"
  by (induction rows arbitrary: ks) (auto simp: done_keys_def list_ex_iff split: if_splits)

lemma repaired_log:
  assumes "log_inv roster s samples st old torn" and "read_rows limit (rs_rows st) = Inr (old, torn)"
  shows "rs_rows (repaired st old torn) = FileText (rows_text old) \<or> rs_rows (repaired st old torn) = NoFile \<and> old = []"
proof (cases "rs_rows st")
  case NoFile
  then show ?thesis using assms(2) by (simp add: read_rows_def repaired_def)
next
  case (FileText t)
  then show ?thesis using assms(1) by (auto simp: repaired_def rewrite_rows_def log_inv_def log_of_def)
qed (use assms(1) in \<open>simp_all add: log_inv_def\<close>)

text \<open>A row is fine when its fields are; at level 1 they are scalars.\<close>

definition scalar_ok :: "json \<Rightarrow> bool" where
  "scalar_ok j \<longleftrightarrow> json_ok j \<and> depth j = 0"

lemma row_ok_scalars: "row_ok 1 r \<longleftrightarrow> list_all (\<lambda>kv. scalar_ok (snd kv)) (case row_json r of JObj d \<Rightarrow> d)"
proof -
  obtain d where d: "row_json r = JObj d" and k: "map fst d = row_fields"
    by (simp add: row_json_def row_fields_def)
  have "distinct (map fst d)" unfolding k by (simp add: row_fields_def)
  then show ?thesis
    using fold_max_le [of "map (\<lambda>kv. depth (snd kv)) d" 0 0]
    by (auto simp: row_ok_def d list_all_iff scalar_ok_def)
qed

lemma rescore_row_keeps:
  assumes "rescore_row scorer items r = Inr r'" and "unit_scorer scorer" and "row_ok 1 r"
  shows "row_cell_key r' = row_cell_key r \<and> row_ok 1 r'"
proof (cases "r' = r")
  case False
  from assms(1) False obtain it resp oc where oc: "scorer it resp = Inr oc"
      "r' = r\<lparr>rr_parsed := opt_str (oc_parsed oc), rr_score := opt_flt (oc_score oc), rr_scorer := opt_str (oc_scorer oc)\<rparr>"
    by (auto simp: rescore_row_def stored_outcome_def bindE_Inr_iff split: if_splits option.splits sum.splits)
  have "scalar_ok (opt_str x)" for x by (simp add: opt_str_def scalar_ok_def split: option.splits)
  moreover have "scalar_ok (opt_flt (oc_score oc))"
    using assms(2) oc(1) unit_score_ok
    by (auto simp: unit_scorer_def scalar_ok_def opt_flt_def split: option.splits)
  ultimately show ?thesis
    using assms(3) oc(2) unfolding row_ok_scalars by (simp add: row_cell_key_def row_json_def)
qed (use assms(3) in simp)

lemma rescored_rows:
  assumes "mapE (rescore_row scorer items) rows = Inr rows'" and "unit_scorer scorer" and "list_all (row_ok 1) rows"
  shows "map row_cell_key rows' = map row_cell_key rows \<and> list_all (row_ok 1) rows'"
proof -
  from assms(1) have "list_all2 (\<lambda>r r'. rescore_row scorer items r = Inr r') rows rows'"
    by (simp add: mapE_Inr_iff)
  then show ?thesis
    using assms(3)
  proof (induction rows rows' rule: list_all2_induct)
    case (Cons r rs r' rs')
    then show ?case using rescore_row_keeps [OF Cons.hyps(1) assms(2)] by simp
  qed simp
qed

lemma score_run_Inr:
  assumes "score_run ext limit scorer od rid = (Inr z, od')"
  obtains st its rows torn rows' where "od_runs od rid = Some st"
    "read_rows limit (rs_rows st) = Inr (rows, torn)" "mapE (rescore_row scorer its) rows = Inr rows'"
    "od' = od\<lparr>od_runs := (od_runs od)(rid \<mapsto> st\<lparr>rs_rows := rewrite_rows rows'\<rparr>)\<rparr>"
proof -
  from assms obtain st s' rows torn rows' where "open_run ext od rid = Inr (st, s')"
      "read_rows limit (rs_rows st) = Inr (rows, torn)" "mapE (rescore_row scorer (su_items s')) rows = Inr rows'"
      "od' = od\<lparr>od_runs := (od_runs od)(rid \<mapsto> st\<lparr>rs_rows := rewrite_rows rows'\<rparr>)\<rparr>"
    by (auto simp: score_run_def bindE_Inr_iff split: sum.splits)
  moreover have "od_runs od rid = Some st"
    using calculation(1) by (auto simp: open_run_def bindE_Inr_iff split: option.splits if_splits)
  ultimately show thesis using that by blast
qed

section \<open>Every reachable run directory is readable\<close>

definition dir_inv :: "suite \<Rightarrow> string \<Rightarrow> string list \<Rightarrow> int \<Rightarrow> out_dir \<Rightarrow> bool" where
  "dir_inv s rid roster samples od \<longleftrightarrow> (\<exists>st rows torn. od_runs od rid = Some st \<and>
     log_inv roster s samples st rows torn \<and> pinned roster samples st \<and> distinct roster)"

lemma created_pinned:
  assumes "prepare_fresh ext w config s args od = Inr (pp, st)"
  shows "pinned (pp_roster pp) (pp_samples pp) st"
  using assms
  by (auto simp: prepare_fresh_def Let_def bindE_Inr_iff pinned_def manifest_json_def fld_Cons split: if_splits)

lemma pinned_manifest: "pinned roster samples st \<Longrightarrow> rs_manifest st2 = rs_manifest st \<Longrightarrow> pinned roster samples st2"
  by (simp add: pinned_def)

lemma history_inv:
  assumes "history ext s rid roster samples od" and "suite_ok ext s" and "json_ok (JInt samples)"
  shows "dir_inv s rid roster samples od"
  using assms(1)
proof (induction rule: history.induct)
  case (Created w config args od pp st st2)
  note f = prepare_fresh_facts [OF Created(1)]
  have "log_inv roster s samples st [] False"
    using f(2) by (intro log_inv_clean) (simp_all add: keys_fine_def)
  from sweep_keeps_log [OF Created(5) f(7,5) assms(2) _ this [folded Created(3,4)]] f(1)
  obtain rows' torn where "log_inv roster s samples st2 rows' torn" "rs_manifest st2 = rs_manifest st"
    using Created(3,4) assms(3) by auto
  moreover have "pinned roster samples st" using created_pinned [OF Created(1)] Created(3,4) by simp
  ultimately show ?case
    using f(5) Created(3) pinned_manifest by (auto simp: dir_inv_def)
next
  case (Resumed od w config args pp st torn st2)
  note f = prepare_resume_facts [OF Resumed(3)]
  from Resumed.IH f(1) obtain rows torn' where inv: "log_inv roster s samples st rows torn'"
      and pin: "pinned roster samples st" and d: "distinct roster"
    by (auto simp: dir_inv_def)
  have read: "pp_existing pp = rows" "torn' = torn"
    using log_inv_read [OF inv Resumed(2)] f(2) by simp_all
  note pr = pinned_resume [OF Resumed(3) pin d]
  let ?st = "repaired st (pp_existing pp) torn"
  have "log_inv roster s samples ?st rows False"
  proof (cases torn)
    case True
    then show ?thesis
      using inv read by (intro log_inv_clean) (simp_all add: repaired_def rewrite_rows_def log_inv_def)
  next
    case False
    then show ?thesis using inv read by (simp add: repaired_def)
  qed
  from sweep_keeps_log [OF Resumed(4) f(5) _ assms(2) _ this [folded pr [THEN conjunct1] pr [THEN conjunct2]]]
  have "(\<exists>rows' torn. log_inv roster s samples st2 rows' torn) \<and> rs_manifest st2 = rs_manifest ?st"
    using pr d assms(3) done_keys_set [OF f(3)] read by simp
  moreover have "rs_manifest ?st = rs_manifest st" by (simp add: repaired_def)
  ultimately show ?case
    using pin d pinned_manifest by (auto simp: dir_inv_def)
next
  case (Rescored od scorer limit z od')
  from score_run_Inr [OF Rescored(4)] obtain st items rows torn rows' where
      r: "od_runs od rid = Some st" "read_rows limit (rs_rows st) = Inr (rows, torn)"
        "mapE (rescore_row scorer items) rows = Inr rows'"
        "od' = od\<lparr>od_runs := (od_runs od)(rid \<mapsto> st\<lparr>rs_rows := rewrite_rows rows'\<rparr>)\<rparr>" .
  from Rescored.IH r(1) obtain rows0 torn' where inv: "log_inv roster s samples st rows0 torn'"
      and pin: "pinned roster samples st" and d: "distinct roster"
    by (auto simp: dir_inv_def)
  have "rows0 = rows" using log_inv_read [OF inv Rescored(3)] r(2) by simp
  with inv rescored_rows [OF r(3) Rescored(2)]
  have "log_inv roster s samples (st\<lparr>rs_rows := rewrite_rows rows'\<rparr>) rows' False"
    by (intro log_inv_clean) (simp_all add: log_inv_def keys_fine_def rewrite_rows_def)
  then show ?case using r(4) pin d pinned_manifest by (auto simp: dir_inv_def)
qed

text \<open>C7: However a run directory came about - a fresh run, then any number of resumed runs and re-scorings,
  each sweep killed after any character it appended - its row log can be read, no cell has two rows, and
  every row belongs to the grid of the pinned roster, items and samples.\<close>

theorem log_survives_crashes:
  assumes "history ext s rid roster samples od" and "suite_ok ext s" and "json_ok (JInt samples)"
  shows "\<exists>st rows torn. od_runs od rid = Some st \<and>
    (\<forall>limit \<ge> 1. read_rows limit (rs_rows st) = Inr (rows, torn)) \<and>
    distinct (map row_cell_key rows) \<and> set (map row_cell_key rows) \<subseteq> Some ` grid_keys roster s samples"
proof -
  from history_inv [OF assms] obtain st rows torn where
      "od_runs od rid = Some st" and inv: "log_inv roster s samples st rows torn"
    by (auto simp: dir_inv_def)
  moreover have "\<forall>limit \<ge> 1. read_rows limit (rs_rows st) = Inr (rows, torn)"
    using log_inv_read [OF inv] by blast
  moreover have "keys_fine roster s samples rows" using inv by (simp add: log_inv_def)
  ultimately show ?thesis unfolding keys_fine_def by blast
qed

section \<open>A resumed run that is not cut short completes the grid\<close>

text \<open>A resumed run that returns, aborted or not: the log it found, the one it left, and its books.\<close>

lemma resumed_run:
  assumes hist: "history ext s rid roster samples od" and ok: "suite_ok ext s" "json_ok (JInt samples)"
      "config_ok ext config" "world_ok w" "1 \<le> rw_limit w"
    and res: "ra_resume args = Some rid" and run: "run ext w s config scorer args od = (Inr z, od')"
  obtains st0 old torn st new "done" ks where "od_runs od rid = Some st0"
    and "read_rows (rw_limit w) (rs_rows st0) = Inr (old, torn)" and "map row_cell_key old = map Some done"
    and "distinct done" and "set done \<subseteq> grid_keys roster s samples"
    and "od_runs od' rid = Some st" and "rs_rows st = FileText (rows_text (old @ new))"
    and "map row_cell_key new = map Some ks" and "distinct ks" and "set ks \<subseteq> grid_keys roster s samples - set done"
    and "rz_cells_completed z = length (old @ new)" and "rz_cells_this_run z = length new"
    and "rz_cells_total z = card (grid_keys roster s samples)"
    and "1 \<le> rz_budget_max z" and "rz_aborted z \<longrightarrow> int (length new) = rz_budget_max z"
    and "\<not> rz_aborted z \<longrightarrow> set ks = grid_keys roster s samples - set done"
    and "unit_scorer scorer \<longrightarrow> list_all (row_ok 1) (old @ new)"
proof -
  from run res obtain pp st torn st1 where p: "prepare_resume ext w config s args od rid = Inr (pp, st, torn)"
      and r: "run_sweep ext w config s scorer pp (repaired st (pp_existing pp) torn) = (Inr z, st1)"
      and od': "od' = od\<lparr>od_runs := (od_runs od)(pp_run_id pp \<mapsto> st1)\<rparr>"
    by (auto simp: run_def bindE_Inr_iff split: sum.splits prod.splits)
  note f = prepare_resume_facts [OF p]
  from history_inv [OF hist ok(1,2)] f(1) obtain old torn' where inv: "log_inv roster s samples st old torn'"
      and pin: "pinned roster samples st" and d: "distinct roster"
    by (auto simp: dir_inv_def)
  have read: "pp_existing pp = old" "torn' = torn" using log_inv_read [OF inv ok(5)] f(2) by simp_all
  have pp: "pp_roster pp = roster" "pp_samples pp = samples" using pinned_resume [OF p pin d] by simp_all
  have "\<forall>b \<in> set (pp_bindings pp). binding_fit \<lparr>sx_ext = ext, sx_world = w, sx_run_id = pp_run_id pp,
      sx_config = config, sx_scorer = scorer\<rparr> b"
    using resolved_fit f(5) ok(3,4) by (simp add: world_ok_def config_ok_def)
  from sweep_accounts [OF r this, unfolded read(1) pp] obtain new ks where
      st1: "st1 = (repaired st old torn)\<lparr>rs_rows := append_rows (rs_rows (repaired st old torn)) new\<rparr>"
    and k: "subseq ks (map cell_key (plan_cells s samples (pp_done pp) (pp_bindings pp)))"
      "map row_cell_key new = map Some ks"
    and z: "rz_run_id z = pp_run_id pp" "rz_cells_total z = length roster * length (su_items s) * nat samples"
      "rz_cells_completed z = length (fromkeys (pp_done pp)) + length new" "rz_cells_this_run z = length new"
      "rz_budget_used z = int (length new)" "rz_budget_max z = pp_max_calls pp" "1 \<le> pp_max_calls pp"
      "int (length new) \<le> pp_max_calls pp" "rz_aborted z \<longrightarrow> int (length new) = pp_max_calls pp"
    and all: "\<not> rz_aborted z \<longrightarrow> ks = map cell_key (plan_cells s samples (pp_done pp) (pp_bindings pp))"
    and new: "world_ok w \<and> unit_scorer scorer \<and> json_ok (JInt (samples)) \<longrightarrow>
      list_all (row_ok 1) new" .
  have bs: "map mb_alias (pp_bindings pp) = roster" using resolve_bindings_Inr(1) [OF f(5)] pp by simp
  note keys = pending_keys [of s samples "pp_done pp" "pp_bindings pp", unfolded bs]
  have dk: "distinct ks" using subseq_distinct [OF k(1)] plan_distinct bs d ok(1) by (simp add: suite_ok_def)
  have dn: "map row_cell_key old = map Some (pp_done pp)" by (rule done_keys_map [OF f(3), unfolded read(1)])
  have kf: "distinct (pp_done pp)" "set (pp_done pp) \<subseteq> grid_keys roster s samples"
    using inv by (auto simp: log_inv_def keys_fine_def dn distinct_map)
  have log: "rs_rows (repaired st old torn) = FileText (rows_text old) \<or>
      rs_rows (repaired st old torn) = NoFile \<and> old = []"
    using repaired_log [OF inv] f(2) read by simp
  have nil: "rows_text [] = []" by (simp add: rows_text_def)
  have "length (pp_done pp) = length old" using dn by (metis length_map)
  moreover have "rs_rows st1 = FileText (rows_text (old @ new))"
    using log by (elim disjE conjE) (simp_all add: st1 append_rows_text rows_text_append nil)
  moreover have "set ks \<subseteq> grid_keys roster s samples - set (pp_done pp)"
    using subseq_set [OF k(1)] keys by auto
  moreover have "\<not> rz_aborted z \<longrightarrow> set ks = grid_keys roster s samples - set (pp_done pp)"
    using all keys by auto
  moreover have "unit_scorer scorer \<longrightarrow> list_all (row_ok 1) (old @ new)"
    using new ok inv by (simp add: log_inv_def)
  moreover have "card (grid_keys roster s samples) = length roster * length (su_items s) * nat samples"
  proof -
    let ?plan = "plan_cells s samples [] (pp_bindings pp)"
    have "distinct (map cell_key ?plan)" using plan_distinct bs d ok(1) by (simp add: suite_ok_def)
    then have "card (cell_key ` set ?plan) = length ?plan" by (metis distinct_card length_map set_map)
    then show ?thesis using plan_keys [of s samples "pp_bindings pp"] plan_length [of s samples "pp_bindings pp"] bs
      by (metis length_map mult.assoc)
  qed
  ultimately show ?thesis
    using that [of st old torn "pp_done pp" st1 new ks] f read dn kf od' k(2) dk z by auto
qed

text \<open>C5: A resumed run that returns without aborting completes the grid: it keeps every row that was
  there, in order, appends rows for exactly the missing cells, leaves a log with exactly one row for every
  cell of the pinned grid, and reports that number both as the completed and as the total cells, with the
  appended ones as the cells of this run.\<close>

theorem resume_completes:
  assumes hist: "history ext s rid roster samples od" and ok: "suite_ok ext s" "json_ok (JInt samples)"
      "config_ok ext config" "world_ok w" "1 \<le> rw_limit w"
    and res: "ra_resume args = Some rid"
    and run: "run ext w s config scorer args od = (Inr z, od')" and "\<not> rz_aborted z"
  shows "\<exists>st0 old torn st new. od_runs od rid = Some st0 \<and> read_rows (rw_limit w) (rs_rows st0) = Inr (old, torn) \<and>
    od_runs od' rid = Some st \<and> rs_rows st = FileText (rows_text (old @ new)) \<and>
    distinct (map row_cell_key (old @ new)) \<and>
    set (map row_cell_key (old @ new)) = Some ` grid_keys roster s samples \<and>
    rz_cells_completed z = length (old @ new) \<and> rz_cells_total z = length (old @ new) \<and>
    rz_cells_this_run z = length new"
proof -
  from resumed_run [OF hist ok res run] obtain st0 old torn st new "done" ks where
      r: "od_runs od rid = Some st0" "read_rows (rw_limit w) (rs_rows st0) = Inr (old, torn)"
      "od_runs od' rid = Some st" "rs_rows st = FileText (rows_text (old @ new))"
      "rz_cells_completed z = length (old @ new)" "rz_cells_this_run z = length new"
      "rz_cells_total z = card (grid_keys roster s samples)"
    and k: "map row_cell_key old = map Some done" "distinct done" "set done \<subseteq> grid_keys roster s samples"
      "map row_cell_key new = map Some ks" "distinct ks" "set ks = grid_keys roster s samples - set done"
    using assms(9) by metis
  have d: "distinct (map row_cell_key (old @ new))"
    using k by (auto simp: distinct_map)
  have keys: "set (map row_cell_key (old @ new)) = Some ` grid_keys roster s samples"
    unfolding map_append set_append k(1,4) using k(3,6) by auto
  have "card (grid_keys roster s samples) = length (old @ new)"
    using distinct_card [OF d] card_image [of Some "grid_keys roster s samples"] unfolding keys by simp
  with d keys r show ?thesis by metis
qed

section \<open>Resuming an aborted run again and again comes to an end\<close>

text \<open>\<open>n\<close> resumed runs of one directory in a row, every one of them stopped by its call budget.\<close>

inductive aborted_resumes :: "externals \<Rightarrow> suite \<Rightarrow> string \<Rightarrow> nat \<Rightarrow> out_dir \<Rightarrow> out_dir \<Rightarrow> bool"
  for ext s rid where
  Nothing: "aborted_resumes ext s rid 0 od od"
| Again: "aborted_resumes ext s rid n od od1 \<Longrightarrow> run ext w s config scorer args od1 = (Inr z, od2) \<Longrightarrow>
     ra_resume args = Some rid \<Longrightarrow> rz_aborted z \<Longrightarrow> config_ok ext config \<Longrightarrow> world_ok w \<Longrightarrow>
     unit_scorer scorer \<Longrightarrow> 1 \<le> rw_limit w \<Longrightarrow> aborted_resumes ext s rid (Suc n) od od2"

inductive_simps aborted_resumes_Suc: "aborted_resumes ext s rid (Suc n) od od2"

text \<open>The cells of the grid that have a row.\<close>

definition served_keys :: "string \<Rightarrow> out_dir \<Rightarrow> cell_key set" where
  "served_keys rid od = (case od_runs od rid of None \<Rightarrow> {} | Some st \<Rightarrow>
     (case read_rows 1 (rs_rows st) of Inl _ \<Rightarrow> {} | Inr (rows, _) \<Rightarrow> set (List.map_filter row_cell_key rows)))"

lemma map_filter_Some: "map g xs = map Some ks \<Longrightarrow> List.map_filter g xs = ks"
  by (induction xs arbitrary: ks) (auto simp: List.map_filter_simps)

lemma run_continues_history:
  assumes hist: "history ext s rid roster samples od" and run: "run ext w s config scorer args od = (Inr z, od')"
    and "ra_resume args = Some rid" and ok: "config_ok ext config" "world_ok w" "unit_scorer scorer" "1 \<le> rw_limit w"
  shows "history ext s rid roster samples od'"
proof -
  from run assms(3) obtain pp st torn st1 where p: "prepare_resume ext w config s args od rid = Inr (pp, st, torn)"
      and r: "run_sweep ext w config s scorer pp (repaired st (pp_existing pp) torn) = (Inr z, st1)"
      and od': "od' = od\<lparr>od_runs := (od_runs od)(pp_run_id pp \<mapsto> st1)\<rparr>"
    by (auto simp: run_def bindE_Inr_iff split: sum.splits prod.splits)
  let ?st = "repaired st (pp_existing pp) torn"
  have rows: "rs_rows st1 = append_rows (rs_rows ?st) new \<Longrightarrow> rs_rows ?st \<notin> {OSFailure, NotUtf8} \<Longrightarrow>
      rs_rows st1 = FileText (log_of ?st @ rows_text new)" for new
    by (cases "rs_rows ?st") (simp_all add: append_rows_text log_of_def)
  from read_rows_file [OF prepare_resume_facts(2) [OF p]] have "rs_rows ?st \<notin> {OSFailure, NotUtf8}"
    by (simp add: repaired_def rewrite_rows_def)
  with run_sweep_cases [OF r] rows obtain new where "rs_rows st1 = FileText (log_of ?st @ rows_text new)"
    by (metis run_store.select_convs(3) run_store.surjective run_store.update_convs(3))
  then have "sweep_leaves ext s config pp ?st st1"
    unfolding sweep_leaves_def using r ok
    by (intro exI [of _ w] exI [of _ scorer] exI [of _ "Inr z"] exI [of _ st1] exI [of _ "rows_text new"]
        exI [of _ "[]"]) (simp add: log_of_def)
  then show ?thesis
    using history.Resumed [OF hist ok(4) p] od' prepare_resume_facts(4) [OF p] by simp
qed

lemma grid_card: "finite (grid_keys roster s samples)"
  "card (grid_keys roster s samples) \<le> length roster * length (su_items s) * nat samples"
proof -
  let ?g = "\<lambda>(m, it, k). (JStr m, JStr (it_id it), JInt (int k))"
  let ?box = "set roster \<times> set (su_items s) \<times> {..<nat samples}"
  have sub: "grid_keys roster s samples \<subseteq> ?g ` ?box"
  proof
    fix key
    assume "key \<in> grid_keys roster s samples"
    then obtain m it k where "m \<in> set roster" "it \<in> set (su_items s)" "0 \<le> k" "k < samples"
        "key = (JStr m, JStr (it_id it), JInt k)"
      by (auto simp: grid_keys_def)
    then have "(m, it, nat k) \<in> ?box" "key = ?g (m, it, nat k)" by auto
    then show "key \<in> ?g ` ?box" by blast
  qed
  then show fin: "finite (grid_keys roster s samples)" by (rule finite_subset) simp
  have "card (grid_keys roster s samples) \<le> card ?box"
    using card_mono [OF _ sub] card_image_le [of ?box ?g] by simp
  also have "\<dots> \<le> length roster * (length (su_items s) * nat samples)"
    by (simp add: card_cartesian_product mult_le_mono card_length)
  finally show "card (grid_keys roster s samples) \<le> length roster * length (su_items s) * nat samples"
    by (simp add: mult.assoc)
qed

lemma served_in_grid:
  assumes "history ext s rid roster samples od" and "suite_ok ext s" and "json_ok (JInt samples)"
  shows "served_keys rid od \<subseteq> grid_keys roster s samples"
proof -
  from history_inv [OF assms] obtain st rows torn where st: "od_runs od rid = Some st"
      and inv: "log_inv roster s samples st rows torn"
    by (auto simp: dir_inv_def)
  have "set (map row_cell_key rows) \<subseteq> Some ` grid_keys roster s samples"
    using inv by (simp add: log_inv_def keys_fine_def)
  moreover have "Some ` set (List.map_filter row_cell_key rows) \<subseteq> set (map row_cell_key rows)"
    by (induction rows) (auto simp: List.map_filter_simps split: option.splits)
  ultimately show ?thesis
    using log_inv_read [OF inv, of 1] by (simp add: served_keys_def st) blast
qed

text \<open>A resumed run that its budget stops has served at least one more cell.\<close>

lemma aborted_resume_serves:
  assumes hist: "history ext s rid roster samples od" and ok: "suite_ok ext s" "json_ok (JInt samples)"
      "config_ok ext config" "world_ok w" "unit_scorer scorer" "1 \<le> rw_limit w"
    and res: "ra_resume args = Some rid" and run: "run ext w s config scorer args od = (Inr z, od')" and "rz_aborted z"
  shows "card (served_keys rid od) < card (served_keys rid od')"
proof -
  from resumed_run [OF hist ok(1-4,6) res run] obtain st0 old torn st new "done" ks where
      r: "od_runs od rid = Some st0" "read_rows (rw_limit w) (rs_rows st0) = Inr (old, torn)"
      "od_runs od' rid = Some st" "rs_rows st = FileText (rows_text (old @ new))"
    and k: "map row_cell_key old = map Some done" "map row_cell_key new = map Some ks"
      "set ks \<subseteq> grid_keys roster s samples - set done" "1 \<le> rz_budget_max z" "int (length new) = rz_budget_max z"
    and fine: "list_all (row_ok 1) (old @ new)"
    using assms(10) ok(5) by metis
  note inv = history_inv [OF hist ok(1,2)]
    and inv' = history_inv [OF run_continues_history [OF hist run res ok(3-6)] ok(1,2)]
  have one: "read_rows 1 (rs_rows st0) = Inr (old, torn)"
    using inv r(1,2) log_inv_read [OF _ ok(6)] log_inv_read by (fastforce simp: dir_inv_def)
  from inv' r(3) obtain rows torn' where inv2: "log_inv roster s samples st rows torn'"
    by (auto simp: dir_inv_def)
  have "read_rows 1 (rs_rows st) = Inr (old @ new, False)"
    using read_rows_whole [OF fine] by (simp add: r(4) read_rows_def)
  then have "rows = old @ new" using log_inv_read [OF inv2, of 1] by simp
  moreover have keys: "map row_cell_key (old @ new) = map Some (done @ ks)" using k(1,2) by simp
  ultimately have "served_keys rid od' = set (done @ ks)" "served_keys rid od = set done"
    using log_inv_read [OF inv2, of 1] one map_filter_Some [OF keys] map_filter_Some [OF k(1)]
    by (simp_all add: served_keys_def r)
  moreover have "ks \<noteq> []" using k(2,4,5) by auto
  then have "set done \<subset> set (done @ ks)" using k(3) by (cases ks) auto
  ultimately show ?thesis by (simp add: psubset_card_mono)
qed

text \<open>C6: Repeated resumption terminates: however often a run directory with any history is resumed and
  stopped again by its call budget, every such run serves at least one further cell, so there are at
  most as many of them as the pinned grid has cells without a row.\<close>

theorem aborted_resumes_end:
  assumes "history ext s rid roster samples od" and "suite_ok ext s" and "json_ok (JInt samples)"
    and "aborted_resumes ext s rid n od od'"
  shows "n + card (served_keys rid od) \<le> length roster * length (su_items s) * nat samples"
proof -
  from assms(4) have "history ext s rid roster samples od' \<and> n + card (served_keys rid od) \<le> card (served_keys rid od')"
    using assms(1)
  proof (induction rule: aborted_resumes.induct)
    case (Again n od od1 w config scorer args z od2)
    note run = run_continues_history [OF _ Again.hyps(2,3,5,6,7,8)]
      and more = aborted_resume_serves [OF _ assms(2,3) Again.hyps(5,6,7,8,3,2,4)]
    from Again.IH Again.prems have "history ext s rid roster samples od1" by blast
    with run more Again.IH Again.prems show ?case by fastforce
  qed simp
  then have "n + card (served_keys rid od) \<le> card (grid_keys roster s samples)"
    using served_in_grid [OF _ assms(2,3)] card_mono [OF grid_card(1)] by (meson order_trans)
  then show ?thesis using grid_card(2) by (rule order_trans)
qed

section \<open>A concrete history\<close>

abbreviation "sample_rid \<equiv> rw_minted sample_run_world"

lemma collect_only_unit: "unit_scorer collect_only_scorer"
  by (rule collect_only.unit_scorer)

text \<open>The fresh run was killed before its first row.\<close>

definition sample_out :: "int \<Rightarrow> out_dir" where
  "sample_out n = empty_out\<lparr>od_runs := (od_runs empty_out)(sample_rid \<mapsto> sample_store n)\<rparr>"

lemma sample_history:
  assumes "1 \<le> n"
  shows "history zero_digest_ext sample_suite sample_rid [''m''] n (sample_out n)"
proof -
  have "sweep_leaves zero_digest_ext sample_suite local_config (sample_prep n 3) (sample_store n) (sample_store n)"
    unfolding sweep_leaves_def using sample_inputs_ok collect_only_unit
    by (metis surj_pair)
  from history.Created [OF sample_prepared [OF assms] _ _ _ this]
  show ?thesis by (simp add: sample_out_def sample_prep_def)
qed

lemma one_ok: "json_ok (JInt 1)"
  by (simp add: int_max_str_digits_def show_nat.simps)

theorem log_survives_crashes_witness:
  "\<exists>st rows torn. od_runs (sample_out 1) sample_rid = Some st \<and> read_rows 9 (rs_rows st) = Inr (rows, torn) \<and>
     distinct (map row_cell_key rows)"
proof -
  from log_survives_crashes [OF sample_history [of 1] sample_inputs_ok(1) one_ok]
  obtain st rows torn where "od_runs (sample_out 1) sample_rid = Some st"
      "\<forall>limit \<ge> 1. read_rows limit (rs_rows st) = Inr (rows, torn)" "distinct (map row_cell_key rows)"
    by blast
  then show ?thesis by (intro exI [of _ st] exI [of _ rows] exI [of _ torn]) simp
qed

definition resume_args :: "int option \<Rightarrow> run_args" where
  "resume_args mx = no_args\<lparr>ra_resume := Some sample_rid, ra_max_calls := mx\<rparr>"

lemma sample_resume:
  assumes "1 \<le> n" and "1 \<le> first_some mx 3"
  shows "prepare_resume zero_digest_ext sample_run_world local_config sample_suite (resume_args mx) (sample_out n) sample_rid
     = Inr (sample_prep n (first_some mx 3), sample_store n, False)"
proof -
  define m where "m = (case manifest_json zero_digest_ext sample_rid sample_suite [''m''] n
     [''m''] local_config 3 None sample_receipt (rw_started sample_run_world) of JObj d \<Rightarrow> d)"
  have fields: "map_of m ''suite_hash'' = Some (JStr (item_hash zero_digest_ext sample_suite))"
      "fld m ''roster'' = JList [JStr ''m'']" "fld m ''judges'' = JList [JStr ''m'']"
      "map_of m ''samples_per_cell'' = Some (JInt n)" "map_of m ''budgets'' = Some (JObj [(''max_calls'', JInt 3)])"
      "map_of m ''execution_receipt'' = Some (Receipt_to_mapping zero_digest_ext sample_receipt)"
    by (simp_all add: m_def manifest_json_def fld_Cons strs_json_def)
  have dir: "resolve_run_dir (sample_out n) sample_rid = Inr ()"
    by (simp add: resolve_run_dir_def sample_out_def empty_out_def) code_simp
  have man: "read_manifest (sample_store n) = Inr m"
    by (simp add: read_manifest_def sample_store_def m_def manifest_json_def)
  have sel: "read_manifest_selection zero_digest_ext m ''roster'' = Inr [''m'']"
      "read_manifest_selection zero_digest_ext m ''judges'' = Inr [''m'']"
    by (simp_all add: read_manifest_selection_def fields validate_m)
  have stored: "read_execution_receipt zero_digest_ext m = Inr (Some sample_receipt)"
    using receipts.from_to [OF sample_receipts_ok(1), of zero_digest_ext]
    by (simp add: read_execution_receipt_def fields)
  have "validate_receipt_profile zero_digest_ext sample_receipt local_config [local_binding ''m''] = Inr ()"
    using sample_receipt_created
    by (simp add: validate_receipt_profile_def local_config_sel sample_receipt_def checkE_def)
  moreover have "has_pending_claude [local_binding ''m''] sample_suite n [] = False"
      "has_pending_gemini [local_binding ''m''] sample_suite n [] = False"
    by (simp_all add: has_pending_claude_def has_pending_gemini_def has_pending_def local_binding_def)
  ultimately have sealed: "sealed_resume zero_digest_ext sample_run_world local_config sample_suite sample_receipt
      [local_binding ''m''] [local_binding ''m''] n [] = Inr (None, None)"
    by (simp add: sealed_resume_def)
  have runs: "od_runs (sample_out n) sample_rid = Some (sample_store n)" by (simp add: sample_out_def)
  have rows: "read_rows l (rs_rows (sample_store n)) = Inr ([], False)" for l
    by (simp add: sample_store_def read_rows_def)
  have "subscript m ''suite_hash'' = Inr (JStr (item_hash zero_digest_ext sample_suite))"
      "subscript m ''samples_per_cell'' = Inr (JInt n)"
      "subscript m ''budgets'' = Inr (JObj [(''max_calls'', JInt 3)])"
    by (simp_all add: subscript_def fields)
  then show ?thesis
    using dir man sel stored sealed runs rows resolve_m execution_m assms
    by (simp add: prepare_resume_def str_equals_def resume_args_def no_args_def manifest_max_calls_def first_some_def
        subscript_def py_int_def validate_sweep_params_def done_keys_def sample_prep_def split: option.splits)
qed

theorem resume_completes_witness:
  "\<exists>z od' st rows. run zero_digest_ext sample_run_world sample_suite local_config collect_only_scorer (resume_args None)
       (sample_out 1) = (Inr z, od') \<and> od_runs od' sample_rid = Some st \<and> rs_rows st = FileText (rows_text rows) \<and>
     set (map row_cell_key rows) = Some ` grid_keys [''m''] sample_suite 1"
proof -
  obtain z st' where s: "run_sweep zero_digest_ext sample_run_world local_config sample_suite collect_only_scorer
      (sample_prep 1 3) (sample_store 1) = (Inr z, st')" "\<not> rz_aborted z"
    using sample_sweep by blast
  have a: "ra_resume (resume_args None) = Some sample_rid" by (simp add: resume_args_def)
  have "repaired (sample_store 1) (pp_existing (sample_prep 1 3)) False = (sample_store 1)" by (simp add: repaired_def)
  then obtain od' where run: "run zero_digest_ext sample_run_world sample_suite local_config collect_only_scorer
      (resume_args None) (sample_out 1) = (Inr z, od')"
    using sample_resume [of 1 None] s(1) a by (auto simp: run_def first_some_def)
  have "1 \<le> rw_limit sample_run_world" by (simp add: sample_run_world_def)
  from resume_completes [OF sample_history [of 1] sample_inputs_ok(1) one_ok sample_inputs_ok(2,3) this a run s(2)]
  obtain st rows where "od_runs od' sample_rid = Some st" "rs_rows st = FileText (rows_text rows)"
      "set (map row_cell_key rows) = Some ` grid_keys [''m''] sample_suite 1"
    by blast
  with run show ?thesis by blast
qed

text \<open>Two samples, one call: the resumed run is stopped by its budget.\<close>

lemma sample_aborted_sweep:
  "\<exists>z st'. run_sweep zero_digest_ext sample_run_world local_config sample_suite collect_only_scorer (sample_prep 2 1)
     (sample_store 2) = (Inr z, st') \<and> rz_aborted z"
  by (simp add: run_sweep_def CallBudget_init_def pending_cells_def sample_suite_def sweep_binding_def
      local_binding_def sweep_local_def consume_def local_result_def local_chat_def sample_run_world_def
      row_of_def build_row_def error_def put_row_def sample_prep_def upt_rec)

theorem aborted_resumes_end_witness:
  "\<exists>od'. aborted_resumes zero_digest_ext sample_suite sample_rid 1 (sample_out 2) od' \<and>
     1 + card (served_keys sample_rid (sample_out 2)) \<le> length [''m''] * length (su_items sample_suite) * nat 2"
proof -
  obtain z st' where s: "run_sweep zero_digest_ext sample_run_world local_config sample_suite collect_only_scorer
      (sample_prep 2 1) (sample_store 2) = (Inr z, st')" "rz_aborted z"
    using sample_aborted_sweep by blast
  have a: "ra_resume (resume_args (Some 1)) = Some sample_rid" by (simp add: resume_args_def)
  have "repaired (sample_store 2) (pp_existing (sample_prep 2 1)) False = sample_store 2" by (simp add: repaired_def)
  then obtain od' where run: "run zero_digest_ext sample_run_world sample_suite local_config collect_only_scorer
      (resume_args (Some 1)) (sample_out 2) = (Inr z, od')"
    using sample_resume [of 2 "Some 1"] s(1) a by (auto simp: run_def first_some_def)
  have "1 \<le> rw_limit sample_run_world" by (simp add: sample_run_world_def)
  from aborted_resumes.Again [OF aborted_resumes.Nothing run a s(2) sample_inputs_ok(2,3) collect_only_unit this]
  have ar: "aborted_resumes zero_digest_ext sample_suite sample_rid (Suc 0) (sample_out 2) od'" .
  have "json_ok (JInt 2)" by (simp add: int_max_str_digits_def show_nat.simps)
  from aborted_resumes_end [OF sample_history [of 2] sample_inputs_ok(1) this ar] ar
  show ?thesis unfolding One_nat_def by auto
qed

end
