(* ===== verification/Run_Safety.thy ===== *)
theory Run_Safety
  imports Run_History
begin

text \<open>
  Safety of the runner's operations: which directory a call may touch, run ids that cannot leave the
  output directory, re-scoring against inline scoring, and the receipt a resumed run must reproduce.
\<close>

section \<open>One directory\<close>

text \<open>The directories a call of \<open>run\<close> may change.\<close>

definition may_touch :: "run_world \<Rightarrow> run_args \<Rightarrow> out_dir \<Rightarrow> string set" where
  "may_touch w args od = (case ra_resume args of
     Some rid \<Rightarrow> (if run_id_ok rid \<and> \<not> od_escapes od rid \<and> od_runs od rid \<noteq> None then {rid} else {})
   | None \<Rightarrow> (if od_runs od (rw_minted w) = None then {rw_minted w} else {}))"

lemma resolve_run_dir_Inr: "resolve_run_dir od rid = Inr u \<longleftrightarrow> run_id_ok rid \<and> \<not> od_escapes od rid"
  by (auto simp: resolve_run_dir_def)

text \<open>A run changes at most one run directory: resuming changes the named one, which must carry a
  well-formed id and exist already; a fresh run only creates the minted one and never overwrites a run
  that exists; every other directory keeps its manifest, snapshot and rows, whatever the call returns.\<close>

theorem run_touches_one_directory:
  "{rid. od_runs (snd (run ext w s config scorer args od)) rid \<noteq> od_runs od rid} \<subseteq> may_touch w args od"
proof (cases "ra_resume args")
  case None
  show ?thesis
  proof (cases "prepare_fresh ext w config s args od")
    case (Inr p)
    obtain pp st where p: "p = (pp, st)" by (cases p)
    note f = prepare_fresh_facts [OF Inr [unfolded p]]
    show ?thesis
      using None Inr p f(3,4) by (auto simp: run_def may_touch_def split: prod.splits)
  qed (use None in \<open>simp add: run_def\<close>)
next
  case (Some rid)
  show ?thesis
  proof (cases "prepare_resume ext w config s args od rid")
    case (Inr p)
    obtain pp st torn where p: "p = (pp, st, torn)" by (cases p)
    note f = prepare_resume_facts [OF Inr [unfolded p]]
    have "resolve_run_dir od rid = Inr ()"
      using Inr by (auto simp: prepare_resume_def bindE_Inr_iff)
    then show ?thesis
      using Some Inr p f(1,4) by (auto simp: run_def may_touch_def resolve_run_dir_Inr split: prod.splits)
  qed (use Some in \<open>simp add: run_def\<close>)
qed

section \<open>Run ids\<close>

lemma matches_chars:
  "matches ps s \<Longrightarrow> length s = length ps \<and> (\<forall>c \<in> set s. \<exists>p \<in> set ps. p c)"
  by (induction ps s rule: matches.induct) auto

lemma run_id_chars:
  assumes "run_id_ok s"
  shows "length s = 27" and "list_all name_char s" and "CHR ''.'' \<notin> set s"
proof -
  have m: "length s = length run_id_shape" "\<forall>c \<in> set s. \<exists>p \<in> set run_id_shape. p c"
    using matches_chars [OF assms [unfolded run_id_ok_def]] by blast+
  have l: "length run_id_shape = 27" by (simp add: run_id_shape_def)
  then show "length s = 27" using m(1) by simp
  have d: "\<not> is_digit (CHR ''.'')" "\<not> hex_char (CHR ''.'')" by code_simp+
  have n: "list_all name_char ''run_TZ_''" by code_simp
  have c: "name_char c \<and> c \<noteq> CHR ''.''" if "p \<in> set run_id_shape" "p c" for p c
  proof -
    have "is_digit c \<or> hex_char c \<or> c \<in> set ''run_TZ_''"
      using that by (auto simp: run_id_shape_def split: if_splits)
    moreover have "name_char c" if "hex_char c"
      using that by (auto simp: hex_char_def name_char_def is_ascii_alnum_def is_ascii_alpha_def in_rng_def)
    moreover have "name_char c" if "is_digit c"
      using that by (simp add: name_char_def is_ascii_alnum_def)
    ultimately show ?thesis using d n unfolding list_all_iff by auto
  qed
  show "list_all name_char s" using m(2) c by (auto simp: list_all_iff)
  show "CHR ''.'' \<notin> set s" using m(2) c by blast
qed

text \<open>No run id can address a path outside the output directory: an id that is not a minted-shape name
  of 27 letters, digits, underscores and hyphens - so without a slash, backslash or dot - is refused by
  the resume, by both re-scorings and by the readers of a run, and nothing is changed.\<close>

theorem traversal_rejected:
  assumes "length rid \<noteq> 27 \<or> \<not> list_all name_char rid \<or> CHR ''.'' \<in> set rid" and "ra_resume args = Some rid"
  shows "run ext w s config scorer args od = (Inl (RunError (InvalidRunId rid)), od) \<and>
    score_run ext limit scorer od rid = (Inl (RunError (InvalidRunId rid)), od) \<and>
    score_run_batch ext limit run_scorer od rid = (Inl (Inl (RunError (InvalidRunId rid))), od) \<and>
    load_run_suite ext od rid = Inl (RunError (InvalidRunId rid)) \<and>
    load_run_judge_contract ext od rid config = Inl (RunError (InvalidRunId rid))"
proof -
  have "\<not> run_id_ok rid" using assms(1) run_id_chars by blast
  then have "resolve_run_dir od rid = Inl (RunError (InvalidRunId rid))" by (simp add: resolve_run_dir_def)
  then show ?thesis
    using assms(2)
    by (simp add: run_def prepare_resume_def score_run_def score_run_batch_def open_run_def load_run_suite_def
        load_run_judge_contract_def)
qed

theorem traversal_rejected_witness:
  "fst (score_run documented_ext 9 collect_only_scorer empty_out ''../x'') = Inl (RunError (InvalidRunId ''../x''))"
  using traversal_rejected [where rid = "''../x''" and args = "no_args\<lparr>ra_resume := Some ''../x''\<rparr>"
      and ext = documented_ext and limit = 9 and scorer = collect_only_scorer and od = empty_out
      and w = sample_run_world and s = sample_suite and config = local_config, THEN conjunct2, THEN conjunct1]
  by simp

section \<open>Re-scoring\<close>

text \<open>A scorer does not use the tag of the empty response; every scorer of the seam qualifies.\<close>

definition untagged :: "scorer \<Rightarrow> bool" where
  "untagged sc \<longleftrightarrow> (\<forall>it resp oc. sc it resp = Inr oc \<longrightarrow> oc_scorer oc \<noteq> Some NO_RESPONSE_SCORER)"

context scorer_seam
begin

lemma untagged: "untagged sc"
  using tag by (auto simp: untagged_def)

end

lemma find_item:
  assumes "distinct (map it_id its)" and "it \<in> set its"
  shows "find (\<lambda>i. JStr (it_id it) = JStr (it_id i)) its = Some it"
  using assms by (induction its) (auto simp: image_iff)

lemma rescore_build_row:
  assumes "build_row ext rid c r sc1 = Inr row" and "untagged sc1"
    and "distinct (map it_id its)" and "cl_item c \<in> set its"
  shows "rescore_row sc2 its row = map_errE RawScoringError (build_row ext rid c r sc2)"
proof (cases "mr_reason r")
  case (Some rc)
  with assms(1) show ?thesis by (auto simp: build_row_def Let_def rescore_row_def)
next
  case None
  show ?thesis
  proof (cases "no_response r")
    case True
    with None assms(1) show ?thesis
      by (auto simp: build_row_def Let_def rescore_row_def is_no_response_row_def)
  next
    case False
    with None assms(1) obtain oc where oc: "sc1 (cl_item c) (response_text (mr_response r)) = Inr oc"
      by (auto simp: build_row_def Let_def bindE_Inr_iff)
    then have tag: "opt_str (oc_scorer oc) \<noteq> JStr NO_RESPONSE_SCORER"
      using assms(2) by (auto simp: untagged_def opt_str_def split: option.splits)
    show ?thesis
      using assms(1) None False oc tag find_item [OF assms(3,4)]
      by (cases "sc2 (cl_item c) (response_text (mr_response r))")
        (auto simp: build_row_def Let_def rescore_row_def stored_outcome_def is_no_response_row_def)
  qed
qed

text \<open>C8: Re-scoring a stored row is what scoring inline would have given: for the row a cell got under one
  scorer, the offline pass with any other scorer returns the row that the sweep builds from the same
  adapter result with that scorer, an error of the scorer included; error rows and forced-zero rows of an
  empty response come out the same either way.\<close>

theorem offline_equals_inline:
  assumes "build_row ext rid c r sc1 = Inr row" and "untagged sc1"
    and "distinct (map it_id its)" and "cl_item c \<in> set its"
  shows "rescore_row sc2 its row = map_errE RawScoringError (build_row ext rid c r sc2)"
  using assms by (rule rescore_build_row)

theorem offline_equals_inline_witness:
  "\<exists>row. build_row documented_ext ''r'' \<lparr>cl_model = ''m'', cl_binding = local_binding ''m'', cl_item = sample_item,
      cl_sample = 0\<rparr> (error RC_TIMEOUT ''x'' (Fin False 1 0)) collect_only_scorer = Inr row \<and>
    rescore_row (score_exact documented_ext False) [sample_item] row = Inr row"
proof -
  let ?c = "\<lparr>cl_model = ''m'', cl_binding = local_binding ''m'', cl_item = sample_item, cl_sample = 0\<rparr>"
  let ?r = "error RC_TIMEOUT ''x'' (Fin False 1 0)"
  obtain row where row: "build_row documented_ext ''r'' ?c ?r sc = Inr row" for sc
    by (auto simp: build_row_def error_def)
  from offline_equals_inline [OF row [of collect_only_scorer] collect_only.untagged, of "[sample_item]"
      "score_exact documented_ext False"] row
  show ?thesis by simp
qed

text \<open>What a re-scoring may change in a row.\<close>

definition rescored_from :: "run_row \<Rightarrow> run_row \<Rightarrow> bool" where
  "rescored_from r r' \<longleftrightarrow> (\<exists>p x t. r' = r\<lparr>rr_parsed := p, rr_score := x, rr_scorer := t\<rparr>) \<and>
     (rr_error r \<noteq> JNull \<or> is_no_response_row r \<longrightarrow> r' = r)"

lemma rescore_row_from: "rescore_row sc its r = Inr r' \<Longrightarrow> rescored_from r r'"
proof -
  assume a: "rescore_row sc its r = Inr r'"
  have "r = r\<lparr>rr_parsed := rr_parsed r, rr_score := rr_score r, rr_scorer := rr_scorer r\<rparr>" by simp
  then have refl: "rescored_from r r" unfolding rescored_from_def by metis
  show ?thesis
  proof (cases "rr_error r \<noteq> JNull \<or> is_no_response_row r")
    case True
    then have "rescore_row sc its r = Inr r" by (simp add: rescore_row_def)
    then show ?thesis using a refl by simp
  next
    case False
    with a have "\<exists>p x t. r' = r\<lparr>rr_parsed := p, rr_score := x, rr_scorer := t\<rparr>"
      by (auto simp: rescore_row_def bindE_Inr_iff split: if_splits option.splits; blast)
    with False show ?thesis unfolding rescored_from_def by metis
  qed
qed

lemma score_counts:
  "length (filter (\<lambda>(r, r'). scoreable r \<and> rr_score r' \<noteq> JNull) (zip xs ys))
     + length (filter (\<lambda>r. rr_error r = JNull \<and> is_no_response_row r) xs) \<le> length xs"
proof (induction xs ys rule: list_induct2')
  case (2 x xs)
  show ?case using length_filter_le [of "\<lambda>r. rr_error r = JNull \<and> is_no_response_row r" "x # xs"] by simp
qed (auto simp: scoreable_def)

text \<open>A re-scoring is all or nothing and touches scores only: if it fails nothing is changed; if it
  succeeds the directory keeps its manifest and snapshot, and its new log has the same rows in the same
  order with nothing but parse, score and scorer changed, and those not in a row that carries an error
  or the empty-response tag.\<close>

theorem rescoring_touches_scores_only:
  assumes "score_run ext limit scorer od rid = (res, od')"
  shows "case res of
      Inl e \<Rightarrow> od' = od
    | Inr z \<Rightarrow> (\<exists>st rows torn rows'. od_runs od rid = Some st \<and>
        read_rows limit (rs_rows st) = Inr (rows, torn) \<and> list_all2 rescored_from rows rows' \<and>
        od' = od\<lparr>od_runs := (od_runs od)(rid \<mapsto> st\<lparr>rs_rows := FileText (rows_text rows')\<rparr>)\<rparr> \<and>
        sr_total z = length rows' \<and> sr_scored z + sr_no_response z \<le> length rows')"
proof (cases res)
  case (Inl e)
  then show ?thesis using assms by (auto simp: score_run_def split: sum.splits)
next
  case (Inr z)
  from assms Inr obtain st s rows torn rows' where o': "open_run ext od rid = Inr (st, s)"
      "read_rows limit (rs_rows st) = Inr (rows, torn)" "mapE (rescore_row scorer (su_items s)) rows = Inr rows'"
      "od' = od\<lparr>od_runs := (od_runs od)(rid \<mapsto> st\<lparr>rs_rows := rewrite_rows rows'\<rparr>)\<rparr>"
      "sr_total z = length rows"
      "sr_scored z = length (filter (\<lambda>(r, r'). scoreable r \<and> rr_score r' \<noteq> JNull) (zip rows rows'))"
      "sr_no_response z = length (filter (\<lambda>r. rr_error r = JNull \<and> is_no_response_row r) rows)"
    by (auto simp: score_run_def bindE_Inr_iff split: sum.splits)
  have "od_runs od rid = Some st"
    using o'(1) by (auto simp: open_run_def bindE_Inr_iff split: option.splits if_splits)
  moreover have all: "list_all2 rescored_from rows rows'"
    using o'(3) by (auto simp: mapE_Inr_iff elim: list_all2_mono dest: rescore_row_from)
  moreover have len: "length rows = length rows'" using all by (rule list_all2_lengthD)
  ultimately show ?thesis using o' Inr score_counts [of rows rows'] by (auto simp: rewrite_rows_def)
qed

theorem rescoring_touches_scores_only_witness:
  "case score_run documented_ext 9 collect_only_scorer empty_out ''x'' of (res, od') \<Rightarrow> res = Inl (RunError (InvalidRunId ''x''))
     \<and> od' = empty_out"
proof -
  have "\<exists>od'. score_run documented_ext 9 collect_only_scorer empty_out ''x'' = (Inl (RunError (InvalidRunId ''x'')), od')"
    by (simp add: score_run_def open_run_def resolve_run_dir_def run_id_ok_def run_id_shape_def)
  then obtain od' where
      "score_run documented_ext 9 collect_only_scorer empty_out ''x'' = (Inl (RunError (InvalidRunId ''x'')), od')"
    by blast
  with rescoring_touches_scores_only [OF this] show ?thesis by simp
qed

section \<open>Resuming under the receipt\<close>

lemma legacy_claude:
  assumes "validate_legacy_resume bs s samples done = Inr ()" and "b \<in> set bs"
  shows "pending_cells b s samples done = [] \<or>
    mb_provider b = Local \<and> mb_requested b = mb_alias b \<and> mb_alias b \<notin> set CLAUDE_ALIASES"
  using assms by (induction bs) (auto split: if_splits)

text \<open>The bindings a receipt is checked against include every binding that is swept.\<close>

lemma execution_covers_roster:
  assumes "resolve_bindings config roster label = Inr bs" and "execution_bindings config s roster judges = Inr selected"
  shows "set bs \<subseteq> set selected"
proof
  fix b assume b: "b \<in> set bs"
  define aliases where "aliases = (if sc_type (su_scoring s) = Rubric then roster @ judges else roster)"
  have a: "set roster \<subseteq> set aliases" by (simp add: aliases_def)
  have sel: "resolve_bindings config (fromkeys aliases) ''execution'' = Inr selected"
    using assms(2) by (auto simp: execution_bindings_def aliases_def bindE_Inr_iff Let_def split: if_splits)
  have "mb_alias b \<in> set (fromkeys aliases)"
    using b a resolve_bindings_Inr(1) [OF assms(1)] by (auto simp: fromkeys_def fromkeys_acc_set)
  then obtain b' where b': "b' \<in> set selected" "mb_alias b' = mb_alias b"
    using resolve_bindings_Inr(1) [OF sel] by (metis imageE list.set_map)
  have "binding_for (cf_profile config) (mb_alias b) = Inr b" "binding_for (cf_profile config) (mb_alias b') = Inr b'"
    using b b'(1) resolve_bindings_Inr(2) [OF assms(1)] resolve_bindings_Inr(2) [OF sel] by auto
  with b' show "b \<in> set selected" by simp
qed

text \<open>C9: A resumed run never calls a model outside what its receipt proves.  The bindings it sweeps are those
  of the roster its manifest records, under the present configuration.  With a stored receipt, the receipt is
  what the present profile and the stored evidence give for the execution bindings of that roster and the
  recorded judges, which include every binding swept, and pending Claude cells need a freshly probed runtime
  whose receipt for these bindings equals the stored one; without a stored receipt, every binding with pending
  cells is local, requests its own alias and is not a Claude alias, and no runtime or Gemini key is handed to
  the sweep.\<close>

theorem resume_within_receipt:
  assumes "prepare_resume ext w config s args od rid = Inr (pp, st, torn)"
  shows "\<exists>m judges selected. read_manifest st = Inr m \<and>
    read_manifest_selection ext m ''roster'' = Inr (pp_roster pp) \<and>
    read_manifest_selection ext m ''judges'' = Inr judges \<and>
    resolve_bindings config (pp_roster pp) ''roster'' = Inr (pp_bindings pp) \<and>
    execution_bindings config s (pp_roster pp) judges = Inr selected \<and> set (pp_bindings pp) \<subseteq> set selected \<and>
    (case read_execution_receipt ext m of
       Inl e \<Rightarrow> False
     | Inr None \<Rightarrow> pp_runtime pp = None \<and> pp_gemini_key pp = None \<and>
         list_all (\<lambda>b. pending_cells b s (pp_samples pp) (pp_done pp) = [] \<or>
           mb_provider b = Local \<and> mb_requested b = mb_alias b \<and> mb_alias b \<notin> set CLAUDE_ALIASES) (pp_bindings pp)
     | Inr (Some stored) \<Rightarrow>
         Receipt_create ext (cf_profile config) selected (map_option ce_executable (rc_claude stored))
           (map_option ce_version (rc_claude stored)) = Inr stored \<and>
         (if has_pending_claude (pp_bindings pp) s (pp_samples pp) (pp_done pp)
          then doctor_execution ext w config selected = Inr (stored, pp_runtime pp)
          else pp_runtime pp = None) \<and>
         (pp_gemini_key pp \<noteq> None) = has_pending_gemini (pp_bindings pp) s (pp_samples pp) (pp_done pp))"
proof -
  from assms obtain m judges stored selected where m: "read_manifest st = Inr m"
      "read_manifest_selection ext m ''roster'' = Inr (pp_roster pp)" "read_manifest_selection ext m ''judges'' = Inr judges"
      "resolve_bindings config (pp_roster pp) ''roster'' = Inr (pp_bindings pp)"
      "execution_bindings config s (pp_roster pp) judges = Inr selected"
      "read_execution_receipt ext m = Inr stored"
    and c: "(case stored of
        None \<Rightarrow> bindE (validate_legacy_resume (pp_bindings pp) s (pp_samples pp) (pp_done pp)) (\<lambda>_. Inr (None, None))
      | Some rc \<Rightarrow> sealed_resume ext w config s rc (pp_bindings pp) selected (pp_samples pp) (pp_done pp))
        = Inr (pp_runtime pp, pp_gemini_key pp)"
    by (auto simp: prepare_resume_def bindE_Inr_iff split: option.splits if_splits)
  note cover = execution_covers_roster [OF m(4,5)]
  show ?thesis
  proof (cases stored)
    case None
    with c have "validate_legacy_resume (pp_bindings pp) s (pp_samples pp) (pp_done pp) = Inr ()"
        "pp_runtime pp = None" "pp_gemini_key pp = None"
      by (auto simp: bindE_Inr_iff)
    with legacy_claude [OF this(1)] show ?thesis
      using m None cover by (simp add: list_all_iff)
  next
    case (Some rc)
    with c have v: "validate_receipt_profile ext rc config selected = Inr ()"
      by (auto simp: sealed_resume_def bindE_Inr_iff)
    have "Receipt_create ext (cf_profile config) selected (map_option ce_executable (rc_claude rc))
        (map_option ce_version (rc_claude rc)) = Inr rc"
      using v by (auto simp: validate_receipt_profile_def bindE_Inr_iff map_errE_Inr_iff checkE_def split: if_splits)
    moreover have "if has_pending_claude (pp_bindings pp) s (pp_samples pp) (pp_done pp)
        then doctor_execution ext w config selected = Inr (rc, pp_runtime pp) else pp_runtime pp = None"
      using c Some by (auto simp: sealed_resume_def bindE_Inr_iff split: if_splits)
    moreover have "(pp_gemini_key pp \<noteq> None) = has_pending_gemini (pp_bindings pp) s (pp_samples pp) (pp_done pp)"
      using c Some
      by (cases "pp_gemini_key pp") (auto simp: sealed_resume_def bindE_Inr_iff split: if_splits)
    ultimately show ?thesis
      using m Some cover by (intro exI [of _ m] exI [of _ judges] exI [of _ selected]) simp
  qed
qed

theorem resume_within_receipt_witness:
  "pp_runtime (sample_prep 1 3) = None \<and> (\<exists>m. read_manifest (sample_store 1) = Inr m)"
  using resume_within_receipt [OF sample_resume [of 1 None]] by (auto simp: sample_prep_def first_some_def)

end
