(* ===== verification/Ledger.thy ===== *)
theory Ledger
  imports Profile
begin

text \<open>
  src/measure_twice/ledger.py: the evidence ledger, a strict JSONL file of claims with quote-hashed
  citations; the audit that turns a claim stale when a citation no longer matches; the Markdown
  rendering.  The file system is what a read of a cited path gives, and \<open>datetime.fromisoformat\<close> is
  an argument.
\<close>

section \<open>Text\<close>

text \<open>\<open>str.splitlines\<close>: a carriage return takes a following line feed with it.\<close>

definition line_break :: "char \<Rightarrow> bool" where
  "line_break c \<longleftrightarrow> code_pt c \<in> {10, 11, 12, 13, 28, 29, 30, 133}"

definition skip_lf :: "string \<Rightarrow> string" where
  "skip_lf s = (case s of [] \<Rightarrow> [] | c # r \<Rightarrow> if c = newline then r else s)"

lemma skip_lf_length: "length (skip_lf s) \<le> length s"
  by (simp add: skip_lf_def split: list.split)

function splitlines_from :: "string \<Rightarrow> string \<Rightarrow> string list" where
  "splitlines_from acc [] = (if acc = [] then [] else [rev acc])"
| "splitlines_from acc (c # s) =
     (if c = CHR 0x0D then rev acc # splitlines_from [] (skip_lf s)
      else if line_break c then rev acc # splitlines_from [] s
      else splitlines_from (c # acc) s)"
  by pat_completeness auto
termination by (relation "measure (\<lambda>(acc, s). length s)") (auto simp: le_imp_less_Suc skip_lf_length)

definition splitlines :: "string \<Rightarrow> string list" where
  "splitlines s = splitlines_from [] s"

section \<open>Claims\<close>

datatype claim_status = MEASURED | PARTIAL | ASSERTED | STALE

definition status_order :: "claim_status list" where
  "status_order = [MEASURED, PARTIAL, ASSERTED, STALE]"

fun status_value :: "claim_status \<Rightarrow> string" where
  "status_value MEASURED = ''MEASURED''"
| "status_value PARTIAL = ''PARTIAL''"
| "status_value ASSERTED = ''ASSERTED''"
| "status_value STALE = ''STALE''"

record claim_source =
  so_file :: string
  so_lines :: string
  so_quote :: string

record claim =
  cm_id :: string
  cm_statement :: string
  cm_surface :: string
  cm_sources :: "claim_source list"
  cm_status :: claim_status
  cm_evidence :: "string list"
  cm_verdict :: "string option"
  cm_prereg :: "string option"
  cm_verified :: string

datatype ledger_error =
    LedgerKeys string "string list" "string list"
  | LedgerEmptyString string
  | BadLineRange string
  | LineRangeOrder string
  | SourceBackslash
  | UnsafeSourcePath string
  | TimestampNotUtc
  | TimestampNotIso string
  | TimestampNaive
  | BadQuoteDigest string
  | UnsafeClaimId string string
  | NoSources string
  | LedgerNotObject string
  | BadStatus string string
  | EvidenceNotList string
  | DuplicateEvidence string string
  | VerdictNotText string
  | PreregNotText string
  | PreregBlank string
  | MeasuredNoEvidence string
  | MeasuredNoPrereg string
  | LedgerUnreadable
  | LedgerBlankLine nat
  | LedgerNotJson nat
  | DuplicateClaim string
  | LedgerUnwritable
  | RootUnusable
  | SourceUnresolved string
  | SourceOutside string
  | SourceNotFile string
  | SourceUnreadable string
  | SourceTooShort string

text \<open>What leaves the module: \<open>LedgerError\<close>, or an exception that no clause turns into one.\<close>

datatype ledger_exn = LedgerError ledger_error | LedgerRawValueError | LedgerRawRecursionError

type_synonym 'a lres = "(ledger_exn, 'a) res"

abbreviation ledger_fail :: "ledger_error \<Rightarrow> 'a lres" where
  "ledger_fail e \<equiv> Inl (LedgerError e)"

definition ledger_exact_keys :: "(string \<times> json) list \<Rightarrow> string list \<Rightarrow> string \<Rightarrow> unit lres" where
  "ledger_exact_keys d expected label =
     (let missing = missing_keys d expected; unknown = unknown_keys d expected
      in if missing \<noteq> [] \<or> unknown \<noteq> [] then ledger_fail (LedgerKeys label missing unknown) else Inr ())"

definition ledger_nonempty :: "json \<Rightarrow> string \<Rightarrow> string lres" where
  "ledger_nonempty v label = (case v of
     JStr s \<Rightarrow> if strip s = [] then ledger_fail (LedgerEmptyString label) else Inr s
   | _ \<Rightarrow> ledger_fail (LedgerEmptyString label))"

text \<open>\<open>N\<close> or \<open>N-M\<close> without leading zeros; \<open>int\<close> refuses more than 4300 digits.\<close>

definition line_no :: "string \<Rightarrow> bool" where
  "line_no s \<longleftrightarrow> s \<noteq> [] \<and> list_all is_digit s \<and> hd s \<noteq> CHR ''0''"

definition line_int :: "string \<Rightarrow> nat lres" where
  "line_int s = (if length s \<le> int_max_str_digits then Inr (read_nat s) else Inl LedgerRawValueError)"

definition parse_line_range :: "string \<Rightarrow> (nat \<times> nat) lres" where
  "parse_line_range v =
     (let a = takeWhile is_digit v; r = dropWhile is_digit v;
          b = (case r of [] \<Rightarrow> a | c # b \<Rightarrow> b)
      in if \<not> line_no a \<or> (r \<noteq> [] \<and> (hd r \<noteq> CHR ''-'' \<or> \<not> line_no b)) then ledger_fail (BadLineRange v)
         else
           bindE (line_int a) (\<lambda>first.
           bindE (line_int b) (\<lambda>last.
             if last < first then ledger_fail (LineRangeOrder v) else Inr (first, last))))"

text \<open>\<open>PurePosixPath(value).parts\<close> of a relative path: empty and \<open>.\<close> components disappear.\<close>

definition path_parts :: "string \<Rightarrow> string list" where
  "path_parts v = filter (\<lambda>p. p \<noteq> [] \<and> p \<noteq> ''.'') (split_on (CHR ''/'') v)"

definition validate_source_file :: "string \<Rightarrow> unit lres" where
  "validate_source_file v =
     (if CHR 0x5C \<in> set v then ledger_fail SourceBackslash
      else if (v \<noteq> [] \<and> hd v = CHR ''/'') \<or> path_parts v = [] \<or> ''..'' \<in> set (path_parts v) \<or> CHR '':'' \<in> set v
      then ledger_fail (UnsafeSourcePath v) else Inr ())"

text \<open>\<open>fromisoformat\<close>: \<open>None\<close> for a \<open>ValueError\<close>, else whether the result has a time zone.\<close>

type_synonym iso_reader = "string \<Rightarrow> bool option"

definition validate_timestamp :: "iso_reader \<Rightarrow> string \<Rightarrow> unit lres" where
  "validate_timestamp isor v =
     (if v = [] \<or> last v \<noteq> CHR ''Z'' then ledger_fail TimestampNotUtc
      else case isor (butlast v @ ''+00:00'') of
        None \<Rightarrow> ledger_fail (TimestampNotIso v)
      | Some aware \<Rightarrow> if aware then Inr () else ledger_fail TimestampNaive)"

section \<open>Reading and writing a claim\<close>

definition source_fields :: "string list" where
  "source_fields = [''file'', ''lines'', ''quote_sha256'']"

definition ClaimSource_from_mapping :: "(string \<times> json) list \<Rightarrow> string \<Rightarrow> claim_source lres" where
  "ClaimSource_from_mapping d label =
     bindE (ledger_exact_keys d source_fields label) (\<lambda>_.
     bindE (ledger_nonempty (fld d ''file'') (label @ ''.file'')) (\<lambda>file.
     bindE (ledger_nonempty (fld d ''lines'') (label @ ''.lines'')) (\<lambda>lns.
     bindE (ledger_nonempty (fld d ''quote_sha256'') (label @ ''.quote_sha256'')) (\<lambda>quote.
     bindE (validate_source_file file) (\<lambda>_.
     bindE (parse_line_range lns) (\<lambda>_.
     if \<not> hex_digest quote then ledger_fail (BadQuoteDigest label)
     else Inr \<lparr>so_file = file, so_lines = lns, so_quote = quote\<rparr>))))))"

definition ClaimSource_to_mapping :: "claim_source \<Rightarrow> json" where
  "ClaimSource_to_mapping s = JObj [(''file'', JStr (so_file s)), (''lines'', JStr (so_lines s)),
     (''quote_sha256'', JStr (so_quote s))]"

definition indexed :: "string \<Rightarrow> string \<Rightarrow> nat \<Rightarrow> string" where
  "indexed label name i = label @ name @ ''['' @ show_nat i @ '']''"

fun sources_from :: "string \<Rightarrow> nat \<Rightarrow> json list \<Rightarrow> claim_source list lres" where
  "sources_from label i [] = Inr []"
| "sources_from label i (v # vs) =
     bindE (case v of JObj d \<Rightarrow> ClaimSource_from_mapping d (indexed label ''.sources'' i)
            | _ \<Rightarrow> ledger_fail (LedgerNotObject (indexed label ''.sources'' i))) (\<lambda>s.
     bindE (sources_from label (Suc i) vs) (\<lambda>ss. Inr (s # ss)))"

definition read_status :: "string \<Rightarrow> claim_status option" where
  "read_status s = find (\<lambda>x. status_value x = s) status_order"

fun evidence_from :: "string \<Rightarrow> nat \<Rightarrow> string list \<Rightarrow> json list \<Rightarrow> string list lres" where
  "evidence_from label i seen [] = Inr seen"
| "evidence_from label i seen (v # vs) =
     bindE (ledger_nonempty v (indexed label ''.evidence'' i)) (\<lambda>r.
     if r \<in> set seen then ledger_fail (DuplicateEvidence label r)
     else evidence_from label (Suc i) (seen @ [r]) vs)"

definition claim_fields :: "string list" where
  "claim_fields = [''claim_id'', ''statement'', ''decision_surface'', ''sources'', ''status'', ''evidence'',
     ''verdict'', ''preregistration'', ''last_verified_utc'']"

definition text_or_null :: "json \<Rightarrow> ledger_error \<Rightarrow> string option lres" where
  "text_or_null v e = (case v of JNull \<Rightarrow> Inr None | JStr s \<Rightarrow> Inr (Some s) | _ \<Rightarrow> ledger_fail e)"

definition Claim_from_mapping ::
    "externals \<Rightarrow> iso_reader \<Rightarrow> (string \<times> json) list \<Rightarrow> string \<Rightarrow> claim lres" where
  "Claim_from_mapping ext isor d label =
     bindE (ledger_exact_keys d claim_fields label) (\<lambda>_.
     bindE (ledger_nonempty (fld d ''claim_id'') (label @ ''.claim_id'')) (\<lambda>cid.
     if \<not> sb_safe_name_full ext cid then ledger_fail (UnsafeClaimId label cid)
     else
     bindE (ledger_nonempty (fld d ''statement'') (label @ ''.statement'')) (\<lambda>statement.
     bindE (ledger_nonempty (fld d ''decision_surface'') (label @ ''.decision_surface'')) (\<lambda>surface.
     bindE (case fld d ''sources'' of
              JList vs \<Rightarrow> if vs = [] then ledger_fail (NoSources label) else sources_from label 1 vs
            | _ \<Rightarrow> ledger_fail (NoSources label)) (\<lambda>sources.
     bindE (ledger_nonempty (fld d ''status'') (label @ ''.status'')) (\<lambda>raw_status.
     bindE (case read_status raw_status of
              None \<Rightarrow> ledger_fail (BadStatus label raw_status) | Some x \<Rightarrow> Inr x) (\<lambda>status.
     bindE (case fld d ''evidence'' of
              JList vs \<Rightarrow> evidence_from label 1 [] vs
            | _ \<Rightarrow> ledger_fail (EvidenceNotList label)) (\<lambda>evidence.
     bindE (text_or_null (fld d ''verdict'') (VerdictNotText label)) (\<lambda>verdict.
     bindE (text_or_null (fld d ''preregistration'') (PreregNotText label)) (\<lambda>prereg.
     if (case prereg of None \<Rightarrow> False | Some p \<Rightarrow> strip p = []) then ledger_fail (PreregBlank label)
     else
     bindE (ledger_nonempty (fld d ''last_verified_utc'') (label @ ''.last_verified_utc'')) (\<lambda>verified.
     bindE (validate_timestamp isor verified) (\<lambda>_.
     if status = MEASURED \<and> evidence = [] then ledger_fail (MeasuredNoEvidence label)
     else if status = MEASURED \<and> prereg = None then ledger_fail (MeasuredNoPrereg label)
     else Inr \<lparr>cm_id = cid, cm_statement = statement, cm_surface = surface, cm_sources = sources,
               cm_status = status, cm_evidence = evidence, cm_verdict = verdict, cm_prereg = prereg,
               cm_verified = verified\<rparr>))))))))))))"

definition null_or_text :: "string option \<Rightarrow> json" where
  "null_or_text x = (case x of None \<Rightarrow> JNull | Some s \<Rightarrow> JStr s)"

definition Claim_to_mapping :: "claim \<Rightarrow> json" where
  "Claim_to_mapping c = JObj [(''claim_id'', JStr (cm_id c)), (''statement'', JStr (cm_statement c)),
     (''decision_surface'', JStr (cm_surface c)),
     (''sources'', JList (map ClaimSource_to_mapping (cm_sources c))),
     (''status'', JStr (status_value (cm_status c))), (''evidence'', strs_json (cm_evidence c)),
     (''verdict'', null_or_text (cm_verdict c)), (''preregistration'', null_or_text (cm_prereg c)),
     (''last_verified_utc'', JStr (cm_verified c))]"

definition claim_from_json :: "externals \<Rightarrow> iso_reader \<Rightarrow> string \<Rightarrow> json \<Rightarrow> claim lres" where
  "claim_from_json ext isor label v = (case v of
     JObj d \<Rightarrow> Claim_from_mapping ext isor d label
   | _ \<Rightarrow> ledger_fail (LedgerNotObject label))"

section \<open>The ledger file\<close>

text \<open>The numbered loop over the lines; \<open>seen\<close> are the ids so far.\<close>

fun load_lines ::
    "externals \<Rightarrow> iso_reader \<Rightarrow> nat \<Rightarrow> string \<Rightarrow> nat \<Rightarrow> string list \<Rightarrow> string list \<Rightarrow> claim list lres" where
  "load_lines ext isor limit path n seen [] = Inr []"
| "load_lines ext isor limit path n seen (line # rest) =
     (if strip line = [] then ledger_fail (LedgerBlankLine n)
      else
        bindE (case loads limit line of
                 Inl JRecursionError \<Rightarrow> Inl LedgerRawRecursionError
               | Inl IntDigitsError \<Rightarrow> Inl LedgerRawValueError
               | Inl JSONDecodeError \<Rightarrow> ledger_fail (LedgerNotJson n)
               | Inr v \<Rightarrow> Inr v) (\<lambda>raw.
        bindE (claim_from_json ext isor (''ledger '' @ path @ '' line '' @ show_nat n) raw) (\<lambda>c.
        if cm_id c \<in> set seen then ledger_fail (DuplicateClaim (cm_id c))
        else bindE (load_lines ext isor limit path (Suc n) (cm_id c # seen) rest) (\<lambda>cs. Inr (c # cs)))))"

definition load_ledger :: "externals \<Rightarrow> iso_reader \<Rightarrow> nat \<Rightarrow> string \<Rightarrow> file_read \<Rightarrow> claim list lres" where
  "load_ledger ext isor limit path file = (case file of
     FileText t \<Rightarrow> if strip t = [] then Inr [] else load_lines ext isor limit path 1 [] (splitlines t)
   | _ \<Rightarrow> ledger_fail LedgerUnreadable)"

fun validated_from :: "externals \<Rightarrow> iso_reader \<Rightarrow> nat \<Rightarrow> string list \<Rightarrow> claim list \<Rightarrow> claim list lres" where
  "validated_from ext isor n seen [] = Inr []"
| "validated_from ext isor n seen (c # cs) =
     bindE (claim_from_json ext isor (''claim '' @ show_nat n) (Claim_to_mapping c)) (\<lambda>x.
     if cm_id x \<in> set seen then ledger_fail (DuplicateClaim (cm_id x))
     else bindE (validated_from ext isor (Suc n) (cm_id x # seen) cs) (\<lambda>xs. Inr (x # xs)))"

definition validated_claims :: "externals \<Rightarrow> iso_reader \<Rightarrow> claim list \<Rightarrow> claim list lres" where
  "validated_claims ext isor cs = validated_from ext isor 1 [] cs"

definition claim_line :: "claim \<Rightarrow> string" where
  "claim_line c = dumps_with '','' '':'' (Claim_to_mapping c) @ [newline]"

text \<open>The new content of the file, which replaces the old one at once.\<close>

definition write_ledger :: "externals \<Rightarrow> iso_reader \<Rightarrow> bool \<Rightarrow> claim list \<Rightarrow> file_read lres" where
  "write_ledger ext isor writable cs =
     bindE (validated_claims ext isor cs) (\<lambda>checked.
     if writable then Inr (FileText (concat (map claim_line checked))) else ledger_fail LedgerUnwritable)"

section \<open>The audit\<close>

text \<open>What reading the cited path below the workspace root gives.\<close>

datatype source_read =
    SrcUnresolved
  | SrcNullByte       \<comment> \<open>a \<open>ValueError\<close> of the operating-system call\<close>
  | SrcOutside
  | SrcNotFile
  | SrcUnreadable
  | SrcText string

record workspace =
  ws_root :: bool
  ws_read :: "string list \<Rightarrow> source_read"

definition source_quote_sha256 :: "externals \<Rightarrow> workspace \<Rightarrow> claim_source \<Rightarrow> string lres" where
  "source_quote_sha256 ext ws s =
     (if \<not> ws_root ws then ledger_fail RootUnusable
      else
        bindE (validate_source_file (so_file s)) (\<lambda>_.
        let r = ws_read ws (path_parts (so_file s)) in
        if r = SrcUnresolved then ledger_fail (SourceUnresolved (so_file s))
        else if r = SrcNullByte then Inl LedgerRawValueError
        else if r = SrcOutside then ledger_fail (SourceOutside (so_file s))
        else if r = SrcNotFile then ledger_fail (SourceNotFile (so_file s))
        else
          bindE (parse_line_range (so_lines s)) (\<lambda>(first, last).
          case r of
            SrcText t \<Rightarrow>
              (let all_lines = splitlines t in
               if length all_lines < last then ledger_fail (SourceTooShort (so_file s))
               else Inr (sha256_hex ext (join [newline] (drop (first - 1) (take last all_lines)))))
          | _ \<Rightarrow> ledger_fail (SourceUnreadable (so_file s)))))"

datatype audit_reason = AuditFailed ledger_error | QuoteChanged

record audit_issue =
  ai_claim :: string
  ai_source :: claim_source
  ai_reason :: audit_reason

fun audit_sources ::
    "externals \<Rightarrow> workspace \<Rightarrow> string \<Rightarrow> claim_source list \<Rightarrow> audit_issue list lres" where
  "audit_sources ext ws cid [] = Inr []"
| "audit_sources ext ws cid (s # ss) =
     bindE (case source_quote_sha256 ext ws s of
              Inl (LedgerError e) \<Rightarrow> Inr [\<lparr>ai_claim = cid, ai_source = s, ai_reason = AuditFailed e\<rparr>]
            | Inl e \<Rightarrow> Inl e
            | Inr h \<Rightarrow>
                Inr (if h \<noteq> so_quote s then [\<lparr>ai_claim = cid, ai_source = s, ai_reason = QuoteChanged\<rparr>] else [])) (\<lambda>is.
     bindE (audit_sources ext ws cid ss) (\<lambda>js. Inr (is @ js)))"

record audit_result =
  ar_claims :: "claim list"
  ar_newly :: "string list"
  ar_issues :: "audit_issue list"

fun audit_claims :: "externals \<Rightarrow> workspace \<Rightarrow> claim list \<Rightarrow> audit_result lres" where
  "audit_claims ext ws [] = Inr \<lparr>ar_claims = [], ar_newly = [], ar_issues = []\<rparr>"
| "audit_claims ext ws (c # cs) =
     bindE (audit_sources ext ws (cm_id c) (cm_sources c)) (\<lambda>is.
     bindE (audit_claims ext ws cs) (\<lambda>rest.
       let newly = is \<noteq> [] \<and> cm_status c \<noteq> STALE in
       Inr \<lparr>ar_claims = (if newly then c\<lparr>cm_status := STALE\<rparr> else c) # ar_claims rest,
            ar_newly = (if newly then [cm_id c] else []) @ ar_newly rest,
            ar_issues = is @ ar_issues rest\<rparr>))"

text \<open>The audit of a file; the second component is the file afterwards.\<close>

definition audit_ledger ::
    "externals \<Rightarrow> iso_reader \<Rightarrow> nat \<Rightarrow> string \<Rightarrow> workspace \<Rightarrow> bool \<Rightarrow> file_read \<Rightarrow> audit_result lres \<times> file_read" where
  "audit_ledger ext isor limit path ws writable file =
     (case bindE (load_ledger ext isor limit path file) (\<lambda>cs.
             if \<not> ws_root ws then ledger_fail RootUnusable else audit_claims ext ws cs) of
        Inl e \<Rightarrow> (Inl e, file)
      | Inr res \<Rightarrow>
          (if ar_newly res = [] then (Inr res, file)
           else (case write_ledger ext isor writable (ar_claims res) of
                   Inl e \<Rightarrow> (Inl e, file)
                 | Inr file' \<Rightarrow> (Inr res, file'))))"

definition stale_claim_ids :: "audit_result \<Rightarrow> string list" where
  "stale_claim_ids res = map cm_id (filter (\<lambda>c. cm_status c = STALE) (ar_claims res))"

definition fresh_count :: "audit_result \<Rightarrow> int" where
  "fresh_count res = int (length (ar_claims res)) - int (length (stale_claim_ids res))"

section \<open>Rendering\<close>

definition markdown_char :: "char \<Rightarrow> string" where
  "markdown_char c = (if c = CHR 0x5C then [CHR 0x5C, CHR 0x5C] else if c = CHR ''|'' then [CHR 0x5C, CHR ''|'']
     else if c = CHR 0x0D \<or> c = newline then '' '' else [c])"

definition markdown_cell :: "string \<Rightarrow> string" where
  "markdown_cell s = concat (map markdown_char s)"

definition render_claim_list :: "claim list \<Rightarrow> string" where
  "render_claim_list cs =
     (if cs = [] then ''No claims recorded.''
      else join [newline] (map (\<lambda>c. status_value (cm_status c) @ [CHR 0x09] @ cm_id c @ [CHR 0x09] @ cm_statement c)
        (sort_key cm_id cs)))"

definition code_span :: "string \<Rightarrow> string" where
  "code_span s = ''`'' @ markdown_cell s @ ''`''"

definition claim_row :: "claim \<Rightarrow> string" where
  "claim_row c = ''| '' @ join '' | '' [code_span (cm_id c), code_span (cm_surface c), markdown_cell (cm_statement c),
     markdown_cell (if cm_evidence c = [] then ''-'' else join '', '' (cm_evidence c)),
     code_span (join ''<br>'' (map (\<lambda>s. so_file s @ '':'' @ so_lines s) (cm_sources c)))] @ '' |''"

definition status_section :: "claim list \<Rightarrow> claim_status \<Rightarrow> string list" where
  "status_section cs st =
     (let group = sort_key cm_id (filter (\<lambda>c. cm_status c = st) cs)
      in [''## '' @ status_value st @ '' ('' @ show_nat (length group) @ '')'', []] @
         (if group = [] then [''No claims.'', []]
          else [''| Claim | Decision surface | Statement | Evidence | Sources |'', ''| --- | --- | --- | --- | --- |'']
            @ map claim_row group @ [[]]))"

definition render_ledger :: "claim list \<Rightarrow> string" where
  "render_ledger cs =
     rstrip (join [newline] ([''# Evidence ledger'', []] @ concat (map (status_section cs) status_order))) @ [newline]"

section \<open>What a claim that is read satisfies\<close>

definition source_ok :: "claim_source \<Rightarrow> bool" where
  "source_ok s \<longleftrightarrow> strip (so_file s) \<noteq> [] \<and> strip (so_lines s) \<noteq> [] \<and> strip (so_quote s) \<noteq> [] \<and>
     validate_source_file (so_file s) = Inr () \<and> (\<exists>p. parse_line_range (so_lines s) = Inr p) \<and>
     hex_digest (so_quote s)"

definition claim_ok :: "externals \<Rightarrow> iso_reader \<Rightarrow> claim \<Rightarrow> bool" where
  "claim_ok ext isor c \<longleftrightarrow> strip (cm_id c) \<noteq> [] \<and> sb_safe_name_full ext (cm_id c) \<and> strip (cm_statement c) \<noteq> []
     \<and> strip (cm_surface c) \<noteq> [] \<and> cm_sources c \<noteq> [] \<and> list_all source_ok (cm_sources c)
     \<and> distinct (cm_evidence c) \<and> list_all (\<lambda>r. strip r \<noteq> []) (cm_evidence c)
     \<and> (case cm_prereg c of None \<Rightarrow> True | Some p \<Rightarrow> strip p \<noteq> [])
     \<and> strip (cm_verified c) \<noteq> [] \<and> validate_timestamp isor (cm_verified c) = Inr ()
     \<and> (cm_status c = MEASURED \<longrightarrow> cm_evidence c \<noteq> [] \<and> cm_prereg c \<noteq> None)"

lemma ledger_nonempty_Inr: "ledger_nonempty v label = Inr s \<longleftrightarrow> v = JStr s \<and> strip s \<noteq> []"
  by (cases v) (auto simp: ledger_nonempty_def)

lemma text_or_null_Inr: "text_or_null v e = Inr x \<longleftrightarrow> v = null_or_text x"
  by (cases v; cases x) (auto simp: text_or_null_def null_or_text_def)

lemma read_status_Some: "read_status s = Some x \<longleftrightarrow> s = status_value x"
  by (cases x) (auto simp: read_status_def status_order_def)

lemma ClaimSource_ok: "ClaimSource_from_mapping d label = Inr s \<Longrightarrow> source_ok s"
  by (auto simp: ClaimSource_from_mapping_def bindE_Inr_iff ledger_nonempty_Inr source_ok_def split: if_splits)

lemma ClaimSource_from_to:
  assumes "source_ok s"
  shows "\<exists>d. ClaimSource_to_mapping s = JObj d \<and> ClaimSource_from_mapping d label = Inr s"
proof -
  let ?d = "[(''file'', JStr (so_file s)), (''lines'', JStr (so_lines s)), (''quote_sha256'', JStr (so_quote s))]"
  have k: "ledger_exact_keys ?d source_fields label = Inr ()"
    by (simp add: ledger_exact_keys_def source_fields_def missing_keys_Nil_iff unknown_keys_Nil_iff keys_simps)
  obtain p where "parse_line_range (so_lines s) = Inr p" using assms by (auto simp: source_ok_def)
  with assms k have "ClaimSource_from_mapping ?d label = Inr s"
    by (simp add: ClaimSource_from_mapping_def fld_Cons ledger_nonempty_def source_ok_def)
  then show ?thesis by (simp add: ClaimSource_to_mapping_def)
qed

lemma sources_from_ok: "sources_from label i vs = Inr ss \<Longrightarrow> list_all source_ok ss"
  by (induction vs arbitrary: i ss) (auto simp: bindE_Inr_iff dest: ClaimSource_ok split: json.splits)

lemma sources_from_to: "list_all source_ok ss \<Longrightarrow> sources_from label i (map ClaimSource_to_mapping ss) = Inr ss"
proof (induction ss arbitrary: i)
  case (Cons s ss)
  obtain d where "ClaimSource_to_mapping s = JObj d"
      "ClaimSource_from_mapping d (indexed label ''.sources'' i) = Inr s"
    using ClaimSource_from_to Cons.prems by fastforce
  with Cons show ?case by simp
qed simp

lemma claim_evidence_ok:
  "evidence_from label i seen vs = Inr es \<Longrightarrow> distinct seen \<Longrightarrow> list_all (\<lambda>r. strip r \<noteq> []) seen \<Longrightarrow>
     distinct es \<and> list_all (\<lambda>r. strip r \<noteq> []) es"
  by (induction vs arbitrary: i seen) (auto simp: bindE_Inr_iff ledger_nonempty_Inr split: if_splits)

lemma evidence_from_to:
  "distinct (seen @ es) \<Longrightarrow> list_all (\<lambda>r. strip r \<noteq> []) es \<Longrightarrow>
     evidence_from label i seen (map JStr es) = Inr (seen @ es)"
proof (induction es arbitrary: i seen)
  case (Cons r es)
  have "evidence_from label (Suc i) (seen @ [r]) (map JStr es) = Inr ((seen @ [r]) @ es)"
    using Cons.prems by (intro Cons.IH) auto
  with Cons.prems show ?case by (simp add: ledger_nonempty_def)
qed simp

lemma sources_case_Inr:
  "(case v of JList vs \<Rightarrow> if vs = [] then ledger_fail e else f vs | _ \<Rightarrow> ledger_fail e) = Inr x \<longleftrightarrow>
     (\<exists>vs. v = JList vs \<and> vs \<noteq> [] \<and> f vs = Inr x)"
  by (cases v) auto

lemma evidence_case_Inr:
  "(case v of JList vs \<Rightarrow> f vs | _ \<Rightarrow> ledger_fail e) = Inr x \<longleftrightarrow> (\<exists>vs. v = JList vs \<and> f vs = Inr x)"
  by (cases v) auto

lemma option_case_Inr: "(case v of None \<Rightarrow> Inl e | Some y \<Rightarrow> Inr y) = Inr x \<longleftrightarrow> v = Some x"
  by (cases v) auto

lemmas claim_reads = bindE_Inr_iff ledger_nonempty_Inr text_or_null_Inr sources_case_Inr evidence_case_Inr
  option_case_Inr

lemma Claim_ok:
  assumes "Claim_from_mapping ext isor d label = Inr c"
  shows "claim_ok ext isor c"
proof -
  from assms obtain vs es where
      "sources_from label 1 vs = Inr (cm_sources c)" "vs \<noteq> []"
      "evidence_from label 1 [] es = Inr (cm_evidence c)"
    and r: "strip (cm_id c) \<noteq> []" "sb_safe_name_full ext (cm_id c)" "strip (cm_statement c) \<noteq> []"
      "strip (cm_surface c) \<noteq> []" "\<not> (case cm_prereg c of None \<Rightarrow> False | Some p \<Rightarrow> strip p = [])"
      "strip (cm_verified c) \<noteq> []" "validate_timestamp isor (cm_verified c) = Inr ()"
      "cm_status c = MEASURED \<longrightarrow> cm_evidence c \<noteq> [] \<and> cm_prereg c \<noteq> None"
    unfolding Claim_from_mapping_def by (auto simp: claim_reads split: if_splits)
  moreover have "cm_sources c \<noteq> []"
    using calculation(1,2) by (cases vs) (auto simp: bindE_Inr_iff)
  moreover note sources_from_ok [OF calculation(1)] claim_evidence_ok [OF calculation(3)]
  ultimately show ?thesis by (auto simp: claim_ok_def split: option.splits)
qed

lemma claim_fields_of:
  assumes "Claim_to_mapping c = JObj d"
  shows "fld d ''claim_id'' = JStr (cm_id c)" "fld d ''statement'' = JStr (cm_statement c)"
    "fld d ''decision_surface'' = JStr (cm_surface c)"
    "fld d ''sources'' = JList (map ClaimSource_to_mapping (cm_sources c))"
    "fld d ''status'' = JStr (status_value (cm_status c))" "fld d ''evidence'' = JList (map JStr (cm_evidence c))"
    "fld d ''verdict'' = null_or_text (cm_verdict c)" "fld d ''preregistration'' = null_or_text (cm_prereg c)"
    "fld d ''last_verified_utc'' = JStr (cm_verified c)"
  using assms by (auto simp: Claim_to_mapping_def fld_Cons strs_json_def)

lemma null_or_text_inj: "null_or_text x = null_or_text y \<longleftrightarrow> x = y"
  by (auto simp: null_or_text_def split: option.splits)

lemma status_value_inj: "status_value x = status_value y \<longleftrightarrow> x = y"
  by (cases x; cases y) simp_all

lemma status_not_blank: "strip (status_value x) \<noteq> []"
proof -
  have "list_all (\<lambda>x. strip (status_value x) \<noteq> []) status_order" by code_simp
  then show ?thesis by (cases x) (simp_all add: status_order_def)
qed

lemma Claim_from_to:
  assumes "claim_ok ext isor c"
  shows "claim_from_json ext isor label (Claim_to_mapping c) = Inr c"
proof -
  obtain d where d: "Claim_to_mapping c = JObj d" by (simp add: Claim_to_mapping_def)
  note fields = claim_fields_of [OF d]
  have k: "ledger_exact_keys d claim_fields label = Inr ()"
    using d by (auto simp: Claim_to_mapping_def ledger_exact_keys_def claim_fields_def missing_keys_Nil_iff
        unknown_keys_Nil_iff keys_simps)
  have st: "read_status (status_value (cm_status c)) = Some (cm_status c)" by (simp add: read_status_Some)
  have stne: "strip (status_value (cm_status c)) \<noteq> []" by (rule status_not_blank)
  have so: "sources_from label 1 (map ClaimSource_to_mapping (cm_sources c)) = Inr (cm_sources c)"
    using assms by (intro sources_from_to) (simp add: claim_ok_def)
  have ev: "evidence_from label 1 [] (map JStr (cm_evidence c)) = Inr (cm_evidence c)"
    using assms evidence_from_to [of "[]" "cm_evidence c"] by (simp add: claim_ok_def)
  have tn: "text_or_null (null_or_text x) e = Inr x" for x e by (simp add: text_or_null_Inr)
  show ?thesis
    using assms so [unfolded One_nat_def] ev [unfolded One_nat_def] unfolding claim_ok_def
    by (simp add: claim_from_json_def d Claim_from_mapping_def k fields ledger_nonempty_def st stne tn
        split: option.splits)
qed

interpretation claims: mapping_codec Claim_to_mapping "claim_from_json ext isor label" "claim_ok ext isor"
  for ext isor label
proof unfold_locales
  fix j c
  assume "claim_from_json ext isor label j = Inr c"
  then show "claim_ok ext isor c" by (cases j) (auto simp: claim_from_json_def dest: Claim_ok)
qed (rule Claim_from_to)


section \<open>Written claims are read back\<close>

lemma written_source_same:
  "ClaimSource_to_mapping s = JObj d \<Longrightarrow> ClaimSource_from_mapping d l = Inr t \<Longrightarrow> t = s"
  by (auto simp: ClaimSource_to_mapping_def ClaimSource_from_mapping_def bindE_Inr_iff fld_Cons ledger_nonempty_Inr
      split: if_splits)

lemma written_sources_same: "sources_from l i (map ClaimSource_to_mapping ss) = Inr ts \<Longrightarrow> ts = ss"
  by (induction ss arbitrary: i ts) (auto simp: bindE_Inr_iff dest: written_source_same split: json.splits)

lemma written_evidence_same: "evidence_from l i seen (map JStr es) = Inr ts \<Longrightarrow> ts = seen @ es"
proof (induction es arbitrary: i seen)
  case (Cons e es)
  then have "evidence_from l (Suc i) (seen @ [e]) (map JStr es) = Inr ts"
    by (auto simp: bindE_Inr_iff ledger_nonempty_Inr split: if_splits)
  from Cons.IH [OF this] show ?case by simp
qed simp

text \<open>A claim that passes the schema on its way out is written unchanged.\<close>

lemma written_claim_same:
  assumes "claim_from_json ext isor label (Claim_to_mapping c) = Inr x"
  shows "x = c"
proof -
  obtain d where d: "Claim_to_mapping c = JObj d" by (simp add: Claim_to_mapping_def)
  then have "Claim_from_mapping ext isor d label = Inr x" using assms by (simp add: claim_from_json_def)
  then show ?thesis
    unfolding Claim_from_mapping_def
    by (auto simp: claim_reads claim_fields_of [OF d] null_or_text_inj status_value_inj read_status_Some
        dest!: written_sources_same written_evidence_same split: if_splits)
qed

lemma splitlines_line:
  "list_all (\<lambda>c. \<not> line_break c) l \<Longrightarrow>
     splitlines_from acc (l @ newline # s) = (rev acc @ l) # splitlines_from [] s"
proof (induction l arbitrary: acc)
  case Nil
  show ?case by (simp add: line_break_def)
next
  case (Cons c l)
  then have "c \<noteq> CHR 0x0D" by (auto simp: line_break_def)
  with Cons show ?case by simp
qed

lemma splitlines_rows:
  "\<forall>l \<in> set ls. list_all (\<lambda>c. \<not> line_break c) l \<Longrightarrow>
     splitlines (concat (map (\<lambda>l. l @ [newline]) ls)) = ls"
  unfolding splitlines_def by (induction ls) (simp_all add: splitlines_line)

definition claim_text :: "claim \<Rightarrow> string" where
  "claim_text c = dumps_with '','' '':'' (Claim_to_mapping c)"

lemma printable_no_break: "list_all printable l \<Longrightarrow> list_all (\<lambda>c. \<not> line_break c) l"
  by (auto simp: list_all_iff line_break_def in_rng_def)

lemma claim_text_line: "list_all (\<lambda>c. \<not> line_break c) (claim_text c)"
  unfolding claim_text_def by (intro printable_no_break dumps_printable) (simp_all add: in_rng_def)

lemma claim_json_ok: "json_ok (Claim_to_mapping c) \<and> depth (Claim_to_mapping c) \<le> 3"
proof -
  have src: "json_ok (ClaimSource_to_mapping s) \<and> depth (ClaimSource_to_mapping s) \<le> 1" for s
    by (simp add: ClaimSource_to_mapping_def)
  have l: "json_ok (JList (map ClaimSource_to_mapping (cm_sources c)))"
      "depth (JList (map ClaimSource_to_mapping (cm_sources c))) \<le> 2"
    using src by (auto simp: list_all_iff fold_max_le)
  have e: "json_ok (strs_json (cm_evidence c))" "depth (strs_json (cm_evidence c)) \<le> 1"
    using fold_max_le [of "map (depth \<circ> JStr) (cm_evidence c)" 0 0]
    by (auto simp: strs_json_def list_all_iff)
  have n: "json_ok (null_or_text x)" "depth (null_or_text x) = 0" for x
    by (auto simp: null_or_text_def split: option.splits)
  obtain d where d: "Claim_to_mapping c = JObj d" "map fst d = claim_fields"
      "map snd d = [JStr (cm_id c), JStr (cm_statement c), JStr (cm_surface c),
        JList (map ClaimSource_to_mapping (cm_sources c)), JStr (status_value (cm_status c)),
        strs_json (cm_evidence c), null_or_text (cm_verdict c), null_or_text (cm_prereg c), JStr (cm_verified c)]"
    by (simp add: Claim_to_mapping_def claim_fields_def)
  have "\<forall>v \<in> set (map snd d). json_ok v \<and> depth v \<le> 2"
    unfolding d(3) using l e n by (auto intro: le_trans)
  moreover have "distinct (map fst d)" unfolding d(2) by (simp add: claim_fields_def)
  ultimately show ?thesis by (auto simp: d(1) list_all_iff fold_max_le)
qed

lemma strip_nonempty: "c \<in> set s \<Longrightarrow> \<not> isspace c \<Longrightarrow> strip s \<noteq> []"
proof -
  assume c: "c \<in> set s" "\<not> isspace c"
  then have "dropWhile isspace s \<noteq> []" by (auto simp: dropWhile_eq_Nil_conv)
  then obtain d t where d: "dropWhile isspace s = d # t" "\<not> isspace d"
    by (metis hd_dropWhile list.collapse)
  then have "dropWhile isspace (rev (d # t)) \<noteq> []" by (auto simp: dropWhile_eq_Nil_conv)
  then show ?thesis by (simp add: strip_def rstrip_def lstrip_def d(1))
qed

lemma loads_claim:
  assumes "3 \<le> limit"
  shows "loads limit (claim_text c) = Inr (Claim_to_mapping c)" and "strip (claim_text c) \<noteq> []"
proof -
  have j: "json_ok (Claim_to_mapping c)" "depth (Claim_to_mapping c) \<le> limit"
    using claim_json_ok [of c] assms by auto
  show "loads limit (claim_text c) = Inr (Claim_to_mapping c)"
    unfolding claim_text_def by (rule loads_dumps_with [OF sep_ok_compact j])
  have "CHR ''{'' \<in> set (claim_text c)" by (simp add: claim_text_def Claim_to_mapping_def)
  moreover have "\<not> isspace (CHR ''{'')" by code_simp
  ultimately show "strip (claim_text c) \<noteq> []" by (rule strip_nonempty)
qed

lemma load_lines_written:
  assumes "3 \<le> limit"
  shows "list_all (claim_ok ext isor) cs \<Longrightarrow> distinct (map cm_id cs) \<Longrightarrow> set (map cm_id cs) \<inter> set seen = {} \<Longrightarrow>
    load_lines ext isor limit path n seen (map claim_text cs) = Inr cs"
proof (induction cs arbitrary: n seen)
  case (Cons c cs)
  have "load_lines ext isor limit path (Suc n) (cm_id c # seen) (map claim_text cs) = Inr cs"
    using Cons.prems by (intro Cons.IH) auto
  with Cons.prems loads_claim [OF assms, of c] claims.from_to [of ext isor c] show ?case by simp
qed simp


lemma validated_ok:
  assumes "validated_from ext isor n seen cs = Inr xs"
  shows "xs = cs \<and> list_all (claim_ok ext isor) cs \<and> distinct (map cm_id cs) \<and> set (map cm_id cs) \<inter> set seen = {}"
  using assms
proof (induction cs arbitrary: n seen xs)
  case (Cons c cs)
  then obtain x xs' where x: "claim_from_json ext isor (''claim '' @ show_nat n) (Claim_to_mapping c) = Inr x"
      "cm_id x \<notin> set seen" "validated_from ext isor (Suc n) (cm_id x # seen) cs = Inr xs'" "xs = x # xs'"
    by (auto simp: bindE_Inr_iff split: if_splits)
  have "x = c" using x(1) by (rule written_claim_same)
  with Cons.IH [OF x(3)] x claims.from_ok [OF x(1)] show ?case by auto
qed simp

lemma validated_iff:
  "validated_claims ext isor cs = Inr xs \<longleftrightarrow> xs = cs \<and> list_all (claim_ok ext isor) cs \<and> distinct (map cm_id cs)"
proof -
  have "validated_from ext isor n seen cs = Inr cs"
    if "list_all (claim_ok ext isor) cs" "distinct (map cm_id cs)" "set (map cm_id cs) \<inter> set seen = {}" for n seen
    using that
  proof (induction cs arbitrary: n seen)
    case (Cons c cs)
    have "validated_from ext isor (Suc n) (cm_id c # seen) cs = Inr cs" using Cons.prems by (intro Cons.IH) auto
    with Cons.prems show ?case by (simp add: claims.from_to)
  qed simp
  then show ?thesis using validated_ok by (fastforce simp: validated_claims_def)
qed

lemma claim_line_text: "concat (map claim_line cs) = concat (map (\<lambda>l. l @ [newline]) (map claim_text cs))"
  by (induction cs) (simp_all add: claim_line_def claim_text_def)

lemma written_loads:
  assumes "3 \<le> limit" and "write_ledger ext isor True cs = Inr file"
  shows "load_ledger ext isor limit path file = Inr cs"
proof -
  from assms(2) have f: "file = FileText (concat (map claim_line cs))" "list_all (claim_ok ext isor) cs"
      "distinct (map cm_id cs)"
    by (auto simp: write_ledger_def bindE_Inr_iff validated_iff)
  show ?thesis
  proof (cases cs)
    case Nil
    then show ?thesis by (simp add: f(1) load_ledger_def strip_def rstrip_def lstrip_def)
  next
    case (Cons c cs')
    have "CHR ''{'' \<in> set (concat (map claim_line cs))"
      by (simp add: Cons claim_line_def Claim_to_mapping_def)
    moreover have "\<not> isspace (CHR ''{'')" by code_simp
    ultimately have "strip (concat (map claim_line cs)) \<noteq> []" by (rule strip_nonempty)
    moreover have "splitlines (concat (map claim_line cs)) = map claim_text cs"
      unfolding claim_line_text by (rule splitlines_rows) (use claim_text_line in auto)
    ultimately show ?thesis
      using load_lines_written [OF assms(1) f(2,3)] by (simp add: f(1) load_ledger_def)
  qed
qed

text \<open>C12: The ledger is a faithful store: writing succeeds exactly for claims that satisfy the whole schema
  and have distinct ids, and then loading the written file gives the same claims; anything a load
  accepts satisfies the schema, so a MEASURED claim always has a run id and a preregistration.\<close>

theorem ledger_roundtrip:
  assumes "3 \<le> limit"
  shows "(write_ledger ext isor True cs = Inr out \<longrightarrow> load_ledger ext isor limit path out = Inr cs) \<and>
    ((\<exists>f. write_ledger ext isor True cs = Inr f) \<longleftrightarrow> list_all (claim_ok ext isor) cs \<and> distinct (map cm_id cs)) \<and>
    (\<forall>g xs. load_ledger ext isor limit path g = Inr xs \<longrightarrow> list_all (claim_ok ext isor) xs \<and> distinct (map cm_id xs))"
proof (intro conjI impI allI)
  assume "write_ledger ext isor True cs = Inr out"
  then show "load_ledger ext isor limit path out = Inr cs" by (rule written_loads [OF assms])
next
  show "(\<exists>f. write_ledger ext isor True cs = Inr f) \<longleftrightarrow> list_all (claim_ok ext isor) cs \<and> distinct (map cm_id cs)"
    by (auto simp: write_ledger_def bindE_Inr_iff validated_iff)
next
  have lines: "load_lines ext isor limit path n seen ls = Inr xs \<Longrightarrow>
      list_all (claim_ok ext isor) xs \<and> distinct (map cm_id xs) \<and> set (map cm_id xs) \<inter> set seen = {}" for n seen ls xs
  proof (induction ls arbitrary: n seen xs)
    case (Cons l ls)
    from Cons.prems obtain raw lbl c xs' where c: "claim_from_json ext isor lbl raw = Inr c" "cm_id c \<notin> set seen"
        "load_lines ext isor limit path (Suc n) (cm_id c # seen) ls = Inr xs'" "xs = c # xs'"
      by (auto simp: bindE_Inr_iff split: if_splits)
    with Cons.IH [OF c(3)] claims.from_ok [OF c(1)] show ?case by auto
  qed simp
  fix g xs
  assume "load_ledger ext isor limit path g = Inr xs"
  then show "list_all (claim_ok ext isor) xs" "distinct (map cm_id xs)"
    using lines by (auto simp: load_ledger_def split: file_read.splits if_splits)
qed

section \<open>What an audit changes\<close>

text \<open>A citation holds when the hash of the cited lines is the recorded one.\<close>

definition holds :: "externals \<Rightarrow> workspace \<Rightarrow> claim_source \<Rightarrow> bool" where
  "holds ext ws s \<longleftrightarrow> source_quote_sha256 ext ws s = Inr (so_quote s)"

definition audited :: "externals \<Rightarrow> workspace \<Rightarrow> claim \<Rightarrow> claim" where
  "audited ext ws c = (if list_all (holds ext ws) (cm_sources c) then c else c\<lparr>cm_status := STALE\<rparr>)"

lemma audit_sources_Nil:
  "audit_sources ext ws cid ss = Inr is \<Longrightarrow> is = [] \<longleftrightarrow> list_all (holds ext ws) ss"
proof (induction ss arbitrary: "is")
  case (Cons s ss)
  then show ?case
    by (auto simp: bindE_Inr_iff holds_def split: sum.splits ledger_exn.splits if_splits)
qed simp

lemma stale_update: "cm_status c = STALE \<Longrightarrow> c\<lparr>cm_status := STALE\<rparr> = c"
  by (cases c) simp

lemma audit_claims_Inr:
  assumes "audit_claims ext ws cs = Inr res"
  shows "ar_claims res = map (audited ext ws) cs \<and>
    ar_newly res = map cm_id (filter (\<lambda>c. cm_status c \<noteq> STALE \<and> \<not> list_all (holds ext ws) (cm_sources c)) cs)"
  using assms
proof (induction cs arbitrary: res)
  case (Cons c cs)
  from Cons.prems obtain iss rest where a: "audit_sources ext ws (cm_id c) (cm_sources c) = Inr iss"
      "audit_claims ext ws cs = Inr rest"
      "res = \<lparr>ar_claims = (if iss \<noteq> [] \<and> cm_status c \<noteq> STALE then c\<lparr>cm_status := STALE\<rparr> else c) # ar_claims rest,
        ar_newly = (if iss \<noteq> [] \<and> cm_status c \<noteq> STALE then [cm_id c] else []) @ ar_newly rest,
        ar_issues = iss @ ar_issues rest\<rparr>"
    by (auto simp: bindE_Inr_iff Let_def)
  note n = audit_sources_Nil [OF a(1)] and IH = Cons.IH [OF a(2)]
  have "(if iss \<noteq> [] \<and> cm_status c \<noteq> STALE then c\<lparr>cm_status := STALE\<rparr> else c) = audited ext ws c"
    using n stale_update [of c] by (auto simp: audited_def)
  with a(3) IH n show ?case by simp
qed simp

lemma audited_simps:
  "cm_id (audited ext ws c) = cm_id c" "cm_sources (audited ext ws c) = cm_sources c"
  "claim_ok x isor c \<Longrightarrow> claim_ok x isor (audited ext ws c)"
  by (simp_all add: audited_def claim_ok_def)

lemma audited_twice: "audited ext ws (audited ext ws c) = audited ext ws c"
  by (simp add: audited_def)

lemma none_newly:
  "filter (\<lambda>c. cm_status c \<noteq> STALE \<and> \<not> list_all (holds ext ws) (cm_sources c)) (map (audited ext ws) cs) = []"
  by (auto simp: filter_empty_conv audited_def)

lemma audit_total:
  assumes "\<forall>c \<in> set cs. \<exists>is. audit_sources ext ws (cm_id c) (cm_sources c) = Inr is"
  shows "\<exists>res. audit_claims ext ws cs = Inr res"
  using assms
proof (induction cs)
  case (Cons c cs)
  then obtain iss rest where "audit_sources ext ws (cm_id c) (cm_sources c) = Inr iss"
      "audit_claims ext ws cs = Inr rest"
    by auto
  then show ?case by (simp add: Let_def)
qed simp

lemma audit_claims_again:
  assumes "audit_claims ext ws cs = Inr res"
  shows "\<exists>res2. audit_claims ext ws (map (audited ext ws) cs) = Inr res2"
proof (rule audit_total)
  have "\<forall>c \<in> set cs. \<exists>is. audit_sources ext ws (cm_id c) (cm_sources c) = Inr is"
    using assms by (induction cs arbitrary: res) (auto simp: bindE_Inr_iff)
  then show "\<forall>c \<in> set (map (audited ext ws) cs). \<exists>is. audit_sources ext ws (cm_id c) (cm_sources c) = Inr is"
    by (simp add: audited_simps)
qed

text \<open>C13: An audit never restores evidence and settles: every claim keeps all its fields except that it
  becomes STALE exactly when some citation's lines do not hash to the recorded value, a claim that was
  STALE stays so; the file is written only when a claim is newly stale, what it holds afterwards loads
  as the audited claims, and a second audit of it finds nothing new and does not write.\<close>

theorem audit_settles:
  assumes "3 \<le> limit" and "load_ledger ext isor limit path file = Inr cs"
    and "audit_ledger ext isor limit path ws writable file = (Inr res, file')"
  shows "ar_claims res = map (audited ext ws) cs \<and> (ar_newly res = [] \<longrightarrow> file' = file) \<and>
    load_ledger ext isor limit path file' = Inr (ar_claims res) \<and>
    (\<exists>res2. audit_ledger ext isor limit path ws writable file' = (Inr res2, file') \<and>
       ar_claims res2 = ar_claims res \<and> ar_newly res2 = [])"
proof -
  from assms(2,3) have root: "ws_root ws" and a: "audit_claims ext ws cs = Inr res"
    and w: "if ar_newly res = [] then file' = file else write_ledger ext isor writable (ar_claims res) = Inr file'"
    by (auto simp: audit_ledger_def split: sum.splits if_splits)
  note au = audit_claims_Inr [OF a]
  have same: "map (audited ext ws) cs = cs" if "ar_newly res = []"
    using that au by (auto simp: filter_empty_conv audited_def stale_update intro!: map_idI)
  have load: "load_ledger ext isor limit path file' = Inr (map (audited ext ws) cs)"
  proof (cases "ar_newly res = []")
    case True
    then show ?thesis using w assms(2) same by simp
  next
    case False
    with w have "writable" and wr: "write_ledger ext isor writable (ar_claims res) = Inr file'"
      by (auto simp: write_ledger_def bindE_Inr_iff split: if_splits)
    then have "write_ledger ext isor True (ar_claims res) = Inr file'" by simp
    then show ?thesis using written_loads [OF assms(1)] au by simp
  qed
  obtain res2 where r2: "audit_claims ext ws (map (audited ext ws) cs) = Inr res2"
    using audit_claims_again [OF a] by blast
  note au2 = audit_claims_Inr [OF r2]
  have n: "ar_newly res2 = []" using au2 none_newly [of ext ws cs] by simp
  have "ar_claims res2 = ar_claims res" using au au2 by (simp add: audited_twice)
  moreover have "audit_ledger ext isor limit path ws writable file' = (Inr res2, file')"
    using load root r2 n by (simp add: audit_ledger_def)
  ultimately show ?thesis using au load n w by auto
qed

section \<open>The rendered table\<close>

text \<open>The column separators of a Markdown row: bars that no backslash escapes.\<close>

fun bars :: "string \<Rightarrow> nat" where
  "bars [] = 0"
| "bars [c] = (if c = CHR ''|'' then 1 else 0)"
| "bars (c # d # s) = (if c = CHR 0x5C then bars s else (if c = CHR ''|'' then 1 else 0) + bars (d # s))"

lemma bars_Cons: "c \<noteq> CHR 0x5C \<Longrightarrow> bars (c # s) = (if c = CHR ''|'' then 1 else 0) + bars s"
  by (cases s) simp_all

lemma bars_cell: "bars (markdown_cell s @ r) = bars r"
proof (induction s)
  case (Cons c s)
  then show ?case
    by (cases "c = CHR 0x5C"; cases "c = CHR ''|''")
      (auto simp: markdown_cell_def markdown_char_def bars_Cons)
qed (simp add: markdown_cell_def)

lemma cell_no_break: "newline \<notin> set (markdown_cell s) \<and> CHR 0x0D \<notin> set (markdown_cell s)"
  by (induction s) (auto simp: markdown_cell_def markdown_char_def)

text \<open>No text of a claim can break the rendered table: whatever the id, surface, statement, run ids and
  cited paths contain, the row of a claim is one line with exactly six column separators, so it always
  has the five columns of the header.\<close>

theorem claim_row_has_five_columns:
  "bars (claim_row c) = 6 \<and> newline \<notin> set (claim_row c) \<and> CHR 0x0D \<notin> set (claim_row c)"
proof
  show "bars (claim_row c) = 6"
    by (simp add: claim_row_def code_span_def bars_cell bars_Cons)
  show "newline \<notin> set (claim_row c) \<and> CHR 0x0D \<notin> set (claim_row c)"
    using cell_no_break by (simp add: claim_row_def code_span_def)
qed


section \<open>A concrete ledger\<close>

definition sample_source :: claim_source where
  "sample_source = \<lparr>so_file = ''src/a.py'', so_lines = ''1'', so_quote = replicate 64 (CHR ''0'')\<rparr>"

definition sample_claim :: claim where
  "sample_claim = \<lparr>cm_id = ''c-1'', cm_statement = ''s'', cm_surface = ''d'', cm_sources = [sample_source],
     cm_status = PARTIAL, cm_evidence = [], cm_verdict = None, cm_prereg = None, cm_verified = ''2026-01-01T00:00:00Z''\<rparr>"

definition sample_workspace :: workspace where
  "sample_workspace = \<lparr>ws_root = True, ws_read = (\<lambda>_. SrcText ''x'')\<rparr>"

lemma sample_source_parse: "validate_source_file ''src/a.py'' = Inr ()" "parse_line_range ''1'' = Inr (1, 1)"
  by code_simp+

lemma sample_claim_ok: "claim_ok documented_ext (\<lambda>_. Some True) sample_claim"
proof -
  have "strip ''src/a.py'' \<noteq> []" "strip ''1'' \<noteq> []" "strip ''c-1'' \<noteq> []" "strip ''s'' \<noteq> []" "strip ''d'' \<noteq> []"
      "strip ''2026-01-01T00:00:00Z'' \<noteq> []" "all_name_chars ''c-1''"
      "strip (replicate 64 (CHR ''0'')) \<noteq> []" "hex_digest (replicate 64 (CHR ''0''))"
    by code_simp+
  then show ?thesis
    by (simp add: claim_ok_def sample_claim_def source_ok_def sample_source_def sample_source_parse
        validate_timestamp_def documented_ext_def)
qed

theorem ledger_roundtrip_witness:
  "\<exists>file. write_ledger documented_ext (\<lambda>_. Some True) True [sample_claim] = Inr file \<and>
     load_ledger documented_ext (\<lambda>_. Some True) 9 ''l'' file = Inr [sample_claim]"
proof -
  have "list_all (claim_ok documented_ext (\<lambda>_. Some True)) [sample_claim] \<and> distinct (map cm_id [sample_claim])"
    using sample_claim_ok by simp
  then have "\<exists>f. write_ledger documented_ext (\<lambda>_. Some True) True [sample_claim] = Inr f"
    using ledger_roundtrip [where limit = 9 and ext = documented_ext and isor = "\<lambda>_. Some True"
        and cs = "[sample_claim]" and out = NoFile and path = "''l''"] by simp
  then show ?thesis
    using ledger_roundtrip [where limit = 9 and ext = documented_ext and isor = "\<lambda>_. Some True"
        and cs = "[sample_claim]" and path = "''l''"] by fastforce
qed

theorem audit_settles_witness:
  "\<exists>res file'. audit_ledger documented_ext (\<lambda>_. Some True) 9 ''l'' sample_workspace True
     (FileText (claim_line sample_claim)) = (Inr res, file') \<and> ar_claims res = [sample_claim\<lparr>cm_status := STALE\<rparr>] \<and>
     load_ledger documented_ext (\<lambda>_. Some True) 9 ''l'' file' = Inr (ar_claims res)"
proof -
  let ?i = "\<lambda>_ :: string. Some True"
  have "write_ledger documented_ext ?i True [sample_claim] = Inr (FileText (claim_line sample_claim))"
    using sample_claim_ok validated_iff [of documented_ext ?i "[sample_claim]" "[sample_claim]"]
    by (simp add: write_ledger_def)
  then have load: "load_ledger documented_ext ?i 9 ''l'' (FileText (claim_line sample_claim)) = Inr [sample_claim]"
    using written_loads by fastforce
  have q: "source_quote_sha256 documented_ext sample_workspace sample_source = Inr ''x''"
    by (simp add: source_quote_sha256_def sample_workspace_def sample_source_def sample_source_parse
        splitlines_def line_break_def documented_ext_def)
  have "''x'' \<noteq> replicate 64 (CHR ''0'')" by code_simp
  then have d: "\<not> holds documented_ext sample_workspace sample_source"
    using q by (simp add: holds_def sample_source_def)
  have a: "\<exists>res. audit_claims documented_ext sample_workspace [sample_claim] = Inr res"
    by (simp add: sample_claim_def q Let_def)
  then obtain res where res: "audit_claims documented_ext sample_workspace [sample_claim] = Inr res" by blast
  note au = audit_claims_Inr [OF res]
  have au': "ar_claims res = [sample_claim\<lparr>cm_status := STALE\<rparr>]"
    using au d by (simp add: audited_def sample_claim_def)
  have "claim_ok documented_ext ?i (sample_claim\<lparr>cm_status := STALE\<rparr>)"
    using sample_claim_ok by (simp add: claim_ok_def)
  then have "validated_claims documented_ext ?i (ar_claims res) = Inr (ar_claims res)"
    unfolding validated_iff au' by simp
  then obtain file' where "write_ledger documented_ext ?i True (ar_claims res) = Inr file'"
    by (simp add: write_ledger_def)
  moreover have "ws_root sample_workspace" by (simp add: sample_workspace_def)
  ultimately obtain file'' where f: "audit_ledger documented_ext ?i 9 ''l'' sample_workspace True
      (FileText (claim_line sample_claim)) = (Inr res, file'')"
    using load res by (cases "ar_newly res = []") (simp_all add: audit_ledger_def)
  from audit_settles [OF _ load f] au' f show ?thesis by auto
qed

end
