(* ===== verification/Judge.thy ===== *)
theory Judge
  imports Run_Safety
begin

text \<open>
  src/measure_twice/scoring/judge.py: the rubric judge.  Each judge samples every cell \<open>k\<close> times; the
  parsed scores of a cell are reduced to one median per judge and their mean; unparseable answers are
  counted per judge over the whole run and a gate aborts the pass.  Scores are rationals: the rounding
  of float division and \<open>statistics.mean\<close> is not modelled, and \<open>fl\<close> is the conversion to the stored
  float.  The judge caller is a closure with state of its own, passed along as \<open>'st\<close>.
\<close>

section \<open>The judge's answer\<close>

definition JUDGE_SAMPLE_K :: nat where "JUDGE_SAMPLE_K = 3"

definition RUBRIC_SCORER :: string where "RUBRIC_SCORER = ''rubric''"

definition build_judge_prompt :: "string \<Rightarrow> string \<Rightarrow> string \<Rightarrow> string" where
  "build_judge_prompt item_prompt response rubric =
     ''You are grading a model'' @ [CHR 0x27] @ ''s response against a rubric. ''
     @ ''Score the response on a 0-10 scale per the rubric below.'' @ [newline, newline]
     @ ''RUBRIC:'' @ [newline] @ rubric @ [newline, newline]
     @ ''PROMPT GIVEN TO THE MODEL:'' @ [newline] @ item_prompt @ [newline, newline]
     @ ''MODEL RESPONSE TO GRADE:'' @ [newline] @ response @ [newline, newline]
     @ ''Reply with EXACTLY these two lines and nothing else:'' @ [newline]
     @ ''SCORE: <an integer or decimal from 0 to 10>'' @ [newline]
     @ ''RATIONALE: <one or two sentences explaining the score>'' @ [newline]"

text \<open>
  The number of \<open>_SCORE_RE\<close> at the head of a text: sign, digits, a fraction when a digit follows the
  point, and neither a word character nor a point after it.  A shorter match would leave a digit or a
  point behind, so the greedy one is the only candidate.
\<close>

definition word_or_dot :: "char \<Rightarrow> bool" where
  "word_or_dot c \<longleftrightarrow> isalnum c \<or> c = CHR ''_'' \<or> c = CHR ''.''"

definition score_number :: "string \<Rightarrow> rat option" where
  "score_number s =
     (let (neg, u) = (case s of [] \<Rightarrow> (False, []) | c # r \<Rightarrow> if c = CHR ''-'' then (True, r) else (False, s));
          ds = takeWhile is_digit u; v = dropWhile is_digit u;
          fs = (case v of [] \<Rightarrow> [] | c # r \<Rightarrow> if c = CHR ''.'' then takeWhile is_digit r else []);
          rest = (if fs = [] then v else dropWhile is_digit (tl v));
          m = of_nat (read_nat ds) + of_nat (read_nat fs) / 10 ^ length fs
      in if ds = [] \<or> (rest \<noteq> [] \<and> word_or_dot (hd rest)) then None
         else Some (if neg then - m else m))"

text \<open>One attempt at a position, then the search from left to right.\<close>

definition score_at :: "string \<Rightarrow> rat option" where
  "score_at s = (if lower (take 5 s) = ''score'' then
       (case dropWhile isspace (drop 5 s) of
          [] \<Rightarrow> None
        | c # r \<Rightarrow> if c = CHR '':'' then score_number (dropWhile isspace r) else None)
     else None)"

fun score_search :: "string \<Rightarrow> rat option" where
  "score_search [] = None"
| "score_search (c # s) = (case score_at (c # s) of Some v \<Rightarrow> Some v | None \<Rightarrow> score_search s)"

definition parse_judge_score :: "string \<Rightarrow> rat option" where
  "parse_judge_score s = map_option (\<lambda>v. min 10 (max 0 v)) (score_search s)"

section \<open>One cell\<close>

record judge_cell =
  jc_item_id :: json
  jc_prompt :: string
  jc_rubric :: string
  jc_response :: string

text \<open>The message of an all-parse-fail cell is \<open>None\<close>, else the mean of the medians.\<close>

record judge_item_result =
  ji_item_id :: json
  ji_score :: rat
  ji_parsed :: "rat option"
  ji_judge_scores :: "rat list"

record judge_cell_stat =
  js_judge :: string
  js_parse_fail :: nat
  js_parse_attempts :: nat
  js_median :: "rat option"

datatype judge_error =
    NoJudgesGiven
  | BadSampleCount nat
  | IdentityChanged string
  | IdentityUnresolved string
  | ParseFailGate "(string \<times> nat \<times> nat) list"
  | UnknownRubricItem json
  | ProfileDiffers
  | JudgeUnbound string
  | JudgeNotClaude string
  | JudgeDiffers string
  | JudgeUnconfigured string
  | JudgePreflight setup_error
  | JudgeEvidence profile_error
  | RuntimeDiffers
  | JudgeCallRaised claude_exn   \<comment> \<open>not a \<open>ScoringError\<close>\<close>
  | RubricTypeError              \<comment> \<open>an unhashable item id or a response that is no text\<close>

type_synonym 'st judge_caller = "string \<Rightarrow> string \<Rightarrow> 'st \<Rightarrow> (judge_error, model_call_result) res \<times> 'st"

type_synonym identities = "string \<rightharpoonup> string"

datatype judge_sample = InvokeError | ParseFail | Parsed rat

definition has_identity :: "model_call_result \<Rightarrow> bool" where
  "has_identity r \<longleftrightarrow> strip (mr_resolved r) \<noteq> [] \<and> mr_resolved r \<noteq> UNRESOLVED_MODEL_ID"

text \<open>What one call's result does to the pinned identities, and how it counts.\<close>

definition take_sample ::
    "string \<Rightarrow> model_call_result \<Rightarrow> identities \<Rightarrow> (judge_error, judge_sample \<times> identities) res" where
  "take_sample judge r ids =
     (let pinned_id = (case ids judge of Some i \<Rightarrow> i | None \<Rightarrow> mr_resolved r);
          ids' = (if has_identity r then ids(judge \<mapsto> pinned_id) else ids)
      in if has_identity r \<and> pinned_id \<noteq> mr_resolved r then Inl (IdentityChanged judge)
         else if \<not> call_ok r then Inr (InvokeError, ids')
         else if \<not> has_identity r then Inl (IdentityUnresolved judge)
         else (case parse_judge_score (response_text (mr_response r)) of
                 None \<Rightarrow> Inr (ParseFail, ids')
               | Some v \<Rightarrow> Inr (Parsed v, ids')))"

fun sample_judge ::
    "'st judge_caller \<Rightarrow> string \<Rightarrow> string \<Rightarrow> nat \<Rightarrow> identities \<Rightarrow> 'st
      \<Rightarrow> (judge_error, judge_sample list \<times> identities) res \<times> 'st" where
  "sample_judge caller prompt judge 0 ids st = (Inr ([], ids), st)"
| "sample_judge caller prompt judge (Suc k) ids st =
     (case caller prompt judge st of
        (Inl e, st') \<Rightarrow> (Inl e, st')
      | (Inr r, st') \<Rightarrow>
          (case take_sample judge r ids of
             Inl e \<Rightarrow> (Inl e, st')
           | Inr (x, ids') \<Rightarrow>
               (case sample_judge caller prompt judge k ids' st' of
                  (Inl e, st'') \<Rightarrow> (Inl e, st'')
                | (Inr (xs, ids''), st'') \<Rightarrow> (Inr (x # xs, ids''), st''))))"

text \<open>\<open>statistics.median\<close> and \<open>statistics.mean\<close>; both are used on non-empty lists only.\<close>

definition median :: "rat list \<Rightarrow> rat" where
  "median xs = (let ys = sort xs; n = length ys in
     if odd n then ys ! (n div 2) else (ys ! (n div 2 - 1) + ys ! (n div 2)) / 2)"

definition mean :: "rat list \<Rightarrow> rat" where
  "mean xs = sum_list xs / of_nat (length xs)"

fun parsed_of :: "judge_sample list \<Rightarrow> rat list" where
  "parsed_of [] = []"
| "parsed_of (Parsed v # xs) = v # parsed_of xs"
| "parsed_of (_ # xs) = parsed_of xs"

definition cell_stat :: "string \<Rightarrow> judge_sample list \<Rightarrow> judge_cell_stat" where
  "cell_stat judge xs =
     (let vs = parsed_of xs; fails = length (filter (\<lambda>x. x = ParseFail) xs)
      in \<lparr>js_judge = judge, js_parse_fail = fails, js_parse_attempts = fails + length vs,
          js_median = (if vs = [] then None else Some (median vs))\<rparr>)"

fun judge_stats ::
    "'st judge_caller \<Rightarrow> string \<Rightarrow> nat \<Rightarrow> string list \<Rightarrow> identities \<Rightarrow> 'st
      \<Rightarrow> (judge_error, judge_cell_stat list \<times> identities) res \<times> 'st" where
  "judge_stats caller prompt k [] ids st = (Inr ([], ids), st)"
| "judge_stats caller prompt k (j # js) ids st =
     (case sample_judge caller prompt j k ids st of
        (Inl e, st') \<Rightarrow> (Inl e, st')
      | (Inr (xs, ids'), st') \<Rightarrow>
          (case judge_stats caller prompt k js ids' st' of
             (Inl e, st'') \<Rightarrow> (Inl e, st'')
           | (Inr (stats, ids''), st'') \<Rightarrow> (Inr (cell_stat j xs # stats, ids''), st'')))"

definition item_result :: "json \<Rightarrow> judge_cell_stat list \<Rightarrow> judge_item_result" where
  "item_result item_id stats =
     (let ms = List.map_filter js_median stats in
      if ms = [] then \<lparr>ji_item_id = item_id, ji_score = 0, ji_parsed = None, ji_judge_scores = []\<rparr>
      else \<lparr>ji_item_id = item_id, ji_score = mean ms / 10, ji_parsed = Some (mean ms), ji_judge_scores = ms\<rparr>)"

definition judge_one_cell ::
    "'st judge_caller \<Rightarrow> judge_cell \<Rightarrow> string list \<Rightarrow> nat \<Rightarrow> identities \<Rightarrow> 'st
      \<Rightarrow> (judge_error, (judge_item_result \<times> judge_cell_stat list) \<times> identities) res \<times> 'st" where
  "judge_one_cell caller cell judges k ids st =
     (case judge_stats caller (build_judge_prompt (jc_prompt cell) (jc_response cell) (jc_rubric cell)) k
             judges ids st of
        (Inl e, st') \<Rightarrow> (Inl e, st')
      | (Inr (stats, ids'), st') \<Rightarrow> (Inr ((item_result (jc_item_id cell) stats, stats), ids'), st'))"

section \<open>The gate and the pass\<close>

type_synonym parse_stats = "(string \<times> nat \<times> nat) list"

definition offends :: "string \<times> nat \<times> nat \<Rightarrow> bool" where
  "offends s \<longleftrightarrow> (case s of (j, fails, attempts) \<Rightarrow> attempts \<noteq> 0 \<and> of_nat fails / of_nat attempts > (1 / 2 :: rat))"

definition fail_rate :: "string \<times> nat \<times> nat \<Rightarrow> rat" where
  "fail_rate s = (case s of (j, fails, attempts) \<Rightarrow> of_nat fails / of_nat attempts)"

definition check_parse_fail_gate :: "parse_stats \<Rightarrow> (judge_error, unit) res" where
  "check_parse_fail_gate stats =
     (let offenders = filter offends stats in
      if offenders = [] then Inr ()
      else Inl (ParseFailGate (sort_key (\<lambda>s. - fail_rate s) offenders)))"

text \<open>The counters of the accumulating dictionaries, kept in the order of the judges.\<close>

definition add_stat :: "parse_stats \<Rightarrow> judge_cell_stat \<Rightarrow> parse_stats" where
  "add_stat acc s = map (\<lambda>(j, f, a). if j = js_judge s then (j, f + js_parse_fail s, a + js_parse_attempts s)
     else (j, f, a)) acc"

fun judge_cells ::
    "'st judge_caller \<Rightarrow> judge_cell list \<Rightarrow> string list \<Rightarrow> nat \<Rightarrow> identities \<Rightarrow> parse_stats \<Rightarrow> 'st
      \<Rightarrow> (judge_error, judge_item_result list \<times> parse_stats) res \<times> 'st" where
  "judge_cells caller [] judges k ids acc st = (Inr ([], acc), st)"
| "judge_cells caller (c # cs) judges k ids acc st =
     (case judge_one_cell caller c judges k ids st of
        (Inl e, st') \<Rightarrow> (Inl e, st')
      | (Inr ((r, stats), ids'), st') \<Rightarrow>
          (case judge_cells caller cs judges k ids' (foldl add_stat acc stats) st' of
             (Inl e, st'') \<Rightarrow> (Inl e, st'')
           | (Inr (rs, acc'), st'') \<Rightarrow> (Inr (r # rs, acc'), st'')))"

record judge_run_result =
  jr_results :: "judge_item_result list"
  jr_stats :: parse_stats

definition judge_run ::
    "'st judge_caller \<Rightarrow> string list \<Rightarrow> nat \<Rightarrow> judge_cell list \<Rightarrow> 'st
      \<Rightarrow> (judge_error, judge_run_result) res \<times> 'st" where
  "judge_run caller judges k cells st =
     (let unique = fromkeys judges in
      if unique = [] then (Inl NoJudgesGiven, st)
      else if k < 1 then (Inl (BadSampleCount k), st)
      else (case judge_cells caller cells unique k Map.empty (map (\<lambda>j. (j, 0, 0)) unique) st of
              (Inl e, st') \<Rightarrow> (Inl e, st')
            | (Inr (rs, acc), st') \<Rightarrow>
                (bindE (check_parse_fail_gate acc) (\<lambda>_. Inr \<lparr>jr_results = rs, jr_stats = acc\<rparr>), st')))"

section \<open>The run-level scorer\<close>

text \<open>The rows to judge, with their cells; \<open>pstr\<close> is \<open>str\<close> of a JSON value that is no text.\<close>

fun rubric_cells :: "(json \<Rightarrow> string) \<Rightarrow> item list \<Rightarrow> run_row list \<Rightarrow> (judge_error, judge_cell list) res" where
  "rubric_cells pstr its [] = Inr []"
| "rubric_cells pstr its (r # rs) =
     (if \<not> scoreable r then rubric_cells pstr its rs
      else if hash_key (rr_item_id r) = None then Inl RubricTypeError
      else (case find (\<lambda>it. rr_item_id r = JStr (it_id it)) its of
              None \<Rightarrow> Inl (UnknownRubricItem (rr_item_id r))
            | Some it \<Rightarrow>
                bindE (rubric_cells pstr its rs) (\<lambda>cs.
                  Inr (\<lparr>jc_item_id = rr_item_id r, jc_prompt = it_prompt it, jc_rubric = it_expected it,
                        jc_response = (case rr_response_raw r of JStr t \<Rightarrow> t | j \<Rightarrow> pstr j)\<rparr> # cs))))"

definition rubric_row :: "(rat \<Rightarrow> flt) \<Rightarrow> run_row \<Rightarrow> judge_item_result \<Rightarrow> run_row" where
  "rubric_row fl r res = r\<lparr>
     rr_parsed := JStr (case ji_parsed res of None \<Rightarrow> PARSE_FAIL_MARKER | Some m \<Rightarrow> dump_flt (fl m)),
     rr_score := JFloat (fl (ji_score res)), rr_scorer := JStr RUBRIC_SCORER,
     rr_judge_scores := (if ji_judge_scores res = [] then JNull
       else JList (map (\<lambda>m. JFloat (fl m)) (ji_judge_scores res)))\<rparr>"

fun fill_rows :: "(rat \<Rightarrow> flt) \<Rightarrow> run_row list \<Rightarrow> judge_item_result list \<Rightarrow> run_row list" where
  "fill_rows fl [] res = []"
| "fill_rows fl (r # rs) res =
     (if \<not> scoreable r then r # fill_rows fl rs res
      else (case res of
              [] \<Rightarrow> r # rs
            | x # xs \<Rightarrow> rubric_row fl r x # fill_rows fl rs xs))"

definition rubric_run_scorer ::
    "(rat \<Rightarrow> flt) \<Rightarrow> (json \<Rightarrow> string) \<Rightarrow> string list \<Rightarrow> 'st judge_caller \<Rightarrow> nat \<Rightarrow> run_row list \<Rightarrow> item list \<Rightarrow> 'st
      \<Rightarrow> (judge_error, run_row list) res \<times> 'st" where
  "rubric_run_scorer fl pstr judges caller k rows its st =
     (case rubric_cells pstr its rows of
        Inl e \<Rightarrow> (Inl e, st)
      | Inr cells \<Rightarrow>
          (case judge_run caller judges k cells st of
             (Inl e, st') \<Rightarrow> (Inl e, st')
           | (Inr res, st') \<Rightarrow> (Inr (fill_rows fl rows (jr_results res)), st')))"

section \<open>The production caller\<close>

record claude_judge =
  cj_budget :: call_budget
  cj_runtime :: "claude_runtime option"
  cj_calls :: nat

text \<open>What the caller closes over: the configuration, the stored receipt, and the outside world.\<close>

record judge_setup =
  jp_ext :: externals
  jp_limit :: nat
  jp_config :: run_config
  jp_receipt :: "receipt option"
  jp_built :: "(setup_error, claude_runtime) res"
  jp_probe :: "invocation \<Rightarrow> run_outcome"
  jp_probe_cwd :: string
  jp_world :: "nat \<Rightarrow> process_world"

fun judge_roster_error :: "judge_setup \<Rightarrow> string list \<Rightarrow> judge_error option" where
  "judge_roster_error su [] = None"
| "judge_roster_error su (a # as) = (case binding_for (cf_profile (jp_config su)) a of
     Inl _ \<Rightarrow> Some (JudgeUnbound a)
   | Inr b \<Rightarrow>
       (if mb_provider b \<noteq> Claude then Some (JudgeNotClaude a)
        else if (case jp_receipt su of None \<Rightarrow> False | Some rc \<Rightarrow> b \<notin> set (rc_bindings rc))
        then Some (JudgeDiffers a)
        else judge_roster_error su as))"

definition capability_error :: "judge_setup \<Rightarrow> judge_error option" where
  "capability_error su = (case judge_roster_error su (cf_judges (jp_config su)) of
     Some e \<Rightarrow> Some e
   | None \<Rightarrow>
       (case jp_receipt su of
          None \<Rightarrow> None
        | Some rc \<Rightarrow>
            (if profile_sha256 (jp_ext su) (cf_profile (jp_config su)) \<noteq> rc_execution_sha rc
             then Some ProfileDiffers else None)))"

text \<open>The doctored runtime, checked against the stored contract before it is cached.\<close>

definition judge_runtime :: "judge_setup \<Rightarrow> (judge_error, claude_runtime) res" where
  "judge_runtime su =
     bindE (map_errE JudgePreflight (doctor_claude_runtime (jp_built su) (jp_probe su) (jp_probe_cwd su))) (\<lambda>rt.
     case jp_receipt su of
       None \<Rightarrow> Inr rt
     | Some rc \<Rightarrow>
         bindE (case rt_version rt of
                  None \<Rightarrow> Inr None
                | Some v \<Rightarrow> map_errE JudgeEvidence
                    (bindE (ClaudeEvidence_init (JStr (rt_executable rt)) (JStr v)) (\<lambda>e. Inr (Some e)))) (\<lambda>evidence.
         if evidence \<noteq> rc_claude rc
           \<or> context_profile_sha256 (jp_ext su) (cf_profile (jp_config su)) \<noteq> rc_context_sha rc
         then Inl RuntimeDiffers else Inr rt))"

definition default_judge_caller :: "judge_setup \<Rightarrow> claude_judge judge_caller" where
  "default_judge_caller su prompt alias st =
     (case capability_error su of
        Some e \<Rightarrow> (Inl e, st)
      | None \<Rightarrow>
          (if alias \<notin> set (cf_judges (jp_config su)) then (Inl (JudgeUnconfigured alias), st)
           else
             (case (case cj_runtime st of Some rt \<Rightarrow> Inr rt | None \<Rightarrow> judge_runtime su) of
                Inl e \<Rightarrow> (Inl e, st)
              | Inr rt \<Rightarrow>
                  (case claude_call (jp_limit su) (jp_config su) (Some rt) (Inr rt) (jp_world su (cj_calls st))
                          alias prompt (cj_budget st) of
                     (r, b) \<Rightarrow>
                       (map_errE JudgeCallRaised r,
                        st\<lparr>cj_budget := b, cj_runtime := Some rt, cj_calls := Suc (cj_calls st)\<rparr>)))))"

section \<open>What a pass keeps of its caller's state\<close>

text \<open>
  The contract between the pass and a judge caller: whatever happens, a call keeps the caller's
  invariant and never makes its meter run backwards or beyond its cap.
\<close>

locale judge_seam =
  fixes caller :: "'st judge_caller" and inv :: "'st \<Rightarrow> bool"
  assumes keeps: "inv st \<Longrightarrow> inv (snd (caller prompt judge st))"
begin

lemma sample_keeps: "inv st \<Longrightarrow> inv (snd (sample_judge caller prompt judge k ids st))"
proof (induction k arbitrary: ids st)
  case (Suc k)
  then show ?case
    using keeps [OF Suc.prems, of prompt judge]
    by (auto split: prod.splits sum.splits) (metis snd_conv)+
qed simp

lemma stats_keeps: "inv st \<Longrightarrow> inv (snd (judge_stats caller prompt k js ids st))"
proof (induction js arbitrary: ids st)
  case (Cons j js)
  then show ?case
    using sample_keeps [OF Cons.prems, of prompt j k ids]
    by (auto split: prod.splits sum.splits) (metis snd_conv)+
qed simp

lemma cells_keep: "inv st \<Longrightarrow> inv (snd (judge_cells caller cs judges k ids acc st))"
proof (induction cs arbitrary: ids acc st)
  case (Cons c cs)
  have "inv (snd (judge_one_cell caller c judges k ids st))"
    using stats_keeps [OF Cons.prems] by (auto simp: judge_one_cell_def split: prod.splits sum.splits) (metis snd_conv)+
  then show ?case
    using Cons.IH by (auto split: prod.splits sum.splits) (metis snd_conv)+
qed simp

lemma scorer_keeps: "inv st \<Longrightarrow> inv (snd (rubric_run_scorer fl pstr judges caller k rows its st))"
proof -
  assume "inv st"
  then have "inv (snd (judge_run caller judges k cells st))" for cells
    using cells_keep by (auto simp: judge_run_def Let_def split: prod.splits sum.splits) (metis snd_conv)+
  then show ?thesis
    using \<open>inv st\<close> by (auto simp: rubric_run_scorer_def split: prod.splits sum.splits) (metis snd_conv)+
qed

end

text \<open>The production caller: the budget holds and the cached runtime is one that passed the checks.\<close>

definition judge_inv :: "judge_setup \<Rightarrow> int \<Rightarrow> claude_judge \<Rightarrow> bool" where
  "judge_inv su cap st \<longleftrightarrow> bu_max (cj_budget st) = cap \<and> bu_used (cj_budget st) \<le> cap \<and>
     (case cj_runtime st of None \<Rightarrow> True | Some rt \<Rightarrow> judge_runtime su = Inr rt)"

lemma claude_call_meter:
  assumes "claude_call l cf rt d w a p b = (r, b')" and "bu_used b \<le> bu_max b"
  shows "bu_max b' = bu_max b \<and> bu_used b' \<le> bu_max b' \<and> bu_used b \<le> bu_used b'"
proof (cases "b' = b")
  case False
  then have "consume b = Some b'"
    using assms(1) by (auto simp: claude_call_eq split: sum.splits if_splits option.splits)
  from budget.draw_Some [OF this] show ?thesis by simp
qed (use assms(2) in simp)

interpretation production: judge_seam "default_judge_caller su" "judge_inv su cap" for su cap
proof unfold_locales
  fix st prompt al
  assume inv: "judge_inv su cap st"
  show "judge_inv su cap (snd (default_judge_caller su prompt al st))"
  proof (cases "case cj_runtime st of Some rt \<Rightarrow> Inr rt | None \<Rightarrow> judge_runtime su")
    case (Inl e)
    then show ?thesis using inv by (simp add: default_judge_caller_def split: option.split)
  next
    case (Inr rt)
    then have rt: "judge_runtime su = Inr rt" using inv by (auto simp: judge_inv_def split: option.splits)
    obtain r b where c: "claude_call (jp_limit su) (jp_config su) (Some rt) (Inr rt) (jp_world su (cj_calls st))
        al prompt (cj_budget st) = (r, b)" by fastforce
    have "bu_max b = cap \<and> bu_used b \<le> cap"
      using claude_call_meter [OF c] inv by (auto simp: judge_inv_def)
    then show ?thesis
      using inv Inr c rt by (auto simp: default_judge_caller_def judge_inv_def split: option.split)
  qed
qed

section \<open>Medians, means and the gate\<close>

lemma parse_judge_score_range: "parse_judge_score s = Some v \<Longrightarrow> 0 \<le> v \<and> v \<le> 10"
  by (auto simp: parse_judge_score_def)

lemma median_in_range:
  assumes "xs \<noteq> []" and "\<forall>x \<in> set xs. a \<le> x \<and> x \<le> b"
  shows "a \<le> median xs \<and> median xs \<le> b"
proof -
  have nth: "a \<le> sort xs ! i \<and> sort xs ! i \<le> b" if "i < length xs" for i
    using that assms(2) nth_mem [of i "sort xs"] by simp
  have "length xs div 2 < length xs" "length xs div 2 - 1 < length xs" using assms(1) by (cases xs; simp)+
  with nth have "a \<le> sort xs ! (length xs div 2) \<and> sort xs ! (length xs div 2) \<le> b"
      "a \<le> sort xs ! (length xs div 2 - 1) \<and> sort xs ! (length xs div 2 - 1) \<le> b"
    by blast+
  then show ?thesis by (auto simp: median_def Let_def)
qed

lemma mean_in_range:
  assumes "xs \<noteq> []" and "\<forall>x \<in> set xs. a \<le> x \<and> x \<le> b"
  shows "a \<le> mean xs \<and> mean xs \<le> b"
proof -
  have "of_nat (length xs) * a \<le> sum_list xs \<and> sum_list xs \<le> of_nat (length xs) * b"
    using assms(2) by (induction xs) (auto simp: algebra_simps)
  moreover have "(0 :: rat) < of_nat (length xs)" using assms(1) by simp
  ultimately show ?thesis by (simp add: mean_def field_simps)
qed

lemma offends_iff: "offends (j, f, a) \<longleftrightarrow> a \<noteq> 0 \<and> a < 2 * f"
proof -
  have "(1 / 2 :: rat) < of_nat f / of_nat a \<longleftrightarrow> a < 2 * f" if "a \<noteq> 0"
  proof -
    have "(1 / 2 :: rat) < of_nat f / of_nat a \<longleftrightarrow> (of_nat a :: rat) < of_nat (2 * f)"
      using that by (simp add: field_simps)
    then show ?thesis by (simp only: of_nat_less_iff)
  qed
  then show ?thesis by (auto simp: offends_def)
qed

lemma gate_passes: "check_parse_fail_gate stats = Inr u \<longleftrightarrow> (\<forall>s \<in> set stats. \<not> offends s)"
  by (auto simp: check_parse_fail_gate_def Let_def filter_empty_conv)

definition medians_fine :: "judge_cell_stat list \<Rightarrow> bool" where
  "medians_fine stats \<longleftrightarrow> (\<forall>s \<in> set stats. \<forall>m. js_median s = Some m \<longrightarrow> 0 \<le> m \<and> m \<le> 10)"

lemma parsed_of_set: "v \<in> set (parsed_of xs) \<longleftrightarrow> Parsed v \<in> set xs"
  by (induction xs rule: parsed_of.induct) auto

lemma take_sample_Parsed: "take_sample j r ids = Inr (Parsed v, ids') \<Longrightarrow> 0 \<le> v \<and> v \<le> 10"
  using parse_judge_score_range by (auto simp: take_sample_def Let_def split: if_splits option.splits)

lemma sample_judge_range:
  "sample_judge caller p j k ids st = (Inr (xs, ids'), st') \<Longrightarrow> Parsed v \<in> set xs \<Longrightarrow> 0 \<le> v \<and> v \<le> 10"
proof (induction k arbitrary: ids st xs)
  case (Suc k)
  then show ?case
    by (auto split: prod.splits sum.splits dest: take_sample_Parsed)
qed simp

lemma cell_stat_fine:
  assumes "\<And>v. Parsed v \<in> set xs \<Longrightarrow> 0 \<le> v \<and> v \<le> 10"
  shows "medians_fine [cell_stat j xs]"
proof -
  have "0 \<le> median (parsed_of xs) \<and> median (parsed_of xs) \<le> 10" if "parsed_of xs \<noteq> []"
    using that assms by (intro median_in_range) (auto simp: parsed_of_set)
  then show ?thesis by (auto simp: medians_fine_def cell_stat_def Let_def)
qed

lemma judge_stats_fine:
  "judge_stats caller p k js ids st = (Inr (stats, ids'), st') \<Longrightarrow> medians_fine stats"
proof (induction js arbitrary: ids st stats)
  case (Cons j js)
  from Cons.prems obtain xs ids1 st1 stats1 where s: "sample_judge caller p j k ids st = (Inr (xs, ids1), st1)"
      "judge_stats caller p k js ids1 st1 = (Inr (stats1, ids'), st')" "stats = cell_stat j xs # stats1"
    by (auto split: prod.splits sum.splits)
  have "medians_fine [cell_stat j xs]" using sample_judge_range [OF s(1)] by (rule cell_stat_fine)
  with Cons.IH [OF s(2)] s(3) show ?case by (simp add: medians_fine_def)
qed (simp add: medians_fine_def)

definition result_fine :: "judge_item_result \<Rightarrow> bool" where
  "result_fine r \<longleftrightarrow> 0 \<le> ji_score r \<and> ji_score r \<le> 1 \<and> (\<forall>m \<in> set (ji_judge_scores r). 0 \<le> m \<and> m \<le> 10) \<and>
     (case ji_parsed r of
        None \<Rightarrow> ji_judge_scores r = [] \<and> ji_score r = 0
      | Some m \<Rightarrow> ji_judge_scores r \<noteq> [] \<and> m = mean (ji_judge_scores r) \<and> ji_score r = m / 10)"

lemma map_filter_median: "m \<in> set (List.map_filter js_median stats) \<longleftrightarrow> (\<exists>s \<in> set stats. js_median s = Some m)"
  by (induction stats) (auto simp: List.map_filter_simps split: option.splits)

lemma item_result_fine: "medians_fine stats \<Longrightarrow> result_fine (item_result i stats)"
proof -
  assume "medians_fine stats"
  then have r: "\<forall>m \<in> set (List.map_filter js_median stats). 0 \<le> m \<and> m \<le> 10"
    by (auto simp: medians_fine_def map_filter_median)
  show ?thesis
  proof (cases "List.map_filter js_median stats = []")
    case False
    from mean_in_range [OF False r] r False show ?thesis
      by (simp add: item_result_def result_fine_def Let_def)
  qed (simp add: item_result_def result_fine_def Let_def)
qed

lemma judge_cells_fine:
  "judge_cells caller cs judges k ids acc st = (Inr (rs, acc'), st') \<Longrightarrow>
     list_all result_fine rs \<and> map ji_item_id rs = map jc_item_id cs"
proof (induction cs arbitrary: ids acc st rs)
  case (Cons c cs)
  from Cons.prems obtain stats ids1 st1 rs1 where
      c: "judge_stats caller (build_judge_prompt (jc_prompt c) (jc_response c) (jc_rubric c)) k judges ids st
        = (Inr (stats, ids1), st1)"
      "judge_cells caller cs judges k ids1 (foldl add_stat acc stats) st1 = (Inr (rs1, acc'), st')"
      "rs = item_result (jc_item_id c) stats # rs1"
    by (auto simp: judge_one_cell_def split: prod.splits sum.splits)
  have "ji_item_id (item_result i stats) = i" for i by (simp add: item_result_def Let_def)
  with Cons.IH [OF c(2)] c(3) item_result_fine [OF judge_stats_fine [OF c(1)]] show ?case by simp
qed simp

section \<open>A pass against its table of calls\<close>

text \<open>
  The abstract pass: the results of all calls are a table, the \<open>n\<close>-th call's result at \<open>n\<close>; calls run
  cell by cell, judge by judge, sample by sample.  The numbers of the pass are functions of the table.
\<close>

definition scripted :: "(string \<Rightarrow> string \<Rightarrow> nat \<Rightarrow> model_call_result) \<Rightarrow> nat judge_caller" where
  "scripted f prompt judge n = (Inr (f prompt judge n), Suc n)"

definition sample_of :: "model_call_result \<Rightarrow> judge_sample" where
  "sample_of r = (if \<not> call_ok r then InvokeError
     else case parse_judge_score (response_text (mr_response r)) of None \<Rightarrow> ParseFail | Some v \<Rightarrow> Parsed v)"

text \<open>A result fits pinned identities: a concrete identity is the pinned one, a usable answer has one.\<close>

definition fits :: "identities \<Rightarrow> string \<Rightarrow> model_call_result \<Rightarrow> bool" where
  "fits ids j r \<longleftrightarrow> (has_identity r \<longrightarrow> ids j = Some (mr_resolved r)) \<and> (call_ok r \<longrightarrow> has_identity r)"

lemma fits_mono: "fits ids j r \<Longrightarrow> ids \<subseteq>\<^sub>m ids' \<Longrightarrow> fits ids' j r"
  by (auto simp: fits_def map_le_def dom_def)

lemma take_sample_spec:
  "take_sample j r ids = Inr (x, ids') \<Longrightarrow> x = sample_of r \<and> ids \<subseteq>\<^sub>m ids' \<and> fits ids' j r"
  by (auto simp: take_sample_def sample_of_def Let_def fits_def map_le_def split: if_splits option.splits)

lemma sample_scripted_Suc:
  "sample_judge (scripted f) p j (Suc k) ids n = (case take_sample j (f p j n) ids of
     Inl e \<Rightarrow> (Inl e, Suc n)
   | Inr (x, ids') \<Rightarrow>
       (case sample_judge (scripted f) p j k ids' (Suc n) of
          (Inl e, n') \<Rightarrow> (Inl e, n') | (Inr (xs, ids''), n') \<Rightarrow> (Inr (x # xs, ids''), n')))"
  by (simp add: scripted_def [of f p j n])

lemma sample_judge_scripted:
  assumes "sample_judge (scripted f) p j k ids n = (Inr (xs, ids'), n')"
  shows "n' = n + k \<and> xs = map (\<lambda>t. sample_of (f p j (n + t))) [0..<k] \<and> ids \<subseteq>\<^sub>m ids' \<and>
    (\<forall>t < k. fits ids' j (f p j (n + t)))"
  using assms
proof (induction k arbitrary: ids n xs)
  case (Suc k)
  from Suc.prems obtain x ids1 xs1 where t: "take_sample j (f p j n) ids = Inr (x, ids1)"
      "sample_judge (scripted f) p j k ids1 (Suc n) = (Inr (xs1, ids'), n')" "xs = x # xs1"
    by (auto simp: sample_scripted_Suc simp del: sample_judge.simps split: sum.splits prod.splits)
  note x = take_sample_spec [OF t(1)] and IH = Suc.IH [OF t(2)]
  have "xs = map (\<lambda>t. sample_of (f p j (n + t))) [0..<Suc k]"
    using x IH t(3) by (simp add: upt_conv_Cons map_Suc_upt [symmetric] comp_def del: upt_Suc)
  moreover have "fits ids' j (f p j (n + t))" if "t < Suc k" for t
  proof (cases t)
    case 0
    then show ?thesis using x IH fits_mono by (auto simp: map_le_def)
  next
    case (Suc i)
    then show ?thesis using IH that by simp
  qed
  ultimately show ?case using x IH map_le_trans by auto
qed simp

text \<open>The table read by one judge for one cell whose calls start at \<open>n\<close>, and the cell's statistics.\<close>

definition observed ::
    "(string \<Rightarrow> string \<Rightarrow> nat \<Rightarrow> model_call_result) \<Rightarrow> nat \<Rightarrow> string \<Rightarrow> string \<Rightarrow> nat \<Rightarrow> model_call_result list" where
  "observed f k p j n = map (\<lambda>t. f p j (n + t)) [0..<k]"

fun cell_table ::
    "(string \<Rightarrow> string \<Rightarrow> nat \<Rightarrow> model_call_result) \<Rightarrow> nat \<Rightarrow> string \<Rightarrow> string list \<Rightarrow> nat
      \<Rightarrow> (string \<times> model_call_result list) list" where
  "cell_table f k p [] n = []"
| "cell_table f k p (j # js) n = (j, observed f k p j n) # cell_table f k p js (n + k)"

definition table_stats :: "(string \<times> model_call_result list) list \<Rightarrow> judge_cell_stat list" where
  "table_stats tab = map (\<lambda>(j, rs). cell_stat j (map sample_of rs)) tab"

definition table_fits :: "identities \<Rightarrow> (string \<times> model_call_result list) list \<Rightarrow> bool" where
  "table_fits ids tab \<longleftrightarrow> (\<forall>(j, rs) \<in> set tab. \<forall>r \<in> set rs. fits ids j r)"

lemma table_fits_mono: "table_fits ids tab \<Longrightarrow> ids \<subseteq>\<^sub>m ids' \<Longrightarrow> table_fits ids' tab"
  unfolding table_fits_def using fits_mono by blast

lemma judge_stats_scripted:
  assumes "judge_stats (scripted f) p k js ids n = (Inr (stats, ids'), n')"
  shows "n' = n + length js * k \<and> stats = table_stats (cell_table f k p js n) \<and> ids \<subseteq>\<^sub>m ids' \<and>
    table_fits ids' (cell_table f k p js n)"
  using assms
proof (induction js arbitrary: ids n stats)
  case (Cons j js)
  from Cons.prems obtain xs ids1 n1 stats1 where s: "sample_judge (scripted f) p j k ids n = (Inr (xs, ids1), n1)"
      "judge_stats (scripted f) p k js ids1 n1 = (Inr (stats1, ids'), n')" "stats = cell_stat j xs # stats1"
    by (auto split: prod.splits sum.splits)
  note x = sample_judge_scripted [OF s(1)] and IH = Cons.IH [OF s(2)]
  have "fits ids' j r" if "r \<in> set (observed f k p j n)" for r
    using that x IH fits_mono by (auto simp: observed_def)
  with x IH s(3) show ?case
    by (auto simp: table_stats_def table_fits_def observed_def comp_def intro: map_le_trans)
qed (simp add: table_stats_def table_fits_def)

definition cell_prompt :: "judge_cell \<Rightarrow> string" where
  "cell_prompt c = build_judge_prompt (jc_prompt c) (jc_response c) (jc_rubric c)"

fun pass_table ::
    "(string \<Rightarrow> string \<Rightarrow> nat \<Rightarrow> model_call_result) \<Rightarrow> nat \<Rightarrow> string list \<Rightarrow> judge_cell list \<Rightarrow> nat
      \<Rightarrow> (string \<times> model_call_result list) list list" where
  "pass_table f k js [] n = []"
| "pass_table f k js (c # cs) n = cell_table f k (cell_prompt c) js n # pass_table f k js cs (n + length js * k)"

lemma foldl_add_stat:
  "foldl add_stat (map (\<lambda>j. (j, F j, A j)) js) stats =
     map (\<lambda>j. (j, F j + sum_list (map js_parse_fail (filter (\<lambda>s. js_judge s = j) stats)),
       A j + sum_list (map js_parse_attempts (filter (\<lambda>s. js_judge s = j) stats)))) js"
proof (induction stats arbitrary: F A)
  case (Cons s stats)
  have "add_stat (map (\<lambda>j. (j, F j, A j)) js) s =
      map (\<lambda>j. (j, (if j = js_judge s then F j + js_parse_fail s else F j),
        (if j = js_judge s then A j + js_parse_attempts s else A j))) js"
    by (simp add: add_stat_def)
  then show ?case using Cons.IH by auto
qed simp

lemma judge_cells_scripted:
  assumes "judge_cells (scripted f) cs js k ids acc n = (Inr (rs, acc'), n')"
  shows "n' = n + length cs * (length js * k) \<and>
    rs = map2 (\<lambda>c tab. item_result (jc_item_id c) (table_stats tab)) cs (pass_table f k js cs n) \<and>
    acc' = foldl add_stat acc (concat (map table_stats (pass_table f k js cs n))) \<and>
    (\<exists>ids'. ids \<subseteq>\<^sub>m ids' \<and> (\<forall>tab \<in> set (pass_table f k js cs n). table_fits ids' tab))"
  using assms
proof (induction cs arbitrary: ids acc n rs)
  case (Cons c cs)
  from Cons.prems obtain stats ids1 n1 rs1 where
      c: "judge_stats (scripted f) (cell_prompt c) k js ids n = (Inr (stats, ids1), n1)"
      "judge_cells (scripted f) cs js k ids1 (foldl add_stat acc stats) n1 = (Inr (rs1, acc'), n')"
      "rs = item_result (jc_item_id c) stats # rs1"
    by (auto simp: judge_one_cell_def cell_prompt_def split: prod.splits sum.splits)
  note x = judge_stats_scripted [OF c(1)]
  from Cons.IH [OF c(2)] obtain ids' where IH: "n' = n1 + length cs * (length js * k)"
      "rs1 = map2 (\<lambda>c tab. item_result (jc_item_id c) (table_stats tab)) cs (pass_table f k js cs n1)"
      "acc' = foldl add_stat (foldl add_stat acc stats) (concat (map table_stats (pass_table f k js cs n1)))"
      "ids1 \<subseteq>\<^sub>m ids'" "\<forall>tab \<in> set (pass_table f k js cs n1). table_fits ids' tab"
    by blast
  have "table_fits ids' (cell_table f k (cell_prompt c) js n)" using x IH(4) table_fits_mono by blast
  moreover have "ids \<subseteq>\<^sub>m ids'" using x IH(4) map_le_trans by blast
  ultimately show ?case using x IH c(3) by (auto simp: algebra_simps)
next
  case Nil
  then show ?case by (auto intro: exI [of _ ids])
qed

text \<open>C10: The rubric pass refines its abstract specification over the table of its calls: when it returns it
  made exactly k calls for every judge and cell; each cell's result is the mean of the medians of that
  table's row, every judge's counters are the sums over the whole table, although the code keeps them in
  running dictionaries; and one assignment of provider identities explains every call of the table, so
  no judge changed its model in the middle of the pass.\<close>

theorem judge_pass_refines_table:
  assumes "judge_run (scripted f) judges k cells n = (Inr res, n')"
  shows "let js = fromkeys judges; tables = pass_table f k js cells n in
    n' = n + length cells * (length js * k) \<and>
    jr_results res = map2 (\<lambda>c tab. item_result (jc_item_id c) (table_stats tab)) cells tables \<and>
    jr_stats res = map (\<lambda>j. let mine = filter (\<lambda>s. js_judge s = j) (concat (map table_stats tables)) in
      (j, sum_list (map js_parse_fail mine), sum_list (map js_parse_attempts mine))) js \<and>
    (\<exists>ids. \<forall>tab \<in> set tables. table_fits ids tab)"
proof -
  from assms obtain rs acc where
      c: "judge_cells (scripted f) cells (fromkeys judges) k Map.empty (map (\<lambda>j. (j, 0, 0)) (fromkeys judges)) n
        = (Inr (rs, acc), n')" "res = \<lparr>jr_results = rs, jr_stats = acc\<rparr>"
    by (auto simp: judge_run_def Let_def bindE_Inr_iff split: if_splits prod.splits sum.splits)
  note foldl_add_stat [of "\<lambda>_. 0" "\<lambda>_. 0" "fromkeys judges"]
  with judge_cells_scripted [OF c(1)] c(2) show ?thesis by (auto simp: Let_def)
qed

section \<open>The numbers of a pass, from the raw answers\<close>

text \<open>What a rater reads in answers: the first number after \<open>score:\<close> of every call that succeeded, moved into the range
  from 0 to 10; the rest of the successful calls are unreadable, and a failed call counts for nothing.\<close>

definition stated_score :: "model_call_result \<Rightarrow> rat option" where
  "stated_score r = (if call_ok r then map_option (\<lambda>v. if v < 0 then 0 else if 10 < v then 10 else v)
     (score_search (response_text (mr_response r))) else None)"

definition stated_scores :: "model_call_result list \<Rightarrow> rat list" where
  "stated_scores rs = List.map_filter stated_score rs"

definition unreadable :: "model_call_result list \<Rightarrow> nat" where
  "unreadable rs = length (filter (\<lambda>r. call_ok r \<and> stated_score r = None) rs)"

text \<open>The answers of the \<open>j\<close>-th judge for the \<open>i\<close>-th cell.\<close>

definition answers ::
    "(string \<Rightarrow> string \<Rightarrow> nat \<Rightarrow> model_call_result) \<Rightarrow> nat \<Rightarrow> string list \<Rightarrow> judge_cell list \<Rightarrow> nat \<Rightarrow> nat \<Rightarrow> nat
      \<Rightarrow> model_call_result list" where
  "answers f k js cells n i j =
     map (\<lambda>t. f (cell_prompt (cells ! i)) (js ! j) (n + i * (length js * k) + j * k + t)) [0..<k]"

lemma stated_score_range: "stated_score r = Some v \<Longrightarrow> 0 \<le> v \<and> v \<le> 10"
  by (auto simp: stated_score_def split: if_splits)

lemma stated_scores_range: "v \<in> set (stated_scores rs) \<Longrightarrow> 0 \<le> v \<and> v \<le> 10"
  by (induction rs) (auto simp: stated_scores_def List.map_filter_simps dest: stated_score_range split: option.splits)

lemma sample_of_stated:
  "sample_of r = (if \<not> call_ok r then InvokeError else case stated_score r of None \<Rightarrow> ParseFail | Some v \<Rightarrow> Parsed v)"
  by (auto simp: sample_of_def stated_score_def parse_judge_score_def min_def max_def split: option.splits)

lemma parsed_stated: "parsed_of (map sample_of rs) = stated_scores rs"
  by (induction rs) (auto simp: sample_of_stated stated_scores_def List.map_filter_simps stated_score_def split: option.splits)

lemma fails_stated: "length (filter (\<lambda>x. x = ParseFail) (map sample_of rs)) = unreadable rs"
  by (induction rs) (auto simp: sample_of_stated unreadable_def split: option.splits)

lemma cell_stat_stated:
  "cell_stat j (map sample_of rs) = \<lparr>js_judge = j, js_parse_fail = unreadable rs,
     js_parse_attempts = unreadable rs + length (stated_scores rs),
     js_median = (if stated_scores rs = [] then None else Some (median (stated_scores rs)))\<rparr>"
  unfolding cell_stat_def Let_def parsed_stated fails_stated ..

lemma cell_table_map: "cell_table f k p js n = map (\<lambda>j. (js ! j, observed f k p (js ! j) (n + j * k))) [0..<length js]"
proof (induction js arbitrary: n)
  case (Cons j js)
  have "[0..<length (j # js)] = 0 # map Suc [0..<length js]" by (simp add: upt_conv_Cons map_Suc_upt del: upt_Suc)
  then show ?case using Cons [of "n + k"] by (simp add: comp_def algebra_simps del: upt_Suc)
qed simp

lemma pass_table_nth:
  "i < length cells \<Longrightarrow> pass_table f k js cells n ! i = cell_table f k (cell_prompt (cells ! i)) js (n + i * (length js * k))"
proof (induction cells arbitrary: n i)
  case (Cons c cells)
  then show ?case by (cases i) (simp_all add: algebra_simps)
qed simp

lemma pass_table_length [simp]: "length (pass_table f k js cells n) = length cells"
  by (induction cells arbitrary: n) simp_all

lemma pass_stats_nth:
  "i < length cells \<Longrightarrow> table_stats (pass_table f k js cells n ! i) =
    map (\<lambda>j. cell_stat (js ! j) (map sample_of (answers f k js cells n i j))) [0..<length js]"
  by (simp add: pass_table_nth cell_table_map table_stats_def answers_def observed_def algebra_simps)

lemma map_filter_stated:
  "List.map_filter (\<lambda>j. if g j = [] then None else Some (h (g j))) xs = map h (filter (\<lambda>v. v \<noteq> []) (map g xs))"
  by (induction xs) (auto simp: List.map_filter_simps)

text \<open>The medians of the judges who said a number for the \<open>i\<close>-th cell.\<close>

definition said_medians ::
    "(string \<Rightarrow> string \<Rightarrow> nat \<Rightarrow> model_call_result) \<Rightarrow> nat \<Rightarrow> string list \<Rightarrow> judge_cell list \<Rightarrow> nat \<Rightarrow> nat \<Rightarrow> rat list" where
  "said_medians f k js cells n i =
     map median (filter (\<lambda>vs. vs \<noteq> []) (map (\<lambda>j. stated_scores (answers f k js cells n i j)) [0..<length js]))"

lemma medians_stated:
  assumes "i < length cells"
  shows "List.map_filter js_median (table_stats (pass_table f k js cells n ! i)) = said_medians f k js cells n i"
proof -
  have "List.map_filter js_median (map g xs) = List.map_filter (\<lambda>j. js_median (g j)) xs" for g :: "nat \<Rightarrow> judge_cell_stat" and xs
    by (induction xs) (auto simp: List.map_filter_simps split: option.splits)
  then show ?thesis unfolding pass_stats_nth [OF assms] said_medians_def map_filter_stated [symmetric]
    by (simp add: cell_stat_stated)
qed

lemma said_medians_range: "m \<in> set (said_medians f k js cells n i) \<Longrightarrow> 0 \<le> m \<and> m \<le> 10"
  by (auto simp: said_medians_def intro!: median_in_range dest: stated_scores_range)

lemma sum_of_mine:
  assumes "distinct js" and "j < length js" and "\<And>i. js_judge (g i) = js ! i"
  shows "sum_list (map h (filter (\<lambda>s. js_judge s = js ! j) (map g [0..<length js]))) = h (g j)"
proof -
  have "filter (\<lambda>i. js ! i = js ! j) [0..<length js] = filter (\<lambda>i. i = j) [0..<length js]"
    using assms(1,2) by (intro filter_cong) (auto simp: nth_eq_iff_index_eq)
  also have "\<dots> = [j]"
  proof -
    have "filter (\<lambda>i. i = j) [0..<m] = (if j < m then [j] else [])" for m by (induction m) auto
    with assms(2) show ?thesis by simp
  qed
  finally show ?thesis by (simp add: filter_map comp_def assms(3))
qed

lemma counters_stated:
  assumes "distinct js" and "j < length js"
  shows "sum_list (map h (filter (\<lambda>s. js_judge s = js ! j) (concat (map table_stats (pass_table f k js cells n))))) =
    (\<Sum>i<length cells. h (cell_stat (js ! j) (map sample_of (answers f k js cells n i j))))"
proof -
  let ?g = "\<lambda>i j. cell_stat (js ! j) (map sample_of (answers f k js cells n i j))"
  have "map table_stats (pass_table f k js cells n) = map (\<lambda>i. map (?g i) [0..<length js]) [0..<length cells]"
    by (rule nth_equalityI) (simp_all add: pass_stats_nth)
  moreover have "sum_list (map h (filter (\<lambda>s. js_judge s = js ! j) (map (?g i) [0..<length js]))) = h (?g i j)" for i
    using assms by (rule sum_of_mine) (simp add: cell_stat_def Let_def)
  then have "sum_list (map h (filter (\<lambda>s. js_judge s = js ! j) (concat (map (\<lambda>i. map (?g i) [0..<length js]) is)))) =
      sum_list (map (\<lambda>i. h (?g i j)) is)" for "is"
    by (induction "is") simp_all
  ultimately show ?thesis by (simp add: interv_sum_list_conv_sum_set_nat atLeast0LessThan)
qed

lemma mean_tenth_range:
  assumes "ms \<noteq> []" and "\<forall>m\<in>set ms. 0 \<le> m \<and> m \<le> (10 :: rat)"
  shows "0 \<le> mean ms / 10 \<and> mean ms / 10 \<le> 1"
  using mean_in_range [OF assms] by simp

text \<open>C11: The numbers of a rubric pass against the raw answers of its calls, which are a table \<open>f\<close> by call: a pass that
  returns has one result per cell in order; the judge scores of a cell are the medians, in the order of the judges, of
  the numbers each judge said for it, and lie between 0 and 10; the cell is a parse failure with score 0 exactly when no
  judge said any number, otherwise its score is the mean of the medians over 10, between 0 and 1; and every judge's
  counters are its unreadable and its readable answers over all cells of the pass, of which not more than half are
  unreadable.\<close>

theorem judge_scores_in_range:
  assumes "judge_run (scripted f) judges k cells n = (Inr res, n')"
  shows "let js = fromkeys judges; said = said_medians f k js cells n;
      bad = (\<lambda>j. \<Sum>i<length cells. unreadable (answers f k js cells n i j));
      good = (\<lambda>j. \<Sum>i<length cells. length (stated_scores (answers f k js cells n i j)))
    in length (jr_results res) = length cells \<and>
      (\<forall>i<length cells. let r = jr_results res ! i in
         ji_item_id r = jc_item_id (cells ! i) \<and> ji_judge_scores r = said i \<and> (\<forall>m\<in>set (said i). 0 \<le> m \<and> m \<le> 10) \<and>
         (if \<forall>j<length js. stated_scores (answers f k js cells n i j) = [] then ji_parsed r = None \<and> ji_score r = 0
          else ji_parsed r = Some (mean (said i)) \<and> ji_score r = mean (said i) / 10 \<and> 0 \<le> ji_score r \<and> ji_score r \<le> 1)) \<and>
      jr_stats res = map (\<lambda>j. (js ! j, bad j, bad j + good j)) [0..<length js] \<and>
      (\<forall>j<length js. bad j \<le> good j)"
proof -
  define js where "js = fromkeys judges"
  let ?said = "said_medians f k js cells n" and ?T = "pass_table f k js cells n"
  let ?bad = "\<lambda>j. \<Sum>i<length cells. unreadable (answers f k js cells n i j)"
  let ?good = "\<lambda>j. \<Sum>i<length cells. length (stated_scores (answers f k js cells n i j))"
  from assms obtain rs acc where c: "judge_cells (scripted f) cells js k Map.empty (map (\<lambda>j. (j, 0, 0)) js) n
        = (Inr (rs, acc), n')" "check_parse_fail_gate acc = Inr ()" "res = \<lparr>jr_results = rs, jr_stats = acc\<rparr>"
    by (auto simp: judge_run_def js_def Let_def bindE_Inr_iff split: if_splits prod.splits sum.splits)
  have rs: "rs = map2 (\<lambda>c tab. item_result (jc_item_id c) (table_stats tab)) cells ?T"
    and acc: "acc = foldl add_stat (map (\<lambda>j. (j, 0, 0)) js) (concat (map table_stats ?T))"
    using judge_cells_scripted [OF c(1)] by simp_all
  have dist: "distinct js" by (simp add: js_def)
  have stats: "acc = map (\<lambda>j. (js ! j, ?bad j, ?bad j + ?good j)) [0..<length js]"
    unfolding acc foldl_add_stat [of "\<lambda>_. 0" "\<lambda>_. 0", simplified]
    by (rule nth_equalityI) (simp_all add: counters_stated [OF dist] cell_stat_stated sum.distrib)
  have gate: "?bad j \<le> ?good j" if "j < length js" for j
  proof -
    have "(js ! j, ?bad j, ?bad j + ?good j) \<in> set acc" using that by (simp add: stats)
    with c(2) have "\<not> offends (js ! j, ?bad j, ?bad j + ?good j)" by (auto simp: gate_passes)
    then show ?thesis by (auto simp: offends_iff)
  qed
  have silent: "?said i = [] \<longleftrightarrow> (\<forall>j<length js. stated_scores (answers f k js cells n i j) = [])" for i
    by (auto simp: said_medians_def filter_empty_conv)
  have row: "rs ! i = (if ?said i = [] then \<lparr>ji_item_id = jc_item_id (cells ! i), ji_score = 0, ji_parsed = None,
        ji_judge_scores = []\<rparr> else \<lparr>ji_item_id = jc_item_id (cells ! i), ji_score = mean (?said i) / 10,
        ji_parsed = Some (mean (?said i)), ji_judge_scores = ?said i\<rparr>)" if "i < length cells" for i
    using that by (simp add: rs item_result_def medians_stated Let_def)
  show ?thesis
    unfolding js_def [symmetric] Let_def c(3) judge_run_result.simps silent [symmetric]
    using row gate said_medians_range mean_tenth_range by (simp add: rs stats)
qed

section \<open>Rubric scoring of a stored run\<close>

definition judged_row :: "(rat \<Rightarrow> flt) \<Rightarrow> run_row \<Rightarrow> run_row \<Rightarrow> bool" where
  "judged_row fl r r' \<longleftrightarrow> (if scoreable r then \<exists>x. result_fine x \<and> r' = rubric_row fl r x else r' = r)"

lemma fill_rows_judged:
  assumes "rubric_cells pstr its rows = Inr cells" and "list_all result_fine res" and "length res = length cells"
  shows "list_all2 (judged_row fl) rows (fill_rows fl rows res)"
  using assms
proof (induction rows arbitrary: cells res)
  case (Cons r rows)
  show ?case
  proof (cases "scoreable r")
    case False
    then show ?thesis using Cons by (simp add: judged_row_def)
  next
    case True
    with Cons.prems(1) obtain c cs where cells: "cells = c # cs" "rubric_cells pstr its rows = Inr cs"
      by (auto simp: bindE_Inr_iff split: if_splits option.splits)
    with Cons.prems(3) obtain x xs where res: "res = x # xs" by (cases res) auto
    have "list_all2 (judged_row fl) rows (fill_rows fl rows xs)"
      using Cons.IH [OF cells(2)] Cons.prems(2,3) cells(1) res by simp
    moreover have "judged_row fl r (rubric_row fl r x)" using True res Cons.prems(2) by (auto simp: judged_row_def)
    ultimately show ?thesis using True res by simp
  qed
qed simp

lemma rubric_run_scorer_rows:
  assumes "rubric_run_scorer fl pstr judges caller k rows its st = (Inr rows', st')"
  shows "list_all2 (judged_row fl) rows rows'"
proof -
  from assms obtain cells res where c: "rubric_cells pstr its rows = Inr cells"
      "judge_run caller judges k cells st = (Inr res, st')" "rows' = fill_rows fl rows (jr_results res)"
    by (auto simp: rubric_run_scorer_def split: sum.splits prod.splits)
  from c(2) obtain acc where
      "judge_cells caller cells (fromkeys judges) k Map.empty (map (\<lambda>j. (j, 0, 0)) (fromkeys judges)) st
        = (Inr (jr_results res, acc), st')"
    by (auto simp: judge_run_def Let_def bindE_Inr_iff split: if_splits prod.splits sum.splits)
  from judge_cells_fine [OF this] have "list_all result_fine (jr_results res)"
      "map ji_item_id (jr_results res) = map jc_item_id cells" by simp_all
  then show ?thesis unfolding c(3) by (metis c(1) fill_rows_judged length_map)
qed

text \<open>\<open>mt score\<close> of a rubric run: the batch re-scoring with the rubric scorer plugged in.\<close>

definition score_rubric ::
    "externals \<Rightarrow> nat \<Rightarrow> (rat \<Rightarrow> flt) \<Rightarrow> (json \<Rightarrow> string) \<Rightarrow> string list \<Rightarrow> 'st judge_caller \<Rightarrow> nat \<Rightarrow> 'st
      \<Rightarrow> out_dir \<Rightarrow> string \<Rightarrow> (run_exn + judge_error, score_result) res \<times> out_dir" where
  "score_rubric ext limit fl pstr judges caller k st od rid =
     score_run_batch ext limit (\<lambda>rows its. fst (rubric_run_scorer fl pstr judges caller k rows its st)) od rid"

lemma read_lines_errors: "read_lines limit en i ls = Inl e \<Longrightarrow> (\<exists>n. e = RunError (CorruptRow n)) \<or> e = RawRecursionError"
  by (induction ls arbitrary: i) (auto simp: bindE_Inl_iff split: line_read.splits if_splits)

lemma read_rows_no_mismatch: "read_rows limit f \<noteq> Inl (RunError (RowCountMismatch a b))"
  by (auto simp: read_rows_def read_rows_text_def Let_def bindE_Inl_iff dest!: read_lines_errors split: file_read.splits)

lemma open_run_no_mismatch: "open_run ext od rid \<noteq> Inl (RunError (RowCountMismatch a b))"
  by (auto simp: open_run_def resolve_run_dir_def read_manifest_def read_suite_snapshot_def subscript_def
      bindE_Inl_iff map_errE_Inl_iff split: option.splits if_splits doc_read.splits json.splits)

text \<open>Rubric scoring of a stored run is all or nothing: if it raises - a judge over the parse-fail gate,
  an identity that changed, an exhausted budget, an unknown item - the run store is as it was; if it
  returns, every row with an error or the empty-response tag is untouched, every other row got a score
  in range, its judges' medians and the rubric tag, and keeps its response; the number of rows never
  changes, so the length check of the batch never fires.\<close>

theorem rubric_scoring_all_or_nothing:
  assumes "score_rubric ext limit fl pstr judges caller k st od rid = (r, od')"
  shows "case r of
      Inl e \<Rightarrow> od' = od \<and> (\<forall>a b. e \<noteq> Inl (RunError (RowCountMismatch a b)))
    | Inr z \<Rightarrow> (\<exists>store rows torn rows'. od_runs od rid = Some store \<and>
        read_rows limit (rs_rows store) = Inr (rows, torn) \<and>
        list_all2 (judged_row fl) rows rows' \<and>
        od' = od\<lparr>od_runs := (od_runs od)(rid \<mapsto> store\<lparr>rs_rows := rewrite_rows rows'\<rparr>)\<rparr>)"
proof -
  let ?sc = "\<lambda>rows its. fst (rubric_run_scorer fl pstr judges caller k rows its st)"
  have rows: "list_all2 (judged_row fl) rows rows'" if "?sc rows its = Inr rows'" for rows its rows'
    using that rubric_run_scorer_rows by (metis prod.collapse)
  then have len: "length rows' = length rows" if "?sc rows its = Inr rows'" for rows its rows'
    using that list_all2_lengthD by metis
  show ?thesis
  proof (cases r)
    case (Inl e)
    have "e \<noteq> Inl (RunError (RowCountMismatch a b))" for a b
      using assms Inl len open_run_no_mismatch read_rows_no_mismatch
      by (auto simp: score_rubric_def score_run_batch_def bindE_Inl_iff map_errE_Inl_iff
          map_errE_Inr_iff split: sum.splits if_splits)
    moreover have "od' = od"
      using assms Inl by (auto simp: score_rubric_def score_run_batch_def split: sum.splits)
    ultimately show ?thesis using Inl by simp
  next
    case (Inr z)
    with assms obtain store s rows torn rows' where o: "open_run ext od rid = Inr (store, s)"
        "read_rows limit (rs_rows store) = Inr (rows, torn)" "?sc rows (su_items s) = Inr rows'"
        "od' = od\<lparr>od_runs := (od_runs od)(rid \<mapsto> store\<lparr>rs_rows := rewrite_rows rows'\<rparr>)\<rparr>"
      by (auto simp: score_rubric_def score_run_batch_def bindE_Inr_iff map_errE_Inr_iff split: sum.splits if_splits)
    have "od_runs od rid = Some store"
      using o(1) by (auto simp: open_run_def bindE_Inr_iff split: option.splits if_splits)
    moreover have "list_all2 (judged_row fl) rows rows'" using rows [OF o(3)] .
    ultimately show ?thesis unfolding Inr sum.case using o by blast
  qed
qed

text \<open>The subscription is safe in a rubric pass: with the production caller, whatever the pass returns,
  the calls made never exceed the budget's maximum, a runtime that was cached is one whose executable,
  version and context hash equal the stored receipt's (when there is one), and a caller whose judge
  roster is not bound to Claude under that receipt never makes a call at all.\<close>

theorem rubric_pass_within_budget:
  fixes st :: claude_judge
  assumes "rubric_run_scorer fl pstr judges (default_judge_caller su) k rows its st = (r, st')"
    and "bu_used (cj_budget st) \<le> bu_max (cj_budget st)" and "cj_runtime st = None"
  shows "bu_max (cj_budget st') = bu_max (cj_budget st) \<and> bu_used (cj_budget st') \<le> bu_max (cj_budget st) \<and>
    (\<forall>rt. cj_runtime st' = Some rt \<longrightarrow> judge_runtime su = Inr rt) \<and>
    (capability_error su \<noteq> None \<longrightarrow> st' = st)"
proof -
  have "judge_inv su (bu_max (cj_budget st)) st" using assms(2,3) by (simp add: judge_inv_def)
  from production.scorer_keeps [OF this, of fl pstr judges k rows its]
  have inv: "judge_inv su (bu_max (cj_budget st)) st'" by (simp add: assms(1))
  have "st' = st" if "capability_error su \<noteq> None"
  proof -
    have still: "judge_seam (default_judge_caller su) (\<lambda>x. x = st)"
      using that by unfold_locales (auto simp: default_judge_caller_def)
    show ?thesis using judge_seam.scorer_keeps [OF still refl, of fl pstr judges k rows its] assms(1) by simp
  qed
  with inv show ?thesis by (auto simp: judge_inv_def)
qed

section \<open>A concrete pass\<close>

definition judge_says :: "string \<Rightarrow> model_call_result" where
  "judge_says t = \<lparr>mr_response = Text t, mr_resolved = ''claude-x'', mr_elapsed = Fin False 1 0, mr_reason = None\<rparr>"

text \<open>Three samples of one judge: 7, no score, 12 (clamped).\<close>

definition sample_script :: "string \<Rightarrow> string \<Rightarrow> nat \<Rightarrow> model_call_result" where
  "sample_script p j n = (if n = 0 then judge_says ''SCORE: 7'' else if n = 1 then judge_says ''no''
     else judge_says ''final score : 12 of 10'')"

definition sample_cell :: judge_cell where
  "sample_cell = \<lparr>jc_item_id = JStr ''i1'', jc_prompt = ''p?'', jc_rubric = ''pass'', jc_response = ''x''\<rparr>"

lemma parse_samples:
  "parse_judge_score ''SCORE: 7'' = Some 7" "parse_judge_score ''no'' = None"
  "parse_judge_score ''final score : 12 of 10'' = Some 10" "parse_judge_score ''SCORE: 7.5.2'' = None"
  by code_simp+

lemma sample_judging:
  "judge_run (scripted sample_script) [''sonnet'', ''sonnet''] 3 [sample_cell] 0 =
     (Inr \<lparr>jr_results = [\<lparr>ji_item_id = JStr ''i1'', ji_score = 17 / 20, ji_parsed = Some (17 / 2),
        ji_judge_scores = [17 / 2]\<rparr>], jr_stats = [(''sonnet'', 1, 3)]\<rparr>, 3)"
  by code_simp

theorem judge_scores_in_range_witness:
  "stated_scores (answers sample_script 3 [''sonnet''] [sample_cell] 0 0 0) = [7, 10] \<and>
     (\<exists>res. judge_run (scripted sample_script) [''sonnet'', ''sonnet''] 3 [sample_cell] 0 = (Inr res, 3) \<and>
        ji_judge_scores (jr_results res ! 0) = [17 / 2] \<and> jr_stats res = [(''sonnet'', 1, 3)])"
proof -
  have u: "fromkeys [''sonnet'', ''sonnet''] = [''sonnet'']" by code_simp
  have s: "stated_scores (answers sample_script 3 [''sonnet''] [sample_cell] 0 0 0) = [7, 10]"
      "said_medians sample_script 3 [''sonnet''] [sample_cell] 0 0 = [17 / 2]"
      "unreadable (answers sample_script 3 [''sonnet''] [sample_cell] 0 0 0) = 1"
    by code_simp+
  obtain res where r: "judge_run (scripted sample_script) [''sonnet'', ''sonnet''] 3 [sample_cell] 0 = (Inr res, 3)"
    using sample_judging by blast
  have "ji_judge_scores (jr_results res ! 0) = [17 / 2] \<and> jr_stats res = [(''sonnet'', 1, 3)]"
    using judge_scores_in_range [OF r] s by (simp add: u Let_def)
  with r s(1) show ?thesis by blast
qed

theorem judge_pass_refines_table_witness:
  "\<exists>ids. \<forall>tab \<in> set (pass_table sample_script 3 [''sonnet''] [sample_cell] 0). table_fits ids tab"
proof -
  have "fromkeys [''sonnet'', ''sonnet''] = [''sonnet'']" by code_simp
  with judge_pass_refines_table [OF sample_judging] show ?thesis by (simp add: Let_def)
qed

theorem rubric_scoring_all_or_nothing_witness:
  "\<exists>r. score_rubric documented_ext 9 (\<lambda>_. flt_zero) dumps [] (scripted sample_script) 3 0 empty_out ''x''
     = (Inl r, empty_out)"
proof -
  have "\<exists>e od'. score_rubric documented_ext 9 (\<lambda>_. flt_zero) dumps [] (scripted sample_script) 3 0 empty_out ''x'' = (Inl e, od')"
    by (simp add: score_rubric_def score_run_batch_def open_run_def resolve_run_dir_def run_id_ok_def run_id_shape_def)
  then obtain e od' where
      "score_rubric documented_ext 9 (\<lambda>_. flt_zero) dumps [] (scripted sample_script) 3 0 empty_out ''x'' = (Inl e, od')"
    by blast
  with rubric_scoring_all_or_nothing [OF this] show ?thesis by auto
qed

definition sample_judge_setup :: judge_setup where
  "sample_judge_setup = \<lparr>jp_ext = documented_ext, jp_limit = 9, jp_config = sample_config, jp_receipt = None,
     jp_built = Inl RuntimeUnresolved, jp_probe = (\<lambda>_. RunTimeout), jp_probe_cwd = ''/t'', jp_world = (\<lambda>_. sample_world)\<rparr>"

theorem rubric_pass_within_budget_witness:
  "bu_used (cj_budget (snd (rubric_run_scorer (\<lambda>_. flt_zero) dumps [''sonnet''] (default_judge_caller sample_judge_setup) 3
     [] [] \<lparr>cj_budget = \<lparr>bu_max = 3, bu_used = 2\<rparr>, cj_runtime = None, cj_calls = 0\<rparr>))) \<le> 3"
  using rubric_pass_within_budget [OF surjective_pairing, where st = "\<lparr>cj_budget = \<lparr>bu_max = 3, bu_used = 2\<rparr>,
      cj_runtime = None, cj_calls = 0\<rparr>" and rows = "[]" and its = "[]" and k = 3
      and judges = "[''sonnet'']" and su = sample_judge_setup and fl = "\<lambda>_. flt_zero" and pstr = dumps]
  by simp

end
