(* ===== verification/Report.thy ===== *)
theory Report
  imports Judge Ledger
begin

text \<open>
  src/measure_twice/report.py: the roll-up of a stored run per model, the comparison of runs of one
  instrument, and the Markdown and JSONL renderings.  Scores are exact rationals (\<open>fl\<close> stores one as a
  float, \<open>fmt1\<close> prints it with one decimal); \<open>pstr\<close> is \<open>str\<close> of a JSON value that is no text.
\<close>

section \<open>Evidence and roll-ups\<close>

definition LEGACY_UNSEALED :: string where "LEGACY_UNSEALED = ''LEGACY_UNSEALED''"

definition PRELIMINARY_SEAL_IDENTITY_OK :: string where
  "PRELIMINARY_SEAL_IDENTITY_OK = ''PRELIMINARY_SEAL_IDENTITY_OK''"

definition NOT_ROUTING_ELIGIBLE :: string where "NOT_ROUTING_ELIGIBLE = ''NOT_ROUTING_ELIGIBLE''"

definition UNVERIFIED_LEGACY :: string where "UNVERIFIED_LEGACY = ''UNVERIFIED_LEGACY''"

datatype report_error =
    FromRunStore run_error
  | RunNotFound string
  | ManifestFieldNotText string
  | ManifestRosterNotList
  | IdentityNotText
  | NoRunIds
  | SuiteHashMismatch string string
  | SealMismatch string string
  | ReceiptFieldMismatch string string string

text \<open>
  What leaves the module: \<open>ReportError\<close>, or an exception of the run store that is no \<open>RunError\<close>, or a
  \<open>TypeError\<close> of a row whose model or item id is no text or whose score is no number.
\<close>

datatype report_exn = ReportError report_error | ReportRaw run_exn

type_synonym 'a pres_report = "(report_exn, 'a) res"

abbreviation report_fail :: "report_error \<Rightarrow> 'a pres_report" where
  "report_fail e \<equiv> Inl (ReportError e)"

record execution_evidence =
  ev_profile_id :: string
  ev_sealing_mode :: string
  ev_execution_sha :: string
  ev_provider_sha :: string
  ev_context_sha :: string
  ev_receipt_sha :: string
  ev_claude :: "(string \<times> string) option"
  ev_bindings :: "(string \<times> string \<times> string) list"
  ev_gemini :: "gemini_context option"

definition evidence_binding_for :: "execution_evidence \<Rightarrow> string \<Rightarrow> (string \<times> string) option" where
  "evidence_binding_for ev al = map_option snd (find (\<lambda>b. fst b = al) (ev_bindings ev))"

text \<open>A suite score is a mean; one score that is infinite or no number makes it none.\<close>

datatype report_score = Score rat | NonFinite

record model_report =
  mo_model :: string
  mo_cells :: nat
  mo_scored :: nat
  mo_items :: nat
  mo_score :: "report_score option"
  mo_no_response :: nat
  mo_parse_fail :: nat
  mo_error :: nat
  mo_provider :: "string option"
  mo_requested :: "string option"
  mo_stored :: "string list"
  mo_resolved :: "string list"
  mo_provenance :: string
  mo_unresolved :: bool
  mo_routing :: "bool option"

definition eligibility :: "model_report \<Rightarrow> string" where
  "eligibility m = (if mo_routing m = None then PRELIMINARY_SEAL_IDENTITY_OK else NOT_ROUTING_ELIGIBLE)"

record run_report =
  rp_run_id :: string
  rp_suite :: string
  rp_suite_hash :: string
  rp_started :: string
  rp_roster :: "string list"
  rp_models :: "model_report list"
  rp_execution :: "execution_evidence option"

definition sealed :: "run_report \<Rightarrow> bool" where
  "sealed r \<longleftrightarrow> rp_execution r \<noteq> None"

definition seal_status :: "run_report \<Rightarrow> string" where
  "seal_status r = (case rp_execution r of None \<Rightarrow> LEGACY_UNSEALED | Some ev \<Rightarrow> ev_sealing_mode ev)"

definition total_parse_fail :: "run_report \<Rightarrow> nat" where
  "total_parse_fail r = sum_list (map mo_parse_fail (rp_models r))"

definition total_no_response :: "run_report \<Rightarrow> nat" where
  "total_no_response r = sum_list (map mo_no_response (rp_models r))"

definition total_error :: "run_report \<Rightarrow> nat" where
  "total_error r = sum_list (map mo_error (rp_models r))"

definition total_scored :: "run_report \<Rightarrow> nat" where
  "total_scored r = sum_list (map mo_scored (rp_models r))"

section \<open>Reading a run\<close>

definition as_report :: "'a rres \<Rightarrow> 'a pres_report" where
  "as_report r = map_errE (\<lambda>e. case e of RunError x \<Rightarrow> ReportError (FromRunStore x) | _ \<Rightarrow> ReportRaw e) r"

definition open_run_store ::
    "nat \<Rightarrow> out_dir \<Rightarrow> string \<Rightarrow> ((string \<times> json) list \<times> run_row list) pres_report" where
  "open_run_store limit od run_id =
     bindE (as_report (resolve_run_dir od run_id)) (\<lambda>_.
     case od_runs od run_id of
       None \<Rightarrow> report_fail (RunNotFound run_id)
     | Some st \<Rightarrow>
         bindE (as_report (read_manifest st)) (\<lambda>m.
         bindE (as_report (read_rows limit (rs_rows st))) (\<lambda>(rows, torn). Inr (m, rows))))"

definition manifest_str :: "(string \<times> json) list \<Rightarrow> string \<Rightarrow> string pres_report" where
  "manifest_str m k = (case fld m k of JStr s \<Rightarrow> Inr s | _ \<Rightarrow> report_fail (ManifestFieldNotText k))"

definition manifest_roster :: "(json \<Rightarrow> string) \<Rightarrow> (string \<times> json) list \<Rightarrow> string list pres_report" where
  "manifest_roster pstr m = (case fld m ''roster'' of
     JList vs \<Rightarrow> Inr (map (\<lambda>v. case v of JStr s \<Rightarrow> s | _ \<Rightarrow> pstr v) vs)
   | _ \<Rightarrow> report_fail ManifestRosterNotList)"

definition evidence_of :: "externals \<Rightarrow> receipt \<Rightarrow> execution_evidence" where
  "evidence_of ext r = \<lparr>ev_profile_id = rc_profile_id r, ev_sealing_mode = rc_sealing_mode r,
     ev_execution_sha = rc_execution_sha r, ev_provider_sha = rc_provider_sha r,
     ev_context_sha = rc_context_sha r, ev_receipt_sha = receipt_sha256 ext r,
     ev_claude = map_option (\<lambda>e. (ce_executable e, ce_version e)) (rc_claude r),
     ev_bindings = map (\<lambda>b. (mb_alias b, provider_name (mb_provider b), mb_requested b)) (rc_bindings r),
     ev_gemini = rc_gemini r\<rparr>"

definition build_execution_evidence ::
    "externals \<Rightarrow> (string \<times> json) list \<Rightarrow> execution_evidence option pres_report" where
  "build_execution_evidence ext m =
     bindE (as_report (read_execution_receipt ext m)) (\<lambda>r. Inr (map_option (evidence_of ext) r))"

section \<open>One model\<close>

definition score_number_of :: "json \<Rightarrow> report_score pres_report" where
  "score_number_of v = (case v of
     JInt n \<Rightarrow> Inr (Score (of_int n))
   | JBool b \<Rightarrow> Inr (Score (if b then 1 else 0))
   | JFloat f \<Rightarrow> Inr (case flt_val f of Some q \<Rightarrow> Score q | None \<Rightarrow> NonFinite)
   | _ \<Rightarrow> Inl (ReportRaw RawTypeError))"

definition mean_score :: "report_score list \<Rightarrow> report_score" where
  "mean_score xs = (if NonFinite \<in> set xs then NonFinite
     else (let qs = map (\<lambda>x. case x of Score q \<Rightarrow> q | NonFinite \<Rightarrow> 0) xs
           in Score (100 * (sum_list qs / of_nat (length qs)))))"

definition stored_identity :: "json \<Rightarrow> string pres_report" where
  "stored_identity v = (case v of
     JStr s \<Rightarrow> Inr (if strip s = [] then ''(blank identity)'' else s)
   | _ \<Rightarrow> report_fail IdentityNotText)"

text \<open>\<open>sorted\<close> of a set of strings.\<close>

definition sorted_set :: "string list \<Rightarrow> string list" where
  "sorted_set xs = sort (remdups xs)"

definition distinct_items :: "run_row list \<Rightarrow> nat pres_report" where
  "distinct_items rows =
     (if list_ex (\<lambda>r. hash_key (rr_item_id r) = None) rows then Inl (ReportRaw RawTypeError)
      else Inr (length (remdups (map (\<lambda>r. hash_key (rr_item_id r)) rows))))"

definition model_report_of ::
    "string \<Rightarrow> run_row list \<Rightarrow> execution_evidence option \<Rightarrow> string list \<Rightarrow> nat \<Rightarrow> report_score list \<Rightarrow> model_report"
  where
  "model_report_of model rows execution stored items scores =
     (let binding = Option.bind execution (\<lambda>ev. evidence_binding_for ev model);
          concrete = (\<lambda>v. case binding of None \<Rightarrow> False | Some (p, _) \<Rightarrow> is_concrete_provider_identity v p);
          resolved = sorted_set (map (\<lambda>r. the_str (rr_resolved r)) (filter (\<lambda>r. concrete (rr_resolved r)) rows));
          unresolved = (resolved = [] \<or> (binding \<noteq> None \<and> list_ex (\<lambda>r. \<not> concrete (rr_resolved r)) rows));
          preliminary = (execution \<noteq> None \<and> binding \<noteq> None \<and> \<not> unresolved)
      in \<lparr>mo_model = model, mo_cells = length rows, mo_scored = length scores, mo_items = items,
          mo_score = (if scores = [] then None else Some (mean_score scores)),
          mo_no_response = length (filter is_no_response_row rows),
          mo_parse_fail = length (filter (\<lambda>r. rr_parsed r = JStr PARSE_FAIL_MARKER) rows),
          mo_error = length (filter (\<lambda>r. rr_error r \<noteq> JNull) rows),
          mo_provider = map_option fst binding, mo_requested = map_option snd binding,
          mo_stored = sorted_set stored, mo_resolved = resolved,
          mo_provenance = (if execution = None then UNVERIFIED_LEGACY
            else if binding = None then ''UNBOUND_RECEIPT_IDENTITY''
            else if \<not> unresolved then ''PROVIDER_CONFIRMED'' else ''PROVIDER_IDENTITY_UNRESOLVED''),
          mo_unresolved = unresolved,
          mo_routing = (if preliminary then None else Some False)\<rparr>)"

definition model_rollup ::
    "string \<Rightarrow> run_row list \<Rightarrow> execution_evidence option \<Rightarrow> model_report pres_report" where
  "model_rollup model rows execution =
     bindE (mapE stored_identity (map rr_resolved rows)) (\<lambda>stored.
     bindE (distinct_items rows) (\<lambda>items.
     bindE (mapE score_number_of (map rr_score (filter (\<lambda>r. rr_score r \<noteq> JNull) rows))) (\<lambda>scores.
       Inr (model_report_of model rows execution stored items scores))))"

section \<open>One run, and a comparison\<close>

definition row_model :: "run_row \<Rightarrow> string pres_report" where
  "row_model r = (case rr_model r of JStr s \<Rightarrow> Inr s | _ \<Rightarrow> Inl (ReportRaw RawTypeError))"

definition ordered_models :: "string list \<Rightarrow> string list \<Rightarrow> string list" where
  "ordered_models roster seen = roster @ filter (\<lambda>m. m \<notin> set roster) (sorted_set seen)"

definition build_run_report ::
    "externals \<Rightarrow> nat \<Rightarrow> (json \<Rightarrow> string) \<Rightarrow> out_dir \<Rightarrow> string \<Rightarrow> run_report pres_report" where
  "build_run_report ext limit pstr od run_id =
     bindE (open_run_store limit od run_id) (\<lambda>(m, rows).
     bindE (manifest_roster pstr m) (\<lambda>roster.
     bindE (build_execution_evidence ext m) (\<lambda>execution.
     bindE (mapE row_model rows) (\<lambda>seen.
     bindE (mapE (\<lambda>model. model_rollup model (filter (\<lambda>r. rr_model r = JStr model) rows) execution)
              (ordered_models roster seen)) (\<lambda>models.
     bindE (manifest_str m ''run_id'') (\<lambda>rid.
     bindE (manifest_str m ''suite'') (\<lambda>s.
     bindE (manifest_str m ''suite_hash'') (\<lambda>h.
     bindE (manifest_str m ''started_utc'') (\<lambda>started.
       Inr \<lparr>rp_run_id = rid, rp_suite = s, rp_suite_hash = h, rp_started = started, rp_roster = roster,
            rp_models = models, rp_execution = execution\<rparr>)))))))))"

record comparison_report =
  cp_suite :: string
  cp_suite_hash :: string
  cp_runs :: "run_report list"
  cp_models :: "string list"

definition receipt_hashes :: "(string \<times> (execution_evidence \<Rightarrow> string)) list" where
  "receipt_hashes = [(''execution_profile_sha256'', ev_execution_sha), (''provider_profile_sha256'', ev_provider_sha),
     (''context_profile_sha256'', ev_context_sha), (''receipt_sha256'', ev_receipt_sha)]"

text \<open>The checks of the loop over the other reports, in order.\<close>

definition comparable :: "run_report \<Rightarrow> run_report \<Rightarrow> unit pres_report" where
  "comparable base r =
     (if rp_suite_hash r \<noteq> rp_suite_hash base then report_fail (SuiteHashMismatch (rp_run_id base) (rp_run_id r))
      else if (rp_execution base = None) \<noteq> (rp_execution r = None)
      then report_fail (SealMismatch (rp_run_id base) (rp_run_id r))
      else (case (rp_execution base, rp_execution r) of
              (Some x, Some y) \<Rightarrow>
                (case find (\<lambda>(_, h). h x \<noteq> h y) receipt_hashes of
                   Some (field, _) \<Rightarrow> report_fail (ReceiptFieldMismatch field (rp_run_id base) (rp_run_id r))
                 | None \<Rightarrow> Inr ())
            | _ \<Rightarrow> Inr ()))"

definition build_comparison ::
    "externals \<Rightarrow> nat \<Rightarrow> (json \<Rightarrow> string) \<Rightarrow> out_dir \<Rightarrow> string list \<Rightarrow> comparison_report pres_report" where
  "build_comparison ext limit pstr od run_ids =
     (if run_ids = [] then report_fail NoRunIds
      else
        bindE (mapE (build_run_report ext limit pstr od) run_ids) (\<lambda>reports.
        bindE (seqE (map (comparable (hd reports)) (tl reports))) (\<lambda>_.
          Inr \<lparr>cp_suite = rp_suite (hd reports), cp_suite_hash = rp_suite_hash (hd reports), cp_runs = reports,
               cp_models = sorted_set (concat (map (\<lambda>r. map mo_model (rp_models r)) reports))\<rparr>)))"

section \<open>Rendering\<close>

text \<open>
  \<open>em\<close> is the text of the dash U+2014, \<open>show_flt\<close> is \<open>str\<close> of a float.  The replacements of \<open>_md_cell\<close> never
  produce a character a later one replaces, so they act on each character by itself.
\<close>

definition fmt_score :: "(report_score \<Rightarrow> string) \<Rightarrow> report_score option \<Rightarrow> string" where
  "fmt_score fmt1 sc = (case sc of None \<Rightarrow> ''n/a'' | Some x \<Rightarrow> fmt1 x)"

definition html_char :: "char \<Rightarrow> string" where
  "html_char c = (if c = CHR ''&'' then ''&amp;'' else if c = CHR ''<'' then ''&lt;''
     else if c = CHR ''>'' then ''&gt;'' else if c = CHR 0x22 then ''&quot;''
     else if c = CHR 0x27 then ''&#x27;'' else [c])"

definition html_escape :: "string \<Rightarrow> string" where
  "html_escape s = concat (map html_char s)"

definition md_char :: "char \<Rightarrow> string" where
  "md_char c = (if c \<in> {CHR 0x5C, CHR ''|'', CHR 0x60, CHR ''!'', CHR ''['', CHR '']'', CHR ''('', CHR '')''}
     then [CHR 0x5C, c] else if c = CHR 0x0D then '' '' else if c = newline then ''<br>'' else [c])"

definition md_cell :: "string \<Rightarrow> string" where
  "md_cell s = concat (map md_char (html_escape s))"

text \<open>The longest run of backticks.\<close>

fun longest_ticks :: "nat \<Rightarrow> string \<Rightarrow> nat" where
  "longest_ticks n [] = n"
| "longest_ticks n (c # s) = (if c = CHR 0x60 then longest_ticks (Suc n) s else max n (longest_ticks 0 s))"

definition md_code :: "string \<Rightarrow> string" where
  "md_code s = (let safe = map (\<lambda>c. if c = CHR 0x0D \<or> c = newline then CHR '' '' else c) (html_escape s);
       fence = replicate (longest_ticks 0 safe + 1) (CHR 0x60);
       padded = (if safe \<noteq> [] \<and> (hd safe = CHR 0x60 \<or> last safe = CHR 0x60) then '' '' @ safe @ '' '' else safe)
     in fence @ padded @ fence)"

definition fmt_identities :: "string list \<Rightarrow> string" where
  "fmt_identities vs = (if vs = [] then ''(none)'' else join '', '' (map md_cell vs))"

definition str_or :: "string option \<Rightarrow> string \<Rightarrow> string" where
  "str_or v d = (case v of Some s \<Rightarrow> (if s = [] then d else s) | None \<Rightarrow> d)"

definition identity_row :: "model_report \<Rightarrow> string" where
  "identity_row m = ''| '' @ join '' | '' [md_cell (mo_model m), md_cell (str_or (mo_provider m) ''(legacy)''),
     md_cell (str_or (mo_requested m) ''(legacy)''), fmt_identities (mo_resolved m), fmt_identities (mo_stored m),
     mo_provenance m, eligibility m] @ '' |''"

definition tick :: "string \<Rightarrow> string" where
  "tick s = ''`'' @ s @ ''`''"

definition evidence_lines :: "string \<Rightarrow> (flt \<Rightarrow> string) \<Rightarrow> execution_evidence \<Rightarrow> string list" where
  "evidence_lines em show_flt ev =
     [''- **Seal:** '' @ tick (ev_sealing_mode ev) @ '' '' @ em @ '' profile '' @ tick (ev_profile_id ev),
      ''- **Execution-profile hash:** '' @ tick (ev_execution_sha ev),
      ''- **Provider-profile hash:** '' @ tick (ev_provider_sha ev),
      ''- **Context-profile hash:** '' @ tick (ev_context_sha ev),
      ''- **Receipt hash:** '' @ tick (ev_receipt_sha ev),
      ''- **Claude CLI:** '' @ (case ev_claude ev of None \<Rightarrow> ''(no Claude bindings)''
         | Some (exe, version) \<Rightarrow> md_code exe @ '' (version '' @ md_code version @ '')'')] @
     (case ev_gemini ev of None \<Rightarrow> []
      | Some g \<Rightarrow> [''- **Gemini request:** '' @ tick (gc_contract g) @ '' (maxOutputTokens '' @
          show_int (gc_max_output_tokens g) @ '', thinking '' @ gc_thinking_level g @ '', timeout '' @
          show_flt (gc_timeout g) @ ''s)'']) @
     [''- **Routing:** preliminary seal and identity evidence only; Step 59 must assess validity.'', []]"

definition legacy_lines :: "string \<Rightarrow> string list" where
  "legacy_lines em =
     [''- **Seal:** '' @ tick LEGACY_UNSEALED @ '' '' @ em @ '' this run carries no execution receipt.'',
      ''- **Routing:** '' @ tick NOT_ROUTING_ELIGIBLE @
        '' for every arm; official scores below are shown unchanged for reference only and are not comparable to sealed runs.'',
      []]"

definition execution_lines :: "string \<Rightarrow> (flt \<Rightarrow> string) \<Rightarrow> run_report \<Rightarrow> string list" where
  "execution_lines em show_flt r =
     [''## Execution receipt & identity'', []] @
     (case rp_execution r of None \<Rightarrow> legacy_lines em | Some ev \<Rightarrow> evidence_lines em show_flt ev) @
     [''| Model | Provider | Requested | Resolved identity | Stored identity | Provenance | Status |'',
      ''|---|---|---|---|---|---|---|''] @
     map identity_row (rp_models r) @ [[]]"

definition score_row :: "(report_score \<Rightarrow> string) \<Rightarrow> model_report \<Rightarrow> string" where
  "score_row fmt1 m = ''| '' @ join '' | '' [mo_model m, fmt_score fmt1 (mo_score m), show_nat (mo_items m),
     show_nat (mo_scored m), show_nat (mo_no_response m), show_nat (mo_parse_fail m), show_nat (mo_error m)] @ '' |''"

definition render_run_report ::
    "string \<Rightarrow> (flt \<Rightarrow> string) \<Rightarrow> (report_score \<Rightarrow> string) \<Rightarrow> run_report \<Rightarrow> string" where
  "render_run_report em show_flt fmt1 r = join [newline]
     ([''# measure-twice run report: '' @ rp_run_id r, [],
       ''- **Suite:** '' @ rp_suite r @ '' ('' @ tick (rp_suite_hash r) @ '')'',
       ''- **Roster:** '' @ (if rp_roster r = [] then ''(none)'' else join '', '' (rp_roster r)),
       ''- **Started (UTC):** '' @ rp_started r,
       ''- **Seal:** '' @ tick (seal_status r), []] @
      execution_lines em show_flt r @
      [''## Scores'', [],
       ''| Model | Score (0-100) | Items | Scored | No-response | Parse-fail | Error/defer |'',
       ''|---|---|---|---|---|---|---|''] @
      map (score_row fmt1) (rp_models r) @ [[]])"

text \<open>A dictionary comprehension keeps the last entry of a repeated model.\<close>

definition comparison_cell :: "(report_score \<Rightarrow> string) \<Rightarrow> string \<Rightarrow> run_report \<Rightarrow> string" where
  "comparison_cell fmt1 model r = (case map_of (rev (map (\<lambda>m. (mo_model m, mo_score m)) (rp_models r))) model of
     Some sc \<Rightarrow> fmt_score fmt1 sc | None \<Rightarrow> ''-'')"

definition render_comparison ::
    "string \<Rightarrow> (flt \<Rightarrow> string) \<Rightarrow> (report_score \<Rightarrow> string) \<Rightarrow> comparison_report \<Rightarrow> string" where
  "render_comparison em show_flt fmt1 c = join [newline]
     ([''# measure-twice cross-run comparison'', [],
       ''- **Suite:** '' @ cp_suite c @ '' ('' @ tick (cp_suite_hash c) @ '')'',
       ''- **Runs compared:** '' @ show_nat (length (cp_runs c)) @ '' (equal suite and execution hashes)'', [],
       ''| Model | '' @ join '' | '' (map rp_run_id (cp_runs c)) @ '' |'',
       concat (replicate (length (cp_runs c) + 1) ''|---'') @ ''|''] @
      map (\<lambda>model. ''| '' @ model @ '' | '' @ join '' | '' (map (comparison_cell fmt1 model) (cp_runs c)) @ '' |'')
        (cp_models c) @ [[]] @
      concat (map (\<lambda>r. [''## Run '' @ rp_run_id r, [], ''- **Seal:** '' @ tick (seal_status r), []] @
        execution_lines em show_flt r) (cp_runs c)))"

definition str_or_null :: "string option \<Rightarrow> json" where
  "str_or_null v = (case v of None \<Rightarrow> JNull | Some s \<Rightarrow> JStr s)"

definition ev_field :: "(execution_evidence \<Rightarrow> string) \<Rightarrow> run_report \<Rightarrow> json" where
  "ev_field g r = str_or_null (map_option g (rp_execution r))"

definition gemini_field :: "(gemini_context \<Rightarrow> json) \<Rightarrow> run_report \<Rightarrow> json" where
  "gemini_field g r = (case Option.bind (rp_execution r) ev_gemini of None \<Rightarrow> JNull | Some x \<Rightarrow> g x)"

definition model_json :: "(report_score \<Rightarrow> flt) \<Rightarrow> run_report \<Rightarrow> model_report \<Rightarrow> json" where
  "model_json fl r m = JObj [
     (''run_id'', JStr (rp_run_id r)), (''suite'', JStr (rp_suite r)), (''suite_hash'', JStr (rp_suite_hash r)),
     (''model'', JStr (mo_model m)), (''suite_score'', case mo_score m of None \<Rightarrow> JNull | Some x \<Rightarrow> JFloat (fl x)),
     (''n_items'', JInt (int (mo_items m))), (''n_cells'', JInt (int (mo_cells m))),
     (''n_scored'', JInt (int (mo_scored m))), (''n_no_response'', JInt (int (mo_no_response m))),
     (''n_parse_fail'', JInt (int (mo_parse_fail m))), (''n_error'', JInt (int (mo_error m))),
     (''sealed'', JBool (sealed r)), (''seal_status'', JStr (seal_status r)),
     (''provider'', str_or_null (mo_provider m)), (''requested_model'', str_or_null (mo_requested m)),
     (''stored_identities'', strs_json (mo_stored m)), (''resolved_identities'', strs_json (mo_resolved m)),
     (''identity_provenance'', JStr (mo_provenance m)), (''identity_unresolved'', JBool (mo_unresolved m)),
     (''routing_eligible'', case mo_routing m of None \<Rightarrow> JNull | Some b \<Rightarrow> JBool b),
     (''eligibility'', JStr (eligibility m)),
     (''profile_id'', ev_field ev_profile_id r), (''execution_profile_sha256'', ev_field ev_execution_sha r),
     (''provider_profile_sha256'', ev_field ev_provider_sha r),
     (''context_profile_sha256'', ev_field ev_context_sha r), (''receipt_sha256'', ev_field ev_receipt_sha r),
     (''claude_executable'', str_or_null (map_option fst (Option.bind (rp_execution r) ev_claude))),
     (''claude_version'', str_or_null (map_option snd (Option.bind (rp_execution r) ev_claude))),
     (''gemini_request_contract'', gemini_field (\<lambda>g. JStr (gc_contract g)) r),
     (''gemini_max_output_tokens'', gemini_field (\<lambda>g. JInt (gc_max_output_tokens g)) r),
     (''gemini_thinking_level'', gemini_field (\<lambda>g. JStr (gc_thinking_level g)) r),
     (''gemini_timeout_s'', gemini_field (\<lambda>g. JFloat (gc_timeout g)) r)]"

definition run_report_jsonl :: "(report_score \<Rightarrow> flt) \<Rightarrow> run_report \<Rightarrow> string" where
  "run_report_jsonl fl r = join [newline] (map (\<lambda>m. dumps (sort_json (model_json fl r m))) (rp_models r))"

section \<open>Comparisons\<close>

lemma comparable_Inr:
  assumes "comparable base r = Inr u"
  shows "rp_suite_hash r = rp_suite_hash base" and
    "(case (rp_execution base, rp_execution r) of
        (None, None) \<Rightarrow> True
      | (Some x, Some y) \<Rightarrow> ev_execution_sha x = ev_execution_sha y \<and> ev_provider_sha x = ev_provider_sha y \<and>
          ev_context_sha x = ev_context_sha y \<and> ev_receipt_sha x = ev_receipt_sha y
      | _ \<Rightarrow> False)"
  using assms
  by (auto simp: comparable_def receipt_hashes_def split: if_splits option.splits)

text \<open>C16: A comparison is only ever made of runs of one instrument: every run in it has the suite hash of
  the first, and either none of them carries an execution receipt or all do and their execution,
  provider, context and receipt hashes agree; the runs are the named ones, in the caller's order.\<close>

theorem compared_runs_match:
  assumes "build_comparison ext limit pstr od run_ids = Inr c"
  shows "run_ids \<noteq> [] \<and> list_all2 (\<lambda>rid r. build_run_report ext limit pstr od rid = Inr r) run_ids (cp_runs c) \<and>
    (\<forall>r \<in> set (cp_runs c). rp_suite_hash r = cp_suite_hash c) \<and>
    ((\<forall>r \<in> set (cp_runs c). rp_execution r = None) \<or>
     (\<exists>e p x h. \<forall>r \<in> set (cp_runs c). \<exists>ev. rp_execution r = Some ev \<and>
        (ev_execution_sha ev, ev_provider_sha ev, ev_context_sha ev, ev_receipt_sha ev) = (e, p, x, h)))"
proof -
  from assms have ids: "run_ids \<noteq> []" and reps: "mapE (build_run_report ext limit pstr od) run_ids = Inr (cp_runs c)"
    and chk: "\<forall>r \<in> set (tl (cp_runs c)). \<exists>u. comparable (hd (cp_runs c)) r = Inr u"
    and h: "cp_suite_hash c = rp_suite_hash (hd (cp_runs c))"
    by (auto simp: build_comparison_def bindE_Inr_iff seqE_Inr_iff list_all_iff split: if_splits)
  have "cp_runs c \<noteq> []" using ids mapE_length [OF reps] by auto
  then obtain base rest where rs: "cp_runs c = base # rest" by (cases "cp_runs c") auto
  have "\<forall>r \<in> set rest. rp_suite_hash r = rp_suite_hash base"
    using chk comparable_Inr(1) by (auto simp: rs)
  moreover have "(\<forall>r \<in> set (base # rest). rp_execution r = None) \<or>
     (\<exists>e p x h. \<forall>r \<in> set (base # rest). \<exists>ev. rp_execution r = Some ev \<and>
        (ev_execution_sha ev, ev_provider_sha ev, ev_context_sha ev, ev_receipt_sha ev) = (e, p, x, h))"
  proof (cases "rp_execution base")
    case None
    then show ?thesis using chk comparable_Inr(2) by (fastforce simp: rs split: option.splits)
  next
    case (Some ev)
    then have "\<forall>r \<in> set rest. \<exists>ev'. rp_execution r = Some ev' \<and> (ev_execution_sha ev', ev_provider_sha ev',
        ev_context_sha ev', ev_receipt_sha ev') = (ev_execution_sha ev, ev_provider_sha ev, ev_context_sha ev, ev_receipt_sha ev)"
      using chk comparable_Inr(2) by (fastforce simp: rs split: option.splits)
    with Some show ?thesis
      by (intro disjI2 exI [of _ "ev_execution_sha ev"] exI [of _ "ev_provider_sha ev"]
          exI [of _ "ev_context_sha ev"] exI [of _ "ev_receipt_sha ev"]) simp
  qed
  ultimately show ?thesis using ids reps h by (simp add: rs mapE_Inr_iff)
qed

section \<open>The roll-up keeps the books\<close>

lemma sorted_set_simps [simp]: "set (sorted_set xs) = set xs" "sorted_set xs = [] \<longleftrightarrow> xs = []"
  by (simp_all add: sorted_set_def sort_eq_Nil)

lemma concrete_is_text: "is_concrete_provider_identity v p \<Longrightarrow> v = JStr (the_str v)"
  by (cases v) (simp_all add: is_concrete_provider_identity_def)

lemma model_rollup_Inr:
  assumes "model_rollup model rows execution = Inr m"
  obtains stored items scores where "distinct_items rows = Inr items"
    and "mapE score_number_of (map rr_score (filter (\<lambda>r. rr_score r \<noteq> JNull) rows)) = Inr scores"
    and "m = model_report_of model rows execution stored items scores"
  using assms by (auto simp: model_rollup_def bindE_Inr_iff)

lemma model_report_of_simps [simp]:
  "mo_model (model_report_of model rows x st n sc) = model" "mo_cells (model_report_of model rows x st n sc) = length rows"
  "mo_scored (model_report_of model rows x st n sc) = length sc" "mo_items (model_report_of model rows x st n sc) = n"
  "mo_score (model_report_of model rows x st n sc) = (if sc = [] then None else Some (mean_score sc))"
  by (simp_all add: model_report_of_def Let_def)

lemma bound_model:
  assumes "execution = Some ev" and "evidence_binding_for ev model = Some (p, q)"
    and "m = model_report_of model rows execution stored items scores"
  shows "mo_provider m = Some p" and "mo_requested m = Some q"
    and "mo_resolved m = sorted_set (map (\<lambda>r. the_str (rr_resolved r))
        (filter (\<lambda>r. is_concrete_provider_identity (rr_resolved r) p) rows))"
    and "mo_routing m = None \<longleftrightarrow> rows \<noteq> [] \<and> (\<forall>r \<in> set rows. is_concrete_provider_identity (rr_resolved r) p)"
  using assms by (cases rows; auto simp: model_report_of_def Let_def list_ex_iff filter_empty_conv)+

lemma unbound_model:
  "Option.bind execution (\<lambda>ev. evidence_binding_for ev model) = None \<Longrightarrow>
     mo_routing (model_report_of model rows execution stored items scores) = Some False"
  by (simp add: model_report_of_def Let_def)

lemma build_run_report_Inr:
  assumes "build_run_report ext limit pstr od run_id = Inr r"
  obtains st m rows torn seen where "od_runs od run_id = Some st" and "read_manifest st = Inr m"
    and "read_rows limit (rs_rows st) = Inr (rows, torn)" and "map rr_model rows = map JStr seen"
    and "manifest_roster pstr m = Inr (rp_roster r)"
    and "list_all2 (\<lambda>model mr. model_rollup model (filter (\<lambda>row. rr_model row = JStr model) rows) (rp_execution r) = Inr mr)
      (ordered_models (rp_roster r) seen) (rp_models r)"
    and "build_execution_evidence ext m = Inr (rp_execution r)"
proof -
  have seen: "mapE row_model rows = Inr ks \<Longrightarrow> map rr_model rows = map JStr ks" for rows ks
    unfolding mapE_Inr_iff
    by (induction rule: list_all2_induct) (auto simp: row_model_def split: json.splits)
  show ?thesis
    using assms that
    by (auto simp: build_run_report_def open_run_store_def as_report_def bindE_Inr_iff map_errE_Inr_iff
        mapE_Inr_iff [symmetric] dest: seen split: option.splits)
qed

lemma rollup_models:
  assumes "list_all2 (\<lambda>model mr. model_rollup model (g model) x = Inr mr) names models"
  shows "map mo_model models = names" and "map mo_cells models = map (\<lambda>k. length (g k)) names"
    and "map mo_scored models = map (\<lambda>k. length (filter (\<lambda>r. rr_score r \<noteq> JNull) (g k))) names"
  using assms
  by (induction rule: list_all2_induct) (auto elim!: model_rollup_Inr dest: mapE_length)

lemma list_all2_right: "list_all2 P xs ys \<Longrightarrow> y \<in> set ys \<Longrightarrow> \<exists>x \<in> set xs. P x y"
  by (induction rule: list_all2_induct) auto

lemma sum_by_key:
  "sum_list (map (\<lambda>k. length (filter (\<lambda>x. f x = k) xs)) ks) = sum_list (map (\<lambda>x. count_list ks (f x)) xs)"
proof (induction xs)
  case (Cons x xs)
  have one: "sum_list (map (\<lambda>k. if f x = k then Suc 0 else 0) ks) = count_list ks (f x)"
    by (induction ks) auto
  have "sum_list (map (\<lambda>k. length (filter (\<lambda>x. f x = k) (x # xs))) ks)
      = sum_list (map (\<lambda>k. (if f x = k then Suc 0 else 0) + length (filter (\<lambda>x. f x = k) xs)) ks)"
    by (rule arg_cong [where f = sum_list]) auto
  also have "\<dots> = sum_list (map (\<lambda>x. count_list ks (f x)) (x # xs))" using Cons one by (simp add: sum_list_addf)
  finally show ?case .
qed simp

lemma count_distinct: "distinct ks \<Longrightarrow> count_list ks k = (if k \<in> set ks then 1 else 0)"
  by (induction ks) auto

text \<open>A row is in the books of its model as often as the roster names the model, and once when it does not.\<close>

lemma count_ordered:
  "k \<in> set (ordered_models roster seen) \<Longrightarrow> count_list (ordered_models roster seen) k = max 1 (count_list roster k)"
  by (auto simp: ordered_models_def sorted_set_def count_distinct count_list_0_iff max_def Suc_le_eq neq0_conv [symmetric]
      simp del: neq0_conv)

text \<open>A score that is a number of the unit interval.\<close>

definition unit_number :: "json \<Rightarrow> bool" where
  "unit_number v \<longleftrightarrow> (case score_number_of v of Inr (Score q) \<Rightarrow> 0 \<le> q \<and> q \<le> 1 | _ \<Rightarrow> False)"

lemma mean_score_range:
  assumes "mapE score_number_of vs = Inr scores" and "\<forall>v \<in> set vs. unit_number v" and "scores \<noteq> []"
  shows "\<exists>q. mean_score scores = Score q \<and> 0 \<le> q \<and> q \<le> 100"
proof -
  have fine: "\<forall>x \<in> set scores. \<exists>q. x = Score q \<and> 0 \<le> q \<and> q \<le> 1"
    using assms(1,2) unfolding mapE_Inr_iff
    by (induction rule: list_all2_induct) (auto simp: unit_number_def split: report_score.splits)
  let ?qs = "map (\<lambda>x. case x of Score q \<Rightarrow> q | NonFinite \<Rightarrow> 0) scores"
  have "\<forall>q \<in> set ?qs. 0 \<le> q \<and> q \<le> 1" "?qs \<noteq> []" using fine assms(3) by auto
  from sum_list_bounds [OF this(1)] have "0 \<le> sum_list ?qs" "sum_list ?qs \<le> of_nat (length scores)" by simp_all
  moreover have "NonFinite \<notin> set scores" using fine by auto
  moreover have "(0 :: rat) < of_nat (length scores)" using assms(3) by simp
  ultimately show ?thesis by (simp add: mean_score_def Let_def divide_le_eq)
qed

text \<open>C15: The report of a run keeps the books of its log: it reports the models of the stored roster in order, then in
  sorted order and once each the other models of the log; every model has the cells and the scored cells that the log
  has rows and scored rows of it; over all models the cells add up to the rows of the log, each counted as often as the
  roster names its model and once when it does not, and so exactly to the number of rows when no name of the roster is
  repeated, and the same holds for the scored cells; and when every stored score is a number from 0 to 1 every suite
  score lies between 0 and 100.\<close>

theorem report_keeps_books:
  assumes "build_run_report ext limit pstr od run_id = Inr r"
  shows "\<exists>st rows torn extra. od_runs od run_id = Some st \<and> read_rows limit (rs_rows st) = Inr (rows, torn) \<and>
    map mo_model (rp_models r) = rp_roster r @ extra \<and> sorted extra \<and> distinct extra \<and>
    set extra = {k. \<exists>row\<in>set rows. rr_model row = JStr k} - set (rp_roster r) \<and>
    (\<forall>m\<in>set (rp_models r). mo_cells m = length (filter (\<lambda>row. rr_model row = JStr (mo_model m)) rows) \<and>
      mo_scored m = length (filter (\<lambda>row. rr_model row = JStr (mo_model m) \<and> rr_score row \<noteq> JNull) rows)) \<and>
    (let times = (\<lambda>row. max 1 (count_list (rp_roster r) (the_str (rr_model row)))) in
      sum_list (map mo_cells (rp_models r)) = sum_list (map times rows) \<and>
      total_scored r = sum_list (map times (filter (\<lambda>row. rr_score row \<noteq> JNull) rows))) \<and>
    (distinct (rp_roster r) \<longrightarrow> sum_list (map mo_cells (rp_models r)) = length rows \<and>
      total_scored r = length (filter (\<lambda>row. rr_score row \<noteq> JNull) rows)) \<and>
    ((\<forall>row \<in> set rows. rr_score row \<noteq> JNull \<longrightarrow> unit_number (rr_score row)) \<longrightarrow>
      (\<forall>m \<in> set (rp_models r). \<forall>x. mo_score m = Some x \<longrightarrow> (\<exists>q. x = Score q \<and> 0 \<le> q \<and> q \<le> 100)))"
proof -
  from build_run_report_Inr [OF assms(1)] obtain st m rows torn seen where
      st: "od_runs od run_id = Some st" "read_rows limit (rs_rows st) = Inr (rows, torn)"
    and seen: "map rr_model rows = map JStr seen"
    and l: "list_all2 (\<lambda>model mr. model_rollup model (filter (\<lambda>row. rr_model row = JStr model) rows) (rp_execution r) = Inr mr)
      (ordered_models (rp_roster r) seen) (rp_models r)" .
  let ?names = "ordered_models (rp_roster r) seen" and ?extra = "filter (\<lambda>m. m \<notin> set (rp_roster r)) (sorted_set seen)"
  let ?times = "\<lambda>row. max 1 (count_list (rp_roster r) (the_str (rr_model row)))"
  have "set (map rr_model rows) = JStr ` set seen" unfolding seen by simp
  then have mods: "rr_model ` set rows = JStr ` set seen" by simp
  have logged: "k \<in> set seen \<longleftrightarrow> (\<exists>row\<in>set rows. rr_model row = JStr k)" for k
  proof -
    have "k \<in> set seen \<longleftrightarrow> JStr k \<in> rr_model ` set rows" unfolding mods by auto
    then show ?thesis unfolding image_iff eq_commute [of "JStr k"] .
  qed
  have "set ?names = set (rp_roster r) \<union> set seen" by (auto simp: ordered_models_def)
  moreover have "\<exists>s\<in>set seen. rr_model row = JStr s" if "row \<in> set rows" for row
    using that mods by (metis imageE imageI)
  ultimately have ks: "\<forall>row \<in> set rows. the_str (rr_model row) \<in> set ?names \<and> rr_model row = JStr (the_str (rr_model row))"
    by fastforce
  have same: "filter (\<lambda>row. rr_model row = JStr k) rs = filter (\<lambda>row. the_str (rr_model row) = k) rs"
    if "set rs \<subseteq> set rows" for k rs
    by (rule filter_cong [OF refl]) (metis ks that subsetD the_str.simps(1))
  note rm = rollup_models [OF l]
  have names: "map mo_model (rp_models r) = rp_roster r @ ?extra" unfolding rm(1) by (simp add: ordered_models_def)
  have extra: "sorted ?extra" "distinct ?extra" "set ?extra = {k. \<exists>row\<in>set rows. rr_model row = JStr k} - set (rp_roster r)"
    using logged by (auto simp: sorted_set_def intro: sorted_wrt_filter)
  have each: "mo_cells mr = length (filter (\<lambda>row. rr_model row = JStr (mo_model mr)) rows) \<and>
      mo_scored mr = length (filter (\<lambda>row. rr_model row = JStr (mo_model mr) \<and> rr_score row \<noteq> JNull) rows)"
    if "mr \<in> set (rp_models r)" for mr
    using list_all2_right [OF l that] by (auto elim!: model_rollup_Inr dest!: mapE_length simp: conj_commute)
  have times: "sum_list (map (\<lambda>row. count_list ?names (the_str (rr_model row))) rs) = sum_list (map ?times rs)"
    if "set rs \<subseteq> set rows" for rs
    using that ks by (intro arg_cong [where f = sum_list] map_cong refl count_ordered) auto
  have sums: "sum_list (map mo_cells (rp_models r)) = sum_list (map ?times rows)"
      "total_scored r = sum_list (map ?times (filter (\<lambda>row. rr_score row \<noteq> JNull) rows))"
    unfolding rm(2) total_scored_def rm(3)
    using sum_by_key [of "\<lambda>row. the_str (rr_model row)" rows ?names] times [of rows] same
      sum_by_key [of "\<lambda>row. the_str (rr_model row)" "filter (\<lambda>row. rr_score row \<noteq> JNull) rows" ?names]
      times [of "filter (\<lambda>row. rr_score row \<noteq> JNull) rows"]
    by (simp_all add: conj_commute)
  have once: "sum_list (map ?times rs) = length rs" if "distinct (rp_roster r)" for rs
    by (induction rs) (simp_all add: count_distinct [OF that])
  have single: "distinct (rp_roster r) \<longrightarrow> sum_list (map mo_cells (rp_models r)) = length rows \<and>
      total_scored r = length (filter (\<lambda>row. rr_score row \<noteq> JNull) rows)"
    unfolding sums using once by blast
  have "\<exists>q. x = Score q \<and> 0 \<le> q \<and> q \<le> 100"
    if unit: "\<forall>row \<in> set rows. rr_score row \<noteq> JNull \<longrightarrow> unit_number (rr_score row)" and "mr \<in> set (rp_models r)"
      and x: "mo_score mr = Some x" for mr x
  proof -
    from that(2) obtain model where "model_rollup model (filter (\<lambda>row. rr_model row = JStr model) rows)
        (rp_execution r) = Inr mr"
      using list_all2_right [OF l] by blast
    from model_rollup_Inr [OF this] obtain stored items scores where
        sc: "mapE score_number_of (map rr_score (filter (\<lambda>row. rr_score row \<noteq> JNull)
          (filter (\<lambda>row. rr_model row = JStr model) rows))) = Inr scores"
      and mr: "mr = model_report_of model (filter (\<lambda>row. rr_model row = JStr model) rows) (rp_execution r) stored items scores" .
    have "\<exists>q. mean_score scores = Score q \<and> 0 \<le> q \<and> q \<le> 100"
      by (rule mean_score_range [OF sc]) (use unit x in \<open>auto simp: mr split: if_splits\<close>)
    moreover have "x = mean_score scores" using x by (simp add: mr split: if_splits)
    ultimately show ?thesis by metis
  qed
  with st names extra each sums single show ?thesis
    by (intro exI [of _ st] exI [of _ rows] exI [of _ torn] exI [of _ ?extra]) (simp add: Let_def)
qed

section \<open>Identity and the composed report\<close>

text \<open>C17: A model is only ever reported with the preliminary seal status when the receipt binds it and every
  row of it - at least one - names a concrete identity under the provider of that binding, which is
  then the reported provider, and exactly those identities are the ones reported; a run without a
  receipt reports every model as not eligible.\<close>

theorem preliminary_is_confirmed:
  assumes "build_run_report ext limit pstr od run_id = Inr r" and "m \<in> set (rp_models r)"
    and "eligibility m = PRELIMINARY_SEAL_IDENTITY_OK"
  shows "\<exists>ev p q st rows torn. rp_execution r = Some ev \<and> evidence_binding_for ev (mo_model m) = Some (p, q) \<and>
    mo_provider m = Some p \<and> mo_requested m = Some q \<and>
    od_runs od run_id = Some st \<and> read_rows limit (rs_rows st) = Inr (rows, torn) \<and>
    (let mine = filter (\<lambda>row. rr_model row = JStr (mo_model m)) rows in mine \<noteq> [] \<and>
      (\<forall>row \<in> set mine. is_concrete_provider_identity (rr_resolved row) p) \<and>
      JStr ` set (mo_resolved m) = rr_resolved ` set mine)"
proof -
  from build_run_report_Inr [OF assms(1)] obtain st man rows torn seen where
      st: "od_runs od run_id = Some st" "read_rows limit (rs_rows st) = Inr (rows, torn)"
    and l: "list_all2 (\<lambda>model mr. model_rollup model (filter (\<lambda>row. rr_model row = JStr model) rows) (rp_execution r) = Inr mr)
      (ordered_models (rp_roster r) seen) (rp_models r)" .
  from list_all2_right [OF l assms(2)] obtain model where
      "model_rollup model (filter (\<lambda>row. rr_model row = JStr model) rows) (rp_execution r) = Inr m" by blast
  from model_rollup_Inr [OF this] obtain stored items scores where
      m: "m = model_report_of model (filter (\<lambda>row. rr_model row = JStr model) rows) (rp_execution r) stored items scores" .
  let ?mine = "filter (\<lambda>row. rr_model row = JStr model) rows"
  have routing: "mo_routing m = None" using assms(3)
    by (simp add: eligibility_def NOT_ROUTING_ELIGIBLE_def PRELIMINARY_SEAL_IDENTITY_OK_def split: if_splits)
  then obtain ev p q where b: "rp_execution r = Some ev" "evidence_binding_for ev model = Some (p, q)"
    using unbound_model [of "rp_execution r" model ?mine stored items scores] m
    by (cases "Option.bind (rp_execution r) (\<lambda>ev. evidence_binding_for ev model)") (auto simp: bind_eq_Some_conv)
  note f = bound_model [OF b m]
  have all: "?mine \<noteq> []" "\<forall>row \<in> set ?mine. is_concrete_provider_identity (rr_resolved row) p"
    using f(4) routing by simp_all
  then have "filter (\<lambda>r. is_concrete_provider_identity (rr_resolved r) p) ?mine = ?mine"
    by (intro filter_True) blast
  then have "JStr ` set (mo_resolved m) = (\<lambda>row. JStr (the_str (rr_resolved row))) ` set ?mine"
    by (simp only: f(3) sorted_set_simps set_map image_image)
  also have "\<dots> = rr_resolved ` set ?mine"
    using all(2) concrete_is_text by (intro image_cong [OF refl]) metis
  finally have "JStr ` set (mo_resolved m) = rr_resolved ` set ?mine" .
  moreover have "mo_model m = model" by (simp add: m)
  ultimately show ?thesis using b f(1,2) st all by (auto simp: Let_def)
qed

text \<open>The cells of a finished grid, model by model.\<close>

lemma hash_key_text: "hash_key v = Some (JStr s) \<longleftrightarrow> v = JStr s"
  by (cases "(v)" rule: hash_key.cases) (auto split: if_splits)

lemma row_key_parts:
  "row_cell_key r = Some (a, b, c) \<longleftrightarrow> hash_key (rr_model r) = Some a \<and> hash_key (rr_item_id r) = Some b \<and>
     hash_key (rr_sample_k r) = Some c"
  by (auto simp: row_cell_key_def split: option.splits)

definition model_keys :: "string \<Rightarrow> suite \<Rightarrow> int \<Rightarrow> cell_key option set" where
  "model_keys model s samples =
     (\<lambda>(i, k). Some (JStr model, JStr i, JInt (int k))) ` (it_id ` set (su_items s) \<times> {..<nat samples})"

lemma keys_of_model:
  assumes grid: "set (map row_cell_key rows) = Some ` grid_keys roster s samples" and m: "model \<in> set roster"
    and mine_def: "mine = filter (\<lambda>row. rr_model row = JStr model) rows"
  shows "set (map row_cell_key mine) = model_keys model s samples"
proof (intro set_eqI iffI)
  fix x
  assume "x \<in> set (map row_cell_key mine)"
  then obtain row where row: "row \<in> set rows" "rr_model row = JStr model" "x = row_cell_key row"
    by (auto simp: mine_def)
  then have "x \<in> Some ` grid_keys roster s samples" using grid by auto
  then obtain m i k where g: "x = Some (JStr m, JStr (it_id i), JInt k)" "i \<in> set (su_items s)" "0 \<le> k" "k < samples"
    by (auto simp: grid_keys_def)
  then have "m = model" using row by (auto simp: row_key_parts)
  then show "x \<in> model_keys model s samples" unfolding model_keys_def using g by (intro image_eqI [of _ _ "(it_id i, nat k)"]) auto
next
  fix x
  assume "x \<in> model_keys model s samples"
  then obtain i k where g: "x = Some (JStr model, JStr (it_id i), JInt (int k))" "i \<in> set (su_items s)" "k < nat samples"
    by (auto simp: model_keys_def)
  have "(JStr model, JStr (it_id i), JInt (int k)) \<in> grid_keys roster s samples" unfolding grid_keys_def
    by (intro CollectI exI [of _ model] exI [of _ i] exI [of _ "int k"]) (use g(2,3) m in auto)
  then have "x \<in> Some ` grid_keys roster s samples" using g(1) by blast
  then obtain row where row: "row \<in> set rows" "row_cell_key row = x" unfolding grid [symmetric] by auto
  then have "rr_model row = JStr model" using g(1) by (auto simp: row_key_parts hash_key_text)
  with row show "x \<in> set (map row_cell_key mine)" by (auto simp: mine_def)
qed

lemma grid_rows_of_model:
  assumes d: "distinct (map row_cell_key rows)" and grid: "set (map row_cell_key rows) = Some ` grid_keys roster s samples"
    and items: "distinct (map it_id (su_items s))" and "model \<in> set roster"
  defines "mine \<equiv> filter (\<lambda>row. rr_model row = JStr model) rows"
  shows "length mine = length (su_items s) * nat samples"
    and "1 \<le> samples \<Longrightarrow> distinct_items mine = Inr (length (su_items s))"
proof -
  let ?key = "\<lambda>(i, k). Some (JStr model, JStr i, JInt (int k))"
  let ?box = "it_id ` set (su_items s) \<times> {..<nat samples}"
  note keys = keys_of_model [OF grid assms(4) mine_def [THEN meta_eq_to_obj_eq], unfolded model_keys_def]
  have ids: "card (it_id ` set (su_items s)) = length (su_items s)"
    using items by (metis distinct_card length_map set_map)
  have "distinct (map row_cell_key mine)" unfolding mine_def using d by (rule distinct_map_filter)
  then have "length mine = card (?key ` ?box)" unfolding keys [symmetric] by (metis distinct_card length_map)
  also have "\<dots> = card ?box" by (rule card_image) (auto simp: inj_on_def)
  finally show "length mine = length (su_items s) * nat samples" by (simp add: ids card_cartesian_product)
  assume "1 \<le> samples"
  have item: "hash_key (rr_item_id row) = Some (JStr i)" if "row_cell_key row = Some (JStr model, JStr i, JInt k)" for row i k
    using that by (simp add: row_key_parts)
  have "(\<lambda>row. hash_key (rr_item_id row)) ` set mine = (\<lambda>i. Some (JStr i)) ` it_id ` set (su_items s)"
  proof (intro set_eqI iffI)
    fix y
    assume "y \<in> (\<lambda>row. hash_key (rr_item_id row)) ` set mine"
    then obtain row where row: "row \<in> set mine" "y = hash_key (rr_item_id row)" by blast
    then have "row_cell_key row \<in> ?key ` ?box" using keys by auto
    with row show "y \<in> (\<lambda>i. Some (JStr i)) ` it_id ` set (su_items s)" by (auto dest!: item)
  next
    fix y
    assume "y \<in> (\<lambda>i. Some (JStr i)) ` it_id ` set (su_items s)"
    then obtain i where i: "i \<in> set (su_items s)" "y = Some (JStr (it_id i))" by blast
    then have "Some (JStr model, JStr (it_id i), JInt (int 0)) \<in> ?key ` ?box"
      using \<open>1 \<le> samples\<close> by (intro image_eqI [of _ _ "(it_id i, 0)"]) auto
    then obtain row where "row \<in> set mine" "row_cell_key row = Some (JStr model, JStr (it_id i), JInt (int 0))"
      unfolding keys [symmetric] by auto
    with i show "y \<in> (\<lambda>row. hash_key (rr_item_id row)) ` set mine" by (auto dest: item intro!: rev_image_eqI)
  qed
  moreover have "card ((\<lambda>i. Some (JStr i)) ` it_id ` set (su_items s)) = length (su_items s)"
    unfolding ids [symmetric] by (rule card_image) (auto simp: inj_on_def)
  ultimately show "distinct_items mine = Inr (length (su_items s))"
    by (auto simp: distinct_items_def list_ex_iff length_remdups_card_conv)
qed

lemma seen_in_roster:
  assumes "set (map row_cell_key rows) = Some ` grid_keys roster s samples" and "map rr_model rows = map JStr seen"
  shows "set seen \<subseteq> set roster"
proof
  fix x
  assume "x \<in> set seen"
  then have "JStr x \<in> set (map rr_model rows)" by (simp add: assms(2))
  then obtain row where row: "row \<in> set rows" "rr_model row = JStr x" by auto
  then have "row_cell_key row \<in> Some ` grid_keys roster s samples" using assms(1) by auto
  then show "x \<in> set roster" using row(2) by (auto simp: grid_keys_def row_key_parts)
qed

lemma resumed_samples:
  assumes "history ext s rid roster samples od" and "suite_ok ext s" and "json_ok (JInt samples)"
    and "ra_resume args = Some rid" and "run ext w s config scorer args od = (Inr z, od')"
  shows "1 \<le> samples"
proof -
  from assms(4,5) obtain pp st torn where p: "prepare_resume ext w config s args od rid = Inr (pp, st, torn)"
    by (auto simp: run_def bindE_Inr_iff split: sum.splits prod.splits)
  have "1 \<le> pp_samples pp"
    using p by (auto simp: prepare_resume_def bindE_Inr_iff validate_sweep_params_def split: option.splits if_splits)
  moreover have "pp_samples pp = samples"
    using history_inv [OF assms(1-3)] prepare_resume_facts(1) [OF p] pinned_resume [OF p] by (auto simp: dir_inv_def)
  ultimately show ?thesis by simp
qed

text \<open>C14: The runner and the report agree: when a resumed run of any history ends without aborting, the report
  of its directory lists exactly the pinned roster, in its order, and for every model as many cells as
  the suite has items times the samples per cell, over as many different items as the suite has.\<close>

theorem completed_run_report:
  assumes hist: "history ext s rid roster samples od" and ok: "suite_ok ext s" "json_ok (JInt samples)"
      "config_ok ext config" "world_ok w" "1 \<le> rw_limit w" and unit: "unit_scorer scorer"
    and res: "ra_resume args = Some rid" and run: "run ext w s config scorer args od = (Inr z, od')"
    and "\<not> rz_aborted z" and "1 \<le> limit" and report: "build_run_report ext limit pstr od' rid = Inr r"
  shows "map mo_model (rp_models r) = roster \<and>
    (\<forall>m \<in> set (rp_models r). mo_cells m = length (su_items s) * nat samples \<and> mo_items m = length (su_items s))"
proof -
  from resumed_run [OF hist ok res run] obtain st0 old torn st new "done" ks where
      st: "od_runs od' rid = Some st" "rs_rows st = FileText (rows_text (old @ new))"
    and k: "map row_cell_key old = map Some done" "distinct done" "set done \<subseteq> grid_keys roster s samples"
      "map row_cell_key new = map Some ks" "distinct ks" "set ks = grid_keys roster s samples - set done"
    and fine: "list_all (row_ok 1) (old @ new)"
    using assms(10) unit by metis
  let ?rows = "old @ new"
  have keys: "distinct (map row_cell_key ?rows)" "set (map row_cell_key ?rows) = Some ` grid_keys roster s samples"
    using k by (auto simp: distinct_map)
  have read: "read_rows limit (rs_rows st) = Inr (?rows, False)"
    using read_rows_whole [OF rows_ok_mono [OF fine assms(11)]] by (simp add: st(2) read_rows_def)
  have dir: "pinned roster samples st" "distinct roster"
    using history_inv [OF run_continues_history [OF hist run res ok(3,4) unit ok(5)] ok(1,2)] st(1)
    by (auto simp: dir_inv_def)
  from build_run_report_Inr [OF report] obtain st2 m rows torn' seen where
      st2: "od_runs od' rid = Some st2" "read_manifest st2 = Inr m" "read_rows limit (rs_rows st2) = Inr (rows, torn')"
    and seen: "map rr_model rows = map JStr seen" and man: "manifest_roster pstr m = Inr (rp_roster r)"
    and l: "list_all2 (\<lambda>model mr. model_rollup model (filter (\<lambda>row. rr_model row = JStr model) rows) (rp_execution r) = Inr mr)
      (ordered_models (rp_roster r) seen) (rp_models r)" .
  have same: "st2 = st" and rows: "rows = ?rows" using st2 st(1) read by simp_all
  have roster: "rp_roster r = roster"
    using dir(1) st2(2) man by (auto simp: same pinned_def read_manifest_def manifest_roster_def strs_json_def comp_def)
  have "set seen \<subseteq> set roster" using seen_in_roster [OF keys(2)] seen by (simp add: rows)
  then have names: "ordered_models (rp_roster r) seen = roster"
    by (auto simp: ordered_models_def roster filter_empty_conv)
  show ?thesis
  proof (intro conjI ballI)
    show "map mo_model (rp_models r) = roster" using rollup_models(1) [OF l] names by simp
    fix mr
    assume "mr \<in> set (rp_models r)"
    from list_all2_right [OF l this] names obtain model where "model \<in> set roster"
        and mr: "model_rollup model (filter (\<lambda>row. rr_model row = JStr model) ?rows) (rp_execution r) = Inr mr"
      by (auto simp: rows)
    note g = grid_rows_of_model [OF keys _ this(1), folded rows]
    from model_rollup_Inr [OF mr] obtain stored items scores where
        "distinct_items (filter (\<lambda>row. rr_model row = JStr model) ?rows) = Inr items"
      and "mr = model_report_of model (filter (\<lambda>row. rr_model row = JStr model) ?rows) (rp_execution r) stored items scores" .
    then show "mo_cells mr = length (su_items s) * nat samples" "mo_items mr = length (su_items s)"
      using g(1,2) resumed_samples [OF hist ok(1,2) res run] ok(1) by (auto simp: rows suite_ok_def)
  qed
qed

section \<open>The JSONL export reads back\<close>

lemma field_shapes [simp]:
  "depth (str_or_null v) = 0" "json_ok (str_or_null v)" "depth (ev_field g r) = 0" "json_ok (ev_field g r)"
  "depth (strs_json xs) = 1" "json_ok (strs_json xs)"
proof -
  show "depth (strs_json xs) = 1"
    using fold_max_le [of "map depth (map JStr xs)" 0 0] by (simp add: strs_json_def)
qed (simp_all add: str_or_null_def ev_field_def strs_json_def list_all_iff split: option.splits)

text \<open>The numbers of a report fit a JSON text: counts below the digit limit of \<open>int\<close>, floats in normal form.\<close>

definition count_ok :: "nat \<Rightarrow> bool" where
  "count_ok n \<longleftrightarrow> length (show_nat n) \<le> int_max_str_digits"

definition report_numbers_ok :: "(report_score \<Rightarrow> flt) \<Rightarrow> run_report \<Rightarrow> bool" where
  "report_numbers_ok fl r \<longleftrightarrow>
     (\<forall>m \<in> set (rp_models r). list_all count_ok [mo_items m, mo_cells m, mo_scored m, mo_no_response m, mo_parse_fail m, mo_error m] \<and>
        (\<forall>x. mo_score m = Some x \<longrightarrow> flt_ok (fl x))) \<and>
     (\<forall>g. Option.bind (rp_execution r) ev_gemini = Some g \<longrightarrow>
        flt_ok (gc_timeout g) \<and> json_ok (JInt (gc_max_output_tokens g)))"

lemma model_json_fine:
  assumes "report_numbers_ok fl r" and "m \<in> set (rp_models r)"
  shows "json_ok (model_json fl r m)" and "depth (model_json fl r m) \<le> 2"
proof -
  have g: "json_ok (gemini_field (\<lambda>g. JStr (gc_contract g)) r)" "json_ok (gemini_field (\<lambda>g. JStr (gc_thinking_level g)) r)"
      "json_ok (gemini_field (\<lambda>g. JInt (gc_max_output_tokens g)) r)" "json_ok (gemini_field (\<lambda>g. JFloat (gc_timeout g)) r)"
    using assms(1) by (simp_all add: gemini_field_def report_numbers_ok_def split: option.splits)
  have d: "depth (gemini_field (\<lambda>g. JStr (gc_contract g)) r) = 0" "depth (gemini_field (\<lambda>g. JStr (gc_thinking_level g)) r) = 0"
      "depth (gemini_field (\<lambda>g. JInt (gc_max_output_tokens g)) r) = 0" "depth (gemini_field (\<lambda>g. JFloat (gc_timeout g)) r) = 0"
    by (simp_all add: gemini_field_def split: option.splits)
  have s: "json_ok (case mo_score m of None \<Rightarrow> JNull | Some x \<Rightarrow> JFloat (fl x))"
      "depth (case mo_score m of None \<Rightarrow> JNull | Some x \<Rightarrow> JFloat (fl x)) = 0"
      "json_ok (case mo_routing m of None \<Rightarrow> JNull | Some b \<Rightarrow> JBool b)"
      "depth (case mo_routing m of None \<Rightarrow> JNull | Some b \<Rightarrow> JBool b) = 0"
    using assms by (simp_all add: report_numbers_ok_def split: option.splits)
  have n: "count_ok (mo_items m)" "count_ok (mo_cells m)" "count_ok (mo_scored m)" "count_ok (mo_no_response m)"
      "count_ok (mo_parse_fail m)" "count_ok (mo_error m)"
    using assms by (simp_all add: report_numbers_ok_def)
  show "json_ok (model_json fl r m)"
    using g s n by (simp add: model_json_def count_ok_def)
  show "depth (model_json fl r m) \<le> 2"
    using d s by (simp add: model_json_def fold_max_le)
qed

text \<open>The JSONL export loses nothing: it has one line per reported model, in the order of the report, and
  each line parses back to the record of that model with its keys sorted, whatever the model names and
  identities contain.\<close>

theorem jsonl_export_roundtrip:
  assumes "report_numbers_ok fl r" and "rp_models r \<noteq> []" and "2 \<le> limit"
  shows "map (loads limit) (split_on newline (run_report_jsonl fl r))
    = map (\<lambda>m. Inr (sort_json (model_json fl r m))) (rp_models r)"
proof -
  have "split_on newline (run_report_jsonl fl r) = map (\<lambda>m. dumps (sort_json (model_json fl r m))) (rp_models r)"
    unfolding run_report_jsonl_def by (rule split_on_join) (use assms(2) dumps_no_newline in auto)
  moreover have "loads limit (dumps (sort_json (model_json fl r m))) = Inr (sort_json (model_json fl r m))"
    if "m \<in> set (rp_models r)" for m
    using model_json_fine [OF assms(1) that] assms(3) depth_sort [of "model_json fl r m"]
    by (intro loads_dumps json_ok_sort) simp_all
  ultimately show ?thesis by simp
qed

section \<open>The identity table\<close>

text \<open>Text with no bar and no backslash at its front adds no separator.\<close>

lemma bars_text: "list_all (\<lambda>c. c \<noteq> CHR 0x5C \<and> c \<noteq> CHR ''|'') p \<Longrightarrow> bars (p @ r) = bars r"
  by (induction p) (simp_all add: bars_Cons)

lemma bars_md_char: "bars (md_char c @ r) = bars r"
proof (cases "c \<in> {CHR 0x5C, CHR ''|'', CHR 0x60, CHR ''!'', CHR ''['', CHR '']'', CHR ''('', CHR '')''}")
  case True
  then show ?thesis by (auto simp: md_char_def)
next
  case False
  then show ?thesis by (simp add: md_char_def bars_text)
qed

lemma bars_md_cell: "bars (md_cell s @ r) = bars r"
proof -
  have "bars (concat (map md_char t) @ r) = bars r" for t
    by (induction t) (simp_all add: bars_md_char)
  then show ?thesis by (simp add: md_cell_def)
qed

lemma bars_identities: "bars (fmt_identities vs @ r) = bars r"
proof -
  have "bars (join '', '' (map md_cell ws) @ r) = bars r" for ws
    by (induction ws rule: induct_list012) (simp_all add: bars_md_cell bars_Cons)
  then show ?thesis by (simp add: fmt_identities_def bars_Cons)
qed

lemma md_cell_no_break: "newline \<notin> set (md_cell s) \<and> CHR 0x0D \<notin> set (md_cell s)"
  by (auto simp: md_cell_def md_char_def)

lemma identities_no_break: "newline \<notin> set (fmt_identities vs) \<and> CHR 0x0D \<notin> set (fmt_identities vs)"
proof -
  have "newline \<notin> set (join '', '' (map md_cell ws)) \<and> CHR 0x0D \<notin> set (join '', '' (map md_cell ws))" for ws
    by (induction ws rule: induct_list012) (simp_all add: md_cell_no_break)
  then show ?thesis by (simp add: fmt_identities_def)
qed

text \<open>No text of a run store can break the identity table: whatever model names, provider texts and stored
  identities contain, the row of a model is one line with exactly eight column separators, so it always
  has the seven columns of the header.\<close>

theorem identity_row_has_seven_columns:
  assumes "build_run_report ext limit pstr od run_id = Inr r" and "m \<in> set (rp_models r)"
  shows "bars (identity_row m) = 8 \<and> newline \<notin> set (identity_row m) \<and> CHR 0x0D \<notin> set (identity_row m)"
proof -
  from build_run_report_Inr [OF assms(1)] obtain rows seen where
      "list_all2 (\<lambda>model mr. model_rollup model (filter (\<lambda>row. rr_model row = JStr model) rows) (rp_execution r) = Inr mr)
        (ordered_models (rp_roster r) seen) (rp_models r)" .
  from list_all2_right [OF this assms(2)] obtain model where
      "model_rollup model (filter (\<lambda>row. rr_model row = JStr model) rows) (rp_execution r) = Inr m" by blast
  from model_rollup_Inr [OF this] obtain stored items scores where
      m: "m = model_report_of model (filter (\<lambda>row. rr_model row = JStr model) rows) (rp_execution r) stored items scores" .
  have "mo_provenance m \<in> {UNVERIFIED_LEGACY, ''UNBOUND_RECEIPT_IDENTITY'', ''PROVIDER_CONFIRMED'', ''PROVIDER_IDENTITY_UNRESOLVED''}"
    by (simp add: m model_report_of_def Let_def)
  moreover have "eligibility m \<in> {PRELIMINARY_SEAL_IDENTITY_OK, NOT_ROUTING_ELIGIBLE}"
    by (simp add: eligibility_def)
  ultimately have plain: "bars (mo_provenance m @ t) = bars t" "bars (eligibility m @ t) = bars t"
      "newline \<notin> set (mo_provenance m)" "CHR 0x0D \<notin> set (mo_provenance m)"
      "newline \<notin> set (eligibility m)" "CHR 0x0D \<notin> set (eligibility m)" for t
    by (auto simp: UNVERIFIED_LEGACY_def PRELIMINARY_SEAL_IDENTITY_OK_def NOT_ROUTING_ELIGIBLE_def bars_Cons)
  show ?thesis
    using md_cell_no_break identities_no_break plain(3-6)
    by (simp add: identity_row_def bars_Cons bars_md_cell bars_identities plain(1,2))
qed

section \<open>Concrete reports\<close>

text \<open>A run of one cell: any row of the model of the sample run.\<close>

definition one_row :: "string \<Rightarrow> run_row" where
  "one_row x = \<lparr>rr_run_id = JStr sample_rid, rr_model = JStr ''m'', rr_resolved = JStr x, rr_item_id = JStr ''i1'',
     rr_sample_k = JInt 0, rr_response_raw = JStr [], rr_parsed = JNull, rr_score = JFloat (Fin False 1 0),
     rr_scorer = JStr ''exact'', rr_judge_scores = JNull, rr_elapsed = JFloat (Fin False 1 0), rr_error = JNull\<rparr>"

definition one_row_out :: "string \<Rightarrow> out_dir" where
  "one_row_out x = empty_out\<lparr>od_runs := (od_runs empty_out)(sample_rid \<mapsto>
     (sample_store 1)\<lparr>rs_rows := FileText (rows_text [one_row x])\<rparr>)\<rparr>"

abbreviation "sample_evidence \<equiv> evidence_of zero_digest_ext sample_receipt"

lemma sample_built:
  assumes "od_runs od sample_rid = Some st" and "od_escapes od = (\<lambda>_. False)"
    and "rs_manifest st = rs_manifest (sample_store 1)" and "read_rows limit (rs_rows st) = Inr ([row], torn)"
    and row: "rr_model row = JStr ''m''" "rr_resolved row = JStr x" "rr_item_id row = JStr i" "strip x \<noteq> []"
      "mapE score_number_of (map rr_score (filter (\<lambda>r. rr_score r \<noteq> JNull) [row])) = Inr scores"
  shows "\<exists>r. build_run_report zero_digest_ext limit pstr od sample_rid = Inr r \<and> rp_roster r = [''m''] \<and>
    rp_execution r = Some sample_evidence \<and>
    rp_models r = [model_report_of ''m'' [row] (Some sample_evidence) [x] 1 scores]"
proof -
  define m where "m = (case rs_manifest (sample_store 1) of Doc (JObj d) \<Rightarrow> d | _ \<Rightarrow> [])"
  have man: "read_manifest st = Inr m"
    by (simp add: assms(3) read_manifest_def m_def sample_store_def manifest_json_def)
  have "run_id_ok sample_rid" by code_simp
  then have "open_run_store limit od sample_rid = Inr (m, [row])"
    using assms(1,2,4) man by (simp add: open_run_store_def as_report_def resolve_run_dir_def)
  moreover have "manifest_roster pstr m = Inr [''m'']"
    by (simp add: m_def sample_store_def manifest_json_def manifest_roster_def fld_Cons strs_json_def)
  moreover have "build_execution_evidence zero_digest_ext m = Inr (Some sample_evidence)"
    using receipts.from_to [OF sample_receipts_ok(1), of zero_digest_ext]
    by (simp add: build_execution_evidence_def as_report_def read_execution_receipt_def m_def sample_store_def
        manifest_json_def fld_Cons)
  moreover have "\<exists>a b c d. manifest_str m ''run_id'' = Inr a \<and> manifest_str m ''suite'' = Inr b \<and>
      manifest_str m ''suite_hash'' = Inr c \<and> manifest_str m ''started_utc'' = Inr d"
    by (simp add: manifest_str_def m_def sample_store_def manifest_json_def fld_Cons)
  moreover have "model_rollup ''m'' [row] (Some sample_evidence)
      = Inr (model_report_of ''m'' [row] (Some sample_evidence) [x] 1 scores)"
    using row by (simp add: model_rollup_def stored_identity_def distinct_items_def)
  ultimately show ?thesis
    using row(1) by (auto simp: build_run_report_def row_model_def ordered_models_def sorted_set_def)
qed

lemma one_row_sel [simp]:
  "rr_model (one_row x) = JStr ''m''" "rr_resolved (one_row x) = JStr x" "rr_item_id (one_row x) = JStr ''i1''"
  "rr_score (one_row x) = JFloat (Fin False 1 0)"
  by (simp_all add: one_row_def)

lemma one_row_read: "1 \<le> limit \<Longrightarrow> read_rows limit (FileText (rows_text [one_row x])) = Inr ([one_row x], False)"
proof -
  assume "1 \<le> limit"
  have "row_ok 1 (one_row x)"
    unfolding row_ok_scalars by (simp add: row_json_def one_row_def scalar_ok_def int_max_str_digits_def show_nat.simps)
  then have "list_all (row_ok limit) [one_row x]" using row_ok_mono \<open>1 \<le> limit\<close> by simp
  from read_rows_whole [OF this] show ?thesis by (simp add: read_rows_def)
qed

lemma sample_report:
  "\<exists>r. build_run_report zero_digest_ext 9 (\<lambda>_. []) (one_row_out ''m-1'') sample_rid = Inr r \<and> rp_roster r = [''m''] \<and>
    rp_execution r = Some sample_evidence \<and>
    rp_models r = [model_report_of ''m'' [one_row ''m-1''] (Some sample_evidence) [''m-1''] 1 [Score 1]]"
  by (rule sample_built [where st = "(sample_store 1)\<lparr>rs_rows := FileText (rows_text [one_row ''m-1''])\<rparr>"
        and row = "one_row ''m-1''" and torn = False and i = "''i1''"])
    (use one_row_read [of 9 "''m-1''"] in
      \<open>simp_all add: one_row_out_def empty_out_def score_number_of_def pow10_def strip_def lstrip_def rstrip_def
        isspace_def in_rng_def\<close>)

theorem compared_runs_match_witness:
  "\<exists>c. build_comparison zero_digest_ext 9 (\<lambda>_. []) (one_row_out ''m-1'') [sample_rid, sample_rid] = Inr c \<and>
     length (cp_runs c) = 2 \<and> (\<forall>r \<in> set (cp_runs c). rp_suite_hash r = cp_suite_hash c)"
proof -
  obtain r where r: "build_run_report zero_digest_ext 9 (\<lambda>_. []) (one_row_out ''m-1'') sample_rid = Inr r"
    using sample_report by blast
  have "comparable r r = Inr ()"
    by (auto simp: comparable_def receipt_hashes_def split: option.splits)
  then obtain c where c: "build_comparison zero_digest_ext 9 (\<lambda>_. []) (one_row_out ''m-1'') [sample_rid, sample_rid] = Inr c"
      "length (cp_runs c) = 2"
    using r by (simp add: build_comparison_def)
  from compared_runs_match [OF c(1)] c show ?thesis by blast
qed

theorem report_keeps_books_witness:
  "\<exists>r. build_run_report zero_digest_ext 9 (\<lambda>_. []) (one_row_out ''m-1'') sample_rid = Inr r \<and>
     (\<exists>st rows torn. od_runs (one_row_out ''m-1'') sample_rid = Some st \<and>
       read_rows 9 (rs_rows st) = Inr (rows, torn) \<and> sum_list (map mo_cells (rp_models r)) = length rows)"
proof -
  obtain r where r: "build_run_report zero_digest_ext 9 (\<lambda>_. []) (one_row_out ''m-1'') sample_rid = Inr r" "rp_roster r = [''m'']"
    using sample_report by blast
  then have "distinct (rp_roster r)" by simp
  with report_keeps_books [OF r(1)] r(1) show ?thesis by blast
qed

theorem preliminary_is_confirmed_witness:
  "\<exists>r m p. build_run_report zero_digest_ext 9 (\<lambda>_. []) (one_row_out ''m-1'') sample_rid = Inr r \<and>
     m \<in> set (rp_models r) \<and> eligibility m = PRELIMINARY_SEAL_IDENTITY_OK \<and> mo_provider m = Some p"
proof -
  let ?m = "model_report_of ''m'' [one_row ''m-1''] (Some sample_evidence) [''m-1''] 1 [Score 1]"
  obtain r where r: "build_run_report zero_digest_ext 9 (\<lambda>_. []) (one_row_out ''m-1'') sample_rid = Inr r" "?m \<in> set (rp_models r)"
    using sample_report by fastforce
  have "eligibility ?m = PRELIMINARY_SEAL_IDENTITY_OK" by code_simp
  from preliminary_is_confirmed [OF r this] r this show ?thesis by blast
qed

theorem jsonl_export_roundtrip_witness:
  "\<exists>r. build_run_report zero_digest_ext 9 (\<lambda>_. []) (one_row_out ''m-1'') sample_rid = Inr r \<and>
     map (loads 9) (split_on newline (run_report_jsonl (\<lambda>_. Fin False 1 0) r))
       = map (\<lambda>m. Inr (sort_json (model_json (\<lambda>_. Fin False 1 0) r m))) (rp_models r)"
proof -
  obtain r where r: "build_run_report zero_digest_ext 9 (\<lambda>_. []) (one_row_out ''m-1'') sample_rid = Inr r"
      "rp_models r = [model_report_of ''m'' [one_row ''m-1''] (Some sample_evidence) [''m-1''] 1 [Score 1]]"
      "rp_execution r = Some sample_evidence"
    using sample_report by blast
  have small: "n \<le> 1 \<Longrightarrow> count_ok n" for n
    by (cases n) (simp_all add: count_ok_def int_max_str_digits_def show_nat.simps)
  have "report_numbers_ok (\<lambda>_. Fin False 1 0) r"
    by (simp add: report_numbers_ok_def r(2,3)) (simp add: small model_report_of_def Let_def evidence_of_def sample_receipt_def)
  moreover have "rp_models r \<noteq> []" using r(2) by simp
  ultimately show ?thesis using jsonl_export_roundtrip [of "\<lambda>_. Fin False 1 0" r 9] r(1) by auto
qed

theorem identity_row_has_seven_columns_witness:
  "\<exists>r m. build_run_report zero_digest_ext 9 (\<lambda>_. []) (one_row_out ''m-1'') sample_rid = Inr r \<and>
     m \<in> set (rp_models r) \<and> bars (identity_row m) = 8"
proof -
  obtain r m where r: "build_run_report zero_digest_ext 9 (\<lambda>_. []) (one_row_out ''m-1'') sample_rid = Inr r" "m \<in> set (rp_models r)"
    using sample_report by fastforce
  from identity_row_has_seven_columns [OF this] r show ?thesis by blast
qed

text \<open>The resumed sample run, and the report of what it leaves.\<close>

definition timed_out_row :: run_row where
  "timed_out_row = \<lparr>rr_run_id = JStr sample_rid, rr_model = JStr ''m'', rr_resolved = JStr UNRESOLVED_MODEL_ID,
     rr_item_id = JStr ''i1'', rr_sample_k = JInt 0, rr_response_raw = JStr [], rr_parsed = JNull, rr_score = JNull,
     rr_scorer = JNull, rr_judge_scores = JNull, rr_elapsed = JFloat (Fin False 1 0),
     rr_error = JStr (sb_reason zero_digest_ext (classify_transport_error TransportTimeout))\<rparr>"

lemma timed_out_sweep:
  "\<exists>z. run_sweep zero_digest_ext sample_run_world local_config sample_suite collect_only_scorer (sample_prep 1 3)
     (sample_store 1) = (Inr z, (sample_store 1)\<lparr>rs_rows := append_rows (rs_rows (sample_store 1)) [timed_out_row]\<rparr>) \<and>
     \<not> rz_aborted z"
proof -
  have "it_id sample_item = ''i1''" by (simp add: sample_item_def)
  then show ?thesis
    by (simp add: run_sweep_def CallBudget_init_def pending_cells_def sample_suite_def sweep_binding_def
        local_binding_def sweep_local_def consume_def local_result_def local_chat_def sample_run_world_def
        row_of_def build_row_def error_def put_row_def sample_prep_def timed_out_row_def)
qed

lemma timed_out_read: "read_rows 9 (rs_rows ((sample_store 1)\<lparr>rs_rows := append_rows (rs_rows (sample_store 1)) [timed_out_row]\<rparr>))
    = Inr ([timed_out_row], False)"
proof -
  have "row_ok 1 timed_out_row"
    unfolding row_ok_scalars by (simp add: row_json_def timed_out_row_def scalar_ok_def int_max_str_digits_def show_nat.simps)
  then have "list_all (row_ok 9) [timed_out_row]" using row_ok_mono by simp
  moreover have "append_rows (rs_rows (sample_store 1)) [timed_out_row] = FileText (rows_text [timed_out_row])"
    by (simp add: append_rows_text sample_store_def)
  ultimately show ?thesis using read_rows_whole by (simp add: read_rows_def)
qed

lemma sample_resumed_report:
  "\<exists>z od' r. run zero_digest_ext sample_run_world sample_suite local_config collect_only_scorer (resume_args None)
       (sample_out 1) = (Inr z, od') \<and> \<not> rz_aborted z \<and>
     build_run_report zero_digest_ext 9 (\<lambda>_. []) od' sample_rid = Inr r"
proof -
  let ?st = "(sample_store 1)\<lparr>rs_rows := append_rows (rs_rows (sample_store 1)) [timed_out_row]\<rparr>"
  let ?od = "(sample_out 1)\<lparr>od_runs := (od_runs (sample_out 1))(sample_rid \<mapsto> ?st)\<rparr>"
  obtain z where z: "run_sweep zero_digest_ext sample_run_world local_config sample_suite collect_only_scorer
      (sample_prep 1 3) (sample_store 1) = (Inr z, ?st)" "\<not> rz_aborted z"
    using timed_out_sweep by blast
  have a: "ra_resume (resume_args None) = Some sample_rid" by (simp add: resume_args_def)
  have "repaired (sample_store 1) (pp_existing (sample_prep 1 3)) False = sample_store 1" by (simp add: repaired_def)
  moreover have "pp_run_id (sample_prep 1 3) = sample_rid" by (simp add: sample_prep_def)
  ultimately have run: "run zero_digest_ext sample_run_world sample_suite local_config collect_only_scorer
      (resume_args None) (sample_out 1) = (Inr z, ?od)"
    using sample_resume [of 1 None] z(1) a by (simp add: run_def first_some_def)
  have "\<exists>r. build_run_report zero_digest_ext 9 (\<lambda>_. []) ?od sample_rid = Inr r \<and> rp_roster r = [''m''] \<and>
      rp_execution r = Some sample_evidence \<and>
      rp_models r = [model_report_of ''m'' [timed_out_row] (Some sample_evidence) [UNRESOLVED_MODEL_ID] 1 []]"
    by (rule sample_built [where st = ?st and row = timed_out_row and torn = False and i = "''i1''"])
      (simp_all only: timed_out_read,
        simp_all add: sample_out_def empty_out_def timed_out_row_def UNRESOLVED_MODEL_ID_def strip_def lstrip_def rstrip_def
          isspace_def in_rng_def)
  then show ?thesis using run z(2) by blast
qed

theorem completed_run_report_witness:
  "\<exists>z od' r. run zero_digest_ext sample_run_world sample_suite local_config collect_only_scorer (resume_args None)
       (sample_out 1) = (Inr z, od') \<and> build_run_report zero_digest_ext 9 (\<lambda>_. []) od' sample_rid = Inr r \<and>
     map mo_model (rp_models r) = [''m'']"
proof -
  obtain z od' r where s: "run zero_digest_ext sample_run_world sample_suite local_config collect_only_scorer
       (resume_args None) (sample_out 1) = (Inr z, od')" "\<not> rz_aborted z"
      "build_run_report zero_digest_ext 9 (\<lambda>_. []) od' sample_rid = Inr r"
    using sample_resumed_report by blast
  have a: "ra_resume (resume_args None) = Some sample_rid" "1 \<le> rw_limit sample_run_world" "(1 :: nat) \<le> 9"
    by (simp_all add: resume_args_def sample_run_world_def)
  from completed_run_report [OF sample_history [of 1] sample_inputs_ok(1) one_ok sample_inputs_ok(2,3) a(2)
      collect_only_unit a(1) s(1,2) a(3) s(3)] s show ?thesis by auto
qed

end
