(* ===== verification/Bench_Wire.thy ===== *)
theory Bench_Wire
  imports Externals Json_Text
begin

text \<open>
  src/measure_twice/agent_bench/_wire.py: the strict JSON primitives every input of the agent benchmark
  goes through.  \<open>WireCodec\<close> is bound to one error class per domain; here the domains wrap \<open>wire_error\<close>.
  Bytes that are UTF-8 are their text, others are \<open>None\<close>.
\<close>

datatype wire_error =
    FileNotFound string
  | UnreadableFile string
  | UndecodableJson string
  | NotAnObject string
  | KeysDiffer string "string list" "string list"
  | SchemaVersionNotInt string
  | UnsupportedSchemaVersion string int
  | UnsafeId string
  | NotANonemptyString string
  | NotAPositiveInt string
  | NotCanonicalJson

type_synonym 'a wres = "(wire_error, 'a) res"

section \<open>Strict reading\<close>

text \<open>No object repeats a key (\<open>_pairs_object\<close>), no number is non-finite (\<open>_reject_json_constant\<close>).\<close>

fun strict_json :: "json \<Rightarrow> bool" where
  "strict_json (JFloat f) = is_finite_flt f"
| "strict_json (JList xs) = list_all strict_json xs"
| "strict_json (JObj kvs) = (distinct (map fst kvs) \<and> list_all (\<lambda>kv. strict_json (snd kv)) kvs)"
| "strict_json _ = True"

definition decode_json_object :: "nat \<Rightarrow> string option \<Rightarrow> string \<Rightarrow> (string \<times> json) list wres" where
  "decode_json_object limit raw label = (case raw of
     None \<Rightarrow> Inl (UndecodableJson label)
   | Some text \<Rightarrow>
       (case loads_pairs limit text of
          Inl _ \<Rightarrow> Inl (UndecodableJson label)
        | Inr v \<Rightarrow>
            (if \<not> strict_json v then Inl (UndecodableJson label)
             else (case v of JObj d \<Rightarrow> Inr d | _ \<Rightarrow> Inl (NotAnObject label)))))"

definition load_json_object :: "nat \<Rightarrow> file_read \<Rightarrow> string \<Rightarrow> (string \<times> json) list wres" where
  "load_json_object limit file label = (case file of
     NoFile \<Rightarrow> Inl (FileNotFound label)
   | OSFailure \<Rightarrow> Inl (UnreadableFile label)
   | NotUtf8 \<Rightarrow> decode_json_object limit None label
   | FileText text \<Rightarrow> decode_json_object limit (Some text) label)"

section \<open>Fields\<close>

definition wire_exact_keys :: "json \<Rightarrow> string list \<Rightarrow> string \<Rightarrow> (string \<times> json) list wres" where
  "wire_exact_keys v expected label = (case v of
     JObj d \<Rightarrow>
       (let missing = missing_keys d expected; unknown = unknown_keys d expected
        in if missing \<noteq> [] \<or> unknown \<noteq> [] then Inl (KeysDiffer label missing unknown) else Inr d)
   | _ \<Rightarrow> Inl (NotAnObject label))"

definition validate_schema_version :: "json \<Rightarrow> string \<Rightarrow> int \<Rightarrow> int wres" where
  "validate_schema_version v label supported = (case v of
     JInt n \<Rightarrow> if n \<noteq> supported then Inl (UnsupportedSchemaVersion label n) else Inr n
   | _ \<Rightarrow> Inl (SchemaVersionNotInt label))"

definition lower_alnum :: "char \<Rightarrow> bool" where
  "lower_alnum c \<longleftrightarrow> in_rng 97 122 c \<or> is_digit c"

text \<open>\<open>^[a-z0-9][a-z0-9._-]{0,63}$\<close>; the later test against the two dot names cannot succeed.\<close>

definition safe_id :: "string \<Rightarrow> bool" where
  "safe_id s = (case s of
     [] \<Rightarrow> False
   | c # cs \<Rightarrow> lower_alnum c \<and> length cs \<le> 63 \<and>
       list_all (\<lambda>x. lower_alnum x \<or> x \<in> {CHR ''.'', CHR ''_'', CHR ''-''}) cs)"

definition validate_safe_id :: "json \<Rightarrow> string \<Rightarrow> string wres" where
  "validate_safe_id v label = (case v of
     JStr s \<Rightarrow> if safe_id s then Inr s else Inl (UnsafeId label)
   | _ \<Rightarrow> Inl (UnsafeId label))"

definition validate_nonempty_string :: "json \<Rightarrow> string \<Rightarrow> string wres" where
  "validate_nonempty_string v label = (case v of
     JStr s \<Rightarrow> if strip s = [] then Inl (NotANonemptyString label) else Inr s
   | _ \<Rightarrow> Inl (NotANonemptyString label))"

definition wire_positive_int :: "json \<Rightarrow> string \<Rightarrow> int wres" where
  "wire_positive_int v label = (case v of
     JInt n \<Rightarrow> if n \<le> 0 then Inl (NotAPositiveInt label) else Inr n
   | _ \<Rightarrow> Inl (NotAPositiveInt label))"

section \<open>Canonical text\<close>

text \<open>\<open>json.dumps\<close> with \<open>ensure_ascii=False\<close>: control characters, quote and backslash are escaped, the rest stands.\<close>

definition raw_char :: "char \<Rightarrow> string" where
  "raw_char c = (if code_pt c < 32 \<or> c = CHR 0x22 \<or> c = CHR 0x5C then esc_char c else [c])"

definition raw_str :: "string \<Rightarrow> string" where
  "raw_str s = CHR 0x22 # concat (map raw_char s) @ [CHR 0x22]"

fun raw_dumps :: "json \<Rightarrow> string" where
  "raw_dumps (JStr s) = raw_str s"
| "raw_dumps (JList xs) = ''['' @ join '','' (map raw_dumps xs) @ '']''"
| "raw_dumps (JObj kvs) =
     ''{'' @ join '','' (map (\<lambda>kv. raw_str (fst kv) @ '':'' @ raw_dumps (snd kv)) kvs) @ ''}''"
| "raw_dumps j = dumps_with '','' '':'' j"

text \<open>\<open>allow_nan=False\<close>, and the digit limit of \<open>str\<close> of an integer.\<close>

fun encodable :: "json \<Rightarrow> bool" where
  "encodable (JFloat f) = is_finite_flt f"
| "encodable (JInt i) = (length (show_nat (nat \<bar>i\<bar>)) \<le> int_max_str_digits)"
| "encodable (JList xs) = list_all encodable xs"
| "encodable (JObj kvs) = list_all (\<lambda>kv. encodable (snd kv)) kvs"
| "encodable _ = True"

definition canonical_json :: "json \<Rightarrow> string wres" where
  "canonical_json v = (if encodable v then Inr (raw_dumps (sort_json v)) else Inl NotCanonicalJson)"

definition wire_sha256 :: "externals \<Rightarrow> json \<Rightarrow> string wres" where
  "wire_sha256 ext v = bindE (canonical_json v) (\<lambda>t. Inr (sha256_hex ext t))"

section \<open>Facts\<close>

named_theorems wire_simps

lemma wire_exact_keys_Inr [wire_simps]:
  "wire_exact_keys v expected label = Inr d \<longleftrightarrow> v = JObj d \<and> set (keys d) = set expected"
  by (auto simp: wire_exact_keys_def Let_def missing_keys_Nil_iff unknown_keys_Nil_iff split: json.splits if_splits)

lemma validate_schema_version_Inr [wire_simps]:
  "validate_schema_version v label n = Inr x \<longleftrightarrow> v = JInt n \<and> x = n"
  by (auto simp: validate_schema_version_def split: json.splits if_splits)

lemma validate_safe_id_Inr [wire_simps]: "validate_safe_id v label = Inr s \<longleftrightarrow> v = JStr s \<and> safe_id s"
  by (auto simp: validate_safe_id_def split: json.splits if_splits)

lemma validate_nonempty_string_Inr [wire_simps]:
  "validate_nonempty_string v label = Inr s \<longleftrightarrow> v = JStr s \<and> strip s \<noteq> []"
  by (auto simp: validate_nonempty_string_def split: json.splits if_splits)

lemma wire_positive_int_Inr [wire_simps]: "wire_positive_int v label = Inr n \<longleftrightarrow> v = JInt n \<and> 0 < n"
  by (auto simp: wire_positive_int_def split: json.splits if_splits)

lemma parse_chars_raw: "parse_chars (raw_char c @ t) = map_option (\<lambda>(s, r). (c # s, r)) (parse_chars t)"
proof (cases "code_pt c < 32 \<or> c = CHR 0x22 \<or> c = CHR 0x5C")
  case True
  then show ?thesis by (simp add: raw_char_def parse_chars_esc)
next
  case False
  then show ?thesis by (simp add: raw_char_def in_rng_def)
qed

lemma parse_chars_raw_str: "parse_chars (concat (map raw_char s) @ CHR 0x22 # r) = Some (s, r)"
  by (induction s) (simp_all add: parse_chars_raw)

lemma val_head_raw: "val_head (raw_dumps j)"
  using val_head_dumps [of "'',''" "'':''" j] by (cases j) (simp_all add: raw_str_def val_head_def is_ws_def)

lemma parse_raw_dumps:
  assumes "json_ok j" and "depth j \<le> d" and "num_stop r"
  shows "parse_val d (raw_dumps j @ r) = Got j r"
  using assms
proof (induction j arbitrary: d r)
  case (JStr s)
  then show ?case by (simp add: raw_str_def parse_val.simps parse_chars_raw_str)
next
  case (JList xs)
  have d0: "d \<noteq> 0" using JList.prems(2) by (cases d) auto
  show ?case
  proof (cases "xs = []")
    case False
    let ?t = "join '','' (map raw_dumps xs) @ CHR '']'' # r"
    have IH: "parse_val (d - 1) (raw_dumps x @ s) = Got x s" if "x \<in> set xs" "num_stop s" for x s
      using JList.IH [OF that(1) _ _ that(2)] JList.prems(1,2) depth_list [OF that(1)] that(1)
      by (auto simp: list_all_iff)
    have "parse_elems (d - 1) ?t = Got xs r"
      by (rule parse_elems_join [OF refl _ False IH val_head_raw]) simp_all
    moreover have "val_head ?t" by (rule val_head_join [OF False val_head_raw])
    ultimately show ?thesis using d0
      by (cases ?t) (auto simp: parse_val.simps skip_ws_val_head val_head_def)
  qed (use d0 in \<open>simp add: parse_val.simps\<close>)
next
  case (JObj kvs)
  have d0: "d \<noteq> 0" using JObj.prems(2) by (cases d) auto
  show ?case
  proof (cases "kvs = []")
    case False
    let ?M = "\<lambda>kv. raw_str (fst kv) @ '':'' @ raw_dumps (snd kv)"
    let ?t = "join '','' (map ?M kvs) @ CHR ''}'' # r"
    have IH: "parse_val (d - 1) (raw_dumps (snd kv) @ s) = Got (snd kv) s"
      if "kv \<in> set kvs" "num_stop s" for kv s
      using JObj.IH [OF that(1), of "snd kv" "d - 1" s] that JObj.prems(1,2) depth_obj [OF that(1)]
      by (cases kv) (auto simp: list_all_iff)
    have "parse_members (d - 1) ?t = Got kvs r"
      by (rule parse_members_join [OF refl _ refl _ False IH val_head_raw raw_str_def parse_chars_raw_str]) simp_all
    moreover have "val_head ?t"
      by (rule val_head_join [OF False]) (simp add: raw_str_def val_head_def is_ws_def)
    ultimately show ?thesis using d0
      by (cases ?t) (auto simp: parse_val.simps skip_ws_val_head val_head_def)
  qed (use d0 in \<open>simp add: parse_val.simps\<close>)
next
  case (JNull)
  then show ?case using parse_dumps [OF sep_ok_compact JNull] by simp
next
  case (JBool b)
  then show ?case using parse_dumps [OF sep_ok_compact JBool] by simp
next
  case (JInt i)
  then show ?case using parse_dumps [OF sep_ok_compact JInt] by simp
next
  case (JFloat f)
  then show ?case using parse_dumps [OF sep_ok_compact JFloat] by simp
qed

text \<open>Equal canonical texts are texts of the same value, up to the order of keys.\<close>

lemma raw_dumps_inj:
  assumes "json_ok a" and "json_ok b" and "raw_dumps a = raw_dumps b"
  shows "a = b"
  using parse_raw_dumps [OF assms(1) _ num_stop_Nil, of "depth a + depth b"]
    parse_raw_dumps [OF assms(2) _ num_stop_Nil, of "depth a + depth b"] assms(3) by simp

lemma encodable_sort: "encodable (sort_json j) = encodable j"
proof (induction j)
  case (JObj kvs)
  have "encodable (sort_json (snd kv)) = encodable (snd kv)" if "kv \<in> set kvs" for kv
    using JObj.IH [of kv "snd kv"] that by (cases kv) (simp add: snds.simps)
  then show ?case by (auto simp: list_all_iff)
qed (auto simp: list_all_iff)

lemma canonical_json_inj:
  assumes "json_ok a" and "json_ok b" and "canonical_json a = Inr t" and "canonical_json b = Inr t"
  shows "sort_json a = sort_json b"
  using raw_dumps_inj [OF json_ok_sort [OF assms(1)] json_ok_sort [OF assms(2)]] assms(3,4)
  by (simp add: canonical_json_def split: if_splits)

text \<open>A strict value is written and read back unchanged.\<close>

lemma decode_raw_dumps:
  assumes "json_ok (JObj d)" and "strict_json (JObj d)" and "depth (JObj d) \<le> limit"
  shows "decode_json_object limit (Some (raw_dumps (JObj d))) label = Inr d"
proof -
  have "parse_val limit (raw_dumps (JObj d)) = Got (JObj d) []"
    using parse_raw_dumps [OF assms(1,3) num_stop_Nil] by simp
  then have "loads_pairs limit (raw_dumps (JObj d)) = Inr (JObj d)"
    by (simp add: loads_pairs_def skip_ws_val_head [OF val_head_raw] del: raw_dumps.simps) (simp add: skip_ws_def)
  with assms(2) show ?thesis by (simp add: decode_json_object_def del: raw_dumps.simps)
qed

section \<open>What is read\<close>

text \<open>What a successful read gives: numbers within the digit limit, nesting within the recursion limit.\<close>

fun as_read :: "nat \<Rightarrow> json \<Rightarrow> bool" where
  "as_read d (JFloat f) = flt_ok f"
| "as_read d (JInt i) = json_ok (JInt i)"
| "as_read d (JList xs) = (0 < d \<and> list_all (as_read (d - 1)) xs)"
| "as_read d (JObj kvs) = (0 < d \<and> list_all (\<lambda>kv. as_read (d - 1) (snd kv)) kvs)"
| "as_read d _ = True"

lemma read_nat_less: "list_all is_digit s \<Longrightarrow> read_nat s < 10 ^ length s"
proof (induction s rule: rev_induct)
  case (snoc c s)
  then have "digit_val c < 10" by (auto simp: digit_val_def is_digit_def in_rng_def)
  with snoc show ?case by (simp add: read_nat_snoc)
qed simp

lemma show_nat_length_le: "n < 10 ^ k \<Longrightarrow> 0 < k \<Longrightarrow> length (show_nat n) \<le> k"
proof (induction n arbitrary: k rule: show_nat.induct)
  case (1 n)
  show ?case
  proof (cases "n < 10")
    case False
    from 1 False obtain j where k: "k = Suc j" "0 < j" by (cases k; cases "k = 1") auto
    with 1(2) False have "n div 10 < 10 ^ j" by (simp add: div_less_iff_less_mult mult.commute)
    with 1(1) [OF False this k(2)] k False show ?thesis by (subst show_nat.simps) simp
  qed (use 1 in \<open>simp add: show_nat.simps\<close>)
qed

lemma parse_number_read: "parse_number neg s = Got v r \<Longrightarrow> as_read d v"
proof -
  assume a: "parse_number neg s = Got v r"
  then obtain ip r0 fr ex where ip: "parse_intpart s = Some (ip, r0)" and v: "number_value neg ip fr ex = Inr v"
    by (auto simp: parse_number_def split: option.splits prod.splits sum.splits)
  have d: "list_all is_digit ip \<and> ip \<noteq> []"
  proof -
    have "is_digit (CHR ''0'')" by (simp add: is_digit_def in_rng_def)
    with ip show ?thesis by (auto simp: parse_intpart_def list_all_iff dest: set_takeWhileD split: list.splits if_splits)
  qed
  have "length (show_nat (read_nat ip)) \<le> length ip"
    using d by (intro show_nat_length_le read_nat_less) auto
  with v show ?thesis by (auto simp: number_value_def Let_def split: if_splits)
qed

lemma parse_atom_read: "parse_atom s = Got v r \<Longrightarrow> as_read d v"
  by (auto simp: parse_atom_def parse_word_def dest: parse_number_read split: list.splits if_splits option.splits)

lemma parse_val_read:
  shows "parse_val d s = Got v r \<Longrightarrow> as_read d v"
    and "parse_elems d s = Got vs r \<Longrightarrow> list_all (as_read d) vs"
    and "parse_members d s = Got kvs r \<Longrightarrow> list_all (\<lambda>kv. as_read d (snd kv)) kvs"
proof (induction d s and d s and d s arbitrary: v r and vs r and kvs r
    rule: parse_val_parse_elems_parse_members.induct)
  case (1 d)
  then show ?case by (simp add: parse_val.simps)
next
  case (2 d c t)
  from "2.prems" "2.IH" show ?case
    by (auto simp: parse_val.simps dest: parse_atom_read [where d = d] split: if_splits list.splits option.splits reading.splits)
next
  case (3 d s)
  from "3.prems" "3.IH" show ?case
    by (subst (asm) parse_elems.simps) (auto split: if_splits list.splits reading.splits)
next
  case (4 d s)
  from "4.prems" "4.IH" show ?case
    by (subst (asm) parse_members.simps) (auto split: if_splits list.splits reading.splits option.splits)
qed

lemma as_read_ok: "as_read d v \<Longrightarrow> strict_json v \<Longrightarrow> json_ok v \<and> depth v \<le> d"
proof (induction v arbitrary: d)
  case (JList xs)
  then have "json_ok x \<and> depth x \<le> d - 1" if "x \<in> set xs" for x
    using that by (auto simp: list_all_iff)
  with JList.prems(1) show ?case by (cases d) (auto simp: list_all_iff fold_max_le)
next
  case (JObj kvs)
  then have "json_ok (snd kv) \<and> depth (snd kv) \<le> d - 1" if "kv \<in> set kvs" for kv
    using JObj.IH [of kv "snd kv" "d - 1"] that by (cases kv) (auto simp: list_all_iff snds.simps)
  with JObj.prems show ?case by (cases d) (auto simp: list_all_iff fold_max_le)
qed auto

lemma load_json_object_ok:
  assumes "load_json_object limit file label = Inr d"
  shows "json_ok (JObj d) \<and> strict_json (JObj d) \<and> depth (JObj d) \<le> limit"
proof -
  obtain t where "loads_pairs limit t = Inr (JObj d)" and s: "strict_json (JObj d)"
    using assms by (auto simp: load_json_object_def decode_json_object_def
        split: file_read.splits option.splits sum.splits json.splits if_splits)
  then have "as_read limit (JObj d)"
    by (auto simp: loads_pairs_def simp del: as_read.simps dest: parse_val_read split: reading.splits if_splits)
  from as_read_ok [OF this s] s show ?thesis by simp
qed

end
