(* ===== verification/Bench_Models.thy ===== *)
theory Bench_Models
  imports Bench_Wire
begin

text \<open>
  src/measure_twice/agent_bench/models.py: the registry of agent profiles, the execution profile of an agent
  benchmark with its budgets and ceilings, and their hashes.  Constructors take raw JSON values and
  return the record or the error raised; the \<open>isinstance\<close> tests on arguments that are records already
  hold by typing and are left out.
\<close>

definition PROVIDERS :: "string list" where "PROVIDERS = [''codex-cli'', ''claude-cli'']"

definition RUN_CLASSES :: "string list" where "RUN_CLASSES = [''smoke'', ''pilot'', ''observation'']"

definition RETRY_CLASSES :: "string list" where
  "RETRY_CLASSES = [''rate-limit'', ''provider-5xx'', ''preterminal-transport'']"

definition EXECUTION_PROFILE_SCHEMA_VERSION :: int where "EXECUTION_PROFILE_SCHEMA_VERSION = 2"

definition SANDBOX_CONTRACT_VERSION :: string where "SANDBOX_CONTRACT_VERSION = ''linux-bwrap-v2''"

definition EVALUATOR_DIRECTORY_ALLOWANCE :: int where "EVALUATOR_DIRECTORY_ALLOWANCE = 10001"

definition EVALUATOR_PAGE_GRANULARITY :: int where "EVALUATOR_PAGE_GRANULARITY = 4096"

definition evaluator_tmpfs_minimum_bytes :: "int \<Rightarrow> int \<Rightarrow> int" where
  "evaluator_tmpfs_minimum_bytes file_bytes files = file_bytes + files * EVALUATOR_PAGE_GRANULARITY"

datatype model_error =
    ModelWire wire_error
  | BadAgentProvider
  | ModelsNotList
  | ModelsEmpty
  | DuplicateModel string
  | NothingSelected
  | DuplicateSelected string
  | UnknownSelected string
  | TerminalCellsDiffer int int
  | TrancheTooSmall
  | TrancheSplitsBlock
  | BandwidthAbove100
  | TmpfsBytesBelow int
  | TmpfsInodesBelow int
  | EligibleNotStrings
  | EligibleDiffers
  | FreshRetriesNotOne
  | RetryCapNot60
  | RetryDelayNot5
  | RunPolicyKeysDiffer
  | RepetitionsNotTwo
  | ConcurrencyNotOne
  | SandboxContractDiffers
  | ScheduleAlgorithmDiffers
  | AnalysisAlgorithmDiffers
  | ProviderAttemptsDiffer string int int
  | SuiteProfileDiffers string string
  | ModelProfileDiffers string string
  | NoDispatcher string
  | MessageTooLong      \<comment> \<open>the plain \<open>ValueError\<close> of printing a number of too many digits\<close>

text \<open>An error whose message prints numbers: beyond the limit on digits, printing them raises instead.\<close>

definition printing :: "int list \<Rightarrow> model_error \<Rightarrow> model_error" where
  "printing ns e = (if list_all (\<lambda>n. length (show_nat (nat \<bar>n\<bar>)) \<le> int_max_str_digits) ns then e else MessageTooLong)"

type_synonym 'a mres = "(model_error, 'a) res"

abbreviation mwire :: "'a wres \<Rightarrow> 'a mres" where "mwire r \<equiv> map_errE ModelWire r"

section \<open>Model specifications\<close>

record model_spec =
  ms_name :: string
  ms_provider :: string
  ms_requested :: string
  ms_effort :: "string option"
  ms_profile_id :: string

definition model_fields :: "string list" where
  "model_fields = [''name'', ''provider'', ''requested_model'', ''effort'', ''execution_profile_id'']"

definition ModelSpec_init :: "json \<Rightarrow> json \<Rightarrow> json \<Rightarrow> json \<Rightarrow> json \<Rightarrow> model_spec mres" where
  "ModelSpec_init name prov requested effort profile_id =
     bindE (mwire (validate_safe_id name ''model.name'')) (\<lambda>n.
     bindE (checkE (is_str prov \<and> the_str prov \<in> set PROVIDERS) BadAgentProvider) (\<lambda>_.
     bindE (mwire (validate_nonempty_string requested ''model.requested_model'')) (\<lambda>r.
     bindE (if effort = JNull then Inr None
            else bindE (mwire (validate_nonempty_string effort ''model.effort'')) (\<lambda>e. Inr (Some e))) (\<lambda>e.
     bindE (mwire (validate_safe_id profile_id ''model.execution_profile_id'')) (\<lambda>p.
       Inr \<lparr>ms_name = n, ms_provider = the_str prov, ms_requested = r, ms_effort = e, ms_profile_id = p\<rparr>)))))"

definition ModelSpec_from_mapping :: "string \<Rightarrow> json \<Rightarrow> model_spec mres" where
  "ModelSpec_from_mapping label v =
     bindE (mwire (wire_exact_keys v model_fields label)) (\<lambda>d.
       ModelSpec_init (fld d ''name'') (fld d ''provider'') (fld d ''requested_model'') (fld d ''effort'')
         (fld d ''execution_profile_id''))"

definition ModelSpec_to_mapping :: "model_spec \<Rightarrow> json" where
  "ModelSpec_to_mapping m = JObj [
     (''name'', JStr (ms_name m)), (''provider'', JStr (ms_provider m)), (''requested_model'', JStr (ms_requested m)),
     (''effort'', case ms_effort m of None \<Rightarrow> JNull | Some e \<Rightarrow> JStr e),
     (''execution_profile_id'', JStr (ms_profile_id m))]"

section \<open>The registry\<close>

record model_registry =
  mr_schema :: int
  mr_models :: "model_spec list"

fun first_repeated :: "string list \<Rightarrow> string list \<Rightarrow> string option" where
  "first_repeated seen [] = None"
| "first_repeated seen (x # xs) = (if x \<in> set seen then Some x else first_repeated (x # seen) xs)"

definition ModelRegistry_init :: "json \<Rightarrow> model_spec list \<Rightarrow> model_registry mres" where
  "ModelRegistry_init schema models =
     bindE (mwire (validate_schema_version schema ''model registry'' 1)) (\<lambda>n.
     bindE (checkE (models \<noteq> []) ModelsEmpty) (\<lambda>_.
       case first_repeated [] (map ms_name models) of
         Some x \<Rightarrow> Inl (DuplicateModel x)
       | None \<Rightarrow> Inr \<lparr>mr_schema = n, mr_models = models\<rparr>))"

definition require_models_list :: "json \<Rightarrow> json list mres" where
  "require_models_list v = (case v of JList vs \<Rightarrow> Inr vs | _ \<Rightarrow> Inl ModelsNotList)"

text \<open>The label of the \<open>i\<close>-th entry is \<open>model registry.models[i]\<close>.\<close>

definition ModelRegistry_from_mapping :: "json \<Rightarrow> model_registry mres" where
  "ModelRegistry_from_mapping v =
     bindE (mwire (wire_exact_keys v [''schema_version'', ''models''] ''model registry'')) (\<lambda>d.
     bindE (mwire (validate_schema_version (fld d ''schema_version'') ''model registry'' 1)) (\<lambda>n.
     bindE (require_models_list (fld d ''models'')) (\<lambda>vs.
     bindE (mapE (\<lambda>(i, m). ModelSpec_from_mapping (''model registry.models['' @ show_nat i @ '']'') m)
              (enumerate 0 vs)) (\<lambda>ms.
       ModelRegistry_init (JInt n) ms))))"

definition ModelRegistry_to_mapping :: "model_registry \<Rightarrow> json" where
  "ModelRegistry_to_mapping r = JObj [
     (''schema_version'', JInt (mr_schema r)), (''models'', JList (map ModelSpec_to_mapping (mr_models r)))]"

text \<open>The loop of \<open>select\<close>: the ids seen so far, the remaining ids with their index.\<close>

fun select_from :: "model_spec list \<Rightarrow> string list \<Rightarrow> nat \<Rightarrow> json list \<Rightarrow> model_spec list mres" where
  "select_from models seen i [] = Inr []"
| "select_from models seen i (v # vs) =
     bindE (mwire (validate_safe_id v (''selected profile ids['' @ show_nat i @ '']''))) (\<lambda>x.
     if x \<in> set seen then Inl (DuplicateSelected x)
     else (case map_of (rev (map (\<lambda>m. (ms_name m, m)) models)) x of
             None \<Rightarrow> Inl (UnknownSelected x)
           | Some m \<Rightarrow> bindE (select_from models (x # seen) (Suc i) vs) (\<lambda>ms. Inr (m # ms))))"

definition select :: "model_registry \<Rightarrow> json list \<Rightarrow> model_spec list mres" where
  "select r ids = (if ids = [] then Inl NothingSelected else select_from (mr_models r) [] 0 ids)"

definition selected_profile_hash :: "externals \<Rightarrow> model_spec list \<Rightarrow> string mres" where
  "selected_profile_hash ext profiles =
     (if profiles = [] then Inl NothingSelected
      else (case first_repeated [] (map ms_name profiles) of
              Some x \<Rightarrow> Inl (DuplicateSelected x)
            | None \<Rightarrow> mwire (wire_sha256 ext (JList (map ModelSpec_to_mapping profiles)))))"

definition selected_hash :: "externals \<Rightarrow> model_registry \<Rightarrow> json list \<Rightarrow> string mres" where
  "selected_hash ext r ids = bindE (select r ids) (selected_profile_hash ext)"

section \<open>Limits and run policies\<close>

record bench_limits =
  li_agent_timeout :: int
  li_evaluator_timeout :: int

definition Limits_init :: "json \<Rightarrow> json \<Rightarrow> bench_limits mres" where
  "Limits_init agent evaluator =
     bindE (mwire (wire_positive_int agent ''limits.agent_timeout_s'')) (\<lambda>a.
     bindE (mwire (wire_positive_int evaluator ''limits.evaluator_timeout_s'')) (\<lambda>e.
       Inr \<lparr>li_agent_timeout = a, li_evaluator_timeout = e\<rparr>))"

definition Limits_from_mapping :: "string \<Rightarrow> json \<Rightarrow> bench_limits mres" where
  "Limits_from_mapping label v =
     bindE (mwire (wire_exact_keys v [''agent_timeout_s'', ''evaluator_timeout_s''] label)) (\<lambda>d.
     bindE (mwire (wire_positive_int (fld d ''agent_timeout_s'') (label @ ''.agent_timeout_s''))) (\<lambda>a.
     bindE (mwire (wire_positive_int (fld d ''evaluator_timeout_s'') (label @ ''.evaluator_timeout_s''))) (\<lambda>e.
       Limits_init (JInt a) (JInt e))))"

definition Limits_to_mapping :: "bench_limits \<Rightarrow> json" where
  "Limits_to_mapping l = JObj [
     (''agent_timeout_s'', JInt (li_agent_timeout l)), (''evaluator_timeout_s'', JInt (li_evaluator_timeout l))]"

record run_policy =
  po_limits :: bench_limits
  po_tasks :: int
  po_models :: int
  po_samples :: int
  po_tranche :: int
  po_terminal :: int
  po_attempts :: int
  po_wall :: int

definition policy_fields :: "string list" where
  "policy_fields = [''task_count'', ''model_count'', ''samples'', ''max_cells_per_tranche'', ''terminal_cells'',
     ''provider_attempts'', ''wall_s'']"

definition policy_numbers :: "run_policy \<Rightarrow> int list" where
  "policy_numbers p = [po_tasks p, po_models p, po_samples p, po_tranche p, po_terminal p, po_attempts p, po_wall p]"

definition RunPolicy_init :: "run_policy \<Rightarrow> run_policy mres" where
  "RunPolicy_init p =
     bindE (mapE (\<lambda>(name, n). mwire (wire_positive_int (JInt n) (''run policy.'' @ name)))
              (zip policy_fields (policy_numbers p))) (\<lambda>_.
     bindE (let expected = po_tasks p * po_models p * po_samples p
            in checkE (po_terminal p = expected) (printing [expected, po_terminal p] (TerminalCellsDiffer expected (po_terminal p)))) (\<lambda>_.
     bindE (checkE (po_models p \<le> po_tranche p) TrancheTooSmall) (\<lambda>_.
     bindE (checkE (po_tranche p mod po_models p = 0) TrancheSplitsBlock) (\<lambda>_.
       Inr p))))"

definition policy_with :: "bench_limits \<Rightarrow> int list \<Rightarrow> run_policy" where
  "policy_with l xs = \<lparr>po_limits = l, po_tasks = xs ! 0, po_models = xs ! 1, po_samples = xs ! 2,
     po_tranche = xs ! 3, po_terminal = xs ! 4, po_attempts = xs ! 5, po_wall = xs ! 6\<rparr>"

definition RunPolicy_from_mapping :: "string \<Rightarrow> json \<Rightarrow> run_policy mres" where
  "RunPolicy_from_mapping label v =
     bindE (mwire (wire_exact_keys v (''limits'' # policy_fields) label)) (\<lambda>d.
     bindE (Limits_from_mapping (label @ ''.limits'') (fld d ''limits'')) (\<lambda>l.
     bindE (mapE (\<lambda>name. mwire (wire_positive_int (fld d name) (label @ ''.'' @ name))) policy_fields) (\<lambda>xs.
       RunPolicy_init (policy_with l xs))))"

definition RunPolicy_to_mapping :: "run_policy \<Rightarrow> json" where
  "RunPolicy_to_mapping p =
     JObj ((''limits'', Limits_to_mapping (po_limits p)) # zip policy_fields (map JInt (policy_numbers p)))"

section \<open>Ceilings and retries\<close>

record ceilings =
  ce_changed_paths :: int
  ce_patch_bytes :: int
  ce_stream_bytes :: int
  ce_artifact_bytes :: int
  ce_cpu_s :: int
  ce_memory_bytes :: int
  ce_processes :: int
  ce_files :: int
  ce_file_bytes :: int
  ce_bandwidth :: int
  ce_tmpfs_bytes :: int
  ce_tmpfs_inodes :: int

definition ceiling_fields :: "string list" where
  "ceiling_fields = [''changed_paths'', ''patch_bytes'', ''stream_bytes_each'', ''cell_artifact_bytes'',
     ''evaluator_cpu_s'', ''evaluator_memory_bytes'', ''evaluator_processes'', ''evaluator_files'',
     ''evaluator_file_bytes'', ''evaluator_cpu_bandwidth_percent'', ''evaluator_tmpfs_bytes'',
     ''evaluator_tmpfs_inodes'']"

definition ceiling_numbers :: "ceilings \<Rightarrow> int list" where
  "ceiling_numbers c = [ce_changed_paths c, ce_patch_bytes c, ce_stream_bytes c, ce_artifact_bytes c, ce_cpu_s c,
     ce_memory_bytes c, ce_processes c, ce_files c, ce_file_bytes c, ce_bandwidth c, ce_tmpfs_bytes c,
     ce_tmpfs_inodes c]"

definition Ceilings_init :: "ceilings \<Rightarrow> ceilings mres" where
  "Ceilings_init c =
     bindE (mapE (\<lambda>(name, n). mwire (wire_positive_int (JInt n) (''ceilings.'' @ name)))
              (zip ceiling_fields (ceiling_numbers c))) (\<lambda>_.
     bindE (checkE (ce_bandwidth c \<le> 100) BandwidthAbove100) (\<lambda>_.
     bindE (let minimum = evaluator_tmpfs_minimum_bytes (ce_file_bytes c) (ce_files c)
            in checkE (minimum \<le> ce_tmpfs_bytes c) (printing [minimum] (TmpfsBytesBelow minimum))) (\<lambda>_.
     bindE (let minimum = ce_files c + EVALUATOR_DIRECTORY_ALLOWANCE
            in checkE (minimum \<le> ce_tmpfs_inodes c) (printing [minimum] (TmpfsInodesBelow minimum))) (\<lambda>_.
       Inr c))))"

definition ceilings_with :: "int list \<Rightarrow> ceilings" where
  "ceilings_with xs = \<lparr>ce_changed_paths = xs ! 0, ce_patch_bytes = xs ! 1, ce_stream_bytes = xs ! 2,
     ce_artifact_bytes = xs ! 3, ce_cpu_s = xs ! 4, ce_memory_bytes = xs ! 5, ce_processes = xs ! 6,
     ce_files = xs ! 7, ce_file_bytes = xs ! 8, ce_bandwidth = xs ! 9, ce_tmpfs_bytes = xs ! 10,
     ce_tmpfs_inodes = xs ! 11\<rparr>"

definition Ceilings_from_mapping :: "json \<Rightarrow> ceilings mres" where
  "Ceilings_from_mapping v =
     bindE (mwire (wire_exact_keys v ceiling_fields ''execution profile.ceilings'')) (\<lambda>d.
     bindE (mapE (\<lambda>name. mwire (wire_positive_int (fld d name) (''execution profile.ceilings.'' @ name)))
              ceiling_fields) (\<lambda>xs.
       Ceilings_init (ceilings_with xs)))"

definition Ceilings_to_mapping :: "ceilings \<Rightarrow> json" where
  "Ceilings_to_mapping c = JObj (zip ceiling_fields (map JInt (ceiling_numbers c)))"

record retry_policy =
  rt_eligible :: "string list"
  rt_fresh :: int
  rt_cap :: int
  rt_delay :: int

definition retry_fields :: "string list" where
  "retry_fields = [''eligible'', ''max_fresh_retries'', ''retry_after_cap_s'', ''default_delay_s'']"

definition RetryPolicy_init :: "json \<Rightarrow> json \<Rightarrow> json \<Rightarrow> json \<Rightarrow> retry_policy mres" where
  "RetryPolicy_init eligible fresh cap delay = (case eligible of
     JList vs \<Rightarrow>
       (if \<not> list_all is_str vs then Inl EligibleNotStrings
        else if map the_str vs \<noteq> RETRY_CLASSES then Inl EligibleDiffers
        else if fresh \<noteq> JInt 1 then Inl FreshRetriesNotOne
        else if cap \<noteq> JInt 60 then Inl RetryCapNot60
        else if delay \<noteq> JInt 5 then Inl RetryDelayNot5
        else Inr \<lparr>rt_eligible = RETRY_CLASSES, rt_fresh = 1, rt_cap = 60, rt_delay = 5\<rparr>)
   | _ \<Rightarrow> Inl EligibleNotStrings)"

definition RetryPolicy_from_mapping :: "json \<Rightarrow> retry_policy mres" where
  "RetryPolicy_from_mapping v =
     bindE (mwire (wire_exact_keys v retry_fields ''execution profile.retry'')) (\<lambda>d.
       RetryPolicy_init (fld d ''eligible'') (fld d ''max_fresh_retries'') (fld d ''retry_after_cap_s'')
         (fld d ''default_delay_s''))"

definition RetryPolicy_to_mapping :: "retry_policy \<Rightarrow> json" where
  "RetryPolicy_to_mapping r = JObj [
     (''eligible'', strs_json (rt_eligible r)), (''max_fresh_retries'', JInt (rt_fresh r)),
     (''retry_after_cap_s'', JInt (rt_cap r)), (''default_delay_s'', JInt (rt_delay r))]"

section \<open>The execution profile\<close>

record bench_profile =
  bp_schema :: int
  bp_id :: string
  bp_limits :: bench_limits
  bp_policies :: "(string \<times> run_policy) list"
  bp_repetitions :: int
  bp_concurrency :: int
  bp_ceilings :: ceilings
  bp_retry :: retry_policy
  bp_sandbox :: string
  bp_schedule :: string
  bp_analysis :: string

definition profile_keys :: "string list" where
  "profile_keys = [''schema_version'', ''id'', ''qualification_limits'', ''run_policy'', ''repetitions'',
     ''concurrency'', ''ceilings'', ''retry'', ''sandbox_contract_version'', ''schedule_algorithm'',
     ''analysis_algorithm'']"

definition ExecutionProfile_init ::
    "json \<Rightarrow> json \<Rightarrow> bench_limits \<Rightarrow> (string \<times> run_policy) list \<Rightarrow> json \<Rightarrow> json \<Rightarrow> ceilings \<Rightarrow> retry_policy
      \<Rightarrow> json \<Rightarrow> json \<Rightarrow> json \<Rightarrow> bench_profile mres" where
  "ExecutionProfile_init schema pid limits policies repetitions concurrency ceil retry sandbox schedule analysis =
     bindE (mwire (validate_schema_version schema ''execution profile'' EXECUTION_PROFILE_SCHEMA_VERSION)) (\<lambda>n.
     bindE (mwire (validate_safe_id pid ''execution profile.id'')) (\<lambda>i.
     bindE (checkE (set (keys policies) = set RUN_CLASSES) RunPolicyKeysDiffer) (\<lambda>_.
     bindE (checkE (repetitions = JInt 2) RepetitionsNotTwo) (\<lambda>_.
     bindE (checkE (concurrency = JInt 1) ConcurrencyNotOne) (\<lambda>_.
     bindE (checkE (sandbox = JStr SANDBOX_CONTRACT_VERSION) SandboxContractDiffers) (\<lambda>_.
     bindE (checkE (schedule = JStr ''schedule-v1'') ScheduleAlgorithmDiffers) (\<lambda>_.
     bindE (checkE (analysis = JStr ''bootstrap-v1'') AnalysisAlgorithmDiffers) (\<lambda>_.
     bindE (seqE (map (\<lambda>(c, p). let expected = po_terminal p * (1 + rt_fresh retry)
              in checkE (po_attempts p = expected) (printing [expected, po_attempts p] (ProviderAttemptsDiffer c expected (po_attempts p)))) policies)) (\<lambda>_.
       Inr \<lparr>bp_schema = n, bp_id = i, bp_limits = limits, bp_policies = policies, bp_repetitions = 2,
         bp_concurrency = 1, bp_ceilings = ceil, bp_retry = retry, bp_sandbox = SANDBOX_CONTRACT_VERSION,
         bp_schedule = ''schedule-v1'', bp_analysis = ''bootstrap-v1''\<rparr>)))))))))"

definition policies_from :: "(string \<times> json) list \<Rightarrow> (string \<times> run_policy) list mres" where
  "policies_from d = mapE (\<lambda>c.
     bindE (RunPolicy_from_mapping (''execution profile.run_policy.'' @ c) (fld d c)) (\<lambda>p. Inr (c, p))) RUN_CLASSES"

definition ExecutionProfile_from_mapping :: "json \<Rightarrow> bench_profile mres" where
  "ExecutionProfile_from_mapping v =
     bindE (mwire (wire_exact_keys v profile_keys ''execution profile'')) (\<lambda>d.
     bindE (mwire (validate_schema_version (fld d ''schema_version'') ''execution profile''
              EXECUTION_PROFILE_SCHEMA_VERSION)) (\<lambda>n.
     bindE (mwire (wire_exact_keys (fld d ''run_policy'') RUN_CLASSES ''execution profile.run_policy'')) (\<lambda>raw.
     bindE (policies_from raw) (\<lambda>policies.
     bindE (Limits_from_mapping ''execution profile.qualification_limits'' (fld d ''qualification_limits'')) (\<lambda>limits.
     bindE (Ceilings_from_mapping (fld d ''ceilings'')) (\<lambda>ceil.
     bindE (RetryPolicy_from_mapping (fld d ''retry'')) (\<lambda>retry.
       ExecutionProfile_init (JInt n) (fld d ''id'') limits policies (fld d ''repetitions'') (fld d ''concurrency'')
         ceil retry (fld d ''sandbox_contract_version'') (fld d ''schedule_algorithm'')
         (fld d ''analysis_algorithm''))))))))"

definition policy_of :: "bench_profile \<Rightarrow> string \<Rightarrow> run_policy" where
  "policy_of p c = the (map_of (bp_policies p) c)"

definition ExecutionProfile_to_mapping :: "bench_profile \<Rightarrow> json" where
  "ExecutionProfile_to_mapping p = JObj [
     (''schema_version'', JInt (bp_schema p)), (''id'', JStr (bp_id p)),
     (''qualification_limits'', Limits_to_mapping (bp_limits p)),
     (''run_policy'', JObj (map (\<lambda>c. (c, RunPolicy_to_mapping (policy_of p c))) RUN_CLASSES)),
     (''repetitions'', JInt (bp_repetitions p)), (''concurrency'', JInt (bp_concurrency p)),
     (''ceilings'', Ceilings_to_mapping (bp_ceilings p)), (''retry'', RetryPolicy_to_mapping (bp_retry p)),
     (''sandbox_contract_version'', JStr (bp_sandbox p)), (''schedule_algorithm'', JStr (bp_schedule p)),
     (''analysis_algorithm'', JStr (bp_analysis p))]"

definition load_model_registry :: "nat \<Rightarrow> file_read \<Rightarrow> model_registry mres" where
  "load_model_registry limit file =
     bindE (mwire (load_json_object limit file ''model registry'')) (\<lambda>d. ModelRegistry_from_mapping (JObj d))"

definition load_execution_profile :: "nat \<Rightarrow> file_read \<Rightarrow> bench_profile mres" where
  "load_execution_profile limit file =
     bindE (mwire (load_json_object limit file ''execution profile'')) (\<lambda>d. ExecutionProfile_from_mapping (JObj d))"

definition execution_profile_hash :: "externals \<Rightarrow> bench_profile \<Rightarrow> string mres" where
  "execution_profile_hash ext p = mwire (wire_sha256 ext (ExecutionProfile_to_mapping p))"

section \<open>Binding a suite, its models and its profile\<close>

definition validate_execution_profile_binding ::
    "bench_profile \<Rightarrow> json \<Rightarrow> model_spec list \<Rightarrow> unit mres" where
  "validate_execution_profile_binding p suite_profile_id selected =
     bindE (mwire (validate_safe_id suite_profile_id ''suite.execution_profile_id'')) (\<lambda>i.
     bindE (checkE (i = bp_id p) (SuiteProfileDiffers i (bp_id p))) (\<lambda>_.
       seqE (map (\<lambda>m. checkE (ms_profile_id m = bp_id p) (ModelProfileDiffers (ms_name m) (ms_profile_id m))) selected)))"

definition dispatch_by_provider :: "model_spec \<Rightarrow> (string \<Rightarrow> (model_spec \<Rightarrow> 'a) option) \<Rightarrow> 'a mres" where
  "dispatch_by_provider m dispatchers = (case dispatchers (ms_provider m) of
     None \<Rightarrow> Inl (NoDispatcher (ms_provider m))
   | Some f \<Rightarrow> Inr (f m))"

section \<open>What every constructor establishes\<close>

definition model_ok :: "model_spec \<Rightarrow> bool" where
  "model_ok m \<longleftrightarrow> safe_id (ms_name m) \<and> ms_provider m \<in> set PROVIDERS \<and> strip (ms_requested m) \<noteq> [] \<and>
     (\<forall>e. ms_effort m = Some e \<longrightarrow> strip e \<noteq> []) \<and> safe_id (ms_profile_id m)"

definition registry_ok :: "model_registry \<Rightarrow> bool" where
  "registry_ok r \<longleftrightarrow> mr_schema r = 1 \<and> mr_models r \<noteq> [] \<and> list_all model_ok (mr_models r) \<and>
     distinct (map ms_name (mr_models r))"

definition limits_ok :: "bench_limits \<Rightarrow> bool" where
  "limits_ok l \<longleftrightarrow> 0 < li_agent_timeout l \<and> 0 < li_evaluator_timeout l"

definition counts_ok :: "run_policy \<Rightarrow> bool" where
  "counts_ok p \<longleftrightarrow> list_all (\<lambda>n. 0 < n) (policy_numbers p) \<and>
     po_terminal p = po_tasks p * po_models p * po_samples p \<and> po_models p \<le> po_tranche p \<and>
     po_models p dvd po_tranche p"

definition policy_ok :: "run_policy \<Rightarrow> bool" where
  "policy_ok p \<longleftrightarrow> limits_ok (po_limits p) \<and> counts_ok p"

definition ceilings_ok :: "ceilings \<Rightarrow> bool" where
  "ceilings_ok c \<longleftrightarrow> list_all (\<lambda>n. 0 < n) (ceiling_numbers c) \<and> ce_bandwidth c \<le> 100 \<and>
     ce_file_bytes c + 4096 * ce_files c \<le> ce_tmpfs_bytes c \<and> ce_files c + 10001 \<le> ce_tmpfs_inodes c"

definition standard_retry :: retry_policy where
  "standard_retry = \<lparr>rt_eligible = RETRY_CLASSES, rt_fresh = 1, rt_cap = 60, rt_delay = 5\<rparr>"

definition bench_profile_ok :: "bench_profile \<Rightarrow> bool" where
  "bench_profile_ok p \<longleftrightarrow> bp_schema p = 2 \<and> safe_id (bp_id p) \<and> limits_ok (bp_limits p) \<and>
     keys (bp_policies p) = RUN_CLASSES \<and>
     list_all (\<lambda>(c, q). policy_ok q \<and> po_attempts q = 2 * po_terminal q) (bp_policies p) \<and>
     bp_repetitions p = 2 \<and> bp_concurrency p = 1 \<and> ceilings_ok (bp_ceilings p) \<and> bp_retry p = standard_retry \<and>
     bp_sandbox p = SANDBOX_CONTRACT_VERSION \<and> bp_schedule p = ''schedule-v1'' \<and> bp_analysis p = ''bootstrap-v1''"

lemma is_str_iff: "is_str v \<longleftrightarrow> (\<exists>s. v = JStr s)"
  by (cases v) auto

lemma ModelSpec_init_Inr:
  "ModelSpec_init name prov requested effort profile_id = Inr m \<longleftrightarrow>
     name = JStr (ms_name m) \<and> prov = JStr (ms_provider m) \<and> requested = JStr (ms_requested m) \<and>
     effort = (case ms_effort m of None \<Rightarrow> JNull | Some e \<Rightarrow> JStr e) \<and> profile_id = JStr (ms_profile_id m) \<and> model_ok m"
  by (cases m; cases "effort = JNull")
    (auto simp: ModelSpec_init_def res_simps wire_simps model_ok_def is_str_iff split: option.splits)

lemma ModelSpec_roundtrip: "model_ok m \<Longrightarrow> ModelSpec_from_mapping label (ModelSpec_to_mapping m) = Inr m"
  by (simp add: ModelSpec_from_mapping_def ModelSpec_to_mapping_def res_simps wire_simps model_fields_def keys_def
      fld_Cons ModelSpec_init_Inr)

lemma ModelSpec_from_ok: "ModelSpec_from_mapping label v = Inr m \<Longrightarrow> model_ok m"
  by (auto simp: ModelSpec_from_mapping_def res_simps ModelSpec_init_Inr)

interpretation specs: mapping_codec ModelSpec_to_mapping "ModelSpec_from_mapping label" model_ok for label
  by unfold_locales (simp_all add: ModelSpec_from_ok ModelSpec_roundtrip)

lemma first_repeated_None: "first_repeated seen xs = None \<longleftrightarrow> distinct xs \<and> set xs \<inter> set seen = {}"
  by (induction xs arbitrary: seen) auto

lemma unrepeated_Inr [wire_simps]:
  "(case first_repeated [] xs of Some x \<Rightarrow> Inl (g x) | None \<Rightarrow> r) = Inr y \<longleftrightarrow> distinct xs \<and> r = Inr y"
  using first_repeated_None [of "[]" xs] by (cases "first_repeated [] xs") auto

lemma ModelRegistry_init_Inr:
  "ModelRegistry_init schema ms = Inr r \<longleftrightarrow>
     schema = JInt 1 \<and> mr_schema r = 1 \<and> mr_models r = ms \<and> ms \<noteq> [] \<and> distinct (map ms_name ms)"
  by (cases r) (auto simp: ModelRegistry_init_def res_simps wire_simps)

lemma labelled_specs:
  "list_all model_ok ms \<Longrightarrow>
     mapE (\<lambda>(i, m). ModelSpec_from_mapping (f i) m) (enumerate k (map ModelSpec_to_mapping ms)) = Inr ms"
  by (induction ms arbitrary: k) (simp_all add: ModelSpec_roundtrip)

lemma labelled_specs_ok:
  "mapE (\<lambda>(i, m). ModelSpec_from_mapping (f i) m) (enumerate k vs) = Inr ms \<Longrightarrow> list_all model_ok ms"
  by (auto simp: list_all_iff split_beta dest!: mapE_in_set dest: ModelSpec_from_ok)

lemma require_models_list_Inr [wire_simps]: "require_models_list v = Inr vs \<longleftrightarrow> v = JList vs"
  by (cases v) (simp_all add: require_models_list_def)

lemma registry_roundtrip: "registry_ok r \<Longrightarrow> ModelRegistry_from_mapping (ModelRegistry_to_mapping r) = Inr r"
  by (simp add: ModelRegistry_from_mapping_def ModelRegistry_to_mapping_def res_simps wire_simps keys_def fld_Cons
      ModelRegistry_init_Inr registry_ok_def labelled_specs)

lemma registry_from_ok:
  assumes "ModelRegistry_from_mapping v = Inr r"
  shows "registry_ok r"
proof -
  obtain vs ms where "mapE (\<lambda>(i, m). ModelSpec_from_mapping (''model registry.models['' @ show_nat i @ '']'') m)
        (enumerate 0 vs) = Inr ms"
    and "ModelRegistry_init (JInt 1) ms = Inr r"
    using assms unfolding ModelRegistry_from_mapping_def bindE_Inr_iff map_errE_Inr_iff validate_schema_version_Inr
    by blast
  with labelled_specs_ok [OF this(1)] show ?thesis by (simp add: registry_ok_def ModelRegistry_init_Inr)
qed

interpretation registries: mapping_codec ModelRegistry_to_mapping ModelRegistry_from_mapping registry_ok
  by unfold_locales (simp_all add: registry_from_ok registry_roundtrip)

lemma Limits_init_Inr:
  "Limits_init a e = Inr l \<longleftrightarrow> a = JInt (li_agent_timeout l) \<and> e = JInt (li_evaluator_timeout l) \<and> limits_ok l"
  by (cases l) (auto simp: Limits_init_def res_simps wire_simps limits_ok_def)

interpretation limits: mapping_codec Limits_to_mapping "Limits_from_mapping label" limits_ok for label
  by unfold_locales
    (auto simp: Limits_from_mapping_def Limits_to_mapping_def res_simps wire_simps keys_def fld_Cons Limits_init_Inr
      limits_ok_def)

lemma RunPolicy_init_Inr: "RunPolicy_init p = Inr q \<longleftrightarrow> q = p \<and> counts_ok p"
  by (auto simp: RunPolicy_init_def res_simps wire_simps mapE_Inr_iff counts_ok_def policy_fields_def
      policy_numbers_def list_all2_Cons1 Let_def dvd_eq_mod_eq_0)

lemma mapE_positive:
  "mapE (\<lambda>name. mwire (wire_positive_int (fld d name) (f name))) names = Inr xs \<longleftrightarrow>
     map (fld d) names = map JInt xs \<and> list_all (\<lambda>n. 0 < n) xs"
proof (induction names arbitrary: xs)
  case (Cons name names)
  then show ?case by (cases xs) (simp_all add: bindE_Inr_iff map_errE_Inr_iff wire_positive_int_Inr; blast)+
qed auto

lemma keys_zip_map: "length names = length ns \<Longrightarrow> keys (zip names (map JInt ns)) = names"
  by (simp add: keys_def)

lemma fld_zip_ints:
  "distinct names \<Longrightarrow> length names = length ns \<Longrightarrow> map (fld (zip names (map JInt ns))) names = map JInt ns"
  by (auto simp: fld_def map_of_zip_nth intro!: nth_equalityI)

lemma policy_with_numbers: "policy_with (po_limits p) (policy_numbers p) = p"
  by (cases p) (simp add: policy_with_def policy_numbers_def)

lemma ceilings_with_numbers: "ceilings_with (ceiling_numbers c) = c"
  by (cases c) (simp add: ceilings_with_def ceiling_numbers_def)

lemma RunPolicy_roundtrip: "policy_ok p \<Longrightarrow> RunPolicy_from_mapping label (RunPolicy_to_mapping p) = Inr p"
proof -
  assume p: "policy_ok p"
  let ?d = "(''limits'', Limits_to_mapping (po_limits p)) # zip policy_fields (map JInt (policy_numbers p))"
  have len: "length policy_fields = length (policy_numbers p)"
    by (simp add: policy_fields_def policy_numbers_def)
  have new: "''limits'' \<notin> set policy_fields" "distinct policy_fields" by (simp_all add: policy_fields_def)
  have "map (fld ?d) policy_fields = map (fld (zip policy_fields (map JInt (policy_numbers p)))) policy_fields"
    using new(1) by (auto simp: fld_Cons)
  then have "mapE (\<lambda>name. mwire (wire_positive_int (fld ?d name) (label @ CHR ''.'' # name))) policy_fields
      = Inr (policy_numbers p)"
    using p by (simp add: mapE_positive fld_zip_ints [OF new(2) len] policy_ok_def counts_ok_def)
  moreover have "wire_exact_keys (JObj ?d) (''limits'' # policy_fields) label = Inr ?d"
    by (simp add: wire_exact_keys_Inr keys_zip_map [OF len, unfolded keys_def] keys_def)
  moreover have "Limits_from_mapping (label @ ''.limits'') (fld ?d ''limits'') = Inr (po_limits p)"
    using p by (simp add: fld_Cons limits.from_to policy_ok_def)
  ultimately show ?thesis
    using p by (simp add: RunPolicy_from_mapping_def RunPolicy_to_mapping_def bindE_Inr_iff map_errE_Inr_iff
        RunPolicy_init_Inr policy_ok_def policy_with_numbers)
qed

lemma RunPolicy_from_ok:
  assumes "RunPolicy_from_mapping label v = Inr p"
  shows "policy_ok p"
proof -
  obtain d l xs where "Limits_from_mapping (label @ ''.limits'') (fld d ''limits'') = Inr l"
    and "RunPolicy_init (policy_with l xs) = Inr p"
    using assms unfolding RunPolicy_from_mapping_def bindE_Inr_iff map_errE_Inr_iff by blast
  with limits.from_ok [OF this(1)] show ?thesis by (auto simp: RunPolicy_init_Inr policy_ok_def policy_with_def)
qed

interpretation policies: mapping_codec RunPolicy_to_mapping "RunPolicy_from_mapping label" policy_ok for label
  by unfold_locales (simp_all add: RunPolicy_from_ok RunPolicy_roundtrip)

lemma Ceilings_init_Inr: "Ceilings_init c = Inr q \<longleftrightarrow> q = c \<and> ceilings_ok c"
  by (auto simp: Ceilings_init_def res_simps wire_simps mapE_Inr_iff ceilings_ok_def ceiling_fields_def
      ceiling_numbers_def list_all2_Cons1 Let_def evaluator_tmpfs_minimum_bytes_def EVALUATOR_PAGE_GRANULARITY_def
      EVALUATOR_DIRECTORY_ALLOWANCE_def)

lemma Ceilings_roundtrip: "ceilings_ok c \<Longrightarrow> Ceilings_from_mapping (Ceilings_to_mapping c) = Inr c"
proof -
  assume c: "ceilings_ok c"
  let ?d = "zip ceiling_fields (map JInt (ceiling_numbers c))"
  have len: "length ceiling_fields = length (ceiling_numbers c)"
    by (simp add: ceiling_fields_def ceiling_numbers_def)
  have "distinct ceiling_fields" by (simp add: ceiling_fields_def)
  then have "mapE (\<lambda>name. mwire (wire_positive_int (fld ?d name) (''execution profile.ceilings.'' @ name)))
      ceiling_fields = Inr (ceiling_numbers c)"
    using c by (simp add: mapE_positive fld_zip_ints [OF _ len] ceilings_ok_def)
  then show ?thesis
    using c by (simp add: Ceilings_from_mapping_def Ceilings_to_mapping_def bindE_Inr_iff map_errE_Inr_iff
        wire_exact_keys_Inr keys_zip_map [OF len] Ceilings_init_Inr ceilings_with_numbers)
qed

lemma Ceilings_from_ok: "Ceilings_from_mapping v = Inr c \<Longrightarrow> ceilings_ok c"
  unfolding Ceilings_from_mapping_def bindE_Inr_iff Ceilings_init_Inr by blast

interpretation ceils: mapping_codec Ceilings_to_mapping Ceilings_from_mapping ceilings_ok
  by unfold_locales (simp_all add: Ceilings_from_ok Ceilings_roundtrip)

lemma strs_of_iff: "list_all is_str vs \<and> map the_str vs = xs \<longleftrightarrow> vs = map JStr xs"
proof
  assume "list_all is_str vs \<and> map the_str vs = xs"
  moreover have "list_all is_str vs \<Longrightarrow> map JStr (map the_str vs) = vs"
    by (induction vs) (auto simp: is_str_iff)
  ultimately show "vs = map JStr xs" by metis
qed (simp add: list_all_iff comp_def)

lemma RetryPolicy_init_Inr:
  "RetryPolicy_init e f c d = Inr r \<longleftrightarrow>
     e = strs_json RETRY_CLASSES \<and> f = JInt 1 \<and> c = JInt 60 \<and> d = JInt 5 \<and> r = standard_retry"
proof -
  show ?thesis using strs_of_iff [where xs = RETRY_CLASSES]
    by (cases e) (auto simp: RetryPolicy_init_def strs_json_def standard_retry_def)
qed

interpretation retries: mapping_codec RetryPolicy_to_mapping RetryPolicy_from_mapping "\<lambda>r. r = standard_retry"
proof
  fix v r assume "RetryPolicy_from_mapping v = Inr r"
  then show "r = standard_retry"
    unfolding RetryPolicy_from_mapping_def bindE_Inr_iff RetryPolicy_init_Inr by blast
next
  fix r assume "r = standard_retry"
  then show "RetryPolicy_from_mapping (RetryPolicy_to_mapping r) = Inr r"
    by (simp add: RetryPolicy_from_mapping_def RetryPolicy_to_mapping_def bindE_Inr_iff map_errE_Inr_iff
        wire_exact_keys_Inr keys_def fld_Cons RetryPolicy_init_Inr retry_fields_def) (simp add: standard_retry_def)
qed

section \<open>The execution profile as a codec\<close>

lemma ExecutionProfile_init_Inr:
  "ExecutionProfile_init schema pid limits policies repetitions concurrency ceil retry sandbox schedule analysis = Inr p
    \<longleftrightarrow> schema = JInt 2 \<and> pid = JStr (bp_id p) \<and> safe_id (bp_id p) \<and> set (keys policies) = set RUN_CLASSES \<and>
      repetitions = JInt 2 \<and> concurrency = JInt 1 \<and> sandbox = JStr SANDBOX_CONTRACT_VERSION \<and>
      schedule = JStr ''schedule-v1'' \<and> analysis = JStr ''bootstrap-v1'' \<and>
      list_all (\<lambda>(c, q). po_attempts q = po_terminal q * (1 + rt_fresh retry)) policies \<and>
      p = \<lparr>bp_schema = 2, bp_id = bp_id p, bp_limits = limits, bp_policies = policies, bp_repetitions = 2,
         bp_concurrency = 1, bp_ceilings = ceil, bp_retry = retry, bp_sandbox = SANDBOX_CONTRACT_VERSION,
         bp_schedule = ''schedule-v1'', bp_analysis = ''bootstrap-v1''\<rparr>"
  by (cases p) (auto simp: ExecutionProfile_init_def bindE_Inr_iff map_errE_Inr_iff checkE_Inr_iff seqE_Inr_iff
      validate_schema_version_Inr validate_safe_id_Inr EXECUTION_PROFILE_SCHEMA_VERSION_def list_all_iff Let_def)

lemma policies_from_ok:
  assumes "policies_from d = Inr ps"
  shows "keys ps = RUN_CLASSES \<and> list_all (\<lambda>(c, q). policy_ok q) ps"
proof -
  let ?f = "\<lambda>c. bindE (RunPolicy_from_mapping (''execution profile.run_policy.'' @ c) (fld d c)) (\<lambda>p. Inr (c, p))"
  have m: "mapE ?f RUN_CLASSES = Inr ps" using assms by (simp only: policies_from_def)
  have "list_all2 (\<lambda>c kv. ?f c = Inr kv) RUN_CLASSES ps" using m by (simp only: mapE_Inr_iff)
  then have "list_all2 (\<lambda>c kv. c = fst kv) RUN_CLASSES ps"
    by (rule list_all2_mono) (auto simp only: bindE_Inr_iff sum.inject fst_conv)
  then have "keys ps = RUN_CLASSES" by (auto simp: list_all2_conv_all_nth keys_def intro: nth_equalityI)
  moreover have "policy_ok (snd kv)" if "kv \<in> set ps" for kv
    using mapE_in_set [OF m that] unfolding bindE_Inr_iff by (auto dest: policies.from_ok)
  ultimately show ?thesis by (auto simp: list_all_iff)
qed

lemma policies_from_policies:
  assumes "keys ps = RUN_CLASSES" and "list_all (\<lambda>(c, q). policy_ok q) ps"
  shows "policies_from (map (\<lambda>c. (c, RunPolicy_to_mapping (the (map_of ps c)))) RUN_CLASSES) = Inr ps"
proof -
  obtain a b c where ps: "ps = [(''smoke'', a), (''pilot'', b), (''observation'', c)]"
    using assms(1) by (auto simp: keys_def RUN_CLASSES_def map_eq_Cons_conv)
  from assms(2) show ?thesis
    by (simp add: ps policies_from_def RUN_CLASSES_def fld_Cons RunPolicy_roundtrip)
qed

lemma bench_profile_roundtrip:
  assumes "bench_profile_ok p"
  shows "ExecutionProfile_from_mapping (ExecutionProfile_to_mapping p) = Inr p"
proof -
  have p: "keys (bp_policies p) = RUN_CLASSES" "list_all (\<lambda>(c, q). policy_ok q) (bp_policies p)"
    using assms by (auto simp: bench_profile_ok_def list_all_iff)
  let ?m = "map (\<lambda>c. (c, RunPolicy_to_mapping (policy_of p c))) RUN_CLASSES"
  have "wire_exact_keys (JObj ?m) RUN_CLASSES ''execution profile.run_policy'' = Inr ?m"
    by (simp add: wire_exact_keys_Inr keys_def comp_def)
  moreover have "policies_from ?m = Inr (bp_policies p)"
    using policies_from_policies [OF p] by (simp add: policy_of_def)
  moreover have "fst ` set (bp_policies p) = set RUN_CLASSES"
    using p(1) by (metis keys_def set_map)
  moreover have "\<forall>(c, q) \<in> set (bp_policies p). po_attempts q = po_terminal q * 2"
    using assms by (auto simp: bench_profile_ok_def list_all_iff)
  ultimately show ?thesis
    using assms unfolding ExecutionProfile_from_mapping_def ExecutionProfile_to_mapping_def
    by (cases p) (simp add: bindE_Inr_iff map_errE_Inr_iff wire_exact_keys_Inr profile_keys_def keys_def fld_Cons
      validate_schema_version_Inr EXECUTION_PROFILE_SCHEMA_VERSION_def limits.from_to ceils.from_to retries.from_to
      ExecutionProfile_init_Inr bench_profile_ok_def list_all_iff standard_retry_def image_image)
qed

lemma bench_profile_from_ok:
  assumes "ExecutionProfile_from_mapping v = Inr p"
  shows "bench_profile_ok p"
proof -
  obtain d raw n ps l c r where f: "policies_from raw = Inr ps"
    "Limits_from_mapping ''execution profile.qualification_limits'' (fld d ''qualification_limits'') = Inr l"
    "Ceilings_from_mapping (fld d ''ceilings'') = Inr c" "RetryPolicy_from_mapping (fld d ''retry'') = Inr r"
    "ExecutionProfile_init (JInt n) (fld d ''id'') l ps (fld d ''repetitions'') (fld d ''concurrency'')
       c r (fld d ''sandbox_contract_version'') (fld d ''schedule_algorithm'') (fld d ''analysis_algorithm'') = Inr p"
    using assms unfolding ExecutionProfile_from_mapping_def bindE_Inr_iff map_errE_Inr_iff by blast
  show ?thesis
    using f(5) limits.from_ok [OF f(2)] ceils.from_ok [OF f(3)] retries.from_ok [OF f(4)] policies_from_ok [OF f(1)]
    unfolding ExecutionProfile_init_Inr
    by (cases p) (auto simp: bench_profile_ok_def list_all_iff standard_retry_def)
qed

interpretation bench_profiles:
  mapping_codec ExecutionProfile_to_mapping ExecutionProfile_from_mapping bench_profile_ok
  by unfold_locales (simp_all add: bench_profile_from_ok bench_profile_roundtrip)

section \<open>What is written can be read\<close>

lemma fld_json_ok: "json_ok (JObj d) \<Longrightarrow> json_ok (fld d k)"
  by (cases "map_of d k") (auto simp: fld_def list_all_iff dest!: map_of_SomeD)

lemma Limits_json_ok:
  assumes "Limits_from_mapping label v = Inr l" and "json_ok v"
  shows "json_ok (Limits_to_mapping l)"
proof -
  obtain d where "v = JObj d" and "fld d ''agent_timeout_s'' = JInt (li_agent_timeout l)"
    and "fld d ''evaluator_timeout_s'' = JInt (li_evaluator_timeout l)"
    using assms(1) by (auto simp: Limits_from_mapping_def bindE_Inr_iff map_errE_Inr_iff wire_exact_keys_Inr
        wire_positive_int_Inr Limits_init_Inr)
  with assms(2) fld_json_ok [of d "''agent_timeout_s''"] fld_json_ok [of d "''evaluator_timeout_s''"]
  show ?thesis by (simp add: Limits_to_mapping_def)
qed

lemma ints_json_ok:
  "map (fld d) names = map JInt xs \<Longrightarrow> json_ok (JObj d) \<Longrightarrow> list_all (\<lambda>n. json_ok (JInt n)) xs"
proof (induction names arbitrary: xs)
  case (Cons name names)
  with fld_json_ok [of d name] show ?case by (cases xs) (auto simp del: json_ok.simps)
qed simp

lemma zip_json_ok:
  assumes "distinct names" and "list_all (\<lambda>n. json_ok (JInt n)) xs"
  shows "json_ok (JObj (zip names (map JInt xs)))"
  using assms by (auto simp: list_all_iff map_fst_zip_take dest!: set_zip_rightD simp del: json_ok.simps(2))

lemma policy_numbers_with: "length xs = 7 \<Longrightarrow> policy_numbers (policy_with l xs) = xs"
  by (simp add: policy_numbers_def policy_with_def eval_nat_numeral length_Suc_conv) auto

lemma ceiling_numbers_with: "length xs = 12 \<Longrightarrow> ceiling_numbers (ceilings_with xs) = xs"
  by (simp add: ceiling_numbers_def ceilings_with_def eval_nat_numeral length_Suc_conv) auto

lemma RunPolicy_json_ok:
  assumes "RunPolicy_from_mapping label v = Inr p" and "json_ok v"
  shows "json_ok (RunPolicy_to_mapping p)"
proof -
  obtain d l xs where v: "v = JObj d" and l: "Limits_from_mapping (label @ ''.limits'') (fld d ''limits'') = Inr l"
    and xs: "mapE (\<lambda>name. mwire (wire_positive_int (fld d name) (label @ ''.'' @ name))) policy_fields = Inr xs"
    and p: "RunPolicy_init (policy_with l xs) = Inr p"
    using assms(1) unfolding RunPolicy_from_mapping_def bindE_Inr_iff map_errE_Inr_iff wire_exact_keys_Inr by blast
  have m: "map (fld d) policy_fields = map JInt xs" using xs by (simp only: mapE_positive)
  from arg_cong [OF m, of length] have "length xs = 7" by (simp add: policy_fields_def)
  then have "po_limits p = l" "policy_numbers p = xs"
    using p by (simp_all add: RunPolicy_init_Inr policy_numbers_with) (simp add: policy_with_def)
  moreover have "json_ok (JObj (zip policy_fields (map JInt xs)))"
    by (rule zip_json_ok) (use ints_json_ok [OF m] assms(2) v in \<open>simp_all add: policy_fields_def\<close>)
  moreover have "json_ok (Limits_to_mapping l)"
    using Limits_json_ok [OF l] fld_json_ok assms(2) v by blast
  moreover have "''limits'' \<notin> set (map fst (zip policy_fields (map JInt xs)))"
  proof -
    have "''limits'' \<notin> set policy_fields" by (simp add: policy_fields_def)
    then show ?thesis by (auto simp: map_fst_zip_take dest: in_set_takeD)
  qed
  ultimately show ?thesis by (simp add: RunPolicy_to_mapping_def)
qed

lemma Ceilings_json_ok:
  assumes "Ceilings_from_mapping v = Inr c" and "json_ok v"
  shows "json_ok (Ceilings_to_mapping c)"
proof -
  obtain d xs where v: "v = JObj d"
    and xs: "mapE (\<lambda>name. mwire (wire_positive_int (fld d name) (''execution profile.ceilings.'' @ name))) ceiling_fields
      = Inr xs"
    and c: "Ceilings_init (ceilings_with xs) = Inr c"
    using assms(1) unfolding Ceilings_from_mapping_def bindE_Inr_iff map_errE_Inr_iff wire_exact_keys_Inr by blast
  have m: "map (fld d) ceiling_fields = map JInt xs" using xs by (simp only: mapE_positive)
  from arg_cong [OF m, of length] have "length xs = 12" by (simp add: ceiling_fields_def)
  then have "ceiling_numbers c = xs" using c by (simp add: Ceilings_init_Inr ceiling_numbers_with)
  moreover have "json_ok (JObj (zip ceiling_fields (map JInt xs)))"
    by (rule zip_json_ok) (use ints_json_ok [OF m] assms(2) v in \<open>simp_all add: ceiling_fields_def\<close>)
  ultimately show ?thesis by (simp add: Ceilings_to_mapping_def)
qed

lemma policies_json_ok:
  assumes "policies_from raw = Inr ps" and "json_ok (JObj raw)" and "(c, q) \<in> set ps"
  shows "json_ok (RunPolicy_to_mapping q)"
proof -
  obtain k where "RunPolicy_from_mapping (''execution profile.run_policy.'' @ k) (fld raw k) = Inr q"
    using mapE_in_set [OF assms(1) [unfolded policies_from_def] assms(3)] unfolding bindE_Inr_iff by blast
  then show ?thesis by (rule RunPolicy_json_ok) (rule fld_json_ok [OF assms(2)])
qed

lemma small_json_ok: "json_ok (JInt 1)" "json_ok (JInt 2)" "json_ok (JInt 5)" "json_ok (JInt 60)"
  by (simp_all add: int_max_str_digits_def show_nat.simps)

lemma init_parts:
  "ExecutionProfile_init schema pid limits policies repetitions concurrency ceil retry sandbox schedule analysis = Inr p
    \<Longrightarrow> bp_limits p = limits \<and> bp_policies p = policies \<and> bp_ceilings p = ceil"
  by (cases p) (simp add: ExecutionProfile_init_Inr)

lemma profile_json_ok:
  assumes "ExecutionProfile_from_mapping v = Inr p" and "json_ok v"
  shows "json_ok (ExecutionProfile_to_mapping p)"
proof -
  obtain d raw n ps l c r where v: "v = JObj d" and f: "fld d ''run_policy'' = JObj raw" "policies_from raw = Inr ps"
    "Limits_from_mapping ''execution profile.qualification_limits'' (fld d ''qualification_limits'') = Inr l"
    "Ceilings_from_mapping (fld d ''ceilings'') = Inr c"
    "ExecutionProfile_init (JInt n) (fld d ''id'') l ps (fld d ''repetitions'') (fld d ''concurrency'')
       c r (fld d ''sandbox_contract_version'') (fld d ''schedule_algorithm'') (fld d ''analysis_algorithm'') = Inr p"
    using assms unfolding ExecutionProfile_from_mapping_def bindE_Inr_iff map_errE_Inr_iff wire_exact_keys_Inr by blast
  have ok: "json_ok (fld d k)" for k using fld_json_ok assms(2) v by blast
  have pok: "bench_profile_ok p" by (rule bench_profiles.from_ok [OF assms(1)])
  have parts: "bp_limits p = l" "bp_policies p = ps" "bp_ceilings p = c"
    using init_parts [OF f(5)] by simp_all
  have "json_ok (RunPolicy_to_mapping (policy_of p k))" if "k \<in> set RUN_CLASSES" for k
  proof -
    have "k \<in> fst ` set ps" using pok that parts by (metis bench_profile_ok_def keys_def set_map)
    then obtain q where "map_of ps k = Some q" by (metis not_Some_eq map_of_eq_None_iff)
    then show ?thesis using policies_json_ok [OF f(2)] ok [of "''run_policy''"] f(1) parts
      by (auto simp: policy_of_def dest: map_of_SomeD)
  qed
  then have "json_ok (JObj (map (\<lambda>c. (c, RunPolicy_to_mapping (policy_of p c))) RUN_CLASSES))"
    by (simp add: RUN_CLASSES_def)
  moreover have "json_ok (RetryPolicy_to_mapping standard_retry)"
    using small_json_ok by (simp add: RetryPolicy_to_mapping_def standard_retry_def strs_json_def RETRY_CLASSES_def)
  ultimately show ?thesis
    using pok small_json_ok Limits_json_ok [OF f(3) ok] Ceilings_json_ok [OF f(4) ok] parts
    by (simp add: ExecutionProfile_to_mapping_def bench_profile_ok_def)
qed

section \<open>The shipped registry and profile\<close>

definition shipped_registry :: model_registry where
  "shipped_registry = \<lparr>mr_schema = 1, mr_models = [
     \<lparr>ms_name = ''codex-luna'', ms_provider = ''codex-cli'', ms_requested = ''gpt-5.6-luna'',
      ms_effort = Some ''high'', ms_profile_id = ''agent-execution-v1''\<rparr>,
     \<lparr>ms_name = ''claude-sonnet'', ms_provider = ''claude-cli'', ms_requested = ''sonnet'',
      ms_effort = None, ms_profile_id = ''agent-execution-v1''\<rparr>]\<rparr>"

definition shipped_policy :: "int \<Rightarrow> int \<Rightarrow> int \<Rightarrow> int \<Rightarrow> int \<Rightarrow> int \<Rightarrow> run_policy" where
  "shipped_policy agent evaluator tasks samples tranche wall = \<lparr>
     po_limits = \<lparr>li_agent_timeout = agent, li_evaluator_timeout = evaluator\<rparr>, po_tasks = tasks, po_models = 2,
     po_samples = samples, po_tranche = tranche, po_terminal = tasks * 2 * samples,
     po_attempts = 2 * (tasks * 2 * samples), po_wall = wall\<rparr>"

definition shipped_profile :: bench_profile where
  "shipped_profile = \<lparr>bp_schema = 2, bp_id = ''agent-execution-v1'',
     bp_limits = \<lparr>li_agent_timeout = 60, li_evaluator_timeout = 30\<rparr>,
     bp_policies = [(''smoke'', shipped_policy 60 30 1 1 2 600), (''pilot'', shipped_policy 600 60 12 1 24 28800),
       (''observation'', shipped_policy 600 60 32 3 32 28800)],
     bp_repetitions = 2, bp_concurrency = 1,
     bp_ceilings = ceilings_with [100, 5242880, 10485760, 26214400, 60, 1073741824, 64, 10000, 10485760, 100,
       67108864, 20001],
     bp_retry = standard_retry, bp_sandbox = SANDBOX_CONTRACT_VERSION, bp_schedule = ''schedule-v1'',
     bp_analysis = ''bootstrap-v1''\<rparr>"

lemmas shipped_defs = shipped_registry_def shipped_policy_def shipped_profile_def

lemma shipped_registry_ok: "registry_ok shipped_registry"
  by (simp add: registry_ok_def shipped_registry_def model_ok_def safe_id_def lower_alnum_def in_rng_def is_digit_def
      PROVIDERS_def strip_def lstrip_def rstrip_def isspace_def)

lemma shipped_profile_ok: "bench_profile_ok shipped_profile"
  by (simp add: bench_profile_ok_def shipped_defs safe_id_def lower_alnum_def in_rng_def is_digit_def limits_ok_def
      keys_def RUN_CLASSES_def policy_ok_def counts_ok_def policy_numbers_def ceilings_ok_def ceilings_with_def
      ceiling_numbers_def)

lemma shipped_registry_text:
  "load_model_registry 1000 (FileText (raw_dumps (ModelRegistry_to_mapping shipped_registry))) = Inr shipped_registry"
proof -
  obtain d where d: "ModelRegistry_to_mapping shipped_registry = JObj d" by (simp add: ModelRegistry_to_mapping_def)
  have "json_ok (JObj d)" "strict_json (JObj d)" "depth (JObj d) \<le> 1000"
    unfolding d [symmetric]
    by (simp_all add: ModelRegistry_to_mapping_def shipped_registry_def ModelSpec_to_mapping_def small_json_ok
        del: json_ok.simps(2))
  from decode_raw_dumps [OF this] show ?thesis
    by (simp add: load_model_registry_def load_json_object_def d bindE_Inr_iff map_errE_Inr_iff
        registries.from_to [OF shipped_registry_ok, unfolded d] del: raw_dumps.simps)
qed

lemma shipped_profile_json:
  "json_ok (ExecutionProfile_to_mapping shipped_profile)" "strict_json (ExecutionProfile_to_mapping shipped_profile)"
  "depth (ExecutionProfile_to_mapping shipped_profile) = 4"
  by (simp_all add: ExecutionProfile_to_mapping_def shipped_defs Limits_to_mapping_def RunPolicy_to_mapping_def
      RUN_CLASSES_def policy_of_def policy_fields_def policy_numbers_def Ceilings_to_mapping_def ceiling_fields_def
      ceiling_numbers_def ceilings_with_def RetryPolicy_to_mapping_def standard_retry_def strs_json_def
      RETRY_CLASSES_def int_max_str_digits_def show_nat.simps)

text \<open>The canonical text sorts the keys of every object; reading does not depend on their order.\<close>

lemma limits_sorted: "sort_json (Limits_to_mapping l) = Limits_to_mapping l"
  by (simp add: Limits_to_mapping_def)

lemma policy_sorted:
  assumes "policy_ok p"
  shows "RunPolicy_from_mapping label (sort_json (RunPolicy_to_mapping p)) = Inr p"
proof -
  obtain d where d: "sort_json (RunPolicy_to_mapping p) = JObj d" by (simp add: RunPolicy_to_mapping_def)
  then have "set (keys d) = set (''limits'' # policy_fields)"
    and m: "map (fld d) policy_fields = map JInt (policy_numbers p)" and l: "fld d ''limits'' = Limits_to_mapping (po_limits p)"
    by (auto simp: RunPolicy_to_mapping_def policy_fields_def policy_numbers_def keys_def fld_Cons limits_sorted)
  moreover from m assms have
    "mapE (\<lambda>name. mwire (wire_positive_int (fld d name) (label @ CHR ''.'' # name))) policy_fields = Inr (policy_numbers p)"
    by (simp add: mapE_positive policy_ok_def counts_ok_def)
  ultimately show ?thesis using assms
    by (simp add: d RunPolicy_from_mapping_def bindE_Inr_iff map_errE_Inr_iff wire_exact_keys_Inr
        limits.from_to policy_ok_def RunPolicy_init_Inr policy_with_numbers)
qed

lemma ceilings_sorted:
  assumes "ceilings_ok c"
  shows "Ceilings_from_mapping (sort_json (Ceilings_to_mapping c)) = Inr c"
proof -
  obtain d where d: "sort_json (Ceilings_to_mapping c) = JObj d" by (simp add: Ceilings_to_mapping_def)
  then have "set (keys d) = set ceiling_fields" and m: "map (fld d) ceiling_fields = map JInt (ceiling_numbers c)"
    by (auto simp: Ceilings_to_mapping_def ceiling_fields_def ceiling_numbers_def keys_def fld_Cons)
  moreover from m assms have "mapE (\<lambda>name. mwire (wire_positive_int (fld d name) (''execution profile.ceilings.'' @ name)))
      ceiling_fields = Inr (ceiling_numbers c)"
    by (simp add: mapE_positive ceilings_ok_def)
  ultimately show ?thesis using assms
    by (simp add: d Ceilings_from_mapping_def bindE_Inr_iff map_errE_Inr_iff wire_exact_keys_Inr
        Ceilings_init_Inr ceilings_with_numbers)
qed

lemma retry_sorted:
  "RetryPolicy_from_mapping (sort_json (RetryPolicy_to_mapping standard_retry)) = Inr standard_retry"
  by (auto simp: RetryPolicy_from_mapping_def RetryPolicy_to_mapping_def bindE_Inr_iff map_errE_Inr_iff
      wire_exact_keys_Inr keys_def fld_Cons RetryPolicy_init_Inr retry_fields_def standard_retry_def strs_json_def comp_def)

lemma policies_sorted:
  assumes "keys ps = RUN_CLASSES" and "list_all (\<lambda>(c, q). policy_ok q) ps"
    and "\<forall>c \<in> set RUN_CLASSES. fld d c = sort_json (RunPolicy_to_mapping (the (map_of ps c)))"
  shows "policies_from d = Inr ps"
proof -
  obtain a b c where ps: "ps = [(''smoke'', a), (''pilot'', b), (''observation'', c)]"
    using assms(1) by (auto simp: keys_def RUN_CLASSES_def map_eq_Cons_conv)
  from assms(2,3) show ?thesis
    by (simp add: ps policies_from_def RUN_CLASSES_def policy_sorted)
qed

lemma profile_sorted:
  assumes "bench_profile_ok p"
  shows "ExecutionProfile_from_mapping (sort_json (ExecutionProfile_to_mapping p)) = Inr p"
proof -
  have p: "keys (bp_policies p) = RUN_CLASSES" "list_all (\<lambda>(c, q). policy_ok q) (bp_policies p)"
    using assms by (auto simp: bench_profile_ok_def list_all_iff)
  obtain m where m: "sort_json (JObj (map (\<lambda>c. (c, RunPolicy_to_mapping (policy_of p c))) RUN_CLASSES)) = JObj m"
    by simp
  then have k: "set (keys m) = set RUN_CLASSES"
    and f: "\<forall>c \<in> set RUN_CLASSES. fld m c = sort_json (RunPolicy_to_mapping (the (map_of (bp_policies p) c)))"
    by (auto simp: RUN_CLASSES_def keys_def fld_Cons policy_of_def)
  obtain d where d: "sort_json (ExecutionProfile_to_mapping p) = JObj d" by (simp add: ExecutionProfile_to_mapping_def)
  then have "set (keys d) = set profile_keys" and "fld d ''run_policy'' = JObj m"
    and "fld d ''schema_version'' = JInt (bp_schema p)" "fld d ''id'' = JStr (bp_id p)"
    and "fld d ''qualification_limits'' = Limits_to_mapping (bp_limits p)"
    and "fld d ''repetitions'' = JInt (bp_repetitions p)" "fld d ''concurrency'' = JInt (bp_concurrency p)"
    and "fld d ''ceilings'' = sort_json (Ceilings_to_mapping (bp_ceilings p))"
    and "fld d ''retry'' = sort_json (RetryPolicy_to_mapping (bp_retry p))"
    and "fld d ''sandbox_contract_version'' = JStr (bp_sandbox p)" "fld d ''schedule_algorithm'' = JStr (bp_schedule p)"
    and "fld d ''analysis_algorithm'' = JStr (bp_analysis p)"
    using m by (auto simp: ExecutionProfile_to_mapping_def profile_keys_def keys_def fld_Cons limits_sorted)
  moreover have "fst ` set (bp_policies p) = set RUN_CLASSES" using p(1) by (metis keys_def set_map)
  moreover have "\<forall>(c, q) \<in> set (bp_policies p). po_attempts q = po_terminal q * 2"
    using assms by (auto simp: bench_profile_ok_def list_all_iff)
  ultimately show ?thesis
    using assms k policies_sorted [OF p f] unfolding d
    by (cases p) (simp add: ExecutionProfile_from_mapping_def bindE_Inr_iff map_errE_Inr_iff wire_exact_keys_Inr
        validate_schema_version_Inr EXECUTION_PROFILE_SCHEMA_VERSION_def limits.from_to ceilings_sorted retry_sorted [unfolded standard_retry_def]
        ExecutionProfile_init_Inr bench_profile_ok_def list_all_iff standard_retry_def keys_def)
qed

lemma encodable_ok: "json_ok j \<Longrightarrow> strict_json j \<Longrightarrow> encodable j"
proof (induction j)
  case (JObj kvs)
  have "encodable (snd kv)" if "kv \<in> set kvs" for kv
    using JObj.IH [of kv "snd kv"] JObj.prems that by (cases kv) (fastforce simp: list_all_iff snds.simps)
  then show ?case by (simp add: list_all_iff)
qed (auto simp: list_all_iff)

lemma strict_sort: "strict_json j \<Longrightarrow> strict_json (sort_json j)"
proof (induction j)
  case (JObj kvs)
  have "strict_json (sort_json (snd kv))" if "kv \<in> set kvs" for kv
    using JObj.IH [of kv "snd kv"] JObj.prems that by (cases kv) (auto simp: list_all_iff snds.simps)
  moreover have "distinct (map fst (sort_key fst (map (\<lambda>kv. (fst kv, sort_json (snd kv))) kvs)))"
    using JObj.prems by (intro distinct_map_fst_sort) (simp add: comp_def)
  ultimately show ?case by (auto simp: list_all_iff)
qed (auto simp: list_all_iff)

lemma load_execution_profile_Inr:
  assumes "load_execution_profile limit file = Inr p"
  shows "bench_profile_ok p \<and> json_ok (ExecutionProfile_to_mapping p)"
proof -
  obtain d where d: "load_json_object limit file ''execution profile'' = Inr d"
    and p: "ExecutionProfile_from_mapping (JObj d) = Inr p"
    using assms by (auto simp: load_execution_profile_def bindE_Inr_iff map_errE_Inr_iff)
  show ?thesis
    using bench_profiles.from_ok [OF p] profile_json_ok [OF p] load_json_object_ok [OF d] by blast
qed

lemma fold_max_0 [simp]: "(\<And>x. x \<in> set xs \<Longrightarrow> f x = 0) \<Longrightarrow> fold max (map f xs) (0 :: nat) = 0"
  using fold_max_le [of "map f xs" 0 0] by simp

lemma profile_depth:
  assumes "bench_profile_ok p"
  shows "strict_json (ExecutionProfile_to_mapping p) \<and> depth (ExecutionProfile_to_mapping p) \<le> 4"
  using assms
  by (simp add: ExecutionProfile_to_mapping_def bench_profile_ok_def Limits_to_mapping_def RunPolicy_to_mapping_def
      RUN_CLASSES_def policy_fields_def policy_numbers_def Ceilings_to_mapping_def ceiling_fields_def
      ceiling_numbers_def RetryPolicy_to_mapping_def standard_retry_def strs_json_def RETRY_CLASSES_def)

text \<open>C18: Each run class of a loaded profile has the cells of its task by model by sample grid, two provider
  attempts for each, and tranches of whole model blocks; the evaluator's tmpfs holds its files with a page of
  slack each and the directory allowance.\<close>

theorem loaded_profile_budgets:
  assumes "load_execution_profile limit file = Inr p" and "c \<in> set RUN_CLASSES"
  shows "\<exists>q. map_of (bp_policies p) c = Some q \<and> po_terminal q = po_tasks q * po_models q * po_samples q \<and>
    po_attempts q = 2 * po_terminal q \<and> 0 < po_models q \<and> po_models q \<le> po_tranche q \<and> po_models q dvd po_tranche q \<and>
    ce_file_bytes (bp_ceilings p) + 4096 * ce_files (bp_ceilings p) \<le> ce_tmpfs_bytes (bp_ceilings p) \<and>
    ce_files (bp_ceilings p) + 10001 \<le> ce_tmpfs_inodes (bp_ceilings p) \<and> ce_bandwidth (bp_ceilings p) \<in> {1..100}"
proof -
  have p: "bench_profile_ok p" using load_execution_profile_Inr [OF assms(1)] by simp
  then have "c \<in> fst ` set (bp_policies p)" using assms(2) by (metis bench_profile_ok_def keys_def set_map)
  then obtain q where q: "map_of (bp_policies p) c = Some q" by (metis not_Some_eq map_of_eq_None_iff)
  then have "policy_ok q \<and> po_attempts q = 2 * po_terminal q"
    using p by (auto simp: bench_profile_ok_def list_all_iff dest: map_of_SomeD)
  with p q show ?thesis
    by (auto simp: bench_profile_ok_def policy_ok_def counts_ok_def policy_numbers_def ceilings_ok_def
        ceiling_numbers_def)
qed

text \<open>C19: The canonical text a profile's hash is taken of is itself a profile file: it loads, and to the same
  profile; so profiles that differ anywhere hash different texts.\<close>

theorem profile_text_reloads:
  assumes "load_execution_profile limit file = Inr p" and "4 \<le> limit"
  shows "\<exists>t. canonical_json (ExecutionProfile_to_mapping p) = Inr t \<and> execution_profile_hash ext p = Inr (sha256_hex ext t)
    \<and> load_execution_profile limit (FileText t) = Inr p"
proof -
  let ?v = "ExecutionProfile_to_mapping p"
  have ok: "bench_profile_ok p" "json_ok ?v" using load_execution_profile_Inr [OF assms(1)] by simp_all
  have v: "strict_json ?v" "depth ?v \<le> 4" using profile_depth [OF ok(1)] by simp_all
  obtain d where d: "sort_json ?v = JObj d" by (simp add: ExecutionProfile_to_mapping_def)
  have c: "canonical_json ?v = Inr (raw_dumps (JObj d))"
    using encodable_ok [OF ok(2) v(1)] by (simp add: canonical_json_def d del: raw_dumps.simps)
  have "json_ok (JObj d)" "strict_json (JObj d)" "depth (JObj d) \<le> limit"
    using json_ok_sort [OF ok(2)] strict_sort [OF v(1)] depth_sort [of ?v] v(2) assms(2) by (simp_all only: d)
  from decode_raw_dumps [OF this] profile_sorted [OF ok(1)]
  have "load_execution_profile limit (FileText (raw_dumps (JObj d))) = Inr p"
    by (simp add: load_execution_profile_def load_json_object_def d bindE_Inr_iff map_errE_Inr_iff del: raw_dumps.simps)
  with c show ?thesis
    by (simp add: execution_profile_hash_def wire_sha256_def bindE_Inr_iff map_errE_Inr_iff del: raw_dumps.simps)
qed

lemma shipped_profile_text:
  "load_execution_profile 1000 (FileText (raw_dumps (ExecutionProfile_to_mapping shipped_profile))) = Inr shipped_profile"
proof -
  obtain d where d: "ExecutionProfile_to_mapping shipped_profile = JObj d" by (simp add: ExecutionProfile_to_mapping_def)
  have "json_ok (JObj d)" "strict_json (JObj d)" "depth (JObj d) \<le> 1000"
    using shipped_profile_json unfolding d by simp_all
  from decode_raw_dumps [OF this] show ?thesis
    by (simp add: load_execution_profile_def load_json_object_def d bindE_Inr_iff map_errE_Inr_iff
        bench_profiles.from_to [OF shipped_profile_ok, unfolded d] del: raw_dumps.simps)
qed

theorem loaded_profile_budgets_witness:
  "\<exists>q. map_of (bp_policies shipped_profile) ''observation'' = Some q \<and> po_terminal q = po_tasks q * po_models q * po_samples q"
  using loaded_profile_budgets [OF shipped_profile_text, of "''observation''"] by (auto simp: RUN_CLASSES_def)

theorem profile_text_reloads_witness:
  "\<exists>t. canonical_json (ExecutionProfile_to_mapping shipped_profile) = Inr t \<and>
    load_execution_profile 1000 (FileText t) = Inr shipped_profile"
  using profile_text_reloads [OF shipped_profile_text] by auto

section \<open>Selection\<close>

lemma by_name:
  "distinct (map ms_name ms) \<Longrightarrow>
     map_of (rev (map (\<lambda>m. (ms_name m, m)) ms)) x = Some m \<longleftrightarrow> m \<in> set ms \<and> ms_name m = x"
  by (subst map_of_eq_Some_iff) (auto simp: comp_def rev_map distinct_map)

lemma read_nat_show_less: "n < 10 ^ length (show_nat n)"
  using read_nat_less [OF show_nat_digits, of n] by simp

text \<open>A run policy whose counts multiply to a number of more than 4300 digits, with any other number of terminal cells:
  rejecting it raises the plain \<open>ValueError\<close> of the message and no error of the module.\<close>

lemma huge_policy_crashes:
  assumes "\<forall>n\<in>set (policy_numbers p). 0 < n" and "10 ^ int_max_str_digits \<le> po_tasks p * po_models p * po_samples p"
    and "po_terminal p \<noteq> po_tasks p * po_models p * po_samples p"
  shows "RunPolicy_init p = Inl MessageTooLong"
proof -
  let ?n = "po_tasks p * po_models p * po_samples p"
  have n: "(10::nat) ^ int_max_str_digits \<le> nat ?n" using assms(2) by (simp add: nat_le_eq_zle le_nat_iff)
  have "\<not> length (show_nat (nat ?n)) \<le> int_max_str_digits"
  proof
    assume "length (show_nat (nat ?n)) \<le> int_max_str_digits"
    then have "(10::nat) ^ length (show_nat (nat ?n)) \<le> 10 ^ int_max_str_digits" by (simp add: power_increasing)
    with read_nat_show_less [of "nat ?n"] n show False by linarith
  qed
  moreover have "0 \<le> ?n" using assms(2) by (rule order_trans [rotated]) simp
  ultimately have "printing [?n, po_terminal p] e = MessageTooLong" for e by (simp add: printing_def)
  moreover have "mapE (\<lambda>(name, n). mwire (wire_positive_int (JInt n) (''run policy.'' @ name)))
      (zip policy_fields (policy_numbers p)) = Inr (policy_numbers p)"
    using assms(1) by (auto simp: policy_fields_def policy_numbers_def wire_positive_int_def)
  ultimately show ?thesis using assms(3) by (simp add: RunPolicy_init_def Let_def checkE_def)
qed

lemma select_from_Inr:
  assumes "distinct (map ms_name models)"
  shows "select_from models seen i vs = Inr ms \<longleftrightarrow> vs = map (JStr \<circ> ms_name) ms \<and> set ms \<subseteq> set models \<and>
    distinct (map ms_name ms) \<and> set (map ms_name ms) \<inter> set seen = {} \<and> list_all (safe_id \<circ> ms_name) ms"
proof (induction vs arbitrary: seen i ms)
  case (Cons v vs)
  show ?case
  proof (cases ms)
    case (Cons m ns)
    let ?look = "map_of (rev (map (\<lambda>m. (ms_name m, m)) models))"
    have "select_from models seen i (v # vs) = Inr (m # ns) \<longleftrightarrow> (\<exists>x. v = JStr x \<and> safe_id x \<and> x \<notin> set seen \<and>
        ?look x = Some m \<and> select_from models (x # seen) (Suc i) vs = Inr ns)"
      by (auto simp: bindE_Inr_iff map_errE_Inr_iff validate_safe_id_Inr split: option.splits if_splits)
    with Cons Cons.IH [of "ms_name m # seen" "Suc i" ns] by_name [OF assms] show ?thesis by auto
  qed (auto simp: bindE_Inr_iff split: option.splits if_splits)
qed auto

text \<open>A loaded registry resolves a list of ids exactly when they are the names of distinct entries of it,
  and then to those entries in the order asked for, never to another order or a default.\<close>

theorem select_exact:
  assumes "load_model_registry limit file = Inr r"
  shows "select r ids = Inr ms \<longleftrightarrow> ms \<noteq> [] \<and> ids = map (JStr \<circ> ms_name) ms \<and> set ms \<subseteq> set (mr_models r) \<and>
    distinct (map ms_name ms)"
proof -
  have r: "registry_ok r"
    using assms by (auto simp: load_model_registry_def bindE_Inr_iff dest: registry_from_ok)
  then have "list_all (safe_id \<circ> ms_name) ms" if "set ms \<subseteq> set (mr_models r)"
    using that by (auto simp: registry_ok_def list_all_iff model_ok_def)
  with r show ?thesis by (auto simp: select_def select_from_Inr registry_ok_def)
qed

section \<open>What the hashes identify\<close>

lemma ModelSpec_json_ok: "json_ok (ModelSpec_to_mapping m)"
  by (simp add: ModelSpec_to_mapping_def split: option.splits)

lemma ModelSpec_sort_inj: "sort_json (ModelSpec_to_mapping a) = sort_json (ModelSpec_to_mapping b) \<Longrightarrow> a = b"
  by (cases a; cases b) (auto simp: ModelSpec_to_mapping_def split: option.splits)

lemma selected_profile_hash_Inr:
  assumes "selected_profile_hash ext ms = Inr h"
  obtains t where "canonical_json (JList (map ModelSpec_to_mapping ms)) = Inr t" "h = sha256_hex ext t"
  using assms by (auto simp: selected_profile_hash_def wire_sha256_def res_simps wire_simps split: if_splits)

text \<open>Two selections that differ in any field of any chosen profile, or in their order, hash different
  texts; only the chosen profiles enter the hash, so equal selections from different registries have one hash.\<close>

theorem selection_hash_identifies:
  assumes "selected_hash ext r ids = Inr h" and "selected_hash ext s js = Inr k"
  shows "\<exists>ms ns t u. select r ids = Inr ms \<and> select s js = Inr ns \<and>
    canonical_json (JList (map ModelSpec_to_mapping ms)) = Inr t \<and> h = sha256_hex ext t \<and>
    canonical_json (JList (map ModelSpec_to_mapping ns)) = Inr u \<and> k = sha256_hex ext u \<and> (t = u \<longleftrightarrow> ms = ns)"
proof -
  obtain ms ns where sel: "select r ids = Inr ms" "selected_profile_hash ext ms = Inr h"
      "select s js = Inr ns" "selected_profile_hash ext ns = Inr k"
    using assms by (auto simp: selected_hash_def bindE_Inr_iff)
  obtain t where t: "canonical_json (JList (map ModelSpec_to_mapping ms)) = Inr t" "h = sha256_hex ext t"
    by (rule selected_profile_hash_Inr [OF sel(2)])
  obtain u where u: "canonical_json (JList (map ModelSpec_to_mapping ns)) = Inr u" "k = sha256_hex ext u"
    by (rule selected_profile_hash_Inr [OF sel(4)])
  have "ms = ns" if "t = u"
  proof -
    have "json_ok (JList (map ModelSpec_to_mapping xs))" for xs
      by (simp add: list_all_iff ModelSpec_json_ok)
    from canonical_json_inj [OF this this t(1) u(1) [folded that]]
    have "map (sort_json \<circ> ModelSpec_to_mapping) ms = map (sort_json \<circ> ModelSpec_to_mapping) ns"
      by (simp add: comp_def)
    then show ?thesis by (rule map_injective [OF _ injI]) (simp add: ModelSpec_sort_inj)
  qed
  with sel t u show ?thesis by auto
qed

lemma shipped_selection:
  "select shipped_registry [JStr ''claude-sonnet'', JStr ''codex-luna''] = Inr (rev (mr_models shipped_registry))"
  "select shipped_registry [JStr ''codex-luna'', JStr ''claude-sonnet''] = Inr (mr_models shipped_registry)"
  by (simp_all add: select_exact [OF shipped_registry_text]) (simp_all add: shipped_registry_def)

theorem select_exact_witness:
  "select shipped_registry [JStr ''claude-sonnet''] = Inr [mr_models shipped_registry ! 1] \<and>
   select shipped_registry [JStr ''claude-sonnet'', JStr ''claude-sonnet''] \<noteq> Inr (mr_models shipped_registry)"
  using select_exact [OF shipped_registry_text] by (simp add: shipped_registry_def)

lemma specs_encodable: "canonical_json (JList (map ModelSpec_to_mapping ms))
    = Inr (raw_dumps (sort_json (JList (map ModelSpec_to_mapping ms))))"
  by (simp add: canonical_json_def list_all_iff ModelSpec_to_mapping_def split: option.splits)

lemma selected_profile_hash_eq:
  assumes "ms \<noteq> []" and "distinct (map ms_name ms)"
  shows "selected_profile_hash ext ms = Inr (sha256_hex ext (raw_dumps (sort_json (JList (map ModelSpec_to_mapping ms)))))"
proof -
  have "first_repeated [] (map ms_name ms) = None" using assms(2) by (simp add: first_repeated_None)
  with assms(1) show ?thesis
    by (simp add: selected_profile_hash_def wire_sha256_def specs_encodable del: raw_dumps.simps sort_json.simps)
qed

lemma shipped_selection_hashed:
  "\<exists>h. selected_hash ext shipped_registry [JStr ''claude-sonnet'', JStr ''codex-luna''] = Inr h"
  "\<exists>h. selected_hash ext shipped_registry [JStr ''codex-luna'', JStr ''claude-sonnet''] = Inr h"
proof -
  have "mr_models shipped_registry \<noteq> []" "distinct (map ms_name (mr_models shipped_registry))"
    by (simp_all add: shipped_registry_def)
  then show "\<exists>h. selected_hash ext shipped_registry [JStr ''claude-sonnet'', JStr ''codex-luna''] = Inr h"
    "\<exists>h. selected_hash ext shipped_registry [JStr ''codex-luna'', JStr ''claude-sonnet''] = Inr h"
    by (simp_all add: selected_hash_def shipped_selection selected_profile_hash_eq rev_map [symmetric] del: rev_map)
qed

theorem selection_hash_identifies_witness:
  "\<forall>ext. \<exists>t u. t \<noteq> u \<and>
    selected_hash ext shipped_registry [JStr ''claude-sonnet'', JStr ''codex-luna''] = Inr (sha256_hex ext t) \<and>
    selected_hash ext shipped_registry [JStr ''codex-luna'', JStr ''claude-sonnet''] = Inr (sha256_hex ext u)"
proof
  fix ext
  obtain h k where hk: "selected_hash ext shipped_registry [JStr ''claude-sonnet'', JStr ''codex-luna''] = Inr h"
      "selected_hash ext shipped_registry [JStr ''codex-luna'', JStr ''claude-sonnet''] = Inr k"
    using shipped_selection_hashed [of ext] by blast
  have "rev (mr_models shipped_registry) \<noteq> mr_models shipped_registry" by (simp add: shipped_registry_def)
  with selection_hash_identifies [OF hk] hk show "\<exists>t u. t \<noteq> u \<and>
    selected_hash ext shipped_registry [JStr ''claude-sonnet'', JStr ''codex-luna''] = Inr (sha256_hex ext t) \<and>
    selected_hash ext shipped_registry [JStr ''codex-luna'', JStr ''claude-sonnet''] = Inr (sha256_hex ext u)"
    by (auto simp: shipped_selection)
qed

section \<open>The run gate\<close>

lemma binding_Inr:
  "validate_execution_profile_binding p v ms = Inr u \<longleftrightarrow>
     v = JStr (bp_id p) \<and> safe_id (bp_id p) \<and> list_all (\<lambda>m. ms_profile_id m = bp_id p) ms"
  by (auto simp: validate_execution_profile_binding_def res_simps wire_simps list_all_iff)

text \<open>Once a selection of a loaded registry passes the binding check, the suite and every chosen model name
  the loaded profile, and dispatch reaches the handler of each model's provider, given one for both providers.\<close>

theorem bound_selection_dispatches:
  assumes "load_model_registry limit file = Inr r" and "select r ids = Inr ms"
    and "validate_execution_profile_binding p suite_id ms = Inr ()"
    and "\<And>x. x \<in> set PROVIDERS \<Longrightarrow> dispatchers x = Some (f x)" and "m \<in> set ms"
  shows "suite_id = JStr (bp_id p) \<and> ms_profile_id m = bp_id p \<and>
    dispatch_by_provider m dispatchers = Inr (f (ms_provider m) m)"
proof -
  have "registry_ok r" using assms(1) by (auto simp: load_model_registry_def bindE_Inr_iff dest: registry_from_ok)
  then have "model_ok m" using assms(5) select_from_Inr [of "mr_models r"] assms(2)
    by (fastforce simp: select_def registry_ok_def list_all_iff split: if_splits)
  then have "dispatchers (ms_provider m) = Some (f (ms_provider m))" by (intro assms(4)) (simp add: model_ok_def)
  with assms(3,5) show ?thesis by (simp add: binding_Inr list_all_iff dispatch_by_provider_def)
qed

theorem bound_selection_dispatches_witness:
  "dispatch_by_provider (mr_models shipped_registry ! 1) (\<lambda>x. Some (\<lambda>m. (x, ms_requested m)))
     = Inr (''claude-cli'', ''sonnet'')"
proof -
  have "validate_execution_profile_binding shipped_profile (JStr ''agent-execution-v1'') (mr_models shipped_registry)
      = Inr ()"
    using shipped_profile_ok by (simp add: binding_Inr bench_profile_ok_def) (simp add: shipped_defs)
  from bound_selection_dispatches [OF shipped_registry_text shipped_selection(2) this,
      of "\<lambda>x. Some (\<lambda>m. (x, ms_requested m))" "\<lambda>x m. (x, ms_requested m)" "mr_models shipped_registry ! 1"]
  show ?thesis by (simp add: shipped_registry_def shipped_profile_def)
qed

end
