(* ===== verification/Bench_Suite.thy ===== *)
theory Bench_Suite
  imports Bench_Models "HOL-Library.Sublist" "HOL-Library.Multiset"
begin

text \<open>
  src/measure_twice/agent_bench/suite.py: the bundle of an agent benchmark: path and glob grammar, task and
  suite manifests, the contained walk of seed and oracle trees, the loader and the instrument hash.

  The file system is a tree that does not change while it is read, so the comparisons of identity, size and
  modification time (the race detection) always succeed; the handles and their closing are not modelled.
  A file that is UTF-8 is its text; \<open>raw_sha\<close> is SHA-256 of bytes that are not.
\<close>

datatype suite_bundle_error =
    SuiteWire wire_error
  | PathEmpty string
  | PathHasNul string
  | PathHasBackslash string
  | PathHasColon string
  | PathAbsolute string
  | PathNotNormal string
  | GlobHasClass string
  | GlobStarsInSegment string
  | ProtectedIsGlob string
  | WrongCase string string string
  | MissingComponent string string
  | IsReparse string string
  | NotADirectory string
  | NotARegularFile string
  | CouldNotOpen string string
  | CouldNotList string
  | IdentityChanged string
  | BytecodeInTree string string
  | ReparseInTree string string
  | SpecialInTree string string
  | NotReadableUtf8 string
  | EmptyText string
  | LanguageNotPython
  | VersionNot312
  | NotAStringList string
  | HasDuplicates string
  | BadFamily
  | BadDifficulty
  | AssetPathsOverlap string string
  | NoAllowedChanges
  | EvaluatorDiffers
  | ScoringPolicyDiffers
  | BadRunClass
  | NoTasks
  | TaskCountDiffers
  | DuplicateTaskIds "string list"
  | SnapshotCountDiffers
  | ManifestDirectoryDiffers string string
  | GitControlPath string string
  | NoVisibleTests string
  | NoHiddenTests string
  | SeedEmpty string
  | OracleEmpty string
  | NoVisibleTestFile string
  | NoHiddenTestFile string
  | DuplicateAssets string "string list"
  | NotLoadedFromBundle
  | TaskIndexOutOfRange int

type_synonym 'a bres = "(suite_bundle_error, 'a) res"

abbreviation swire :: "'a wres \<Rightarrow> 'a bres" where "swire r \<equiv> map_errE SuiteWire r"

definition TASK_FAMILIES :: "string list" where
  "TASK_FAMILIES = [''bug-repair'', ''bounded-feature'', ''behavioral-refactor'', ''cli-data-boundary'']"

definition DIFFICULTIES :: "string list" where "DIFFICULTIES = [''easy'', ''medium'', ''hard'']"

definition EVALUATOR_VERSION :: string where "EVALUATOR_VERSION = ''python-pytest-v1''"

definition ALWAYS_PROTECTED_PATHS :: "string list" where
  "ALWAYS_PROTECTED_PATHS = [''.git'', ''.gitignore'', ''.gitattributes'', ''.gitmodules'', ''tests'']"

definition SEED_FORBIDDEN_NAMES :: "string list" where
  "SEED_FORBIDDEN_NAMES = [''.git'', ''.gitignore'', ''.gitattributes'', ''.gitmodules'']"

section \<open>Paths and globs\<close>

abbreviation segments :: "string \<Rightarrow> string list" where "segments p \<equiv> split_on (CHR ''/'') p"

text \<open>A path of segments that are not empty, \<open>.\<close> or \<open>..\<close> is what \<open>PurePosixPath\<close> makes of it.\<close>

definition validate_relative_path :: "json \<Rightarrow> string \<Rightarrow> string bres" where
  "validate_relative_path v label = (case v of
     JStr s \<Rightarrow>
       (if s = [] then Inl (PathEmpty label)
        else if CHR 0x00 \<in> set s then Inl (PathHasNul label)
        else if CHR 0x5C \<in> set s then Inl (PathHasBackslash label)
        else if CHR '':'' \<in> set s then Inl (PathHasColon label)
        else if hd s = CHR ''/'' then Inl (PathAbsolute label)
        else if list_ex (\<lambda>p. p \<in> {[], ''.'', ''..''}) (segments s) then Inl (PathNotNormal label)
        else Inr s)
   | _ \<Rightarrow> Inl (PathEmpty label))"

fun has_two_stars :: "string \<Rightarrow> bool" where
  "has_two_stars (a # b # s) = (a = CHR ''*'' \<and> b = CHR ''*'' \<or> has_two_stars (b # s))"
| "has_two_stars _ = False"

definition validate_glob_segment :: "string \<Rightarrow> string \<Rightarrow> unit bres" where
  "validate_glob_segment label p =
     (if CHR ''['' \<in> set p \<or> CHR '']'' \<in> set p then Inl (GlobHasClass label)
      else if has_two_stars p \<and> p \<noteq> ''**'' then Inl (GlobStarsInSegment label)
      else Inr ())"

definition validate_allowed_change_glob :: "json \<Rightarrow> string \<Rightarrow> string bres" where
  "validate_allowed_change_glob v label =
     bindE (validate_relative_path v label) (\<lambda>p.
     bindE (seqE (map (validate_glob_segment label) (segments p))) (\<lambda>_. Inr p))"

definition validate_protected_path :: "json \<Rightarrow> string \<Rightarrow> string bres" where
  "validate_protected_path v label =
     bindE (validate_relative_path v label) (\<lambda>p.
     bindE (checkE (\<not> list_ex (\<lambda>c. c \<in> {CHR ''*'', CHR ''?'', CHR ''['', CHR '']''}) p) (ProtectedIsGlob label)) (\<lambda>_.
       Inr p))"

definition join_relative :: "string \<Rightarrow> string \<Rightarrow> string" where
  "join_relative parent child = (if parent = [] then child else parent @ ''/'' @ child)"

definition paths_overlap :: "string \<Rightarrow> string \<Rightarrow> bool" where
  "paths_overlap l r = (let a = segments l; b = segments r; n = min (length a) (length b) in take n a = take n b)"

section \<open>Matching\<close>

text \<open>The regular expression \<open>_segment_matches\<close> builds: \<open>*\<close> is \<open>[^/]*\<close>, \<open>?\<close> is \<open>[^/]\<close>, the rest is literal.\<close>

fun segment_matches :: "string \<Rightarrow> string \<Rightarrow> bool" where
  "segment_matches [] v = (v = [])"
| "segment_matches (p # ps) v =
     (if p = CHR ''*'' then
        (segment_matches ps v \<or> (case v of [] \<Rightarrow> False | c # cs \<Rightarrow> c \<noteq> CHR ''/'' \<and> segment_matches (p # ps) cs))
      else (case v of [] \<Rightarrow> False
         | c # cs \<Rightarrow> (if p = CHR ''?'' then c \<noteq> CHR ''/'' else c = p) \<and> segment_matches ps cs))"

text \<open>One row per pattern segment: \<open>star_row\<close> is the inner loop for \<open>**\<close>, \<open>step_row\<close> for any other segment.\<close>

fun star_row :: "bool \<Rightarrow> bool list \<Rightarrow> bool list" where
  "star_row left [] = []"
| "star_row left (up # row) = (up \<or> left) # star_row (up \<or> left) row"

fun step_row :: "string \<Rightarrow> bool list \<Rightarrow> string list \<Rightarrow> bool list" where
  "step_row p (diag # row) (part # parts) = (diag \<and> segment_matches p part) # step_row p row parts"
| "step_row p _ _ = []"

definition next_row :: "string list \<Rightarrow> bool list \<Rightarrow> string \<Rightarrow> bool list" where
  "next_row parts row p =
     (if p = ''**'' then hd row # star_row (hd row) (tl row) else False # step_row p row parts)"

definition glob_rows :: "string list \<Rightarrow> string list \<Rightarrow> bool" where
  "glob_rows pats parts = last (foldl (next_row parts) (True # replicate (length parts) False) pats)"

definition glob_matches :: "json \<Rightarrow> json \<Rightarrow> bool bres" where
  "glob_matches pat path =
     bindE (validate_allowed_change_glob pat ''allowed-change glob'') (\<lambda>p.
     bindE (validate_relative_path path ''changed path'') (\<lambda>q.
       Inr (glob_rows (segments p) (segments q))))"

section \<open>The bundle's file system\<close>

text \<open>
  A directory lists its entries in the order the system gives.  \<open>Locked\<close> is an entry (a directory or a
  regular file) that cannot be opened, \<open>Closed\<close> a directory that opens but cannot be listed, \<open>Reparse\<close> a
  symbolic link, junction or reparse point, \<open>Special\<close> any other non-regular file.
\<close>

datatype blob = Utf8 string | Bytes string

datatype node =
    RegularFile blob
  | Directory "(string \<times> node) list"
  | Closed
  | Locked bool
  | Reparse
  | Special

fun is_directory :: "node \<Rightarrow> bool" where
  "is_directory (Directory es) = True"
| "is_directory Closed = True"
| "is_directory (Locked d) = d"
| "is_directory _ = False"

fun is_regular :: "node \<Rightarrow> bool" where
  "is_regular (RegularFile b) = True"
| "is_regular (Locked d) = (\<not> d)"
| "is_regular _ = False"

definition list_directory :: "string \<Rightarrow> node \<Rightarrow> (string \<times> node) list bres" where
  "list_directory label n = (case n of Directory es \<Rightarrow> Inr es | _ \<Rightarrow> Inl (CouldNotList label))"

definition exact_entry :: "node \<Rightarrow> string \<Rightarrow> string \<Rightarrow> node bres" where
  "exact_entry parent component label =
     bindE (list_directory label parent) (\<lambda>es.
       case find (\<lambda>e. fst e = component) es of
         None \<Rightarrow>
           (case find (\<lambda>e. casefold (fst e) = casefold component) es of
              Some e \<Rightarrow> Inl (WrongCase label component (fst e))
            | None \<Rightarrow> Inl (MissingComponent label component))
       | Some e \<Rightarrow> if snd e = Reparse then Inl (IsReparse label component) else Inr (snd e))"

definition open_contained_handle :: "string \<Rightarrow> node \<Rightarrow> bool \<Rightarrow> string \<Rightarrow> node bres" where
  "open_contained_handle component n directory label =
     (if n = Reparse then Inl (IsReparse label component)
      else if directory \<and> \<not> is_directory n then Inl (NotADirectory label)
      else if \<not> directory \<and> \<not> is_regular n then Inl (NotARegularFile label)
      else (case n of Locked d \<Rightarrow> Inl (CouldNotOpen label component) | _ \<Rightarrow> Inr n))"

text \<open>The components in order, each opened below the one before; only the last may be a file.\<close>

fun open_components :: "string \<Rightarrow> bool \<Rightarrow> node \<Rightarrow> string list \<Rightarrow> node bres" where
  "open_components label directory n [] = Inr n"
| "open_components label directory n (c # cs) =
     bindE (exact_entry n c label) (\<lambda>e.
     bindE (open_contained_handle c e (cs \<noteq> [] \<or> directory) label) (\<lambda>n'.
       open_components label directory n' cs))"

definition resolve_contained :: "node \<Rightarrow> string \<Rightarrow> string \<Rightarrow> bool \<Rightarrow> node bres" where
  "resolve_contained base relative label directory =
     bindE (validate_relative_path (JStr relative) label) (\<lambda>r. open_components label directory base (segments r))"

text \<open>The bundle root is pinned from the file system's anchor down.\<close>

definition contained_root :: "node \<Rightarrow> string list \<Rightarrow> node bres" where
  "contained_root anchor parts =
     (if anchor = Reparse then Inl (IsReparse ''filesystem anchor'' ''/'')
      else if \<not> is_directory anchor then Inl (NotADirectory ''filesystem anchor'')
      else open_components ''agent suite path'' True anchor parts)"

section \<open>Capturing files\<close>

record asset =
  ad_path :: string
  ad_sha :: string
  ad_size :: nat

definition Asset_to_mapping :: "asset \<Rightarrow> json" where
  "Asset_to_mapping a = JObj [(''path'', JStr (ad_path a)), (''sha256'', JStr (ad_sha a)),
     (''size_bytes'', JInt (int (ad_size a)))]"

text \<open>The texts of the model are the code points 0 to 255: one byte below 128, two above.\<close>

fun blob_size :: "blob \<Rightarrow> nat" where
  "blob_size (Utf8 t) = sum_list (map (\<lambda>c. if code_pt c < 128 then 1 else 2) t)"
| "blob_size (Bytes b) = length b"

type_synonym hashes = "externals \<times> (string \<Rightarrow> string)"

definition blob_sha :: "hashes \<Rightarrow> blob \<Rightarrow> string" where
  "blob_sha h b = (case b of Utf8 t \<Rightarrow> sha256_hex (fst h) t | Bytes s \<Rightarrow> snd h s)"

definition blob_text :: "blob \<Rightarrow> string option" where
  "blob_text b = (case b of Utf8 t \<Rightarrow> Some t | Bytes _ \<Rightarrow> None)"

definition describe :: "hashes \<Rightarrow> string \<Rightarrow> blob \<Rightarrow> asset" where
  "describe h path b = \<lparr>ad_path = path, ad_sha = blob_sha h b, ad_size = blob_size b\<rparr>"

definition capture_contained_file :: "node \<Rightarrow> string \<Rightarrow> string \<Rightarrow> blob bres" where
  "capture_contained_file base relative label =
     bindE (resolve_contained base relative label False) (\<lambda>n.
       case n of RegularFile b \<Rightarrow> Inr b | _ \<Rightarrow> Inl (NotARegularFile label))"

definition reject_generated_bytecode :: "string \<Rightarrow> string \<Rightarrow> string \<Rightarrow> unit bres" where
  "reject_generated_bytecode name relative label =
     checkE (\<not> (name = ''__pycache__'' \<or> suffix ''.pyc'' name \<or> suffix ''.pyo'' name)) (BytecodeInTree label relative)"

definition require_nonempty_utf8 :: "blob \<Rightarrow> string \<Rightarrow> unit bres" where
  "require_nonempty_utf8 b label = (case blob_text b of
     None \<Rightarrow> Inl (NotReadableUtf8 label)
   | Some t \<Rightarrow> checkE (strip t \<noteq> []) (EmptyText label))"

section \<open>Walking a tree\<close>

text \<open>
  One directory: its entries by name; a directory is opened and queued, a file is opened and captured.
  Gives the queued directories and the files, in this order.
\<close>

fun visit_entries :: "string \<Rightarrow> string \<Rightarrow> (string \<times> node) list \<Rightarrow> ((string \<times> node) list \<times> (string \<times> blob) list) bres" where
  "visit_entries label here [] = Inr ([], [])"
| "visit_entries label here ((name, n) # es) =
     (let child = join_relative here name in
      if n = Reparse then Inl (ReparseInTree label child)
      else bindE (reject_generated_bytecode name child label) (\<lambda>_.
        if is_directory n then
          bindE (open_contained_handle name n True (label @ '' directory'')) (\<lambda>n'.
          bindE (visit_entries label here es) (\<lambda>(ds, fs). Inr ((child, n') # ds, fs)))
        else if is_regular n then
          bindE (open_contained_handle name n False (label @ '' asset'')) (\<lambda>n'.
          (case n' of
             RegularFile b \<Rightarrow> bindE (visit_entries label here es) (\<lambda>(ds, fs). Inr (ds, (child, b) # fs))
           | _ \<Rightarrow> Inl (NotARegularFile label)))
        else Inl (SpecialInTree label child)))"

fun node_size :: "node \<Rightarrow> nat" where
  "node_size (Directory es) = Suc (sum_list (map (\<lambda>e. node_size (snd e)) es))"
| "node_size _ = 1"

lemma visit_entries_size:
  "visit_entries label here es = Inr (ds, fs) \<Longrightarrow>
     sum_list (map (\<lambda>d. node_size (snd d)) ds) \<le> sum_list (map (\<lambda>e. node_size (snd e)) es)"
proof (induction es arbitrary: ds fs)
  case (Cons e es)
  obtain name n where e: "e = (name, n)" by (cases e)
  from Cons.prems obtain ds' fs' where "visit_entries label here es = Inr (ds', fs')"
    and "ds = ds' \<or> (\<exists>c. ds = (c, n) # ds')"
    unfolding e by (auto simp: Let_def bindE_Inr_iff open_contained_handle_def split: if_splits node.splits)
  with Cons.IH e show ?case by fastforce
qed simp

lemma sum_list_sort_key: "sum_list (map f (sort_key k xs)) = (sum_list (map f xs) :: nat)"
  by (metis mset_map mset_sort sum_mset_sum_list)

text \<open>
  \<open>pending\<close> is the stack of queued directories with the identity each had when it was opened; the last
  queued is visited first.  A queued directory is resolved again from the root and must be the same one.
\<close>

function walk_pending :: "node \<Rightarrow> string \<Rightarrow> (string \<times> node) list
    \<Rightarrow> (string list \<times> (string \<times> blob) list) bres" where
  "walk_pending base label [] = Inr ([], [])"
| "walk_pending base label ((here, n) # pending) =
     (case resolve_contained base here label True of
        Inl e \<Rightarrow> Inl e
      | Inr m \<Rightarrow>
          if m \<noteq> n then Inl (IdentityChanged label)
          else (case list_directory label n of
                  Inl e \<Rightarrow> Inl e
                | Inr es \<Rightarrow>
                    (case visit_entries label here (sort_key fst es) of
                       Inl e \<Rightarrow> Inl e
                     | Inr (ds, fs) \<Rightarrow>
                         bindE (walk_pending base label (rev ds @ pending)) (\<lambda>(dirs, files).
                           Inr (map fst ds @ dirs, fs @ files)))))"
  by pat_completeness auto
termination
proof (relation "measure (\<lambda>(base, label, pending). sum_list (map (\<lambda>d. node_size (snd d)) pending))", goal_cases)
  case (2 base label here n pending m es x ds fs)
  then have "sum_list (map (\<lambda>d. node_size (snd d)) ds) < node_size n"
    using visit_entries_size [of label here "sort_key fst es" ds fs]
    by (cases n) (auto simp: list_directory_def sum_list_sort_key)
  then show ?case by (simp add: rev_map [symmetric])
qed simp

declare walk_pending.simps [simp del]

text \<open>The tree below a path: every directory with the path itself, the descriptors of the files by path.\<close>

record tree_snapshot =
  ts_directories :: "string list"
  ts_assets :: "asset list"

definition walk_regular_files :: "hashes \<Rightarrow> node \<Rightarrow> string \<Rightarrow> string \<Rightarrow> tree_snapshot bres" where
  "walk_regular_files h base relative label =
     bindE (resolve_contained base relative label True) (\<lambda>n.
     bindE (walk_pending base label [(relative, n)]) (\<lambda>(dirs, files).
       Inr \<lparr>ts_directories = relative # dirs,
         ts_assets = sort_key ad_path (map (\<lambda>f. describe h (fst f) (snd f)) files)\<rparr>))"

section \<open>Manifests\<close>

definition labelled_list :: "(json \<Rightarrow> string \<Rightarrow> 'a bres) \<Rightarrow> json list \<Rightarrow> string \<Rightarrow> 'a list bres" where
  "labelled_list f vs label = mapE (\<lambda>(i, v). f v (label @ ''['' @ show_nat i @ '']'')) (enumerate 0 vs)"

text \<open>A list whose elements pass \<open>f\<close> and are distinct.\<close>

definition distinct_list :: "(json \<Rightarrow> string \<Rightarrow> string bres) \<Rightarrow> json \<Rightarrow> string \<Rightarrow> string list bres" where
  "distinct_list f v label = (case v of
     JList vs \<Rightarrow>
       bindE (labelled_list f vs label) (\<lambda>xs.
       bindE (checkE (distinct xs) (HasDuplicates label)) (\<lambda>_. Inr xs))
   | _ \<Rightarrow> Inl (NotAStringList label))"

definition RuntimeSpec_from_mapping :: "json \<Rightarrow> unit bres" where
  "RuntimeSpec_from_mapping v =
     bindE (swire (wire_exact_keys v [''language'', ''version''] ''suite.runtime'')) (\<lambda>d.
     bindE (checkE (fld d ''language'' = JStr ''python'') LanguageNotPython) (\<lambda>_.
       checkE (fld d ''version'' = JStr ''3.12'') VersionNot312))"

text \<open>A \<open>RuntimeSpec\<close> can only be Python 3.12.\<close>

definition RuntimeSpec_to_mapping :: json where
  "RuntimeSpec_to_mapping = JObj [(''language'', JStr ''python''), (''version'', JStr ''3.12'')]"

record task_provenance =
  pv_source :: string
  pv_license :: "string option"
  pv_author :: string
  pv_assistance :: "string list"
  pv_reviewers :: "string list"

definition provenance_fields :: "string list" where
  "provenance_fields = [''source'', ''license'', ''authoring_identity'', ''authoring_assistance'',
     ''independent_reviewers'']"

definition TaskProvenance_from_mapping :: "json \<Rightarrow> task_provenance bres" where
  "TaskProvenance_from_mapping v =
     bindE (swire (wire_exact_keys v provenance_fields ''task.provenance'')) (\<lambda>d.
     bindE (swire (validate_nonempty_string (fld d ''source'') ''task.provenance.source'')) (\<lambda>s.
     bindE (if fld d ''license'' = JNull then Inr None
            else bindE (swire (validate_nonempty_string (fld d ''license'') ''task.provenance.license'')) (\<lambda>l. Inr (Some l))) (\<lambda>l.
     bindE (swire (validate_nonempty_string (fld d ''authoring_identity'') ''task.provenance.authoring_identity'')) (\<lambda>a.
     bindE (distinct_list (\<lambda>x y. swire (validate_nonempty_string x y)) (fld d ''authoring_assistance'')
              ''task.provenance.authoring_assistance'') (\<lambda>xs.
     bindE (distinct_list (\<lambda>x y. swire (validate_nonempty_string x y)) (fld d ''independent_reviewers'')
              ''task.provenance.independent_reviewers'') (\<lambda>ys.
       Inr \<lparr>pv_source = s, pv_license = l, pv_author = a, pv_assistance = xs, pv_reviewers = ys\<rparr>))))))"

definition TaskProvenance_to_mapping :: "task_provenance \<Rightarrow> json" where
  "TaskProvenance_to_mapping p = JObj [
     (''source'', JStr (pv_source p)), (''license'', case pv_license p of None \<Rightarrow> JNull | Some l \<Rightarrow> JStr l),
     (''authoring_identity'', JStr (pv_author p)), (''authoring_assistance'', strs_json (pv_assistance p)),
     (''independent_reviewers'', strs_json (pv_reviewers p))]"

record agent_task =
  tk_schema :: int
  tk_id :: string
  tk_family :: string
  tk_tags :: "string list"
  tk_cluster :: string
  tk_difficulty :: string
  tk_prompt :: string
  tk_seed :: string
  tk_oracle :: string
  tk_reference :: string
  tk_allowed :: "string list"
  tk_protected :: "string list"
  tk_provenance :: task_provenance

definition task_fields :: "string list" where
  "task_fields = [''schema_version'', ''task_id'', ''family'', ''tags'', ''cluster_id'', ''difficulty'', ''prompt'',
     ''seed'', ''oracle'', ''reference_patch'', ''allowed_changes'', ''protected_paths'', ''provenance'']"

definition one_of :: "json \<Rightarrow> string list \<Rightarrow> suite_bundle_error \<Rightarrow> string bres" where
  "one_of v xs e = bindE (checkE (is_str v \<and> the_str v \<in> set xs) e) (\<lambda>_. Inr (the_str v))"

fun is_filled_list :: "json \<Rightarrow> bool" where
  "is_filled_list (JList vs) = (vs \<noteq> [])"
| "is_filled_list _ = False"

text \<open>The pairs of the task's four asset paths in the order of the nested loops.\<close>

definition disjoint_paths :: "string list \<Rightarrow> unit bres" where
  "disjoint_paths ps = seqE (concat (map (\<lambda>i. map (\<lambda>r.
     checkE (\<not> paths_overlap (ps ! i) r) (AssetPathsOverlap (ps ! i) r)) (drop (Suc i) ps)) [0..<length ps]))"

definition AgentTask_init :: "(string \<Rightarrow> json) \<Rightarrow> int \<Rightarrow> task_provenance \<Rightarrow> agent_task bres" where
  "AgentTask_init f n prov =
     bindE (swire (validate_safe_id (f ''task_id'') ''task.task_id'')) (\<lambda>i.
     bindE (one_of (f ''family'') TASK_FAMILIES BadFamily) (\<lambda>fam.
     bindE (distinct_list (\<lambda>x y. swire (validate_safe_id x y)) (f ''tags'') ''task.tags'') (\<lambda>tags.
     bindE (swire (validate_safe_id (f ''cluster_id'') ''task.cluster_id'')) (\<lambda>c.
     bindE (one_of (f ''difficulty'') DIFFICULTIES BadDifficulty) (\<lambda>d.
     bindE (validate_relative_path (f ''prompt'') ''task.prompt'') (\<lambda>p.
     bindE (validate_relative_path (f ''seed'') ''task.seed'') (\<lambda>s.
     bindE (validate_relative_path (f ''oracle'') ''task.oracle'') (\<lambda>or.
     bindE (validate_relative_path (f ''reference_patch'') ''task.reference_patch'') (\<lambda>r.
     bindE (disjoint_paths [p, s, or, r]) (\<lambda>_.
     bindE (checkE (is_filled_list (f ''allowed_changes'')) NoAllowedChanges) (\<lambda>_.
     bindE (distinct_list validate_allowed_change_glob (f ''allowed_changes'') ''task.allowed_changes'') (\<lambda>al.
     bindE (distinct_list validate_protected_path (f ''protected_paths'') ''task.protected_paths'') (\<lambda>pr.
       Inr \<lparr>tk_schema = n, tk_id = i, tk_family = fam, tk_tags = tags, tk_cluster = c, tk_difficulty = d,
         tk_prompt = p, tk_seed = s, tk_oracle = or, tk_reference = r, tk_allowed = al, tk_protected = pr,
         tk_provenance = prov\<rparr>)))))))))))))"

definition AgentTask_from_mapping :: "json \<Rightarrow> agent_task bres" where
  "AgentTask_from_mapping v =
     bindE (swire (wire_exact_keys v task_fields ''task'')) (\<lambda>d.
     bindE (swire (validate_schema_version (fld d ''schema_version'') ''task'' 1)) (\<lambda>n.
     bindE (TaskProvenance_from_mapping (fld d ''provenance'')) (\<lambda>prov.
       AgentTask_init (fld d) n prov)))"

definition AgentTask_to_mapping :: "agent_task \<Rightarrow> json" where
  "AgentTask_to_mapping t = JObj [
     (''schema_version'', JInt (tk_schema t)), (''task_id'', JStr (tk_id t)), (''family'', JStr (tk_family t)),
     (''tags'', strs_json (tk_tags t)), (''cluster_id'', JStr (tk_cluster t)), (''difficulty'', JStr (tk_difficulty t)),
     (''prompt'', JStr (tk_prompt t)), (''seed'', JStr (tk_seed t)), (''oracle'', JStr (tk_oracle t)),
     (''reference_patch'', JStr (tk_reference t)), (''allowed_changes'', strs_json (tk_allowed t)),
     (''protected_paths'', strs_json (tk_protected t)), (''provenance'', TaskProvenance_to_mapping (tk_provenance t))]"

record agent_suite =
  ag_schema :: int
  ag_id :: string
  ag_version :: string
  ag_description :: string
  ag_evaluator :: string
  ag_profile_id :: string
  ag_scoring :: string
  ag_run_class :: string
  ag_tasks :: "string list"
  ag_specs :: "agent_task list"
  ag_root :: "string list option"
  ag_assets :: "asset list list"

definition suite_fields :: "string list" where
  "suite_fields = [''schema_version'', ''suite_id'', ''version'', ''description'', ''runtime'', ''evaluator_version'',
     ''execution_profile_id'', ''scoring_policy'', ''run_class'', ''tasks'']"

fun repeated_acc :: "string list \<Rightarrow> string list \<Rightarrow> string list" where
  "repeated_acc seen [] = []"
| "repeated_acc seen (x # xs) = (if x \<in> set seen then x # repeated_acc seen xs else repeated_acc (x # seen) xs)"

text \<open>\<open>sorted(_duplicates(values))\<close>\<close>

definition duplicates :: "string list \<Rightarrow> string list" where
  "duplicates xs = sort (remdups (repeated_acc [] xs))"

text \<open>The checks of \<open>AgentSuite.__post_init__\<close> on what loading adds.\<close>

definition loaded_counts :: "agent_suite \<Rightarrow> agent_suite bres" where
  "loaded_counts s =
     bindE (checkE (ag_specs s = [] \<or> length (ag_specs s) = length (ag_tasks s)) TaskCountDiffers) (\<lambda>_.
     bindE (checkE (distinct (map tk_id (ag_specs s))) (DuplicateTaskIds (duplicates (map tk_id (ag_specs s))))) (\<lambda>_.
     bindE (checkE (ag_assets s = [] \<or> length (ag_assets s) = length (ag_tasks s)) SnapshotCountDiffers) (\<lambda>_.
       Inr s)))"

definition AgentSuite_init :: "(string \<Rightarrow> json) \<Rightarrow> int \<Rightarrow> agent_suite bres" where
  "AgentSuite_init f n =
     bindE (swire (validate_safe_id (f ''suite_id'') ''suite.suite_id'')) (\<lambda>i.
     bindE (swire (validate_nonempty_string (f ''version'') ''suite.version'')) (\<lambda>v.
     bindE (swire (validate_nonempty_string (f ''description'') ''suite.description'')) (\<lambda>d.
     bindE (checkE (f ''evaluator_version'' = JStr EVALUATOR_VERSION) EvaluatorDiffers) (\<lambda>_.
     bindE (swire (validate_safe_id (f ''execution_profile_id'') ''suite.execution_profile_id'')) (\<lambda>p.
     bindE (checkE (f ''scoring_policy'' = JStr ''binary-heldout-v1'') ScoringPolicyDiffers) (\<lambda>_.
     bindE (one_of (f ''run_class'') RUN_CLASSES BadRunClass) (\<lambda>c.
     bindE (checkE (is_filled_list (f ''tasks'')) NoTasks) (\<lambda>_.
     bindE (distinct_list validate_relative_path (f ''tasks'') ''suite.tasks'') (\<lambda>ts.
       loaded_counts \<lparr>ag_schema = n, ag_id = i, ag_version = v, ag_description = d,
         ag_evaluator = EVALUATOR_VERSION, ag_profile_id = p, ag_scoring = ''binary-heldout-v1'', ag_run_class = c,
         ag_tasks = ts, ag_specs = [], ag_root = None, ag_assets = []\<rparr>)))))))))"

definition AgentSuite_from_mapping :: "json \<Rightarrow> agent_suite bres" where
  "AgentSuite_from_mapping v =
     bindE (swire (wire_exact_keys v suite_fields ''suite'')) (\<lambda>d.
     bindE (swire (validate_schema_version (fld d ''schema_version'') ''suite'' 1)) (\<lambda>n.
     bindE (RuntimeSpec_from_mapping (fld d ''runtime'')) (\<lambda>_.
       AgentSuite_init (fld d) n)))"

definition AgentSuite_to_mapping :: "agent_suite \<Rightarrow> json" where
  "AgentSuite_to_mapping s = JObj [
     (''schema_version'', JInt (ag_schema s)), (''suite_id'', JStr (ag_id s)), (''version'', JStr (ag_version s)),
     (''description'', JStr (ag_description s)), (''runtime'', RuntimeSpec_to_mapping),
     (''evaluator_version'', JStr (ag_evaluator s)), (''execution_profile_id'', JStr (ag_profile_id s)),
     (''scoring_policy'', JStr (ag_scoring s)), (''run_class'', JStr (ag_run_class s)), (''tasks'', strs_json (ag_tasks s))]"

definition families :: "agent_suite \<Rightarrow> string set" where
  "families s = set (map tk_family (ag_specs s))"

definition suite_tags :: "agent_suite \<Rightarrow> string set" where
  "suite_tags s = (\<Union>t \<in> set (ag_specs s). set (tk_tags t))"

section \<open>The assets of a task\<close>

text \<open>A name \<open>test_*.py\<close> or \<open>*_test.py\<close>: such a name has the suffix \<open>.py\<close>.\<close>

definition is_pytest_file :: "string \<Rightarrow> bool" where
  "is_pytest_file path = (let name = last (segments path)
     in suffix ''.py'' name \<and> (prefix ''test_'' name \<or> suffix ''_test.py'' name))"

definition relative_to :: "string \<Rightarrow> string \<Rightarrow> string" where
  "relative_to parent path = drop (Suc (length parent)) path"

definition reject_git_control :: "string \<Rightarrow> string \<Rightarrow> string list \<Rightarrow> unit bres" where
  "reject_git_control tid seed paths = seqE (map (\<lambda>path. if path = seed then Inr () else
     checkE (\<not> list_ex (\<lambda>part. part \<in> set SEED_FORBIDDEN_NAMES) (segments (relative_to seed path)))
       (GitControlPath tid (relative_to seed path))) (sort paths))"

definition below :: "string \<Rightarrow> string list \<Rightarrow> string list" where
  "below d paths = filter (prefix (d @ ''/'')) paths"

definition check_layout :: "string \<Rightarrow> string \<Rightarrow> string \<Rightarrow> tree_snapshot \<Rightarrow> tree_snapshot \<Rightarrow> unit bres" where
  "check_layout tid seed oracle ss os = (let
     seed_paths = map ad_path (ts_assets ss); oracle_paths = map ad_path (ts_assets os);
     seed_tests = join_relative seed ''tests''; oracle_tests = join_relative oracle ''tests''
   in
     bindE (reject_git_control tid seed (remdups (ts_directories ss) @ seed_paths)) (\<lambda>_.
     bindE (checkE (seed_tests \<in> set (ts_directories ss)) (NoVisibleTests tid)) (\<lambda>_.
     bindE (checkE (oracle_tests \<in> set (ts_directories os)) (NoHiddenTests tid)) (\<lambda>_.
     bindE (checkE (seed_paths \<noteq> []) (SeedEmpty tid)) (\<lambda>_.
     bindE (checkE (oracle_paths \<noteq> []) (OracleEmpty tid)) (\<lambda>_.
     bindE (checkE (list_ex is_pytest_file (below seed_tests seed_paths)) (NoVisibleTestFile tid)) (\<lambda>_.
       checkE (list_ex is_pytest_file (below oracle_tests oracle_paths)) (NoHiddenTestFile tid))))))))"

definition snapshot_task_assets :: "hashes \<Rightarrow> node \<Rightarrow> agent_task \<Rightarrow> string \<Rightarrow> asset list bres" where
  "snapshot_task_assets h base t task_root = (let
     named = (\<lambda>what. ''task '' @ tk_id t @ what);
     prompt = join_relative task_root (tk_prompt t); reference = join_relative task_root (tk_reference t);
     seed = join_relative task_root (tk_seed t); oracle = join_relative task_root (tk_oracle t)
   in
     bindE (capture_contained_file base prompt (named '' prompt'')) (\<lambda>pb.
     bindE (capture_contained_file base reference (named '' reference patch'')) (\<lambda>rb.
     bindE (require_nonempty_utf8 pb (named '' prompt'')) (\<lambda>_.
     bindE (require_nonempty_utf8 rb (named '' reference patch'')) (\<lambda>_.
     bindE (walk_regular_files h base seed (named '' seed'')) (\<lambda>ss.
     bindE (walk_regular_files h base oracle (named '' oracle'')) (\<lambda>os.
     bindE (check_layout (tk_id t) seed oracle ss os) (\<lambda>_.
     (let ds = [describe h prompt pb, describe h reference rb] @ ts_assets ss @ ts_assets os;
          repeated = duplicates (map ad_path ds)
      in bindE (checkE (repeated = []) (DuplicateAssets (tk_id t) repeated)) (\<lambda>_.
           Inr (sort_key ad_path ds)))))))))))"

section \<open>Identity and loading\<close>

definition task_assets :: "agent_suite \<Rightarrow> nat \<Rightarrow> json bres" where
  "task_assets s i =
     (if ag_root s = None \<or> ag_specs s = [] \<or> length (ag_assets s) \<noteq> length (ag_specs s) then Inl NotLoadedFromBundle
      else Inr (JList (map Asset_to_mapping (ag_assets s ! i))))"

definition instrument_preimage :: "agent_suite \<Rightarrow> json bres" where
  "instrument_preimage s =
     (if ag_root s = None \<or> length (ag_specs s) \<noteq> length (ag_tasks s) \<or> length (ag_assets s) \<noteq> length (ag_tasks s)
      then Inl NotLoadedFromBundle
      else bindE (mapE (\<lambda>i. bindE (task_assets s i) (\<lambda>as. Inr (JObj [
               (''manifest_path'', JStr (ag_tasks s ! i)), (''task'', AgentTask_to_mapping (ag_specs s ! i)),
               (''assets'', as)]))) [0..<length (ag_specs s)]) (\<lambda>es.
             Inr (JObj [(''schema_version'', JInt 1), (''suite'', AgentSuite_to_mapping s), (''tasks'', JList es)])))"

definition instrument_hash :: "externals \<Rightarrow> agent_suite \<Rightarrow> string bres" where
  "instrument_hash ext s = bindE (instrument_preimage s) (\<lambda>v. swire (wire_sha256 ext v))"

definition task_hash :: "externals \<Rightarrow> agent_suite \<Rightarrow> int \<Rightarrow> string bres" where
  "task_hash ext s i =
     (if i < 0 \<or> int (length (ag_specs s)) \<le> i then Inl (TaskIndexOutOfRange i)
      else bindE (task_assets s (nat i)) (\<lambda>as.
             swire (wire_sha256 ext (JObj [(''schema_version'', JInt 1),
               (''task'', AgentTask_to_mapping (ag_specs s ! nat i)), (''assets'', as)]))))"

definition task_hashes :: "externals \<Rightarrow> agent_suite \<Rightarrow> (string \<times> string) list bres" where
  "task_hashes ext s = mapE (\<lambda>(i, t). bindE (task_hash ext s (int i)) (\<lambda>x. Inr (tk_id t, x))) (enumerate 0 (ag_specs s))"

definition load_task :: "hashes \<Rightarrow> nat \<Rightarrow> node \<Rightarrow> nat \<Rightarrow> string \<Rightarrow> (agent_task \<times> asset list) bres" where
  "load_task h limit base i path =
     bindE (capture_contained_file base path (''suite.tasks['' @ show_nat i @ ''] manifest'')) (\<lambda>b.
     bindE (swire (decode_json_object limit (blob_text b) ''agent task'')) (\<lambda>d.
     bindE (AgentTask_from_mapping (JObj d)) (\<lambda>t.
     (let parent = butlast (segments path); name = (if parent = [] then [] else last parent)
      in bindE (checkE (name = tk_id t) (ManifestDirectoryDiffers name (tk_id t))) (\<lambda>_.
         bindE (snapshot_task_assets h base t (join ''/'' parent)) (\<lambda>as. Inr (t, as)))))))"

text \<open>\<open>supplied\<close> holds the components of the absolute path given.\<close>

definition load_agent_suite :: "hashes \<Rightarrow> nat \<Rightarrow> node \<Rightarrow> string list \<Rightarrow> agent_suite bres" where
  "load_agent_suite h limit anchor supplied =
     (let parts = (if supplied \<noteq> [] \<and> last supplied = ''suite.json'' then butlast supplied else supplied) in
     bindE (contained_root anchor parts) (\<lambda>base.
     bindE (capture_contained_file base ''suite.json'' ''suite manifest'') (\<lambda>b.
     bindE (swire (decode_json_object limit (blob_text b) ''agent suite'')) (\<lambda>d.
     bindE (AgentSuite_from_mapping (JObj d)) (\<lambda>s.
     bindE (mapE (\<lambda>(i, p). load_task h limit base i p) (enumerate 0 (ag_tasks s))) (\<lambda>ts.
     bindE (loaded_counts (s\<lparr>ag_specs := map fst ts, ag_root := Some parts, ag_assets := map snd ts\<rparr>)) (\<lambda>loaded.
     bindE (instrument_hash (fst h) loaded) (\<lambda>_. Inr loaded))))))))"

section \<open>Which changes a task allows\<close>

definition is_protected_path :: "agent_task \<Rightarrow> json \<Rightarrow> bool bres" where
  "is_protected_path t path =
     bindE (validate_relative_path path ''changed path'') (\<lambda>p.
       Inr (list_ex (\<lambda>q. take (length (segments q)) (segments p) = segments q) (ALWAYS_PROTECTED_PATHS @ tk_protected t)))"

text \<open>\<open>any\<close> of the generator: the first pattern that matches ends it.\<close>

fun any_match :: "string list \<Rightarrow> json \<Rightarrow> bool bres" where
  "any_match [] path = Inr False"
| "any_match (p # ps) path = bindE (glob_matches (JStr p) path) (\<lambda>b. if b then Inr True else any_match ps path)"

definition is_change_allowed :: "agent_task \<Rightarrow> json \<Rightarrow> bool bres" where
  "is_change_allowed t path =
     bindE (is_protected_path t path) (\<lambda>b. if b then Inr False else any_match (tk_allowed t) path)"

end
