(* ===== verification/Bench_Suite_Facts.thy ===== *)
theory Bench_Suite_Facts
  imports Bench_Suite
begin

text \<open>
  What the suite bundles promise: the dynamic-programming glob matcher is the language of its pattern, the
  manifests are codecs, the change policy, the walk of a tree is the tree, what a loaded suite is and what
  its instrument hash identifies; and a sample bundle that loads.
\<close>

section \<open>The glob rows compute the pattern language\<close>

text \<open>The language of a pattern, read from the left: \<open>**\<close> stands for any number of segments.\<close>

fun glob_language :: "string list \<Rightarrow> string list \<Rightarrow> bool" where
  "glob_language [] qs = (qs = [])"
| "glob_language (p # ps) qs =
     (if p = ''**'' then glob_language ps qs \<or> (case qs of [] \<Rightarrow> False | q # qs' \<Rightarrow> glob_language (p # ps) qs')
      else (case qs of [] \<Rightarrow> False | q # qs' \<Rightarrow> segment_matches p q \<and> glob_language ps qs'))"

declare glob_language.simps(2) [simp del]

lemma glob_stars: "glob_language (''**'' # ps) qs \<longleftrightarrow> (\<exists>as bs. qs = as @ bs \<and> glob_language ps bs)"
proof (induction qs)
  case (Cons q qs)
  have "(\<exists>as bs. q # qs = as @ bs \<and> glob_language ps bs) \<longleftrightarrow>
      glob_language ps (q # qs) \<or> (\<exists>as bs. qs = as @ bs \<and> glob_language ps bs)"
    by (auto simp: Cons_eq_append_conv)
  with Cons show ?case by (simp add: glob_language.simps(2) [where qs = "q # qs"])
qed (simp add: glob_language.simps)

lemma glob_segment:
  "p \<noteq> ''**'' \<Longrightarrow> glob_language (p # ps) qs \<longleftrightarrow> (\<exists>q bs. qs = q # bs \<and> segment_matches p q \<and> glob_language ps bs)"
  by (cases qs) (simp_all add: glob_language.simps)

lemma glob_append: "glob_language (ps @ rs) qs \<longleftrightarrow> (\<exists>as bs. qs = as @ bs \<and> glob_language ps as \<and> glob_language rs bs)"
proof (induction ps arbitrary: qs)
  case (Cons p ps)
  show ?case
  proof (cases "p = ''**''")
    case True
    then show ?thesis by (simp add: glob_stars Cons) (metis append.assoc)
  next
    case False
    then show ?thesis by (simp add: glob_segment Cons) (metis append_Cons)
  qed
qed simp

lemma glob_snoc_stars: "glob_language (ps @ [''**'']) qs \<longleftrightarrow> (\<exists>i \<le> length qs. glob_language ps (take i qs))"
proof -
  have "glob_language [''**''] bs" for bs by (simp add: glob_stars)
  then have "glob_language (ps @ [''**'']) qs \<longleftrightarrow> (\<exists>as bs. qs = as @ bs \<and> glob_language ps as)"
    by (simp add: glob_append)
  also have "\<dots> \<longleftrightarrow> (\<exists>i \<le> length qs. glob_language ps (take i qs))"
    by (metis append_eq_conv_conj append_take_drop_id length_append le_add1)
  finally show ?thesis .
qed

lemma glob_snoc_segment:
  "p \<noteq> ''**'' \<Longrightarrow> glob_language (ps @ [p]) (qs @ [q]) \<longleftrightarrow> glob_language ps qs \<and> segment_matches p q"
proof -
  assume p: "p \<noteq> ''**''"
  then have one: "glob_language [p] bs \<longleftrightarrow> (\<exists>x. bs = [x] \<and> segment_matches p x)" for bs
    by (simp add: glob_segment)
  show ?thesis
  proof
    assume "glob_language (ps @ [p]) (qs @ [q])"
    then obtain as x where "qs @ [q] = as @ [x]" "glob_language ps as" "segment_matches p x"
      unfolding glob_append one by blast
    then show "glob_language ps qs \<and> segment_matches p q" by simp
  next
    assume "glob_language ps qs \<and> segment_matches p q"
    then show "glob_language (ps @ [p]) (qs @ [q])" unfolding glob_append one by blast
  qed
qed

lemma glob_snoc_empty: "p \<noteq> ''**'' \<Longrightarrow> \<not> glob_language (ps @ [p]) []"
  by (simp add: glob_append glob_segment)

definition row_for :: "string list \<Rightarrow> string list \<Rightarrow> bool list" where
  "row_for parts ps = map (\<lambda>j. glob_language ps (take j parts)) [0..<Suc (length parts)]"

lemma length_star_row [simp]: "length (star_row b row) = length row"
  by (induction b row rule: star_row.induct) simp_all

lemma head_or_tail: "(\<exists>i \<le> Suc k. (b # row) ! i) \<longleftrightarrow> b \<or> (\<exists>i \<le> k. row ! i)"
  by (metis Suc_le_mono not0_implies_Suc nth_Cons_0 nth_Cons_Suc zero_le)

lemma star_row_nth: "j < length row \<Longrightarrow> star_row b row ! j \<longleftrightarrow> b \<or> (\<exists>i \<le> j. row ! i)"
proof (induction b row arbitrary: j rule: star_row.induct)
  case (2 b u row)
  show ?case
  proof (cases j)
    case (Suc k)
    have "(\<exists>i \<le> Suc k. (u # row) ! i) \<longleftrightarrow> u \<or> (\<exists>i \<le> k. row ! i)" by (rule head_or_tail)
    with 2 Suc show ?thesis by auto
  qed auto
qed simp

lemma step_row_length: "length row = Suc (length parts) \<Longrightarrow> length (step_row p row parts) = length parts"
  by (induction p row parts rule: step_row.induct) simp_all

lemma step_row_nth:
  "length row = Suc (length parts) \<Longrightarrow> j < length parts \<Longrightarrow>
     step_row p row parts ! j \<longleftrightarrow> row ! j \<and> segment_matches p (parts ! j)"
proof (induction p row parts arbitrary: j rule: step_row.induct)
  case (1 p d row part parts)
  then show ?case by (cases j) simp_all
qed simp_all

lemma next_row_for: "next_row parts (row_for parts ps) p = row_for parts (ps @ [p])"
proof (rule nth_equalityI)
  let ?row = "row_for parts ps"
  have len: "length ?row = Suc (length parts)" by (simp add: row_for_def)
  have at: "?row ! j = glob_language ps (take j parts)" if "j \<le> length parts" for j
    using that by (simp add: row_for_def del: upt_Suc)
  obtain b tl where row: "?row = b # tl" "length tl = length parts" using len by (cases ?row) auto
  show "length (next_row parts ?row p) = length (row_for parts (ps @ [p]))"
    using row len by (simp add: next_row_def row_for_def step_row_length)
  fix j assume "j < length (next_row parts ?row p)"
  then have j: "j \<le> length parts" using row len by (simp add: next_row_def step_row_length split: if_splits)
  have goal: "row_for parts (ps @ [p]) ! j = glob_language (ps @ [p]) (take j parts)"
    using j by (simp add: row_for_def del: upt_Suc)
  show "next_row parts ?row p ! j = row_for parts (ps @ [p]) ! j"
  proof (cases "p = ''**''")
    case True
    have "next_row parts ?row p ! j \<longleftrightarrow> (\<exists>i \<le> j. ?row ! i)"
    proof (cases j)
      case (Suc k)
      then have "star_row b tl ! k \<longleftrightarrow> b \<or> (\<exists>i \<le> k. tl ! i)" using j row(2) by (intro star_row_nth) simp
      then show ?thesis using True Suc row(1) head_or_tail [of k b tl] by (simp add: next_row_def)
    qed (use True row(1) in \<open>simp add: next_row_def\<close>)
    also have "\<dots> \<longleftrightarrow> (\<exists>i \<le> j. glob_language ps (take i parts))" using at j by (meson le_trans)
    also have "\<dots> \<longleftrightarrow> (\<exists>i \<le> length (take j parts). glob_language ps (take i (take j parts)))"
      using j by (auto simp: min_def)
    finally show ?thesis using goal True by (simp add: glob_snoc_stars)
  next
    case False
    show ?thesis
    proof (cases j)
      case (Suc k)
      then have k: "k < length parts" using j by simp
      then have "next_row parts ?row p ! j \<longleftrightarrow> ?row ! k \<and> segment_matches p (parts ! k)"
        using False Suc len by (simp add: next_row_def step_row_nth)
      with k goal False Suc at [of k] show ?thesis by (simp add: take_Suc_conv_app_nth glob_snoc_segment)
    qed (use False goal in \<open>simp add: next_row_def glob_snoc_empty\<close>)
  qed
qed

lemma glob_rows_language: "glob_rows ps parts = glob_language ps parts"
proof -
  have start: "True # replicate (length parts) False = row_for parts []"
    by (rule nth_equalityI) (auto simp: row_for_def nth_Cons' simp del: upt_Suc)
  have "foldl (next_row parts) (row_for parts rs) qs = row_for parts (rs @ qs)" for rs qs
    by (induction qs arbitrary: rs) (simp_all add: next_row_for)
  from this [of "[]" ps] show ?thesis by (simp add: glob_rows_def start) (simp add: row_for_def)
qed

section \<open>Paths\<close>

definition path_ok :: "string \<Rightarrow> bool" where
  "path_ok s \<longleftrightarrow> s \<noteq> [] \<and> list_all (\<lambda>c. c \<notin> {CHR 0x00, CHR 0x5C, CHR '':''}) s \<and>
     list_all (\<lambda>p. p \<notin> {[], ''.'', ''..''}) (segments s)"

definition glob_ok :: "string \<Rightarrow> bool" where
  "glob_ok g \<longleftrightarrow> path_ok g \<and> list_all (\<lambda>p. CHR ''['' \<notin> set p \<and> CHR '']'' \<notin> set p \<and> (has_two_stars p \<longrightarrow> p = ''**''))
     (segments g)"

definition protected_ok :: "string \<Rightarrow> bool" where
  "protected_ok s \<longleftrightarrow> path_ok s \<and> list_all (\<lambda>c. c \<notin> {CHR ''*'', CHR ''?'', CHR ''['', CHR '']''}) s"

lemma validate_relative_path_Inr [wire_simps]:
  "validate_relative_path v label = Inr s \<longleftrightarrow> v = JStr s \<and> path_ok s"
proof -
  have "hd s \<noteq> CHR ''/''" if "path_ok s" for s
    using that by (cases s) (auto simp: path_ok_def)
  then show ?thesis
    by (cases v) (auto simp: validate_relative_path_def path_ok_def list_all_iff list_ex_iff)
qed

lemma validate_glob_segment_Inr:
  "validate_glob_segment label p = Inr () \<longleftrightarrow> CHR ''['' \<notin> set p \<and> CHR '']'' \<notin> set p \<and> (has_two_stars p \<longrightarrow> p = ''**'')"
  by (simp add: validate_glob_segment_def)

lemma validate_allowed_change_glob_Inr [wire_simps]:
  "validate_allowed_change_glob v label = Inr s \<longleftrightarrow> v = JStr s \<and> glob_ok s"
proof -
  have "seqE (map (validate_glob_segment label) ps) = Inr () \<longleftrightarrow>
      list_all (\<lambda>p. CHR ''['' \<notin> set p \<and> CHR '']'' \<notin> set p \<and> (has_two_stars p \<longrightarrow> p = ''**'')) ps" for ps
    by (simp add: seqE_Inr_iff list_all_iff validate_glob_segment_Inr)
  then show ?thesis
    by (auto simp: validate_allowed_change_glob_def glob_ok_def bindE_Inr_iff validate_relative_path_Inr)
qed

lemma validate_protected_path_Inr [wire_simps]:
  "validate_protected_path v label = Inr s \<longleftrightarrow> v = JStr s \<and> protected_ok s"
  by (auto simp: validate_protected_path_def protected_ok_def bindE_Inr_iff checkE_Inr_iff
      validate_relative_path_Inr list_all_iff list_ex_iff)

lemma labelled_list_Inr:
  assumes "\<And>v y x. f v y = Inr x \<longleftrightarrow> v = JStr x \<and> P x"
  shows "labelled_list f vs label = Inr xs \<longleftrightarrow> vs = map JStr xs \<and> list_all P xs"
proof -
  have "mapE (\<lambda>(i, v). f v (g i)) (enumerate k vs) = Inr xs \<longleftrightarrow> vs = map JStr xs \<and> list_all P xs" for k and g :: "nat \<Rightarrow> string"
  proof (induction vs arbitrary: k xs)
    case (Cons v vs)
    then show ?case by (cases xs) (auto simp: bindE_Inr_iff assms)
  qed auto
  then show ?thesis by (simp add: labelled_list_def)
qed

lemma distinct_list_Inr:
  assumes "\<And>v y x. f v y = Inr x \<longleftrightarrow> v = JStr x \<and> P x"
  shows "distinct_list f v label = Inr xs \<longleftrightarrow> v = strs_json xs \<and> list_all P xs \<and> distinct xs"
  by (cases v) (auto simp: distinct_list_def strs_json_def bindE_Inr_iff checkE_Inr_iff labelled_list_Inr [OF assms])

lemma wrapped_iffs:
  "swire (validate_nonempty_string v l) = Inr s \<longleftrightarrow> v = JStr s \<and> strip s \<noteq> []"
  "swire (validate_safe_id v l) = Inr s \<longleftrightarrow> v = JStr s \<and> safe_id s"
  by (simp_all add: map_errE_Inr_iff wire_simps)

lemmas distinct_iffs = distinct_list_Inr [OF wrapped_iffs(1)] distinct_list_Inr [OF wrapped_iffs(2)]
  distinct_list_Inr [OF validate_allowed_change_glob_Inr] distinct_list_Inr [OF validate_protected_path_Inr]
  distinct_list_Inr [OF validate_relative_path_Inr]

section \<open>Manifests as codecs\<close>

definition provenance_ok :: "task_provenance \<Rightarrow> bool" where
  "provenance_ok p \<longleftrightarrow> strip (pv_source p) \<noteq> [] \<and> (\<forall>l. pv_license p = Some l \<longrightarrow> strip l \<noteq> []) \<and>
     strip (pv_author p) \<noteq> [] \<and> list_all (\<lambda>x. strip x \<noteq> []) (pv_assistance p) \<and> distinct (pv_assistance p) \<and>
     list_all (\<lambda>x. strip x \<noteq> []) (pv_reviewers p) \<and> distinct (pv_reviewers p)"

lemma provenance_from_ok: "TaskProvenance_from_mapping v = Inr p \<Longrightarrow> provenance_ok p"
  unfolding TaskProvenance_from_mapping_def bindE_Inr_iff wrapped_iffs distinct_iffs
  by (auto simp: provenance_ok_def wrapped_iffs bindE_Inr_iff split: if_splits)

lemma provenance_to_from: "provenance_ok p \<Longrightarrow> TaskProvenance_from_mapping (TaskProvenance_to_mapping p) = Inr p"
  by (cases p; cases "pv_license p") (simp_all add: TaskProvenance_from_mapping_def TaskProvenance_to_mapping_def
      bindE_Inr_iff map_errE_Inr_iff wire_exact_keys_Inr provenance_fields_def keys_def fld_Cons wire_simps
      distinct_iffs provenance_ok_def)

interpretation provenances: mapping_codec TaskProvenance_to_mapping TaskProvenance_from_mapping provenance_ok
  by unfold_locales (simp_all add: provenance_from_ok provenance_to_from)

definition task_paths :: "agent_task \<Rightarrow> string list" where
  "task_paths t = [tk_prompt t, tk_seed t, tk_oracle t, tk_reference t]"

definition task_body_ok :: "agent_task \<Rightarrow> bool" where
  "task_body_ok t \<longleftrightarrow> safe_id (tk_id t) \<and> tk_family t \<in> set TASK_FAMILIES \<and>
     list_all safe_id (tk_tags t) \<and> distinct (tk_tags t) \<and> safe_id (tk_cluster t) \<and>
     tk_difficulty t \<in> set DIFFICULTIES \<and> list_all path_ok (task_paths t) \<and>
     (\<forall>i < 4. \<forall>j < 4. i \<noteq> j \<longrightarrow> \<not> paths_overlap (task_paths t ! i) (task_paths t ! j)) \<and>
     tk_allowed t \<noteq> [] \<and> list_all glob_ok (tk_allowed t) \<and> distinct (tk_allowed t) \<and>
     list_all protected_ok (tk_protected t) \<and> distinct (tk_protected t)"

definition task_ok :: "agent_task \<Rightarrow> bool" where
  "task_ok t \<longleftrightarrow> tk_schema t = 1 \<and> provenance_ok (tk_provenance t) \<and> task_body_ok t"

lemma one_of_Inr [wire_simps]: "one_of v xs e = Inr s \<longleftrightarrow> v = JStr s \<and> s \<in> set xs"
  by (cases v) (auto simp: one_of_def bindE_Inr_iff checkE_Inr_iff)

lemma paths_overlap_sym: "paths_overlap a b = paths_overlap b a"
  by (auto simp: paths_overlap_def Let_def min.commute)

lemma disjoint_paths_Inr:
  "disjoint_paths [a, b, c, d] = Inr u \<longleftrightarrow>
     \<not> paths_overlap a b \<and> \<not> paths_overlap a c \<and> \<not> paths_overlap a d \<and>
     \<not> paths_overlap b c \<and> \<not> paths_overlap b d \<and> \<not> paths_overlap c d"
  by (simp add: disjoint_paths_def upt_rec seqE_Inr_iff checkE_Inr_iff)

lemma four_disjoint:
  "(\<forall>i < 4. \<forall>j < 4. i \<noteq> j \<longrightarrow> \<not> paths_overlap ([a, b, c, d] ! i) ([a, b, c, d] ! j)) \<longleftrightarrow>
     \<not> paths_overlap a b \<and> \<not> paths_overlap a c \<and> \<not> paths_overlap a d \<and>
     \<not> paths_overlap b c \<and> \<not> paths_overlap b d \<and> \<not> paths_overlap c d"
proof -
  have "(\<forall>i < 4 :: nat. P i) \<longleftrightarrow> P 0 \<and> P 1 \<and> P 2 \<and> P 3" for P
    by (auto simp: eval_nat_numeral less_Suc_eq)
  then show ?thesis by (auto simp: paths_overlap_sym)
qed

lemma is_filled_list_strs [simp]: "is_filled_list (strs_json xs) \<longleftrightarrow> xs \<noteq> []"
  by (simp add: strs_json_def)

lemma AgentTask_init_Inr:
  "AgentTask_init f n prov = Inr t \<longleftrightarrow>
     f ''task_id'' = JStr (tk_id t) \<and> f ''family'' = JStr (tk_family t) \<and> f ''tags'' = strs_json (tk_tags t) \<and>
     f ''cluster_id'' = JStr (tk_cluster t) \<and> f ''difficulty'' = JStr (tk_difficulty t) \<and>
     f ''prompt'' = JStr (tk_prompt t) \<and> f ''seed'' = JStr (tk_seed t) \<and> f ''oracle'' = JStr (tk_oracle t) \<and>
     f ''reference_patch'' = JStr (tk_reference t) \<and> f ''allowed_changes'' = strs_json (tk_allowed t) \<and>
     f ''protected_paths'' = strs_json (tk_protected t) \<and> tk_schema t = n \<and> tk_provenance t = prov \<and> task_body_ok t"
  by (cases t) (auto simp: AgentTask_init_def bindE_Inr_iff wrapped_iffs one_of_Inr distinct_iffs checkE_Inr_iff
      validate_relative_path_Inr four_disjoint disjoint_paths_Inr task_body_ok_def task_paths_def)

lemma AgentTask_from_ok: "AgentTask_from_mapping v = Inr t \<Longrightarrow> task_ok t"
  unfolding AgentTask_from_mapping_def bindE_Inr_iff AgentTask_init_Inr map_errE_Inr_iff validate_schema_version_Inr
  by (auto simp: task_ok_def dest: provenances.from_ok)

lemma AgentTask_to_from: "task_ok t \<Longrightarrow> AgentTask_from_mapping (AgentTask_to_mapping t) = Inr t"
  by (simp add: AgentTask_from_mapping_def AgentTask_to_mapping_def bindE_Inr_iff map_errE_Inr_iff wire_exact_keys_Inr
      task_fields_def keys_def fld_Cons validate_schema_version_Inr provenances.from_to AgentTask_init_Inr task_ok_def)

interpretation tasks: mapping_codec AgentTask_to_mapping AgentTask_from_mapping task_ok
  by unfold_locales (simp_all add: AgentTask_from_ok AgentTask_to_from)

definition manifest_ok :: "agent_suite \<Rightarrow> bool" where
  "manifest_ok s \<longleftrightarrow> ag_schema s = 1 \<and> safe_id (ag_id s) \<and> strip (ag_version s) \<noteq> [] \<and> strip (ag_description s) \<noteq> [] \<and>
     ag_evaluator s = EVALUATOR_VERSION \<and> safe_id (ag_profile_id s) \<and> ag_scoring s = ''binary-heldout-v1'' \<and>
     ag_run_class s \<in> set RUN_CLASSES \<and> ag_tasks s \<noteq> [] \<and> list_all path_ok (ag_tasks s) \<and> distinct (ag_tasks s)"

definition unloaded :: "agent_suite \<Rightarrow> bool" where
  "unloaded s \<longleftrightarrow> ag_specs s = [] \<and> ag_root s = None \<and> ag_assets s = []"

lemma AgentSuite_from_ok: "AgentSuite_from_mapping v = Inr s \<Longrightarrow> manifest_ok s \<and> unloaded s"
  unfolding AgentSuite_from_mapping_def AgentSuite_init_def loaded_counts_def bindE_Inr_iff wrapped_iffs one_of_Inr
    distinct_iffs map_errE_Inr_iff validate_schema_version_Inr
  by (auto simp: manifest_ok_def unloaded_def wire_simps checkE_Inr_iff)

lemma AgentSuite_to_from:
  "manifest_ok s \<and> unloaded s \<Longrightarrow> AgentSuite_from_mapping (AgentSuite_to_mapping s) = Inr s"
  by (cases s) (simp add: AgentSuite_from_mapping_def AgentSuite_to_mapping_def AgentSuite_init_def loaded_counts_def
      RuntimeSpec_from_mapping_def RuntimeSpec_to_mapping_def bindE_Inr_iff map_errE_Inr_iff wire_exact_keys_Inr
      suite_fields_def keys_def fld_Cons wire_simps distinct_iffs manifest_ok_def unloaded_def)

interpretation manifests: mapping_codec AgentSuite_to_mapping AgentSuite_from_mapping "\<lambda>s. manifest_ok s \<and> unloaded s"
  by unfold_locales (simp_all add: AgentSuite_from_ok AgentSuite_to_from)

section \<open>The change policy\<close>

lemma glob_matches_Inr:
  "glob_matches (JStr g) (JStr p) = Inr b \<longleftrightarrow> glob_ok g \<and> path_ok p \<and> b = glob_language (segments g) (segments p)"
  by (auto simp: glob_matches_def bindE_Inr_iff wire_simps glob_rows_language)

lemma any_match_Inr:
  assumes "list_all glob_ok gs" and "path_ok p"
  shows "any_match gs (JStr p) = Inr (list_ex (\<lambda>g. glob_language (segments g) (segments p)) gs)"
  using assms
proof (induction gs)
  case (Cons g gs)
  then have "glob_matches (JStr g) (JStr p) = Inr (glob_language (segments g) (segments p))"
    by (simp add: glob_matches_Inr)
  with Cons show ?case by simp
qed simp

lemma take_prefix_iff: "take (length qs) ps = qs \<longleftrightarrow> prefix qs ps"
  by (metis append_eq_conv_conj prefix_def take_is_prefix)

text \<open>C21: The row-by-row glob matcher answers exactly the pairs of a valid pattern and a valid path, with the
  membership of the path in the pattern's language, where \<open>**\<close> takes any number of whole segments.\<close>

theorem glob_matches_language:
  "glob_matches pat path = Inr b \<longleftrightarrow> (\<exists>g p. pat = JStr g \<and> path = JStr p \<and> glob_ok g \<and> path_ok p \<and>
     b = glob_language (segments g) (segments p))"
  by (auto simp: glob_matches_def bindE_Inr_iff wire_simps glob_rows_language)

text \<open>C20: For a task read from a manifest the change policy answers every valid path, and says yes exactly when the
  path is neither a protected path nor below one, which holds of Git's control files and the visible tests
  whatever the manifest says, and some allowed pattern's language contains it.\<close>

theorem change_policy:
  assumes "AgentTask_from_mapping v = Inr t"
  shows "is_change_allowed t path = Inr b \<longleftrightarrow> (\<exists>p. path = JStr p \<and> path_ok p \<and>
    b = ((\<forall>q \<in> set (ALWAYS_PROTECTED_PATHS @ tk_protected t). \<not> prefix (segments q) (segments p)) \<and>
         (\<exists>g \<in> set (tk_allowed t). glob_language (segments g) (segments p))))"
proof -
  have g: "list_all glob_ok (tk_allowed t)"
    using tasks.from_ok [OF assms] by (simp add: task_ok_def task_body_ok_def)
  have "is_protected_path t (JStr p) =
      Inr (\<exists>q \<in> set (ALWAYS_PROTECTED_PATHS @ tk_protected t). prefix (segments q) (segments p))" if "path_ok p" for p
    using that by (simp add: is_protected_path_def bindE_Inr_iff validate_relative_path_Inr take_prefix_iff list_ex_iff
        flip: list_ex_append)
  then have "is_change_allowed t (JStr p) = Inr
      ((\<forall>q \<in> set (ALWAYS_PROTECTED_PATHS @ tk_protected t). \<not> prefix (segments q) (segments p)) \<and>
       (\<exists>g \<in> set (tk_allowed t). glob_language (segments g) (segments p)))" if "path_ok p" for p
    using that any_match_Inr [OF g that] by (auto simp: is_change_allowed_def list_ex_iff)
  moreover have "\<exists>p. path = JStr p \<and> path_ok p" if "is_change_allowed t path = Inr b"
    using that by (auto simp: is_change_allowed_def is_protected_path_def bindE_Inr_iff validate_relative_path_Inr)
  ultimately show ?thesis by auto
qed

section \<open>The walk is the tree\<close>

text \<open>The tree read by structural recursion: its files, its directories, and whether it may be hashed.\<close>

fun tree_files :: "string \<Rightarrow> node \<Rightarrow> (string \<times> blob) list" where
  "tree_files here (RegularFile b) = [(here, b)]"
| "tree_files here (Directory es) = concat (map (\<lambda>e. tree_files (join_relative here (fst e)) (snd e)) es)"
| "tree_files here _ = []"

fun tree_directories :: "string \<Rightarrow> node \<Rightarrow> string list" where
  "tree_directories here (Directory es) =
     here # concat (map (\<lambda>e. tree_directories (join_relative here (fst e)) (snd e)) es)"
| "tree_directories here _ = []"

definition bytecode_name :: "string \<Rightarrow> bool" where
  "bytecode_name name \<longleftrightarrow> name = ''__pycache__'' \<or> suffix ''.pyc'' name \<or> suffix ''.pyo'' name"

fun clean_tree :: "node \<Rightarrow> bool" where
  "clean_tree (RegularFile b) = True"
| "clean_tree (Directory es) = list_all (\<lambda>e. \<not> bytecode_name (fst e) \<and> clean_tree (snd e)) es"
| "clean_tree _ = False"

lemma visit_entries_Inr:
  "visit_entries label here es = Inr (ds, fs) \<Longrightarrow>
     ds = map (\<lambda>e. (join_relative here (fst e), snd e)) (filter (is_directory \<circ> snd) es) \<and>
     fs = concat (map (\<lambda>e. case snd e of RegularFile b \<Rightarrow> [(join_relative here (fst e), b)] | _ \<Rightarrow> []) es) \<and>
     list_all (\<lambda>e. \<not> bytecode_name (fst e) \<and> ((\<exists>b. snd e = RegularFile b) \<or> is_directory (snd e) \<and> \<not> is_regular (snd e))) es"
proof (induction es arbitrary: ds fs)
  case (Cons e es)
  obtain name n where e: "e = (name, n)" by (cases e)
  show ?case
  proof (cases n)
    case (RegularFile b)
    with Cons e show ?thesis
      by (auto simp: Let_def bindE_Inr_iff reject_generated_bytecode_def checkE_Inr_iff open_contained_handle_def
          bytecode_name_def)
  qed (use Cons e in \<open>auto simp: Let_def bindE_Inr_iff reject_generated_bytecode_def checkE_Inr_iff
        open_contained_handle_def bytecode_name_def split: if_splits\<close>)
qed simp

lemma mset_concat_sort: "mset (concat (map f (sort_key k es))) = mset (concat (map f es))"
  by (simp add: mset_concat) (metis mset_map mset_sort sum_mset_sum_list)

lemma entries_files:
  assumes "list_all (\<lambda>e. (\<exists>b. snd e = RegularFile b) \<or> is_directory (snd e) \<and> \<not> is_regular (snd e)) es"
  shows "mset (concat (map (\<lambda>e. tree_files (join_relative here (fst e)) (snd e)) es)) =
    mset (concat (map (\<lambda>e. case snd e of RegularFile b \<Rightarrow> [(join_relative here (fst e), b)] | _ \<Rightarrow> []) es)) +
    mset (concat (map (\<lambda>d. tree_files (fst d) (snd d))
      (map (\<lambda>e. (join_relative here (fst e), snd e)) (filter (is_directory \<circ> snd) es))))"
  using assms
proof (induction es)
  case (Cons e es)
  then show ?case by (cases "snd e") auto
qed simp

lemma entries_directories:
  assumes "list_all (\<lambda>e. (\<exists>b. snd e = RegularFile b) \<or> is_directory (snd e) \<and> \<not> is_regular (snd e)) es"
  shows "concat (map (\<lambda>e. tree_directories (join_relative here (fst e)) (snd e)) es) =
    concat (map (\<lambda>d. tree_directories (fst d) (snd d))
      (map (\<lambda>e. (join_relative here (fst e), snd e)) (filter (is_directory \<circ> snd) es)))"
  using assms
proof (induction es)
  case (Cons e es)
  then show ?case by (cases "snd e") auto
qed simp

lemma walk_pending_Inr:
  "walk_pending base label pending = Inr (dirs, files) \<Longrightarrow>
     list_all (\<lambda>d. clean_tree (snd d) \<and> resolve_contained base (fst d) label True = Inr (snd d)) pending \<and>
     mset files = mset (concat (map (\<lambda>d. tree_files (fst d) (snd d)) pending)) \<and>
     mset (map fst pending @ dirs) = mset (concat (map (\<lambda>d. tree_directories (fst d) (snd d)) pending))"
proof (induction base label pending arbitrary: dirs files rule: walk_pending.induct)
  case (2 base label here n pending)
  let ?kids = "map (\<lambda>e. (join_relative here (fst e), snd e))"
  from "2.prems" obtain es ds fs dirs' files' where n: "n = Directory es"
    and at: "resolve_contained base here label True = Inr n"
    and v: "visit_entries label here (sort_key fst es) = Inr (ds, fs)"
    and w: "walk_pending base label (rev ds @ pending) = Inr (dirs', files')"
    and res: "dirs = map fst ds @ dirs'" "files = fs @ files'"
    by (subst (asm) walk_pending.simps)
      (auto simp: bindE_Inr_iff list_directory_def split: sum.splits if_splits node.splits)
  note V = visit_entries_Inr [OF v]
  let ?ss = "sort_key fst es"
  have ok: "list_all (\<lambda>e. (\<exists>b. snd e = RegularFile b) \<or> is_directory (snd e) \<and> \<not> is_regular (snd e)) ?ss"
    using V by (auto simp: list_all_iff)
  note IH = "2.IH" [OF at _ _ v refl w]
  have ih: "list_all (\<lambda>d. clean_tree (snd d) \<and> resolve_contained base (fst d) label True = Inr (snd d)) (rev ds @ pending) \<and>
     mset files' = mset (concat (map (\<lambda>d. tree_files (fst d) (snd d)) (rev ds @ pending))) \<and>
     mset (map fst (rev ds @ pending) @ dirs') = mset (concat (map (\<lambda>d. tree_directories (fst d) (snd d)) (rev ds @ pending)))"
    by (rule IH) (simp_all add: n list_directory_def)
  have r: "mset (concat (map f (rev ds))) = mset (concat (map f ds))" for f :: "string \<times> node \<Rightarrow> 'z list"
    by (simp add: mset_concat rev_map [symmetric])
  have F: "mset (tree_files here n) = mset fs + mset (concat (map (\<lambda>d. tree_files (fst d) (snd d)) ds))"
    using entries_files [OF ok, of here] V unfolding n by (simp only: tree_files.simps mset_concat_sort)
  have D: "mset (tree_directories here n) = add_mset here (mset (concat (map (\<lambda>d. tree_directories (fst d) (snd d)) ds)))"
    using entries_directories [OF ok, of here] V
      mset_concat_sort [of "\<lambda>e. tree_directories (join_relative here (fst e)) (snd e)" fst es, symmetric]
    unfolding n by (simp only: tree_directories.simps mset.simps)
  have "clean_tree (snd e)" if "e \<in> set es" for e
  proof (cases "is_directory (snd e)")
    case True
    then have "(join_relative here (fst e), snd e) \<in> set ds" using V that by auto
    moreover have "\<forall>d \<in> set ds. clean_tree (snd d)" using ih by (simp add: list_all_iff)
    ultimately show ?thesis by fastforce
  next
    case False
    moreover have "(\<exists>b. snd e = RegularFile b) \<or> is_directory (snd e) \<and> \<not> is_regular (snd e)"
      using ok that by (simp only: list_all_iff set_sort)
    ultimately show ?thesis by (cases "snd e") simp_all
  qed
  then have "clean_tree n" using V unfolding n by (auto simp: list_all_iff)
  moreover have "mset files = mset (tree_files here n) + mset (concat (map (\<lambda>d. tree_files (fst d) (snd d)) pending))"
    using ih by (simp add: F res r del: rev_map)
  moreover have "mset (map fst ((here, n) # pending) @ dirs) =
      mset (tree_directories here n) + mset (concat (map (\<lambda>d. tree_directories (fst d) (snd d)) pending))"
    using ih by (simp add: D res r ac_simps del: rev_map)
  ultimately show ?case using at ih by (simp add: list_all_iff)
qed (simp add: walk_pending.simps)

section \<open>Every clean tree is taken\<close>

fun well_named :: "node \<Rightarrow> bool" where
  "well_named (Directory es) = (distinct (map fst es) \<and>
     list_all (\<lambda>e. fst e \<noteq> [] \<and> CHR ''/'' \<notin> set (fst e) \<and> well_named (snd e)) es)"
| "well_named _ = True"

text \<open>The queued directories are re-validated by path, so below the walk's start every directory name must pass.\<close>

fun portable_directories :: "node \<Rightarrow> bool" where
  "portable_directories (Directory es) =
     list_all (\<lambda>e. is_directory (snd e) \<longrightarrow> path_ok (fst e) \<and> portable_directories (snd e)) es"
| "portable_directories _ = True"

lemma open_components_append:
  "as \<noteq> [] \<Longrightarrow> bs \<noteq> [] \<Longrightarrow> open_components label d n (as @ bs) =
     bindE (open_components label True n as) (\<lambda>m. open_components label d m bs)"
proof (induction as arbitrary: n)
  case (Cons a as)
  show ?case
  proof (cases "as = []")
    case True
    with Cons.prems show ?thesis
      by (cases "exact_entry n a label"; simp; rename_tac e; case_tac "open_contained_handle a e True label"; simp)
  next
    case False
    with Cons show ?thesis
      by (cases "exact_entry n a label"; simp; rename_tac e; case_tac "open_contained_handle a e True label"; simp)
  qed
qed simp

lemma find_distinct:
  "distinct (map fst es) \<Longrightarrow> e \<in> set es \<Longrightarrow> find (\<lambda>x. fst x = fst e) es = Some e"
  by (induction es) (auto simp: rev_image_eqI)

lemma path_ok_append:
  assumes "path_ok a" and "path_ok b"
  shows "path_ok (join_relative a b)" and "segments (join_relative a b) = segments a @ segments b"
proof -
  have a: "a \<noteq> []" using assms(1) by (simp add: path_ok_def)
  have s: "segments (x @ CHR ''/'' # y) = segments x @ segments y" for x y
  proof (induction x)
    case (Cons c x)
    then show ?case by (cases "segments x") (auto simp: Let_def split: list.splits)
  qed simp
  then show "segments (join_relative a b) = segments a @ segments b" using a by (simp add: join_relative_def)
  with assms a show "path_ok (join_relative a b)" by (auto simp: path_ok_def join_relative_def)
qed

lemma child_resolves:
  assumes "resolve_contained base here label True = Inr (Directory es)" and "distinct (map fst es)"
    and "(name, n) \<in> set es" and "path_ok name" and "CHR ''/'' \<notin> set name" and "n = Directory ks"
  shows "resolve_contained base (join_relative here name) label True = Inr n"
proof -
  have h: "path_ok here" "open_components label True base (segments here) = Inr (Directory es)"
    using assms(1) by (auto simp: resolve_contained_def bindE_Inr_iff validate_relative_path_Inr)
  have "segments name = [name]" using assms(5) by (simp add: split_on_no_sep)
  moreover have "exact_entry (Directory es) name label = Inr n"
    using find_distinct [OF assms(2,3)] assms(6) by (simp add: exact_entry_def list_directory_def)
  ultimately show ?thesis
    using h path_ok_append [OF h(1) assms(4)] assms(6)
    by (simp add: resolve_contained_def bindE_Inr_iff validate_relative_path_Inr open_components_append
        open_contained_handle_def)
qed

lemma visit_entries_clean:
  assumes "list_all (\<lambda>e. \<not> bytecode_name (fst e) \<and> clean_tree (snd e)) es"
  shows "\<exists>ds fs. visit_entries label here es = Inr (ds, fs)"
  using assms
proof (induction es)
  case (Cons e es)
  then obtain ds fs where "visit_entries label here es = Inr (ds, fs)" by auto
  with Cons.prems show ?case
    by (cases e; cases "snd e") (auto simp: Let_def reject_generated_bytecode_def bytecode_name_def open_contained_handle_def)
qed simp

lemma walk_pending_complete:
  "list_all (\<lambda>d. clean_tree (snd d) \<and> well_named (snd d) \<and> portable_directories (snd d) \<and> is_directory (snd d) \<and>
       resolve_contained base (fst d) label True = Inr (snd d)) pending \<Longrightarrow>
     \<exists>r. walk_pending base label pending = Inr r"
proof (induction base label pending rule: walk_pending.induct)
  case (2 base label here n pending)
  from "2.prems" obtain es where n: "n = Directory es" by (cases n) auto
  have at: "resolve_contained base here label True = Inr n" using "2.prems" by simp
  have clean: "list_all (\<lambda>e. \<not> bytecode_name (fst e) \<and> clean_tree (snd e)) (sort_key fst es)"
    using "2.prems" unfolding n by (simp add: list_all_iff)
  obtain ds fs where v: "visit_entries label here (sort_key fst es) = Inr (ds, fs)"
    using visit_entries_clean [OF clean] by blast
  have "clean_tree (snd d) \<and> well_named (snd d) \<and> portable_directories (snd d) \<and> is_directory (snd d) \<and>
       resolve_contained base (fst d) label True = Inr (snd d)" if "d \<in> set ds" for d
  proof -
    from that visit_entries_Inr [OF v] obtain name m where d: "d = (join_relative here name, m)"
      and e: "(name, m) \<in> set es" and dir: "is_directory m" by auto
    from e "2.prems" dir have m: "clean_tree m" "well_named m" "portable_directories m" "path_ok name"
      "CHR ''/'' \<notin> set name" "distinct (map fst es)"
      unfolding n by (auto simp: list_all_iff)
    then obtain ks where "m = Directory ks" using dir by (cases m) auto
    with child_resolves [OF at [unfolded n] m(6) e m(4,5)] m dir d show ?thesis by simp
  qed
  then have "\<exists>r. walk_pending base label (rev ds @ pending) = Inr r"
    using "2.prems" by (intro "2.IH" [OF at _ _ v refl]) (auto simp: n list_directory_def list_all_iff)
  with at v show ?case by (subst walk_pending.simps) (auto simp: n list_directory_def)
qed (simp add: walk_pending.simps)

lemma walk_regular_files_sound:
  assumes "walk_regular_files h base relative label = Inr snap" and "resolve_contained base relative label True = Inr n"
  shows "clean_tree n \<and> sorted (map ad_path (ts_assets snap)) \<and>
      mset (ts_assets snap) = mset (map (\<lambda>f. describe h (fst f) (snd f)) (tree_files relative n)) \<and>
      mset (ts_directories snap) = mset (tree_directories relative n)"
proof -
  obtain dirs files where w: "walk_pending base label [(relative, n)] = Inr (dirs, files)"
    and s: "snap = \<lparr>ts_directories = relative # dirs, ts_assets = sort_key ad_path (map (\<lambda>f. describe h (fst f) (snd f)) files)\<rparr>"
    using assms by (auto simp: walk_regular_files_def bindE_Inr_iff)
  have "mset (map f files) = mset (map f (tree_files relative n))" for f :: "string \<times> blob \<Rightarrow> asset"
    using walk_pending_Inr [OF w] by (simp add: mset_map)
  then show ?thesis using walk_pending_Inr [OF w] by (simp add: s)
qed

lemma walk_regular_files_complete:
  assumes "resolve_contained base relative label True = Inr n"
    and "clean_tree n" "well_named n" "portable_directories n" "is_directory n"
  shows "\<exists>snap. walk_regular_files h base relative label = Inr snap"
proof -
  obtain r where "walk_pending base label [(relative, n)] = Inr r"
    using walk_pending_complete [of base label "[(relative, n)]"] assms by auto
  with assms(1) show ?thesis by (cases r) (simp add: walk_regular_files_def)
qed

text \<open>The walk captures exactly the regular files of the tree at any depth, each under its path with its digest
  and size and in path order, and only from a tree without links, special or unreadable entries and without
  compiled Python; and it does capture every such tree whose directories have portable names.\<close>

theorem walk_takes_the_tree:
  assumes "resolve_contained base relative label True = Inr n"
  shows "(\<forall>snap. walk_regular_files h base relative label = Inr snap \<longrightarrow>
      clean_tree n \<and> sorted (map ad_path (ts_assets snap)) \<and>
      mset (ts_assets snap) = mset (map (\<lambda>f. describe h (fst f) (snd f)) (tree_files relative n)) \<and>
      mset (ts_directories snap) = mset (tree_directories relative n)) \<and>
    (clean_tree n \<and> well_named n \<and> portable_directories n \<and> is_directory n \<longrightarrow>
      (\<exists>snap. walk_regular_files h base relative label = Inr snap))"
  using walk_regular_files_sound [OF _ assms] walk_regular_files_complete [OF assms] by blast

section \<open>What a loaded suite is\<close>

definition git_free :: "string \<Rightarrow> string list \<Rightarrow> bool" where
  "git_free seed paths \<longleftrightarrow> (\<forall>p \<in> set paths. p = seed \<or>
     (\<forall>part \<in> set (segments (relative_to seed p)). part \<notin> set SEED_FORBIDDEN_NAMES))"

text \<open>The assets of one task: the two texts and the trees of the seed and the oracle, each file once.\<close>

definition assets_of_task :: "hashes \<Rightarrow> node \<Rightarrow> agent_task \<Rightarrow> string \<Rightarrow> asset list \<Rightarrow> bool" where
  "assets_of_task h base t dir as \<longleftrightarrow> (\<exists>pb rb sn or.
     (let prompt = join_relative dir (tk_prompt t); reference = join_relative dir (tk_reference t);
          seed = join_relative dir (tk_seed t); oracle = join_relative dir (tk_oracle t)
      in (\<exists>l. resolve_contained base prompt l False = Inr (RegularFile pb)) \<and>
         (\<exists>l. resolve_contained base reference l False = Inr (RegularFile rb)) \<and>
         (\<exists>l. resolve_contained base seed l True = Inr sn) \<and> (\<exists>l. resolve_contained base oracle l True = Inr or) \<and>
         clean_tree sn \<and> clean_tree or \<and>
         mset as = mset (map (\<lambda>f. describe h (fst f) (snd f))
           ((prompt, pb) # (reference, rb) # tree_files seed sn @ tree_files oracle or)) \<and>
         distinct (map ad_path as) \<and> sorted (map ad_path as) \<and>
         git_free seed (tree_directories seed sn @ map fst (tree_files seed sn)) \<and>
         (\<exists>p \<in> set (map fst (tree_files seed sn)). prefix (join_relative seed ''tests'' @ ''/'') p \<and> is_pytest_file p) \<and>
         (\<exists>p \<in> set (map fst (tree_files oracle or)). prefix (join_relative oracle ''tests'' @ ''/'') p \<and> is_pytest_file p)))"

lemma capture_Inr:
  "capture_contained_file base p label = Inr b \<longleftrightarrow> resolve_contained base p label False = Inr (RegularFile b)"
  by (cases "resolve_contained base p label False"; simp add: capture_contained_file_def; rename_tac n; case_tac n; simp)

lemma repeated_acc_Nil: "repeated_acc seen xs = [] \<longleftrightarrow> distinct xs \<and> set xs \<inter> set seen = {}"
  by (induction xs arbitrary: seen) auto

lemma duplicates_Nil: "duplicates xs = [] \<longleftrightarrow> distinct xs"
  by (simp add: duplicates_def repeated_acc_Nil)

lemma describe_path [simp]: "ad_path (describe h p b) = p"
  by (simp add: describe_def)

lemma described_paths:
  "mset as = mset (map (\<lambda>f. describe h (fst f) (snd f)) fs) \<Longrightarrow> set (map ad_path as) = set (map fst fs)"
proof -
  assume "mset as = mset (map (\<lambda>f. describe h (fst f) (snd f)) fs)"
  then have "set as = set (map (\<lambda>f. describe h (fst f) (snd f)) fs)" by (rule mset_eq_setD)
  then show ?thesis by (simp add: image_image)
qed

lemma reject_git_Inr: "reject_git_control tid seed ps = Inr () \<longleftrightarrow> git_free seed ps"
proof -
  have "(if p = seed then Inr () else checkE c e) = Inr () \<longleftrightarrow> p = seed \<or> c" for p c and e :: suite_bundle_error
    by (simp add: checkE_Inr_iff)
  then show ?thesis
    unfolding reject_git_control_def seqE_Inr_iff list.pred_map comp_def
    by (simp add: list_all_iff list_ex_iff git_free_def)
qed

lemma check_layout_Inr:
  "check_layout tid seed oracle ss os = Inr () \<Longrightarrow> git_free seed (ts_directories ss @ map ad_path (ts_assets ss)) \<and>
     (\<exists>p \<in> set (map ad_path (ts_assets ss)). prefix (join_relative seed ''tests'' @ ''/'') p \<and> is_pytest_file p) \<and>
     (\<exists>p \<in> set (map ad_path (ts_assets os)). prefix (join_relative oracle ''tests'' @ ''/'') p \<and> is_pytest_file p)"
  unfolding check_layout_def Let_def bindE_Inr_iff checkE_Inr_iff reject_git_Inr list_ex_iff below_def
  by (auto simp: git_free_def reject_git_Inr)

lemma snapshot_sound:
  assumes "snapshot_task_assets h base t dir = Inr as"
  shows "assets_of_task h base t dir as"
proof -
  let ?named = "\<lambda>what. ''task '' @ tk_id t @ what"
  let ?prompt = "join_relative dir (tk_prompt t)" and ?ref = "join_relative dir (tk_reference t)"
  let ?seed = "join_relative dir (tk_seed t)" and ?hidden = "join_relative dir (tk_oracle t)"
  obtain pb rb ss os u where
    p: "resolve_contained base ?prompt (?named '' prompt'') False = Inr (RegularFile pb)"
    and r: "resolve_contained base ?ref (?named '' reference patch'') False = Inr (RegularFile rb)"
    and s: "walk_regular_files h base ?seed (?named '' seed'') = Inr ss"
    and o: "walk_regular_files h base ?hidden (?named '' oracle'') = Inr os"
    and l: "check_layout (tk_id t) ?seed ?hidden ss os = Inr u"
    and d: "distinct (map ad_path ([describe h ?prompt pb, describe h ?ref rb] @ ts_assets ss @ ts_assets os))"
    and sorted_as: "sort_key ad_path ([describe h ?prompt pb, describe h ?ref rb] @ ts_assets ss @ ts_assets os) = as"
    using assms unfolding snapshot_task_assets_def Let_def bindE_Inr_iff capture_Inr checkE_Inr_iff duplicates_Nil
      sum.inject by blast
  note as = sorted_as [symmetric]
  obtain sn where sn: "resolve_contained base ?seed (?named '' seed'') True = Inr sn"
    using s unfolding walk_regular_files_def bindE_Inr_iff by blast
  obtain on where on: "resolve_contained base ?hidden (?named '' oracle'') True = Inr on"
    using o unfolding walk_regular_files_def bindE_Inr_iff by blast
  note S = walk_regular_files_sound [OF s sn] and O = walk_regular_files_sound [OF o on]
  have paths: "set (map ad_path (ts_assets ss)) = set (map fst (tree_files ?seed sn))"
    "set (map ad_path (ts_assets os)) = set (map fst (tree_files ?hidden on))"
    using described_paths S O by blast+
  have dirs: "set (ts_directories ss) = set (tree_directories ?seed sn)" using S by (metis set_mset_mset)
  have m: "mset as = mset (map (\<lambda>f. describe h (fst f) (snd f))
      ((?prompt, pb) # (?ref, rb) # tree_files ?seed sn @ tree_files ?hidden on))"
    using S O by (simp add: as)
  have dist: "distinct (map ad_path as)"
    using distinct_map_fst_sort d unfolding as by (metis (no_types) distinct_map distinct_sort set_sort)
  have l': "check_layout (tk_id t) ?seed ?hidden ss os = Inr ()" using l by simp
  have git: "git_free ?seed (tree_directories ?seed sn @ map fst (tree_files ?seed sn))"
    using check_layout_Inr [OF l'] dirs paths(1) unfolding git_free_def set_append by simp
  note tests = check_layout_Inr [OF l', THEN conjunct2]
  have "sorted (map ad_path as)" unfolding as by (rule sorted_sort_key)
  then show ?thesis
    unfolding assets_of_task_def Let_def
    using p r sn on S O m dist git tests unfolding paths by blast
qed

lemma loaded_counts_Inr:
  "loaded_counts s = Inr r \<longleftrightarrow> r = s \<and> (ag_specs s = [] \<or> length (ag_specs s) = length (ag_tasks s)) \<and>
     distinct (map tk_id (ag_specs s)) \<and> (ag_assets s = [] \<or> length (ag_assets s) = length (ag_tasks s))"
  by (auto simp: loaded_counts_def bindE_Inr_iff checkE_Inr_iff)

lemma load_task_Inr:
  assumes "load_task h limit base i path = Inr (t, as)"
  shows "task_ok t \<and> butlast (segments path) \<noteq> [] \<and> last (butlast (segments path)) = tk_id t \<and>
    assets_of_task h base t (join ''/'' (butlast (segments path))) as"
proof -
  let ?dir = "butlast (segments path)"
  obtain d where t: "AgentTask_from_mapping (JObj d) = Inr t"
    and n: "(if ?dir = [] then [] else last ?dir) = tk_id t"
    and s: "snapshot_task_assets h base t (join ''/'' ?dir) = Inr as"
    using assms unfolding load_task_def Let_def bindE_Inr_iff checkE_Inr_iff by auto
  have "task_ok t" by (rule tasks.from_ok [OF t])
  moreover from this n have "?dir \<noteq> []" by (auto simp: task_ok_def task_body_ok_def safe_id_def split: if_splits)
  ultimately show ?thesis using n snapshot_sound [OF s] by simp
qed

text \<open>C22: A suite that loads has one task for each manifest path, under a directory of the task's own id, ids and
  paths distinct; its recorded assets are the prompt, the reference patch and every file of the seed and oracle
  trees with digest and size; no Git control file is in the seed and both trees have a test file.\<close>

theorem loaded_suite_sound:
  assumes "load_agent_suite h limit anchor supplied = Inr s"
  shows "manifest_ok s \<and> length (ag_specs s) = length (ag_tasks s) \<and> length (ag_assets s) = length (ag_tasks s) \<and>
    distinct (map tk_id (ag_specs s)) \<and> (\<exists>base parts. ag_root s = Some parts \<and> contained_root anchor parts = Inr base \<and>
      (\<forall>i < length (ag_tasks s). let dir = butlast (segments (ag_tasks s ! i)) in
         task_ok (ag_specs s ! i) \<and> dir \<noteq> [] \<and> last dir = tk_id (ag_specs s ! i) \<and>
         assets_of_task h base (ag_specs s ! i) (join ''/'' dir) (ag_assets s ! i)))"
proof -
  let ?parts = "if supplied \<noteq> [] \<and> last supplied = ''suite.json'' then butlast supplied else supplied"
  obtain base d m ts where b: "contained_root anchor ?parts = Inr base"
    and m: "AgentSuite_from_mapping (JObj d) = Inr m"
    and ts: "mapE (\<lambda>(i, p). load_task h limit base i p) (enumerate 0 (ag_tasks m)) = Inr ts"
    and c: "loaded_counts (m\<lparr>ag_specs := map fst ts, ag_root := Some ?parts, ag_assets := map snd ts\<rparr>) = Inr s"
    using assms unfolding load_agent_suite_def Let_def bindE_Inr_iff by auto
  have ok: "manifest_ok m" using manifests.from_ok [OF m] by simp
  from c have s: "s = m\<lparr>ag_specs := map fst ts, ag_root := Some ?parts, ag_assets := map snd ts\<rparr>"
    and ids: "distinct (map tk_id (map fst ts))" by (simp_all add: loaded_counts_Inr)
  have len: "length ts = length (ag_tasks m)" using mapE_length [OF ts] by simp
  have "load_task h limit base i (ag_tasks m ! i) = Inr (ts ! i)" if "i < length (ag_tasks m)" for i
    using ts that len by (auto simp: mapE_Inr_iff list_all2_conv_all_nth nth_enumerate_eq)
  then have "task_ok (fst (ts ! i)) \<and> butlast (segments (ag_tasks m ! i)) \<noteq> [] \<and>
      last (butlast (segments (ag_tasks m ! i))) = tk_id (fst (ts ! i)) \<and>
      assets_of_task h base (fst (ts ! i)) (join ''/'' (butlast (segments (ag_tasks m ! i)))) (snd (ts ! i))"
    if "i < length (ag_tasks m)" for i
    using that load_task_Inr [of h limit base i "ag_tasks m ! i" "fst (ts ! i)" "snd (ts ! i)"] by simp
  with ok len ids b show ?thesis by (auto simp: s manifest_ok_def Let_def)
qed

section \<open>The instrument hash\<close>

lemma sort_strs [simp]: "sort_json (strs_json xs) = strs_json xs"
  by (simp add: strs_json_def comp_def)

lemma strs_eq [simp]: "strs_json xs = strs_json ys \<longleftrightarrow> xs = ys"
  by (auto simp: strs_json_def inj_map_eq_map inj_def)

lemma provenance_sort_inj:
  "sort_json (TaskProvenance_to_mapping a) = sort_json (TaskProvenance_to_mapping b) \<longleftrightarrow> a = b"
  by (cases a; cases b) (auto simp: TaskProvenance_to_mapping_def split: option.splits)

lemma task_sort_inj: "sort_json (AgentTask_to_mapping a) = sort_json (AgentTask_to_mapping b) \<longleftrightarrow> a = b"
  by (cases a; cases b) (auto simp: AgentTask_to_mapping_def provenance_sort_inj)

lemma asset_sort_inj: "sort_json (Asset_to_mapping a) = sort_json (Asset_to_mapping b) \<longleftrightarrow> a = b"
  by (cases a; cases b) (auto simp: Asset_to_mapping_def)

lemma assets_sort_inj:
  "map (\<lambda>a. sort_json (Asset_to_mapping a)) as = map (\<lambda>a. sort_json (Asset_to_mapping a)) bs \<longleftrightarrow> as = bs"
proof
  assume "map (\<lambda>a. sort_json (Asset_to_mapping a)) as = map (\<lambda>a. sort_json (Asset_to_mapping a)) bs"
  then show "as = bs" by (rule map_injective [OF _ injI]) (simp only: asset_sort_inj)
qed simp

definition instrument_entry :: "agent_suite \<Rightarrow> nat \<Rightarrow> json" where
  "instrument_entry s i = JObj [(''manifest_path'', JStr (ag_tasks s ! i)),
     (''task'', AgentTask_to_mapping (ag_specs s ! i)), (''assets'', JList (map Asset_to_mapping (ag_assets s ! i)))]"

lemma instrument_preimage_Inr:
  "instrument_preimage s = Inr v \<longleftrightarrow> ag_root s \<noteq> None \<and> length (ag_specs s) = length (ag_tasks s) \<and>
     length (ag_assets s) = length (ag_tasks s) \<and>
     v = JObj [(''schema_version'', JInt 1), (''suite'', AgentSuite_to_mapping s),
       (''tasks'', JList (map (instrument_entry s) [0..<length (ag_tasks s)]))]"
proof -
  have "mapE f is = Inr (map g is)" if "\<And>i. i \<in> set is \<Longrightarrow> f i = Inr (g i)" for f :: "nat \<Rightarrow> json bres" and g "is"
    using that by (induction "is") simp_all
  note this [of "[0..<length (ag_specs s)]" _ "instrument_entry s"]
  moreover have "bindE (task_assets s i) (\<lambda>as. Inr (JObj [
               (''manifest_path'', JStr (ag_tasks s ! i)), (''task'', AgentTask_to_mapping (ag_specs s ! i)),
               (''assets'', as)])) = Inr (instrument_entry s i)"
    if "ag_root s \<noteq> None" "length (ag_assets s) = length (ag_specs s)" "i < length (ag_specs s)" for i
    using that by (auto simp: task_assets_def instrument_entry_def)
  ultimately have "mapE (\<lambda>i. bindE (task_assets s i) (\<lambda>as. Inr (JObj [
               (''manifest_path'', JStr (ag_tasks s ! i)), (''task'', AgentTask_to_mapping (ag_specs s ! i)),
               (''assets'', as)]))) [0..<length (ag_specs s)] = Inr (map (instrument_entry s) [0..<length (ag_specs s)])"
    if "ag_root s \<noteq> None" "length (ag_assets s) = length (ag_specs s)"
    using that by simp
  then show ?thesis by (auto simp: instrument_preimage_def)
qed

lemma entry_sort_inj:
  "sort_json (instrument_entry s i) = sort_json (instrument_entry r i) \<longleftrightarrow>
     ag_tasks s ! i = ag_tasks r ! i \<and> ag_specs s ! i = ag_specs r ! i \<and> ag_assets s ! i = ag_assets r ! i"
  by (auto simp: instrument_entry_def task_sort_inj assets_sort_inj comp_def)

lemma instrument_preimage_inj:
  assumes "instrument_preimage s = Inr v" and "instrument_preimage r = Inr w"
  shows "sort_json v = sort_json w \<longleftrightarrow> s\<lparr>ag_root := None\<rparr> = r\<lparr>ag_root := None\<rparr>"
proof
  assume eq: "sort_json v = sort_json w"
  have S: "sort_json (AgentSuite_to_mapping s) = sort_json (AgentSuite_to_mapping r)"
    and E: "map (sort_json \<circ> instrument_entry s) [0..<length (ag_tasks s)]
      = map (sort_json \<circ> instrument_entry r) [0..<length (ag_tasks r)]"
    using eq assms by (simp_all add: instrument_preimage_Inr)
  from S have m: "s\<lparr>ag_specs := [], ag_root := None, ag_assets := []\<rparr> = r\<lparr>ag_specs := [], ag_root := None, ag_assets := []\<rparr>"
    by (cases s; cases r) (simp add: AgentSuite_to_mapping_def)
  from S have n: "ag_tasks s = ag_tasks r" by (simp add: AgentSuite_to_mapping_def)
  have "ag_specs s = ag_specs r" "ag_assets s = ag_assets r"
    using E assms by (auto simp: n instrument_preimage_Inr entry_sort_inj intro!: nth_equalityI)
  with m show "s\<lparr>ag_root := None\<rparr> = r\<lparr>ag_root := None\<rparr>" by (cases s; cases r) simp
next
  assume "s\<lparr>ag_root := None\<rparr> = r\<lparr>ag_root := None\<rparr>"
  then have "AgentSuite_to_mapping s = AgentSuite_to_mapping r" "instrument_entry s = instrument_entry r"
    "ag_tasks s = ag_tasks r"
    by (cases s; cases r; auto simp: AgentSuite_to_mapping_def instrument_entry_def)+
  with assms show "sort_json v = sort_json w" by (simp add: instrument_preimage_Inr)
qed

lemma instrument_hash_Inr:
  assumes "instrument_hash ext s = Inr x"
  obtains v t where "instrument_preimage s = Inr v" "canonical_json v = Inr t" "x = sha256_hex ext t" "json_ok v"
proof -
  obtain v t where v: "instrument_preimage s = Inr v" "canonical_json v = Inr t" "x = sha256_hex ext t"
    using assms by (auto simp: instrument_hash_def bindE_Inr_iff map_errE_Inr_iff wire_sha256_def)
  have p: "json_ok (TaskProvenance_to_mapping q)" for q
    by (simp add: TaskProvenance_to_mapping_def strs_json_def list_all_iff split: option.splits)
  have "encodable v" using v(2) by (simp add: canonical_json_def split: if_splits)
  then have "json_ok v"
    using v(1) by (auto simp: instrument_preimage_Inr AgentSuite_to_mapping_def RuntimeSpec_to_mapping_def
        instrument_entry_def AgentTask_to_mapping_def Asset_to_mapping_def p strs_json_def list_all_iff)
  with v show thesis by (rule that)
qed

text \<open>C23: Two hashed suites have the same text under the hash exactly when they agree in every manifest field, every
  task and every asset's path, digest and size, wherever the bundles lie; so a changed byte of any asset changes
  the text unless it leaves the file's SHA-256 alone.\<close>

theorem instrument_hash_identifies:
  assumes "instrument_hash ext s = Inr x" and "instrument_hash ext r = Inr y"
  shows "\<exists>v w t u. instrument_preimage s = Inr v \<and> canonical_json v = Inr t \<and> x = sha256_hex ext t \<and>
    instrument_preimage r = Inr w \<and> canonical_json w = Inr u \<and> y = sha256_hex ext u \<and>
    (t = u \<longleftrightarrow> s\<lparr>ag_root := None\<rparr> = r\<lparr>ag_root := None\<rparr>)"
proof -
  obtain v t where v: "instrument_preimage s = Inr v" "canonical_json v = Inr t" "x = sha256_hex ext t" "json_ok v"
    by (rule instrument_hash_Inr [OF assms(1)])
  obtain w u where w: "instrument_preimage r = Inr w" "canonical_json w = Inr u" "y = sha256_hex ext u" "json_ok w"
    by (rule instrument_hash_Inr [OF assms(2)])
  have "t = u \<longleftrightarrow> sort_json v = sort_json w"
    using canonical_json_inj [OF v(4) w(4)] v(2) w(2) by (auto simp: canonical_json_def split: if_splits)
  with v w instrument_preimage_inj [OF v(1) w(1)] show ?thesis by blast
qed

section \<open>A sample bundle\<close>

definition smoke_task :: agent_task where
  "smoke_task = \<lparr>tk_schema = 1, tk_id = ''smoke-add'', tk_family = ''bug-repair'', tk_tags = [''arithmetic'', ''smoke''],
     tk_cluster = ''smoke-add'', tk_difficulty = ''easy'', tk_prompt = ''prompt.md'', tk_seed = ''seed'',
     tk_oracle = ''oracle'', tk_reference = ''reference.patch'', tk_allowed = [''calculator.py'', ''lib/**''],
     tk_protected = [''README.md''], tk_provenance = \<lparr>pv_source = ''authored'', pv_license = None,
     pv_author = ''author-1'', pv_assistance = [''tool''], pv_reviewers = []\<rparr>\<rparr>"

definition smoke_manifest :: agent_suite where
  "smoke_manifest = \<lparr>ag_schema = 1, ag_id = ''agent-smoke'', ag_version = ''1.0.0'', ag_description = ''One task.'',
     ag_evaluator = EVALUATOR_VERSION, ag_profile_id = ''agent-execution-v1'', ag_scoring = ''binary-heldout-v1'',
     ag_run_class = ''smoke'', ag_tasks = [''tasks/smoke-add/task.json''], ag_specs = [], ag_root = None, ag_assets = []\<rparr>"

definition manifest_text :: string where "manifest_text = raw_dumps (AgentSuite_to_mapping smoke_manifest)"

definition task_text :: string where "task_text = raw_dumps (AgentTask_to_mapping smoke_task)"

definition smoke_tree :: "string \<Rightarrow> string \<Rightarrow> node" where
  "smoke_tree source test = Directory [(''tests'', Directory [(test, RegularFile (Utf8 ''assert True''))]),
     (source, RegularFile (Utf8 ''def add(a, b): return a - b''))]"

definition smoke_files :: node where
  "smoke_files = Directory [(''task.json'', RegularFile (Utf8 task_text)),
     (''prompt.md'', RegularFile (Utf8 ''Repair add.'')), (''seed'', smoke_tree ''calculator.py'' ''test_add.py''),
     (''reference.patch'', RegularFile (Utf8 ''diff'')), (''oracle'', smoke_tree ''NOTES'' ''hidden_test.py'')]"

definition smoke_root :: node where
  "smoke_root = Directory [(''suite.json'', RegularFile (Utf8 manifest_text)), (''tasks'', Directory [(''smoke-add'', smoke_files)])]"

definition smoke_anchor :: node where "smoke_anchor = Directory [(''home'', Special), (''bundle'', smoke_root)]"

lemmas safe_defs = safe_id_def lower_alnum_def in_rng_def is_digit_def

lemma smoke_task_ok: "task_ok smoke_task"
proof -
  have d: "\<forall>i < 4. \<forall>j < 4. i \<noteq> j \<longrightarrow> \<not> paths_overlap (task_paths smoke_task ! i) (task_paths smoke_task ! j)"
    unfolding task_paths_def four_disjoint by (simp add: smoke_task_def paths_overlap_def)
  show ?thesis
    unfolding task_ok_def task_body_ok_def
    by (intro conjI d) (simp_all add: smoke_task_def provenance_ok_def task_paths_def path_ok_def glob_ok_def protected_ok_def safe_defs strip_def lstrip_def rstrip_def isspace_def TASK_FAMILIES_def
      DIFFICULTIES_def)
qed

lemma smoke_manifest_ok: "manifest_ok smoke_manifest \<and> unloaded smoke_manifest"
  by (simp add: manifest_ok_def unloaded_def smoke_manifest_def safe_defs strip_def lstrip_def rstrip_def isspace_def
      RUN_CLASSES_def path_ok_def)

lemma smoke_texts:
  "\<exists>d. decode_json_object 1000 (Some manifest_text) l = Inr d \<and> JObj d = AgentSuite_to_mapping smoke_manifest"
  "\<exists>d. decode_json_object 1000 (Some task_text) l = Inr d \<and> JObj d = AgentTask_to_mapping smoke_task"
proof -
  obtain d where d: "AgentSuite_to_mapping smoke_manifest = JObj d" by (simp add: AgentSuite_to_mapping_def)
  have "json_ok (JObj d)" "strict_json (JObj d)" "depth (JObj d) \<le> 1000"
    unfolding d [symmetric] by (simp_all add: AgentSuite_to_mapping_def smoke_manifest_def RuntimeSpec_to_mapping_def
        strs_json_def small_json_ok del: json_ok.simps(2))
  from decode_raw_dumps [OF this, of l] show
    "\<exists>d. decode_json_object 1000 (Some manifest_text) l = Inr d \<and> JObj d = AgentSuite_to_mapping smoke_manifest"
    by (simp only: manifest_text_def d) simp
next
  obtain d where d: "AgentTask_to_mapping smoke_task = JObj d" by (simp add: AgentTask_to_mapping_def)
  have "json_ok (JObj d)" "strict_json (JObj d)" "depth (JObj d) \<le> 1000"
    unfolding d [symmetric] by (simp_all add: AgentTask_to_mapping_def smoke_task_def TaskProvenance_to_mapping_def
        strs_json_def small_json_ok del: json_ok.simps(2))
  from decode_raw_dumps [OF this, of l] show
    "\<exists>d. decode_json_object 1000 (Some task_text) l = Inr d \<and> JObj d = AgentTask_to_mapping smoke_task"
    by (simp only: task_text_def d) simp
qed

lemmas resolve_defs = resolve_contained_def validate_relative_path_def exact_entry_def list_directory_def
  open_contained_handle_def

lemma smoke_resolves:
  "resolve_contained smoke_root ''suite.json'' l False = Inr (RegularFile (Utf8 manifest_text))"
  "resolve_contained smoke_root ''tasks/smoke-add/task.json'' l False = Inr (RegularFile (Utf8 task_text))"
  "resolve_contained smoke_root ''tasks/smoke-add/prompt.md'' l False = Inr (RegularFile (Utf8 ''Repair add.''))"
  "resolve_contained smoke_root ''tasks/smoke-add/reference.patch'' l False = Inr (RegularFile (Utf8 ''diff''))"
  "resolve_contained smoke_root ''tasks/smoke-add/seed'' l True = Inr (smoke_tree ''calculator.py'' ''test_add.py'')"
  "resolve_contained smoke_root ''tasks/smoke-add/oracle'' l True = Inr (smoke_tree ''NOTES'' ''hidden_test.py'')"
  by (simp_all add: resolve_defs smoke_root_def smoke_files_def smoke_tree_def)

lemma smoke_inner:
  "resolve_contained smoke_root ''tasks/smoke-add/seed/tests'' l True =
     Inr (Directory [(''test_add.py'', RegularFile (Utf8 ''assert True''))])"
  "resolve_contained smoke_root ''tasks/smoke-add/oracle/tests'' l True =
     Inr (Directory [(''hidden_test.py'', RegularFile (Utf8 ''assert True''))])"
  by (simp_all add: resolve_defs smoke_root_def smoke_files_def smoke_tree_def)

lemmas walk_defs = walk_regular_files_def walk_pending.simps list_directory_def reject_generated_bytecode_def
  open_contained_handle_def join_relative_def suffix_def

lemma smoke_walks:
  "walk_regular_files h smoke_root ''tasks/smoke-add/seed'' l = Inr \<lparr>
     ts_directories = [''tasks/smoke-add/seed'', ''tasks/smoke-add/seed/tests''],
     ts_assets = [describe h ''tasks/smoke-add/seed/calculator.py'' (Utf8 ''def add(a, b): return a - b''),
       describe h ''tasks/smoke-add/seed/tests/test_add.py'' (Utf8 ''assert True'')]\<rparr>"
  "walk_regular_files h smoke_root ''tasks/smoke-add/oracle'' l = Inr \<lparr>
     ts_directories = [''tasks/smoke-add/oracle'', ''tasks/smoke-add/oracle/tests''],
     ts_assets = [describe h ''tasks/smoke-add/oracle/NOTES'' (Utf8 ''def add(a, b): return a - b''),
       describe h ''tasks/smoke-add/oracle/tests/hidden_test.py'' (Utf8 ''assert True'')]\<rparr>"
  by (simp_all add: walk_defs smoke_resolves smoke_inner) (simp_all add: walk_defs smoke_tree_def smoke_inner)

definition smoke_assets :: "hashes \<Rightarrow> asset list" where
  "smoke_assets h = [
     describe h ''tasks/smoke-add/oracle/NOTES'' (Utf8 ''def add(a, b): return a - b''),
     describe h ''tasks/smoke-add/oracle/tests/hidden_test.py'' (Utf8 ''assert True''),
     describe h ''tasks/smoke-add/prompt.md'' (Utf8 ''Repair add.''),
     describe h ''tasks/smoke-add/reference.patch'' (Utf8 ''diff''),
     describe h ''tasks/smoke-add/seed/calculator.py'' (Utf8 ''def add(a, b): return a - b''),
     describe h ''tasks/smoke-add/seed/tests/test_add.py'' (Utf8 ''assert True'')]"

definition smoke_suite :: "hashes \<Rightarrow> agent_suite" where
  "smoke_suite h = smoke_manifest\<lparr>ag_specs := [smoke_task], ag_root := Some [''bundle''], ag_assets := [smoke_assets h]\<rparr>"

lemma smoke_join:
  "join_relative ''tasks/smoke-add'' (tk_prompt smoke_task) = ''tasks/smoke-add/prompt.md''"
  "join_relative ''tasks/smoke-add'' (tk_reference smoke_task) = ''tasks/smoke-add/reference.patch''"
  "join_relative ''tasks/smoke-add'' (tk_seed smoke_task) = ''tasks/smoke-add/seed''"
  "join_relative ''tasks/smoke-add'' (tk_oracle smoke_task) = ''tasks/smoke-add/oracle''"
  by (simp_all add: join_relative_def smoke_task_def)

lemma smoke_layout:
  assumes "ts_directories ss = [''tasks/smoke-add/seed'', ''tasks/smoke-add/seed/tests'']"
    and "map ad_path (ts_assets ss) = [''tasks/smoke-add/seed/calculator.py'', ''tasks/smoke-add/seed/tests/test_add.py'']"
    and "ts_directories os = [''tasks/smoke-add/oracle'', ''tasks/smoke-add/oracle/tests'']"
    and "map ad_path (ts_assets os) = [''tasks/smoke-add/oracle/NOTES'', ''tasks/smoke-add/oracle/tests/hidden_test.py'']"
  shows "check_layout i ''tasks/smoke-add/seed'' ''tasks/smoke-add/oracle'' ss os = Inr ()"
proof -
  have "reject_git_control i ''tasks/smoke-add/seed'' (remdups (ts_directories ss) @ map ad_path (ts_assets ss)) = Inr ()"
    unfolding assms reject_git_Inr by (simp add: git_free_def relative_to_def SEED_FORBIDDEN_NAMES_def)
  then show ?thesis
    unfolding check_layout_def Let_def
    by (simp add: assms join_relative_def below_def is_pytest_file_def suffix_def)
qed

lemma smoke_snapshot: "snapshot_task_assets h smoke_root smoke_task ''tasks/smoke-add'' = Inr (smoke_assets h)"
proof -
  have t: "require_nonempty_utf8 (Utf8 ''Repair add.'') l = Inr ()" "require_nonempty_utf8 (Utf8 ''diff'') l = Inr ()" for l
    by (simp_all add: require_nonempty_utf8_def blob_text_def strip_def lstrip_def rstrip_def isspace_def in_rng_def)
  show ?thesis
    unfolding snapshot_task_assets_def Let_def smoke_join bindE_Inr_iff capture_Inr smoke_walks checkE_Inr_iff duplicates_Nil
    by (simp add: smoke_resolves t smoke_layout smoke_assets_def)
qed

lemma smoke_preimage: "\<exists>v. instrument_preimage (smoke_suite h\<lparr>ag_version := n\<rparr>) = Inr v"
  by (simp add: instrument_preimage_Inr smoke_suite_def smoke_manifest_def)

lemma task_encodable: "encodable (JInt (tk_schema t)) \<Longrightarrow> encodable (AgentTask_to_mapping t)"
  by (simp add: AgentTask_to_mapping_def TaskProvenance_to_mapping_def strs_json_def list_all_iff split: option.splits)

lemma text_size: "blob_size (Utf8 x) \<le> 2 * length x"
  by (induction x) auto

lemma smoke_hashes: "\<exists>x. instrument_hash ext (smoke_suite h\<lparr>ag_version := n\<rparr>) = Inr x"
proof -
  obtain v where v: "instrument_preimage (smoke_suite h\<lparr>ag_version := n\<rparr>) = Inr v" using smoke_preimage by blast
  have one: "encodable (JInt (tk_schema smoke_task))" using small_json_ok(1) by (simp add: smoke_task_def)
  have sizes: "encodable (JInt (int (ad_size a)))" if "a \<in> set (smoke_assets h)" for a
  proof -
    have "blob_size (Utf8 x) < 10 ^ 2" if "length x < 50" for x
      using text_size [of x] that by simp
    then have "ad_size a < 10 ^ 2" using that by (auto simp: smoke_assets_def describe_def simp del: blob_size.simps)
    from show_nat_length_le [OF this] show ?thesis by (simp add: int_max_str_digits_def)
  qed
  have "encodable v"
    using v small_json_ok(1) task_encodable [OF one] sizes unfolding instrument_preimage_Inr
    by (auto simp: smoke_suite_def smoke_manifest_def instrument_entry_def AgentSuite_to_mapping_def
        RuntimeSpec_to_mapping_def strs_json_def Asset_to_mapping_def list_all_iff)
  with v show ?thesis by (simp add: instrument_hash_def wire_sha256_def canonical_json_def)
qed

lemma smoke_loads: "load_agent_suite h 1000 smoke_anchor [''bundle'', ''suite.json''] = Inr (smoke_suite h)"
proof -
  obtain d e where d: "decode_json_object 1000 (Some manifest_text) ''agent suite'' = Inr d"
      "AgentSuite_from_mapping (JObj d) = Inr smoke_manifest"
    and e: "decode_json_object 1000 (Some task_text) ''agent task'' = Inr e" "AgentTask_from_mapping (JObj e) = Inr smoke_task"
    using smoke_texts(1) [of "''agent suite''"] smoke_texts(2) [of "''agent task''"]
      manifests.from_to [OF smoke_manifest_ok] tasks.from_to [OF smoke_task_ok] by metis
  have root: "contained_root smoke_anchor [''bundle''] = Inr smoke_root"
    by (simp add: contained_root_def smoke_anchor_def smoke_root_def resolve_defs)
  have caps: "capture_contained_file smoke_root ''suite.json'' l = Inr (Utf8 manifest_text)"
    "capture_contained_file smoke_root ''tasks/smoke-add/task.json'' l = Inr (Utf8 task_text)" for l
    by (simp_all add: capture_Inr smoke_resolves)
  have "load_task h 1000 smoke_root 0 ''tasks/smoke-add/task.json'' = Inr (smoke_task, smoke_assets h)"
    by (simp add: load_task_def caps blob_text_def e Let_def smoke_snapshot) (simp add: smoke_task_def)
  moreover have "\<exists>x. instrument_hash (fst h) (smoke_suite h) = Inr x"
    using smoke_hashes [where ext = "fst h" and h = h and n = "''1.0.0''"] by (simp add: smoke_suite_def smoke_manifest_def)
  moreover have "loaded_counts (smoke_manifest\<lparr>ag_specs := [smoke_task], ag_root := Some [''bundle''],
      ag_assets := [smoke_assets h]\<rparr>) = Inr (smoke_suite h)"
    by (simp add: loaded_counts_def smoke_suite_def smoke_manifest_def)
  moreover have "ag_tasks smoke_manifest = [''tasks/smoke-add/task.json'']" by (simp add: smoke_manifest_def)
  ultimately show ?thesis
    by (auto simp: load_agent_suite_def Let_def root caps blob_text_def d)
qed

theorem change_policy_witness:
  "is_change_allowed smoke_task (JStr ''lib/a/b.py'') = Inr True \<and> is_change_allowed smoke_task (JStr ''tests/test_add.py'') = Inr False
   \<and> is_change_allowed smoke_task (JStr ''../calculator.py'') \<noteq> Inr True"
proof -
  have p: "path_ok ''lib/a/b.py''" "path_ok ''tests/test_add.py''" "\<not> path_ok ''../calculator.py''"
    by (simp_all add: path_ok_def)
  have l: "glob_language (segments ''lib/**'') (segments ''lib/a/b.py'')"
    by (simp add: glob_segment glob_stars segment_matches.simps)
  note P = change_policy [OF tasks.from_to [OF smoke_task_ok]]
  have q: "\<not> prefix (segments q) (segments ''lib/a/b.py'')" if "q \<in> set (ALWAYS_PROTECTED_PATHS @ tk_protected smoke_task)" for q
    using that by (auto simp: ALWAYS_PROTECTED_PATHS_def smoke_task_def)
  have "''lib/**'' \<in> set (tk_allowed smoke_task)" by (simp add: smoke_task_def)
  then have "is_change_allowed smoke_task (JStr ''lib/a/b.py'') = Inr True"
    unfolding P using p(1) q l by blast
  moreover have "is_change_allowed smoke_task (JStr ''tests/test_add.py'') = Inr False"
    unfolding P using p(2) by (auto simp: ALWAYS_PROTECTED_PATHS_def)
  moreover have "is_change_allowed smoke_task (JStr ''../calculator.py'') \<noteq> Inr True"
    unfolding P using p(3) by simp
  ultimately show ?thesis by simp
qed

theorem walk_takes_the_tree_witness:
  "\<forall>h. \<exists>snap. walk_regular_files h smoke_root ''tasks/smoke-add/seed'' ''seed'' = Inr snap \<and>
     mset (ts_assets snap) = mset (map (\<lambda>f. describe h (fst f) (snd f))
       (tree_files ''tasks/smoke-add/seed'' (smoke_tree ''calculator.py'' ''test_add.py'')))"
proof
  fix h
  have "clean_tree (smoke_tree ''calculator.py'' ''test_add.py'') \<and> well_named (smoke_tree ''calculator.py'' ''test_add.py'') \<and>
      portable_directories (smoke_tree ''calculator.py'' ''test_add.py'') \<and> is_directory (smoke_tree ''calculator.py'' ''test_add.py'')"
    by (simp add: smoke_tree_def bytecode_name_def suffix_def path_ok_def)
  then show "\<exists>snap. walk_regular_files h smoke_root ''tasks/smoke-add/seed'' ''seed'' = Inr snap \<and>
     mset (ts_assets snap) = mset (map (\<lambda>f. describe h (fst f) (snd f))
       (tree_files ''tasks/smoke-add/seed'' (smoke_tree ''calculator.py'' ''test_add.py'')))"
    using walk_takes_the_tree [OF smoke_resolves(5), where h = h] by blast
qed

theorem loaded_suite_sound_witness:
  "\<forall>h. length (ag_assets (smoke_suite h)) = 1 \<and> (\<exists>base. assets_of_task h base smoke_task ''tasks/smoke-add'' (smoke_assets h))"
proof
  fix h
  have s: "ag_tasks (smoke_suite h) = [''tasks/smoke-add/task.json'']" "ag_specs (smoke_suite h) = [smoke_task]"
    "ag_assets (smoke_suite h) = [smoke_assets h]"
    by (simp_all add: smoke_suite_def smoke_manifest_def)
  show "length (ag_assets (smoke_suite h)) = 1 \<and> (\<exists>base. assets_of_task h base smoke_task ''tasks/smoke-add'' (smoke_assets h))"
    using loaded_suite_sound [OF smoke_loads [of h]] unfolding s by (auto simp: Let_def)
qed

theorem instrument_hash_identifies_witness:
  "\<forall>ext h. \<exists>t u. t \<noteq> u \<and> instrument_hash ext (smoke_suite h) = Inr (sha256_hex ext t) \<and>
     instrument_hash ext (smoke_suite h\<lparr>ag_version := ''2''\<rparr>) = Inr (sha256_hex ext u)"
proof (intro allI)
  fix ext h
  have same: "smoke_suite h\<lparr>ag_version := ''1.0.0''\<rparr> = smoke_suite h" by (simp add: smoke_suite_def smoke_manifest_def)
  obtain x where x: "instrument_hash ext (smoke_suite h) = Inr x"
    using smoke_hashes [where ext = ext and h = h and n = "''1.0.0''"] unfolding same by blast
  obtain y where y: "instrument_hash ext (smoke_suite h\<lparr>ag_version := ''2''\<rparr>) = Inr y"
    using smoke_hashes [where ext = ext and h = h and n = "''2''"] by blast
  have "smoke_suite h\<lparr>ag_root := None\<rparr> \<noteq> smoke_suite h\<lparr>ag_version := ''2''\<rparr>\<lparr>ag_root := None\<rparr>"
    by (simp add: smoke_suite_def smoke_manifest_def)
  with instrument_hash_identifies [OF x y] x y show "\<exists>t u. t \<noteq> u \<and> instrument_hash ext (smoke_suite h) = Inr (sha256_hex ext t) \<and>
     instrument_hash ext (smoke_suite h\<lparr>ag_version := ''2''\<rparr>) = Inr (sha256_hex ext u)"
    by auto
qed

end
