(* ===== verification/Bench_Analysis.thy ===== *)
theory Bench_Analysis
  imports Bench_Suite_Facts
begin

text \<open>
  src/measure_twice/agent_bench/analysis.py: the analysis plan of an agent benchmark, fixed before the run:
  its scopes, its decision policy with the two arms it compares, and the checks against the roster and the
  suite.  Decimal literals are exact, so 0.95 is the one float equal to it.
\<close>

definition ANALYSIS_POLICIES :: "string list" where
  "ANALYSIS_POLICIES = [''none'', ''superiority'', ''noninferiority'']"

definition ANALYSIS_SCOPE_KINDS :: "string list" where
  "ANALYSIS_SCOPE_KINDS = [''overall'', ''family'', ''tag'']"

definition MULTIPLICITY_POLICIES :: "string list" where
  "MULTIPLICITY_POLICIES = [''none'', ''bonferroni'']"

datatype plan_error =
    PlanWire wire_error
  | BadScopeKind
  | NotConfirmatory
  | OverallHasId
  | ScopeIdMissing string
  | InScope string plan_error
  | BadPolicy
  | ScopesNotList
  | DuplicateScope string "string option"
  | BadMultiplicity
  | IterationsNot10000
  | NoneHasArms
  | NoneHasScopes
  | NoneHasMargin
  | NoneHasMultiplicity
  | ArmsMissing string
  | ArmsEqual
  | MarginNot5 string
  | ConfidenceNot95 string
  | ScopesEmpty string
  | MultiplicityDiffers nat string
  | RosterHasDuplicates
  | RosterIdInvalid
  | ArmNotSelected string string
  | FamilyAbsent "string option"
  | TagAbsent "string option"

type_synonym 'a pres = "(plan_error, 'a) res"

abbreviation pwire :: "'a wres \<Rightarrow> 'a pres" where "pwire r \<equiv> map_errE PlanWire r"

record analysis_scope =
  sc_scope :: string
  sc_id :: "string option"

text \<open>A scope's \<open>confirmatory\<close> can only be true.\<close>

definition AnalysisScope_init :: "json \<Rightarrow> json \<Rightarrow> json \<Rightarrow> analysis_scope pres" where
  "AnalysisScope_init scope scope_id confirmatory =
     bindE (checkE (is_str scope \<and> the_str scope \<in> set ANALYSIS_SCOPE_KINDS) BadScopeKind) (\<lambda>_.
     bindE (checkE (confirmatory = JBool True) NotConfirmatory) (\<lambda>_.
       if the_str scope = ''overall'' then
         bindE (checkE (scope_id = JNull) OverallHasId) (\<lambda>_. Inr \<lparr>sc_scope = the_str scope, sc_id = None\<rparr>)
       else
         bindE (checkE (scope_id \<noteq> JNull) (ScopeIdMissing (the_str scope))) (\<lambda>_.
         bindE (pwire (validate_safe_id scope_id ''analysis scope.scope_id'')) (\<lambda>i.
           Inr \<lparr>sc_scope = the_str scope, sc_id = Some i\<rparr>))))"

definition AnalysisScope_from_mapping :: "string \<Rightarrow> json \<Rightarrow> analysis_scope pres" where
  "AnalysisScope_from_mapping label v =
     bindE (pwire (wire_exact_keys v [''scope'', ''scope_id'', ''confirmatory''] label)) (\<lambda>d.
       map_errE (InScope label) (AnalysisScope_init (fld d ''scope'') (fld d ''scope_id'') (fld d ''confirmatory'')))"

definition AnalysisScope_to_mapping :: "analysis_scope \<Rightarrow> json" where
  "AnalysisScope_to_mapping s = JObj [(''scope'', JStr (sc_scope s)),
     (''scope_id'', case sc_id s of None \<Rightarrow> JNull | Some i \<Rightarrow> JStr i), (''confirmatory'', JBool True)]"

text \<open>
  A plan either decides nothing (policy \<open>none\<close>, all decision fields null) or compares two arms; margin and
  confidence of a comparison are fixed, so the record keeps the arms only.
\<close>

record analysis_plan =
  pl_schema :: int
  pl_id :: string
  pl_policy :: string
  pl_arms :: "(string \<times> string) option"
  pl_scopes :: "analysis_scope list"
  pl_multiplicity :: string

fun repeated_scope :: "analysis_scope list \<Rightarrow> analysis_scope list \<Rightarrow> analysis_scope option" where
  "repeated_scope seen [] = None"
| "repeated_scope seen (s # ss) = (if s \<in> set seen then Some s else repeated_scope (s # seen) ss)"

definition MARGIN_POINTS :: int where "MARGIN_POINTS = 5"

definition CONFIDENCE :: flt where "CONFIDENCE = Fin False 95 (-2)"

text \<open>The decision fields of a plan that decides nothing, and of one that compares two arms.\<close>

definition check_no_decision :: "(string \<Rightarrow> json) \<Rightarrow> analysis_scope list \<Rightarrow> string \<Rightarrow> (string \<times> string) option pres" where
  "check_no_decision f scopes multiplicity =
     bindE (checkE (f ''candidate_profile_id'' = JNull \<and> f ''reference_profile_id'' = JNull) NoneHasArms) (\<lambda>_.
     bindE (checkE (scopes = []) NoneHasScopes) (\<lambda>_.
     bindE (checkE (f ''margin_points'' = JNull \<and> f ''confidence'' = JNull) NoneHasMargin) (\<lambda>_.
     bindE (checkE (multiplicity = ''none'') NoneHasMultiplicity) (\<lambda>_. Inr None))))"

definition check_decision ::
    "(string \<Rightarrow> json) \<Rightarrow> string \<Rightarrow> analysis_scope list \<Rightarrow> string \<Rightarrow> (string \<times> string) option pres" where
  "check_decision f policy scopes multiplicity =
     bindE (checkE (f ''candidate_profile_id'' \<noteq> JNull \<and> f ''reference_profile_id'' \<noteq> JNull) (ArmsMissing policy)) (\<lambda>_.
     bindE (pwire (validate_safe_id (f ''candidate_profile_id'') ''analysis plan.candidate_profile_id'')) (\<lambda>c.
     bindE (pwire (validate_safe_id (f ''reference_profile_id'') ''analysis plan.reference_profile_id'')) (\<lambda>r.
     bindE (checkE (c \<noteq> r) ArmsEqual) (\<lambda>_.
     bindE (checkE (f ''margin_points'' = JInt MARGIN_POINTS) (MarginNot5 policy)) (\<lambda>_.
     bindE (checkE (f ''confidence'' = JFloat CONFIDENCE) (ConfidenceNot95 policy)) (\<lambda>_.
     bindE (checkE (scopes \<noteq> []) (ScopesEmpty policy)) (\<lambda>_.
     bindE (let expected = (if length scopes = 1 then ''none'' else ''bonferroni'')
            in checkE (multiplicity = expected) (MultiplicityDiffers (length scopes) expected)) (\<lambda>_.
       Inr (Some (c, r))))))))))"

definition AnalysisPlan_init :: "(string \<Rightarrow> json) \<Rightarrow> int \<Rightarrow> analysis_scope list \<Rightarrow> analysis_plan pres" where
  "AnalysisPlan_init f n scopes =
     bindE (pwire (validate_safe_id (f ''analysis_id'') ''analysis plan.analysis_id'')) (\<lambda>i.
     bindE (checkE (is_str (f ''policy'') \<and> the_str (f ''policy'') \<in> set ANALYSIS_POLICIES) BadPolicy) (\<lambda>_.
     bindE (case repeated_scope [] scopes of
              Some s \<Rightarrow> Inl (DuplicateScope (sc_scope s) (sc_id s)) | None \<Rightarrow> Inr ()) (\<lambda>_.
     bindE (checkE (is_str (f ''multiplicity'') \<and> the_str (f ''multiplicity'') \<in> set MULTIPLICITY_POLICIES) BadMultiplicity) (\<lambda>_.
     bindE (checkE (f ''bootstrap_iterations'' = JInt 10000) IterationsNot10000) (\<lambda>_.
     (let policy = the_str (f ''policy''); multiplicity = the_str (f ''multiplicity'')
      in bindE (if policy = ''none'' then check_no_decision f scopes multiplicity
                else check_decision f policy scopes multiplicity) (\<lambda>arms.
           Inr \<lparr>pl_schema = n, pl_id = i, pl_policy = policy, pl_arms = arms, pl_scopes = scopes,
             pl_multiplicity = multiplicity\<rparr>)))))))"

definition plan_fields :: "string list" where
  "plan_fields = [''schema_version'', ''analysis_id'', ''policy'', ''candidate_profile_id'', ''reference_profile_id'',
     ''scopes'', ''margin_points'', ''confidence'', ''multiplicity'', ''bootstrap_iterations'']"

definition require_scopes :: "json \<Rightarrow> json list pres" where
  "require_scopes v = (case v of JList vs \<Rightarrow> Inr vs | _ \<Rightarrow> Inl ScopesNotList)"

definition AnalysisPlan_from_mapping :: "json \<Rightarrow> analysis_plan pres" where
  "AnalysisPlan_from_mapping v =
     bindE (pwire (wire_exact_keys v plan_fields ''analysis plan'')) (\<lambda>d.
     bindE (require_scopes (fld d ''scopes'')) (\<lambda>raw.
     bindE (pwire (validate_schema_version (fld d ''schema_version'') ''analysis plan'' 1)) (\<lambda>n.
     bindE (mapE (\<lambda>(i, s). AnalysisScope_from_mapping (''analysis plan.scopes['' @ show_nat i @ '']'') s)
              (enumerate 0 raw)) (\<lambda>scopes.
       AnalysisPlan_init (fld d) n scopes))))"

definition AnalysisPlan_to_mapping :: "analysis_plan \<Rightarrow> json" where
  "AnalysisPlan_to_mapping p = JObj [
     (''schema_version'', JInt (pl_schema p)), (''analysis_id'', JStr (pl_id p)), (''policy'', JStr (pl_policy p)),
     (''candidate_profile_id'', case pl_arms p of None \<Rightarrow> JNull | Some a \<Rightarrow> JStr (fst a)),
     (''reference_profile_id'', case pl_arms p of None \<Rightarrow> JNull | Some a \<Rightarrow> JStr (snd a)),
     (''scopes'', JList (map AnalysisScope_to_mapping (pl_scopes p))),
     (''margin_points'', if pl_arms p = None then JNull else JInt MARGIN_POINTS),
     (''confidence'', if pl_arms p = None then JNull else JFloat CONFIDENCE),
     (''multiplicity'', JStr (pl_multiplicity p)), (''bootstrap_iterations'', JInt 10000)]"

definition load_analysis_plan :: "nat \<Rightarrow> file_read \<Rightarrow> analysis_plan pres" where
  "load_analysis_plan limit file =
     bindE (pwire (load_json_object limit file ''analysis plan'')) (\<lambda>d. AnalysisPlan_from_mapping (JObj d))"

definition analysis_plan_hash :: "externals \<Rightarrow> analysis_plan \<Rightarrow> string pres" where
  "analysis_plan_hash ext p = pwire (wire_sha256 ext (AnalysisPlan_to_mapping p))"

text \<open>The ids pass through a set, so which invalid one is reported first is open; the model names none.\<close>

definition validate_roster :: "analysis_plan \<Rightarrow> string list \<Rightarrow> unit pres" where
  "validate_roster p selected =
     bindE (checkE (distinct selected) RosterHasDuplicates) (\<lambda>_.
     bindE (checkE (list_all safe_id selected) RosterIdInvalid) (\<lambda>_.
       (case pl_arms p of
          None \<Rightarrow> Inr ()
        | Some (c, r) \<Rightarrow>
            bindE (checkE (c \<in> set selected) (ArmNotSelected ''candidate'' c)) (\<lambda>_.
              checkE (r \<in> set selected) (ArmNotSelected ''reference'' r)))))"

definition validate_scope_names :: "analysis_plan \<Rightarrow> string set \<Rightarrow> string set \<Rightarrow> unit pres" where
  "validate_scope_names p fams tags = seqE (map (\<lambda>s.
     if sc_scope s = ''family'' \<and> sc_id s \<notin> Some ` fams then Inl (FamilyAbsent (sc_id s))
     else if sc_scope s = ''tag'' \<and> sc_id s \<notin> Some ` tags then Inl (TagAbsent (sc_id s))
     else Inr ()) (pl_scopes p))"

section \<open>Plans as codecs\<close>

definition scope_ok :: "analysis_scope \<Rightarrow> bool" where
  "scope_ok s \<longleftrightarrow> sc_scope s \<in> set ANALYSIS_SCOPE_KINDS \<and>
     (if sc_scope s = ''overall'' then sc_id s = None else \<exists>i. sc_id s = Some i \<and> safe_id i)"

definition plan_ok :: "analysis_plan \<Rightarrow> bool" where
  "plan_ok p \<longleftrightarrow> pl_schema p = 1 \<and> safe_id (pl_id p) \<and> pl_policy p \<in> set ANALYSIS_POLICIES \<and>
     list_all scope_ok (pl_scopes p) \<and> distinct (pl_scopes p) \<and>
     (if pl_policy p = ''none'' then pl_arms p = None \<and> pl_scopes p = [] \<and> pl_multiplicity p = ''none''
      else (\<exists>c r. pl_arms p = Some (c, r) \<and> safe_id c \<and> safe_id r \<and> c \<noteq> r) \<and> pl_scopes p \<noteq> [] \<and>
        pl_multiplicity p = (if length (pl_scopes p) = 1 then ''none'' else ''bonferroni''))"

lemma AnalysisScope_init_Inr:
  "AnalysisScope_init scope i c = Inr s \<longleftrightarrow> scope = JStr (sc_scope s) \<and> c = JBool True \<and>
     i = (case sc_id s of None \<Rightarrow> JNull | Some x \<Rightarrow> JStr x) \<and> scope_ok s"
  by (cases s; cases scope) (auto simp: AnalysisScope_init_def res_simps wire_simps scope_ok_def split: option.splits)

lemma AnalysisScope_from_ok: "AnalysisScope_from_mapping label v = Inr s \<Longrightarrow> scope_ok s"
  unfolding AnalysisScope_from_mapping_def bindE_Inr_iff map_errE_Inr_iff AnalysisScope_init_Inr by blast

lemma AnalysisScope_to_from: "scope_ok s \<Longrightarrow> AnalysisScope_from_mapping label (AnalysisScope_to_mapping s) = Inr s"
  by (simp add: AnalysisScope_from_mapping_def AnalysisScope_to_mapping_def res_simps wire_simps keys_def fld_Cons
      AnalysisScope_init_Inr)

interpretation scopes: mapping_codec AnalysisScope_to_mapping "AnalysisScope_from_mapping label" scope_ok for label
  by unfold_locales (simp_all add: AnalysisScope_from_ok AnalysisScope_to_from)

lemma repeated_scope_None: "repeated_scope seen ss = None \<longleftrightarrow> distinct ss \<and> set ss \<inter> set seen = {}"
  by (induction ss arbitrary: seen) auto

lemma unrepeated_scopes [wire_simps]:
  "(case repeated_scope [] ss of Some s \<Rightarrow> Inl (g s) | None \<Rightarrow> Inr ()) = Inr u \<longleftrightarrow> distinct ss"
  using repeated_scope_None [of "[]" ss] by (cases "repeated_scope [] ss") auto

lemma check_no_decision_Inr:
  "check_no_decision f scopes m = Inr a \<longleftrightarrow> a = None \<and> f ''candidate_profile_id'' = JNull \<and>
     f ''reference_profile_id'' = JNull \<and> scopes = [] \<and> f ''margin_points'' = JNull \<and> f ''confidence'' = JNull \<and>
     m = ''none''"
  by (auto simp: check_no_decision_def res_simps)

lemma check_decision_Inr:
  "check_decision f policy scopes m = Inr a \<longleftrightarrow> (\<exists>c r. a = Some (c, r) \<and> f ''candidate_profile_id'' = JStr c \<and>
     f ''reference_profile_id'' = JStr r \<and> safe_id c \<and> safe_id r \<and> c \<noteq> r \<and> f ''margin_points'' = JInt MARGIN_POINTS \<and>
     f ''confidence'' = JFloat CONFIDENCE \<and> scopes \<noteq> [] \<and> m = (if length scopes = 1 then ''none'' else ''bonferroni''))"
  by (auto simp: check_decision_def res_simps wire_simps Let_def)

lemma AnalysisPlan_init_Inr:
  "AnalysisPlan_init f n scopes = Inr p \<longleftrightarrow> f ''analysis_id'' = JStr (pl_id p) \<and> safe_id (pl_id p) \<and>
     f ''policy'' = JStr (pl_policy p) \<and> pl_policy p \<in> set ANALYSIS_POLICIES \<and> distinct scopes \<and>
     f ''multiplicity'' = JStr (pl_multiplicity p) \<and> pl_multiplicity p \<in> set MULTIPLICITY_POLICIES \<and>
     f ''bootstrap_iterations'' = JInt 10000 \<and> pl_schema p = n \<and> pl_scopes p = scopes \<and>
     (if pl_policy p = ''none'' then check_no_decision f scopes (pl_multiplicity p)
      else check_decision f (pl_policy p) scopes (pl_multiplicity p)) = Inr (pl_arms p)"
  by (cases p) (auto simp: AnalysisPlan_init_def bindE_Inr_iff map_errE_Inr_iff checkE_Inr_iff wire_simps is_str_iff Let_def)

lemma labelled_scopes:
  "list_all scope_ok ss \<Longrightarrow>
     mapE (\<lambda>(i, s). AnalysisScope_from_mapping (g i) s) (enumerate k (map AnalysisScope_to_mapping ss)) = Inr ss"
  by (induction ss arbitrary: k) (simp_all add: AnalysisScope_to_from)

lemma labelled_scopes_ok:
  "mapE (\<lambda>(i, s). AnalysisScope_from_mapping (g i) s) (enumerate k vs) = Inr ss \<Longrightarrow> list_all scope_ok ss"
  by (auto simp: list_all_iff split_beta dest!: mapE_in_set dest: AnalysisScope_from_ok)

lemma require_scopes_Inr: "require_scopes v = Inr vs \<longleftrightarrow> v = JList vs"
  by (cases v) (simp_all add: require_scopes_def)

lemma AnalysisPlan_from_ok:
  assumes "AnalysisPlan_from_mapping v = Inr p"
  shows "plan_ok p"
proof -
  obtain d raw ss where ss: "mapE (\<lambda>(i, s). AnalysisScope_from_mapping (''analysis plan.scopes['' @ show_nat i @ '']'') s)
      (enumerate 0 raw) = Inr ss" and p: "AnalysisPlan_init (fld d) 1 ss = Inr p"
    using assms unfolding AnalysisPlan_from_mapping_def bindE_Inr_iff map_errE_Inr_iff validate_schema_version_Inr by blast
  show ?thesis
    using labelled_scopes_ok [OF ss] p unfolding AnalysisPlan_init_Inr plan_ok_def
    by (auto simp: check_no_decision_Inr check_decision_Inr split: if_splits)
qed

lemma plan_fields_of:
  obtains d where "AnalysisPlan_to_mapping p = JObj d" and "set (keys d) = set plan_fields"
    and "fld d ''schema_version'' = JInt (pl_schema p)" and "fld d ''scopes'' = JList (map AnalysisScope_to_mapping (pl_scopes p))"
    and "fld d ''analysis_id'' = JStr (pl_id p)" and "fld d ''policy'' = JStr (pl_policy p)"
    and "fld d ''candidate_profile_id'' = (case pl_arms p of None \<Rightarrow> JNull | Some a \<Rightarrow> JStr (fst a))"
    and "fld d ''reference_profile_id'' = (case pl_arms p of None \<Rightarrow> JNull | Some a \<Rightarrow> JStr (snd a))"
    and "fld d ''margin_points'' = (if pl_arms p = None then JNull else JInt MARGIN_POINTS)"
    and "fld d ''confidence'' = (if pl_arms p = None then JNull else JFloat CONFIDENCE)"
    and "fld d ''multiplicity'' = JStr (pl_multiplicity p)" and "fld d ''bootstrap_iterations'' = JInt 10000"
  by (rule that [OF AnalysisPlan_to_mapping_def]) (simp_all add: plan_fields_def keys_def fld_Cons)

lemma AnalysisPlan_to_from:
  assumes "plan_ok p"
  shows "AnalysisPlan_from_mapping (AnalysisPlan_to_mapping p) = Inr p"
proof -
  obtain d where d: "AnalysisPlan_to_mapping p = JObj d" "set (keys d) = set plan_fields"
    "fld d ''schema_version'' = JInt (pl_schema p)" "fld d ''scopes'' = JList (map AnalysisScope_to_mapping (pl_scopes p))"
    and f: "fld d ''analysis_id'' = JStr (pl_id p)" "fld d ''policy'' = JStr (pl_policy p)"
    "fld d ''candidate_profile_id'' = (case pl_arms p of None \<Rightarrow> JNull | Some a \<Rightarrow> JStr (fst a))"
    "fld d ''reference_profile_id'' = (case pl_arms p of None \<Rightarrow> JNull | Some a \<Rightarrow> JStr (snd a))"
    "fld d ''margin_points'' = (if pl_arms p = None then JNull else JInt MARGIN_POINTS)"
    "fld d ''confidence'' = (if pl_arms p = None then JNull else JFloat CONFIDENCE)"
    "fld d ''multiplicity'' = JStr (pl_multiplicity p)" "fld d ''bootstrap_iterations'' = JInt 10000"
    by (rule plan_fields_of [of p]) blast
  have "pl_multiplicity p \<in> set MULTIPLICITY_POLICIES"
    using assms by (auto simp: plan_ok_def MULTIPLICITY_POLICIES_def split: if_splits)
  then have "AnalysisPlan_init (fld d) 1 (pl_scopes p) = Inr p"
    using assms unfolding AnalysisPlan_init_Inr plan_ok_def f
    by (auto simp: check_no_decision_Inr check_decision_Inr f split: if_splits)
  moreover have "mapE (\<lambda>(i, s). AnalysisScope_from_mapping (''analysis plan.scopes['' @ show_nat i @ '']'') s)
      (enumerate 0 (map AnalysisScope_to_mapping (pl_scopes p))) = Inr (pl_scopes p)"
    using assms by (intro labelled_scopes) (simp add: plan_ok_def)
  moreover have "fld d ''schema_version'' = JInt 1" using assms d(3) by (simp add: plan_ok_def)
  ultimately show ?thesis
    unfolding AnalysisPlan_from_mapping_def bindE_Inr_iff map_errE_Inr_iff wire_exact_keys_Inr require_scopes_Inr
      validate_schema_version_Inr using d(1,2,4) by (intro exI conjI) (assumption | rule refl)+
qed

interpretation plans: mapping_codec AnalysisPlan_to_mapping AnalysisPlan_from_mapping plan_ok
  by unfold_locales (simp_all add: AnalysisPlan_from_ok AnalysisPlan_to_from)

section \<open>The gate before a run\<close>

lemma validate_roster_Inr:
  "validate_roster p selected = Inr u \<longleftrightarrow> distinct selected \<and> list_all safe_id selected \<and>
     (\<forall>c r. pl_arms p = Some (c, r) \<longrightarrow> c \<in> set selected \<and> r \<in> set selected)"
  by (auto simp: validate_roster_def bindE_Inr_iff checkE_Inr_iff split: option.splits)

lemma validate_scope_names_Inr:
  "validate_scope_names p fams tags = Inr u \<longleftrightarrow> (\<forall>s \<in> set (pl_scopes p).
     (sc_scope s = ''family'' \<longrightarrow> sc_id s \<in> Some ` fams) \<and> (sc_scope s = ''tag'' \<longrightarrow> sc_id s \<in> Some ` tags))"
proof -
  have "(if sc_scope s = ''family'' \<and> sc_id s \<notin> Some ` fams then Inl (FamilyAbsent (sc_id s))
     else if sc_scope s = ''tag'' \<and> sc_id s \<notin> Some ` tags then Inl (TagAbsent (sc_id s)) else Inr ()) = Inr () \<longleftrightarrow>
     (sc_scope s = ''family'' \<longrightarrow> sc_id s \<in> Some ` fams) \<and> (sc_scope s = ''tag'' \<longrightarrow> sc_id s \<in> Some ` tags)" for s
    by auto
  then show ?thesis
    unfolding validate_scope_names_def seqE_Inr_iff list.pred_map comp_def by (auto simp: list_all_iff)
qed

text \<open>C24: A loaded plan that passes the checks against the selected profiles and the loaded suite either decides
  nothing, or compares two different selected profiles over at least one scope, each the whole suite or a family
  or tag some task of the suite has, no scope twice, with Bonferroni's correction exactly for several scopes.\<close>

theorem analysis_plan_gate:
  assumes "load_analysis_plan limit file = Inr p" and "validate_roster p (map ms_name ms) = Inr ()"
    and "validate_scope_names p (families s) (suite_tags s) = Inr ()"
  shows "distinct (pl_scopes p) \<and>
    (if pl_policy p = ''none'' then pl_arms p = None \<and> pl_scopes p = []
     else (\<exists>c \<in> set ms. \<exists>r \<in> set ms. pl_arms p = Some (ms_name c, ms_name r) \<and> ms_name c \<noteq> ms_name r) \<and>
       pl_scopes p \<noteq> [] \<and> (pl_multiplicity p = ''bonferroni'' \<longleftrightarrow> 1 < length (pl_scopes p)) \<and>
       (\<forall>x \<in> set (pl_scopes p). x = \<lparr>sc_scope = ''overall'', sc_id = None\<rparr> \<or>
          (\<exists>t \<in> set (ag_specs s). x = \<lparr>sc_scope = ''family'', sc_id = Some (tk_family t)\<rparr> \<or>
             (\<exists>g \<in> set (tk_tags t). x = \<lparr>sc_scope = ''tag'', sc_id = Some g\<rparr>))))"
proof -
  have p: "plan_ok p"
    using assms(1) by (auto simp: load_analysis_plan_def bindE_Inr_iff dest: plans.from_ok)
  have arms_of: "\<exists>c r. pl_arms p = Some (c, r) \<and> c \<noteq> r" if "pl_policy p \<noteq> ''none''"
    using p that unfolding plan_ok_def by simp blast
  have x: "x = \<lparr>sc_scope = ''overall'', sc_id = None\<rparr> \<or>
          (\<exists>t \<in> set (ag_specs s). x = \<lparr>sc_scope = ''family'', sc_id = Some (tk_family t)\<rparr> \<or>
             (\<exists>g \<in> set (tk_tags t). x = \<lparr>sc_scope = ''tag'', sc_id = Some g\<rparr>))" if mem: "x \<in> set (pl_scopes p)" for x
  proof -
    have "scope_ok x" using p mem by (simp add: plan_ok_def list_all_iff)
    then consider (all) "sc_scope x = ''overall''" "sc_id x = None" | (fam) "sc_scope x = ''family''" | (tag) "sc_scope x = ''tag''"
      by (auto simp: scope_ok_def ANALYSIS_SCOPE_KINDS_def)
    then show ?thesis
    proof cases
      case all
      then show ?thesis by (cases x) simp
    next
      case fam
      then obtain t where "t \<in> set (ag_specs s)" "sc_id x = Some (tk_family t)"
        using assms(3) mem unfolding validate_scope_names_Inr families_def by (auto simp: image_iff)
      then show ?thesis using fam by (cases x) auto
    next
      case tag
      then obtain t g where "t \<in> set (ag_specs s)" "g \<in> set (tk_tags t)" "sc_id x = Some g"
        using assms(3) mem unfolding validate_scope_names_Inr suite_tags_def by (auto simp: image_iff)
      then show ?thesis using tag by (cases x) auto
    qed
  qed
  have arms: "\<exists>c \<in> set ms. \<exists>r \<in> set ms. pl_arms p = Some (ms_name c, ms_name r) \<and> ms_name c \<noteq> ms_name r"
    if "pl_policy p \<noteq> ''none''"
    using arms_of [OF that] assms(2) unfolding validate_roster_Inr set_map by blast
  have "pl_multiplicity p = ''bonferroni'' \<longleftrightarrow> 1 < length (pl_scopes p)" if "pl_policy p \<noteq> ''none''"
    using p that by (cases "pl_scopes p") (auto simp: plan_ok_def)
  with p x arms show ?thesis by (auto simp: plan_ok_def split: if_splits)
qed

definition sample_plan :: analysis_plan where
  "sample_plan = \<lparr>pl_schema = 1, pl_id = ''plan-1'', pl_policy = ''superiority'',
     pl_arms = Some (''codex-luna'', ''claude-sonnet''),
     pl_scopes = [\<lparr>sc_scope = ''overall'', sc_id = None\<rparr>, \<lparr>sc_scope = ''tag'', sc_id = Some ''smoke''\<rparr>],
     pl_multiplicity = ''bonferroni''\<rparr>"

lemma sample_plan_loads:
  "load_analysis_plan 1000 (FileText (raw_dumps (AnalysisPlan_to_mapping sample_plan))) = Inr sample_plan"
proof -
  have ok: "plan_ok sample_plan"
    by (simp add: plan_ok_def sample_plan_def safe_defs ANALYSIS_POLICIES_def scope_ok_def ANALYSIS_SCOPE_KINDS_def)
  obtain d where d: "AnalysisPlan_to_mapping sample_plan = JObj d" by (simp add: AnalysisPlan_to_mapping_def)
  have "json_ok (JObj d)" "strict_json (JObj d)" "depth (JObj d) \<le> 1000"
    unfolding d [symmetric] by (simp_all add: AnalysisPlan_to_mapping_def sample_plan_def AnalysisScope_to_mapping_def
        MARGIN_POINTS_def CONFIDENCE_def int_max_str_digits_def show_nat.simps)
  from decode_raw_dumps [OF this] show ?thesis
    by (simp add: load_analysis_plan_def load_json_object_def d bindE_Inr_iff map_errE_Inr_iff
        plans.from_to [OF ok, unfolded d] del: raw_dumps.simps)
qed

theorem analysis_plan_gate_witness:
  "\<forall>h. validate_scope_names sample_plan (families (smoke_suite h)) (suite_tags (smoke_suite h)) = Inr () \<and>
     (\<exists>c \<in> set (mr_models shipped_registry). \<exists>r \<in> set (mr_models shipped_registry).
        pl_arms sample_plan = Some (ms_name c, ms_name r))"
proof
  fix h
  have r: "validate_roster sample_plan (map ms_name (mr_models shipped_registry)) = Inr ()"
    by (simp add: validate_roster_Inr sample_plan_def shipped_registry_def safe_defs)
  have s: "validate_scope_names sample_plan (families (smoke_suite h)) (suite_tags (smoke_suite h)) = Inr ()"
    by (simp add: validate_scope_names_Inr sample_plan_def families_def suite_tags_def smoke_suite_def smoke_manifest_def
        smoke_task_def)
  have "pl_policy sample_plan \<noteq> ''none''" by (simp add: sample_plan_def)
  with analysis_plan_gate [OF sample_plan_loads r s] s
  show "validate_scope_names sample_plan (families (smoke_suite h)) (suite_tags (smoke_suite h)) = Inr () \<and>
     (\<exists>c \<in> set (mr_models shipped_registry). \<exists>r \<in> set (mr_models shipped_registry).
        pl_arms sample_plan = Some (ms_name c, ms_name r))" by auto
qed

end
