(* ===== verification/Json_Indent.thy ===== *)
theory Json_Indent
  imports Json_Text
begin

text \<open>
  \<open>json.dumps\<close> with an indent: every element of a non-empty list or object on a line of its own.  The text
  reads back, as the compact one does.
\<close>

definition indent_break :: "nat \<Rightarrow> nat \<Rightarrow> string" where
  "indent_break step level = CHR 0x0A # replicate (step * level) (CHR '' '')"

fun dumps_indent :: "nat \<Rightarrow> nat \<Rightarrow> json \<Rightarrow> string" where
  "dumps_indent step level (JList xs) =
     (if xs = [] then ''[]''
      else ''['' @ indent_break step (Suc level)
        @ join ('','' @ indent_break step (Suc level)) (map (dumps_indent step (Suc level)) xs)
        @ indent_break step level @ '']'')"
| "dumps_indent step level (JObj kvs) =
     (if kvs = [] then ''{}''
      else ''{'' @ indent_break step (Suc level)
        @ join ('','' @ indent_break step (Suc level))
            (map (\<lambda>kv. dump_str (fst kv) @ '': '' @ dumps_indent step (Suc level) (snd kv)) kvs)
        @ indent_break step level @ ''}'')"
| "dumps_indent step level j = dumps_with '','' '': '' j"

lemma indent_break_ws: "list_all is_ws (indent_break step level)"
  by (simp add: indent_break_def is_ws_def list_all_iff)

lemma val_head_indent: "val_head (dumps_indent step level j)"
  using val_head_dumps [of "'',''" "'': ''" j] by (cases j) (simp_all add: val_head_def is_ws_def)

lemma skip_indent_break: "val_head t \<Longrightarrow> skip_ws (indent_break step level @ t) = t"
  by (simp add: skip_ws_append indent_break_ws skip_ws_val_head)

lemma parse_indent:
  assumes "json_ok j" and "depth j \<le> d" and "num_stop r"
  shows "parse_val d (dumps_indent step level j @ r) = Got j r"
  using assms
proof (induction j arbitrary: d r level)
  case (JList xs)
  have d0: "d \<noteq> 0" using JList.prems(2) by (cases d) auto
  show ?case
  proof (cases "xs = []")
    case False
    let ?D = "dumps_indent step (Suc level)"
    let ?t = "join ('','' @ indent_break step (Suc level)) (map ?D xs) @ indent_break step level @ CHR '']'' # r"
    have IH: "parse_val (d - 1) (?D x @ s) = Got x s" if "x \<in> set xs" "num_stop s" for x s
      using JList.IH [OF that(1) _ _ that(2)] JList.prems(1,2) depth_list [OF that(1)] that(1)
      by (auto simp: list_all_iff)
    have "parse_elems (d - 1) ?t = Got xs r"
      by (rule parse_elems_join_ws [OF _ indent_break_ws False indent_break_ws IH val_head_indent]) simp_all
    moreover have h: "val_head ?t" by (rule val_head_join [OF False val_head_indent])
    ultimately show ?thesis using d0 False skip_indent_break [OF h]
      by (cases ?t) (auto simp: parse_val.simps val_head_def)
  qed (use d0 in \<open>simp add: parse_val.simps\<close>)
next
  case (JObj kvs)
  have d0: "d \<noteq> 0" using JObj.prems(2) by (cases d) auto
  show ?case
  proof (cases "kvs = []")
    case False
    let ?D = "dumps_indent step (Suc level)"
    let ?M = "\<lambda>kv. dump_str (fst kv) @ '': '' @ ?D (snd kv)"
    let ?t = "join ('','' @ indent_break step (Suc level)) (map ?M kvs) @ indent_break step level @ CHR ''}'' # r"
    have IH: "parse_val (d - 1) (?D (snd kv) @ s) = Got (snd kv) s" if "kv \<in> set kvs" "num_stop s" for kv s
      using JObj.IH [OF that(1), of "snd kv" "d - 1" s] that JObj.prems(1,2) depth_obj [OF that(1)]
      by (cases kv) (auto simp: list_all_iff)
    have "parse_members (d - 1) ?t = Got kvs r"
      by (rule parse_members_join_ws [OF _ indent_break_ws indent_break_ws _ _ False IH val_head_indent dump_str_def
            parse_chars_dump, where v = "'' ''"]) (simp_all add: is_ws_def)
    moreover have h: "val_head ?t" by (rule val_head_join [OF False]) (rule val_head_dump_str)
    ultimately show ?thesis using d0 False skip_indent_break [OF h]
      by (cases ?t) (auto simp: parse_val.simps val_head_def)
  qed (use d0 in \<open>simp add: parse_val.simps\<close>)
qed (use parse_dumps [OF sep_ok_default] in \<open>simp_all add: parse_val.simps parse_atom_def parse_word_def parse_val_int
      parse_val_flt dump_str_def parse_chars_dump\<close>)

lemma loads_indent:
  assumes "json_ok j" and "depth j \<le> limit"
  shows "loads limit (dumps_indent step 0 j @ [CHR 0x0A]) = Inr j"
proof -
  have "num_stop [CHR 0x0A]" by (simp add: is_digit_def in_rng_def)
  from parse_indent [OF assms this]
  have "parse_val limit (dumps_indent step 0 j @ [CHR 0x0A]) = Got j [CHR 0x0A]" .
  moreover have "skip_ws (dumps_indent step 0 j @ [CHR 0x0A]) = dumps_indent step 0 j @ [CHR 0x0A]"
    by (intro skip_ws_val_head val_head_append val_head_indent)
  moreover have "skip_ws [CHR 0x0A] = []" by (simp add: skip_ws_def is_ws_def)
  ultimately show ?thesis by (simp add: loads_def loads_pairs_def as_dicts_id [OF assms(1)])
qed

end
