(* ===== verification/Author.thy ===== *)
theory Author
  imports Suite Ledger Json_Indent
begin

text \<open>
  src/measure_twice/author.py: candidate items harvested from a workspace (skill-eval goldens, review-deep
  fixtures, git history), their deduplication, the rendered harvest, and the stub suite.

  A workspace is a record: the two source directories, as the code finds them, and the answers of the
  \<open>git\<close> command, which is outside the repository.  Nothing changes while a harvest reads.  A candidate keeps
  gold only when its source has a verified outcome.
\<close>

section \<open>Errors\<close>

datatype author_error =
    WorkspaceNotADirectory
  | WorkspaceUnresolved
  | SourceUnresolved            \<comment> \<open>\<open>_inside_workspace\<close>: \<open>resolve(strict=True)\<close> failed\<close>
  | SourceEscapes
  | SourceIsLink
  | SourceNotRegular
  | SourceTooLarge nat
  | SourceUnreadable
  | GoldenDirNotFound
  | GoldenDirIsLink
  | ManifestNotJson
  | ManifestLacksBads
  | BadNotAnObject nat
  | BadFileNotString nat
  | BadFileNotBasename nat string
  | BadVerifiedNotBool nat
  | NoGoldens
  | ReviewDirNotFound
  | FixtureNotJson
  | FixtureLacksLenses
  | LensNotAnObject nat
  | LensLacksVerdict string
  | LensUnsupportedVerdict string string
  | NoReviewEvidence
  | GitNotAvailable
  | GitNotRun
  | GitReturned string
  | BadHistoryLimit int
  | NoCommits
  | InvalidCommitId string
  | NoPatchCandidates
  | UnknownSource string
  | InvalidStubName suite_error
  | OutputExists
  | OutputNotWritten

text \<open>What leaves a function: its own error class, or an exception that no handler names.\<close>

datatype author_exn =
    AuthorError author_error
  | AuthorSuiteError suite_error   \<comment> \<open>from the \<open>Item\<close> constructor\<close>
  | AuthorValueError               \<comment> \<open>digit limit of \<open>int\<close>, a null character in a path\<close>
  | AuthorRecursionError
  | AuthorTypeError                \<comment> \<open>an unhashable value tested for membership in a set\<close>

type_synonym 'a ares = "(author_exn, 'a) res"

definition demand :: "bool \<Rightarrow> author_error \<Rightarrow> unit ares" where
  "demand c e = checkE c (AuthorError e)"

text \<open>\<open>json.loads\<close> under \<open>except json.JSONDecodeError\<close>.\<close>

definition author_loads :: "nat \<Rightarrow> author_error \<Rightarrow> string \<Rightarrow> json ares" where
  "author_loads limit e t = map_errE (\<lambda>x. case x of
     JSONDecodeError \<Rightarrow> AuthorError e
   | IntDigitsError \<Rightarrow> AuthorValueError
   | JRecursionError \<Rightarrow> AuthorRecursionError) (loads limit t)"

section \<open>The workspace\<close>

text \<open>
  What a path below a checked directory is.  \<open>Opaque n\<close> is a regular file of \<open>n\<close> bytes whose content cannot be
  read or is not UTF-8; a link says whether it leads to a file.
\<close>

datatype source_entry =
    Absent
  | Link bool
  | Outside
  | NotRegular
  | Opaque nat
  | Plain string

text \<open>A source directory: missing or no directory, not resolvable, outside the root, or its content.\<close>

datatype 'a folder = NoFolder | UnresolvedFolder | EscapingFolder | Folder 'a

text \<open>The directory of one \<open>evals/golden/manifest.json\<close>; \<open>gd_place\<close> is its resolved path below the root.\<close>

record golden_dir =
  gd_skill :: string
  gd_is_link :: bool
  gd_place :: "string folder"
  gd_manifest :: source_entry
  gd_entries :: "(string \<times> source_entry) list"

record review_dir =
  rd_place :: string
  rd_entries :: "(string \<times> source_entry) list"

datatype git_run = NoGit | GitNotFinished | GitFailed string | GitPrinted string

record author_workspace =
  ws_root :: "unit folder"
  ws_skills :: "golden_dir list folder"
  ws_reviews :: "review_dir folder"
  ws_git :: "string list \<Rightarrow> git_run"

definition workspace_root :: "author_workspace \<Rightarrow> unit ares" where
  "workspace_root ws = (case ws_root ws of
     NoFolder \<Rightarrow> Inl (AuthorError WorkspaceNotADirectory)
   | UnresolvedFolder \<Rightarrow> Inl (AuthorError WorkspaceUnresolved)
   | _ \<Rightarrow> Inr ())"

definition inside_workspace :: "author_error \<Rightarrow> 'a folder \<Rightarrow> 'a ares" where
  "inside_workspace missing f = (case f of
     NoFolder \<Rightarrow> Inl (AuthorError missing)
   | UnresolvedFolder \<Rightarrow> Inl (AuthorError SourceUnresolved)
   | EscapingFolder \<Rightarrow> Inl (AuthorError SourceEscapes)
   | Folder x \<Rightarrow> Inr x)"

definition max_artifact_bytes :: nat where
  "max_artifact_bytes = 512 * 1024"

definition utf8_size :: "string \<Rightarrow> nat" where
  "utf8_size t = sum_list (map (\<lambda>c. if code_pt c < 128 then 1 else 2) t)"

definition read_bounded :: "nat \<Rightarrow> string option \<Rightarrow> string ares" where
  "read_bounded n content =
     bindE (demand (n \<le> max_artifact_bytes) (SourceTooLarge n)) (\<lambda>_.
       (case content of None \<Rightarrow> Inl (AuthorError SourceUnreadable) | Some t \<Rightarrow> Inr t))"

fun read_workspace_file :: "source_entry \<Rightarrow> string ares" where
  "read_workspace_file (Link b) = Inl (AuthorError SourceIsLink)"
| "read_workspace_file Absent = Inl (AuthorError SourceUnresolved)"
| "read_workspace_file Outside = Inl (AuthorError SourceEscapes)"
| "read_workspace_file NotRegular = Inl (AuthorError SourceNotRegular)"
| "read_workspace_file (Opaque n) = read_bounded n None"
| "read_workspace_file (Plain t) = read_bounded (utf8_size t) (Some t)"

fun entry_is_file :: "source_entry \<Rightarrow> bool" where
  "entry_is_file (Link b) = b"
| "entry_is_file (Opaque n) = True"
| "entry_is_file (Plain t) = True"
| "entry_is_file _ = False"

text \<open>\<open>resolve\<close> of a path with a null character raises a \<open>ValueError\<close>.\<close>

definition entry_of :: "(string \<times> source_entry) list \<Rightarrow> string \<Rightarrow> source_entry ares" where
  "entry_of d name =
     (if CHR 0x00 \<in> set name then Inl AuthorValueError
      else Inr (case map_of d name of None \<Rightarrow> Absent | Some e \<Rightarrow> e))"

section \<open>Names and identifiers\<close>

text \<open>\<open>sub("-", ...)\<close> on maximal runs of unsafe characters.\<close>

fun sub_unsafe :: "bool \<Rightarrow> string \<Rightarrow> string" where
  "sub_unsafe in_run [] = []"
| "sub_unsafe in_run (c # s) =
     (if name_char c then c # sub_unsafe False s
      else if in_run then sub_unsafe True s
      else CHR ''-'' # sub_unsafe True s)"

definition trim_char :: "char \<Rightarrow> bool" where
  "trim_char c \<longleftrightarrow> c \<in> set ''.-_''"

definition slug :: "string \<Rightarrow> string" where
  "slug v =
     (let s = rev (dropWhile trim_char (rev (dropWhile trim_char (sub_unsafe False v))))
      in if s = [] then ''artifact'' else s)"

text \<open>\<open>PurePath.stem\<close>: the name without its last suffix.\<close>

definition stem :: "string \<Rightarrow> string" where
  "stem name =
     (let tail = takeWhile (\<lambda>c. c \<noteq> CHR ''.'') (rev name);
          i = length name - Suc (length tail)
      in if CHR ''.'' \<in> set name \<and> 0 < i \<and> i < length name - 1 then take i name else name)"

definition author_item_id :: "externals \<Rightarrow> string \<Rightarrow> string \<Rightarrow> string \<Rightarrow> string" where
  "author_item_id ext prefix label raw =
     prefix @ ''-'' @ slug label @ ''-'' @ take 12 (sha256_hex ext raw)"

definition source_provenance :: "externals \<Rightarrow> string \<Rightarrow> string \<Rightarrow> string" where
  "source_provenance ext place raw = ''harvested:'' @ place @ '';sha256='' @ sha256_hex ext raw"

definition half :: flt where
  "half = Fin False 5 (-1)"

definition author_item ::
    "externals \<Rightarrow> string \<Rightarrow> string list \<Rightarrow> string \<Rightarrow> string \<Rightarrow> string \<Rightarrow> item ares" where
  "author_item ext iid tags prompt expected provenance =
     map_errE AuthorSuiteError (Item_init ext (JStr iid) (strs_json tags) (JStr prompt)
       (JStr expected) (JFloat half) (JStr provenance))"

section \<open>Deduplication\<close>

definition candidate_payload :: "item \<Rightarrow> json" where
  "candidate_payload it = JObj [(''expected'', JStr (it_expected it)), (''prompt'', JStr (it_prompt it))]"

definition candidate_content_hash :: "externals \<Rightarrow> item \<Rightarrow> string" where
  "candidate_content_hash ext it = sha256_hex ext (canonical_dumps (candidate_payload it))"

text \<open>The loop: the digests seen, the candidates kept so far (latest first), the number dropped.\<close>

fun dedupe_loop :: "externals \<Rightarrow> string set \<Rightarrow> item list \<Rightarrow> nat \<Rightarrow> item list \<Rightarrow> item list \<times> nat" where
  "dedupe_loop ext seen unique duplicates [] = (rev unique, duplicates)"
| "dedupe_loop ext seen unique duplicates (it # items) =
     (let digest = candidate_content_hash ext it
      in if digest \<in> seen then dedupe_loop ext seen unique (duplicates + 1) items
         else dedupe_loop ext (insert digest seen) (it # unique) duplicates items)"

definition deduplicate_candidates :: "externals \<Rightarrow> item list \<Rightarrow> item list \<times> nat" where
  "deduplicate_candidates ext items = dedupe_loop ext {} [] 0 items"


section \<open>Goldens\<close>

text \<open>\<open>PurePosixPath(filename)\<close> is not absolute, has one part and that part is its name.\<close>

definition safe_basename :: "string \<Rightarrow> bool" where
  "safe_basename s \<longleftrightarrow> \<not> (s \<noteq> [] \<and> hd s = CHR ''/'') \<and> length (path_parts s) = 1
     \<and> last (path_parts s) = s"

text \<open>One entry of \<open>bads\<close>: the file name if its failure is verified.\<close>

definition bad_entry :: "nat \<Rightarrow> json \<Rightarrow> string option ares" where
  "bad_entry i entry = (case entry of
     JObj d \<Rightarrow>
       (case fld d ''file'' of
          JStr filename \<Rightarrow>
            bindE (demand (filename \<noteq> []) (BadFileNotString i)) (\<lambda>_.
            bindE (demand (safe_basename filename) (BadFileNotBasename i filename)) (\<lambda>_.
              (case fld d ''verified_fails'' of
                 JBool v \<Rightarrow> Inr (if v then Some filename else None)
               | _ \<Rightarrow> Inl (AuthorError (BadVerifiedNotBool i)))))
        | _ \<Rightarrow> Inl (AuthorError (BadFileNotString i)))
   | _ \<Rightarrow> Inl (AuthorError (BadNotAnObject i)))"

fun bad_entries :: "nat \<Rightarrow> json list \<Rightarrow> string list ares" where
  "bad_entries i [] = Inr []"
| "bad_entries i (e # es) =
     bindE (bad_entry i e) (\<lambda>b. bindE (bad_entries (Suc i) es) (\<lambda>bs.
       Inr (case b of None \<Rightarrow> bs | Some f \<Rightarrow> f # bs)))"

definition manifest_bad_files :: "nat \<Rightarrow> source_entry \<Rightarrow> string list ares" where
  "manifest_bad_files limit manifest =
     bindE (read_workspace_file manifest) (\<lambda>t.
     bindE (author_loads limit ManifestNotJson t) (\<lambda>payload.
       (case payload of
          JObj d \<Rightarrow>
            (case fld d ''bads'' of
               JList es \<Rightarrow> bindE (bad_entries 0 es) (\<lambda>fs. Inr (fromkeys fs))
             | _ \<Rightarrow> Inl (AuthorError ManifestLacksBads))
        | _ \<Rightarrow> Inl (AuthorError ManifestLacksBads))))"

definition golden_prompt :: "string \<Rightarrow> string" where
  "golden_prompt content =
     ''Review the following skill-evaluation artifact. Return `pass` only if it meets '' @
     ''the stated skill contract; otherwise return `flag`.'' @ [newline, newline] @
     ''--- artifact ---'' @ [newline] @ content @ [newline] @ ''--- end artifact ---''"

definition golden_item ::
    "externals \<Rightarrow> string \<Rightarrow> string \<Rightarrow> string \<Rightarrow> string \<Rightarrow> string \<Rightarrow> item ares" where
  "golden_item ext skill place name expected raw =
     author_item ext (author_item_id ext ''golden'' (skill @ ''-'' @ stem name) raw)
       [''golden'', ''skill-eval'', ''skill-'' @ slug skill, expected] (golden_prompt raw) expected
       (source_provenance ext (place @ ''/'' @ name) raw)"

text \<open>\<open>good.md\<close> when it is a file, then the approved bad files in order.\<close>

definition golden_sources :: "golden_dir \<Rightarrow> string list \<Rightarrow> (string \<times> string) list ares" where
  "golden_sources g approved =
     bindE (entry_of (gd_entries g) ''good.md'') (\<lambda>e.
       Inr ((if entry_is_file e then [(''good.md'', ''pass'')] else [])
            @ map (\<lambda>f. (f, ''flag'')) (sort approved)))"

definition harvest_golden_dir :: "externals \<Rightarrow> nat \<Rightarrow> golden_dir \<Rightarrow> item list ares" where
  "harvest_golden_dir ext limit g =
     bindE (demand (\<not> gd_is_link g) GoldenDirIsLink) (\<lambda>_.
     bindE (inside_workspace SourceUnresolved (gd_place g)) (\<lambda>place.
     bindE (manifest_bad_files limit (gd_manifest g)) (\<lambda>approved.
     bindE (golden_sources g approved) (\<lambda>sources.
       mapE (\<lambda>(name, expected).
         bindE (entry_of (gd_entries g) name) (\<lambda>e.
         bindE (read_workspace_file e) (\<lambda>raw.
           golden_item ext (gd_skill g) place name expected raw))) sources))))"

definition harvest_goldens :: "externals \<Rightarrow> nat \<Rightarrow> author_workspace \<Rightarrow> item list ares" where
  "harvest_goldens ext limit ws =
     bindE (workspace_root ws) (\<lambda>_.
     bindE (inside_workspace GoldenDirNotFound (ws_skills ws)) (\<lambda>dirs.
     bindE (mapE (harvest_golden_dir ext limit) (sort_key gd_skill dirs)) (\<lambda>groups.
     bindE (demand (concat groups \<noteq> []) NoGoldens) (\<lambda>_.
       Inr (concat groups)))))"

section \<open>Review fixtures\<close>

definition passing_verdicts :: "string list" where
  "passing_verdicts = [''PASS'', ''DEFERRED-TO-UAT'']"

definition failing_verdicts :: "string list" where
  "failing_verdicts = [''FAILED'', ''NEEDS-WORK'', ''NO-EVIDENCE'']"

definition review_expected :: "string \<Rightarrow> json \<Rightarrow> string option ares" where
  "review_expected lens v = (case v of
     JStr s \<Rightarrow>
       (if s \<in> set passing_verdicts then Inr (Some ''pass'')
        else if s \<in> set failing_verdicts then Inr (Some ''flag'')
        else if s = ''SKIPPED'' then Inr None
        else Inl (AuthorError (LensUnsupportedVerdict lens s)))
   | _ \<Rightarrow> Inl (AuthorError (LensLacksVerdict lens)))"

definition evidence_keys :: "string list" where
  "evidence_keys = [''authority'', ''coverage_claim'', ''findings'', ''lens_id'']"

definition lens_evidence :: "(string \<times> json) list \<Rightarrow> json" where
  "lens_evidence d = JObj (filter (\<lambda>kv. fst kv \<in> set evidence_keys) d)"

text \<open>\<open>dumps\<close> with an indent is the recursive writer: below its own recursion limit it always succeeds.\<close>

definition indent_dumps :: "nat \<Rightarrow> json \<Rightarrow> string ares" where
  "indent_dumps dlimit j =
     (if depth j \<le> dlimit then Inr (dumps_indent 2 0 (sort_json j)) else Inl AuthorRecursionError)"

definition review_prompt :: "string \<Rightarrow> string \<Rightarrow> string" where
  "review_prompt lens evidence =
     ''Evaluate the following review evidence. Return `pass` if the evidence supports '' @
     ''accepting the change, otherwise return `flag`.'' @ [newline, newline] @
     ''--- '' @ lens @ '' evidence ---'' @ [newline] @ evidence @ [newline] @ ''--- end evidence ---''"

text \<open>The lens of a payload: \<open>in {"correctness", "style"}\<close> needs a hashable value.\<close>

definition scored_lens :: "json \<Rightarrow> string option ares" where
  "scored_lens v = (case v of
     JStr s \<Rightarrow> Inr (if s \<in> {''correctness'', ''style''} then Some s else None)
   | JList _ \<Rightarrow> Inl AuthorTypeError
   | JObj _ \<Rightarrow> Inl AuthorTypeError
   | _ \<Rightarrow> Inr None)"

definition lens_item ::
    "externals \<Rightarrow> nat \<Rightarrow> string \<Rightarrow> string \<Rightarrow> string \<Rightarrow> nat \<Rightarrow> json \<Rightarrow> item list ares" where
  "lens_item ext dlimit place name raw i lens_payload = (case lens_payload of
     JObj d \<Rightarrow>
       bindE (scored_lens (fld d ''lens_id'')) (\<lambda>l. (case l of
          None \<Rightarrow> Inr []
        | Some lens \<Rightarrow>
            bindE (review_expected lens (fld d ''overall_verdict'')) (\<lambda>v. (case v of
               None \<Rightarrow> Inr []
             | Some expected \<Rightarrow>
                 bindE (indent_dumps dlimit (lens_evidence d)) (\<lambda>evidence.
                 bindE (author_item ext (author_item_id ext ''review'' (stem name @ ''-'' @ lens) (raw @ lens))
                     [''review-deep'', ''review'', lens, expected] (review_prompt lens evidence)
                     expected (source_provenance ext (place @ ''/'' @ name) raw)) (\<lambda>it.
                   Inr [it]))))))
   | _ \<Rightarrow> Inl (AuthorError (LensNotAnObject i)))"

fun lens_items ::
    "externals \<Rightarrow> nat \<Rightarrow> string \<Rightarrow> string \<Rightarrow> string \<Rightarrow> nat \<Rightarrow> json list \<Rightarrow> item list ares" where
  "lens_items ext dlimit place name raw i [] = Inr []"
| "lens_items ext dlimit place name raw i (l # ls) =
     bindE (lens_item ext dlimit place name raw i l) (\<lambda>its.
     bindE (lens_items ext dlimit place name raw (Suc i) ls) (\<lambda>rest. Inr (its @ rest)))"

definition harvest_fixture ::
    "externals \<Rightarrow> nat \<Rightarrow> nat \<Rightarrow> string \<Rightarrow> string \<times> source_entry \<Rightarrow> item list ares" where
  "harvest_fixture ext limit dlimit place = (\<lambda>(name, e).
     bindE (read_workspace_file e) (\<lambda>raw.
     bindE (author_loads limit FixtureNotJson raw) (\<lambda>payload.
       (case (case payload of JObj d \<Rightarrow> fld d ''lens_verdicts'' | _ \<Rightarrow> JNull) of
          JList lenses \<Rightarrow> lens_items ext dlimit place name raw 0 lenses
        | _ \<Rightarrow> Inl (AuthorError FixtureLacksLenses)))))"

definition json_suffix :: "string \<Rightarrow> bool" where
  "json_suffix name \<longleftrightarrow> strip_prefix (rev ''.json'') (rev name) \<noteq> None"

definition harvest_review_deep :: "externals \<Rightarrow> nat \<Rightarrow> nat \<Rightarrow> author_workspace \<Rightarrow> item list ares" where
  "harvest_review_deep ext limit dlimit ws =
     bindE (workspace_root ws) (\<lambda>_.
     bindE (inside_workspace ReviewDirNotFound (ws_reviews ws)) (\<lambda>r.
     bindE (mapE (harvest_fixture ext limit dlimit (rd_place r))
              (sort_key fst (filter (\<lambda>ne. json_suffix (fst ne)) (rd_entries r)))) (\<lambda>groups.
     bindE (demand (concat groups \<noteq> []) NoReviewEvidence) (\<lambda>_.
       Inr (concat groups)))))"


section \<open>Git history\<close>

definition git :: "author_workspace \<Rightarrow> string list \<Rightarrow> string ares" where
  "git ws args = (case ws_git ws args of
     NoGit \<Rightarrow> Inl (AuthorError GitNotAvailable)
   | GitNotFinished \<Rightarrow> Inl (AuthorError GitNotRun)
   | GitFailed err \<Rightarrow>
       Inl (AuthorError (GitReturned (if strip err = [] then ''Git returned no diagnostic'' else strip err)))
   | GitPrinted out \<Rightarrow> Inr out)"

fun contains_text :: "string \<Rightarrow> string \<Rightarrow> bool" where
  "contains_text needle [] = (needle = [])"
| "contains_text needle (c # s) = (strip_prefix needle (c # s) \<noteq> None \<or> contains_text needle s)"

definition max_git_commits :: int where
  "max_git_commits = 20"

definition max_git_diff_bytes :: nat where
  "max_git_diff_bytes = 64 * 1024"

definition git_sha :: "string \<Rightarrow> bool" where
  "git_sha s \<longleftrightarrow> length s = 40 \<and> list_all (\<lambda>c. is_digit c \<or> in_rng 97 102 c) s"

definition log_args :: "int \<Rightarrow> string list" where
  "log_args n = [''log'', ''--max-count='' @ show_int n, ''--format=%H'']"

definition show_args :: "string \<Rightarrow> string list" where
  "show_args commit =
     [''show'', ''--format='', ''--no-ext-diff'', ''--unified=0'', ''--no-renames'', commit]"

definition bounded_text_patch :: "string \<Rightarrow> bool" where
  "bounded_text_patch patch \<longleftrightarrow> strip patch \<noteq> [] \<and> utf8_size patch \<le> max_git_diff_bytes
     \<and> \<not> contains_text ''GIT binary patch'' patch"

definition git_prompt :: "string \<Rightarrow> string \<Rightarrow> string" where
  "git_prompt commit patch =
     ''This historical code change is an unreviewed benchmark candidate. A human must curate '' @
     ''its gold verdict before it can enter a scored suite.'' @ [newline, newline] @
     ''commit: '' @ commit @ [newline] @ ''--- patch ---'' @ [newline] @ patch @ [newline] @
     ''--- end patch ---''"

definition commit_items :: "externals \<Rightarrow> author_workspace \<Rightarrow> string \<Rightarrow> item list ares" where
  "commit_items ext ws commit =
     bindE (demand (git_sha commit) (InvalidCommitId commit)) (\<lambda>_.
     bindE (git ws (show_args commit)) (\<lambda>patch.
       if bounded_text_patch patch
       then bindE (author_item ext (author_item_id ext ''git'' (take 12 commit) patch)
              [''git-history'', ''needs-gold'', ''candidate-only''] (git_prompt commit patch) ''CURATE''
              (''harvested:git:'' @ commit @ '';sha256='' @ sha256_hex ext patch)) (\<lambda>it. Inr [it])
       else Inr []))"

definition harvest_git_history :: "externals \<Rightarrow> author_workspace \<Rightarrow> int \<Rightarrow> item list ares" where
  "harvest_git_history ext ws n =
     bindE (workspace_root ws) (\<lambda>_.
     bindE (demand (1 \<le> n \<and> n \<le> max_git_commits) (BadHistoryLimit n)) (\<lambda>_.
     bindE (git ws (log_args n)) (\<lambda>out.
       let commits = filter (\<lambda>l. l \<noteq> []) (splitlines out)
       in bindE (demand (commits \<noteq> []) NoCommits) (\<lambda>_.
          bindE (mapE (commit_items ext ws) commits) (\<lambda>groups.
          bindE (demand (concat groups \<noteq> []) NoPatchCandidates) (\<lambda>_.
            Inr (concat groups)))))))"

section \<open>The harvest\<close>

record harvest_result =
  hr_source :: string
  hr_candidates :: "item list"
  hr_dropped :: nat

definition source_names :: "string list" where
  "source_names = [''all'', ''git'', ''goldens'', ''review-deep'']"

definition harvest_source ::
    "externals \<Rightarrow> nat \<Rightarrow> nat \<Rightarrow> author_workspace \<Rightarrow> string \<Rightarrow> item list ares" where
  "harvest_source ext limit dlimit ws name =
     (if name = ''goldens'' then harvest_goldens ext limit ws
      else if name = ''review-deep'' then harvest_review_deep ext limit dlimit ws
      else harvest_git_history ext ws max_git_commits)"

definition harvest ::
    "externals \<Rightarrow> nat \<Rightarrow> nat \<Rightarrow> string \<Rightarrow> author_workspace \<Rightarrow> harvest_result ares" where
  "harvest ext limit dlimit source ws =
     bindE (demand (source \<in> set source_names) (UnknownSource source)) (\<lambda>_.
       let selected = (if source = ''all'' then [''goldens'', ''review-deep'', ''git''] else [source])
       in bindE (mapE (harvest_source ext limit dlimit ws) selected) (\<lambda>groups.
          let (unique, duplicates) = deduplicate_candidates ext (concat groups)
          in Inr \<lparr>hr_source = source, hr_candidates = unique, hr_dropped = duplicates\<rparr>))"

definition render_harvest :: "harvest_result \<Rightarrow> string" where
  "render_harvest r = dumps_indent 2 0 (sort_json (JObj [
     (''candidates'', JList (map item_asdict (hr_candidates r))),
     (''duplicates_dropped'', JInt (int (hr_dropped r))),
     (''source'', JStr (hr_source r))])) @ [newline]"

section \<open>The stub suite\<close>

definition stub_prompt :: string where
  "stub_prompt =
     ''Replace this template with a self-contained, source-reviewed benchmark item. '' @
     ''For this placeholder only, respond with `pass`.''"

definition stub_description :: string where
  "stub_description =
     ''AUTHORING TEMPLATE ONLY. Replace the candidate with a source-reviewed item before '' @
     ''using this suite for any benchmark run or evidence claim.''"

definition build_stub_suite :: "externals \<Rightarrow> string \<Rightarrow> suite sres" where
  "build_stub_suite ext suite_name =
     bindE (ScoringSpec_init (JStr ''verdict'') (strs_json [''pass'', ''flag'']) (JBool False)) (\<lambda>sc.
     bindE (Item_init ext (JStr (suite_name @ ''-template'')) (strs_json [''template'', ''needs-curation''])
              (JStr stub_prompt) (JStr ''pass'') (JFloat half)
              (JStr ''authored:template-needs-curation'')) (\<lambda>it.
       Suite_init ext (JStr suite_name) (JInt 1) (JStr stub_description) (JStr ''unassigned'') sc [it]))"

definition stub_payload :: "suite \<Rightarrow> json" where
  "stub_payload s = JObj [
     (''description'', JStr (su_description s)), (''domain'', JStr (su_domain s)),
     (''items'', JList (map item_asdict (su_items s))),
     (''scoring'', scoring_asdict (su_scoring s)),
     (''suite'', JStr (su_name s)), (''version'', JInt (su_version s))]"

definition render_stub_suite :: "suite \<Rightarrow> string" where
  "render_stub_suite s = dumps_indent 2 0 (sort_json (stub_payload s)) @ [newline]"

text \<open>
  The files around an output path: a directory, a file with its text, or a link.  A path is the list of its
  components.  What goes wrong in the operating system: a parent cannot be made, the file cannot be opened,
  or its text is cut after some characters.
\<close>

datatype out_node = OutDir | OutFile string | OutLink

type_synonym out_files = "string list \<Rightarrow> out_node option"

datatype write_fault = DirFault nat | OpenFault | WriteFault nat

definition missing_parents :: "out_files \<Rightarrow> string list \<Rightarrow> string list list" where
  "missing_parents fs path = filter (\<lambda>p. fs p = None) (map (\<lambda>n. take n path) [0..<length path])"

definition parents_ok :: "out_files \<Rightarrow> string list \<Rightarrow> bool" where
  "parents_ok fs path = list_all (\<lambda>n. fs (take n path) \<in> {None, Some OutDir}) [0..<length path]"

definition make_dirs :: "string list list \<Rightarrow> out_files \<Rightarrow> out_files" where
  "make_dirs ps fs = fold (\<lambda>p f. f(p \<mapsto> OutDir)) ps fs"

definition write_new_file ::
    "write_fault option \<Rightarrow> string list \<Rightarrow> string \<Rightarrow> out_files \<Rightarrow> string list ares \<times> out_files" where
  "write_new_file fault path content fs =
     (if fs path \<noteq> None then (Inl (AuthorError OutputExists), fs)
      else if \<not> parents_ok fs path then (Inl (AuthorError OutputNotWritten), fs)
      else let fs' = make_dirs (missing_parents fs path) fs
      in case fault of
           Some (DirFault n) \<Rightarrow>
             (Inl (AuthorError OutputNotWritten), make_dirs (take n (missing_parents fs path)) fs)
         | Some OpenFault \<Rightarrow> (Inl (AuthorError OutputNotWritten), fs')
         | Some (WriteFault n) \<Rightarrow>
             (Inl (AuthorError OutputNotWritten), fs'(path \<mapsto> OutFile (take n content)))
         | None \<Rightarrow> (Inr path, fs'(path \<mapsto> OutFile content)))"

definition make_stub_file ::
    "externals \<Rightarrow> write_fault option \<Rightarrow> string \<Rightarrow> string list \<Rightarrow> out_files
       \<Rightarrow> string list ares \<times> out_files" where
  "make_stub_file ext fault suite_name output fs =
     (case build_stub_suite ext suite_name of
        Inl e \<Rightarrow> (Inl (AuthorError (InvalidStubName e)), fs)
      | Inr s \<Rightarrow> write_new_file fault output (render_stub_suite s) fs)"

end
