(* ===== verification/Author_Facts.thy ===== *)
theory Author_Facts
  imports Author
begin

text \<open>
  What the harvest guarantees: candidates carry the recorded outcome of the artifact they show, the verdict
  stays out of the prompt, duplicates of one content are dropped after the first, identifiers are safe, and
  rendered harvests and stub suites read back.
\<close>

section \<open>Deduplication keeps the first of each content\<close>

text \<open>The elements of a list whose key is neither in \<open>A\<close> nor the key of an earlier element.\<close>

definition firsts :: "('a \<Rightarrow> 'b) \<Rightarrow> 'b set \<Rightarrow> 'a list \<Rightarrow> 'a list" where
  "firsts h A xs = nths xs {i. h (xs ! i) \<notin> A \<union> h ` set (take i xs)}"

lemma firsts_Nil [simp]: "firsts h A [] = []"
  by (simp add: firsts_def)

lemma firsts_Cons:
  "firsts h A (x # xs) = (if h x \<in> A then firsts h A xs else x # firsts h (insert (h x) A) xs)"
  by (cases "h x \<in> A") (auto simp: firsts_def nths_Cons intro!: arg_cong [where f = "nths xs"])

lemma dedupe_loop_firsts:
  "fst (dedupe_loop ext seen unique n items) = rev unique @ firsts (candidate_content_hash ext) seen items"
  "snd (dedupe_loop ext seen unique n items) + length (firsts (candidate_content_hash ext) seen items)
     = n + length items"
  by (induction items arbitrary: seen unique n) (simp_all add: Let_def firsts_Cons)

lemma firsts_distinct:
  "distinct (map h (firsts h A xs)) \<and> h ` set (firsts h A xs) = h ` set xs - A"
proof (induction xs arbitrary: A)
  case (Cons x xs)
  show ?case using Cons.IH [of A] Cons.IH [of "insert (h x) A"] by (auto simp: firsts_Cons)
qed simp

lemma candidate_payload_ok: "json_ok (candidate_payload it)"
  by (simp add: candidate_payload_def)

lemma content_hash_eq:
  assumes "candidate_content_hash ext a = candidate_content_hash ext b"
  shows "it_prompt a = it_prompt b \<and> it_expected a = it_expected b
    \<or> (\<exists>x y. x \<noteq> y \<and> sha256_hex ext x = sha256_hex ext y)"
proof (cases "canonical_dumps (candidate_payload a) = canonical_dumps (candidate_payload b)")
  case True
  from canonical_dumps_inj [OF candidate_payload_ok candidate_payload_ok this] show ?thesis
    by (simp add: candidate_payload_def)
next
  case False
  then show ?thesis using assms by (auto simp: candidate_content_hash_def)
qed

section \<open>Identifiers\<close>

lemma sub_unsafe_safe: "list_all name_char (sub_unsafe r s)"
  by (induction r s rule: sub_unsafe.induct) (auto simp: name_char_def)

lemma slug_safe: "list_all name_char (slug v)" "slug v \<noteq> []"
proof -
  have "set (rev (dropWhile trim_char (rev (dropWhile trim_char (sub_unsafe False v)))))
      \<subseteq> set (sub_unsafe False v)"
    by (auto dest!: set_dropWhileD)
  moreover have "list_all name_char ''artifact''"
    by (simp add: name_char_def is_ascii_alnum_def is_ascii_alpha_def in_rng_def)
  ultimately show "list_all name_char (slug v)"
    using sub_unsafe_safe [of False v] unfolding slug_def Let_def list_all_iff by (simp add: subset_iff)
  show "slug v \<noteq> []" unfolding slug_def Let_def by (simp split: if_split)
qed

definition hex_digests :: "externals \<Rightarrow> bool" where
  "hex_digests ext \<longleftrightarrow>
     (\<forall>s. length (sha256_hex ext s) = 64 \<and> list_all name_char (sha256_hex ext s))"

lemma item_id_safe:
  assumes "safe_name_contract ext" and "hex_digests ext"
    and "all_name_chars prefix" and "list_ex isalnum prefix"
  shows "safe_name_ok ext (author_item_id ext prefix label raw)"
proof -
  let ?i = "author_item_id ext prefix label raw"
  have "list_all name_char (take 12 (sha256_hex ext raw))"
    using assms(2) by (auto simp: hex_digests_def list_all_iff dest: in_set_takeD)
  moreover have "name_char (CHR ''-'')" by (simp add: name_char_def)
  ultimately have ok: "list_all name_char ?i" "list_ex isalnum ?i" "?i \<noteq> []"
    using assms(3,4) slug_safe [of label] by (simp_all add: author_item_id_def all_name_chars_def)
  have "\<not> name_char newline" by (simp add: name_char_def is_ascii_alnum_def is_digit_def
        is_ascii_alpha_def in_rng_def)
  then have "last ?i \<noteq> newline" using ok(1,3) by (metis last_in_set list_all_iff)
  then have "chop_newline ?i = ?i" by (simp add: chop_newline_def)
  then show ?thesis
    using assms(1) ok by (simp add: safe_name_ok_def safe_name_contract_def all_name_chars_def)
qed

lemma half_prior: "prior_ok half"
  by (simp add: prior_ok_def half_def pow10_def)

lemma author_item_Inr:
  "author_item ext i ts p e v = Inr it \<longleftrightarrow>
     it = \<lparr>it_id = i, it_tags = ts, it_prompt = p, it_expected = e, it_prior = half, it_provenance = v\<rparr>
     \<and> item_ok ext it"
  by (auto simp: author_item_def map_errE_Inr_iff Item_init_def bindE_Inr_iff validate_safe_name_Inr
      validate_str_list_Inr validate_nonempty_str_Inr validate_unit_float_JFloat half_prior item_ok_def)

section \<open>Where gold comes from\<close>

text \<open>
  \<open>bad_listed limit m name\<close>: the manifest lists the file, under a safe name, with \<open>verified_fails\<close> true.
  \<open>gold_backed limit ws it\<close>: the label of the candidate is the recorded outcome of the artifact its prompt
  shows; a patch, which has none, is labelled \<open>CURATE\<close>.
\<close>

inductive bad_listed :: "nat \<Rightarrow> source_entry \<Rightarrow> string \<Rightarrow> bool" for limit m where
  "m = Plain t \<Longrightarrow> loads limit t = Inr (JObj d) \<Longrightarrow> fld d ''bads'' = JList es \<Longrightarrow> JObj e \<in> set es \<Longrightarrow>
   fld e ''file'' = JStr name \<Longrightarrow> fld e ''verified_fails'' = JBool True \<Longrightarrow> safe_basename name \<Longrightarrow>
   bad_listed limit m name"

inductive gold_backed :: "nat \<Rightarrow> author_workspace \<Rightarrow> item \<Rightarrow> bool" for limit ws where
  good: "ws_skills ws = Folder gs \<Longrightarrow> g \<in> set gs \<Longrightarrow> \<not> gd_is_link g \<Longrightarrow>
    map_of (gd_entries g) ''good.md'' = Some (Plain t) \<Longrightarrow>
    it_prompt it = golden_prompt t \<Longrightarrow> it_expected it = ''pass'' \<Longrightarrow> ''needs-gold'' \<notin> set (it_tags it) \<Longrightarrow>
    gold_backed limit ws it"
| bad: "ws_skills ws = Folder gs \<Longrightarrow> g \<in> set gs \<Longrightarrow> \<not> gd_is_link g \<Longrightarrow>
    bad_listed limit (gd_manifest g) name \<Longrightarrow> map_of (gd_entries g) name = Some (Plain t) \<Longrightarrow>
    it_prompt it = golden_prompt t \<Longrightarrow> it_expected it = ''flag'' \<Longrightarrow> ''needs-gold'' \<notin> set (it_tags it) \<Longrightarrow>
    gold_backed limit ws it"
| lens: "ws_reviews ws = Folder r \<Longrightarrow> (name, Plain t) \<in> set (rd_entries r) \<Longrightarrow>
    loads limit t = Inr (JObj d) \<Longrightarrow> fld d ''lens_verdicts'' = JList ls \<Longrightarrow> JObj l \<in> set ls \<Longrightarrow>
    fld l ''lens_id'' = JStr lens \<Longrightarrow> lens \<in> {''correctness'', ''style''} \<Longrightarrow>
    fld l ''overall_verdict'' = JStr v \<Longrightarrow>
    it_expected it = ''pass'' \<and> v \<in> set passing_verdicts \<or> it_expected it = ''flag'' \<and> v \<in> set failing_verdicts \<Longrightarrow>
    it_prompt it = review_prompt lens (dumps_indent 2 0 (sort_json (lens_evidence l))) \<Longrightarrow>
    ''needs-gold'' \<notin> set (it_tags it) \<Longrightarrow> gold_backed limit ws it"
| patch: "git_sha commit \<Longrightarrow> ws_git ws (show_args commit) = GitPrinted p \<Longrightarrow> bounded_text_patch p \<Longrightarrow>
    it_prompt it = git_prompt commit p \<Longrightarrow> it_expected it = ''CURATE'' \<Longrightarrow> ''needs-gold'' \<in> set (it_tags it) \<Longrightarrow>
    gold_backed limit ws it"

definition sound_candidate :: "externals \<Rightarrow> nat \<Rightarrow> author_workspace \<Rightarrow> item \<Rightarrow> bool" where
  "sound_candidate ext limit ws it \<longleftrightarrow> gold_backed limit ws it \<and> item_ok ext it \<and> it_prior it = half"

lemma demand_Inr [res_simps]: "demand c e = Inr u \<longleftrightarrow> c"
  by (simp add: demand_def checkE_Inr_iff)

lemma case_list_Inr:
  "(case v of JList es \<Rightarrow> f es | _ \<Rightarrow> Inl e) = Inr y \<longleftrightarrow> (\<exists>es. v = JList es \<and> f es = Inr y)"
  by (cases v) auto

lemma case_obj_Inr:
  "(case v of JObj d \<Rightarrow> f d | _ \<Rightarrow> Inl e) = Inr y \<longleftrightarrow> (\<exists>d. v = JObj d \<and> f d = Inr y)"
  by (cases v) auto

lemma case_obj_list:
  "(case v of JObj d \<Rightarrow> g d | _ \<Rightarrow> JNull) = JList es \<longleftrightarrow> (\<exists>d. v = JObj d \<and> g d = JList es)"
  by (cases v) auto

lemma read_workspace_file_Inr:
  "read_workspace_file e = Inr t \<longleftrightarrow> e = Plain t \<and> utf8_size t \<le> max_artifact_bytes"
  by (cases e rule: read_workspace_file.cases)
    (auto simp: read_bounded_def bindE_Inr_iff demand_Inr split: option.splits)

lemma inside_workspace_Inr: "inside_workspace e f = Inr x \<longleftrightarrow> f = Folder x"
  by (auto simp: inside_workspace_def split: folder.splits)

lemma author_loads_Inr: "author_loads limit e t = Inr j \<longleftrightarrow> loads limit t = Inr j"
  by (simp add: author_loads_def map_errE_Inr_iff)

lemma entry_of_Plain:
  "entry_of d name = Inr (Plain t) \<Longrightarrow> map_of d name = Some (Plain t)"
  by (auto simp: entry_of_def split: if_splits option.splits)

lemma bad_entry_Inr:
  "bad_entry i j = Inr (Some f) \<Longrightarrow> \<exists>e. j = JObj e \<and> fld e ''file'' = JStr f
     \<and> fld e ''verified_fails'' = JBool True \<and> safe_basename f"
  by (auto simp: bad_entry_def bindE_Inr_iff demand_Inr split: json.splits if_splits)

lemma bad_entries_Inr:
  "bad_entries i es = Inr fs \<Longrightarrow> f \<in> set fs \<Longrightarrow>
     \<exists>e. JObj e \<in> set es \<and> fld e ''file'' = JStr f \<and> fld e ''verified_fails'' = JBool True \<and> safe_basename f"
proof (induction es arbitrary: i fs)
  case (Cons j es)
  from Cons.prems(1) obtain b bs where "bad_entry i j = Inr b" "bad_entries (Suc i) es = Inr bs"
    "fs = (case b of None \<Rightarrow> bs | Some g \<Rightarrow> g # bs)"
    by (auto simp: bindE_Inr_iff)
  then show ?case
    using Cons.IH [of "Suc i" bs] Cons.prems(2) bad_entry_Inr [of i j f] by (cases b) auto
qed simp

lemma manifest_bad_files_Inr:
  assumes "manifest_bad_files limit m = Inr fs" and "f \<in> set fs"
  shows "bad_listed limit m f"
proof -
  obtain t d es fs' where "read_workspace_file m = Inr t" "loads limit t = Inr (JObj d)"
    "fld d ''bads'' = JList es" "bad_entries 0 es = Inr fs'" "fs = fromkeys fs'"
    using assms(1) unfolding manifest_bad_files_def bindE_Inr_iff author_loads_Inr case_list_Inr case_obj_Inr
    by blast
  with assms(2) bad_entries_Inr [of 0 es fs' f] show ?thesis
    by (auto simp: read_workspace_file_Inr intro: bad_listed.intros)
qed

lemma golden_dir_backed:
  assumes "harvest_golden_dir ext limit g = Inr its" and "it \<in> set its"
    and "ws_skills ws = Folder gs" and "g \<in> set gs"
  shows "sound_candidate ext limit ws it"
proof -
  obtain place approved srcs where l: "\<not> gd_is_link g"
    and m: "manifest_bad_files limit (gd_manifest g) = Inr approved"
    and s: "golden_sources g approved = Inr srcs"
    and i: "mapE (\<lambda>(name, expected). bindE (entry_of (gd_entries g) name) (\<lambda>e.
      bindE (read_workspace_file e) (\<lambda>raw. golden_item ext (gd_skill g) place name expected raw))) srcs = Inr its"
    using assms(1) by (auto simp: harvest_golden_dir_def bindE_Inr_iff demand_Inr)
  obtain name expected t where n: "(name, expected) \<in> set srcs"
    and t: "map_of (gd_entries g) name = Some (Plain t)"
    and it: "golden_item ext (gd_skill g) place name expected t = Inr it"
    using mapE_in_set [OF i assms(2)]
    by (fastforce simp: bindE_Inr_iff read_workspace_file_Inr dest: entry_of_Plain)
  have gold: "it_prompt it = golden_prompt t" "it_expected it = expected"
    "it_tags it = [''golden'', ''skill-eval'', ''skill-'' @ slug (gd_skill g), expected]"
    "item_ok ext it" "it_prior it = half"
    using it unfolding golden_item_def author_item_Inr by auto
  from n s have "name = ''good.md'' \<and> expected = ''pass'' \<or> name \<in> set approved \<and> expected = ''flag''"
    by (auto simp: golden_sources_def bindE_Inr_iff split: if_splits)
  then show ?thesis
  proof
    assume "name = ''good.md'' \<and> expected = ''pass''"
    with gold t have "gold_backed limit ws it"
      by (intro gold_backed.good [OF assms(3,4) l, where t = t]) auto
    with gold show ?thesis by (simp add: sound_candidate_def)
  next
    assume "name \<in> set approved \<and> expected = ''flag''"
    with gold t manifest_bad_files_Inr [OF m] have "gold_backed limit ws it"
      by (intro gold_backed.bad [OF assms(3,4) l, where name = name and t = t]) auto
    with gold show ?thesis by (simp add: sound_candidate_def)
  qed
qed

lemma scored_lens_Inr:
  "scored_lens v = Inr (Some l) \<longleftrightarrow> v = JStr l \<and> l \<in> {''correctness'', ''style''}"
  by (cases v) (auto simp: scored_lens_def)

lemma review_expected_Inr:
  "review_expected l v = Inr (Some e) \<Longrightarrow> \<exists>s. v = JStr s \<and>
     (e = ''pass'' \<and> s \<in> set passing_verdicts \<or> e = ''flag'' \<and> s \<in> set failing_verdicts)"
  by (cases v) (auto simp: review_expected_def split: if_splits)

lemma lens_item_Inr:
  assumes "lens_item ext dl place name raw i j = Inr its" and "it \<in> set its"
  shows "\<exists>d lens expected evidence. j = JObj d \<and> scored_lens (fld d ''lens_id'') = Inr (Some lens)
    \<and> review_expected lens (fld d ''overall_verdict'') = Inr (Some expected)
    \<and> evidence = dumps_indent 2 0 (sort_json (lens_evidence d)) \<and> its = [it]
    \<and> it_prompt it = review_prompt lens evidence \<and> it_expected it = expected
    \<and> it_tags it = [''review-deep'', ''review'', lens, expected] \<and> item_ok ext it \<and> it_prior it = half"
proof (cases j)
  case (JObj d)
  obtain l where "scored_lens (fld d ''lens_id'') = Inr l"
    using assms JObj by (auto simp: lens_item_def bindE_Inr_iff)
  moreover from this assms JObj obtain lens where "l = Some lens"
    by (cases l) (auto simp: lens_item_def)
  moreover from calculation assms JObj obtain e where
      "review_expected lens (fld d ''overall_verdict'') = Inr (Some e)"
    by (auto simp: lens_item_def bindE_Inr_iff split: option.splits)
  ultimately show ?thesis
    using assms JObj
    by (auto simp: lens_item_def bindE_Inr_iff indent_dumps_def author_item_Inr split: if_splits)
qed (use assms in \<open>auto simp: lens_item_def\<close>)

lemma lens_items_Inr:
  "lens_items ext dl place name raw i ls = Inr its \<Longrightarrow> it \<in> set its \<Longrightarrow>
     \<exists>k l its'. l \<in> set ls \<and> lens_item ext dl place name raw k l = Inr its' \<and> it \<in> set its'"
proof (induction ls arbitrary: i its)
  case (Cons l ls)
  then show ?case by (fastforce simp: bindE_Inr_iff)
qed simp

lemma fixture_Inr:
  "harvest_fixture ext limit dl place (name, e) = Inr its \<longleftrightarrow>
     (\<exists>t d ls. read_workspace_file e = Inr t \<and> loads limit t = Inr (JObj d)
        \<and> fld d ''lens_verdicts'' = JList ls \<and> lens_items ext dl place name t 0 ls = Inr its)"
  unfolding harvest_fixture_def prod.case bindE_Inr_iff author_loads_Inr case_list_Inr case_obj_list by blast

lemma fixture_backed:
  assumes "harvest_fixture ext limit dl place (name, e) = Inr its" and "it \<in> set its"
    and "ws_reviews ws = Folder r" and "(name, e) \<in> set (rd_entries r)"
  shows "sound_candidate ext limit ws it"
proof -
  obtain t d ls where e: "e = Plain t" "loads limit t = Inr (JObj d)" "fld d ''lens_verdicts'' = JList ls"
    and "lens_items ext dl place name t 0 ls = Inr its"
    using assms(1) by (auto simp: fixture_Inr read_workspace_file_Inr)
  from lens_items_Inr [OF this(4) assms(2)] obtain k l its' where
    "l \<in> set ls" "lens_item ext dl place name t k l = Inr its'" "it \<in> set its'" by blast
  with lens_item_Inr [OF this(2,3)] e assms(3,4) show ?thesis
    by (fastforce simp: scored_lens_Inr sound_candidate_def dest!: review_expected_Inr intro: gold_backed.lens)
qed

lemma commit_backed:
  assumes "commit_items ext ws commit = Inr its" and "it \<in> set its"
  shows "sound_candidate ext limit ws it"
proof -
  obtain p where p: "git_sha commit" "git ws (show_args commit) = Inr p" "bounded_text_patch p"
    "author_item ext (author_item_id ext ''git'' (take 12 commit) p)
       [''git-history'', ''needs-gold'', ''candidate-only''] (git_prompt commit p) ''CURATE''
       (''harvested:git:'' @ commit @ '';sha256='' @ sha256_hex ext p) = Inr it"
    using assms by (auto simp: commit_items_def bindE_Inr_iff demand_Inr split: if_splits)
  from p(2) have "ws_git ws (show_args commit) = GitPrinted p"
    by (simp add: git_def split: git_run.splits)
  with p(1,3,4) have "gold_backed limit ws it"
    by (intro gold_backed.patch [where commit = commit and p = p]) (simp_all add: author_item_Inr)
  with p(4) show ?thesis unfolding sound_candidate_def author_item_Inr by auto
qed


lemma goldens_backed:
  assumes "harvest_goldens ext limit ws = Inr its" and "it \<in> set its"
  shows "sound_candidate ext limit ws it"
proof -
  obtain gs groups where s: "ws_skills ws = Folder gs"
    and g: "mapE (harvest_golden_dir ext limit) (sort_key gd_skill gs) = Inr groups" and "its = concat groups"
    using assms(1) by (auto simp: harvest_goldens_def bindE_Inr_iff inside_workspace_Inr)
  with assms(2) obtain its' where "its' \<in> set groups" "it \<in> set its'" by auto
  with mapE_in_set [OF g this(1)] golden_dir_backed s show ?thesis by fastforce
qed

lemma reviews_backed:
  assumes "harvest_review_deep ext limit dl ws = Inr its" and "it \<in> set its"
  shows "sound_candidate ext limit ws it"
proof -
  obtain r groups where s: "ws_reviews ws = Folder r"
    and g: "mapE (harvest_fixture ext limit dl (rd_place r))
      (sort_key fst (filter (\<lambda>ne. json_suffix (fst ne)) (rd_entries r))) = Inr groups"
    and "its = concat groups"
    using assms(1) by (auto simp: harvest_review_deep_def bindE_Inr_iff inside_workspace_Inr)
  with assms(2) obtain its' where "its' \<in> set groups" "it \<in> set its'" by auto
  with mapE_in_set [OF g this(1)] fixture_backed s show ?thesis by fastforce
qed

lemma patches_backed:
  assumes "harvest_git_history ext ws n = Inr its" and "it \<in> set its"
  shows "sound_candidate ext limit ws it"
proof -
  obtain commits groups where g: "mapE (commit_items ext ws) commits = Inr groups" and "its = concat groups"
    using assms(1) by (auto simp: harvest_git_history_def bindE_Inr_iff Let_def)
  with assms(2) obtain its' where "its' \<in> set groups" "it \<in> set its'" by auto
  with mapE_in_set [OF g this(1)] commit_backed show ?thesis by fastforce
qed

lemma harvest_Inr:
  assumes "harvest ext limit dl source ws = Inr r"
  obtains groups where "mapE (harvest_source ext limit dl ws)
      (if source = ''all'' then [''goldens'', ''review-deep'', ''git''] else [source]) = Inr groups"
    and "(hr_candidates r, hr_dropped r) = deduplicate_candidates ext (concat groups)"
    and "hr_source r = source" and "source \<in> set source_names"
proof -
  from assms obtain groups where g: "mapE (harvest_source ext limit dl ws)
      (if source = ''all'' then [''goldens'', ''review-deep'', ''git''] else [source]) = Inr groups"
    and n: "source \<in> set source_names"
    and r: "(case deduplicate_candidates ext (concat groups) of (unique, duplicates) \<Rightarrow>
      Inr \<lparr>hr_source = source, hr_candidates = unique, hr_dropped = duplicates\<rparr>) = (Inr r :: harvest_result ares)"
    unfolding harvest_def bindE_Inr_iff demand_Inr Let_def by blast
  from r have "r = \<lparr>hr_source = source, hr_candidates = fst (deduplicate_candidates ext (concat groups)),
      hr_dropped = snd (deduplicate_candidates ext (concat groups))\<rparr>"
    by (auto simp: case_prod_beta)
  with g n show ?thesis using that by simp
qed

lemma set_firsts: "set (firsts h A xs) \<subseteq> set xs"
  by (simp add: firsts_def set_nths_subset)

lemma harvest_candidate:
  assumes "harvest ext limit dl source ws = Inr r" and "it \<in> set (hr_candidates r)"
  obtains name its where "harvest_source ext limit dl ws name = Inr its" and "it \<in> set its"
  using assms(1)
proof (rule harvest_Inr)
  fix groups
  assume g: "mapE (harvest_source ext limit dl ws)
      (if source = ''all'' then [''goldens'', ''review-deep'', ''git''] else [source]) = Inr groups"
    and d: "(hr_candidates r, hr_dropped r) = deduplicate_candidates ext (concat groups)"
  from d assms(2) have "it \<in> set (concat groups)"
    using set_firsts dedupe_loop_firsts(1) [of ext "{}" "[]" 0 "concat groups"]
    by (metis append_Nil deduplicate_candidates_def fst_conv rev.simps(1) subsetD)
  then obtain its where "its \<in> set groups" "it \<in> set its" by auto
  with mapE_in_set [OF g this(1)] that show ?thesis by blast
qed

lemma source_backed:
  "harvest_source ext limit dl ws name = Inr its \<Longrightarrow> it \<in> set its \<Longrightarrow> sound_candidate ext limit ws it"
  by (auto simp: harvest_source_def intro: goldens_backed reviews_backed patches_backed split: if_splits)

lemma harvest_sound:
  assumes "harvest ext limit dl source ws = Inr r" and "it \<in> set (hr_candidates r)"
  shows "sound_candidate ext limit ws it"
  by (rule harvest_candidate [OF assms]) (rule source_backed)

section \<open>The item constructor never raises\<close>

text \<open>\<open>no_suite_error r\<close>: what \<open>r\<close> raises, if anything, is not a \<open>SuiteError\<close>.\<close>

definition no_suite_error :: "'a ares \<Rightarrow> bool" where
  "no_suite_error r \<longleftrightarrow> (\<forall>e. r \<noteq> Inl (AuthorSuiteError e))"

named_theorems raises "what a harvest step can raise"

lemma no_suite_error_simps [raises]:
  "no_suite_error (Inr x)" "no_suite_error (demand c e)" "no_suite_error (Inl (AuthorError a))"
  "no_suite_error (Inl AuthorValueError)" "no_suite_error (Inl AuthorTypeError)"
  "no_suite_error (Inl AuthorRecursionError)"
  by (simp_all add: no_suite_error_def demand_def checkE_def)

lemma no_suite_error_bind:
  "no_suite_error r \<Longrightarrow> (\<And>x. r = Inr x \<Longrightarrow> no_suite_error (f x)) \<Longrightarrow> no_suite_error (bindE r f)"
  by (cases r) (auto simp: no_suite_error_def)

lemma no_suite_error_mapE:
  "(\<And>x. x \<in> set xs \<Longrightarrow> no_suite_error (f x)) \<Longrightarrow> no_suite_error (mapE f xs)"
  by (induction xs) (auto intro!: no_suite_error_bind simp: raises)

lemma no_suite_error_steps [raises]:
  "no_suite_error (workspace_root ws)" "no_suite_error (inside_workspace e f)"
  "no_suite_error (read_workspace_file s)" "no_suite_error (entry_of d n)"
  "no_suite_error (author_loads limit e t)" "no_suite_error (scored_lens v)"
  "no_suite_error (review_expected l v)" "no_suite_error (indent_dumps dl j)"
  "no_suite_error (git ws args)"
proof -
  show "no_suite_error (read_workspace_file s)"
    by (cases s rule: read_workspace_file.cases)
      (auto simp: read_bounded_def raises intro!: no_suite_error_bind split: option.split)
  show "no_suite_error (author_loads limit e t)"
    by (auto simp: author_loads_def no_suite_error_def map_errE_Inl_iff split: json_exn.split)
qed (auto simp: workspace_root_def inside_workspace_def entry_of_def scored_lens_def review_expected_def
      indent_dumps_def git_def raises split: folder.split json.split git_run.split)

lemma no_suite_error_bad_entries [raises]: "no_suite_error (bad_entries i es)"
proof (induction i es rule: bad_entries.induct)
  case (2 i e es)
  have "no_suite_error (bad_entry i e)"
    by (auto simp: bad_entry_def raises intro!: no_suite_error_bind split: json.split)
  with 2 show ?case by (auto simp: raises intro!: no_suite_error_bind)
qed (simp add: raises)

lemma no_suite_error_manifest [raises]: "no_suite_error (manifest_bad_files limit m)"
  by (auto simp: manifest_bad_files_def raises intro!: no_suite_error_bind split: json.split)

lemma author_item_never_raises:
  assumes "safe_name_contract ext" and "hex_digests ext" and "[] \<notin> set ts" and "p \<noteq> []" and "e \<noteq> []" and "v \<noteq> []"
    and "prefix \<in> {''golden'', ''review'', ''git''}"
  shows "no_suite_error (author_item ext (author_item_id ext prefix label raw) ts p e v)"
proof -
  have "all_name_chars prefix" "list_ex isalnum prefix"
    using assms(7) by (auto simp: all_name_chars_def name_char_def isalnum_def is_ascii_alnum_def
        is_ascii_alpha_def in_rng_def)
  then have "safe_name_ok ext (author_item_id ext prefix label raw)"
    by (rule item_id_safe [OF assms(1,2)])
  with assms(3-6) have "\<exists>it. author_item ext (author_item_id ext prefix label raw) ts p e v = Inr it"
    by (auto simp: author_item_Inr item_ok_def half_prior)
  then show ?thesis by (auto simp: raises)
qed


lemma golden_sources_mem:
  "golden_sources g approved = Inr srcs \<Longrightarrow> (name, expected) \<in> set srcs \<Longrightarrow> expected \<in> {''pass'', ''flag''}"
  by (auto simp: golden_sources_def bindE_Inr_iff split: if_splits)

lemma golden_dir_raises:
  assumes "safe_name_contract ext" and "hex_digests ext"
  shows "no_suite_error (harvest_golden_dir ext limit g)"
  unfolding harvest_golden_dir_def
proof (intro no_suite_error_bind no_suite_error_mapE; (simp add: raises; fail)?)
  show "no_suite_error (golden_sources g approved)" for approved
    by (auto simp: golden_sources_def raises intro!: no_suite_error_bind)
  fix place approved srcs x
  assume "golden_sources g approved = Inr srcs" and x: "x \<in> set srcs"
  then have e: "snd x \<noteq> []" using golden_sources_mem [of g approved srcs "fst x" "snd x"] by auto
  show "no_suite_error (case x of (name, expected) \<Rightarrow> bindE (entry_of (gd_entries g) name) (\<lambda>e.
      bindE (read_workspace_file e) (\<lambda>raw. golden_item ext (gd_skill g) place name expected raw)))"
    using e unfolding golden_item_def case_prod_beta
    by (intro no_suite_error_bind author_item_never_raises [OF assms])
      (auto simp: raises golden_prompt_def source_provenance_def)
qed

lemma lens_raises:
  assumes "safe_name_contract ext" and "hex_digests ext"
  shows "no_suite_error (lens_items ext dl place name raw i ls)"
proof (induction ls arbitrary: i)
  case (Cons l ls)
  have "no_suite_error (lens_item ext dl place name raw i l)"
  proof (cases l)
    case (JObj d)
    have "no_suite_error (author_item ext (author_item_id ext ''review'' (stem name @ ''-'' @ lens) (raw @ lens))
        [''review-deep'', ''review'', lens, expected] (review_prompt lens evidence)
        expected (source_provenance ext (place @ ''/'' @ name) raw))"
      if "scored_lens (fld d ''lens_id'') = Inr (Some lens)" "review_expected lens v = Inr (Some expected)"
      for lens expected evidence v
      using that by (intro author_item_never_raises [OF assms])
        (auto simp: scored_lens_Inr review_prompt_def source_provenance_def dest!: review_expected_Inr)
    then show ?thesis
      unfolding lens_item_def JObj json.case
      by (intro no_suite_error_bind) (auto simp: raises intro!: no_suite_error_bind split: option.split)
  qed (simp_all add: lens_item_def raises)
  then show ?case using Cons.IH by (auto simp: raises intro!: no_suite_error_bind)
qed (simp add: raises)

lemma commit_raises:
  assumes "safe_name_contract ext" and "hex_digests ext"
  shows "no_suite_error (commit_items ext ws commit)"
proof -
  have "no_suite_error (author_item ext (author_item_id ext ''git'' (take 12 commit) p)
      [''git-history'', ''needs-gold'', ''candidate-only''] (git_prompt commit p) ''CURATE''
      (''harvested:git:'' @ commit @ '';sha256='' @ sha256_hex ext p))" for p
    by (intro author_item_never_raises [OF assms]) (auto simp: git_prompt_def)
  then show ?thesis
    unfolding commit_items_def by (intro no_suite_error_bind) (auto simp: raises intro!: no_suite_error_bind)
qed

lemma source_raises:
  assumes "safe_name_contract ext" and "hex_digests ext"
  shows "no_suite_error (harvest_source ext limit dl ws name)"
proof -
  have "no_suite_error (harvest_fixture ext limit dl place x)" for place x
    unfolding harvest_fixture_def case_prod_beta
    by (intro no_suite_error_bind) (auto simp: raises lens_raises [OF assms] split: json.split)
  then show ?thesis
    unfolding harvest_source_def harvest_goldens_def harvest_review_deep_def harvest_git_history_def Let_def
    by (auto simp: raises golden_dir_raises [OF assms] commit_raises [OF assms]
        intro!: no_suite_error_bind no_suite_error_mapE)
qed

section \<open>Rendered texts read back\<close>

lemma item_sorted_roundtrip:
  "item_ok ext it \<Longrightarrow> Item_from_mapping ext (sort_json (item_asdict it)) = Inr it"
  by (auto simp: Item_from_mapping_def sort_item_asdict bindE_Inr_iff
      reject_unknown_and_missing_Inr item_fields_def keys_def fld_Cons Item_init_def
      validate_safe_name_Inr validate_str_list_Inr validate_nonempty_str_Inr
      validate_unit_float_JFloat item_ok_def strs_json_def)

lemma items_sorted_roundtrip:
  "list_all (item_ok ext) its \<Longrightarrow>
     mapE (Item_from_mapping ext) (map (\<lambda>it. sort_json (item_asdict it)) its) = Inr its"
  using mapE_map_Inr [of its "Item_from_mapping ext" "\<lambda>it. sort_json (item_asdict it)" "\<lambda>it. it"]
  by (simp add: list_all_iff item_sorted_roundtrip)

lemma scoring_sorted_roundtrip:
  "scoring_ok sc \<Longrightarrow> ScoringSpec_from_mapping (sort_json (scoring_asdict sc)) = Inr sc"
  by (cases "sc_labels sc")
    (auto simp: ScoringSpec_from_mapping_def scoring_asdict_def bindE_Inr_iff strs_json_def comp_def
      reject_unknown_and_missing_Inr scoring_fields_def keys_def fld_Cons fld_default_Cons
      ScoringSpec_init_Inr scoring_labels_Inr scoring_ok_def)

lemma depth_strs: "depth (strs_json xs) \<le> 1"
proof -
  have "fold max (map (\<lambda>x. 0) xs) 0 \<le> (0 :: nat)" by (subst fold_max_le) auto
  then show ?thesis by (simp add: strs_json_def comp_def)
qed

lemma depth_item: "depth (item_asdict it) \<le> 2"
  using depth_strs [of "it_tags it"] by (simp add: item_asdict_def)

lemma loads_rendered:
  assumes "json_ok j" and "depth j \<le> limit"
  shows "loads limit (dumps_indent 2 0 (sort_json j) @ [newline]) = Inr (sort_json j)"
  using assms by (intro loads_indent json_ok_sort le_trans [OF depth_sort])

lemma half_ok: "flt_ok half"
  by (simp add: half_def)


lemma render_harvest_loads:
  assumes "list_all (\<lambda>it. item_ok ext it \<and> it_prior it = half) (hr_candidates r)"
    and "json_ok (JInt (int (hr_dropped r)))" and "4 \<le> limit"
  shows "\<exists>d js. loads limit (render_harvest r) = Inr (JObj d) \<and> fld d ''candidates'' = JList js
    \<and> mapE (Item_from_mapping ext) js = Inr (hr_candidates r)
    \<and> fld d ''duplicates_dropped'' = JInt (int (hr_dropped r)) \<and> fld d ''source'' = JStr (hr_source r)"
proof -
  let ?j = "JObj [(''candidates'', JList (map item_asdict (hr_candidates r))),
     (''duplicates_dropped'', JInt (int (hr_dropped r))), (''source'', JStr (hr_source r))]"
  have "json_ok ?j"
    using assms(1,2) by (auto simp: list_all_iff item_json_ok half_ok)
  moreover have "depth ?j \<le> limit"
  proof -
    have "fold max (map depth (map item_asdict (hr_candidates r))) 0 \<le> 2"
      by (subst fold_max_le) (auto simp: depth_item)
    then show ?thesis using assms(3) by simp
  qed
  ultimately have "loads limit (render_harvest r) = Inr (sort_json ?j)"
    unfolding render_harvest_def by (rule loads_rendered)
  then show ?thesis
    using items_sorted_roundtrip [of ext "hr_candidates r"] assms(1)
    by (auto simp: fld_Cons comp_def list_all_iff)
qed

lemma stub_payload_loads:
  assumes "suite_ok ext s" and "list_all (\<lambda>it. it_prior it = half) (su_items s)"
    and "json_ok (JInt (su_version s))" and "4 \<le> limit"
  shows "load_suite ext limit (FileText (render_stub_suite s)) = Inr s"
proof -
  have "json_ok (scoring_asdict (su_scoring s))"
    by (simp add: scoring_asdict_def json_ok_strs split: option.split)
  then have "json_ok (stub_payload s)"
    using assms(2,3) by (auto simp: stub_payload_def list_all_iff item_json_ok half_ok)
  moreover have "depth (stub_payload s) \<le> limit"
  proof -
    have "fold max (map depth (map item_asdict (su_items s))) 0 \<le> 2"
      by (subst fold_max_le) (auto simp: depth_item)
    moreover have "depth (scoring_asdict (su_scoring s)) \<le> 2"
      using depth_strs by (auto simp: scoring_asdict_def le_Suc_eq numeral_2_eq_2 split: option.split)
    ultimately show ?thesis using assms(4) by (simp add: stub_payload_def)
  qed
  ultimately have "loads limit (render_stub_suite s) = Inr (sort_json (stub_payload s))"
    unfolding render_stub_suite_def by (rule loads_rendered)
  moreover have "Suite_from_mapping ext (sort_json (stub_payload s)) = Inr s"
    using assms(1) items_sorted_roundtrip [of ext "su_items s"]
    by (auto simp: Suite_from_mapping_def stub_payload_def bindE_Inr_iff comp_def
        reject_unknown_and_missing_Inr suite_fields_def keys_def fld_Cons scoring_sorted_roundtrip
        Suite_init_Inr suite_ok_def)
  ultimately show ?thesis by (simp add: load_suite_def stub_payload_def)
qed

section \<open>Output files\<close>

lemma make_dirs_apply: "make_dirs ps fs p = (if p \<in> set ps then Some OutDir else fs p)"
  unfolding make_dirs_def by (induction ps arbitrary: fs) auto

lemma write_new_file_keeps:
  assumes "write_new_file fault path content fs = (r, fs')" and "fs p = Some n"
  shows "fs' p = Some n"
proof -
  have "p \<notin> set (missing_parents fs path)" "p \<notin> set (take k (missing_parents fs path))" for k
    using assms(2) by (auto simp: missing_parents_def dest!: in_set_takeD)
  then show ?thesis
    using assms by (auto simp: write_new_file_def Let_def make_dirs_apply
        split: if_splits option.splits write_fault.splits)
qed

lemma write_new_file_Inr:
  "write_new_file fault path content fs = (Inr p, fs') \<Longrightarrow>
     p = path \<and> fs path = None \<and> fs' path = Some (OutFile content)"
  by (auto simp: write_new_file_def Let_def split: if_splits option.splits write_fault.splits)

lemma stub_suite_Inr:
  assumes "build_stub_suite ext name = Inr s"
  shows "suite_ok ext s \<and> su_name s = name \<and> su_version s = 1 \<and> list_all (\<lambda>it. it_prior it = half) (su_items s)"
proof -
  from assms obtain sc it where sc: "ScoringSpec_init (JStr ''verdict'') (strs_json [''pass'', ''flag'']) (JBool False) = Inr sc"
    and it: "Item_init ext (JStr (name @ ''-template'')) (strs_json [''template'', ''needs-curation''])
      (JStr stub_prompt) (JStr ''pass'') (JFloat half) (JStr ''authored:template-needs-curation'') = Inr it"
    and s: "Suite_init ext (JStr name) (JInt 1) (JStr stub_description) (JStr ''unassigned'') sc [it] = Inr s"
    by (auto simp: build_stub_suite_def bindE_Inr_iff)
  from it have "it_prior it = half"
    by (auto simp: Item_init_def bindE_Inr_iff validate_unit_float_JFloat half_prior)
  moreover from s have f: "su_items s = [it]" "su_scoring s = sc" "su_name s = name" "su_version s = 1"
    by (auto simp: Suite_init_Inr)
  moreover have "suite_ok ext s"
    using s ScoringSpec_init_ok [OF sc] Item_init_ok [OF it] by (auto simp: Suite_init_Inr suite_ok_def f)
  ultimately show ?thesis by simp
qed

section \<open>The verdict stays out of the prompt\<close>

text \<open>Two lenses that differ at most in a verdict that is \<open>SKIPPED\<close> in both or in neither.\<close>

definition verdict_blind :: "json \<Rightarrow> json \<Rightarrow> bool" where
  "verdict_blind l l' \<longleftrightarrow> (\<exists>d d'. l = JObj d \<and> l' = JObj d'
     \<and> filter (\<lambda>kv. fst kv \<noteq> ''overall_verdict'') d = filter (\<lambda>kv. fst kv \<noteq> ''overall_verdict'') d'
     \<and> (fld d ''overall_verdict'' = JStr ''SKIPPED'' \<longleftrightarrow> fld d' ''overall_verdict'' = JStr ''SKIPPED''))"

definition fixture_blind :: "nat \<Rightarrow> string \<Rightarrow> string \<Rightarrow> bool" where
  "fixture_blind limit t t' \<longleftrightarrow> (\<exists>d d' ls ls'. loads limit t = Inr (JObj d) \<and> loads limit t' = Inr (JObj d')
     \<and> fld d ''lens_verdicts'' = JList ls \<and> fld d' ''lens_verdicts'' = JList ls' \<and> list_all2 verdict_blind ls ls')"

lemma fld_filter: "P k \<Longrightarrow> fld (filter (\<lambda>kv. P (fst kv)) d) k = fld d k"
  by (induction d) (auto simp: fld_def)

lemma evidence_blind:
  assumes "filter (\<lambda>kv. fst kv \<noteq> ''overall_verdict'') d = filter (\<lambda>kv. fst kv \<noteq> ''overall_verdict'') d'"
  shows "lens_evidence d = lens_evidence d'" "fld d ''lens_id'' = fld d' ''lens_id''"
proof -
  have e: "lens_evidence d = lens_evidence' (filter (\<lambda>kv. fst kv \<noteq> ''overall_verdict'') d)"
    if "lens_evidence' = lens_evidence" for lens_evidence' d
    using that by (auto simp: lens_evidence_def evidence_keys_def intro!: arg_cong [where f = JObj] filter_cong)
  show "lens_evidence d = lens_evidence d'" using e [of lens_evidence d] e [of lens_evidence d'] assms by simp
  show "fld d ''lens_id'' = fld d' ''lens_id''"
    using fld_filter [of "\<lambda>k. k \<noteq> ''overall_verdict''" "''lens_id''" d]
      fld_filter [of "\<lambda>k. k \<noteq> ''overall_verdict''" "''lens_id''" d'] assms by simp
qed

lemma review_expected_None: "review_expected l v = Inr None \<longleftrightarrow> v = JStr ''SKIPPED''"
  by (cases v) (auto simp: review_expected_def passing_verdicts_def failing_verdicts_def)

lemma review_expected_skipped [simp]: "review_expected l (JStr ''SKIPPED'') = Inr None"
  by (simp add: review_expected_None)

lemma lens_item_prompts:
  "lens_item ext dl place name raw i (JObj d) = Inr its \<Longrightarrow>
     map it_prompt its = (case scored_lens (fld d ''lens_id'') of
       Inr (Some lens) \<Rightarrow>
         (if fld d ''overall_verdict'' = JStr ''SKIPPED'' then []
          else [review_prompt lens (dumps_indent 2 0 (sort_json (lens_evidence d)))])
     | _ \<Rightarrow> [])"
  by (auto simp: lens_item_def bindE_Inr_iff indent_dumps_def author_item_Inr review_expected_None
      split: option.splits if_splits sum.splits)


lemma lens_items_blind:
  assumes "list_all2 verdict_blind ls ls'"
    and "lens_items ext dl place name raw i ls = Inr its" and "lens_items ext dl place' name raw' i ls' = Inr its'"
  shows "map it_prompt its = map it_prompt its'"
  using assms
proof (induction ls ls' arbitrary: i its its' rule: list_all2_induct)
  case (Cons l ls l' ls')
  from Cons.prems obtain xs ys xs' ys' where
    h: "lens_item ext dl place name raw i l = Inr xs" "lens_item ext dl place' name raw' i l' = Inr xs'"
    and t: "lens_items ext dl place name raw (Suc i) ls = Inr ys" "lens_items ext dl place' name raw' (Suc i) ls' = Inr ys'"
    and its: "its = xs @ ys" "its' = xs' @ ys'"
    by (auto simp: bindE_Inr_iff)
  from Cons.hyps(1) obtain d d' where d: "l = JObj d" "l' = JObj d'"
    and f: "filter (\<lambda>kv. fst kv \<noteq> ''overall_verdict'') d = filter (\<lambda>kv. fst kv \<noteq> ''overall_verdict'') d'"
    and s: "fld d ''overall_verdict'' = JStr ''SKIPPED'' \<longleftrightarrow> fld d' ''overall_verdict'' = JStr ''SKIPPED''"
    by (auto simp: verdict_blind_def)
  have "map it_prompt xs = map it_prompt xs'"
    unfolding lens_item_prompts [OF h(1) [unfolded d]] lens_item_prompts [OF h(2) [unfolded d]]
      evidence_blind [OF f] s by (rule refl)
  with Cons.IH [OF t] its show ?case by simp
qed simp

lemma fixture_prompts:
  assumes "fixture_blind limit t t'"
    and "harvest_fixture ext limit dl place (name, Plain t) = Inr its"
    and "harvest_fixture ext limit dl place' (name, Plain t') = Inr its'"
  shows "map it_prompt its = map it_prompt its'"
proof -
  obtain ls ls' where "list_all2 verdict_blind ls ls'"
    "lens_items ext dl place name t 0 ls = Inr its" "lens_items ext dl place' name t' 0 ls' = Inr its'"
    using assms by (auto simp: fixture_blind_def fixture_Inr read_workspace_file_Inr simp del: read_workspace_file.simps)
  then show ?thesis by (rule lens_items_blind)
qed

lemma sort_key_pairs: "sort_key fst (map (\<lambda>n. (n, f n)) ns) = map (\<lambda>n. (n, f n)) (sort ns)"
proof -
  have "insort_key fst (n, f n) (map (\<lambda>n. (n, f n)) ns) = map (\<lambda>n. (n, f n)) (insort n ns)" for n ns
    by (induction ns) auto
  then show ?thesis by (induction ns) simp_all
qed

lemma fixtures_prompts:
  assumes "\<forall>n \<in> set ns. fixture_blind limit (f n) (g n)"
    and "mapE (harvest_fixture ext limit dl place) (map (\<lambda>n. (n, Plain (f n))) ns) = Inr groups"
    and "mapE (harvest_fixture ext limit dl place') (map (\<lambda>n. (n, Plain (g n))) ns) = Inr groups'"
  shows "map (map it_prompt) groups = map (map it_prompt) groups'"
  using assms
proof (induction ns arbitrary: groups groups')
  case (Cons n ns)
  from Cons.prems(2,3) obtain x xs y ys where
    "harvest_fixture ext limit dl place (n, Plain (f n)) = Inr x"
    "mapE (harvest_fixture ext limit dl place) (map (\<lambda>n. (n, Plain (f n))) ns) = Inr xs"
    "harvest_fixture ext limit dl place' (n, Plain (g n)) = Inr y"
    "mapE (harvest_fixture ext limit dl place') (map (\<lambda>n. (n, Plain (g n))) ns) = Inr ys"
    "groups = x # xs" "groups' = y # ys"
    by (auto simp: bindE_Inr_iff)
  with Cons fixture_prompts [of limit "f n" "g n"] show ?case by auto
qed simp

lemma review_fixture_groups:
  assumes "harvest_review_deep ext limit dl ws = Inr its"
    and "ws_reviews ws = Folder \<lparr>rd_place = place, rd_entries = map (\<lambda>n. (n, Plain (f n))) ns\<rparr>"
  obtains groups where "mapE (harvest_fixture ext limit dl place)
      (map (\<lambda>n. (n, Plain (f n))) (sort (filter json_suffix ns))) = Inr groups" and "its = concat groups"
  using assms by (auto simp: harvest_review_deep_def bindE_Inr_iff inside_workspace_Inr filter_map comp_def sort_key_pairs)


section \<open>Samples\<close>

definition golden_workspace :: author_workspace where
  "golden_workspace = \<lparr>ws_root = Folder (),
     ws_skills = Folder [\<lparr>gd_skill = ''plan'', gd_is_link = False,
       gd_place = Folder ''.claude/skills/plan/evals/golden'',
       gd_manifest = Plain (dumps (JObj [(''bads'', JList [JObj [(''file'', JStr ''bad.md''),
         (''verified_fails'', JBool True)]])])),
       gd_entries = [(''good.md'', Plain ''fine''), (''bad.md'', Plain ''poor'')]\<rparr>],
     ws_reviews = NoFolder, ws_git = (\<lambda>_. NoGit)\<rparr>"

definition sample_harvest :: harvest_result where
  "sample_harvest = \<lparr>hr_source = ''goldens'', hr_candidates = [
     \<lparr>it_id = ''golden-plan-good-fine'', it_tags = [''golden'', ''skill-eval'', ''skill-plan'', ''pass''],
      it_prompt = golden_prompt ''fine'', it_expected = ''pass'', it_prior = half,
      it_provenance = ''harvested:.claude/skills/plan/evals/golden/good.md;sha256=fine''\<rparr>,
     \<lparr>it_id = ''golden-plan-bad-poor'', it_tags = [''golden'', ''skill-eval'', ''skill-plan'', ''flag''],
      it_prompt = golden_prompt ''poor'', it_expected = ''flag'', it_prior = half,
      it_provenance = ''harvested:.claude/skills/plan/evals/golden/bad.md;sha256=poor''\<rparr>],
     hr_dropped = 0\<rparr>"

lemma length_dump_str: "length (dump_str s) \<le> 6 * length s + 2"
proof -
  have "length (esc_char c) \<le> 6" for c by (simp add: esc_char_def)
  then have "length (concat (map esc_char s)) \<le> 6 * length s"
    by (induction s) (simp_all add: add_le_mono)
  then show ?thesis by (simp add: dump_str_def)
qed

lemma utf8_size_le: "utf8_size t \<le> 2 * length t"
  by (induction t) (auto simp: utf8_size_def)

lemma sample_bads:
  "manifest_bad_files 9 (Plain (dumps (JObj [(''bads'', JList [JObj [(''file'', JStr ''bad.md''),
     (''verified_fails'', JBool True)]])]))) = Inr [''bad.md'']"
proof -
  have "utf8_size (dumps (JObj [(''bads'', JList [JObj [(''file'', JStr ''bad.md''),
     (''verified_fails'', JBool True)]])])) \<le> max_artifact_bytes"
    using length_dump_str [of "''bads''"] length_dump_str [of "''file''"] length_dump_str [of "''bad.md''"]
      length_dump_str [of "''verified_fails''"]
    by (intro le_trans [OF utf8_size_le]) (simp add: dumps_def max_artifact_bytes_def)
  moreover have "loads 9 (dumps (JObj [(''bads'', JList [JObj [(''file'', JStr ''bad.md''),
     (''verified_fails'', JBool True)]])])) = Inr (JObj [(''bads'', JList [JObj [(''file'', JStr ''bad.md''),
     (''verified_fails'', JBool True)]])])"
    unfolding dumps_def by (rule loads_dumps_with [OF sep_ok_default]) simp_all
  moreover have "safe_basename ''bad.md''" by code_simp
  ultimately show ?thesis
    by (simp add: manifest_bad_files_def author_loads_def fld_Cons bad_entry_def demand_def read_bounded_def
      fromkeys_def)
qed

lemma sample_golden_items:
  "golden_item documented_ext ''plan'' ''.claude/skills/plan/evals/golden'' ''good.md'' ''pass'' ''fine''
     = Inr (hr_candidates sample_harvest ! 0)"
  "golden_item documented_ext ''plan'' ''.claude/skills/plan/evals/golden'' ''bad.md'' ''flag'' ''poor''
     = Inr (hr_candidates sample_harvest ! 1)"
  by code_simp+

lemma content_hash_documented:
  "candidate_content_hash documented_ext a = candidate_content_hash documented_ext b \<longleftrightarrow>
     it_prompt a = it_prompt b \<and> it_expected a = it_expected b"
  using content_hash_eq [of documented_ext a b]
  by (auto simp: candidate_content_hash_def candidate_payload_def)

lemma sample_harvested: "harvest documented_ext 9 9 ''goldens'' golden_workspace = Inr sample_harvest"
proof -
  let ?g = "\<lparr>gd_skill = ''plan'', gd_is_link = False,
       gd_place = Folder ''.claude/skills/plan/evals/golden'',
       gd_manifest = Plain (dumps (JObj [(''bads'', JList [JObj [(''file'', JStr ''bad.md''),
         (''verified_fails'', JBool True)]])])),
       gd_entries = [(''good.md'', Plain ''fine''), (''bad.md'', Plain ''poor'')]\<rparr>"
  have c: "hr_candidates sample_harvest = [hr_candidates sample_harvest ! 0, hr_candidates sample_harvest ! 1]"
    by (simp add: sample_harvest_def)
  have r: "read_workspace_file (Plain ''fine'') = Inr ''fine''" "read_workspace_file (Plain ''poor'') = Inr ''poor''"
    by (simp_all add: read_bounded_def demand_def utf8_size_def max_artifact_bytes_def)
  have "harvest_golden_dir documented_ext 9 ?g = Inr (hr_candidates sample_harvest)"
    by (subst c) (simp add: harvest_golden_dir_def demand_def inside_workspace_def sample_bads
      golden_sources_def entry_of_def r sample_golden_items del: read_workspace_file.simps)
  moreover have "hr_candidates sample_harvest \<noteq> []" by (simp add: sample_harvest_def)
  ultimately have "harvest_source documented_ext 9 9 golden_workspace ''goldens'' = Inr (hr_candidates sample_harvest)"
    by (simp add: harvest_source_def harvest_goldens_def workspace_root_def golden_workspace_def
      inside_workspace_def demand_def)
  moreover have "deduplicate_candidates documented_ext (hr_candidates sample_harvest) = (hr_candidates sample_harvest, 0)"
    by (simp add: deduplicate_candidates_def sample_harvest_def content_hash_documented)
  ultimately show ?thesis
    by (simp add: harvest_def demand_def source_names_def) (simp add: sample_harvest_def)
qed


definition sample_ext :: externals where
  "sample_ext = documented_ext\<lparr>sha256_hex := (\<lambda>s. replicate 64 (CHR ''0''))\<rparr>"

lemma sample_ext_contracts: "safe_name_contract sample_ext" "hex_digests sample_ext"
  using documented_ext_contract
  by (simp_all add: sample_ext_def safe_name_contract_def hex_digests_def name_char_def is_ascii_alnum_def
      is_digit_def in_rng_def list_all_iff)

text \<open>One lens with the verdict \<open>v\<close>, and the fixture that holds it.\<close>

definition lens_json :: "string \<Rightarrow> json" where
  "lens_json v = JObj [(''lens_id'', JStr ''style''), (''overall_verdict'', JStr v), (''findings'', JList [])]"

definition fixture_text :: "string \<Rightarrow> string" where
  "fixture_text v = dumps (JObj [(''lens_verdicts'', JList [lens_json v])])"

definition review_workspace :: "string \<Rightarrow> author_workspace" where
  "review_workspace v = \<lparr>ws_root = Folder (), ws_skills = NoFolder,
     ws_reviews = Folder \<lparr>rd_place = ''.review-deep'',
       rd_entries = map (\<lambda>n. (n, Plain (fixture_text v))) [''a.json'']\<rparr>, ws_git = (\<lambda>_. NoGit)\<rparr>"

lemma loads_fixture:
  "loads 9 (fixture_text v) = Inr (JObj [(''lens_verdicts'', JList [lens_json v])])"
  unfolding fixture_text_def dumps_def by (rule loads_dumps_with [OF sep_ok_default]) (simp_all add: lens_json_def)

lemma fixture_small: "length v < 100 \<Longrightarrow> utf8_size (fixture_text v) \<le> max_artifact_bytes"
  using length_dump_str [of "''lens_verdicts''"] length_dump_str [of "''lens_id''"] length_dump_str [of "''style''"]
    length_dump_str [of "''overall_verdict''"] length_dump_str [of v] length_dump_str [of "''findings''"]
  by (intro le_trans [OF utf8_size_le]) (simp add: fixture_text_def dumps_def lens_json_def max_artifact_bytes_def)

lemma fixtures_blind: "v \<noteq> ''SKIPPED'' \<Longrightarrow> w \<noteq> ''SKIPPED'' \<Longrightarrow> fixture_blind 9 (fixture_text v) (fixture_text w)"
  by (simp add: fixture_blind_def loads_fixture fld_Cons verdict_blind_def lens_json_def)

lemma sample_review:
  assumes "v \<in> {''PASS'', ''FAILED''}"
  shows "\<exists>it. harvest_review_deep sample_ext 9 9 (review_workspace v) = Inr [it]"
proof -
  have r: "read_workspace_file (Plain (fixture_text v)) = Inr (fixture_text v)"
    using assms fixture_small [of v] by (auto simp: read_bounded_def demand_def)
  have e: "review_expected ''style'' (JStr v) = Inr (Some (if v = ''PASS'' then ''pass'' else ''flag''))"
    using assms by (auto simp: review_expected_def passing_verdicts_def failing_verdicts_def)
  let ?x = "if v = ''PASS'' then ''pass'' else ''flag''" and ?raw = "fixture_text v"
  let ?ev = "dumps_indent 2 0 (sort_json (JObj [(''lens_id'', JStr ''style''), (''findings'', JList [])]))"
  have n: "?x \<noteq> []" by simp
  have "all_name_chars ''review''" "list_ex isalnum ''review''"
    by (simp_all add: all_name_chars_def name_char_def isalnum_def is_ascii_alnum_def is_ascii_alpha_def in_rng_def)
  then have "safe_name_ok sample_ext (author_item_id sample_ext ''review'' (stem ''a.json'' @ ''-'' @ ''style'') (?raw @ ''style''))"
    by (rule item_id_safe [OF sample_ext_contracts])
  then obtain it where it: "author_item sample_ext
      (author_item_id sample_ext ''review'' (stem ''a.json'' @ ''-'' @ ''style'') (?raw @ ''style''))
      [''review-deep'', ''review'', ''style'', ?x] (review_prompt ''style'' ?ev) ?x
      (source_provenance sample_ext (''.review-deep'' @ ''/'' @ ''a.json'') ?raw) = Inr it"
    using n unfolding author_item_Inr item_ok_def by (simp add: half_prior review_prompt_def source_provenance_def)
  have "lens_evidence [(''lens_id'', JStr ''style''), (''overall_verdict'', JStr v), (''findings'', JList [])]
      = JObj [(''lens_id'', JStr ''style''), (''findings'', JList [])]"
    by (simp add: lens_evidence_def evidence_keys_def)
  then have "lens_item sample_ext 9 ''.review-deep'' ''a.json'' ?raw 0 (lens_json v) = Inr [it]"
    using it by (simp only: lens_item_def lens_json_def json.case fld_Cons scored_lens_def indent_dumps_def e)
      (simp add: e)
  moreover have "json_suffix ''a.json''" by (simp add: json_suffix_def)
  ultimately show ?thesis
    by (auto simp: harvest_review_deep_def review_workspace_def workspace_root_def inside_workspace_def demand_def
        harvest_fixture_def r author_loads_def loads_fixture fld_Cons simp del: read_workspace_file.simps)
qed

lemma demo_stub: "\<exists>s. build_stub_suite documented_ext ''demo'' = Inr s"
proof -
  let ?sc = "\<lparr>sc_type = Verdict, sc_labels = Some [''pass'', ''flag''], sc_regex = False\<rparr>"
  let ?it = "\<lparr>it_id = ''demo-template'', it_tags = [''template'', ''needs-curation''], it_prompt = stub_prompt,
    it_expected = ''pass'', it_prior = half, it_provenance = ''authored:template-needs-curation''\<rparr>"
  have names: "safe_name_ok documented_ext ''demo-template''" "safe_name_ok documented_ext ''demo''"
    by code_simp+
  have "ScoringSpec_init (JStr ''verdict'') (strs_json [''pass'', ''flag'']) (JBool False) = Inr ?sc"
    by code_simp
  moreover have "Item_init documented_ext (JStr ''demo-template'') (strs_json [''template'', ''needs-curation''])
      (JStr stub_prompt) (JStr ''pass'') (JFloat half) (JStr ''authored:template-needs-curation'') = Inr ?it"
    using names by (simp add: Item_init_def bindE_Inr_iff validate_safe_name_Inr validate_str_list_Inr
        validate_nonempty_str_Inr validate_unit_float_JFloat half_prior stub_prompt_def)
  ultimately show ?thesis
    using names by (intro exI [of _ "\<lparr>su_name = ''demo'', su_version = 1, su_description = stub_description,
      su_domain = ''unassigned'', su_scoring = ?sc, su_items = [?it]\<rparr>"])
      (simp add: build_stub_suite_def Suite_init_Inr stub_description_def)
qed

section \<open>Properties\<close>

text \<open>C25: every candidate of a harvest is a valid item whose label is the recorded outcome of the artifact its
  prompt shows: a good.md, a file the manifest lists as a verified failure, a style or correctness lens with
  a passing or failing verdict.  A patch has no outcome: it is labelled \<open>CURATE\<close> and tagged needs-gold, and
  no other candidate has that tag.\<close>

theorem harvest_gold_is_recorded:
  assumes "harvest ext limit dlimit source ws = Inr r" and "it \<in> set (hr_candidates r)"
  shows "gold_backed limit ws it \<and> item_ok ext it \<and>
    (it_expected it = ''CURATE'' \<longleftrightarrow> ''needs-gold'' \<in> set (it_tags it))"
  using harvest_sound [OF assms] by (auto simp: sound_candidate_def elim!: gold_backed.cases)

theorem harvest_gold_is_recorded_witness:
  "\<exists>it. it \<in> set (hr_candidates sample_harvest) \<and> gold_backed 9 golden_workspace it"
proof -
  have "hr_candidates sample_harvest ! 0 \<in> set (hr_candidates sample_harvest)" by (simp add: sample_harvest_def)
  with harvest_gold_is_recorded [OF sample_harvested this] show ?thesis by blast
qed

text \<open>deduplication keeps, in order, exactly the candidates whose content (prompt and label) no earlier one
  has: what is kept and what is dropped add up, no content is kept twice, and the content of every candidate
  is kept unless SHA-256 collides.\<close>

theorem dedupe_keeps_first:
  assumes "deduplicate_candidates ext items = (unique, n)"
  shows "unique = firsts (candidate_content_hash ext) {} items \<and> length unique + n = length items \<and>
    distinct (map (\<lambda>it. (it_prompt it, it_expected it)) unique) \<and>
    (\<forall>it \<in> set items. \<exists>u \<in> set unique. it_prompt u = it_prompt it \<and> it_expected u = it_expected it
       \<or> (\<exists>x y. x \<noteq> y \<and> sha256_hex ext x = sha256_hex ext y))"
proof -
  let ?h = "candidate_content_hash ext"
  have u: "unique = firsts ?h {} items" and n: "length unique + n = length items"
    using assms dedupe_loop_firsts [of ext "{}" "[]" 0 items] by (simp_all add: deduplicate_candidates_def)
  have d: "distinct (map ?h unique)" "?h ` set unique = ?h ` set items"
    using firsts_distinct [of ?h "{}" items] by (simp_all add: u)
  have "?h a = ?h b" if "(it_prompt a, it_expected a) = (it_prompt b, it_expected b)" for a b
    using that by (simp add: candidate_content_hash_def candidate_payload_def)
  then have "distinct (map (\<lambda>it. (it_prompt it, it_expected it)) unique)"
    using d(1) unfolding distinct_map inj_on_def by blast
  moreover have "\<exists>u \<in> set unique. ?h u = ?h it" if "it \<in> set items" for it
    using that d(2) by (metis (no_types, lifting) imageE imageI)
  then have "\<exists>u \<in> set unique. it_prompt u = it_prompt it \<and> it_expected u = it_expected it
      \<or> (\<exists>x y. x \<noteq> y \<and> sha256_hex ext x = sha256_hex ext y)" if "it \<in> set items" for it
    using that content_hash_eq [of ext _ it] by blast
  ultimately show ?thesis using u n by simp
qed

theorem dedupe_keeps_first_witness:
  "\<exists>unique n. deduplicate_candidates documented_ext [sample_item, sample_item] = (unique, n)
     \<and> length unique + n = 2"
proof -
  obtain unique n where d: "deduplicate_candidates documented_ext [sample_item, sample_item] = (unique, n)"
    by fastforce
  with dedupe_keeps_first [OF d] show ?thesis by auto
qed

text \<open>when the digests are 64 name characters and the name pattern is the documented one, harvesting never
  raises a \<open>SuiteError\<close>: the identifiers built from file and skill names always pass the item constructor.\<close>

theorem harvest_ids_are_safe:
  assumes "safe_name_contract ext" and "hex_digests ext"
  shows "harvest ext limit dlimit source ws \<noteq> Inl (AuthorSuiteError e)"
proof -
  have "no_suite_error (harvest ext limit dlimit source ws)"
    unfolding harvest_def Let_def by (auto simp: raises source_raises [OF assms] intro!: no_suite_error_bind split: prod.split)
  then show ?thesis by (simp add: no_suite_error_def)
qed

theorem harvest_ids_are_safe_witness:
  "harvest sample_ext 9 9 ''review-deep'' (review_workspace ''PASS'') \<noteq> Inl (AuthorSuiteError NoItems)"
  by (rule harvest_ids_are_safe [OF sample_ext_contracts])

text \<open>C26: the prompts of harvested review evidence do not depend on the verdicts: two workspaces whose fixtures
  differ only in verdicts, with the same lenses skipped, give the same prompts in the same order.\<close>

theorem review_prompts_hide_verdicts:
  assumes "ws_reviews ws = Folder \<lparr>rd_place = p, rd_entries = map (\<lambda>n. (n, Plain (f n))) names\<rparr>"
    and "ws_reviews ws' = Folder \<lparr>rd_place = p', rd_entries = map (\<lambda>n. (n, Plain (g n))) names\<rparr>"
    and "\<forall>n \<in> set names. fixture_blind limit (f n) (g n)"
    and "harvest_review_deep ext limit dlimit ws = Inr its"
    and "harvest_review_deep ext limit dlimit ws' = Inr its'"
  shows "map it_prompt its = map it_prompt its'"
proof -
  obtain groups where
    "mapE (harvest_fixture ext limit dlimit p) (map (\<lambda>n. (n, Plain (f n))) (sort (filter json_suffix names))) = Inr groups"
    "its = concat groups"
    by (rule review_fixture_groups [OF assms(4,1)])
  moreover obtain groups' where
    "mapE (harvest_fixture ext limit dlimit p') (map (\<lambda>n. (n, Plain (g n))) (sort (filter json_suffix names))) = Inr groups'"
    "its' = concat groups'"
    by (rule review_fixture_groups [OF assms(5,2)])
  ultimately show ?thesis
    using fixtures_prompts [of "sort (filter json_suffix names)" limit f g] assms(3) by (simp add: map_concat)
qed

theorem review_prompts_hide_verdicts_witness:
  "\<exists>a b. harvest_review_deep sample_ext 9 9 (review_workspace ''PASS'') = Inr [a]
     \<and> harvest_review_deep sample_ext 9 9 (review_workspace ''FAILED'') = Inr [b] \<and> it_prompt a = it_prompt b"
proof -
  obtain a b where a: "harvest_review_deep sample_ext 9 9 (review_workspace ''PASS'') = Inr [a]"
    and b: "harvest_review_deep sample_ext 9 9 (review_workspace ''FAILED'') = Inr [b]"
    using sample_review [of "''PASS''"] sample_review [of "''FAILED''"] by auto
  have w: "ws_reviews (review_workspace v) = Folder \<lparr>rd_place = ''.review-deep'',
      rd_entries = map (\<lambda>n. (n, Plain (fixture_text v))) [''a.json'']\<rparr>" for v
    by (simp add: review_workspace_def)
  have "\<forall>n \<in> set [''a.json'']. fixture_blind 9 (fixture_text ''PASS'') (fixture_text ''FAILED'')"
    by (simp add: fixtures_blind)
  from review_prompts_hide_verdicts [OF w w this a b] a b show ?thesis by auto
qed

text \<open>a rendered harvest reads back: from recursion limit 4 on, its candidates load as items, the same ones in
  the same order, next to the source and the number of dropped duplicates.\<close>

theorem harvest_reads_back:
  assumes "harvest ext limit dlimit source ws = Inr r" and "4 \<le> limit'"
    and "length (show_nat (hr_dropped r)) \<le> int_max_str_digits"
  shows "\<exists>d js. loads limit' (render_harvest r) = Inr (JObj d) \<and> fld d ''candidates'' = JList js \<and>
    mapE (Item_from_mapping ext) js = Inr (hr_candidates r) \<and>
    fld d ''duplicates_dropped'' = JInt (int (hr_dropped r)) \<and> fld d ''source'' = JStr (hr_source r)"
  using harvest_sound [OF assms(1)] assms(2,3)
  by (intro render_harvest_loads) (auto simp: sound_candidate_def list_all_iff)

theorem harvest_reads_back_witness:
  "\<exists>d js. loads 4 (render_harvest sample_harvest) = Inr (JObj d) \<and> fld d ''candidates'' = JList js \<and>
    mapE (Item_from_mapping documented_ext) js = Inr (hr_candidates sample_harvest)"
proof -
  have "length (show_nat (hr_dropped sample_harvest)) \<le> int_max_str_digits"
    by (simp add: sample_harvest_def int_max_str_digits_def)
  from harvest_reads_back [OF sample_harvested order_refl this] show ?thesis by blast
qed

text \<open>writing a stub suite never changes a file or directory that exists, whatever fails on the way; when it
  succeeds, the output path was free and now holds a text that the suite loader reads back as the stub.\<close>

theorem stub_file_loads_back:
  assumes "make_stub_file ext fault name path fs = (res, fs')" and "4 \<le> limit"
  shows "(\<forall>p n. fs p = Some n \<longrightarrow> fs' p = Some n) \<and>
    (\<forall>p. res = Inr p \<longrightarrow> p = path \<and> fs path = None \<and>
      (\<exists>s text. fs' path = Some (OutFile text) \<and> load_suite ext limit (FileText text) = Inr s \<and>
         build_stub_suite ext name = Inr s \<and> su_name s = name))"
proof (cases "build_stub_suite ext name")
  case (Inr s)
  have "length (show_nat (Suc 0)) \<le> int_max_str_digits" by code_simp
  then have "load_suite ext limit (FileText (render_stub_suite s)) = Inr s"
    using stub_suite_Inr [OF Inr] assms(2) by (intro stub_payload_loads) auto
  moreover from Inr have w: "write_new_file fault path (render_stub_suite s) fs = (res, fs')"
    using assms(1) by (simp add: make_stub_file_def)
  ultimately show ?thesis
    using write_new_file_keeps [OF w] write_new_file_Inr [of fault path "render_stub_suite s" fs _ fs'] w Inr
      stub_suite_Inr [OF Inr] by fastforce
qed (use assms(1) in \<open>auto simp: make_stub_file_def\<close>)

theorem stub_file_loads_back_witness:
  "\<exists>fs' text s. make_stub_file documented_ext None ''demo'' [''demo.json'']
       (\<lambda>p. if p = [] then Some OutDir else None) = (Inr [''demo.json''], fs')
     \<and> fs' [''demo.json''] = Some (OutFile text) \<and> load_suite documented_ext 4 (FileText text) = Inr s"
proof -
  obtain s where "build_stub_suite documented_ext ''demo'' = Inr s" using demo_stub by blast
  then obtain fs' where m: "make_stub_file documented_ext None ''demo'' [''demo.json'']
      (\<lambda>p. if p = [] then Some OutDir else None) = (Inr [''demo.json''], fs')"
    by (simp add: make_stub_file_def write_new_file_def Let_def parents_ok_def)
  from stub_file_loads_back [OF m order_refl] m show ?thesis by auto
qed

end
