(* ===== verification/Report_Html.thy ===== *)
theory Report_Html
  imports Report
begin

text \<open>
  src/measure_twice/report_html.py: the item-level page of a stored run.  Every scored cell is scored again
  while the page is built, and a cell that does not reproduce stops it.

  As in Report, scores are exact rationals (\<open>fl\<close> stores one as a float, \<open>fmt1\<close> prints it with one decimal),
  \<open>pstr\<close> is \<open>str\<close> of a JSON value that is no text and \<open>em\<close> is the dash of the texts.  \<open>avg\<close> is the float
  quotient of the sum of a list of priors and its length.
\<close>

section \<open>Cells\<close>

datatype cell_outcome =
    OUTCOME_CORRECT | OUTCOME_WRONG | OUTCOME_REFUSED | OUTCOME_NO_VERDICT | OUTCOME_AMBIGUOUS
  | OUTCOME_NO_RESPONSE | OUTCOME_ERROR

fun outcome_text :: "cell_outcome \<Rightarrow> string" where
  "outcome_text OUTCOME_CORRECT = ''CORRECT''"
| "outcome_text OUTCOME_WRONG = ''WRONG''"
| "outcome_text OUTCOME_REFUSED = ''REFUSED''"
| "outcome_text OUTCOME_NO_VERDICT = ''NO_VERDICT''"
| "outcome_text OUTCOME_AMBIGUOUS = ''AMBIGUOUS''"
| "outcome_text OUTCOME_NO_RESPONSE = ''NO_RESPONSE''"
| "outcome_text OUTCOME_ERROR = ''ERROR''"

record cell_report =
  cl_model :: json
  cl_sample_k :: json
  cl_raw :: json
  cl_parsed :: json
  cl_score :: json
  cl_elapsed :: json
  cl_error :: json
  cl_outcome :: cell_outcome
  cl_why :: string
  cl_labels :: "string list"
  cl_recoverable :: bool

datatype html_error =
    CellDoesNotReproduce json json json
  | NotAVerdictSuite string scoring_type
  | NoVerdictCells string
  | TemplateUnreadable

datatype html_exn = HtmlError html_error | HtmlReport report_exn

type_synonym 'a hres = "(html_exn, 'a) res"

abbreviation html_type_error :: "'a hres" where
  "html_type_error \<equiv> Inl (HtmlReport (ReportRaw RawTypeError))"

text \<open>\<open>str\<close> and \<open>repr\<close> of the values the explanations quote.\<close>

definition str_of :: "(json \<Rightarrow> string) \<Rightarrow> json \<Rightarrow> string" where
  "str_of pstr v = (case v of JStr s \<Rightarrow> s | _ \<Rightarrow> pstr v)"

definition repr_char :: "char \<Rightarrow> char \<Rightarrow> string" where
  "repr_char q c =
     (if c = q \<or> c = CHR 0x5C then [CHR 0x5C, c]
      else if c = CHR 0x0A then [CHR 0x5C, CHR ''n'']
      else if c = CHR 0x0D then [CHR 0x5C, CHR ''r'']
      else if c = CHR 0x09 then [CHR 0x5C, CHR ''t'']
      else if in_rng 32 126 c \<or> in_rng 161 172 c \<or> in_rng 174 255 c then [c]
      else [CHR 0x5C, CHR ''x'', hex_digit (code_pt c div 16), hex_digit (code_pt c mod 16)])"

definition py_repr :: "string \<Rightarrow> string" where
  "py_repr s =
     (let q = (if CHR 0x27 \<in> set s \<and> CHR 0x22 \<notin> set s then CHR 0x22 else CHR 0x27)
      in q # concat (map (repr_char q) s) @ [q])"

text \<open>The number a JSON value compares as; a boolean is one, an infinity or no-number equals no fraction.\<close>

definition json_number :: "json \<Rightarrow> rat option" where
  "json_number v = (case v of
     JInt n \<Rightarrow> Some (of_int n)
   | JBool b \<Rightarrow> Some (if b then 1 else 0)
   | JFloat f \<Rightarrow> flt_val f
   | _ \<Rightarrow> None)"

text \<open>
  \<open>sort(key=...)\<close> on JSON keys: finite numbers among themselves or texts among themselves; anything else
  is a \<open>TypeError\<close> as soon as two elements are compared.
\<close>

definition sort_by_json :: "('a \<Rightarrow> json) \<Rightarrow> 'a list \<Rightarrow> 'a list hres" where
  "sort_by_json key xs =
     (if length xs \<le> 1 then Inr xs
      else if list_all (\<lambda>x. json_number (key x) \<noteq> None) xs
      then Inr (sort_key (\<lambda>x. the (json_number (key x))) xs)
      else if list_all (\<lambda>x. is_str (key x)) xs then Inr (sort_key (\<lambda>x. the_str (key x)) xs)
      else html_type_error)"

section \<open>Label recognition through the public extractor\<close>

definition labels_recognized :: "nat \<Rightarrow> string \<Rightarrow> string list \<Rightarrow> string list" where
  "labels_recognized limit t labels = filter (\<lambda>l. extract_verdict_label limit t [l] \<noteq> None) labels"

definition cut_points :: "string \<Rightarrow> nat list" where
  "cut_points t = filter (\<lambda>i. \<not> isalnum (t ! i)) [0..<length t] @ [length t]"

text \<open>The inner loop: the two bounds close in on a cut.\<close>

function bisect :: "(nat \<Rightarrow> bool) \<Rightarrow> nat \<Rightarrow> nat \<Rightarrow> nat" where
  "bisect P low high =
     (if low < high then
        let mid = (low + high) div 2 in if P mid then bisect P low mid else bisect P (mid + 1) high
      else low)"
  by auto
termination by (relation "measure (\<lambda>(P, low, high). high - low)") auto

declare bisect.simps [simp del]

definition earliest_cut :: "nat \<Rightarrow> string \<Rightarrow> string \<Rightarrow> nat" where
  "earliest_cut limit t label =
     (let cuts = cut_points t
      in cuts ! bisect (\<lambda>i. extract_verdict_label limit (take (cuts ! i) t) [label] \<noteq> None) 0 (length cuts - 1))"

fun first_loop :: "nat \<Rightarrow> string \<Rightarrow> (nat \<times> string) option \<Rightarrow> string list \<Rightarrow> (nat \<times> string) option" where
  "first_loop limit t best [] = best"
| "first_loop limit t best (label # labels) =
     (if extract_verdict_label limit t [label] = None then first_loop limit t best labels
      else
        let cut = earliest_cut limit t label
        in first_loop limit t
             (case best of
                None \<Rightarrow> Some (cut, label)
              | Some b \<Rightarrow> if cut < fst b then Some (cut, label) else Some b) labels)"

definition first_recognized_label :: "nat \<Rightarrow> string \<Rightarrow> string list \<Rightarrow> string option" where
  "first_recognized_label limit t labels = map_option snd (first_loop limit t None labels)"

section \<open>Classification\<close>

definition why_error :: "string \<Rightarrow> string" where
  "why_error e = ''The model call failed ('' @ e @ ''); the cell was never scored.''"

definition why_no_response :: string where
  "why_no_response = ''The model returned no text at all; the runner force-scored the cell 0 before '' @
     ''any scorer ran.''"

definition why_refused :: "string \<Rightarrow> string list \<Rightarrow> string" where
  "why_refused em present = ''The response contains more than one recognized label ('' @ join '', '' present @
     ''). Two disagreeing signals resolve as a conflict and the scorer refuses to guess, '' @
     ''so the cell is a recorded parse-fail scored 0 '' @ em @ '' not a wrong answer.''"

definition why_no_verdict :: "string \<Rightarrow> string" where
  "why_no_verdict em = ''The response contains no recognized label at all '' @ em @
     '' the model never returned a verdict. Recorded as a parse-fail and scored 0.''"

definition why_ambiguous :: "string \<Rightarrow> string \<Rightarrow> string" where
  "why_ambiguous em l = ''Exactly one label ('' @ l @ '') is recognizable in the text, yet the extractor '' @
     ''still returned no verdict: a structured tier (JSON or a labelled line) carried a '' @
     ''conflict that outranked the prose tier. Recorded as a parse-fail and scored 0.''"

definition why_correct :: "string \<Rightarrow> string \<Rightarrow> string" where
  "why_correct parsed expected = ''Parsed verdict '' @ py_repr parsed @ '' equals the expected '' @
     py_repr expected @ ''. Scored 1.''"

definition why_wrong :: "string \<Rightarrow> string \<Rightarrow> string \<Rightarrow> string" where
  "why_wrong em parsed expected = ''Parsed verdict '' @ py_repr parsed @ '' but the item expected '' @
     py_repr expected @ '' '' @ em @
     '' a genuine judging miss, not a formatting problem. Scored 0.''"

definition cell_of :: "run_row \<Rightarrow> json \<Rightarrow> cell_outcome \<Rightarrow> string \<Rightarrow> string list \<Rightarrow> bool \<Rightarrow> cell_report" where
  "cell_of row err outcome why present recoverable =
     \<lparr>cl_model = rr_model row, cl_sample_k = rr_sample_k row, cl_raw = rr_response_raw row,
      cl_parsed = rr_parsed row, cl_score = rr_score row, cl_elapsed = rr_elapsed row, cl_error = err,
      cl_outcome = outcome, cl_why = why, cl_labels = present, cl_recoverable = recoverable\<rparr>"

text \<open>\<open>(parsed, score) == (row.parsed, row.score)\<close>.\<close>

definition reproduces :: "outcome \<Rightarrow> run_row \<Rightarrow> bool" where
  "reproduces oc row \<longleftrightarrow>
     rr_parsed row = (case oc_parsed oc of None \<Rightarrow> JNull | Some p \<Rightarrow> JStr p) \<and>
     (case oc_score oc of
        None \<Rightarrow> rr_score row = JNull
      | Some s \<Rightarrow> json_number (rr_score row) \<noteq> None \<and> json_number (rr_score row) = flt_val s)"

definition scored_cell ::
    "nat \<Rightarrow> string \<Rightarrow> run_row \<Rightarrow> item \<Rightarrow> string list \<Rightarrow> string \<Rightarrow> cell_report" where
  "scored_cell limit em row it labels raw =
     (let present = labels_recognized limit raw labels; first = first_recognized_label limit raw labels
      in if rr_parsed row = JStr PARSE_FAIL_MARKER then
           let recoverable = (case first of None \<Rightarrow> False | Some l \<Rightarrow> casefold l = casefold (it_expected it))
           in (if 2 \<le> length present
               then cell_of row JNull OUTCOME_REFUSED (why_refused em present) present recoverable
               else case present of
                 [] \<Rightarrow> cell_of row JNull OUTCOME_NO_VERDICT (why_no_verdict em) present recoverable
               | l # _ \<Rightarrow> cell_of row JNull OUTCOME_AMBIGUOUS (why_ambiguous em l) present recoverable)
         else if json_number (rr_score row) = Some 1
         then cell_of row JNull OUTCOME_CORRECT (why_correct (the_str (rr_parsed row)) (it_expected it)) present False
         else cell_of row JNull OUTCOME_WRONG (why_wrong em (the_str (rr_parsed row)) (it_expected it)) present False)"

text \<open>A response that is no text cannot be scanned: a \<open>TypeError\<close>.\<close>

definition classify ::
    "nat \<Rightarrow> (json \<Rightarrow> string) \<Rightarrow> string \<Rightarrow> run_row \<Rightarrow> item \<Rightarrow> string list \<Rightarrow> cell_report hres" where
  "classify limit pstr em row it labels =
     (if rr_error row \<noteq> JNull
      then Inr (cell_of row (rr_error row) OUTCOME_ERROR (why_error (str_of pstr (rr_error row))) [] False)
      else if rr_scorer row = JStr NO_RESPONSE_SCORER
      then Inr (cell_of row JNull OUTCOME_NO_RESPONSE why_no_response [] False)
      else (case rr_response_raw row of
         JStr raw \<Rightarrow>
           (case score_verdict limit labels it raw of
              Inl _ \<Rightarrow> html_type_error
            | Inr oc \<Rightarrow>
                (if reproduces oc row then Inr (scored_cell limit em row it labels raw)
                 else Inl (HtmlError (CellDoesNotReproduce (rr_item_id row) (rr_model row) (rr_sample_k row)))))
       | _ \<Rightarrow> html_type_error))"


section \<open>Facets\<close>

text \<open>\<open>tag.partition("-")\<close>, when there is a separator and something after it.\<close>

definition split_tag :: "string \<Rightarrow> (string \<times> string) option" where
  "split_tag tag =
     (let value = drop 1 (dropWhile (\<lambda>c. c \<noteq> CHR ''-'') tag)
      in if CHR ''-'' \<notin> set tag \<or> value = [] then None
         else Some (takeWhile (\<lambda>c. c \<noteq> CHR ''-'') tag, value))"

type_synonym tag_families = "(string \<times> (string \<times> flt list) list) list"

definition dict_get :: "'k \<Rightarrow> 'v \<Rightarrow> ('k \<times> 'v) list \<Rightarrow> 'v" where
  "dict_get k v d = (case map_of d k of None \<Rightarrow> v | Some w \<Rightarrow> w)"

definition add_tag :: "flt \<Rightarrow> string \<Rightarrow> tag_families \<Rightarrow> tag_families" where
  "add_tag prior tag families = (case split_tag tag of
     None \<Rightarrow> families
   | Some (pre, value) \<Rightarrow>
       (let vals = dict_get pre [] families
        in dict_set pre (dict_set value (dict_get value [] vals @ [prior]) vals) families))"

definition tag_families_of :: "item list \<Rightarrow> tag_families" where
  "tag_families_of items = fold (\<lambda>it. fold (add_tag (it_prior it)) (it_tags it)) items []"

definition derive_facets :: "(flt list \<Rightarrow> rat) \<Rightarrow> item list \<Rightarrow> (string \<times> string list) list" where
  "derive_facets avg items =
     (let families = tag_families_of items
      in concat (map (\<lambda>pre.
           let vals = dict_get pre [] families
           in if length vals < 2 then []
              else [(pre, sort_key (\<lambda>v. avg (dict_get v [] vals)) (sort (keys vals)))])
         (sort (keys families))))"

definition item_facets :: "(string \<times> string list) list \<Rightarrow> item \<Rightarrow> (string \<times> string) list" where
  "item_facets facets it =
     dict_of (concat (map (\<lambda>(pre, values).
       map (Pair pre) (filter (\<lambda>v. pre @ ''-'' @ v \<in> set (it_tags it)) values)) facets))"

section \<open>The report\<close>

record item_report =
  ir_id :: string
  ir_prompt :: string
  ir_expected :: string
  ir_prior :: flt
  ir_provenance :: string
  ir_facets :: "(string \<times> string) list"
  ir_cells :: "(string \<times> cell_report list) list"

record transparency_report =
  tr_run_id :: string
  tr_suite :: string
  tr_suite_hash :: string
  tr_started :: string
  tr_models :: "string list"
  tr_labels :: "string list"
  tr_floor_label :: string
  tr_floor_score :: rat
  tr_preregistration :: "string option"
  tr_manifest :: "(string \<times> json) list"
  tr_items :: "item_report list"
  tr_reproduced :: nat
  tr_roll_up :: run_report
  tr_identity :: "(string \<times> model_report) list"

definition suite_labels :: "suite \<Rightarrow> string list hres" where
  "suite_labels s =
     (case (sc_type (su_scoring s), sc_labels (su_scoring s)) of
        (Verdict, Some (l # ls)) \<Rightarrow> Inr (l # ls)
      | _ \<Rightarrow> Inl (HtmlError (NotAVerdictSuite (su_name s) (sc_type (su_scoring s)))))"

definition row_cell :: "run_row \<Rightarrow> json option \<times> json" where
  "row_cell r = (hash_key (rr_item_id r), rr_model r)"

text \<open>\<open>rows_by_cell\<close>, every list sorted by sample number.\<close>

definition group_rows :: "run_row list \<Rightarrow> ((json option \<times> json) \<times> run_row list) list hres" where
  "group_rows rows =
     (let cells = fromkeys (map row_cell rows)
      in bindE (mapE (\<lambda>c. sort_by_json rr_sample_k (filter (\<lambda>r. row_cell r = c) rows)) cells) (\<lambda>groups.
           Inr (zip cells groups)))"

definition cell_rows :: "((json option \<times> json) \<times> run_row list) list \<Rightarrow> item \<Rightarrow> string \<Rightarrow> run_row list" where
  "cell_rows groups it model = dict_get (Some (JStr (it_id it)), JStr model) [] groups"

definition verdict_rows :: "run_row list \<Rightarrow> nat" where
  "verdict_rows rows = length (filter (\<lambda>r. rr_scorer r = JStr VERDICT_SCORER) rows)"

definition build_item ::
    "nat \<Rightarrow> (json \<Rightarrow> string) \<Rightarrow> string \<Rightarrow> string list \<Rightarrow> (string \<times> string list) list
       \<Rightarrow> ((json option \<times> json) \<times> run_row list) list \<Rightarrow> string list \<Rightarrow> item \<Rightarrow> item_report hres" where
  "build_item limit pstr em labels facets groups models it =
     bindE (mapE (\<lambda>model.
       bindE (mapE (\<lambda>row. classify limit pstr em row it labels) (cell_rows groups it model)) (\<lambda>cells.
         Inr (model, cells))) models) (\<lambda>cells.
       Inr \<lparr>ir_id = it_id it, ir_prompt = it_prompt it, ir_expected = it_expected it, ir_prior = it_prior it,
            ir_provenance = it_provenance it, ir_facets = item_facets facets it, ir_cells = dict_of cells\<rparr>)"

definition reproduced_cells ::
    "((json option \<times> json) \<times> run_row list) list \<Rightarrow> string list \<Rightarrow> item list \<Rightarrow> nat" where
  "reproduced_cells groups models items =
     sum_list (map (\<lambda>it. sum_list (map (\<lambda>m. verdict_rows (cell_rows groups it m)) models)) items)"

text \<open>\<open>max(expected_counts.items(), key=lambda kv: (kv[1], kv[0]))\<close>.\<close>

definition expected_counts :: "item list \<Rightarrow> (string \<times> nat) list" where
  "expected_counts items =
     fold (\<lambda>it d. dict_set (it_expected it) (dict_get (it_expected it) 0 d + 1) d) items []"

definition more_common :: "string \<times> nat \<Rightarrow> string \<times> nat \<Rightarrow> string \<times> nat" where
  "more_common kv best = (if snd best < snd kv \<or> snd best = snd kv \<and> fst best < fst kv then kv else best)"

definition floor_of :: "item list \<Rightarrow> string \<times> nat" where
  "floor_of items = (let counts = expected_counts items in fold more_common (tl counts) (hd counts))"

definition from_report :: "'a pres_report \<Rightarrow> 'a hres" where
  "from_report r = map_errE HtmlReport r"

definition build_transparency_report ::
    "externals \<Rightarrow> nat \<Rightarrow> (json \<Rightarrow> string) \<Rightarrow> string \<Rightarrow> (flt list \<Rightarrow> rat) \<Rightarrow> out_dir \<Rightarrow> string
       \<Rightarrow> transparency_report hres" where
  "build_transparency_report ext limit pstr em avg od run_id =
     bindE (from_report (open_run_store limit od run_id)) (\<lambda>(manifest, rows).
     bindE (from_report (as_report (load_run_suite ext od run_id))) (\<lambda>s.
     bindE (suite_labels s) (\<lambda>labels.
     bindE (from_report (build_run_report ext limit pstr od run_id)) (\<lambda>roll_up.
     let models = map mo_model (rp_models roll_up) in
     bindE (group_rows rows) (\<lambda>groups.
     bindE (checkE (list_ex (\<lambda>r. rr_scorer r = JStr VERDICT_SCORER) rows) (HtmlError (NoVerdictCells run_id))) (\<lambda>_.
     bindE (mapE (build_item limit pstr em labels (derive_facets avg (su_items s)) groups models) (su_items s)) (\<lambda>items.
       Inr \<lparr>tr_run_id = rp_run_id roll_up, tr_suite = rp_suite roll_up, tr_suite_hash = rp_suite_hash roll_up,
            tr_started = rp_started roll_up, tr_models = models, tr_labels = labels,
            tr_floor_label = fst (floor_of (su_items s)),
            tr_floor_score = 100 * of_nat (snd (floor_of (su_items s))) / of_nat (length (su_items s)),
            tr_preregistration = (case fld manifest ''preregistration'' of
               JStr p \<Rightarrow> if p = [] then None else Some p | _ \<Rightarrow> None),
            tr_manifest = manifest, tr_items = items,
            tr_reproduced = reproduced_cells groups models (su_items s), tr_roll_up = roll_up,
            tr_identity = dict_of (map (\<lambda>m. (mo_model m, m)) (rp_models roll_up))\<rparr>)))))))"


section \<open>What the page shows\<close>

text \<open>\<open>_median\<close>: the upper middle element.\<close>

definition upper_median :: "json list \<Rightarrow> json option hres" where
  "upper_median values =
     bindE (sort_by_json (\<lambda>v. v) values) (\<lambda>ordered.
       Inr (if ordered = [] then None else Some (ordered ! (length ordered div 2))))"

record model_totals =
  mt_n :: nat
  mt_score :: "report_score option"
  mt_correct :: nat
  mt_answered :: nat
  mt_answered_correct :: nat
  mt_median :: "json option"
  mt_outcomes :: "(cell_outcome \<times> nat) list"
  mt_diagnostic :: rat
  mt_unreadable :: nat

definition cells_of :: "item_report \<Rightarrow> string \<Rightarrow> cell_report list" where
  "cells_of ir model = dict_get model [] (ir_cells ir)"

definition graded_cells :: "transparency_report \<Rightarrow> string \<Rightarrow> cell_report list" where
  "graded_cells r model = concat (map (\<lambda>ir. cells_of ir model) (tr_items r))"

definition count_outcomes :: "cell_report list \<Rightarrow> (cell_outcome \<times> nat) list" where
  "count_outcomes cells = fold (\<lambda>c d. dict_set (cl_outcome c) (dict_get (cl_outcome c) 0 d + 1) d) cells []"

definition count_cells :: "(cell_report \<Rightarrow> bool) \<Rightarrow> cell_report list \<Rightarrow> nat" where
  "count_cells P cells = length (filter P cells)"

definition percent :: "nat \<Rightarrow> nat \<Rightarrow> rat" where
  "percent k n = (if n = 0 then 0 else 100 * of_nat k / of_nat n)"

definition cell_scores :: "cell_report list \<Rightarrow> report_score list hres" where
  "cell_scores cells =
     mapE (\<lambda>c. from_report (score_number_of (cl_score c))) (filter (\<lambda>c. cl_score c \<noteq> JNull) cells)"

definition model_totals_of :: "transparency_report \<Rightarrow> string \<Rightarrow> model_totals hres" where
  "model_totals_of r model =
     (let graded = graded_cells r model; counts = count_outcomes graded;
          answered = filter (\<lambda>c. cl_outcome c \<in> {OUTCOME_CORRECT, OUTCOME_WRONG}) graded;
          hits = count_cells (\<lambda>c. cl_outcome c = OUTCOME_CORRECT
            \<or> (json_number (cl_score c) = Some 0 \<and> cl_recoverable c)) graded
      in bindE (cell_scores graded) (\<lambda>scores.
         bindE (upper_median (filter (\<lambda>v. v \<noteq> JNull) (map cl_elapsed graded))) (\<lambda>median.
           Inr \<lparr>mt_n = length graded, mt_score = (if scores = [] then None else Some (mean_score scores)),
                mt_correct = dict_get OUTCOME_CORRECT 0 counts, mt_answered = length answered,
                mt_answered_correct = count_cells (\<lambda>c. cl_outcome c = OUTCOME_CORRECT) answered,
                mt_median = median, mt_outcomes = counts,
                mt_diagnostic = percent hits (length graded),
                mt_unreadable = count_cells (\<lambda>c. cl_outcome c \<in>
                  {OUTCOME_NO_VERDICT, OUTCOME_NO_RESPONSE, OUTCOME_ERROR}) graded\<rparr>)))"

definition score_json :: "(report_score \<Rightarrow> flt) \<Rightarrow> report_score option \<Rightarrow> json" where
  "score_json fl s = (case s of None \<Rightarrow> JNull | Some x \<Rightarrow> JFloat (fl x))"

definition totals_json :: "(report_score \<Rightarrow> flt) \<Rightarrow> model_totals \<Rightarrow> json" where
  "totals_json fl t = JObj [
     (''n'', JInt (int (mt_n t))), (''score'', score_json fl (mt_score t)),
     (''correct'', JInt (int (mt_correct t))), (''answered'', JInt (int (mt_answered t))),
     (''answered_correct'', JInt (int (mt_answered_correct t))),
     (''median_s'', case mt_median t of None \<Rightarrow> JNull | Some v \<Rightarrow> v),
     (''outcomes'', JObj (map (\<lambda>(oc, n). (outcome_text oc, JInt (int n))) (mt_outcomes t))),
     (''diagnostic_score'', JFloat (fl (Score (mt_diagnostic t)))),
     (''diagnostic_unreadable'', JInt (int (mt_unreadable t)))]"

section \<open>Facet tables\<close>

definition facet_names :: "transparency_report \<Rightarrow> string list" where
  "facet_names r = fromkeys (concat (map (\<lambda>ir. keys (ir_facets ir)) (tr_items r)))"

definition facet_values :: "transparency_report \<Rightarrow> string \<Rightarrow> string list" where
  "facet_values r name = fromkeys (concat (map (\<lambda>ir.
     case map_of (ir_facets ir) name of None \<Rightarrow> [] | Some v \<Rightarrow> [v]) (tr_items r)))"

definition facet_row ::
    "(report_score \<Rightarrow> flt) \<Rightarrow> transparency_report \<Rightarrow> string \<Rightarrow> string \<Rightarrow> json hres" where
  "facet_row fl r name v =
     (let members = filter (\<lambda>ir. map_of (ir_facets ir) name = Some v) (tr_items r)
      in bindE (mapE (\<lambda>model.
           bindE (cell_scores (concat (map (\<lambda>ir. cells_of ir model) members))) (\<lambda>scores.
             Inr (model, score_json fl (if scores = [] then None else Some (mean_score scores))))) (tr_models r))
         (\<lambda>scores.
           Inr (JObj [(''value'', JStr v), (''n'', JInt (int (length members))), (''scores'', JObj (dict_of scores))])))"

definition facet_payload :: "(report_score \<Rightarrow> flt) \<Rightarrow> transparency_report \<Rightarrow> json hres" where
  "facet_payload fl r =
     bindE (mapE (\<lambda>name.
       bindE (mapE (facet_row fl r name) (facet_values r name)) (\<lambda>rows.
         Inr (JObj [(''name'', JStr name), (''values'', JList rows)]))) (facet_names r)) (\<lambda>facets.
       Inr (JList facets))"

section \<open>Provenance, limits, execution\<close>

definition planned_cells :: "transparency_report \<Rightarrow> int option" where
  "planned_cells r =
     (let n = int (length (tr_items r)) * int (length (tr_models r))
      in case fld (tr_manifest r) ''samples_per_cell'' of
           JInt s \<Rightarrow> Some (n * s)
         | JBool b \<Rightarrow> Some (n * (if b then 1 else 0))
         | _ \<Rightarrow> None)"

definition stored_cells :: "transparency_report \<Rightarrow> nat" where
  "stored_cells r = sum_list (map (\<lambda>ir. sum_list (map (\<lambda>m. length (cells_of ir m)) (tr_models r))) (tr_items r))"

definition budget_text :: "(json \<Rightarrow> string) \<Rightarrow> transparency_report \<Rightarrow> string" where
  "budget_text pstr r = (case fld (tr_manifest r) ''budgets'' of
     JObj d \<Rightarrow> str_of pstr (fld_default d ''max_calls'' (JStr []))
   | _ \<Rightarrow> [])"

definition provenance_rows ::
    "(json \<Rightarrow> string) \<Rightarrow> (report_score \<Rightarrow> string) \<Rightarrow> transparency_report \<Rightarrow> (string \<times> string) list" where
  "provenance_rows pstr fmt1 r =
     (let cells = show_nat (stored_cells r); budget = budget_text pstr r;
          grid = show_nat (length (tr_items r)) @ '' x '' @ show_nat (length (tr_models r)) @ '' x ''
            @ str_of pstr (fld (tr_manifest r) ''samples_per_cell'')
      in [(''Run id'', tr_run_id r), (''Suite'', tr_suite r), (''Suite hash'', tr_suite_hash r),
          (''Roster'', join '', '' (tr_models r)),
          (''Items x models x samples'', case planned_cells r of
             Some p \<Rightarrow> grid @ '' = '' @ show_int p @ '' planned cells'' | None \<Rightarrow> grid),
          (''Stored cells'', case planned_cells r of
             Some p \<Rightarrow> cells @ '' / '' @ show_int p @ '' planned'' | None \<Rightarrow> cells),
          (''Call budget'', if budget \<noteq> [] then cells @ '' / '' @ budget @ '' used'' else cells),
          (''Started (UTC)'', tr_started r),
          (''Config source'', str_of pstr (fld_default (tr_manifest r) ''config_source'' (JStr []))),
          (''Scoring'', ''verdict '' @ [CHR 0xB7] @ '' labels '' @ join ''|'' (tr_labels r) @ '' '' @ [CHR 0xB7]
             @ '' deterministic''),
          (''Degenerate floor'', fmt1 (Score (tr_floor_score r)) @ '' (always '' @ [CHR 0x22] @ tr_floor_label r
             @ [CHR 0x22] @ '')''),
          (''Reproduced cells'', show_nat (tr_reproduced r) @ '' re-scored, all matching the store'')])"

definition limits_of :: "transparency_report \<Rightarrow> string list" where
  "limits_of r =
     (if json_number (fld (tr_manifest r) ''samples_per_cell'') = Some 1
      then [''<strong>One sample per cell.</strong> There is no variance estimate, so a score near '' @
        ''the degenerate floor is a single draw rather than a distribution &mdash; the gap '' @
        ''between them is not established.''] else []) @
     [''<strong>One run.</strong> Nothing here speaks to run-to-run stability; no repetition '' @
        ''was performed.'',
      ''<strong>'' @ show_nat (length (tr_models r)) @ '' model(s) on one instrument.</strong> Results do not '' @
        ''transfer to another suite, provider, or roster.''] @
     (if fld (tr_manifest r) ''config_source'' = JStr ''defaults''
      then [''<strong>Built-in defaults.</strong> No operator config file was resolved for this '' @
        ''run; the value is recorded in the manifest rather than silently assumed.''] else []) @
     (if tr_preregistration r = None
      then [''<strong>No preregistered claim.</strong> Nothing was committed before the results '' @
        ''were seen, so any conclusion drawn here is post hoc.''] else []) @
     [''<strong>The first-label-wins figure is a diagnostic, not a score.</strong> It must never '' @
        ''be quoted as a result.'']"

text \<open>\<open>identity_by_model[name]\<close> finds every model of a report that was built.\<close>

definition arm_json :: "transparency_report \<Rightarrow> string \<Rightarrow> json" where
  "arm_json r name =
     (let m = the (map_of (tr_identity r) name) in JObj [
        (''model'', JStr name), (''provider'', str_or_null (mo_provider m)),
        (''requested_model'', str_or_null (mo_requested m)),
        (''stored_identities'', strs_json (mo_stored m)), (''resolved_identities'', strs_json (mo_resolved m)),
        (''identity_provenance'', JStr (mo_provenance m)), (''identity_unresolved'', JBool (mo_unresolved m)),
        (''routing_eligible'', case mo_routing m of None \<Rightarrow> JNull | Some b \<Rightarrow> JBool b),
        (''eligibility'', JStr (eligibility m))])"

definition execution_payload :: "transparency_report \<Rightarrow> json" where
  "execution_payload r =
     (let p = tr_roll_up r in JObj [
        (''sealed'', JBool (sealed p)), (''seal_status'', JStr (seal_status p)),
        (''not_routing_eligible'', JStr NOT_ROUTING_ELIGIBLE), (''unresolved_identity'', JStr UNRESOLVED_MODEL_ID),
        (''profile_id'', ev_field ev_profile_id p), (''execution_profile_sha256'', ev_field ev_execution_sha p),
        (''provider_profile_sha256'', ev_field ev_provider_sha p),
        (''context_profile_sha256'', ev_field ev_context_sha p), (''receipt_sha256'', ev_field ev_receipt_sha p),
        (''claude_executable'', str_or_null (map_option fst (Option.bind (rp_execution p) ev_claude))),
        (''claude_version'', str_or_null (map_option snd (Option.bind (rp_execution p) ev_claude))),
        (''gemini_request_contract'', gemini_field (\<lambda>g. JStr (gc_contract g)) p),
        (''gemini_max_output_tokens'', gemini_field (\<lambda>g. JInt (gc_max_output_tokens g)) p),
        (''gemini_thinking_level'', gemini_field (\<lambda>g. JStr (gc_thinking_level g)) p),
        (''gemini_timeout_s'', gemini_field (\<lambda>g. JFloat (gc_timeout g)) p),
        (''arms'', JList (map (arm_json r) (tr_models r)))])"


section \<open>The page\<close>

definition cell_json :: "cell_report \<Rightarrow> json" where
  "cell_json c = JObj [
     (''sample_k'', cl_sample_k c), (''raw'', cl_raw c), (''parsed'', cl_parsed c), (''score'', cl_score c),
     (''elapsed_s'', cl_elapsed c), (''outcome'', JStr (outcome_text (cl_outcome c))),
     (''why'', JStr (cl_why c)), (''labels_present'', strs_json (cl_labels c)),
     (''diagnostic_recoverable'', JBool (cl_recoverable c))]"

definition item_json :: "item_report \<Rightarrow> json" where
  "item_json ir = JObj [
     (''id'', JStr (ir_id ir)), (''prompt'', JStr (ir_prompt ir)), (''expected'', JStr (ir_expected ir)),
     (''prior'', JFloat (ir_prior ir)), (''provenance'', JStr (ir_provenance ir)),
     (''facets'', JObj (map (\<lambda>(p, v). (p, JStr v)) (ir_facets ir))),
     (''cells'', JObj (map (\<lambda>(m, cs). (m, JList (map cell_json cs))) (ir_cells ir)))]"

definition repro_text :: "string \<Rightarrow> string" where
  "repro_text run_id =
     ''# re-render this page from the stored run (no model is called)'' @ [newline] @
     ''uv run mt report '' @ run_id @ '' --html'' @ [newline, newline] @
     ''# re-score the stored raw responses offline, then re-read the summary'' @ [newline] @
     ''uv run mt score '' @ run_id @ [newline] @ ''uv run mt report '' @ run_id"

definition page_title :: "string \<Rightarrow> transparency_report \<Rightarrow> string" where
  "page_title em r = tr_suite r @ '' '' @ em @ '' '' @ tr_run_id r"

definition payload ::
    "(json \<Rightarrow> string) \<Rightarrow> string \<Rightarrow> (report_score \<Rightarrow> flt) \<Rightarrow> (report_score \<Rightarrow> string) \<Rightarrow> transparency_report
       \<Rightarrow> json hres" where
  "payload pstr em fl fmt1 r =
     bindE (mapE (\<lambda>m. bindE (model_totals_of r m) (\<lambda>t. Inr (m, totals_json fl t))) (tr_models r)) (\<lambda>totals.
     bindE (facet_payload fl r) (\<lambda>facets.
       Inr (JObj [
         (''title'', JStr (page_title em r)), (''run_id'', JStr (tr_run_id r)), (''models'', strs_json (tr_models r)),
         (''labels'', strs_json (tr_labels r)),
         (''floor'', JObj [(''label'', JStr (tr_floor_label r)), (''score'', JFloat (fl (Score (tr_floor_score r))))]),
         (''preregistration'', str_or_null (tr_preregistration r)),
         (''provenance'', JList (map (\<lambda>(k, v). strs_json [k, v]) (provenance_rows pstr fmt1 r))),
         (''execution'', execution_payload r), (''repro'', JStr (repro_text (tr_run_id r))),
         (''totals'', JObj (dict_of totals)), (''facets'', facets),
         (''integrity'', JObj [(''cells'', JInt (int (tr_reproduced r)))]), (''limits'', strs_json (limits_of r)),
         (''items'', JList (map item_json (tr_items r)))])))"

lemma strip_prefix_length: "strip_prefix w s = Some r \<Longrightarrow> length s = length w + length r"
  by (induction w s rule: strip_prefix.induct) (auto split: if_splits)

text \<open>\<open>str.replace\<close> of a non-empty text: every occurrence from the left.\<close>

function replace_text :: "string \<Rightarrow> string \<Rightarrow> string \<Rightarrow> string" where
  "replace_text needle new [] = []"
| "replace_text needle new (c # s) =
     (if needle = [] then c # s
      else case strip_prefix needle (c # s) of
        None \<Rightarrow> c # replace_text needle new s
      | Some rest \<Rightarrow> new @ replace_text needle new rest)"
  by pat_completeness auto
termination
  by (relation "measure (\<lambda>(needle, new, s). length s)") (auto dest!: strip_prefix_length)

definition escape_lt :: "string \<Rightarrow> string" where
  "escape_lt s = concat (map (\<lambda>c. if c = CHR ''<'' then CHR 0x5C # ''u003c'' else [c]) s)"

definition data_island :: "json \<Rightarrow> string" where
  "data_island j = escape_lt (dumps_with '','' '':'' j)"

definition fill_template :: "string \<Rightarrow> string \<Rightarrow> string \<Rightarrow> string" where
  "fill_template template title blob =
     (let page = replace_text ''__DATA__'' blob (replace_text ''__TITLE__'' title template)
      in if page \<noteq> [] \<and> last page = newline then page else page @ [newline])"

text \<open>The template is a file beside the module: its text, or \<open>None\<close> when it cannot be read.\<close>

definition load_template :: "string option \<Rightarrow> string hres" where
  "load_template file = (case file of None \<Rightarrow> Inl (HtmlError TemplateUnreadable) | Some t \<Rightarrow> Inr t)"

definition render_transparency_report ::
    "(json \<Rightarrow> string) \<Rightarrow> string \<Rightarrow> (report_score \<Rightarrow> flt) \<Rightarrow> (report_score \<Rightarrow> string) \<Rightarrow> string option
       \<Rightarrow> transparency_report \<Rightarrow> string hres" where
  "render_transparency_report pstr em fl fmt1 template r =
     bindE (payload pstr em fl fmt1 r) (\<lambda>j.
     bindE (load_template template) (\<lambda>t.
       Inr (fill_template t (page_title em r) (data_island j))))"

end
