(* ===== verification/Report_Html_Facts.thy ===== *)
theory Report_Html_Facts
  imports Report_Html "HOL-Library.Multiset"
begin

text \<open>
  What the item-level page guarantees: it shows every stored row of the grid once, only cells that score
  again as stored, outcomes that follow from the extractor, totals that add up, and a data island that
  carries the payload and no tag.
\<close>

section \<open>What a probe with one label sees\<close>

definition object_shows :: "nat \<Rightarrow> string \<Rightarrow> string \<Rightarrow> bool" where
  "object_shows limit candidate l \<longleftrightarrow> (\<exists>d k v. try_json limit candidate = Some (JObj d) \<and>
     k \<in> set verdict_key_priority \<and> map_of (lowered_keys d) k = Some (JStr v) \<and> word_in None l v)"

definition shows_label :: "nat \<Rightarrow> string \<Rightarrow> string \<Rightarrow> bool" where
  "shows_label limit t l \<longleftrightarrow>
     (\<exists>(a, b) \<in> set (json_object_spans t). object_shows limit (slice t a b) l) \<or>
     (\<exists>v \<in> set (labeled_values t). word_in None l v) \<or>
     word_in None l (text_outside_valid_json limit t (json_object_spans t))"

lemma unique_label_one: "unique_label v [l] = (if word_in None l v then Some l else None)"
  by (simp add: unique_label_def labels_present_def)

lemma unique_label_None:
  assumes "unique_label v ls = None" and "l \<in> set ls" and "word_in None l v"
  shows "\<exists>l' \<in> set ls. l' \<noteq> l \<and> word_in None l' v"
proof (rule ccontr)
  assume "\<not> ?thesis"
  with assms(2,3) have "unique_label v ls = Some l" by (auto simp: unique_label_Some)
  with assms(1) show False by simp
qed

lemma first_resolved_one:
  "first_resolved d [l] ks \<noteq> None \<longleftrightarrow> (\<exists>k \<in> set ks. \<exists>v. map_of d k = Some (JStr v) \<and> word_in None l v)"
proof (induction ks)
  case (Cons k ks)
  then show ?case
    by (cases "map_of d k"; cases "the (map_of d k)") (auto simp: unique_label_one)
qed simp

lemma first_resolved_Some:
  "first_resolved d ls ks = Some l \<Longrightarrow> \<exists>k \<in> set ks. \<exists>v. map_of d k = Some (JStr v) \<and> word_in None l v"
proof (induction ks)
  case (Cons k ks)
  then show ?case
    by (cases "map_of d k"; cases "the (map_of d k)") (auto simp: unique_label_Some split: option.splits)
qed simp

lemma first_resolved_None:
  assumes "first_resolved d ls ks = None" and "k \<in> set ks" and "map_of d k = Some (JStr v)"
  shows "unique_label v ls = None"
  using assms
proof (induction ks)
  case (Cons k' ks)
  show ?case
  proof (cases "k = k'")
    case True
    then show ?thesis using Cons.prems by (auto split: option.splits)
  next
    case False
    moreover have "first_resolved d ls ks = None"
      using Cons.prems(1) by (cases "map_of d k'"; cases "the (map_of d k')") (auto split: option.splits)
    ultimately show ?thesis using Cons by auto
  qed
qed simp

lemma object_label_one: "object_label limit [l] c \<noteq> None \<longleftrightarrow> object_shows limit c l"
proof (cases "try_json limit c")
  case (Some j)
  then show ?thesis
    using first_resolved_one [of _ l verdict_key_priority]
    by (cases j) (auto simp: object_label_def object_shows_def)
qed (simp add: object_label_def object_shows_def)

lemma object_label_Some: "object_label limit ls c = Some l \<Longrightarrow> object_shows limit c l"
  by (auto simp: object_label_def object_shows_def split: option.splits json.splits dest!: first_resolved_Some)

lemma object_label_None:
  assumes "object_label limit ls c = None" and "l \<in> set ls" and "object_shows limit c l"
  shows "\<exists>l' \<in> set ls. l' \<noteq> l \<and> object_shows limit c l'"
proof -
  obtain d k v where d: "try_json limit c = Some (JObj d)" "k \<in> set verdict_key_priority"
    "map_of (lowered_keys d) k = Some (JStr v)" "word_in None l v"
    using assms(3) by (auto simp: object_shows_def)
  with assms(1) have "unique_label v ls = None"
    by (auto simp: object_label_def intro: first_resolved_None)
  from unique_label_None [OF this assms(2) d(4)] d(1-3) show ?thesis by (auto simp: object_shows_def)
qed

lemma json_labels_iff:
  "l \<in> set (json_labels limit t ls spans) \<longleftrightarrow>
     (\<exists>ab \<in> set spans. object_label limit ls (slice t (fst ab) (snd ab)) = Some l)"
  by (simp only: json_labels_eq mem_option_concat)

lemma line_labels_iff:
  "l \<in> set (line_labels t ls) \<longleftrightarrow> (\<exists>v \<in> set (labeled_values t). unique_label v ls = Some l)"
  by (simp only: line_labels_def mem_option_concat)

lemma single_label: "set found \<subseteq> {l} \<Longrightarrow>
    single_or_conflict found = (if found = [] then (None, False) else (Some l, False))"
  by (cases found) (auto intro!: single_or_conflict_one)

lemma probe_shows: "extract_verdict_label limit t [l] \<noteq> None \<longleftrightarrow> shows_label limit t l"
proof -
  let ?s = "json_object_spans t"
  let ?J = "json_labels limit t [l] ?s" and ?L = "line_labels t [l]"
  have J: "set ?J \<subseteq> {l}" using json_labels_mem [of _ limit t "[l]" ?s] by auto
  have L: "set ?L \<subseteq> {l}" using line_labels_mem [of _ t "[l]"] by auto
  have "?J \<noteq> [] \<longleftrightarrow> (\<exists>x. x \<in> set ?J)" by (cases ?J) auto
  then have jn: "?J \<noteq> [] \<longleftrightarrow> (\<exists>(a, b) \<in> set ?s. object_shows limit (slice t a b) l)"
  proof -
    have "(\<exists>x ab. ab \<in> set ?s \<and> object_label limit [l] (slice t (fst ab) (snd ab)) = Some x) \<longleftrightarrow>
        (\<exists>ab \<in> set ?s. object_label limit [l] (slice t (fst ab) (snd ab)) \<noteq> None)"
      by blast
    then show ?thesis
      using \<open>?J \<noteq> [] \<longleftrightarrow> (\<exists>x. x \<in> set ?J)\<close> unfolding json_labels_iff object_label_one case_prod_beta by blast
  qed
  have "?L \<noteq> [] \<longleftrightarrow> (\<exists>x. x \<in> set ?L)" by (cases ?L) auto
  then have ln: "?L \<noteq> [] \<longleftrightarrow> (\<exists>v \<in> set (labeled_values t). word_in None l v)"
    unfolding line_labels_iff unique_label_one by (auto split: if_splits)
  show ?thesis
    unfolding shows_label_def jn [symmetric] ln [symmetric]
    by (simp add: extract_verdict_label_def Let_def single_label [OF J] single_label [OF L] unique_label_one)
qed

lemma conflict_cases:
  assumes "single_or_conflict found = (None, c)"
  shows "if c then \<forall>l. \<exists>l' \<in> set found. l' \<noteq> l else found = []"
proof (cases "found = []")
  case False
  then obtain x where x: "x \<in> set found" by (cases found) auto
  have n: "\<not> (\<exists>l. set found = {l})"
  proof
    assume "\<exists>l. set found = {l}"
    then obtain l where "set found = {l}" by blast
    from single_or_conflict_one [OF this] assms show False by simp
  qed
  then have c: "c = (found \<noteq> [])" using assms unfolding single_or_conflict_iff by (simp only: if_False prod.inject)
  have "\<exists>l' \<in> set found. l' \<noteq> l" for l
  proof (rule ccontr)
    assume "\<not> ?thesis"
    then have "set found \<subseteq> {l}" by blast
    with x have "set found = {l}" by blast
    with n show False by blast
  qed
  with False c show ?thesis by simp
qed (use assms in simp)

text \<open>When the extractor gives up although a label shows, a second label shows: the refusal is a conflict.\<close>

lemma second_label:
  assumes none: "extract_verdict_label limit t ls = None" and l: "l \<in> set ls" and s: "shows_label limit t l"
  shows "\<exists>l' \<in> set ls. l' \<noteq> l \<and> shows_label limit t l'"
proof -
  let ?s = "json_object_spans t"
  let ?J = "json_labels limit t ls ?s" and ?L = "line_labels t ls"
  have js: "shows_label limit t x" if m: "x \<in> set ?J" for x
  proof -
    obtain ab where "ab \<in> set ?s" "object_label limit ls (slice t (fst ab) (snd ab)) = Some x"
      using m unfolding json_labels_iff by blast
    then show ?thesis
      using object_label_Some [of limit ls _ x] unfolding shows_label_def case_prod_beta by blast
  qed
  have ls': "shows_label limit t x" if "x \<in> set ?L" for x
    using that unfolding line_labels_iff shows_label_def unique_label_Some by blast
  from l have "ls \<noteq> []" by auto
  note e = extract_verdict_label_def [of limit t ls, unfolded Let_def if_not_P [OF this]]
  obtain o1 c where oc: "single_or_conflict ?J = (o1, c)" by (cases "single_or_conflict ?J")
  with none e have J: "single_or_conflict ?J = (None, c)" by (cases o1) simp_all
  show ?thesis
  proof (cases c)
    case True
    then obtain l' where "l' \<in> set ?J" "l' \<noteq> l" using conflict_cases [OF J] by auto
    then show ?thesis using js json_labels_mem [of l' limit t ls ?s] by blast
  next
    case False
    with conflict_cases [OF J] have Je: "?J = []" by simp
    obtain o2 c' where "single_or_conflict ?L = (o2, c')" by (cases "single_or_conflict ?L")
    with none e Je have L: "single_or_conflict ?L = (None, c')" by (cases o2) simp_all
    show ?thesis
    proof (cases c')
      case True
      then obtain l' where "l' \<in> set ?L" "l' \<noteq> l" using conflict_cases [OF L] by auto
      then show ?thesis using ls' line_labels_mem [of l' t ls] by blast
    next
      case False
      with conflict_cases [OF L] have Le: "?L = []" by simp
      with Je none e have u: "unique_label (text_outside_valid_json limit t ?s) ls = None" by simp
      from s consider a b where "(a, b) \<in> set ?s" "object_shows limit (slice t a b) l"
        | v where "v \<in> set (labeled_values t)" "word_in None l v"
        | "word_in None l (text_outside_valid_json limit t ?s)"
        unfolding shows_label_def by blast
      then show ?thesis
      proof cases
        case 1
        then have "object_label limit ls (slice t a b) = None"
          using Je json_labels_iff [of _ limit t ls ?s] by (metis all_not_in_conv empty_set fst_conv not_None_eq snd_conv)
        from object_label_None [OF this l 1(2)] 1(1) show ?thesis unfolding shows_label_def by blast
      next
        case 2
        then have "unique_label v ls = None"
          using Le line_labels_iff [of _ t ls] by (metis all_not_in_conv empty_set not_None_eq)
        from unique_label_None [OF this l 2(2)] 2(1) show ?thesis unfolding shows_label_def by blast
      next
        case 3
        from unique_label_None [OF u l this] show ?thesis unfolding shows_label_def by blast
      qed
    qed
  qed
qed

text \<open>So exactly one recognized label means that the extractor returned one.\<close>

lemma one_label_extracted:
  assumes "extract_verdict_label limit t ls = None"
  shows "labels_recognized limit t ls = [] \<or> 2 \<le> length (labels_recognized limit t ls)"
proof (cases "labels_recognized limit t ls")
  case (Cons l xs)
  then have m: "set (labels_recognized limit t ls) = insert l (set xs)" by simp
  then have "l \<in> set ls" "shows_label limit t l" unfolding labels_recognized_def probe_shows by auto
  from second_label [OF assms this] obtain l' where "l' \<noteq> l" "l' \<in> set (labels_recognized limit t ls)"
    unfolding labels_recognized_def probe_shows by auto
  with m have "xs \<noteq> []" by auto
  with Cons show ?thesis by (cases xs) simp_all
qed simp

section \<open>The search for the first label\<close>

lemma bisect_bounds: "low \<le> high \<Longrightarrow> low \<le> bisect P low high \<and> bisect P low high \<le> high"
proof (induction P low high rule: bisect.induct)
  case (1 P low high)
  let ?mid = "(low + high) div 2"
  show ?case
  proof (cases "low < high")
    case True
    then have "low \<le> ?mid" "?mid < high" by auto
    with True 1 show ?thesis unfolding bisect.simps [of P low high] by (auto simp: Let_def)
  qed (use 1 in \<open>simp add: bisect.simps\<close>)
qed

lemma bisect_holds: "low \<le> high \<Longrightarrow> P high \<Longrightarrow> P (bisect P low high)"
proof (induction P low high rule: bisect.induct)
  case (1 P low high)
  then show ?case by (subst bisect.simps) (auto simp: Let_def)
qed


text \<open>A best so far is a cut of the text with a label that the extractor recognizes in the prefix.\<close>

definition cut_ok :: "nat \<Rightarrow> string \<Rightarrow> string list \<Rightarrow> nat \<times> string \<Rightarrow> bool" where
  "cut_ok limit t ls b \<longleftrightarrow> snd b \<in> set ls \<and> fst b \<in> set (cut_points t)
     \<and> extract_verdict_label limit t [snd b] \<noteq> None
     \<and> extract_verdict_label limit (take (fst b) t) [snd b] \<noteq> None"

lemma earliest_cut_ok:
  assumes "l \<in> set ls" and "extract_verdict_label limit t [l] \<noteq> None"
  shows "cut_ok limit t ls (earliest_cut limit t l, l)"
proof -
  let ?c = "cut_points t" and ?P = "\<lambda>i. extract_verdict_label limit (take (cut_points t ! i) t) [l] \<noteq> None"
  have last: "?c ! (length ?c - 1) = length t" by (simp add: cut_points_def nth_append)
  then have "?P (length ?c - 1)" using assms(2) by simp
  then have "?P (bisect ?P 0 (length ?c - 1))" by (rule bisect_holds [OF le0])
  moreover have "bisect ?P 0 (length ?c - 1) < length ?c"
    using bisect_bounds [of 0 "length ?c - 1" ?P] by (auto simp: cut_points_def)
  then have "?c ! bisect ?P 0 (length ?c - 1) \<in> set ?c" by (rule nth_mem)
  ultimately show ?thesis using assms by (simp add: cut_ok_def earliest_cut_def Let_def)
qed

lemma first_loop_ok:
  assumes "set rest \<subseteq> set ls" and "case best of None \<Rightarrow> True | Some b \<Rightarrow> cut_ok limit t ls b"
  shows "(case first_loop limit t best rest of
      None \<Rightarrow> best = None \<and> labels_recognized limit t rest = []
    | Some b \<Rightarrow> cut_ok limit t ls b)"
  using assms
proof (induction rest arbitrary: best)
  case Nil
  then show ?case by (cases best) (simp_all add: labels_recognized_def)
next
  case (Cons l rest)
  show ?case
  proof (cases "extract_verdict_label limit t [l] = None")
    case True
    then have "first_loop limit t best (l # rest) = first_loop limit t best rest"
      "labels_recognized limit t (l # rest) = labels_recognized limit t rest"
      by (simp_all add: labels_recognized_def)
    moreover have "set rest \<subseteq> set ls" using Cons.prems(1) by simp
    ultimately show ?thesis using Cons.IH [OF _ Cons.prems(2)] by (simp only: )
  next
    case False
    let ?b = "case best of None \<Rightarrow> Some (earliest_cut limit t l, l)
      | Some b \<Rightarrow> if earliest_cut limit t l < fst b then Some (earliest_cut limit t l, l) else Some b"
    have "cut_ok limit t ls (earliest_cut limit t l, l)"
      using False Cons.prems(1) by (intro earliest_cut_ok) auto
    then have "\<exists>b. ?b = Some b \<and> cut_ok limit t ls b"
      using Cons.prems(2) by (cases best; cases "earliest_cut limit t l < fst (the best)") (simp_all del: split_paired_Ex)
    then obtain b where b: "?b = Some b" "cut_ok limit t ls b" by blast
    have "first_loop limit t best (l # rest) = first_loop limit t (Some b) rest"
      unfolding first_loop.simps Let_def if_not_P [OF False] b(1) by (rule refl)
    moreover have "set rest \<subseteq> set ls" using Cons.prems(1) by simp
    ultimately show ?thesis
      using Cons.IH [of "Some b"] b(2) by (cases "first_loop limit t (Some b) rest") (auto simp del: first_loop.simps)
  qed
qed

section \<open>Outcomes\<close>

lemma score_verdict_cases:
  assumes "score_verdict limit labels it raw = Inr oc"
  shows "(case extract_verdict_label limit raw labels of
      None \<Rightarrow> oc_parsed oc = Some PARSE_FAIL_MARKER \<and> oc_score oc = Some flt_zero
    | Some l \<Rightarrow> oc_parsed oc = Some l \<and>
        oc_score oc = Some (if casefold (strip l) = casefold (strip (it_expected it)) then flt_one else flt_zero))"
  using assms by (auto simp: score_verdict_Inr split: option.splits)

lemma flt_units: "flt_val flt_one = Some 1" "flt_val flt_zero = Some 0"
  by (simp_all add: flt_one_def flt_zero_def pow10_def)

definition right_answer :: "item \<Rightarrow> string \<Rightarrow> bool" where
  "right_answer it l \<longleftrightarrow> casefold (strip l) = casefold (strip (it_expected it))"

lemma scored_cell_outcome:
  assumes "score_verdict limit labels it raw = Inr oc" and "reproduces oc row" and "PARSE_FAIL_MARKER \<notin> set labels"
  shows "cl_outcome (scored_cell limit em row it labels raw) =
     (case extract_verdict_label limit raw labels of
        Some l \<Rightarrow> if right_answer it l then OUTCOME_CORRECT else OUTCOME_WRONG
      | None \<Rightarrow> if labels_recognized limit raw labels = [] then OUTCOME_NO_VERDICT else OUTCOME_REFUSED)"
proof (cases "extract_verdict_label limit raw labels")
  case None
  then have "rr_parsed row = JStr PARSE_FAIL_MARKER"
    using score_verdict_cases [OF assms(1)] assms(2) by (simp add: reproduces_def)
  then show ?thesis
    using one_label_extracted [OF None] None
    by (auto simp: scored_cell_def cell_of_def Let_def split: list.splits)
next
  case (Some l)
  with extract_mem assms(3) have "l \<noteq> PARSE_FAIL_MARKER" by blast
  then show ?thesis
    using score_verdict_cases [OF assms(1)] assms(2) Some
    by (auto simp: scored_cell_def cell_of_def Let_def reproduces_def right_answer_def flt_units split: if_splits)
qed

lemma scored_cell_fields:
  "cl_sample_k (scored_cell limit em row it labels raw) = rr_sample_k row"
  "cl_model (scored_cell limit em row it labels raw) = rr_model row"
  "cl_score (scored_cell limit em row it labels raw) = rr_score row"
  "cl_raw (scored_cell limit em row it labels raw) = rr_response_raw row"
  by (auto simp: scored_cell_def cell_of_def Let_def split: list.splits)

lemma classify_Inr:
  "classify limit pstr em row it labels = Inr c \<longleftrightarrow>
     (if rr_error row \<noteq> JNull
      then c = cell_of row (rr_error row) OUTCOME_ERROR (why_error (str_of pstr (rr_error row))) [] False
      else if rr_scorer row = JStr NO_RESPONSE_SCORER
      then c = cell_of row JNull OUTCOME_NO_RESPONSE why_no_response [] False
      else \<exists>raw oc. rr_response_raw row = JStr raw \<and> score_verdict limit labels it raw = Inr oc \<and> reproduces oc row
             \<and> c = scored_cell limit em row it labels raw)"
  by (cases "rr_response_raw row") (auto simp: classify_def split: sum.splits if_splits)


section \<open>Every row in its cell\<close>

lemma sort_by_json_mset: "sort_by_json key xs = Inr ys \<Longrightarrow> mset ys = mset xs"
  by (auto simp: sort_by_json_def split: if_splits)

lemma fromkeys_distinct: "distinct (fromkeys xs)"
  by simp

lemma zip_lookup:
  "list_all2 P ks vs \<Longrightarrow> distinct ks \<Longrightarrow> k \<in> set ks \<Longrightarrow> \<exists>v. map_of (zip ks vs) k = Some v \<and> P k v"
  by (induction ks vs rule: list_all2_induct) auto

lemma cell_rows_mset:
  assumes "group_rows rows = Inr groups"
  shows "mset (cell_rows groups it m) = mset (filter (\<lambda>r. rr_item_id r = JStr (it_id it) \<and> rr_model r = JStr m) rows)"
proof -
  let ?c = "(Some (JStr (it_id it)), JStr m)" and ?cells = "fromkeys (map row_cell rows)"
  obtain gs where gs: "mapE (\<lambda>c. sort_by_json rr_sample_k (filter (\<lambda>r. row_cell r = c) rows)) ?cells = Inr gs"
    and g: "groups = zip ?cells gs"
    using assms by (auto simp: group_rows_def Let_def bindE_Inr_iff)
  have k: "row_cell r = ?c \<longleftrightarrow> rr_item_id r = JStr (it_id it) \<and> rr_model r = JStr m" for r
    by (simp add: row_cell_def hash_key_text)
  from gs have l: "list_all2 (\<lambda>c v. sort_by_json rr_sample_k (filter (\<lambda>r. row_cell r = c) rows) = Inr v) ?cells gs"
    by (simp add: mapE_Inr_iff)
  show ?thesis
  proof (cases "?c \<in> set ?cells")
    case True
    from zip_lookup [OF l fromkeys_distinct this] obtain v where
      "map_of groups ?c = Some v" "sort_by_json rr_sample_k (filter (\<lambda>r. row_cell r = ?c) rows) = Inr v"
      by (auto simp: g)
    with sort_by_json_mset [OF this(2)] show ?thesis by (simp add: cell_rows_def dict_get_def k)
  next
    case False
    then have "map_of groups ?c = None"
      using list_all2_lengthD [OF l] by (simp add: g map_of_zip_is_None)
    moreover from False have "filter (\<lambda>r. row_cell r = ?c) rows = []"
      unfolding set_fromkeys set_map filter_empty_conv by (metis image_eqI)
    then have "filter (\<lambda>r. rr_item_id r = JStr (it_id it) \<and> rr_model r = JStr m) rows = []" by (simp add: k)
    ultimately show ?thesis by (simp add: cell_rows_def dict_get_def)
  qed
qed

lemma map_of_dict_of: "map_of (dict_of kvs) k = map_of (rev kvs) k"
proof (induction kvs rule: rev_induct)
  case (snoc kv kvs)
  have "dict_of (kvs @ [kv]) = dict_set (fst kv) (snd kv) (dict_of kvs)" by (cases kv) (simp add: dict_of_def)
  with snoc show ?case by (cases kv) simp
qed (simp add: dict_of_def)

lemma map_of_pairs: "k \<in> set ks \<Longrightarrow> map_of (map (\<lambda>k. (k, f k)) ks) k = Some (f k)"
  by (induction ks) auto

lemma mapE_pairs:
  assumes "mapE (\<lambda>x. bindE (g x) (\<lambda>y. Inr (x, y))) xs = Inr kvs" and "x \<in> set xs"
  shows "\<exists>y. map_of (dict_of kvs) x = Some y \<and> g x = Inr y"
proof -
  have "list_all2 (\<lambda>x kv. fst kv = x \<and> g x = Inr (snd kv)) xs kvs"
    using assms(1) by (auto simp: mapE_Inr_iff bindE_Inr_iff elim!: list_all2_mono)
  then have "kvs = map (\<lambda>x. (x, projr (g x))) xs \<and> (\<forall>x \<in> set xs. g x = Inr (projr (g x)))"
    by (induction xs kvs rule: list_all2_induct) (auto simp: prod_eq_iff)
  then show ?thesis
    using assms(2) map_of_pairs [of x "rev xs" "\<lambda>x. projr (g x)"] by (auto simp: map_of_dict_of rev_map)
qed

lemma build_item_Inr:
  assumes "build_item limit pstr em labels facets groups models it = Inr ir"
  shows "ir_id ir = it_id it \<and> (\<forall>m \<in> set models.
    mapE (\<lambda>row. classify limit pstr em row it labels) (cell_rows groups it m) = Inr (cells_of ir m))"
proof -
  obtain cells where c: "mapE (\<lambda>m. bindE (mapE (\<lambda>row. classify limit pstr em row it labels) (cell_rows groups it m))
      (\<lambda>cells. Inr (m, cells))) models = Inr cells" and ir: "ir_id ir = it_id it" "ir_cells ir = dict_of cells"
    using assms by (auto simp: build_item_def bindE_Inr_iff)
  have "mapE (\<lambda>row. classify limit pstr em row it labels) (cell_rows groups it m) = Inr (cells_of ir m)"
    if "m \<in> set models" for m
    using mapE_pairs [OF c that] by (auto simp: cells_of_def dict_get_def ir)
  with ir(1) show ?thesis by blast
qed

lemma transparency_Inr:
  assumes "build_transparency_report ext limit pstr em avg od run_id = Inr r"
  obtains manifest rows s roll_up groups where "open_run_store limit od run_id = Inr (manifest, rows)"
    and "load_run_suite ext od run_id = Inr s" and "suite_labels s = Inr (tr_labels r)"
    and "build_run_report ext limit pstr od run_id = Inr roll_up" and "tr_models r = map mo_model (rp_models roll_up)"
    and "group_rows rows = Inr groups"
    and "mapE (build_item limit pstr em (tr_labels r) (derive_facets avg (su_items s)) groups (tr_models r)) (su_items s)
      = Inr (tr_items r)"
    and "tr_reproduced r = reproduced_cells groups (tr_models r) (su_items s)"
proof -
  obtain manifest rows s labels roll_up groups items where
    a: "open_run_store limit od run_id = Inr (manifest, rows)" "load_run_suite ext od run_id = Inr s"
      "suite_labels s = Inr labels" "build_run_report ext limit pstr od run_id = Inr roll_up" "group_rows rows = Inr groups"
      "mapE (build_item limit pstr em labels (derive_facets avg (su_items s)) groups (map mo_model (rp_models roll_up)))
        (su_items s) = Inr items"
    and r: "tr_labels r = labels" "tr_models r = map mo_model (rp_models roll_up)" "tr_items r = items"
      "tr_reproduced r = reproduced_cells groups (map mo_model (rp_models roll_up)) (su_items s)"
    using assms unfolding build_transparency_report_def from_report_def as_report_def bindE_Inr_iff map_errE_Inr_iff
      Let_def checkE_Inr_iff case_prod_beta by fastforce
  show ?thesis by (rule that [OF a(1,2) a(3) [folded r(1)] a(4) r(2) a(5) a(6) [folded r(1-3)] r(4) [folded r(2)]])
qed


lemma report_models:
  assumes "build_run_report ext limit pstr od run_id = Inr p" and "open_run_store limit od run_id = Inr (m, rows)"
    and "row \<in> set rows"
  shows "\<exists>model \<in> set (map mo_model (rp_models p)). rr_model row = JStr model"
proof -
  obtain roster execution seen models where seen: "mapE row_model rows = Inr seen"
    and models: "mapE (\<lambda>model. model_rollup model (filter (\<lambda>r. rr_model r = JStr model) rows) execution)
      (ordered_models roster seen) = Inr models" and p: "rp_models p = models"
    using assms(1,2) by (auto simp: build_run_report_def bindE_Inr_iff)
  have l: "list_all2 (\<lambda>r s. rr_model r = JStr s) rows seen"
    using seen unfolding mapE_Inr_iff by (rule list_all2_mono) (auto simp: row_model_def split: json.splits)
  obtain i where i: "i < length rows" "row = rows ! i" using assms(3) by (auto simp: in_set_conv_nth)
  obtain model where model: "rr_model row = JStr model" "model \<in> set seen"
  proof
    show "rr_model row = JStr (seen ! i)" using list_all2_nthD [OF l i(1)] i(2) by simp
    show "seen ! i \<in> set seen" using list_all2_lengthD [OF l] i(1) by simp
  qed
  have "list_all2 (\<lambda>a b. mo_model b = a) (ordered_models roster seen) models"
    using models unfolding mapE_Inr_iff
    by (rule list_all2_mono) (auto simp: model_rollup_def bindE_Inr_iff model_report_of_def Let_def)
  then have "map mo_model models = ordered_models roster seen"
    by (auto simp: list_all2_conv_all_nth intro: nth_equalityI)
  moreover have "model \<in> set (ordered_models roster seen)"
    using model(2) by (auto simp: ordered_models_def sorted_set_def)
  ultimately show ?thesis using model(1) p by metis
qed

lemma items_shown:
  assumes "mapE (build_item limit pstr em labels facets groups models) its = Inr irs"
  shows "list_all2 (\<lambda>it ir. ir_id ir = it_id it \<and> (\<forall>m \<in> set models.
    mapE (\<lambda>row. classify limit pstr em row it labels) (cell_rows groups it m) = Inr (cells_of ir m))) its irs"
  using assms [unfolded mapE_Inr_iff] by (rule list_all2_mono) (rule build_item_Inr)

section \<open>Totals\<close>

lemma sum_dict_set:
  "distinct (keys d) \<Longrightarrow> sum_list (map snd (dict_set k v d)) + dict_get k 0 d = sum_list (map snd d) + (v :: nat)"
  by (induction k v d rule: dict_set.induct) (auto simp: dict_get_def keys_def split: option.splits
      dest!: map_of_SomeD)

lemma count_outcomes_acc:
  fixes d :: "(cell_outcome \<times> nat) list"
  assumes "distinct (keys d)"
  shows "(let e = fold (\<lambda>c d. dict_set (cl_outcome c) (dict_get (cl_outcome c) 0 d + 1) d) cells d in
    distinct (keys e) \<and> sum_list (map snd e) = sum_list (map snd d) + length cells \<and>
    (\<forall>oc. dict_get oc 0 e = dict_get oc 0 d + count_cells (\<lambda>c. cl_outcome c = oc) cells))"
  using assms
proof (induction cells arbitrary: d)
  case (Cons c cells)
  let ?d = "dict_set (cl_outcome c) (dict_get (cl_outcome c) 0 d + 1) d"
  have "distinct (keys ?d)" using Cons.prems by (rule distinct_dict_set)
  from Cons.IH [OF this] sum_dict_set [OF Cons.prems, of "cl_outcome c" "dict_get (cl_outcome c) 0 d + 1"]
  show ?case by (auto simp: Let_def count_cells_def dict_get_def)
qed (simp add: Let_def count_cells_def)

lemma count_outcomes_sum:
  "sum_list (map snd (count_outcomes cells)) = length cells"
  "dict_get oc 0 (count_outcomes cells) = count_cells (\<lambda>c. cl_outcome c = oc) cells"
  using count_outcomes_acc [of "[]" cells] by (simp_all add: count_outcomes_def keys_def Let_def dict_get_def)

lemma percent_bounds: "k \<le> n \<Longrightarrow> 0 \<le> percent k n \<and> percent k n \<le> 100"
  by (simp add: percent_def field_simps)

lemma model_totals_Inr:
  assumes "model_totals_of r m = Inr t"
  shows "mt_n t = length (graded_cells r m)" "mt_outcomes t = count_outcomes (graded_cells r m)"
    "mt_correct t = count_cells (\<lambda>c. cl_outcome c = OUTCOME_CORRECT) (graded_cells r m)"
    "mt_answered t = count_cells (\<lambda>c. cl_outcome c \<in> {OUTCOME_CORRECT, OUTCOME_WRONG}) (graded_cells r m)"
    "mt_answered_correct t = mt_correct t"
    "mt_unreadable t = count_cells (\<lambda>c. cl_outcome c \<in> {OUTCOME_NO_VERDICT, OUTCOME_NO_RESPONSE, OUTCOME_ERROR}) (graded_cells r m)"
    "0 \<le> mt_diagnostic t \<and> mt_diagnostic t \<le> 100"
proof -
  have f: "(oc = OUTCOME_CORRECT \<or> oc = OUTCOME_WRONG) \<and> oc = OUTCOME_CORRECT \<longleftrightarrow> oc = OUTCOME_CORRECT" for oc
    by auto
  show "mt_n t = length (graded_cells r m)" "mt_outcomes t = count_outcomes (graded_cells r m)"
    "mt_correct t = count_cells (\<lambda>c. cl_outcome c = OUTCOME_CORRECT) (graded_cells r m)"
    "mt_answered t = count_cells (\<lambda>c. cl_outcome c \<in> {OUTCOME_CORRECT, OUTCOME_WRONG}) (graded_cells r m)"
    "mt_answered_correct t = mt_correct t"
    "mt_unreadable t = count_cells (\<lambda>c. cl_outcome c \<in> {OUTCOME_NO_VERDICT, OUTCOME_NO_RESPONSE, OUTCOME_ERROR}) (graded_cells r m)"
    "0 \<le> mt_diagnostic t \<and> mt_diagnostic t \<le> 100"
    using assms by (auto simp: model_totals_of_def Let_def bindE_Inr_iff count_outcomes_sum(2) count_cells_def f
        intro!: percent_bounds [THEN conjunct1] percent_bounds [THEN conjunct2])
qed

section \<open>The data island\<close>

lemma escape_lt_append [simp]: "escape_lt (u @ v) = escape_lt u @ escape_lt v"
  by (simp add: escape_lt_def)

lemma escape_lt_Cons: "escape_lt (c # s) = (if c = CHR ''<'' then CHR 0x5C # ''u003c'' else [c]) @ escape_lt s"
  by (simp add: escape_lt_def)

lemma escape_lt_Nil [simp]: "escape_lt [] = []"
  by (simp add: escape_lt_def)

lemma no_tag: "CHR ''<'' \<notin> set (escape_lt s)"
  by (induction s) (auto simp: escape_lt_Cons)

lemma escape_lt_id: "CHR ''<'' \<notin> set s \<Longrightarrow> escape_lt s = s"
  by (induction s) (auto simp: escape_lt_Cons)

lemma escape_lt_join: "escape_lt (join sep ws) = join (escape_lt sep) (map escape_lt ws)"
  by (induction sep ws rule: join.induct) simp_all

lemma hex_digit_no_lt: "d < 16 \<Longrightarrow> CHR ''<'' \<noteq> hex_digit d"
proof
  assume "d < 16" and "CHR ''<'' = hex_digit d"
  then have "code_pt (CHR ''<'') = code_pt (hex_digit d)" by simp
  with \<open>d < 16\<close> show False by (simp add: hex_digit_def of_char_of split: if_splits)
qed

lemma parse_chars_island:
  "parse_chars (escape_lt (concat (map esc_char s)) @ CHR 0x22 # r) = Some (s, r)"
proof (induction s)
  case (Cons c s)
  have lt: "esc_char (CHR ''<'') = ''<''" by (simp add: esc_char_def in_rng_def)
  show ?case
  proof (cases "c = CHR ''<''")
    case True
    have "char_of (60 :: nat) = CHR ''<''" using uchar_code_pt [of "CHR ''<''"] by (simp add: uchar_def)
    then have "parse_chars (CHR 0x5C # ''u003c'' @ t) = map_option (\<lambda>(s, r). (CHR ''<'' # s, r)) (parse_chars t)" for t
      by (simp add: hex4_def hex_val_def is_digit_def in_rng_def digit_val_def uchar_def)
    with True lt Cons show ?thesis by (simp add: escape_lt_Cons)
  next
    case False
    then have "escape_lt (esc_char c) = esc_char c"
      using hex_digit_no_lt [of "code_pt c div 16"] hex_digit_no_lt [of "code_pt c mod 16"] code_pt_less [of c]
      by (intro escape_lt_id) (simp add: esc_char_def in_rng_def less_mult_imp_div_less)
    with Cons show ?thesis by (simp add: parse_chars_esc)
  qed
qed simp

text \<open>Atoms other than texts have no tag character.\<close>

definition no_lt :: "string \<Rightarrow> bool" where
  "no_lt s \<longleftrightarrow> list_all (\<lambda>c. c \<noteq> CHR ''<'') s"

lemma no_lt_simps [simp]:
  "no_lt []" "no_lt (c # s) \<longleftrightarrow> c \<noteq> CHR ''<'' \<and> no_lt s" "no_lt (u @ v) \<longleftrightarrow> no_lt u \<and> no_lt v"
  "no_lt (replicate n (CHR ''0''))"
  by (auto simp: no_lt_def list_all_iff)

lemma no_lt_show_nat [simp]: "no_lt (show_nat n)"
  using show_nat_digits [of n] by (auto simp: no_lt_def list_all_iff is_digit_def in_rng_def)

lemma no_lt_take_drop [simp]: "no_lt w \<Longrightarrow> no_lt (take n w)" "no_lt w \<Longrightarrow> no_lt (drop n w)"
  by (simp_all add: no_lt_def list_all_take_drop)

lemma escape_atoms [simp]:
  "escape_lt (show_int i) = show_int i" "escape_lt (dump_flt f) = dump_flt f"
proof -
  have "no_lt (show_int i)" by (simp add: show_int_def)
  moreover have "no_lt (dump_flt f)" by (cases f) (simp_all add: dump_dec_def show_exp_def Let_def)
  ultimately show "escape_lt (show_int i) = show_int i" "escape_lt (dump_flt f) = dump_flt f"
    by (auto simp: no_lt_def list_all_iff intro!: escape_lt_id)
qed

definition island_key :: "string \<Rightarrow> string" where
  "island_key k = CHR 0x22 # escape_lt (concat (map esc_char k)) @ [CHR 0x22]"

lemma escape_dump_str: "escape_lt (dump_str k) = island_key k"
  by (simp add: dump_str_def island_key_def escape_lt_Cons)

lemma island_list: "data_island (JList xs) = ''['' @ join '','' (map data_island xs) @ '']''"
  by (simp add: data_island_def [abs_def] escape_lt_Cons escape_lt_join comp_def)

lemma island_obj: "data_island (JObj kvs) =
    ''{'' @ join '','' (map (\<lambda>kv. island_key (fst kv) @ '':'' @ data_island (snd kv)) kvs) @ ''}''"
  by (simp add: data_island_def [abs_def] escape_lt_Cons escape_lt_join comp_def escape_dump_str)

lemma val_head_island: "val_head (data_island j)"
proof -
  have "val_head (escape_lt s)" if "val_head s" for s
    using that by (cases s) (auto simp: val_head_def escape_lt_Cons is_ws_def)
  then show ?thesis by (simp add: data_island_def val_head_dumps)
qed

lemma val_head_island_key: "val_head (island_key k @ t)"
  by (simp add: island_key_def val_head_def is_ws_def)

lemma parse_island:
  assumes "json_ok j" and "depth j \<le> d" and "num_stop r"
  shows "parse_val d (data_island j @ r) = Got j r"
  using assms
proof (induction j arbitrary: d r)
  case (JList xs)
  have d0: "d \<noteq> 0" using JList.prems(2) by (cases d) auto
  show ?case
  proof (cases "xs = []")
    case False
    let ?t = "join '','' (map data_island xs) @ CHR '']'' # r"
    have IH: "parse_val (d - 1) (data_island x @ s) = Got x s" if "x \<in> set xs" "num_stop s" for x s
      using JList.IH [OF that(1) _ _ that(2)] JList.prems(1,2) depth_list [OF that(1)] that(1)
      by (auto simp: list_all_iff)
    have ws: "list_all is_ws []" by simp
    from parse_elems_join [OF refl ws False IH val_head_island]
    have "parse_elems (d - 1) ?t = Got xs r" by simp
    moreover have "val_head ?t" by (rule val_head_join [OF False val_head_island])
    ultimately show ?thesis using d0
      by (cases ?t) (auto simp: island_list parse_val.simps skip_ws_val_head val_head_def)
  qed (use d0 in \<open>simp add: island_list parse_val.simps\<close>)
next
  case (JObj kvs)
  have d0: "d \<noteq> 0" using JObj.prems(2) by (cases d) auto
  show ?case
  proof (cases "kvs = []")
    case False
    let ?M = "\<lambda>kv. island_key (fst kv) @ '':'' @ data_island (snd kv)"
    let ?t = "join '','' (map ?M kvs) @ CHR ''}'' # r"
    have IH: "parse_val (d - 1) (data_island (snd kv) @ s) = Got (snd kv) s" if "kv \<in> set kvs" "num_stop s" for kv s
      using JObj.IH [OF that(1), of "snd kv" "d - 1" s] that JObj.prems(1,2) depth_obj [OF that(1)]
      by (cases kv) (auto simp: list_all_iff)
    have "list_all is_ws []" by simp
    from parse_members_join [OF refl this refl this False IH val_head_island island_key_def parse_chars_island]
    have "parse_members (d - 1) ?t = Got kvs r" by simp
    moreover have "val_head ?t" by (rule val_head_join [OF False]) (rule val_head_island_key)
    ultimately show ?thesis using d0
      by (cases ?t) (auto simp: island_obj parse_val.simps skip_ws_val_head val_head_def)
  qed (use d0 in \<open>simp add: island_obj parse_val.simps\<close>)
next
  case (JStr s)
  then show ?case
    by (simp add: data_island_def escape_dump_str island_key_def parse_val.simps parse_chars_island)
qed (use parse_dumps [OF sep_ok_compact] in \<open>simp_all add: data_island_def escape_lt_Cons parse_val.simps
    parse_atom_def parse_word_def parse_val_int parse_val_flt\<close>)

lemma loads_island: "json_ok j \<Longrightarrow> depth j \<le> limit \<Longrightarrow> loads limit (data_island j) = Inr j"
  using parse_island [of j limit "[]"] by (simp add: loads_def loads_pairs_def skip_ws_val_head val_head_island as_dicts_id)
    (simp add: skip_ws_def)

end
