(* ===== verification/Report_Page.thy ===== *)
theory Report_Page
  imports Report_Html_Facts
begin

text \<open>
  What the item-level page of src/measure_twice/report_html.py promises: which rows of the run store it
  shows, that every shown verdict is reproduced, what the outcome of a cell means, how the template is
  filled, and that the totals add up, with a concrete stored run and the page built from it.
\<close>

section \<open>The page and the run store\<close>

text \<open>Every row of the store, and every cell of the page, with what classified it.\<close>

lemma page_rows:
  assumes "build_transparency_report ext limit pstr em avg od run_id = Inr r"
  obtains manifest rows s where "open_run_store limit od run_id = Inr (manifest, rows)"
    and "load_run_suite ext od run_id = Inr s" and "suite_labels s = Inr (tr_labels r)"
    and "\<forall>row \<in> set rows. \<exists>m \<in> set (tr_models r). rr_model row = JStr m"
    and "list_all2 (\<lambda>it ir. ir_id ir = it_id it \<and> (\<forall>m \<in> set (tr_models r). \<exists>shown.
      mset shown = mset (filter (\<lambda>row. rr_item_id row = JStr (it_id it) \<and> rr_model row = JStr m) rows) \<and>
      mapE (\<lambda>row. classify limit pstr em row it (tr_labels r)) shown = Inr (cells_of ir m))) (su_items s) (tr_items r)"
proof (rule transparency_Inr [OF assms])
  fix manifest rows s roll_up groups
  assume o: "open_run_store limit od run_id = Inr (manifest, rows)" and s: "load_run_suite ext od run_id = Inr s"
    and l: "suite_labels s = Inr (tr_labels r)" and p: "build_run_report ext limit pstr od run_id = Inr roll_up"
    and m: "tr_models r = map mo_model (rp_models roll_up)" and g: "group_rows rows = Inr groups"
    and items: "mapE (build_item limit pstr em (tr_labels r) (derive_facets avg (su_items s)) groups (tr_models r))
      (su_items s) = Inr (tr_items r)"
  have "list_all2 (\<lambda>it ir. ir_id ir = it_id it \<and> (\<forall>m \<in> set (tr_models r). \<exists>shown.
      mset shown = mset (filter (\<lambda>row. rr_item_id row = JStr (it_id it) \<and> rr_model row = JStr m) rows) \<and>
      mapE (\<lambda>row. classify limit pstr em row it (tr_labels r)) shown = Inr (cells_of ir m))) (su_items s) (tr_items r)"
    by (rule list_all2_mono [OF items_shown [OF items]]) (use cell_rows_mset [OF g] in blast)
  moreover have "\<forall>row \<in> set rows. \<exists>m \<in> set (tr_models r). rr_model row = JStr m"
    using report_models [OF p o] m by simp
  ultimately show thesis by (intro that [OF o s l])
qed

lemma mapE_member: "mapE f xs = Inr ys \<Longrightarrow> x \<in> set xs \<Longrightarrow> \<exists>y \<in> set ys. f x = Inr y"
  unfolding mapE_Inr_iff by (induction xs ys rule: list_all2_induct) auto

text \<open>the item-level page leaves out nothing and invents nothing.  When the report of a run is built, every
  row of the store belongs to a model the page names, and for every item of the suite and every such
  model the cells shown are the classifications of exactly the stored rows of that pair, each once.\<close>

theorem page_shows_every_row:
  assumes "build_transparency_report ext limit pstr em avg od run_id = Inr r"
  shows "\<exists>manifest rows s. open_run_store limit od run_id = Inr (manifest, rows) \<and>
    load_run_suite ext od run_id = Inr s \<and>
    (\<forall>row \<in> set rows. \<exists>m \<in> set (tr_models r). rr_model row = JStr m) \<and>
    list_all2 (\<lambda>it ir. ir_id ir = it_id it \<and> (\<forall>m \<in> set (tr_models r). \<exists>shown.
      mset shown = mset (filter (\<lambda>row. rr_item_id row = JStr (it_id it) \<and> rr_model row = JStr m) rows) \<and>
      mapE (\<lambda>row. classify limit pstr em row it (tr_labels r)) shown = Inr (cells_of ir m))) (su_items s) (tr_items r)"
  by (rule page_rows [OF assms]) blast

text \<open>C27: a page is only built from a store that reproduces: every stored row of a suite item that is neither
  an error nor a forced zero has a text response, scoring that response again succeeds, and it gives the
  stored verdict and score.\<close>

theorem page_cells_reproduce:
  assumes "build_transparency_report ext limit pstr em avg od run_id = Inr r"
    and "open_run_store limit od run_id = Inr (manifest, rows)" and "load_run_suite ext od run_id = Inr s"
    and "it \<in> set (su_items s)" and "row \<in> set rows" and "rr_item_id row = JStr (it_id it)"
    and "rr_error row = JNull" and "rr_scorer row \<noteq> JStr NO_RESPONSE_SCORER"
  shows "\<exists>raw oc. rr_response_raw row = JStr raw \<and> score_verdict limit (tr_labels r) it raw = Inr oc \<and>
    reproduces oc row"
proof (rule page_rows [OF assms(1)])
  fix manifest' rows' s'
  assume o: "open_run_store limit od run_id = Inr (manifest', rows')" "load_run_suite ext od run_id = Inr s'"
    and m: "\<forall>row \<in> set rows'. \<exists>m \<in> set (tr_models r). rr_model row = JStr m"
    and l: "list_all2 (\<lambda>it ir. ir_id ir = it_id it \<and> (\<forall>m \<in> set (tr_models r). \<exists>shown.
      mset shown = mset (filter (\<lambda>row. rr_item_id row = JStr (it_id it) \<and> rr_model row = JStr m) rows') \<and>
      mapE (\<lambda>row. classify limit pstr em row it (tr_labels r)) shown = Inr (cells_of ir m))) (su_items s') (tr_items r)"
  from o assms(2,3) have eq: "rows' = rows" "s' = s" by simp_all
  from m assms(5) eq obtain model where model: "model \<in> set (tr_models r)" "rr_model row = JStr model" by blast
  obtain i where i: "i < length (su_items s)" "it = su_items s ! i" using assms(4) by (auto simp: in_set_conv_nth)
  from list_all2_nthD [OF l, of i] i eq model(1) obtain shown where
      shown: "mset shown = mset (filter (\<lambda>row. rr_item_id row = JStr (it_id it) \<and> rr_model row = JStr model) rows)"
      "mapE (\<lambda>row. classify limit pstr em row it (tr_labels r)) shown = Inr (cells_of (tr_items r ! i) model)"
    by blast
  from mset_eq_setD [OF shown(1)] assms(5,6) model(2) have "row \<in> set shown" by simp
  from mapE_member [OF shown(2) this] obtain c where "classify limit pstr em row it (tr_labels r) = Inr c" by blast
  with assms(7,8) show ?thesis unfolding classify_Inr by auto
qed

text \<open>C28: what a classified cell says.  Outside errors and forced zeros its outcome is decided by the production
  extractor alone: the extracted label against the expected one, and where there is none, refused
  when the response shows at least two labels and no verdict when it shows none.  The remaining
  outcome, one label shown and none extracted, does not occur.\<close>

theorem cell_outcomes_explained:
  assumes "classify limit pstr em row it labels = Inr c" and "PARSE_FAIL_MARKER \<notin> set labels"
  shows "cl_outcome c =
      (if rr_error row \<noteq> JNull then OUTCOME_ERROR
       else if rr_scorer row = JStr NO_RESPONSE_SCORER then OUTCOME_NO_RESPONSE
       else (case extract_verdict_label limit (the_str (rr_response_raw row)) labels of
         Some l \<Rightarrow> if right_answer it l then OUTCOME_CORRECT else OUTCOME_WRONG
       | None \<Rightarrow> if labels_recognized limit (the_str (rr_response_raw row)) labels = [] then OUTCOME_NO_VERDICT
                 else OUTCOME_REFUSED)) \<and>
    cl_outcome c \<noteq> OUTCOME_AMBIGUOUS \<and>
    (cl_outcome c = OUTCOME_REFUSED \<longrightarrow> 2 \<le> length (cl_labels c))"
proof -
  have o: "cl_outcome c =
      (if rr_error row \<noteq> JNull then OUTCOME_ERROR
       else if rr_scorer row = JStr NO_RESPONSE_SCORER then OUTCOME_NO_RESPONSE
       else (case extract_verdict_label limit (the_str (rr_response_raw row)) labels of
         Some l \<Rightarrow> if right_answer it l then OUTCOME_CORRECT else OUTCOME_WRONG
       | None \<Rightarrow> if labels_recognized limit (the_str (rr_response_raw row)) labels = [] then OUTCOME_NO_VERDICT
                 else OUTCOME_REFUSED))"
    using assms scored_cell_outcome by (auto simp: classify_Inr cell_of_def split: if_splits)
  then have "cl_outcome c \<noteq> OUTCOME_AMBIGUOUS" by (auto split: if_splits option.splits)
  moreover have "2 \<le> length (cl_labels c)" if "cl_outcome c = OUTCOME_REFUSED"
    using assms(1) that by (auto simp: classify_Inr scored_cell_def cell_of_def Let_def split: if_splits list.splits)
  ultimately show ?thesis using o by blast
qed

section \<open>Label order\<close>

text \<open>A label the search returns is recognized in the text and in the prefix that ends at one of its cuts.\<close>

lemma first_label_sound:
  assumes "first_recognized_label limit t ls = Some l"
  shows "l \<in> set (labels_recognized limit t ls) \<and>
    (\<exists>n \<in> set (cut_points t). \<exists>y. extract_verdict_label limit (take n t) [l] = Some y)"
  using assms first_loop_ok [where rest = ls and ls = ls and best = None and limit = limit and t = t]
  by (auto simp: first_recognized_label_def cut_ok_def labels_recognized_def) blast

definition masked_text :: string where
  "masked_text = ''{\"note\": \"pass\"} so flag it, I cannot say pass''"

lemma masked_cuts: "cut_points masked_text = [0, 1, 6, 7, 8, 9, 14, 15, 16, 19, 24, 27, 28, 30, 37, 41, 46]"
  by code_simp

lemma masked_pass:
  "extract_verdict_label 9 (take 14 masked_text) [''pass''] = Some ''pass''"
  "extract_verdict_label 9 (take 16 masked_text) [''pass''] = None"
  "extract_verdict_label 9 (take 28 masked_text) [''pass''] = None"
  "extract_verdict_label 9 (take 37 masked_text) [''pass''] = None"
  "extract_verdict_label 9 (take 41 masked_text) [''pass''] = None"
  "extract_verdict_label 9 masked_text [''pass''] = Some ''pass''"
  by code_simp+
lemma masked_flag:
  "extract_verdict_label 9 (take 16 masked_text) [''flag''] = None"
  "extract_verdict_label 9 (take 19 masked_text) [''flag''] = None"
  "extract_verdict_label 9 (take 24 masked_text) [''flag''] = Some ''flag''"
  "extract_verdict_label 9 (take 28 masked_text) [''flag''] = Some ''flag''"
  "extract_verdict_label 9 masked_text [''flag''] = Some ''flag''"
  by code_simp+

lemma masked_earliest:
  "earliest_cut 9 masked_text ''pass'' = 46" "earliest_cut 9 masked_text ''flag'' = 24"
  by (simp_all add: earliest_cut_def masked_cuts Let_def bisect.simps masked_pass masked_flag)

text \<open>recognizing a label is not monotone in the prefix, so the binary search can miss the earliest prefix: in
  this response \<open>pass\<close> is recognized in a prefix that ends before \<open>flag\<close> appears at all, no longer in
  the longer prefix that closes the object, and again in the whole text; the search answers \<open>flag\<close>.\<close>

theorem label_search_not_monotone:
  "\<exists>m n. m \<in> set (cut_points masked_text) \<and> n \<in> set (cut_points masked_text) \<and> m < n \<and> n < length masked_text \<and>
     extract_verdict_label 9 (take m masked_text) [''pass''] = Some ''pass'' \<and>
     extract_verdict_label 9 (take n masked_text) [''pass''] = None \<and>
     extract_verdict_label 9 (take n masked_text) [''flag''] = None \<and>
     extract_verdict_label 9 masked_text [''pass''] = Some ''pass'' \<and>
     first_recognized_label 9 masked_text [''pass'', ''flag''] = Some ''flag''"
proof -
  have "first_recognized_label 9 masked_text [''pass'', ''flag''] = Some ''flag''"
    by (simp add: first_recognized_label_def masked_pass(6) masked_flag(5) masked_earliest)
  moreover have "length masked_text = 46" by code_simp
  ultimately show ?thesis
    using masked_pass(1,2,6) masked_flag(1) masked_cuts by (intro exI [of _ 14] exI [of _ 16]) simp
qed

section \<open>The filled template\<close>

text \<open>Text with no two underscores in a row cannot hold a marker of the template, nor a part that a marker beside it completes.\<close>

fun no_dunder :: "string \<Rightarrow> bool" where
  "no_dunder (a # b # s) = (\<not> (a = CHR ''_'' \<and> b = CHR ''_'') \<and> no_dunder (b # s))"
| "no_dunder _ = True"

lemma no_dunder_infix: "\<not> no_dunder (u @ CHR ''_'' # CHR ''_'' # v)"
  by (induction u rule: no_dunder.induct) auto

lemma no_dunder_tail: "no_dunder (u @ v) \<Longrightarrow> no_dunder v"
  by (induction u rule: no_dunder.induct) (auto elim: no_dunder.elims)

lemma strip_prefix_Some: "strip_prefix w s = Some r \<Longrightarrow> s = w @ r"
  by (induction w s rule: strip_prefix.induct) (auto split: if_splits)

lemma no_marker:
  "no_dunder (c # s) \<Longrightarrow> strip_prefix (u @ ''__'') (c # s) = None"
proof (cases "strip_prefix (u @ ''__'') (c # s)")
  case (Some r)
  assume "no_dunder (c # s)"
  with strip_prefix_Some [OF Some] no_dunder_infix [of u r] show ?thesis by simp
qed

lemma replace_keeps:
  assumes "no_dunder w" and "c \<noteq> CHR ''_''" and "take 2 r \<noteq> [CHR ''_'', c]"
  shows "replace_text (CHR ''_'' # CHR ''_'' # c # n) new (w @ r) = w @ replace_text (CHR ''_'' # CHR ''_'' # c # n) new r"
  using assms(1)
proof (induction w)
  case (Cons x w)
  have "strip_prefix (CHR ''_'' # CHR ''_'' # c # n) (x # w @ r) = None"
  proof (cases "strip_prefix (CHR ''_'' # CHR ''_'' # c # n) (x # w @ r)")
    case (Some t)
    from strip_prefix_Some [OF this] have e: "x = CHR ''_''" "w @ r = CHR ''_'' # c # n @ t" by simp_all
    show ?thesis
    proof (cases w)
      case Nil
      with e(2) assms(3) show ?thesis by simp
    next
      case (Cons y w')
      with e Cons.prems show ?thesis by simp
    qed
  qed
  moreover have "no_dunder w" using Cons.prems by (cases w) simp_all
  ultimately show ?case using Cons.IH by simp
qed simp

lemma replace_free: "no_dunder w \<Longrightarrow> replace_text (u @ ''__'') new w = w"
proof (induction w)
  case (Cons x w)
  moreover have "no_dunder w" using Cons.prems by (cases w) simp_all
  ultimately show ?case using no_marker [of x w u] by simp
qed simp

lemma fill_title:
  assumes "no_dunder pre" and "no_dunder mid" and "no_dunder post"
  shows "replace_text ''__TITLE__'' title (pre @ ''__TITLE__'' @ mid @ ''__DATA__'' @ post) =
    pre @ title @ mid @ ''__DATA__'' @ post"
proof -
  have post: "replace_text ''__TITLE__'' title post = post"
    using replace_free [OF assms(3), of "''__TITLE''" title] by simp
  have a: "strip_prefix ''TITLE__'' post = None" "strip_prefix ''_TITLE__'' post = None"
    using no_marker [of _ _ "''TITLE''"] no_marker [of _ _ "''_TITLE''"] assms(3) by (cases post, simp_all)+
  have "replace_text ''__TITLE__'' title (''__DATA__'' @ post) = ''__DATA__'' @ post"
    by (simp add: post a)
  then have "replace_text ''__TITLE__'' title (mid @ ''__DATA__'' @ post) = mid @ ''__DATA__'' @ post"
    using replace_keeps [OF assms(2), of "CHR ''T''" "''__DATA__'' @ post" "''ITLE__''" title] by simp
  then have "replace_text ''__TITLE__'' title (''__TITLE__'' @ mid @ ''__DATA__'' @ post) = title @ mid @ ''__DATA__'' @ post"
    by simp
  then show ?thesis
    using replace_keeps [OF assms(1), of "CHR ''T''" "''__TITLE__'' @ mid @ ''__DATA__'' @ post" "''ITLE__''" title] by simp
qed

lemma fill_data:
  assumes "no_dunder w" and "no_dunder post"
  shows "replace_text ''__DATA__'' blob (w @ ''__DATA__'' @ post) = w @ blob @ post"
proof -
  have "replace_text ''__DATA__'' blob (''__DATA__'' @ post) = blob @ post"
    using replace_free [OF assms(2), of "''__DATA''" blob] by simp
  then show ?thesis
    using replace_keeps [OF assms(1), of "CHR ''D''" "''__DATA__'' @ post" "''ATA__''" blob] by simp
qed

lemma fill_template_parts:
  assumes "no_dunder (pre @ title @ mid)" and "no_dunder pre" and "no_dunder post"
  shows "fill_template (pre @ ''__TITLE__'' @ mid @ ''__DATA__'' @ post) title blob =
    (let page = pre @ title @ mid @ blob @ post in if page \<noteq> [] \<and> last page = newline then page else page @ [newline])"
proof -
  have "no_dunder mid" using no_dunder_tail [of "pre @ title" mid] assms(1) by simp
  then show ?thesis
    unfolding fill_template_def fill_title [OF assms(2) \<open>no_dunder mid\<close> assms(3)]
    using fill_data [OF assms(1,3), of blob] by simp
qed

text \<open>C29: what the rendered page is.  With a template of one title marker and one data marker, and a title with no
  two underscores in a row, the page is the template with the title and the data island in their
  places, ended by a line break; the island holds no tag character whatever the models answered, so
  no response can leave its script element, and reading it as JSON gives back the payload.\<close>

theorem page_is_filled_template:
  assumes "render_transparency_report pstr em fl fmt1 (Some (pre @ ''__TITLE__'' @ mid @ ''__DATA__'' @ post)) r = Inr page"
    and "no_dunder (pre @ page_title em r @ mid)" and "no_dunder pre" and "no_dunder post"
  shows "\<exists>j. payload pstr em fl fmt1 r = Inr j \<and>
    (let whole = pre @ page_title em r @ mid @ data_island j @ post
     in page = whole \<and> last whole = newline \<or> page = whole @ [newline]) \<and>
    CHR ''<'' \<notin> set (data_island j) \<and>
    (json_ok j \<and> depth j \<le> limit \<longrightarrow> loads limit (data_island j) = Inr j)"
proof -
  obtain j where j: "payload pstr em fl fmt1 r = Inr j"
    and page: "page = fill_template (pre @ ''__TITLE__'' @ mid @ ''__DATA__'' @ post) (page_title em r) (data_island j)"
    using assms(1) unfolding render_transparency_report_def load_template_def bindE_Inr_iff by auto
  have "CHR ''<'' \<notin> set (data_island j)" unfolding data_island_def by (rule no_tag)
  then show ?thesis
    using j page [unfolded fill_template_parts [OF assms(2-4)]] loads_island [of j limit]
    by (auto simp: Let_def split: if_splits)
qed

text \<open>the markers are replaced one after the other, so a suite may be named like the second one: the name passes
  the check of suite names, and the title of its page is then the whole data island.\<close>

theorem suite_named_like_the_marker:
  assumes "tr_suite r = ''__DATA__''" and "no_dunder pre"
    and "no_dunder ('' '' @ em @ '' '' @ tr_run_id r @ mid)" and "no_dunder (post @ [newline])"
  shows "safe_name_ok documented_ext (tr_suite r) \<and>
    fill_template (pre @ ''__TITLE__'' @ mid @ ''__DATA__'' @ post @ [newline]) (page_title em r) blob =
      pre @ blob @ '' '' @ em @ '' '' @ tr_run_id r @ mid @ blob @ post @ [newline]"
proof -
  let ?t = "'' '' @ em @ '' '' @ tr_run_id r"
  have mid: "no_dunder mid" using no_dunder_tail [of ?t mid] assms(3) by simp
  have "replace_text ''__DATA__'' blob (pre @ ''__DATA__'' @ (?t @ mid) @ ''__DATA__'' @ post @ [newline]) =
      pre @ blob @ (?t @ mid) @ blob @ post @ [newline]"
    using replace_keeps [OF assms(2), of "CHR ''D''" _ "''ATA__''" blob] fill_data [of "?t @ mid" "post @ [newline]" blob] assms(3,4)
    by simp
  moreover have "safe_name_ok documented_ext ''__DATA__''" by code_simp
  ultimately show ?thesis
    unfolding fill_template_def fill_title [OF assms(2) mid assms(4)] page_title_def assms(1)
    by simp
qed

lemma count_cells_mono: "(\<And>c. P c \<Longrightarrow> Q c) \<Longrightarrow> count_cells P cells \<le> count_cells Q cells"
  by (induction cells) (auto simp: count_cells_def)

lemma count_cells_disjoint: "(\<And>c. \<not> (P c \<and> Q c)) \<Longrightarrow> count_cells P cells + count_cells Q cells \<le> length cells"
  by (induction cells) (auto simp: count_cells_def)

lemma diagnostic_above:
  assumes "model_totals_of r m = Inr t"
  shows "percent (mt_correct t) (mt_n t) \<le> mt_diagnostic t"
proof -
  let ?g = "graded_cells r m" and ?P = "\<lambda>c. cl_outcome c = OUTCOME_CORRECT \<or> (json_number (cl_score c) = Some 0 \<and> cl_recoverable c)"
  have d: "mt_diagnostic t = percent (count_cells ?P ?g) (length ?g)"
    using assms by (auto simp: model_totals_of_def Let_def bindE_Inr_iff)
  have "count_cells (\<lambda>c. cl_outcome c = OUTCOME_CORRECT) ?g \<le> count_cells ?P ?g"
    by (rule count_cells_mono) simp
  then show ?thesis
    unfolding d model_totals_Inr(1,3) [OF assms] percent_def by (simp add: divide_right_mono)
qed

text \<open>the totals of a model add up: the outcomes counted sum to its cells, correct cells are answered ones,
  answered and unreadable cells are disjoint, and the diagnostic figure is a percentage that is never below
  the share of correct cells.\<close>

theorem totals_add_up:
  assumes "model_totals_of r m = Inr t"
  shows "sum_list (map snd (mt_outcomes t)) = mt_n t \<and> mt_answered_correct t = mt_correct t \<and>
    mt_correct t \<le> mt_answered t \<and> mt_answered t + mt_unreadable t \<le> mt_n t \<and>
    percent (mt_correct t) (mt_n t) \<le> mt_diagnostic t \<and> mt_diagnostic t \<le> 100"
  using model_totals_Inr [OF assms] diagnostic_above [OF assms]
  by (auto simp: count_outcomes_sum intro!: count_cells_mono count_cells_disjoint)

section \<open>A concrete page\<close>

definition verdict_row :: run_row where
  "verdict_row = (one_row ''m-1'')\<lparr>rr_response_raw := JStr ''pass'', rr_parsed := JStr ''pass'',
     rr_scorer := JStr VERDICT_SCORER\<rparr>"

definition page_out :: out_dir where
  "page_out = empty_out\<lparr>od_runs := (od_runs empty_out)(sample_rid \<mapsto>
     (sample_store 1)\<lparr>rs_rows := FileText (rows_text [verdict_row])\<rparr>)\<rparr>"

lemma verdict_row_sel [simp]:
  "rr_model verdict_row = JStr ''m''" "rr_resolved verdict_row = JStr ''m-1''" "rr_item_id verdict_row = JStr ''i1''"
  "rr_score verdict_row = JFloat (Fin False 1 0)" "rr_error verdict_row = JNull" "rr_scorer verdict_row = JStr VERDICT_SCORER"
  "rr_response_raw verdict_row = JStr ''pass''" "rr_parsed verdict_row = JStr ''pass''" "rr_elapsed verdict_row = JFloat (Fin False 1 0)"
  "rr_sample_k verdict_row = JInt 0"
  by (simp_all add: verdict_row_def one_row_def)

lemma verdict_row_read: "read_rows 9 (FileText (rows_text [verdict_row])) = Inr ([verdict_row], False)"
proof -
  have "row_ok 1 verdict_row"
    unfolding row_ok_scalars
    by (simp add: row_json_def verdict_row_def one_row_def scalar_ok_def int_max_str_digits_def show_nat.simps)
  then have "list_all (row_ok 9) [verdict_row]" using row_ok_mono by simp
  from read_rows_whole [OF this] show ?thesis by (simp add: read_rows_def)
qed

lemma page_run_report:
  "\<exists>r. build_run_report zero_digest_ext 9 (\<lambda>_. []) page_out sample_rid = Inr r \<and> rp_roster r = [''m''] \<and>
    rp_execution r = Some sample_evidence \<and>
    rp_models r = [model_report_of ''m'' [verdict_row] (Some sample_evidence) [''m-1''] 1 [Score 1]]"
  by (rule sample_built [where st = "(sample_store 1)\<lparr>rs_rows := FileText (rows_text [verdict_row])\<rparr>"
        and row = verdict_row and torn = False and i = "''i1''"])
    (use verdict_row_read in
      \<open>simp_all add: page_out_def empty_out_def score_number_of_def pow10_def strip_def lstrip_def rstrip_def
        isspace_def in_rng_def\<close>)

lemma page_store: "\<exists>m. open_run_store 9 page_out sample_rid = Inr (m, [verdict_row])"
proof -
  obtain m where "read_manifest ((sample_store 1)\<lparr>rs_rows := FileText (rows_text [verdict_row])\<rparr>) = Inr m"
    by (simp add: read_manifest_def sample_store_def manifest_json_def)
  moreover have "run_id_ok sample_rid" by code_simp
  ultimately show ?thesis
    by (simp add: open_run_store_def as_report_def resolve_run_dir_def page_out_def empty_out_def verdict_row_read)
qed

lemma page_suite: "load_run_suite zero_digest_ext page_out sample_rid = Inr sample_suite"
proof -
  have "Suite_from_mapping zero_digest_ext (suite_asdict sample_suite) = Inr sample_suite" by code_simp
  moreover have "run_id_ok sample_rid" by code_simp
  ultimately show ?thesis
    by (simp add: load_run_suite_def open_run_def resolve_run_dir_def page_out_def empty_out_def read_manifest_def
        sample_store_def manifest_json_def read_suite_snapshot_def subscript_def str_equals_def fld_Cons)
qed

lemma page_score: "score_verdict 9 [''pass'', ''flag''] sample_item ''pass'' =
    Inr \<lparr>oc_parsed = Some ''pass'', oc_score = Some flt_one, oc_scorer = Some VERDICT_SCORER\<rparr>"
  by code_simp

definition page_cell :: "string \<Rightarrow> cell_report" where
  "page_cell em = scored_cell 9 em verdict_row sample_item [''pass'', ''flag''] ''pass''"

lemma page_classify: "classify 9 pstr em verdict_row sample_item [''pass'', ''flag''] = Inr (page_cell em)"
  by (simp add: classify_Inr page_score reproduces_def flt_one_def json_number_def pow10_def page_cell_def
      VERDICT_SCORER_def NO_RESPONSE_SCORER_def)

lemma page_built:
  "\<exists>r. build_transparency_report zero_digest_ext 9 (\<lambda>_. []) em avg page_out sample_rid = Inr r \<and>
    tr_models r = [''m''] \<and> tr_labels r = [''pass'', ''flag''] \<and> graded_cells r ''m'' = [page_cell em]"
proof -
  obtain man where o: "open_run_store 9 page_out sample_rid = Inr (man, [verdict_row])" using page_store by blast
  obtain p where p: "build_run_report zero_digest_ext 9 (\<lambda>_. []) page_out sample_rid = Inr p"
      "rp_models p = [model_report_of ''m'' [verdict_row] (Some sample_evidence) [''m-1''] 1 [Score 1]]"
    using page_run_report by blast
  have m: "map mo_model (rp_models p) = [''m'']" by (simp add: p(2) model_report_of_def Let_def)
  have l: "suite_labels sample_suite = Inr [''pass'', ''flag'']" "su_items sample_suite = [sample_item]"
      "it_id sample_item = ''i1''"
    by (simp_all add: suite_labels_def sample_suite_def sample_item_def)
  have g: "group_rows [verdict_row] = Inr [((Some (JStr ''i1''), JStr ''m''), [verdict_row])]"
    by (simp add: group_rows_def row_cell_def fromkeys_def sort_by_json_def)
  show ?thesis
    by (simp add: build_transparency_report_def o page_suite as_report_def from_report_def l p(1) m g
        build_item_def cell_rows_def dict_get_def page_classify dict_of_def graded_cells_def cells_of_def Let_def)
qed

theorem page_shows_every_row_witness:
  "\<exists>r rows man. build_transparency_report zero_digest_ext 9 (\<lambda>_. []) [] (\<lambda>_. 0) page_out sample_rid = Inr r \<and>
     open_run_store 9 page_out sample_rid = Inr (man, rows) \<and> rows \<noteq> [] \<and>
     (\<forall>row \<in> set rows. \<exists>m \<in> set (tr_models r). rr_model row = JStr m)"
proof -
  obtain r where r: "build_transparency_report zero_digest_ext 9 (\<lambda>_. []) [] (\<lambda>_. 0) page_out sample_rid = Inr r"
    using page_built by blast
  from page_shows_every_row [OF this] r page_store show ?thesis by fastforce
qed

theorem page_cells_reproduce_witness:
  "\<exists>r raw oc. build_transparency_report zero_digest_ext 9 (\<lambda>_. []) [] (\<lambda>_. 0) page_out sample_rid = Inr r \<and>
     rr_response_raw verdict_row = JStr raw \<and> score_verdict 9 (tr_labels r) sample_item raw = Inr oc \<and>
     reproduces oc verdict_row"
proof -
  obtain r where r: "build_transparency_report zero_digest_ext 9 (\<lambda>_. []) [] (\<lambda>_. 0) page_out sample_rid = Inr r"
    using page_built by blast
  obtain man where o: "open_run_store 9 page_out sample_rid = Inr (man, [verdict_row])" using page_store by blast
  have "sample_item \<in> set (su_items sample_suite)" "verdict_row \<in> set [verdict_row]"
    "rr_item_id verdict_row = JStr (it_id sample_item)" "rr_error verdict_row = JNull"
    "rr_scorer verdict_row \<noteq> JStr NO_RESPONSE_SCORER"
    by (simp_all add: sample_suite_def sample_item_def VERDICT_SCORER_def NO_RESPONSE_SCORER_def)
  from page_cells_reproduce [OF r o page_suite this] r show ?thesis by blast
qed

theorem cell_outcomes_explained_witness:
  "\<exists>c. classify 9 (\<lambda>_. []) [] verdict_row sample_item [''pass'', ''flag''] = Inr c \<and> cl_outcome c = OUTCOME_CORRECT"
proof -
  have "PARSE_FAIL_MARKER \<notin> set [''pass'', ''flag'']" by (simp add: PARSE_FAIL_MARKER_def)
  from cell_outcomes_explained [OF page_classify [of "\<lambda>_. []" "[]"] this]
  have "cl_outcome (page_cell []) = (case extract_verdict_label 9 ''pass'' [''pass'', ''flag''] of
      Some l \<Rightarrow> if right_answer sample_item l then OUTCOME_CORRECT else OUTCOME_WRONG
    | None \<Rightarrow> if labels_recognized 9 ''pass'' [''pass'', ''flag''] = [] then OUTCOME_NO_VERDICT else OUTCOME_REFUSED)"
    by (simp add: VERDICT_SCORER_def NO_RESPONSE_SCORER_def)
  moreover have "extract_verdict_label 9 ''pass'' [''pass'', ''flag''] = Some ''pass''" by code_simp
  moreover have "right_answer sample_item ''pass''" by (simp add: right_answer_def sample_item_def)
  ultimately have "cl_outcome (page_cell []) = OUTCOME_CORRECT" by simp
  with page_classify show ?thesis by blast
qed

lemma page_totals: "\<exists>t. model_totals_of r m = Inr t \<and> mt_n t = 1" if "graded_cells r m = [page_cell []]"
proof -
  have "cl_score (page_cell []) = JFloat (Fin False 1 0)" "cl_elapsed (page_cell []) = JFloat (Fin False 1 0)"
    by (simp_all add: page_cell_def scored_cell_def cell_of_def Let_def split: list.splits)
  then show ?thesis
    by (simp add: model_totals_of_def that Let_def cell_scores_def from_report_def score_number_of_def pow10_def
        upper_median_def sort_by_json_def)
qed

theorem totals_add_up_witness:
  "\<exists>r t. build_transparency_report zero_digest_ext 9 (\<lambda>_. []) [] (\<lambda>_. 0) page_out sample_rid = Inr r \<and>
     model_totals_of r ''m'' = Inr t \<and> mt_n t = 1 \<and> sum_list (map snd (mt_outcomes t)) = 1"
proof -
  obtain r where r: "build_transparency_report zero_digest_ext 9 (\<lambda>_. []) [] (\<lambda>_. 0) page_out sample_rid = Inr r"
      "graded_cells r ''m'' = [page_cell []]"
    using page_built by blast
  from page_totals [OF r(2)] obtain t where t: "model_totals_of r ''m'' = Inr t" "mt_n t = 1" by blast
  from totals_add_up [OF t(1)] t r(1) show ?thesis by auto
qed

text \<open>A page of a report without items, and one of a suite named like the data marker.\<close>

definition bare_report :: "string \<Rightarrow> transparency_report" where
  "bare_report name = \<lparr>tr_run_id = ''r1'', tr_suite = name, tr_suite_hash = ''h'', tr_started = ''t'', tr_models = [],
     tr_labels = [''pass''], tr_floor_label = ''pass'', tr_floor_score = 100, tr_preregistration = Some ''</script>'',
     tr_manifest = [(''samples_per_cell'', JInt 1)], tr_items = [], tr_reproduced = 0,
     tr_roll_up = \<lparr>rp_run_id = ''r1'', rp_suite = name, rp_suite_hash = ''h'', rp_started = ''t'', rp_roster = [],
       rp_models = [], rp_execution = None\<rparr>, tr_identity = []\<rparr>"

definition bare_page :: "string hres" where
  "bare_page = render_transparency_report (\<lambda>_. []) ''-'' (\<lambda>_. Fin False 1 0) (\<lambda>_. ''0.0'')
     (Some (''<title>'' @ ''__TITLE__'' @ ''</title><script>'' @ ''__DATA__'' @ ''</script>'')) (bare_report ''s-1'')"

theorem page_is_filled_template_witness:
  "\<exists>page j. bare_page = Inr page \<and>
     page = ''<title>s-1 - r1</title><script>'' @ data_island j @ ''</script>'' @ [newline] \<and>
     CHR ''<'' \<notin> set (data_island j) \<and> loads 9 (data_island j) = Inr j"
proof -
  obtain page where page: "bare_page = Inr page"
    by (simp add: bare_page_def render_transparency_report_def payload_def bare_report_def facet_payload_def
        facet_names_def load_template_def fromkeys_def)
  have nd: "no_dunder (''<title>'' @ page_title ''-'' (bare_report ''s-1'') @ ''</title><script>'')"
    "no_dunder ''<title>''" "no_dunder ''</script>''"
    by (simp_all add: page_title_def bare_report_def)
  from page_is_filled_template [OF page [unfolded bare_page_def] nd, of 9] obtain j where
      j: "payload (\<lambda>_. []) ''-'' (\<lambda>_. Fin False 1 0) (\<lambda>_. ''0.0'') (bare_report ''s-1'') = Inr j"
      "CHR ''<'' \<notin> set (data_island j)" "json_ok j \<and> depth j \<le> 9 \<longrightarrow> loads 9 (data_island j) = Inr j"
      "page = ''<title>s-1 - r1</title><script>'' @ data_island j @ ''</script>'' @ [newline]"
    by (auto simp: Let_def page_title_def bare_report_def)
  have "case payload (\<lambda>_. []) ''-'' (\<lambda>_. Fin False 1 0) (\<lambda>_. ''0.0'') (bare_report ''s-1'') of
      Inr j \<Rightarrow> json_ok j \<and> depth j \<le> 9 | Inl _ \<Rightarrow> False"
    by code_simp
  with j page show ?thesis by auto
qed

theorem suite_named_like_the_marker_witness:
  "fill_template (''<title>__TITLE__</title>__DATA__'' @ [newline]) (page_title ''-'' (bare_report ''__DATA__'')) ''{}'' =
     ''<title>{} - r1</title>{}'' @ [newline]"
  using suite_named_like_the_marker [of "bare_report ''__DATA__''" "''<title>''" "''-''" "''</title>''" "[]" "''{}''"]
  by (simp add: bare_report_def)

end
