(* ===== verification/Cli.thy ===== *)
theory Cli
  imports Report_Html Author Bench_Suite
begin

text \<open>
  src/measure_twice/cli.py and src/measure_twice/agent_bench/cli.py: what every subcommand does once its
  arguments are parsed: the composition of the loaders, the runner, the scorers, the reports, the ledger and the
  harvesters, what is printed, and the exit code.  argparse itself is not modelled: a command is a value
  of \<open>command\<close>.

  Standard output is a text; standard error is a list of notes, where the message of a caught exception is
  the exception.  The output path of a command is the list of its parts; for \<open>author stub\<close> an empty
  \<open>--output\<close> counts as none.  A handler ends with an exit code or with an exception it does not catch.
\<close>

section \<open>Outcomes\<close>

datatype cli_error =
    OfConfig config_exn
  | OfSuite suite_exn
  | OfScoring scoring_error
  | OfRun run_exn
  | OfJudge judge_error
  | OfReport html_exn
  | OfLedger ledger_exn
  | OfAuthor author_exn
  | OfModel model_error
  | OfBundle suite_bundle_error
  | RunPolicyKeyError string     \<comment> \<open>a run class the execution profile has no policy for\<close>
  | PortValueError               \<comment> \<open>\<open>SplitResult.port\<close>\<close>
  | PolicyTaskCount string nat int
  | PolicyModelCount string nat int
  | ReportsOSError               \<comment> \<open>the reports directory cannot be written\<close>

text \<open>
  The classes the handlers catch.  Every \<open>except\<close> clause names exactly those of them that its \<open>try\<close> block can
  raise, so one predicate serves all handlers.
\<close>

fun caught :: "cli_error \<Rightarrow> bool" where
  "caught (OfConfig e) = (case e of ConfigError _ \<Rightarrow> True | _ \<Rightarrow> False)"
| "caught (OfSuite e) = (case e of SuiteError _ \<Rightarrow> True | _ \<Rightarrow> False)"
| "caught (OfScoring e) = True"
| "caught (OfRun e) = (case e of RunError _ \<Rightarrow> True | _ \<Rightarrow> False)"
| "caught (OfJudge e) = (case e of JudgeCallRaised x \<Rightarrow> x = BudgetExhausted | RubricTypeError \<Rightarrow> False | _ \<Rightarrow> True)"
| "caught (OfReport e) = (case e of HtmlError _ \<Rightarrow> True | HtmlReport (ReportError _) \<Rightarrow> True | _ \<Rightarrow> False)"
| "caught (OfLedger e) = (case e of LedgerError _ \<Rightarrow> True | _ \<Rightarrow> False)"
| "caught (OfAuthor e) = (case e of AuthorError _ \<Rightarrow> True | _ \<Rightarrow> False)"
| "caught (OfModel e) = (e \<noteq> MessageTooLong)"
| "caught (OfBundle e) = True"
| "caught (PolicyTaskCount _ _ _) = True"
| "caught (PolicyModelCount _ _ _) = True"
| "caught _ = False"

text \<open>A note, the message of a caught exception, or a citation the audit found stale.\<close>

datatype cli_note = Note string | Because string cli_error | StaleCitation string string string audit_reason

datatype cli_exit = Exit nat | Raised cli_error

record cli_result =
  ro_out :: string
  ro_err :: "cli_note list"
  ro_exit :: cli_exit

definition said :: "string \<Rightarrow> cli_note list \<Rightarrow> nat \<Rightarrow> cli_result" where
  "said out err code = \<lparr>ro_out = out, ro_err = err, ro_exit = Exit code\<rparr>"

text \<open>\<open>except ... as exc: print(f"<command>: {exc}", file=sys.stderr); return 1\<close>, after some notes.\<close>

definition failed :: "cli_note list \<Rightarrow> string \<Rightarrow> cli_error \<Rightarrow> cli_result" where
  "failed notes command e =
     (if caught e then \<lparr>ro_out = [], ro_err = notes @ [Because command e], ro_exit = Exit 1\<rparr>
      else \<lparr>ro_out = [], ro_err = notes, ro_exit = Raised e\<rparr>)"

definition line :: "string \<Rightarrow> string" where
  "line s = s @ [newline]"

section \<open>What a command sees and changes\<close>

text \<open>\<open>ke_split\<close> and \<open>ke_connect\<close> serve the liveness probe; \<open>ke_reports_ok\<close> is whether the report can be written.\<close>

record cli_env =
  ke_ext :: externals
  ke_limit :: nat
  ke_files :: "string \<Rightarrow> file_read"
  ke_config :: config_env
  ke_world :: run_world
  ke_judging :: judge_setup
  ke_pstr :: "json \<Rightarrow> string"
  ke_em :: string
  ke_mean :: "rat \<Rightarrow> flt"
  ke_score :: "report_score \<Rightarrow> flt"
  ke_show_flt :: "flt \<Rightarrow> string"
  ke_fmt1 :: "report_score \<Rightarrow> string"
  ke_avg :: "flt list \<Rightarrow> rat"
  ke_template :: "string option"
  ke_claude_found :: bool
  ke_connect :: "string \<Rightarrow> nat \<Rightarrow> bool"
  ke_reports_ok :: bool
  ke_reports_path :: "string \<Rightarrow> string"
  ke_iso :: iso_reader
  ke_workspace :: workspace
  ke_ledger_ok :: bool
  ke_author :: author_workspace
  ke_git_limit :: nat
  ke_fault :: "write_fault option"
  ke_show_path :: "string list \<Rightarrow> string"
  ke_sha_bytes :: "string \<Rightarrow> string"
  ke_bundles :: node
  ke_help :: string

text \<open>The injected dependencies: a scorer, a judge caller, and which adapters are stubs.\<close>

record cli_deps =
  cd_scorer :: "scorer option"
  cd_judge :: "nat judge_caller option"
  cd_claude_stub :: bool
  cd_local_stub :: bool

record cli_state =
  cs_runs :: out_dir
  cs_reports :: "string \<Rightarrow> string option"
  cs_ledger :: "string \<Rightarrow> file_read"
  cs_files :: out_files

section \<open>Validating a suite\<close>

definition handle_validate :: "cli_env \<Rightarrow> string \<Rightarrow> cli_result" where
  "handle_validate env path = (case load_suite (ke_ext env) (ke_limit env) (ke_files env path) of
     Inl e \<Rightarrow> failed [] ''validate: '' (OfSuite e)
   | Inr s \<Rightarrow> said
       (line (su_name s @ '': valid ('' @ show_nat (length (su_items s)) @ '' items, scoring='' @
          scoring_type_name (sc_type (su_scoring s)) @ '')'') @
        line (''item_hash: '' @ item_hash (ke_ext env) s)) [] 0)"

section \<open>Running a sweep\<close>

definition split_csv :: "string \<Rightarrow> string list" where
  "split_csv value = filter (\<lambda>tok. tok \<noteq> []) (map strip (split_on CHR '','' value))"

text \<open>\<open>_split_csv(args.x) if args.x else None\<close>.\<close>

definition csv_option :: "string option \<Rightarrow> string list option" where
  "csv_option v = (case v of None \<Rightarrow> None | Some s \<Rightarrow> if s = [] then None else Some (split_csv s))"

definition rubric_defer_note :: "string \<Rightarrow> string" where
  "rubric_defer_note em = ''note: rubric scoring is the LLM judge; responses collected unscored '' @ em @
     '' run `mt score <run_id>` to judge them (k=3 median + per-judge parse-fail gate)''"

definition select_scorer :: "cli_env \<Rightarrow> scoring_spec \<Rightarrow> (scoring_error, scorer \<times> cli_note list) res" where
  "select_scorer env scoring =
     (if sc_type scoring = Rubric then Inr (collect_only_scorer, [Note (rubric_defer_note (ke_em env))])
      else bindE (make_deterministic_scorer (ke_ext env) (ke_limit env) scoring) (\<lambda>sc. Inr (sc, [])))"

text \<open>The scorer of a command: the injected one, else the one the suite asks for.\<close>

definition scorer_for :: "cli_env \<Rightarrow> cli_deps \<Rightarrow> scoring_spec \<Rightarrow> (cli_error, scorer \<times> cli_note list) res" where
  "scorer_for env deps scoring = (case cd_scorer deps of
     Some sc \<Rightarrow> Inr (sc, [])
   | None \<Rightarrow> map_errE OfScoring (select_scorer env scoring))"

definition load_inputs :: "cli_env \<Rightarrow> string option \<Rightarrow> string \<Rightarrow> (cli_error, run_config \<times> suite) res" where
  "load_inputs env config path =
     bindE (map_errE OfConfig (load_config (ke_ext env) (ke_config env) config)) (\<lambda>c.
     bindE (map_errE OfSuite (load_suite (ke_ext env) (ke_limit env) (ke_files env path))) (\<lambda>s. Inr (c, s)))"

record run_request =
  rq_suite :: string
  rq_models :: "string option"
  rq_samples :: "int option"
  rq_judges :: "string option"
  rq_budget :: "int option"
  rq_resume :: "string option"
  rq_config :: "string option"
  rq_preregister :: "string option"

definition run_args_of :: "run_request \<Rightarrow> run_args" where
  "run_args_of q = \<lparr>ra_roster = csv_option (rq_models q), ra_samples = rq_samples q,
     ra_judges = csv_option (rq_judges q), ra_max_calls = rq_budget q, ra_preregister = rq_preregister q,
     ra_resume = rq_resume q\<rparr>"

definition run_summary :: "run_result \<Rightarrow> string" where
  "run_summary z = rz_run_id z @ '': '' @ show_nat (rz_cells_completed z) @ ''/'' @ show_nat (rz_cells_total z) @
     '' cells done, budget '' @ show_int (rz_budget_used z) @ ''/'' @ show_int (rz_budget_max z) @ '' used''"

definition resume_hint :: "run_result \<Rightarrow> string" where
  "resume_hint z = ''budget exhausted at '' @ show_int (rz_budget_used z) @ ''/'' @ show_int (rz_budget_max z) @
     '' calls; resume with --resume '' @ rz_run_id z"

definition handle_run :: "cli_env \<Rightarrow> cli_deps \<Rightarrow> run_request \<Rightarrow> cli_state \<Rightarrow> cli_result \<times> cli_state" where
  "handle_run env deps q st = (case load_inputs env (rq_config q) (rq_suite q) of
     Inl e \<Rightarrow> (failed [] ''run: '' e, st)
   | Inr (config, s) \<Rightarrow>
       (case scorer_for env deps (su_scoring s) of
          Inl e \<Rightarrow> (failed [] ''run: '' e, st)
        | Inr (scorer, notes) \<Rightarrow>
            (case run (ke_ext env) (ke_world env) s config scorer (run_args_of q) (cs_runs st) of
               (Inl e, od) \<Rightarrow> (failed notes ''run: '' (OfRun e), st\<lparr>cs_runs := od\<rparr>)
             | (Inr z, od) \<Rightarrow>
                 (said (line (run_summary z)) (notes @ (if rz_aborted z then [Note (resume_hint z)] else [])) 0,
                  st\<lparr>cs_runs := od\<rparr>))))"

section \<open>Scoring a stored run\<close>

definition score_summary :: "string \<Rightarrow> score_result \<Rightarrow> string" where
  "score_summary run_id r = run_id @ '': '' @ show_nat (sr_total r) @ '' rows, '' @ show_nat (sr_scored r) @
     '' scored, '' @ show_nat (sr_no_response r) @ '' no-response''"

definition score_cellwise ::
    "cli_env \<Rightarrow> cli_note list \<Rightarrow> string \<Rightarrow> scorer \<Rightarrow> cli_state \<Rightarrow> cli_result \<times> cli_state" where
  "score_cellwise env notes run_id scorer st =
     (case score_run (ke_ext env) (ke_limit env) scorer (cs_runs st) run_id of
        (Inl e, od) \<Rightarrow> (failed notes ''score: '' (OfRun e), st\<lparr>cs_runs := od\<rparr>)
      | (Inr r, od) \<Rightarrow> (said (line (score_summary run_id r)) notes 0, st\<lparr>cs_runs := od\<rparr>))"

text \<open>\<open>dataclasses.replace(config, judges=...)\<close> runs the checks of the constructor again.\<close>

definition replace_judges :: "externals \<Rightarrow> run_config \<Rightarrow> string list \<Rightarrow> run_config cres" where
  "replace_judges ext c judges =
     RunConfig_init ext (strs_json (cf_roster c)) (JStr (cf_local_base_url c)) (JInt (cf_local_max_tokens c))
       (cf_local_timeout c) (JInt (cf_claude_pool c)) (JInt (cf_samples c)) (strs_json judges)
       (JInt (cf_max_calls c)) (Some (cf_profile c)) (cf_source c)"

definition judging_inputs ::
    "cli_env \<Rightarrow> string option \<Rightarrow> string \<Rightarrow> out_dir \<Rightarrow> (cli_error, run_config \<times> receipt) res" where
  "judging_inputs env path run_id od =
     bindE (map_errE OfConfig (load_config (ke_ext env) (ke_config env) path)) (\<lambda>c.
     bindE (map_errE OfRun (load_run_judge_contract (ke_ext env) od run_id c)) (\<lambda>(judges, rc).
     bindE (map_errE (\<lambda>e. OfConfig (ConfigError e)) (replace_judges (ke_ext env) c judges)) (\<lambda>c'.
       Inr (c', rc))))"

definition judge_pass ::
    "cli_env \<Rightarrow> cli_deps \<Rightarrow> run_config \<Rightarrow> receipt \<Rightarrow> out_dir \<Rightarrow> string
       \<Rightarrow> (run_exn + judge_error, score_result) res \<times> out_dir" where
  "judge_pass env deps c rc od run_id = (case cd_judge deps of
     Some caller \<Rightarrow>
       score_rubric (ke_ext env) (ke_limit env) (ke_mean env) (ke_pstr env) (cf_judges c) caller JUDGE_SAMPLE_K 0 od run_id
   | None \<Rightarrow>
       score_rubric (ke_ext env) (ke_limit env) (ke_mean env) (ke_pstr env) (cf_judges c)
         (default_judge_caller ((ke_judging env)\<lparr>jp_config := c, jp_receipt := Some rc\<rparr>)) JUDGE_SAMPLE_K
         \<lparr>cj_budget = \<lparr>bu_max = cf_max_calls c, bu_used = 0\<rparr>, cj_runtime = None, cj_calls = 0\<rparr> od run_id)"

definition handle_score_rubric ::
    "cli_env \<Rightarrow> cli_deps \<Rightarrow> string option \<Rightarrow> string \<Rightarrow> cli_state \<Rightarrow> cli_result \<times> cli_state" where
  "handle_score_rubric env deps config run_id st = (case judging_inputs env config run_id (cs_runs st) of
     Inl e \<Rightarrow> (failed [] ''score: '' e, st)
   | Inr (c, rc) \<Rightarrow>
       (case judge_pass env deps c rc (cs_runs st) run_id of
          (Inl (Inl e), od) \<Rightarrow> (failed [] ''score: '' (OfRun e), st\<lparr>cs_runs := od\<rparr>)
        | (Inl (Inr e), od) \<Rightarrow>
            (failed [] (if e = JudgeCallRaised BudgetExhausted then ''score: judge call budget exhausted '' else ''score: '')
               (OfJudge e), st\<lparr>cs_runs := od\<rparr>)
        | (Inr r, od) \<Rightarrow> (said (line (score_summary run_id r)) [] 0, st\<lparr>cs_runs := od\<rparr>)))"

definition handle_score ::
    "cli_env \<Rightarrow> cli_deps \<Rightarrow> string option \<Rightarrow> string \<Rightarrow> cli_state \<Rightarrow> cli_result \<times> cli_state" where
  "handle_score env deps config run_id st = (case cd_scorer deps of
     Some sc \<Rightarrow> score_cellwise env [] run_id sc st
   | None \<Rightarrow>
       (case load_run_suite (ke_ext env) (cs_runs st) run_id of
          Inl e \<Rightarrow> (failed [] ''score: '' (OfRun e), st)
        | Inr s \<Rightarrow>
            (if sc_type (su_scoring s) = Rubric then handle_score_rubric env deps config run_id st
             else case select_scorer env (su_scoring s) of
               Inl e \<Rightarrow> (failed [] ''score: '' (OfScoring e), st)
             | Inr (sc, notes) \<Rightarrow> score_cellwise env notes run_id sc st)))"

section \<open>Reports\<close>

record report_request =
  rt_run_id :: string
  rt_compare :: "string list"
  rt_html :: bool
  rt_jsonl :: bool

text \<open>What is rendered, the name of the file, and whether it is printed as well.\<close>

definition rendered_report ::
    "cli_env \<Rightarrow> report_request \<Rightarrow> out_dir \<Rightarrow> (html_exn, string \<times> string \<times> bool) res" where
  "rendered_report env q od =
     (if rt_compare q \<noteq> [] then
        bindE (from_report (build_comparison (ke_ext env) (ke_limit env) (ke_pstr env) od (rt_run_id q # rt_compare q)))
          (\<lambda>c. Inr (render_comparison (ke_em env) (ke_show_flt env) (ke_fmt1 env) c,
             ''compare-'' @ rt_run_id q @ ''.md'', True))
      else if rt_html q then
        bindE (build_transparency_report (ke_ext env) (ke_limit env) (ke_pstr env) (ke_em env) (ke_avg env) od (rt_run_id q))
          (\<lambda>r. bindE (render_transparency_report (ke_pstr env) (ke_em env) (ke_score env) (ke_fmt1 env) (ke_template env) r)
             (\<lambda>page. Inr (page, rt_run_id q @ ''.html'', False)))
      else
        bindE (from_report (build_run_report (ke_ext env) (ke_limit env) (ke_pstr env) od (rt_run_id q))) (\<lambda>r.
          Inr (if rt_jsonl q then (run_report_jsonl (ke_score env) r, rt_run_id q @ ''.jsonl'', True)
               else (render_run_report (ke_em env) (ke_show_flt env) (ke_fmt1 env) r, rt_run_id q @ ''.md'', True))))"

definition with_newline :: "string \<Rightarrow> string" where
  "with_newline s = (if s \<noteq> [] \<and> last s = newline then s else s @ [newline])"

definition handle_report :: "cli_env \<Rightarrow> report_request \<Rightarrow> cli_state \<Rightarrow> cli_result \<times> cli_state" where
  "handle_report env q st = (case rendered_report env q (cs_runs st) of
     Inl e \<Rightarrow> (failed [] ''report: '' (OfReport e), st)
   | Inr (rendered, dest, printed) \<Rightarrow>
       (let out = (if printed then line rendered else [])
        in if \<not> ke_reports_ok env then (\<lparr>ro_out = out, ro_err = [], ro_exit = Raised ReportsOSError\<rparr>, st)
           else (said out [Note (''wrote '' @ ke_reports_path env dest)] 0,
                 st\<lparr>cs_reports := (cs_reports st)(dest \<mapsto> with_newline rendered)\<rparr>)))"

section \<open>The claim ledger\<close>

datatype claims_action = ListClaims | AuditClaims | RenderClaims

definition claims_name :: "claims_action \<Rightarrow> string" where
  "claims_name a = (case a of ListClaims \<Rightarrow> ''list'' | AuditClaims \<Rightarrow> ''audit'' | RenderClaims \<Rightarrow> ''render'')"

definition issue_note :: "audit_issue \<Rightarrow> cli_note" where
  "issue_note i = StaleCitation (ai_claim i) (so_file (ai_source i)) (so_lines (ai_source i)) (ai_reason i)"

definition audit_summary :: "audit_result \<Rightarrow> string" where
  "audit_summary r =
     (if stale_claim_ids r \<noteq> []
      then ''claims audit: STALE - '' @ show_nat (length (stale_claim_ids r)) @ '' stale claim(s), '' @
        show_nat (length (ar_newly r)) @ '' newly marked''
      else ''claims audit: PASS - '' @ show_int (fresh_count r) @ '' claim(s) fresh'')"

definition handle_claims :: "cli_env \<Rightarrow> claims_action \<Rightarrow> string \<Rightarrow> cli_state \<Rightarrow> cli_result \<times> cli_state" where
  "handle_claims env action path st =
     (let failing = (\<lambda>e. failed [] (''claims '' @ claims_name action @ '': '') (OfLedger e));
          stored = load_ledger (ke_ext env) (ke_iso env) (ke_limit env) path (cs_ledger st path)
      in case action of
        ListClaims \<Rightarrow>
          (case stored of Inl e \<Rightarrow> (failing e, st) | Inr cs \<Rightarrow> (said (line (render_claim_list cs)) [] 0, st))
      | RenderClaims \<Rightarrow>
          (case stored of Inl e \<Rightarrow> (failing e, st) | Inr cs \<Rightarrow> (said (render_ledger cs) [] 0, st))
      | AuditClaims \<Rightarrow>
          (case audit_ledger (ke_ext env) (ke_iso env) (ke_limit env) path (ke_workspace env) (ke_ledger_ok env)
                  (cs_ledger st path) of
             (Inl e, file) \<Rightarrow> (failing e, st\<lparr>cs_ledger := (cs_ledger st)(path := file)\<rparr>)
           | (Inr r, file) \<Rightarrow>
               (said (line (audit_summary r)) (if stale_claim_ids r \<noteq> [] then map issue_note (ar_issues r) else [])
                  (if stale_claim_ids r \<noteq> [] then 1 else 0),
                st\<lparr>cs_ledger := (cs_ledger st)(path := file)\<rparr>)))"

section \<open>Authoring\<close>

datatype author_action = Harvest string "string list option" | Stub string "string list option"

definition harvest_summary :: "harvest_result \<Rightarrow> string" where
  "harvest_summary r = ''author harvest: '' @ show_nat (length (hr_candidates r)) @ '' candidate(s), '' @
     show_nat (hr_dropped r) @ '' semantic duplicate(s) dropped''"

definition handle_author :: "cli_env \<Rightarrow> author_action \<Rightarrow> cli_state \<Rightarrow> cli_result \<times> cli_state" where
  "handle_author env action st = (case action of
     Harvest source output \<Rightarrow>
       (case harvest (ke_ext env) (ke_limit env) (ke_git_limit env) source (ke_author env) of
          Inl e \<Rightarrow> (failed [] ''author harvest: '' (OfAuthor e), st)
        | Inr r \<Rightarrow>
            (case output of
               None \<Rightarrow> (said (render_harvest r) [Note (harvest_summary r)] 0, st)
             | Some path \<Rightarrow>
                 (case write_new_file (ke_fault env) path (render_harvest r) (cs_files st) of
                    (Inl e, fs) \<Rightarrow> (failed [] ''author harvest: '' (OfAuthor e), st\<lparr>cs_files := fs\<rparr>)
                  | (Inr dest, fs) \<Rightarrow>
                      (said (line (''author harvest: wrote '' @ ke_show_path env dest)) [Note (harvest_summary r)] 0,
                       st\<lparr>cs_files := fs\<rparr>))))
   | Stub name output \<Rightarrow>
       (case make_stub_file (ke_ext env) (ke_fault env) name
               (case output of None \<Rightarrow> [''suites'', name @ ''.json''] | Some path \<Rightarrow> path) (cs_files st) of
          (Inl e, fs) \<Rightarrow> (failed [] ''author stub: '' (OfAuthor e), st\<lparr>cs_files := fs\<rparr>)
        | (Inr dest, fs) \<Rightarrow>
            (said (line (''author stub: wrote '' @ ke_show_path env dest)) [] 0, st\<lparr>cs_files := fs\<rparr>)))"

section \<open>The smoke gate\<close>

datatype smoke_mode = SmokeClaude | SmokeLocal | SmokeGemini

definition smoke_mode_of :: "bool \<Rightarrow> bool \<Rightarrow> smoke_mode" where
  "smoke_mode_of gemini local = (if gemini then SmokeGemini else if local then SmokeLocal else SmokeClaude)"

definition mode_name :: "smoke_mode \<Rightarrow> string" where
  "mode_name m = (case m of SmokeClaude \<Rightarrow> ''claude'' | SmokeLocal \<Rightarrow> ''local'' | SmokeGemini \<Rightarrow> ''gemini'')"

definition smoke_roster :: "smoke_mode \<Rightarrow> string list" where
  "smoke_roster m = (case m of SmokeClaude \<Rightarrow> [''haiku''] | SmokeLocal \<Rightarrow> [''general-35b''] | SmokeGemini \<Rightarrow> [''gemini-flash''])"

text \<open>
  \<open>urlsplit\<close> of a base URL the configuration accepts: a scheme, two slashes, and letters, digits, dots,
  underscores, colons and hyphens up to the first slash.
\<close>

definition url_scheme :: "string \<Rightarrow> string" where
  "url_scheme u = map lower_char (takeWhile (\<lambda>c. c \<noteq> CHR '':'') u)"

definition url_netloc :: "string \<Rightarrow> string" where
  "url_netloc u = takeWhile (\<lambda>c. c \<noteq> CHR ''/'') (drop 3 (dropWhile (\<lambda>c. c \<noteq> CHR '':'') (filter (\<lambda>c. c \<noteq> newline) u)))"

definition url_hostname :: "string \<Rightarrow> string option" where
  "url_hostname u = (case takeWhile (\<lambda>c. c \<noteq> CHR '':'') (url_netloc u) of [] \<Rightarrow> None | h \<Rightarrow> Some (map lower_char h))"

text \<open>The \<open>port\<close> property: absent, a number up to 65535, or a \<open>ValueError\<close>.\<close>

definition url_port :: "string \<Rightarrow> (cli_error, nat option) res" where
  "url_port u = (case drop 1 (dropWhile (\<lambda>c. c \<noteq> CHR '':'') (url_netloc u)) of
     [] \<Rightarrow> Inr None
   | p \<Rightarrow> if list_all is_digit p \<and> length p \<le> int_max_str_digits \<and> read_nat p \<le> 65535 then Inr (Some (read_nat p)) else Inl PortValueError)"

definition local_endpoint_unreachable :: "cli_env \<Rightarrow> string \<Rightarrow> (cli_error, bool) res" where
  "local_endpoint_unreachable env u =
     (let host = (case url_hostname u of None \<Rightarrow> ''localhost'' | Some h \<Rightarrow> h)
      in bindE (url_port u) (\<lambda>p.
        let port = (case p of None \<Rightarrow> None | Some n \<Rightarrow> if n = 0 then None else Some n)
        in Inr (\<not> ke_connect env host
             (case port of Some n \<Rightarrow> n | None \<Rightarrow> if url_scheme u = ''https'' then 443 else 80))))"

definition unreachable_note :: "string \<Rightarrow> string \<Rightarrow> string" where
  "unreachable_note em u = ''smoke: local endpoint unreachable at '' @ u @
     ''; it is operator-started and is NEVER auto-spawned (Decision 12) '' @ em @
     '' start it (`..'' @ [CHR 0x5C] @ ''switchboard'' @ [CHR 0x5C] @ ''scripts'' @ [CHR 0x5C] @
     ''start-offload.ps1`) then retry''"

text \<open>The preflight: no problem, a problem to print, or an exception.\<close>

definition smoke_preflight :: "cli_env \<Rightarrow> cli_deps \<Rightarrow> smoke_mode \<Rightarrow> run_config \<Rightarrow> (cli_error, string option) res" where
  "smoke_preflight env deps mode c = (case mode of
     SmokeClaude \<Rightarrow>
       Inr (if \<not> cd_claude_stub deps \<and> \<not> ke_claude_found env
            then Some (''smoke: the `claude` CLI is not on PATH / not invocable; `mt smoke --claude` needs '' @
              ''the authenticated claude CLI'')
            else None)
   | SmokeGemini \<Rightarrow> Inr None
   | SmokeLocal \<Rightarrow>
       (if cd_local_stub deps then Inr None
        else bindE (local_endpoint_unreachable env (cf_local_base_url c)) (\<lambda>down.
          Inr (if down then Some (unreachable_note (ke_em env) (cf_local_base_url c)) else None))))"

definition smoke_problems :: "smoke_mode \<Rightarrow> run_report \<Rightarrow> run_result \<Rightarrow> string list" where
  "smoke_problems mode r z =
     (if rz_aborted z then [''sweep aborted (budget '' @ show_int (rz_budget_used z) @ ''/'' @
        show_int (rz_budget_max z) @ '')''] else []) @
     (if total_error r \<noteq> 0 then [show_nat (total_error r) @ '' error/defer row(s)''] else []) @
     (if total_no_response r \<noteq> 0 then [show_nat (total_no_response r) @ '' no-response row(s)''] else []) @
     (if total_parse_fail r \<noteq> 0 then [show_nat (total_parse_fail r) @ '' parse failure(s)''] else []) @
     (if total_scored r = 0 then [''no scored rows (empty report)''] else []) @
     (if mode = SmokeGemini \<and> list_ex mo_unresolved (rp_models r) then [''Gemini provider identity unresolved''] else [])"

definition smoke_gate :: "string \<Rightarrow> smoke_mode \<Rightarrow> run_report \<Rightarrow> run_result \<Rightarrow> cli_result" where
  "smoke_gate printed mode r z =
     (if smoke_problems mode r z \<noteq> []
      then said printed [Note (''smoke ['' @ mode_name mode @ '']: FAIL - '' @ join ''; '' (smoke_problems mode r z))] 1
      else said (printed @ line (''smoke ['' @ mode_name mode @ '']: PASS - '' @ show_nat (total_scored r) @
        '' cell(s) scored, 0 parse failures, 0 errors, 0 no-response'')) [] 0)"

record smoke_request =
  sk_gemini :: bool
  sk_local :: bool
  sk_suite :: string
  sk_config :: "string option"

definition smoke_args :: "smoke_mode \<Rightarrow> suite \<Rightarrow> run_args" where
  "smoke_args mode s = \<lparr>ra_roster = Some (smoke_roster mode), ra_samples = Some 1, ra_judges = None,
     ra_max_calls = Some (int (length (smoke_roster mode) * length (su_items s))), ra_preregister = None, ra_resume = None\<rparr>"

definition handle_smoke :: "cli_env \<Rightarrow> cli_deps \<Rightarrow> smoke_request \<Rightarrow> cli_state \<Rightarrow> cli_result \<times> cli_state" where
  "handle_smoke env deps q st =
     (let mode = smoke_mode_of (sk_gemini q) (sk_local q)
      in case load_inputs env (sk_config q) (sk_suite q) of
        Inl e \<Rightarrow> (failed [] ''smoke: '' e, st)
      | Inr (config, s) \<Rightarrow>
          (case smoke_preflight env deps mode config of
             Inl e \<Rightarrow> (failed [] ''smoke: '' e, st)
           | Inr (Some problem) \<Rightarrow> (said [] [Note problem] 1, st)
           | Inr None \<Rightarrow>
               (case select_scorer env (su_scoring s) of
                  Inl e \<Rightarrow> (failed [] ''smoke: '' (OfScoring e), st)
                | Inr (scorer, _) \<Rightarrow>
                    (case run (ke_ext env) (ke_world env) s config scorer (smoke_args mode s) (cs_runs st) of
                       (Inl e, od) \<Rightarrow> (failed [] ''smoke: '' (OfRun e), st\<lparr>cs_runs := od\<rparr>)
                     | (Inr z, od) \<Rightarrow>
                         (case build_run_report (ke_ext env) (ke_limit env) (ke_pstr env) od (rz_run_id z) of
                            Inl e \<Rightarrow>
                              (failed [] ''smoke: could not produce a report: '' (OfReport (HtmlReport e)),
                               st\<lparr>cs_runs := od\<rparr>)
                          | Inr r \<Rightarrow>
                              (smoke_gate (line (render_run_report (ke_em env) (ke_show_flt env) (ke_fmt1 env) r)) mode r z,
                               st\<lparr>cs_runs := od\<rparr>))))))"

section \<open>Validating agent benchmark inputs\<close>

record agent_request =
  gq_suite_dir :: "string list"
  gq_profiles :: string
  gq_execution :: string
  gq_structure_only :: bool

record agent_inputs =
  gi_suite :: agent_suite
  gi_instrument :: string
  gi_profile :: string
  gi_execution :: string

definition agent_inputs_of :: "cli_env \<Rightarrow> agent_request \<Rightarrow> (cli_error, agent_inputs) res" where
  "agent_inputs_of env q =
     bindE (map_errE OfModel (load_model_registry (ke_limit env) (ke_files env (gq_profiles q)))) (\<lambda>registry.
     bindE (map_errE OfModel (load_execution_profile (ke_limit env) (ke_files env (gq_execution q)))) (\<lambda>execution.
     bindE (map_errE OfBundle (load_agent_suite (ke_ext env, ke_sha_bytes env) (ke_limit env) (ke_bundles env)
              (gq_suite_dir q))) (\<lambda>s.
     bindE (map_errE OfModel (validate_execution_profile_binding execution (JStr (ag_profile_id s)) (mr_models registry)))
       (\<lambda>_.
     case map_of (bp_policies execution) (ag_run_class s) of
       None \<Rightarrow> Inl (RunPolicyKeyError (ag_run_class s))
     | Some p \<Rightarrow>
         bindE (checkE (po_tasks p = int (length (ag_specs s)))
           (PolicyTaskCount (ag_run_class s) (length (ag_specs s)) (po_tasks p))) (\<lambda>_.
         bindE (checkE (po_models p = int (length (mr_models registry)))
           (PolicyModelCount (ag_run_class s) (length (mr_models registry)) (po_models p))) (\<lambda>_.
         bindE (map_errE OfModel (selected_profile_hash (ke_ext env) (mr_models registry))) (\<lambda>profile.
         bindE (map_errE OfModel (execution_profile_hash (ke_ext env) execution)) (\<lambda>execution_hash.
         bindE (map_errE OfBundle (instrument_hash (ke_ext env) s)) (\<lambda>instrument.
           Inr \<lparr>gi_suite = s, gi_instrument = instrument, gi_profile = profile, gi_execution = execution_hash\<rparr>)))))))))"

definition agent_report :: "agent_inputs \<Rightarrow> string" where
  "agent_report i =
     line (ag_id (gi_suite i) @ '': valid structure ('' @ show_nat (length (ag_specs (gi_suite i))) @
       '' task(s), run_class='' @ ag_run_class (gi_suite i) @ '')'') @
     line (''instrument_hash: '' @ gi_instrument i) @ line (''selected_profile_hash: '' @ gi_profile i) @
     line (''execution_profile_hash: '' @ gi_execution i)"

definition handle_agent_validate :: "cli_env \<Rightarrow> agent_request \<Rightarrow> cli_result" where
  "handle_agent_validate env q = (case agent_inputs_of env q of
     Inl e \<Rightarrow> failed [] ''agent validate: '' e
   | Inr i \<Rightarrow>
       (if \<not> gq_structure_only q
        then said [] [Note (''agent validate: complete evaluator-anchor validation is not available in Step 25; '' @
          ''use --structure-only (Step 27 adds the Linux sandboxed anchors)'')] 1
        else said (agent_report i) [] 0))"

section \<open>Dispatch\<close>

text \<open>What parsing the arguments gives: a command, no command, or \<open>--version\<close>, which wins over both.\<close>

datatype command =
    CmdVersion
  | CmdNone
  | CmdValidate string
  | CmdRun run_request
  | CmdScore "string option" string
  | CmdReport report_request
  | CmdClaims claims_action string
  | CmdAuthor author_action
  | CmdSmoke smoke_request
  | CmdAgentValidate agent_request

definition mt_version :: string where "mt_version = ''0.1.0''"

definition mt_main :: "cli_env \<Rightarrow> cli_deps \<Rightarrow> command \<Rightarrow> cli_state \<Rightarrow> cli_result \<times> cli_state" where
  "mt_main env deps c st = (case c of
     CmdVersion \<Rightarrow> (said (line (''measure-twice '' @ mt_version)) [] 0, st)
   | CmdNone \<Rightarrow> (said [] [Note (ke_help env)] 1, st)
   | CmdValidate path \<Rightarrow> (handle_validate env path, st)
   | CmdRun q \<Rightarrow> handle_run env deps q st
   | CmdScore config run_id \<Rightarrow> handle_score env deps config run_id st
   | CmdReport q \<Rightarrow> handle_report env q st
   | CmdClaims action path \<Rightarrow> handle_claims env action path st
   | CmdAuthor action \<Rightarrow> handle_author env action st
   | CmdSmoke q \<Rightarrow> handle_smoke env deps q st
   | CmdAgentValidate q \<Rightarrow> (handle_agent_validate env q, st))"

end
