(* ===== verification/Cli_Facts.thy ===== *)
theory Cli_Facts
  imports Cli Run_Safety Bench_Suite_Facts Report_Html_Facts
begin

text \<open>
  What the commands promise: a sweep whose scoring is repeated changes nothing, a smoke run that passes is
  healthy cell by cell, which command can change what, the gate of the ledger audit, and the exit codes.
\<close>

section \<open>Every row of a sweep is a built row\<close>

definition stored_by :: "sweep_ctx \<Rightarrow> cell list \<Rightarrow> run_row \<Rightarrow> bool" where
  "stored_by sx cs row \<longleftrightarrow> (\<exists>c \<in> set cs. \<exists>r. row_of sx c r = Inr row)"

lemma stored_by_mono: "stored_by sx cs row \<Longrightarrow> set cs \<subseteq> set cs' \<Longrightarrow> stored_by sx cs' row"
  by (auto simp: stored_by_def)

lemma stored_by_simps [simp]:
  "stored_by sx (c # cs) row \<longleftrightarrow> (\<exists>r. row_of sx c r = Inr row) \<or> stored_by sx cs row"
  "stored_by sx (cs @ cs') row \<longleftrightarrow> stored_by sx cs row \<or> stored_by sx cs' row"
  by (auto simp: stored_by_def)

lemma sweep_sequential_stored:
  "sweep_sequential sx call cs b = (e, rows, b') \<Longrightarrow> row \<in> set rows \<Longrightarrow> stored_by sx cs row"
proof (induction cs arbitrary: b e rows b')
  case (Cons c cs)
  show ?case
  proof (cases "consume b")
    case (Some b1)
    show ?thesis
    proof (cases "bindE (call c) (row_of sx c)")
      case (Inr row')
      obtain e2 rows2 b2 where r: "sweep_sequential sx call cs b1 = (e2, rows2, b2)"
        by (cases "sweep_sequential sx call cs b1")
      from Inr have "stored_by sx (c # cs) row'" by (auto simp: stored_by_def bindE_Inr_iff)
      moreover have "row \<in> set rows2 \<Longrightarrow> stored_by sx (c # cs) row" using Cons.IH [OF r] by simp
      ultimately show ?thesis using Cons.prems Some Inr r by (auto simp: put_row_def)
    qed (use Cons.prems Some in auto)
  qed (use Cons.prems in auto)
qed simp

lemma wave_rows_stored:
  "wave_rows sx crs = (e, rows) \<Longrightarrow> row \<in> set rows \<Longrightarrow> stored_by sx (map fst crs) row"
proof (induction crs arbitrary: e rows)
  case (Cons cr crs)
  obtain c r where cr: "cr = (c, r)" by (cases cr)
  obtain e2 rows2 where w: "wave_rows sx crs = (e2, rows2)" by (cases "wave_rows sx crs")
  have ih: "row \<in> set rows2 \<Longrightarrow> stored_by sx (map fst (cr # crs)) row" using Cons.IH [OF w] by simp
  show ?case
  proof (cases r)
    case Refused
    then show ?thesis using Cons.prems cr w ih by (auto split: sweep_end.splits)
  next
    case (Result x)
    then show ?thesis
      using Cons.prems cr w ih by (cases "row_of sx c x") (auto simp: stored_by_def)
  qed
qed simp

lemma sweep_waves_stored:
  "sweep_waves sx rt chs b = (e, rows, b') \<Longrightarrow> row \<in> set rows \<Longrightarrow> stored_by sx (concat chs) row"
proof (induction chs arbitrary: b e rows b')
  case (Cons ch chs)
  show ?case
  proof (cases "exhausted b")
    case False
    obtain res b1 where batch: "claude_call_batch (rw_limit (sx_world sx)) (sx_config sx) rt
        (\<lambda>i. rw_process (sx_world sx) (ch ! i)) (rw_sched (sx_world sx) ch) (claude_requests ch) b = (res, b1)"
      by (cases "claude_call_batch (rw_limit (sx_world sx)) (sx_config sx) rt
        (\<lambda>i. rw_process (sx_world sx) (ch ! i)) (rw_sched (sx_world sx) ch) (claude_requests ch) b")
    show ?thesis
    proof (cases res)
      case (Inr results)
      obtain e1 rows1 where w: "wave_rows sx (zip ch results) = (e1, rows1)" by (cases "wave_rows sx (zip ch results)")
      obtain e2 rows2 b2 where r: "sweep_waves sx rt chs b1 = (e2, rows2, b2)" by (cases "sweep_waves sx rt chs b1")
      have "set (map fst (zip ch results)) \<subseteq> set ch" by (auto dest: set_zip_leftD)
      then have "row \<in> set rows1 \<Longrightarrow> stored_by sx (concat (ch # chs)) row"
        using stored_by_mono [OF wave_rows_stored [OF w]] by simp
      moreover have "row \<in> set rows2 \<Longrightarrow> stored_by sx (concat (ch # chs)) row" using Cons.IH [OF r] by simp
      moreover have "rows = (if e1 = Swept then rows1 @ rows2 else rows1)"
        using Cons.prems(1) False batch Inr w r by (cases e1) auto
      ultimately show ?thesis using Cons.prems(2) by (auto split: if_splits)
    qed (use Cons.prems False batch in simp)
  qed (use Cons.prems in simp)
qed simp

lemma chunks_subset: "set (concat (chunks n xs)) \<subseteq> set xs"
proof (induction n xs rule: chunks.induct)
  case (1 n xs)
  then show ?case
    by (subst chunks.simps) (auto dest: in_set_takeD in_set_dropD)
qed

lemma sweep_binding_stored:
  assumes "sweep_binding sx pp gctx b cs bu = (e, rows, bu')" and "row \<in> set rows"
  shows "stored_by sx cs row"
proof -
  have "stored_by sx cs row" if "sweep_claude sx rt cs bu = (x, rows, c)" for x c rt
    using stored_by_mono [OF sweep_waves_stored [OF that [unfolded sweep_claude_def] assms(2)] chunks_subset] .
  then show ?thesis
    using assms sweep_sequential_stored
    by (auto simp: sweep_binding_def Let_def sweep_local_def sweep_gemini_def
        split: provider.splits option.splits prod.splits)
qed

definition built_row :: "externals \<Rightarrow> string \<Rightarrow> suite \<Rightarrow> scorer \<Rightarrow> run_row \<Rightarrow> bool" where
  "built_row ext rid s sc row \<longleftrightarrow>
     (\<exists>c r. cl_item c \<in> set (su_items s) \<and> build_row ext rid c r sc = Inr row)"

lemma pending_item: "c \<in> set (pending_cells b s samples done) \<Longrightarrow> cl_item c \<in> set (su_items s)"
  by (auto simp: pending_cells_def)

lemma sweep_bindings_stored:
  "sweep_bindings sx pp s gctx bs bu = (e, rows, bu') \<Longrightarrow> row \<in> set rows
    \<Longrightarrow> built_row (sx_ext sx) (sx_run_id sx) s (sx_scorer sx) row"
proof (induction bs arbitrary: bu e rows bu')
  case (Cons b bs)
  let ?cs = "pending_cells b s (pp_samples pp) (pp_done pp)"
  show ?case
  proof (cases "?cs = []")
    case False
    obtain e1 rows1 bu1 where r: "sweep_binding sx pp gctx b ?cs bu = (e1, rows1, bu1)"
      by (cases "sweep_binding sx pp gctx b ?cs bu")
    obtain e2 rows2 bu2 where r2: "sweep_bindings sx pp s gctx bs bu1 = (e2, rows2, bu2)"
      by (cases "sweep_bindings sx pp s gctx bs bu1")
    have "rows = rows1 \<or> rows = rows1 @ rows2"
      using Cons.prems(1) False r r2 by (auto split: run_end.splits bool.splits)
    moreover have "row \<in> set rows1 \<Longrightarrow> stored_by sx ?cs row" by (rule sweep_binding_stored [OF r])
    then have "row \<in> set rows1 \<Longrightarrow> built_row (sx_ext sx) (sx_run_id sx) s (sx_scorer sx) row"
      unfolding stored_by_def built_row_def row_of_def map_errE_Inr_iff using pending_item by blast
    ultimately show ?thesis using Cons.IH [OF r2] Cons.prems(2) by auto
  qed (use Cons in simp)
qed simp

section \<open>The store of a fresh run\<close>

lemma rows_text_inj:
  assumes "list_all (row_ok 1) rows" and "list_all (row_ok 1) rows'" and "rows_text rows = rows_text rows'"
  shows "rows = rows'"
  using read_rows_whole [OF assms(1)] read_rows_whole [OF assms(2)] assms(3) by simp

lemma fresh_store:
  assumes run: "run ext w s config scorer args od = (Inr z, od')" and fresh: "ra_resume args = None"
    and ok: "suite_ok ext s" "config_ok ext config" "world_ok w" "unit_scorer scorer"
      "json_ok (JInt (first_some (ra_samples args) (cf_samples config)))"
  obtains st rows m where "od_runs od (rw_minted w) = None" and "rz_run_id z = rw_minted w"
    and "od' = od\<lparr>od_runs := (od_runs od)(rw_minted w \<mapsto> st)\<rparr>" and "rs_suite st = Doc (suite_asdict s)"
    and "rs_manifest st = Doc (JObj m)" and "fld m ''suite_hash'' = JStr (item_hash ext s)"
    and "rs_rows st = FileText (rows_text rows)" and "list_all (row_ok 1) rows"
    and "\<forall>row \<in> set rows. built_row ext (rw_minted w) s scorer row" and "distinct (map row_cell_key rows)"
    and "\<not> rz_aborted z \<Longrightarrow> set (map row_cell_key rows) =
      Some ` grid_keys (first_some (ra_roster args) (cf_roster config)) s (first_some (ra_samples args) (cf_samples config))"
proof -
  from run fresh obtain pp st where p: "prepare_fresh ext w config s args od = Inr (pp, st)"
    by (cases "prepare_fresh ext w config s args od") (auto simp: run_def)
  note f = prepare_fresh_facts [OF p]
  from run fresh p obtain st' where r: "run_sweep ext w config s scorer pp st = (Inr z, st')"
      and od': "od' = od\<lparr>od_runs := (od_runs od)(pp_run_id pp \<mapsto> st')\<rparr>"
    by (auto simp: run_def split: prod.splits)
  let ?sx = "\<lparr>sx_ext = ext, sx_world = w, sx_run_id = pp_run_id pp, sx_config = config, sx_scorer = scorer\<rparr>"
  let ?plan = "plan_cells s (pp_samples pp) [] (pp_bindings pp)"
  have fit: "\<forall>b \<in> set (pp_bindings pp). binding_fit ?sx b"
    using resolved_fit [where sx = ?sx] f(7) ok(2,3) by (simp add: config_ok_def world_ok_def)
  from sweep_accounts [OF r fit, unfolded f(1)] obtain rows ks where
      st': "st' = st\<lparr>rs_rows := append_rows (rs_rows st) rows\<rparr>"
    and k: "subseq ks (map cell_key ?plan)" "map row_cell_key rows = map Some ks" and z: "rz_run_id z = pp_run_id pp"
    and all: "\<not> rz_aborted z \<longrightarrow> ks = map cell_key ?plan"
    and fine: "world_ok w \<and> unit_scorer scorer \<and> json_ok (JInt (pp_samples pp)) \<longrightarrow> list_all (row_ok 1) rows" by metis
  from run_sweep_cases [OF r] obtain ab rows2 bu' where
      sw: "sweep_bindings ?sx pp s (ep_gemini (cf_profile config)) (pp_bindings pp)
        \<lparr>bu_max = pp_max_calls pp, bu_used = 0\<rparr> = (RunDone ab, rows2, bu')"
    and st2: "st' = st\<lparr>rs_rows := append_rows (rs_rows st) rows2\<rparr>" by metis
  have js: "json_ok (JInt (pp_samples pp))" using ok(5) by (simp add: f(9))
  have ok1: "list_all (row_ok 1) rows" using fine ok(3,4) js by simp
  have "list_all (row_ok 1) rows2" using sweep_bindings_ok [OF sw fit js] ok(3,4) by simp
  moreover have "rows_text rows = rows_text rows2"
    using arg_cong [OF st' [symmetric, unfolded st2], of rs_rows] by (simp add: f(2) append_rows_text)
  ultimately have same: "rows2 = rows" using rows_text_inj [OF ok1] by simp
  have built: "\<forall>row \<in> set rows. built_row ext (rw_minted w) s scorer row"
    using sweep_bindings_stored [OF sw] by (simp add: f(4) same)
  note bs = resolve_bindings_Inr(1) [OF f(7)]
  have "distinct (map cell_key ?plan)"
    using plan_distinct [of "pp_bindings pp" s "pp_samples pp" "[]"] bs f(5) ok(1) by (simp add: suite_ok_def)
  then have d: "distinct (map row_cell_key rows)"
    using k(2) subseq_distinct [OF k(1)] by (simp add: distinct_map)
  have g: "set (map row_cell_key rows) = Some ` grid_keys (first_some (ra_roster args) (cf_roster config)) s
      (first_some (ra_samples args) (cf_samples config))" if "\<not> rz_aborted z"
  proof -
    have "set ks = grid_keys (map mb_alias (pp_bindings pp)) s (pp_samples pp)"
      using all that plan_keys [of s "pp_samples pp" "pp_bindings pp"] by simp
    moreover have "set (map row_cell_key rows) = Some ` set ks" unfolding k(2) by simp
    ultimately show ?thesis using bs f(8,9) by simp
  qed
  obtain judges rc where man: "rs_manifest st = Doc (manifest_json ext (rw_minted w) s (pp_roster pp) (pp_samples pp) judges
      config (pp_max_calls pp) (ra_preregister args) rc (rw_started w))" and su: "rs_suite st = Doc (suite_asdict s)"
    using p by (auto simp: prepare_fresh_def Let_def bindE_Inr_iff split: if_splits)
  show thesis
    by (rule that [of st' "case rs_manifest st' of Doc (JObj m) \<Rightarrow> m" rows])
      (use f(2-4) z od' man su ok1 built d g in \<open>simp_all add: st' manifest_json_def fld_Cons append_rows_text\<close>)
qed

section \<open>Handlers that succeed\<close>

lemma failed_exit: "ro_exit (failed ns c e) \<noteq> Exit 0"
  by (simp add: failed_def)

lemma said_exit [simp]: "ro_exit (said out err code) = Exit code"
  by (simp add: said_def)

lemma load_suite_ok: "load_suite ext limit file = Inr s \<Longrightarrow> suite_ok ext s"
  by (auto simp: load_suite_def map_errE_Inr_iff dest: Suite_from_mapping_sound
      split: file_read.splits sum.splits json_exn.splits if_splits)

lemma load_inputs_Inr:
  assumes "load_inputs env path sp = Inr (c, s)"
  shows "config_ok (ke_ext env) c" and "suite_ok (ke_ext env) s"
    and "load_suite (ke_ext env) (ke_limit env) (ke_files env sp) = Inr s"
proof -
  have l: "load_config (ke_ext env) (ke_config env) path = Inr c"
    "load_suite (ke_ext env) (ke_limit env) (ke_files env sp) = Inr s"
    using assms by (auto simp: load_inputs_def bindE_Inr_iff map_errE_Inr_iff)
  then show "load_suite (ke_ext env) (ke_limit env) (ke_files env sp) = Inr s" "suite_ok (ke_ext env) s"
    by (simp_all add: load_suite_ok)
  show "config_ok (ke_ext env) c" using load_config_sound [OF l(1)] by simp
qed

lemma handle_run_exit0:
  assumes "handle_run env deps q st = (r, st')" and "ro_exit r = Exit 0"
  obtains config s scorer ns z od where "load_inputs env (rq_config q) (rq_suite q) = Inr (config, s)"
    and "scorer_for env deps (su_scoring s) = Inr (scorer, ns)"
    and "run (ke_ext env) (ke_world env) s config scorer (run_args_of q) (cs_runs st) = (Inr z, od)"
    and "st' = st\<lparr>cs_runs := od\<rparr>"
    and "r = said (line (run_summary z)) (ns @ (if rz_aborted z then [Note (resume_hint z)] else [])) 0"
proof -
  obtain x where l: "load_inputs env (rq_config q) (rq_suite q) = Inr x"
    using assms by (cases "load_inputs env (rq_config q) (rq_suite q)") (auto simp: handle_run_def failed_exit)
  obtain config s where x: "x = (config, s)" by (cases x)
  obtain y where sc: "scorer_for env deps (su_scoring s) = Inr y"
    using assms l x by (cases "scorer_for env deps (su_scoring s)") (auto simp: handle_run_def failed_exit)
  obtain scorer ns where y: "y = (scorer, ns)" by (cases y)
  obtain res od where run: "run (ke_ext env) (ke_world env) s config scorer (run_args_of q) (cs_runs st) = (res, od)"
    by (cases "run (ke_ext env) (ke_world env) s config scorer (run_args_of q) (cs_runs st)")
  obtain z where z: "res = Inr z"
    using assms l x sc y run by (cases res) (auto simp: handle_run_def failed_exit)
  show thesis
    by (rule that [OF l [unfolded x] sc [unfolded y] run [unfolded z]])
      (use assms(1) l x sc y run z in \<open>auto simp: handle_run_def\<close>)
qed

section \<open>Scoring again\<close>

lemma subscript_fld: "fld m k = JStr h \<Longrightarrow> subscript m k = Inr (JStr h)"
  by (auto simp: subscript_def fld_def split: option.splits)

lemma rescored_same:
  assumes "\<forall>row \<in> set rows. built_row ext rid s sc row" and "untagged sc" and "suite_ok ext s"
  shows "mapE (rescore_row sc (su_items s)) rows = Inr rows"
proof -
  have d: "distinct (map it_id (su_items s))" using assms(3) by (simp add: suite_ok_def)
  have "rescore_row sc (su_items s) row = Inr row" if "row \<in> set rows" for row
  proof -
    from assms(1) that obtain c r where "cl_item c \<in> set (su_items s)" "build_row ext rid c r sc = Inr row"
      by (auto simp: built_row_def)
    with rescore_build_row [OF this(2) assms(2) d this(1), of sc] show ?thesis by simp
  qed
  then show ?thesis unfolding mapE_Inr_iff by (simp add: list_all2_same)
qed

lemma production_scorer:
  assumes "make_deterministic_scorer ext limit sp = Inr sc"
  shows "untagged sc" and "unit_scorer sc"
  using assms verdict.untagged verdict.unit_scorer exact.untagged exact.unit_scorer by (cases rule: make_scorer_cases; simp)+

lemma fresh_suite:
  assumes "od_runs od rid = Some st" and "run_id_ok rid" and "\<not> od_escapes od rid"
    and "rs_suite st = Doc (suite_asdict s)" and "rs_manifest st = Doc (JObj m)"
    and "fld m ''suite_hash'' = JStr (item_hash ext s)" and "suite_ok ext s"
  shows "open_run ext od rid = Inr (st, s)" and "load_run_suite ext od rid = Inr s"
proof -
  show "open_run ext od rid = Inr (st, s)"
    using assms(1-6) Suite_from_mapping_asdict [OF assms(7)] subscript_fld [OF assms(6)]
    by (simp add: open_run_def resolve_run_dir_def read_manifest_def read_suite_snapshot_def str_equals_def)
  then show "load_run_suite ext od rid = Inr s" by (simp add: load_run_suite_def)
qed

text \<open>C30: scoring is repeatable from the command line.  After a fresh \<open>mt run\<close> of a verdict or exact suite that
  exits with 0, \<open>mt score\<close> of that run exits with 0, prints no note, and leaves every file as it was: the
  scores written during the sweep are the ones the stored responses get.\<close>

theorem run_then_score:
  assumes "handle_run env deps q st = (r, st')" and "ro_exit r = Exit 0" and "rq_resume q = None"
    and "cd_scorer deps = None" and "load_inputs env (rq_config q) (rq_suite q) = Inr (config, s)"
    and "sc_type (su_scoring s) \<noteq> Rubric" and "world_ok (ke_world env)" and "1 \<le> ke_limit env"
    and "json_ok (JInt (first_some (rq_samples q) (cf_samples config)))"
    and "run_id_ok (rw_minted (ke_world env))" and "\<not> od_escapes (cs_runs st) (rw_minted (ke_world env))"
  shows "\<exists>r2. handle_score env deps path (rw_minted (ke_world env)) st' = (r2, st') \<and> ro_exit r2 = Exit 0 \<and> ro_err r2 = []"
proof -
  let ?w = "ke_world env" and ?ext = "ke_ext env"
  from handle_run_exit0 [OF assms(1,2)] obtain scorer ns z od where
      sc: "scorer_for env deps (su_scoring s) = Inr (scorer, ns)"
    and run: "run ?ext ?w s config scorer (run_args_of q) (cs_runs st) = (Inr z, od)" and st': "st' = st\<lparr>cs_runs := od\<rparr>"
    by (metis assms(5) Pair_inject sum.inject(2))
  note ok = load_inputs_Inr [OF assms(5)]
  from sc assms(4,6) have mk: "make_deterministic_scorer ?ext (ke_limit env) (su_scoring s) = Inr scorer" "ns = []"
    by (auto simp: scorer_for_def select_scorer_def map_errE_Inr_iff bindE_Inr_iff)
  have fresh: "ra_resume (run_args_of q) = None" and sam: "ra_samples (run_args_of q) = rq_samples q"
    using assms(3) by (simp_all add: run_args_of_def)
  from fresh_store [OF run fresh ok(2,1) assms(7) production_scorer(2) [OF mk(1)], unfolded sam, OF assms(9)]
  obtain s1 rows m where od: "od = (cs_runs st)\<lparr>od_runs := (od_runs (cs_runs st))(rw_minted ?w \<mapsto> s1)\<rparr>"
    and s1: "rs_suite s1 = Doc (suite_asdict s)" "rs_manifest s1 = Doc (JObj m)" "fld m ''suite_hash'' = JStr (item_hash ?ext s)"
      "rs_rows s1 = FileText (rows_text rows)"
    and rows: "list_all (row_ok 1) rows" "\<forall>row \<in> set rows. built_row ?ext (rw_minted ?w) s scorer row" by metis
  have open': "open_run ?ext od (rw_minted ?w) = Inr (s1, s)" "load_run_suite ?ext od (rw_minted ?w) = Inr s"
    using fresh_suite [of od "rw_minted ?w" s1 s m ?ext] assms(10,11) s1 ok(2) by (simp_all add: od)
  have "read_rows (ke_limit env) (rs_rows s1) = Inr (rows, False)"
    using read_rows_whole [OF rows_ok_mono [OF rows(1) assms(8)]] by (simp add: s1(4) read_rows_def)
  moreover have "mapE (rescore_row scorer (su_items s)) rows = Inr rows"
    by (rule rescored_same [OF rows(2) production_scorer(1) [OF mk(1)] ok(2)])
  moreover have "od\<lparr>od_runs := (od_runs od)(rw_minted ?w \<mapsto> s1\<lparr>rs_rows := rewrite_rows rows\<rparr>)\<rparr> = od"
  proof -
    have "s1\<lparr>rs_rows := rewrite_rows rows\<rparr> = s1" using s1(4) by (cases s1) (simp add: rewrite_rows_def)
    then show ?thesis by (simp add: od)
  qed
  ultimately obtain y where "score_run ?ext (ke_limit env) scorer od (rw_minted ?w) = (Inr y, od)"
    using open'(1) by (simp add: score_run_def)
  then show ?thesis
    using open'(2) assms(4,6) mk
    by (simp add: handle_score_def st' select_scorer_def score_cellwise_def said_def)
qed

section \<open>The smoke gate\<close>

lemma list_all2_left: "list_all2 P xs ys \<Longrightarrow> x \<in> set xs \<Longrightarrow> \<exists>y \<in> set ys. P x y"
  by (induction rule: list_all2_induct) auto

lemma model_report_counts [simp]:
  "mo_no_response (model_report_of model rows x st n sc) = length (filter is_no_response_row rows)"
  "mo_parse_fail (model_report_of model rows x st n sc) = length (filter (\<lambda>r. rr_parsed r = JStr PARSE_FAIL_MARKER) rows)"
  "mo_error (model_report_of model rows x st n sc) = length (filter (\<lambda>r. rr_error r \<noteq> JNull) rows)"
  by (simp_all add: model_report_of_def Let_def)

lemma report_totals:
  assumes "build_run_report ext limit pstr od rid = Inr r" and "od_runs od rid = Some st"
    and "read_rows limit (rs_rows st) = Inr (rows, torn)"
  shows "total_error r = 0 \<Longrightarrow> \<forall>row \<in> set rows. rr_error row = JNull"
    and "total_no_response r = 0 \<Longrightarrow> \<forall>row \<in> set rows. \<not> is_no_response_row row"
    and "total_parse_fail r = 0 \<Longrightarrow> \<forall>row \<in> set rows. rr_parsed row \<noteq> JStr PARSE_FAIL_MARKER"
    and "total_scored r \<noteq> 0 \<Longrightarrow> \<exists>row \<in> set rows. rr_score row \<noteq> JNull"
proof -
  obtain st2 m rows2 torn2 seen where
      st: "od_runs od rid = Some st2" "read_rows limit (rs_rows st2) = Inr (rows2, torn2)"
    and seen: "map rr_model rows2 = map JStr seen"
    and l: "list_all2 (\<lambda>model mr. model_rollup model (filter (\<lambda>row. rr_model row = JStr model) rows2) (rp_execution r) = Inr mr)
      (ordered_models (rp_roster r) seen) (rp_models r)"
    by (rule build_run_report_Inr [OF assms(1)]) blast
  have same: "rows2 = rows" using st assms(2,3) by simp
  have covered: "\<exists>mr \<in> set (rp_models r). \<exists>model rs stored items scores. row \<in> set rs \<and>
      mr = model_report_of model rs (rp_execution r) stored items scores" if "row \<in> set rows" for row
  proof -
    have "rr_model row \<in> set (map rr_model rows2)" using that by (simp add: same)
    then obtain model where model: "rr_model row = JStr model" "model \<in> set (ordered_models (rp_roster r) seen)"
      unfolding seen by (auto simp: ordered_models_def sorted_set_def)
    from list_all2_left [OF l model(2)] obtain mr where mr: "mr \<in> set (rp_models r)"
        "model_rollup model (filter (\<lambda>row. rr_model row = JStr model) rows) (rp_execution r) = Inr mr"
      by (auto simp: same)
    have "row \<in> set (filter (\<lambda>row. rr_model row = JStr model) rows)" using that model(1) by simp
    moreover obtain stored items scores where
        "mr = model_report_of model (filter (\<lambda>row. rr_model row = JStr model) rows) (rp_execution r) stored items scores"
      by (rule model_rollup_Inr [OF mr(2)]) blast
    ultimately show ?thesis using mr(1) by blast
  qed
  have zero: "sum_list (map f (rp_models r)) = 0 \<Longrightarrow> mr \<in> set (rp_models r) \<Longrightarrow> f mr = (0 :: nat)" for f mr
    by (simp add: sum_list_eq_0_iff)
  show "\<forall>row \<in> set rows. rr_error row = JNull" if t: "total_error r = 0"
  proof
    fix row assume "row \<in> set rows"
    from covered [OF this] obtain model rs stored items scores where
        "model_report_of model rs (rp_execution r) stored items scores \<in> set (rp_models r)" "row \<in> set rs" by blast
    from zero [OF t [unfolded total_error_def] this(1)] this(2) show "rr_error row = JNull"
      by (auto simp: filter_empty_conv)
  qed
  show "\<forall>row \<in> set rows. \<not> is_no_response_row row" if t: "total_no_response r = 0"
  proof
    fix row assume "row \<in> set rows"
    from covered [OF this] obtain model rs stored items scores where
        "model_report_of model rs (rp_execution r) stored items scores \<in> set (rp_models r)" "row \<in> set rs" by blast
    from zero [OF t [unfolded total_no_response_def] this(1)] this(2) show "\<not> is_no_response_row row"
      by (auto simp: filter_empty_conv)
  qed
  show "\<forall>row \<in> set rows. rr_parsed row \<noteq> JStr PARSE_FAIL_MARKER" if t: "total_parse_fail r = 0"
  proof
    fix row assume "row \<in> set rows"
    from covered [OF this] obtain model rs stored items scores where
        "model_report_of model rs (rp_execution r) stored items scores \<in> set (rp_models r)" "row \<in> set rs" by blast
    from zero [OF t [unfolded total_parse_fail_def] this(1)] this(2) show "rr_parsed row \<noteq> JStr PARSE_FAIL_MARKER"
      by (auto simp: filter_empty_conv)
  qed
  show "\<exists>row \<in> set rows. rr_score row \<noteq> JNull" if t: "total_scored r \<noteq> 0"
  proof -
    from t obtain mr where "mr \<in> set (rp_models r)" "mo_scored mr \<noteq> 0"
      by (auto simp: total_scored_def sum_list_eq_0_iff)
    with list_all2_right [OF l this(1)] obtain model where
        mr: "model_rollup model (filter (\<lambda>row. rr_model row = JStr model) rows) (rp_execution r) = Inr mr"
      by (auto simp: same)
    with \<open>mo_scored mr \<noteq> 0\<close> have "filter (\<lambda>r. rr_score r \<noteq> JNull) (filter (\<lambda>row. rr_model row = JStr model) rows) \<noteq> []"
      by (auto simp: model_rollup_def bindE_Inr_iff model_report_of_def Let_def)
    then show ?thesis by (auto simp: model_report_of_def Let_def filter_empty_conv)
  qed
qed

lemma handle_smoke_exit0:
  assumes "handle_smoke env deps q st = (r, st')" and "ro_exit r = Exit 0"
  obtains config s scorer ns z od rep where "load_inputs env (sk_config q) (sk_suite q) = Inr (config, s)"
    and "select_scorer env (su_scoring s) = Inr (scorer, ns)"
    and "run (ke_ext env) (ke_world env) s config scorer (smoke_args (smoke_mode_of (sk_gemini q) (sk_local q)) s) (cs_runs st)
      = (Inr z, od)"
    and "build_run_report (ke_ext env) (ke_limit env) (ke_pstr env) od (rz_run_id z) = Inr rep"
    and "smoke_problems (smoke_mode_of (sk_gemini q) (sk_local q)) rep z = []" and "st' = st\<lparr>cs_runs := od\<rparr>"
proof -
  let ?m = "smoke_mode_of (sk_gemini q) (sk_local q)"
  obtain x where l: "load_inputs env (sk_config q) (sk_suite q) = Inr x"
    using assms by (cases "load_inputs env (sk_config q) (sk_suite q)") (auto simp: handle_smoke_def Let_def failed_exit)
  obtain config s where x: "x = (config, s)" by (cases x)
  have pre: "smoke_preflight env deps ?m config = Inr None"
    using assms l x by (auto simp: handle_smoke_def Let_def failed_exit split: sum.splits option.splits)
  obtain y where sc: "select_scorer env (su_scoring s) = Inr y"
    using assms l x pre by (cases "select_scorer env (su_scoring s)") (auto simp: handle_smoke_def Let_def failed_exit)
  obtain scorer ns where y: "y = (scorer, ns)" by (cases y)
  obtain res od where run: "run (ke_ext env) (ke_world env) s config scorer (smoke_args ?m s) (cs_runs st) = (res, od)"
    by (cases "run (ke_ext env) (ke_world env) s config scorer (smoke_args ?m s) (cs_runs st)")
  obtain z where z: "res = Inr z"
    using assms l x pre sc y run by (cases res) (auto simp: handle_smoke_def Let_def failed_exit)
  obtain rep where rep: "build_run_report (ke_ext env) (ke_limit env) (ke_pstr env) od (rz_run_id z) = Inr rep"
    using assms l x pre sc y run z
    by (cases "build_run_report (ke_ext env) (ke_limit env) (ke_pstr env) od (rz_run_id z)")
      (auto simp: handle_smoke_def Let_def failed_exit)
  have gate: "r = smoke_gate (line (render_run_report (ke_em env) (ke_show_flt env) (ke_fmt1 env) rep)) ?m rep z"
      "st' = st\<lparr>cs_runs := od\<rparr>"
    using assms(1) l x pre sc y run z rep by (auto simp: handle_smoke_def Let_def)
  have "smoke_problems ?m rep z = []"
    using assms(2) gate(1) by (auto simp: smoke_gate_def split: if_splits)
  with l x sc y run z rep gate(2) show thesis by (intro that) simp_all
qed

lemma smoke_roster_one: "\<exists>m. smoke_roster mode = [m]"
  by (cases mode) (simp_all add: smoke_roster_def)

lemma grid_one: "grid_keys [m] s 1 = (\<lambda>it. (JStr m, JStr (it_id it), JInt 0)) ` set (su_items s)"
  by (auto simp: grid_keys_def)

text \<open>A cell that a scorer scored: its response is a text and its score what the scorer gives that text.\<close>

definition healthy_row :: "suite \<Rightarrow> scorer \<Rightarrow> run_row \<Rightarrow> bool" where
  "healthy_row s sc row \<longleftrightarrow> rr_error row = JNull \<and> \<not> is_no_response_row row \<and>
     rr_parsed row \<noteq> JStr PARSE_FAIL_MARKER \<and>
     (\<exists>it \<in> set (su_items s). \<exists>raw oc. rr_item_id row = JStr (it_id it) \<and> rr_response_raw row = JStr raw \<and>
        sc it raw = Inr oc \<and> rr_parsed row = opt_str (oc_parsed oc) \<and> rr_score row = opt_flt (oc_score oc))"

lemma built_healthy:
  assumes "built_row ext rid s sc row" and "rr_error row = JNull" and "\<not> is_no_response_row row"
    and "rr_parsed row \<noteq> JStr PARSE_FAIL_MARKER"
  shows "healthy_row s sc row"
proof -
  obtain c r where c: "cl_item c \<in> set (su_items s)" "build_row ext rid c r sc = Inr row"
    using assms(1) by (auto simp: built_row_def)
  have "mr_reason r = None" "\<not> no_response r"
    using c(2) assms(2,3) by (auto simp: build_row_def Let_def is_no_response_row_def split: option.splits if_splits)
  then obtain oc where "sc (cl_item c) (response_text (mr_response r)) = Inr oc"
      "rr_item_id row = JStr (it_id (cl_item c))" "rr_response_raw row = JStr (response_text (mr_response r))"
      "rr_parsed row = opt_str (oc_parsed oc)" "rr_score row = opt_flt (oc_score oc)"
    using c(2) by (auto simp: build_row_def Let_def bindE_Inr_iff)
  with c(1) assms(2-4) show ?thesis unfolding healthy_row_def by blast
qed

lemma row_key_item: "row_cell_key row = Some (a, JStr i, k) \<Longrightarrow> rr_item_id row = JStr i"
  by (auto simp: row_cell_key_def hash_key_text split: option.splits)

lemma one_row_per_item:
  assumes "distinct (map row_cell_key rows)" and "set (map row_cell_key rows) = Some ` grid_keys [m] s 1"
    and "distinct (map it_id (su_items s))"
  shows "length rows = length (su_items s)"
    and "set (map rr_item_id rows) = (\<lambda>it. JStr (it_id it)) ` set (su_items s)"
proof -
  have "inj_on (\<lambda>it. (JStr m, JStr (it_id it), JInt 0)) (set (su_items s))"
    using assms(3) by (auto simp: inj_on_def distinct_map)
  then have "card (Some ` grid_keys [m] s 1) = card (set (su_items s))"
    by (simp add: grid_one card_image)
  moreover have "card (set (su_items s)) = length (su_items s)"
    using assms(3) by (simp add: distinct_card distinct_map)
  moreover have "card (set (map row_cell_key rows)) = length rows" using distinct_card [OF assms(1)] by simp
  ultimately show "length rows = length (su_items s)" using assms(2) by simp
  have "row_cell_key row \<in> Some ` grid_keys [m] s 1" if "row \<in> set rows" for row
    using assms(2) that by auto
  then have "rr_item_id row \<in> (\<lambda>it. JStr (it_id it)) ` set (su_items s)" if "row \<in> set rows" for row
    using that row_key_item unfolding grid_one by fastforce
  moreover have "JStr (it_id it) \<in> rr_item_id ` set rows" if "it \<in> set (su_items s)" for it
  proof -
    have "Some (JStr m, JStr (it_id it), JInt 0) \<in> Some ` grid_keys [m] s 1" using that by (simp add: grid_one)
    then have "Some (JStr m, JStr (it_id it), JInt 0) \<in> row_cell_key ` set rows" unfolding assms(2) [symmetric] set_map .
    then obtain row where row: "row \<in> set rows" "row_cell_key row = Some (JStr m, JStr (it_id it), JInt 0)" by auto
    from row_key_item [OF row(2)] row(1) show ?thesis by force
  qed
  ultimately show "set (map rr_item_id rows) = (\<lambda>it. JStr (it_id it)) ` set (su_items s)" by auto
qed

text \<open>C31: the smoke gate means what it says.  When \<open>mt smoke\<close> exits with 0, the suite was not a rubric one, the
  run was new, and its log holds exactly one row per item of the suite, every one of them a text response that
  the suite's own scorer scored, none an error, a forced zero or a parse failure.\<close>

theorem smoke_pass_is_healthy:
  assumes "handle_smoke env deps q st = (r, st')" and "ro_exit r = Exit 0"
    and "world_ok (ke_world env)" and "1 \<le> ke_limit env"
  shows "\<exists>s scorer store rows. load_suite (ke_ext env) (ke_limit env) (ke_files env (sk_suite q)) = Inr s \<and>
    sc_type (su_scoring s) \<noteq> Rubric \<and>
    make_deterministic_scorer (ke_ext env) (ke_limit env) (su_scoring s) = Inr scorer \<and>
    od_runs (cs_runs st) (rw_minted (ke_world env)) = None \<and>
    od_runs (cs_runs st') (rw_minted (ke_world env)) = Some store \<and> rs_rows store = FileText (rows_text rows) \<and>
    length rows = length (su_items s) \<and>
    set (map rr_item_id rows) = (\<lambda>it. JStr (it_id it)) ` set (su_items s) \<and> list_all (healthy_row s scorer) rows"
proof -
  let ?w = "ke_world env" and ?mode = "smoke_mode_of (sk_gemini q) (sk_local q)"
  obtain config s scorer ns z od rep where l: "load_inputs env (sk_config q) (sk_suite q) = Inr (config, s)"
    and sc: "select_scorer env (su_scoring s) = Inr (scorer, ns)"
    and run: "run (ke_ext env) ?w s config scorer (smoke_args ?mode s) (cs_runs st) = (Inr z, od)"
    and rep: "build_run_report (ke_ext env) (ke_limit env) (ke_pstr env) od (rz_run_id z) = Inr rep"
    and good: "smoke_problems ?mode rep z = []" and st': "st' = st\<lparr>cs_runs := od\<rparr>"
    by (rule handle_smoke_exit0 [OF assms(1,2)])
  note ok = load_inputs_Inr [OF l]
  have unit: "unit_scorer scorer"
    using sc collect_only_unit production_scorer(2) by (auto simp: select_scorer_def bindE_Inr_iff split: if_splits)
  have args: "ra_resume (smoke_args ?mode s) = None" "ra_samples (smoke_args ?mode s) = Some 1"
      "ra_roster (smoke_args ?mode s) = Some (smoke_roster ?mode)"
    by (simp_all add: smoke_args_def)
  obtain m where m: "smoke_roster ?mode = [m]" using smoke_roster_one by blast
  have quiet: "\<not> rz_aborted z" "total_error rep = 0" "total_no_response rep = 0" "total_parse_fail rep = 0"
      "total_scored rep \<noteq> 0"
    using good by (auto simp: smoke_problems_def split: if_splits)
  have "json_ok (JInt (first_some (Some 1) (cf_samples config)))" using one_ok by (simp only: first_some_def option.case)
  note new_run = fresh_store [OF run args(1) ok(2,1) assms(3) unit, unfolded args(2,3), OF this,
      unfolded m first_some_def option.case]
  obtain s1 rows where new: "od_runs (cs_runs st) (rw_minted ?w) = None" "rz_run_id z = rw_minted ?w"
    and od: "od = (cs_runs st)\<lparr>od_runs := (od_runs (cs_runs st))(rw_minted ?w \<mapsto> s1)\<rparr>"
    and s1: "rs_rows s1 = FileText (rows_text rows)" and rows: "list_all (row_ok 1) rows"
      "\<forall>row \<in> set rows. built_row (ke_ext env) (rw_minted ?w) s scorer row" "distinct (map row_cell_key rows)"
    and keys: "set (map row_cell_key rows) = Some ` grid_keys [m] s 1"
    by (rule new_run) (use quiet(1) in blast)
  have stored: "od_runs od (rw_minted ?w) = Some s1" by (simp add: od)
  have "read_rows (ke_limit env) (rs_rows s1) = Inr (rows, False)"
    using read_rows_whole [OF rows_ok_mono [OF rows(1) assms(4)]] by (simp add: s1 read_rows_def)
  note totals = report_totals [OF rep [unfolded new(2)] stored this]
  have healthy: "list_all (healthy_row s scorer) rows"
    using totals(1-3) quiet rows(2) built_healthy [of "ke_ext env" "rw_minted ?w" s scorer] by (simp add: list_all_iff)
  obtain row where row: "row \<in> set rows" "rr_score row \<noteq> JNull" using totals(4) quiet(5) by blast
  have kind: "sc_type (su_scoring s) \<noteq> Rubric"
  proof
    assume "sc_type (su_scoring s) = Rubric"
    with sc have "scorer = collect_only_scorer" by (simp add: select_scorer_def)
    with healthy row show False
      by (auto simp: list_all_iff healthy_row_def collect_only_scorer_def opt_flt_def)
  qed
  with sc have mk: "make_deterministic_scorer (ke_ext env) (ke_limit env) (su_scoring s) = Inr scorer"
    by (auto simp: select_scorer_def bindE_Inr_iff)
  have "distinct (map it_id (su_items s))" using ok(2) by (simp add: suite_ok_def)
  from one_row_per_item [OF rows(3) keys this] show ?thesis
    using ok(3) kind mk new(1) stored s1 healthy st' by auto
qed

section \<open>The ledger gate\<close>

lemma audit_claims_total:
  assumes "\<forall>c \<in> set cs. list_all (holds ext ws) (cm_sources c)"
  shows "\<exists>res. audit_claims ext ws cs = Inr res"
proof (rule audit_total)
  have "\<exists>is. audit_sources ext ws i ss = Inr is" if "list_all (holds ext ws) ss" for i ss
    using that by (induction ss) (auto simp: holds_def)
  with assms show "\<forall>c \<in> set cs. \<exists>is. audit_sources ext ws (cm_id c) (cm_sources c) = Inr is" by blast
qed

lemma audited_fresh:
  "cm_status (audited ext ws c) \<noteq> STALE \<longleftrightarrow> cm_status c \<noteq> STALE \<and> list_all (holds ext ws) (cm_sources c)"
  by (simp add: audited_def)

text \<open>C32: \<open>mt claims audit\<close> is a freshness gate.  It exits with 0 exactly when the ledger loads, the workspace root is
  usable, and every claim in it is not STALE and has only citations whose lines still hash to the recorded
  value; then nothing is written.\<close>

theorem audit_gate:
  assumes "handle_claims env AuditClaims path st = (r, st')"
  shows "(ro_exit r = Exit 0 \<longleftrightarrow>
      (\<exists>cs. load_ledger (ke_ext env) (ke_iso env) (ke_limit env) path (cs_ledger st path) = Inr cs \<and>
        Ledger.ws_root (ke_workspace env) \<and>
        (\<forall>c \<in> set cs. cm_status c \<noteq> STALE \<and> list_all (holds (ke_ext env) (ke_workspace env)) (cm_sources c)))) \<and>
    (ro_exit r = Exit 0 \<longrightarrow> st' = st)"
proof -
  let ?load = "load_ledger (ke_ext env) (ke_iso env) (ke_limit env) path (cs_ledger st path)"
  let ?aud = "audit_claims (ke_ext env) (ke_workspace env)" and ?fresh = "\<lambda>c. cm_status c \<noteq> STALE \<and>
    list_all (holds (ke_ext env) (ke_workspace env)) (cm_sources c)"
  show ?thesis
  proof (cases "\<exists>cs res. ?load = Inr cs \<and> Ledger.ws_root (ke_workspace env) \<and> ?aud cs = Inr res")
    case False
    have "\<exists>e. bindE ?load (\<lambda>cs. if \<not> Ledger.ws_root (ke_workspace env) then ledger_fail RootUnusable else ?aud cs) = Inl e"
    proof (cases ?load)
      case (Inr cs)
      with False show ?thesis by (cases "?aud cs") auto
    qed simp
    then obtain e f where "audit_ledger (ke_ext env) (ke_iso env) (ke_limit env) path (ke_workspace env) (ke_ledger_ok env)
        (cs_ledger st path) = (Inl e, f)"
      unfolding audit_ledger_def by auto
    then have "ro_exit r \<noteq> Exit 0" using assms by (auto simp: handle_claims_def Let_def failed_exit)
    moreover have "\<not> (\<forall>c \<in> set cs. ?fresh c)" if "?load = Inr cs" "Ledger.ws_root (ke_workspace env)" for cs
      using False that audit_claims_total by blast
    ultimately show ?thesis by blast
  next
    case True
    then obtain cs res where cs: "?load = Inr cs" and root: "Ledger.ws_root (ke_workspace env)" and res: "?aud cs = Inr res"
      by blast
    note au = audit_claims_Inr [OF res]
    have stale: "stale_claim_ids res = [] \<longleftrightarrow> (\<forall>c \<in> set cs. ?fresh c)"
      using au audited_fresh by (auto simp: stale_claim_ids_def filter_empty_conv)
    show ?thesis
    proof (cases "stale_claim_ids res = []")
      case True
      then have "ar_newly res = []" using stale au by (auto simp: filter_empty_conv)
      then have "audit_ledger (ke_ext env) (ke_iso env) (ke_limit env) path (ke_workspace env) (ke_ledger_ok env)
          (cs_ledger st path) = (Inr res, cs_ledger st path)"
        using cs root res by (simp add: audit_ledger_def)
      then have "r = said (line (audit_summary res)) [] 0" "st' = st"
        using assms True by (auto simp: handle_claims_def Let_def)
      then show ?thesis using True stale cs root by auto
    next
      case False
      then have "ro_exit r \<noteq> Exit 0"
        using assms cs root res
        by (auto simp: handle_claims_def audit_ledger_def Let_def failed_exit split: sum.splits if_splits)
      then show ?thesis using False stale cs by auto
    qed
  qed
qed

section \<open>What a command can change\<close>

text \<open>At most one run directory differs.\<close>

definition one_run :: "out_dir \<Rightarrow> out_dir \<Rightarrow> bool" where
  "one_run od od' \<longleftrightarrow> (\<exists>rid. \<forall>x. x \<noteq> rid \<longrightarrow> od_runs od' x = od_runs od x)"

lemma one_run_same [simp]: "one_run od od"
  by (simp add: one_run_def)

lemma one_run_update [simp]: "one_run od (od\<lparr>od_runs := (od_runs od)(rid := st)\<rparr>)"
  by (auto simp: one_run_def)

lemma run_one: "run ext w s config scorer args od = (res, od') \<Longrightarrow> one_run od od'"
  using run_touches_one_directory [of ext w s config scorer args od]
  by (auto simp: one_run_def may_touch_def split: option.splits if_splits)

lemma score_one:
  "score_run x l sc od rid = (res, od') \<Longrightarrow> one_run od od'"
  "score_run_batch x l sc' od rid = (res', od') \<Longrightarrow> one_run od od'"
  by (auto simp: score_run_def score_run_batch_def split: sum.splits prod.splits)

lemma run_id_no_separator:
  assumes "run_id_ok rid"
  shows "CHR ''/'' \<notin> set rid \<and> CHR 0x5C \<notin> set rid"
proof -
  have "matches ps s \<Longrightarrow> \<forall>c \<in> set s. \<exists>p \<in> set ps. p c" for ps s
    by (induction ps s rule: matches.induct) auto
  then have "\<forall>c \<in> set rid. \<exists>p \<in> set run_id_shape. p c" using assms by (simp add: run_id_ok_def)
  moreover have "\<not> p (CHR ''/'')" "\<not> p (CHR 0x5C)" if "p \<in> set run_id_shape" for p
    using that by (auto simp: run_id_shape_def is_digit_def hex_char_def in_rng_def)
  ultimately show ?thesis by blast
qed

lemma report_run_id:
  assumes "rendered_report env q od = Inr (text', dest, printed)"
  shows "run_id_ok (rt_run_id q)" and "dest \<in> {rt_run_id q @ ''.md'', rt_run_id q @ ''.html'', rt_run_id q @ ''.jsonl'',
    ''compare-'' @ rt_run_id q @ ''.md''}"
proof -
  have report: "build_run_report x l p od rid = Inr r \<Longrightarrow> run_id_ok rid" for x l p rid r
    by (auto simp: build_run_report_def open_run_store_def as_report_def resolve_run_dir_def bindE_Inr_iff split: if_splits)
  have pages: "build_transparency_report x l p em avg od rid = Inr r \<Longrightarrow> run_id_ok rid" for x l p em avg rid r
    by (rule transparency_Inr) (auto dest: report)
  have "build_comparison x l p od (rid # rids) = Inr c \<Longrightarrow> run_id_ok rid" for x l p rid rids c
    by (auto simp: build_comparison_def bindE_Inr_iff dest: report)
  with report pages show "run_id_ok (rt_run_id q)"
    using assms by (auto simp: rendered_report_def from_report_def bindE_Inr_iff map_errE_Inr_iff split: if_splits)
  show "dest \<in> {rt_run_id q @ ''.md'', rt_run_id q @ ''.html'', rt_run_id q @ ''.jsonl'', ''compare-'' @ rt_run_id q @ ''.md''}"
    using assms by (auto simp: rendered_report_def bindE_Inr_iff split: if_splits)
qed

lemma report_footprint:
  assumes "handle_report env q st = (r, st')"
  shows "cs_runs st' = cs_runs st \<and> cs_ledger st' = cs_ledger st \<and> cs_files st' = cs_files st \<and>
    (\<forall>name. cs_reports st' name \<noteq> cs_reports st name \<longrightarrow> ro_exit r = Exit 0 \<and> CHR ''/'' \<notin> set name \<and> CHR 0x5C \<notin> set name)"
proof (cases "rendered_report env q (cs_runs st)")
  case (Inr x)
  obtain text' dest printed where x: "x = (text', dest, printed)" by (cases x)
  have "CHR ''/'' \<notin> set dest \<and> CHR 0x5C \<notin> set dest"
    using report_run_id [OF Inr [unfolded x]] run_id_no_separator by auto
  then show ?thesis
    using assms Inr x by (auto simp: handle_report_def Let_def split: if_splits)
qed (use assms in \<open>auto simp: handle_report_def\<close>)

lemma judge_pass_one: "judge_pass env deps c rc od rid = (res, od') \<Longrightarrow> one_run od od'"
  by (auto simp: judge_pass_def score_rubric_def split: option.splits dest: score_one(2))

lemma score_footprint:
  assumes "handle_score env deps config rid st = (r, st')"
  shows "cs_reports st' = cs_reports st \<and> cs_ledger st' = cs_ledger st \<and> cs_files st' = cs_files st \<and>
    one_run (cs_runs st) (cs_runs st') \<and> (ro_exit r \<noteq> Exit 0 \<longrightarrow> st' = st)"
proof -
  have same: "score_run x l sc od rid = (Inl e, od') \<Longrightarrow> od' = od" for x l sc od e od'
    by (auto simp: score_run_def split: sum.splits)
  have batch: "score_run_batch x l sc od rid = (Inl e, od') \<Longrightarrow> od' = od" for x l od e od'
      and sc :: "judge_error run_scorer"
    by (auto simp: score_run_batch_def split: sum.splits)
  have rubric: "judge_pass env deps c rc od rid = (Inl e, od') \<Longrightarrow> od' = od" for c rc od e od'
    using batch by (auto simp: judge_pass_def score_rubric_def split: option.splits)
  have cell: "score_cellwise env ns rid sc st = (r, st') \<Longrightarrow> ?thesis" for ns sc
    using same [of "ke_ext env" "ke_limit env" sc "cs_runs st"]
      score_one(1) [of "ke_ext env" "ke_limit env" sc "cs_runs st"]
    by (auto simp: score_cellwise_def split: prod.splits sum.splits)
  have "handle_score_rubric env deps config rid st = (r, st') \<Longrightarrow> ?thesis"
    using rubric [where od = "cs_runs st"] judge_pass_one [where od = "cs_runs st"]
    by (auto simp: handle_score_rubric_def split: prod.splits sum.splits)
  then show ?thesis
    using assms cell by (auto simp: handle_score_def split: option.splits sum.splits if_splits)
qed

lemma author_footprint:
  "handle_author env a st = (r, st') \<Longrightarrow> cs_runs st' = cs_runs st \<and> cs_reports st' = cs_reports st \<and> cs_ledger st' = cs_ledger st"
  by (auto simp: handle_author_def split: author_action.splits sum.splits option.splits prod.splits)

lemma claims_footprint:
  "handle_claims env a path st = (r, st') \<Longrightarrow> cs_runs st' = cs_runs st \<and> cs_reports st' = cs_reports st \<and>
     cs_files st' = cs_files st \<and> (a \<noteq> AuditClaims \<longrightarrow> st' = st) \<and>
     (\<forall>other. other \<noteq> path \<longrightarrow> cs_ledger st' other = cs_ledger st other)"
  by (auto simp: handle_claims_def Let_def split: claims_action.splits sum.splits prod.splits)

lemma run_footprint:
  "handle_run env deps q st = (r, st') \<Longrightarrow> \<exists>od. st' = st\<lparr>cs_runs := od\<rparr> \<and> one_run (cs_runs st) od"
  "handle_smoke env deps k st = (r, st') \<Longrightarrow> \<exists>od. st' = st\<lparr>cs_runs := od\<rparr> \<and> one_run (cs_runs st) od"
proof -
  have same: "\<exists>od. st = st\<lparr>cs_runs := od\<rparr> \<and> one_run (cs_runs st) od" by (rule exI [of _ "cs_runs st"]) simp
  have put: "one_run (cs_runs st) od \<Longrightarrow> \<exists>od'. st\<lparr>cs_runs := od\<rparr> = st\<lparr>cs_runs := od'\<rparr> \<and> one_run (cs_runs st) od'" for od
    by blast
  show "handle_run env deps q st = (r, st') \<Longrightarrow> \<exists>od. st' = st\<lparr>cs_runs := od\<rparr> \<and> one_run (cs_runs st) od"
    using same by (auto simp: handle_run_def intro!: put dest!: run_one split: sum.splits prod.splits)
  show "handle_smoke env deps k st = (r, st') \<Longrightarrow> \<exists>od. st' = st\<lparr>cs_runs := od\<rparr> \<and> one_run (cs_runs st) od"
    using same by (auto simp: handle_smoke_def Let_def intro!: put dest!: run_one split: sum.splits prod.splits option.splits)
qed

text \<open>every command writes in one place.  The run store changes only under \<open>run\<close>, \<open>smoke\<close> and a \<open>score\<close> that exits
  with 0, the reports directory only under a \<open>report\<close> that exits with 0, and then in a file whose name holds no
  path separator; a ledger only under \<open>claims audit\<close> of that very ledger; any other file only under \<open>author\<close>.\<close>

theorem command_footprint:
  assumes "mt_main env deps c st = (r, st')"
  shows "(cs_runs st' \<noteq> cs_runs st \<longrightarrow>
      (\<exists>q. c = CmdRun q) \<or> (\<exists>q. c = CmdSmoke q) \<or> (\<exists>p rid. c = CmdScore p rid \<and> ro_exit r = Exit 0)) \<and>
    one_run (cs_runs st) (cs_runs st') \<and>
    (\<forall>name. cs_reports st' name \<noteq> cs_reports st name \<longrightarrow>
      (\<exists>q. c = CmdReport q) \<and> ro_exit r = Exit 0 \<and> CHR ''/'' \<notin> set name \<and> CHR 0x5C \<notin> set name) \<and>
    (\<forall>path. cs_ledger st' path \<noteq> cs_ledger st path \<longrightarrow> c = CmdClaims AuditClaims path) \<and>
    (cs_files st' \<noteq> cs_files st \<longrightarrow> (\<exists>a. c = CmdAuthor a))"
proof (cases c)
  case (CmdRun q)
  with assms run_footprint(1) [of env deps q st r st'] show ?thesis by (auto simp: mt_main_def)
next
  case (CmdSmoke q)
  with assms run_footprint(2) [of env deps q st r st'] show ?thesis by (auto simp: mt_main_def)
next
  case (CmdScore p rid)
  with assms score_footprint [of env deps p rid st r st'] show ?thesis by (auto simp: mt_main_def)
next
  case (CmdReport q)
  with assms report_footprint [of env q st r st'] show ?thesis by (auto simp: mt_main_def)
next
  case (CmdClaims a path)
  with assms have h: "handle_claims env a path st = (r, st')" by (simp add: mt_main_def)
  note f = claims_footprint [OF h]
  have "c = CmdClaims AuditClaims p" if "cs_ledger st' p \<noteq> cs_ledger st p" for p
  proof -
    from that f have "p = path" by blast
    moreover from that f have "a = AuditClaims" by blast
    ultimately show ?thesis using CmdClaims by simp
  qed
  with f show ?thesis by simp
next
  case (CmdAuthor a)
  with assms author_footprint [of env a st r st'] show ?thesis by (auto simp: mt_main_def)
qed (use assms in \<open>simp_all add: mt_main_def\<close>)

section \<open>Exit codes\<close>

text \<open>An exit code of 0 or 1, with something said when it is 1, or an exception no handler catches.\<close>

definition proper :: "cli_result \<Rightarrow> bool" where
  "proper r \<longleftrightarrow> (case ro_exit r of Exit n \<Rightarrow> n = 0 \<or> n = 1 \<and> (ro_err r \<noteq> [] \<or> ro_out r \<noteq> []) | Raised e \<Rightarrow> \<not> caught e)"

lemma proper_said [simp]: "proper (said out err code) \<longleftrightarrow> code = 0 \<or> code = 1 \<and> (err \<noteq> [] \<or> out \<noteq> [])"
  by (auto simp: proper_def said_def)

lemma proper_failed [simp]: "proper (failed ns c e)"
  by (simp add: proper_def failed_def)

lemma line_not_Nil [simp]: "line s \<noteq> []"
  by (simp add: line_def)

lemma handlers_proper:
  "proper (handle_validate env path)"
  "proper (fst (handle_run env deps q st))"
  "proper (fst (handle_report env p st))"
  "proper (fst (handle_claims env a path st))"
  "proper (fst (handle_author env b st))"
  "proper (handle_agent_validate env g)"
  by (auto simp: handle_validate_def handle_run_def handle_report_def handle_claims_def handle_author_def
      handle_agent_validate_def proper_def [where r = "\<lparr>ro_out = x, ro_err = y, ro_exit = Raised z\<rparr>" for x y z] Let_def
      split: sum.splits prod.splits claims_action.splits author_action.splits option.splits)

lemma score_cellwise_proper: "proper (fst (score_cellwise env ns rid sc st))"
  by (auto simp: score_cellwise_def split: sum.splits prod.splits)

lemma handle_score_rubric_proper: "proper (fst (handle_score_rubric env deps config rid st))"
  by (auto simp: handle_score_rubric_def split: sum.splits prod.splits)

lemma handle_score_proper: "proper (fst (handle_score env deps config rid st))"
  using score_cellwise_proper handle_score_rubric_proper
  by (auto simp: handle_score_def split: sum.splits option.splits)

lemma handle_smoke_proper: "proper (fst (handle_smoke env deps q st))"
  by (auto simp: handle_smoke_def smoke_gate_def Let_def split: sum.splits prod.splits option.splits)

text \<open>the process exit is 0 or 1, and an exit of 1 never is silent: it comes with a note on standard error or, for the
  ledger audit, its summary on standard output.  An exception reaches the user only when it is of a class that no
  handler names.\<close>

theorem exit_codes: "proper (fst (mt_main env deps c st))"
  using handlers_proper handle_score_proper handle_smoke_proper
  by (cases c) (simp_all add: mt_main_def)

section \<open>A local endpoint that answers\<close>

definition answering_world :: run_world where
  "answering_world = sample_run_world\<lparr>rw_local := (\<lambda>_ _ _. Body
     ''{\"choices\": [{\"message\": {\"content\": \"pass\"}, \"finish_reason\": \"stop\"}], \"model\": \"q\"}'')\<rparr>"

definition general_receipt :: receipt where
  "general_receipt = sample_receipt\<lparr>rc_profile_id := ''model-sweep-execution-v1'',
     rc_bindings := [local_binding ''general-35b'']\<rparr>"

lemma zero_receipt:
  assumes "binding_for p a = Inr (local_binding a)" and "all_name_chars a" and "all_name_chars (ep_id p)"
    and "ep_claude p = frozen_claude"
  shows "Receipt_create zero_digest_ext p [local_binding a] None None
    = Inr (sample_receipt\<lparr>rc_profile_id := ep_id p, rc_bindings := [local_binding a]\<rparr>)"
proof -
  have sha: "canonical_sha256 zero_digest_ext v = replicate 64 (CHR ''0'')" for v
    by (simp add: canonical_sha256_def zero_digest_ext_def)
  from assms(1) have b: "seqE (map (check_binding p) [local_binding a]) = Inr ()"
    by (simp only: check_bindings_Inr) (simp add: local_binding_def)
  have ctx: "context_profile_sha256 zero_digest_ext p = replicate 64 (CHR ''0'')"
      "profile_sha256 zero_digest_ext p = replicate 64 (CHR ''0'')"
      "provider_profile_sha256 zero_digest_ext p = replicate 64 (CHR ''0'')"
    by (simp_all add: context_profile_sha256_def profile_sha256_def provider_profile_sha256_def
        claude_sha256_def sha split: option.split)
  have "hex_digest (replicate 64 (CHR ''0''))" by code_simp
  moreover have u: "uses Claude [local_binding a] = False" "uses Gemini [local_binding a] = False"
    by (simp_all add: uses_def local_binding_def)
  ultimately have i: "Receipt_init (JInt 1) (JStr (ep_id p)) (JStr (replicate 64 (CHR ''0'')))
      (JStr (replicate 64 (CHR ''0''))) (JStr (replicate 64 (CHR ''0''))) [local_binding a]
      (JStr CLAUDE_SEALING_MODE) None None = Inr (sample_receipt\<lparr>rc_profile_id := ep_id p, rc_bindings := [local_binding a]\<rparr>)"
    using assms by (simp add: Receipt_init_Inr sample_receipt_def CLAUDE_SEALING_MODE_def)
  have "cc_sealing_mode (ep_claude p) = CLAUDE_SEALING_MODE" by (simp add: assms(4) frozen_claude_def)
  with b ctx i u show ?thesis by (simp only: Receipt_create_def bindE.simps runtime_evidence_def if_False)
qed

definition answer_cell :: cell where
  "answer_cell = \<lparr>cell.cl_model = ''general-35b'', cl_binding = local_binding ''general-35b'', cl_item = sample_item, cl_sample = 0\<rparr>"

definition answer_row :: run_row where
  "answer_row = (one_row ''q'')\<lparr>rr_model := JStr ''general-35b'', rr_response_raw := JStr ''pass'',
     rr_parsed := JStr ''pass'', rr_scorer := JStr VERDICT_SCORER, rr_score := JFloat flt_one\<rparr>"

abbreviation "answer_sx \<equiv> \<lparr>sx_ext = zero_digest_ext, sx_world = answering_world, sx_run_id = sample_rid,
     sx_config = sample_config, sx_scorer = score_verdict 9 [''pass'', ''flag'']\<rparr>"

lemma answer_local: "local_result answer_sx answer_cell = Inr
   \<lparr>mr_response = Text ''pass'', mr_resolved = ''q'', mr_elapsed = Fin False 1 0, mr_reason = None\<rparr>"
  by code_simp

lemma answer_built: "row_of answer_sx answer_cell
   \<lparr>mr_response = Text ''pass'', mr_resolved = ''q'', mr_elapsed = Fin False 1 0, mr_reason = None\<rparr> = Inr answer_row"
  by code_simp

lemma answer_read: "read_rows 9 (append_rows NoFile [answer_row]) = Inr ([answer_row], False)"
proof -
  have "row_ok 1 answer_row"
    unfolding row_ok_scalars
    by (simp add: row_json_def answer_row_def one_row_def scalar_ok_def int_max_str_digits_def show_nat.simps flt_one_def)
  then have "list_all (row_ok 9) [answer_row]" using row_ok_mono by simp
  from read_rows_whole [OF this] show ?thesis by (simp add: append_rows_text read_rows_def)
qed

lemma sample_config_sel [simp]:
  "cf_roster sample_config = [''haiku'']" "cf_judges sample_config = [''sonnet'']" "cf_samples sample_config = 1"
  "cf_max_calls sample_config = 3" "cf_profile sample_config = DEFAULT_EXECUTION_PROFILE"
  by (simp_all add: sample_config_def)

lemma general_binding: "binding_for DEFAULT_EXECUTION_PROFILE ''general-35b'' = Inr (local_binding ''general-35b'')"
  by code_simp

lemma sonnet_binding: "binding_for DEFAULT_EXECUTION_PROFILE ''sonnet'' = Inr (claude_binding ''sonnet'')"
  by code_simp

lemma general_receipt_created:
  "Receipt_create zero_digest_ext DEFAULT_EXECUTION_PROFILE [local_binding ''general-35b''] None None = Inr general_receipt"
proof -
  have "all_name_chars ''general-35b'' \<and> all_name_chars (ep_id DEFAULT_EXECUTION_PROFILE)" by code_simp
  then show ?thesis
    using zero_receipt [OF general_binding]
    by (simp add: general_receipt_def) (simp add: DEFAULT_EXECUTION_PROFILE_def)
qed

lemma general_receipt_reads:
  "Receipt_from_mapping zero_digest_ext (Receipt_to_mapping zero_digest_ext general_receipt) = Inr general_receipt"
  using receipt_create_sound [OF general_receipt_created default_profile_ok] by blast

lemma general_doctor: "doctor_execution zero_digest_ext w sample_config [local_binding ''general-35b''] = Inr (general_receipt, None)"
  using general_receipt_created by (simp add: doctor_execution_def uses_def local_binding_def)

text \<open>The sweep of the one model an offline smoke run has, with a budget of \<open>b\<close> calls.\<close>

definition general_args :: "int option \<Rightarrow> run_args" where
  "general_args b = \<lparr>ra_roster = Some [''general-35b''], ra_samples = Some 1, ra_judges = None, ra_max_calls = b,
     ra_preregister = None, ra_resume = None\<rparr>"

definition general_store :: "int \<Rightarrow> run_store" where
  "general_store b = \<lparr>rs_manifest = Doc (manifest_json zero_digest_ext sample_rid sample_suite [''general-35b''] 1
     [''sonnet''] sample_config b None general_receipt ''2026''), rs_suite = Doc (suite_asdict sample_suite), rs_rows = NoFile\<rparr>"

definition general_prep :: "int \<Rightarrow> prepared" where
  "general_prep b = \<lparr>pp_run_id = sample_rid, pp_roster = [''general-35b''], pp_samples = 1, pp_max_calls = b,
     pp_bindings = [local_binding ''general-35b''], pp_runtime = None, pp_gemini_key = None, pp_existing = [], pp_done = []\<rparr>"

lemma answering_sel [simp]:
  "rw_minted answering_world = sample_rid" "rw_started answering_world = ''2026''"
  "rw_elapsed answering_world c = Fin False 1 0" "rw_limit answering_world = 9"
  by (simp_all add: answering_world_def sample_run_world_def)

lemma general_prepared:
  assumes "1 \<le> first_some b 3"
  shows "prepare_fresh zero_digest_ext answering_world sample_config sample_suite (general_args b) empty_out
     = Inr (general_prep (first_some b 3), general_store (first_some b 3))"
proof -
  have r: "resolve_bindings sample_config [''general-35b''] l = Inr [local_binding ''general-35b'']" for l
    by (simp add: resolve_bindings_def bindings_for_def general_binding)
  have j: "resolve_bindings sample_config [''sonnet''] l = Inr [claude_binding ''sonnet'']" for l
    by (simp add: resolve_bindings_def bindings_for_def sonnet_binding)
  have n: "validate_names zero_digest_ext [''general-35b''] l = Inr ()" "validate_names zero_digest_ext [''sonnet''] l = Inr ()" for l
    by (simp_all add: validate_names_def validate_name_list_def strs_json_def zero_digest_ext_def
      documented_ext_def all_name_chars_def chop_newline_def name_char_def is_ascii_alnum_def is_ascii_alpha_def
      is_digit_def in_rng_def)
  have e: "execution_bindings sample_config sample_suite [''general-35b''] js = Inr [local_binding ''general-35b'']" for js
    using r by (simp add: execution_bindings_def sample_suite_def)
  have u: "uses Gemini [local_binding ''general-35b''] = False" by (simp add: uses_def local_binding_def)
  show ?thesis
  proof (cases b)
    case None
    then show ?thesis
      using r j n e u general_doctor assms
      by (simp add: prepare_fresh_def Let_def general_args_def first_some_def validate_sweep_params_def
          empty_out_def general_prep_def general_store_def)
  next
    case (Some k)
    then show ?thesis
      using r j n e u general_doctor assms
      by (simp add: prepare_fresh_def Let_def general_args_def first_some_def validate_sweep_params_def
          empty_out_def general_prep_def general_store_def)
  qed
qed

definition general_done :: "int \<Rightarrow> run_store" where
  "general_done b = (general_store b)\<lparr>rs_rows := append_rows NoFile [answer_row]\<rparr>"

lemma general_sweep:
  assumes "1 \<le> b"
  shows "\<exists>z. run_sweep zero_digest_ext answering_world sample_config sample_suite (score_verdict 9 [''pass'', ''flag''])
     (general_prep b) (general_store b) = (Inr z, general_done b) \<and> \<not> rz_aborted z \<and> rz_run_id z = sample_rid"
proof -
  have c: "pending_cells (local_binding ''general-35b'') sample_suite 1 [] = [answer_cell]"
    by (simp add: pending_cells_def answer_cell_def sample_suite_def local_binding_def)
  have p: "mb_provider (local_binding ''general-35b'') = Local" by (simp add: local_binding_def)
  from answer_local answer_built assms c p show ?thesis
    by (simp add: run_sweep_def CallBudget_init_def sweep_binding_def sweep_local_def consume_def put_row_def
        general_prep_def general_done_def general_store_def sample_suite_def)
qed

lemma general_run:
  assumes "1 \<le> first_some b 3"
  shows "\<exists>z. run zero_digest_ext answering_world sample_suite sample_config (score_verdict 9 [''pass'', ''flag''])
      (general_args b) empty_out = (Inr z, empty_out\<lparr>od_runs := (od_runs empty_out)(sample_rid \<mapsto> general_done (first_some b 3))\<rparr>) \<and>
     \<not> rz_aborted z \<and> rz_run_id z = sample_rid"
proof -
  have f: "ra_resume (general_args b) = None" "pp_run_id (general_prep x) = sample_rid" for x
    by (simp_all add: general_args_def general_prep_def)
  from general_prepared [OF assms] general_sweep [OF assms] f show ?thesis
    by (auto simp: run_def)
qed

lemma general_report:
  "\<exists>r m. build_run_report zero_digest_ext 9 (\<lambda>_. [])
      (empty_out\<lparr>od_runs := (od_runs empty_out)(sample_rid \<mapsto> general_done b)\<rparr>) sample_rid = Inr r \<and>
    rp_models r = [m] \<and> mo_error m = 0 \<and> mo_no_response m = 0 \<and> mo_parse_fail m = 0 \<and> mo_scored m = 1"
proof -
  let ?od = "empty_out\<lparr>od_runs := (od_runs empty_out)(sample_rid \<mapsto> general_done b)\<rparr>"
  define m where "m = (case rs_manifest (general_store b) of Doc (JObj d) \<Rightarrow> d | _ \<Rightarrow> [])"
  have man: "read_manifest (general_done b) = Inr m"
    by (simp add: general_done_def read_manifest_def m_def general_store_def manifest_json_def)
  have "read_rows 9 (rs_rows (general_done b)) = Inr ([answer_row], False)"
    using answer_read by (simp add: general_done_def)
  moreover have "run_id_ok sample_rid" by code_simp
  ultimately have "open_run_store 9 ?od sample_rid = Inr (m, [answer_row])"
    using man by (simp add: open_run_store_def as_report_def resolve_run_dir_def empty_out_def)
  moreover have "manifest_roster (\<lambda>_. []) m = Inr [''general-35b'']"
    by (simp add: m_def general_store_def manifest_json_def manifest_roster_def fld_Cons strs_json_def)
  moreover have "build_execution_evidence zero_digest_ext m = Inr (Some (evidence_of zero_digest_ext general_receipt))"
    using general_receipt_reads
    by (simp add: build_execution_evidence_def as_report_def read_execution_receipt_def m_def general_store_def
        manifest_json_def fld_Cons)
  moreover have "\<exists>a b c d. manifest_str m ''run_id'' = Inr a \<and> manifest_str m ''suite'' = Inr b \<and>
      manifest_str m ''suite_hash'' = Inr c \<and> manifest_str m ''started_utc'' = Inr d"
    by (simp add: manifest_str_def m_def general_store_def manifest_json_def fld_Cons)
  moreover have row: "rr_model answer_row = JStr ''general-35b''" "rr_resolved answer_row = JStr ''q''"
      "rr_item_id answer_row = JStr ''i1''" "rr_score answer_row = JFloat flt_one" "rr_error answer_row = JNull"
      "rr_parsed answer_row = JStr ''pass''" "rr_scorer answer_row = JStr VERDICT_SCORER"
    by (simp_all add: answer_row_def one_row_def)
  moreover have "model_rollup ''general-35b'' [answer_row] (Some ev)
      = Inr (model_report_of ''general-35b'' [answer_row] (Some ev) [''q''] 1 [Score 1])" for ev
    using row by (simp add: model_rollup_def stored_identity_def distinct_items_def score_number_of_def flt_one_def pow10_def
        strip_def lstrip_def rstrip_def isspace_def in_rng_def)
  moreover have "is_no_response_row answer_row = False"
    using row by (simp add: is_no_response_row_def VERDICT_SCORER_def NO_RESPONSE_SCORER_def)
  ultimately show ?thesis
    by (auto simp: build_run_report_def row_model_def ordered_models_def sorted_set_def PARSE_FAIL_MARKER_def
      model_report_of_def Let_def)
qed

section \<open>Concrete commands\<close>

definition cli_sample :: cli_env where
  "cli_sample = \<lparr>ke_ext = zero_digest_ext, ke_limit = 9, ke_files = (\<lambda>_. FileText sample_suite_text),
     ke_config = sample_env, ke_world = answering_world, ke_judging = sample_judge_setup, ke_pstr = (\<lambda>_. []),
     ke_em = ''-'', ke_mean = (\<lambda>_. flt_zero), ke_score = (\<lambda>_. flt_zero), ke_show_flt = (\<lambda>_. []), ke_fmt1 = (\<lambda>_. []),
     ke_avg = (\<lambda>_. 0), ke_template = None, ke_claude_found = False, ke_connect = (\<lambda>_ _. True), ke_reports_ok = True,
     ke_reports_path = (\<lambda>s. s), ke_iso = (\<lambda>_. None),
     ke_workspace = \<lparr>workspace.ws_root = True, ws_read = (\<lambda>_. SrcUnresolved)\<rparr>, ke_ledger_ok = True,
     ke_author = \<lparr>author_workspace.ws_root = Folder (), ws_skills = NoFolder, ws_reviews = NoFolder, ws_git = (\<lambda>_. NoGit)\<rparr>,
     ke_git_limit = 9, ke_fault = None, ke_show_path = concat, ke_sha_bytes = (\<lambda>s. s), ke_bundles = Closed, ke_help = ''mt''\<rparr>"

definition no_deps :: cli_deps where
  "no_deps = \<lparr>cd_scorer = None, cd_judge = None, cd_claude_stub = False, cd_local_stub = False\<rparr>"

definition fresh_state :: cli_state where
  "fresh_state = \<lparr>cs_runs = empty_out, cs_reports = Map.empty, cs_ledger = (\<lambda>_. FileText []), cs_files = Map.empty\<rparr>"

definition local_smoke :: smoke_request where
  "local_smoke = \<lparr>sk_gemini = False, sk_local = True, sk_suite = ''s.json'', sk_config = None\<rparr>"

definition general_request :: run_request where
  "general_request = \<lparr>rq_suite = ''s.json'', rq_models = Some ''general-35b'', rq_samples = Some 1, rq_judges = None,
     rq_budget = None, rq_resume = None, rq_config = None, rq_preregister = None\<rparr>"

lemma sample_inputs_loaded: "load_inputs cli_sample None ''s.json'' = Inr (sample_config, sample_suite)"
  by code_simp

lemma cli_sample_sel [simp]:
  "ke_ext cli_sample = zero_digest_ext" "ke_limit cli_sample = 9" "ke_world cli_sample = answering_world"
  "ke_connect cli_sample = (\<lambda>_ _. True)" "ke_pstr cli_sample = (\<lambda>_. [])"
  by (simp_all add: cli_sample_def)

lemma sample_selected: "select_scorer cli_sample (su_scoring sample_suite) = Inr (score_verdict 9 [''pass'', ''flag''], [])"
proof -
  have "make_deterministic_scorer zero_digest_ext 9 (su_scoring sample_suite) = Inr (score_verdict 9 [''pass'', ''flag''])"
    by (simp add: make_deterministic_scorer_def sample_suite_def) code_simp
  then show ?thesis by (simp add: select_scorer_def) (simp add: sample_suite_def)
qed

lemma sample_port: "url_port (cf_local_base_url sample_config) = Inr (Some 8080)"
proof -
  have "drop 1 (dropWhile (\<lambda>c. c \<noteq> CHR '':'') (url_netloc (cf_local_base_url sample_config))) = ''8080''"
    by code_simp
  moreover have "read_nat ''8080'' = 8080" by code_simp
  ultimately show ?thesis by (simp add: url_port_def int_max_str_digits_def is_digit_def in_rng_def)
qed

lemma sample_smoke_passes: "ro_exit (fst (handle_smoke cli_sample no_deps local_smoke fresh_state)) = Exit 0"
proof -
  have "smoke_preflight cli_sample no_deps SmokeLocal sample_config = Inr None"
    using sample_port by (simp add: smoke_preflight_def no_deps_def local_endpoint_unreachable_def)
  moreover have "smoke_mode_of False True = SmokeLocal" by (simp add: smoke_mode_of_def)
  moreover have "smoke_args SmokeLocal sample_suite = general_args (Some 1)"
    by (simp add: smoke_args_def general_args_def smoke_roster_def sample_suite_def)
  moreover obtain z where "run zero_digest_ext answering_world sample_suite sample_config (score_verdict 9 [''pass'', ''flag''])
      (general_args (Some 1)) empty_out = (Inr z, empty_out\<lparr>od_runs := (od_runs empty_out)(sample_rid \<mapsto> general_done 1)\<rparr>)"
      "\<not> rz_aborted z" "rz_run_id z = sample_rid"
    using general_run [of "Some 1"] by (auto simp: first_some_def)
  moreover obtain r m where "build_run_report zero_digest_ext 9 (\<lambda>_. [])
      (empty_out\<lparr>od_runs := (od_runs empty_out)(sample_rid \<mapsto> general_done 1)\<rparr>) sample_rid = Inr r"
      "rp_models r = [m]" "mo_error m = 0" "mo_no_response m = 0" "mo_parse_fail m = 0" "mo_scored m = 1"
    using general_report by blast
  ultimately show ?thesis
    using sample_inputs_loaded sample_selected
    by (simp add: handle_smoke_def Let_def local_smoke_def fresh_state_def smoke_gate_def smoke_problems_def
        total_error_def total_no_response_def total_parse_fail_def total_scored_def)
qed

lemma answering_ok: "world_ok answering_world"
  by (simp add: world_ok_def schedules_def answering_world_def sample_run_world_def sample_world_def) auto

theorem smoke_pass_is_healthy_witness:
  "\<exists>st' store rows. snd (handle_smoke cli_sample no_deps local_smoke fresh_state) = st' \<and>
     od_runs (cs_runs st') sample_rid = Some store \<and> rs_rows store = FileText (rows_text rows) \<and> length rows = 1"
proof -
  obtain r st' where h: "handle_smoke cli_sample no_deps local_smoke fresh_state = (r, st')"
    by (cases "handle_smoke cli_sample no_deps local_smoke fresh_state")
  then have "ro_exit r = Exit 0" using sample_smoke_passes by simp
  from smoke_pass_is_healthy [OF h this] obtain s store rows where
    "load_suite zero_digest_ext 9 (ke_files cli_sample ''s.json'') = Inr s" "od_runs (cs_runs st') sample_rid = Some store"
    "rs_rows store = FileText (rows_text rows)" "length rows = length (su_items s)"
    using answering_ok by (auto simp: local_smoke_def)
  moreover have "length (su_items sample_suite) = 1" by (simp add: sample_suite_def)
  ultimately show ?thesis using load_inputs_Inr(3) [OF sample_inputs_loaded] h by (auto simp: local_smoke_def)
qed

lemma sample_run_passes: "ro_exit (fst (handle_run cli_sample no_deps general_request fresh_state)) = Exit 0"
proof -
  have "run_args_of general_request = general_args None"
    by (simp add: run_args_of_def general_args_def general_request_def csv_option_def) code_simp
  moreover obtain z od where "run zero_digest_ext answering_world sample_suite sample_config (score_verdict 9 [''pass'', ''flag''])
      (general_args None) empty_out = (Inr z, od)"
    using general_run [of None] by (auto simp: first_some_def)
  ultimately show ?thesis
    using sample_inputs_loaded sample_selected
    by (simp add: handle_run_def general_request_def fresh_state_def scorer_for_def no_deps_def)
qed

theorem run_then_score_witness:
  "\<exists>st' r2. snd (handle_run cli_sample no_deps general_request fresh_state) = st' \<and>
     handle_score cli_sample no_deps None sample_rid st' = (r2, st') \<and> ro_exit r2 = Exit 0"
proof -
  obtain r st' where h: "handle_run cli_sample no_deps general_request fresh_state = (r, st')"
    by (cases "handle_run cli_sample no_deps general_request fresh_state")
  then have e: "ro_exit r = Exit 0" using sample_run_passes by simp
  have i: "load_inputs cli_sample (rq_config general_request) (rq_suite general_request) = Inr (sample_config, sample_suite)"
    using sample_inputs_loaded by (simp add: general_request_def)
  have "run_id_ok sample_rid" by code_simp
  moreover have "json_ok (JInt (first_some (Some 1) (cf_samples sample_config)))" using one_ok by (simp only: first_some_def option.case)
  ultimately obtain r2 where "handle_score cli_sample no_deps None sample_rid st' = (r2, st')" "ro_exit r2 = Exit 0"
    using run_then_score [OF h e _ _ i, of None] answering_ok
    by (auto simp: general_request_def no_deps_def sample_suite_def fresh_state_def empty_out_def)
  with h show ?thesis by simp
qed

section \<open>Benchmark inputs\<close>












section \<open>A URL the configuration accepts and the liveness probe does not\<close>

text \<open>the configuration accepts a base URL whose port is not a number, and \<open>mt smoke --local\<close> then ends in an
  uncaught \<open>ValueError\<close>: once the inputs load, the traceback appears exactly for the URLs whose port cannot be read.\<close>

theorem smoke_port_crash:
  assumes "load_inputs env (sk_config q) (sk_suite q) = Inr (config, s)" and "sk_local q" and "\<not> sk_gemini q"
    and "\<not> cd_local_stub deps"
  shows "(ro_exit (fst (handle_smoke env deps q st)) = Raised PortValueError \<longleftrightarrow>
      url_port (cf_local_base_url config) = Inl PortValueError) \<and>
    validate_base_url documented_ext (JStr ''http://localhost:80a'') = Inr ''http://localhost:80a'' \<and>
    url_port ''http://localhost:80a'' = Inl PortValueError"
proof -
  have mode: "smoke_mode_of (sk_gemini q) (sk_local q) = SmokeLocal" using assms(2,3) by (simp add: smoke_mode_of_def)
  have only: "url_port u = Inl e \<Longrightarrow> e = PortValueError" for u e
    by (auto simp: url_port_def split: list.splits if_splits)
  have other: "ro_exit (failed ns c (OfScoring e1)) \<noteq> Raised PortValueError" "ro_exit (failed ns c (OfRun e2)) \<noteq> Raised PortValueError"
      "ro_exit (failed ns c (OfReport e3)) \<noteq> Raised PortValueError" for ns c e1 e2 e3
    by (simp_all add: failed_def)
  have "ro_exit (fst (handle_smoke env deps q st)) = Raised PortValueError \<longleftrightarrow>
      url_port (cf_local_base_url config) = Inl PortValueError"
  proof (cases "url_port (cf_local_base_url config)")
    case (Inl e)
    with only [OF this] assms mode show ?thesis
      by (simp add: handle_smoke_def smoke_preflight_def local_endpoint_unreachable_def Let_def failed_def)
  next
    case (Inr p)
    then obtain x where "smoke_preflight env deps SmokeLocal config = Inr x"
      using assms(4) by (simp add: smoke_preflight_def local_endpoint_unreachable_def Let_def)
    with Inr assms(1) mode other show ?thesis
      by (auto simp: handle_smoke_def Let_def smoke_gate_def split: option.splits sum.splits prod.splits)
  qed
  moreover have "validate_base_url documented_ext (JStr ''http://localhost:80a'') = Inr ''http://localhost:80a''"
    by code_simp
  moreover have "url_port ''http://localhost:80a'' = Inl PortValueError" by code_simp
  ultimately show ?thesis by blast
qed

definition odd_port_env :: cli_env where
  "odd_port_env = cli_sample\<lparr>ke_config := sample_env\<lparr>ce_read := (\<lambda>_. FileText
     ''{\"roster\": [\"haiku\"], \"local_base_url\": \"http://localhost:80a\"}'')\<rparr>\<rparr>"

lemma odd_port_loads: "load_inputs odd_port_env None ''s.json'' = Inr (sample_config\<lparr>cf_max_calls := 500,
    cf_local_base_url := ''http://localhost:80a''\<rparr>, sample_suite)"
  by code_simp

theorem smoke_port_crash_witness:
  "ro_exit (fst (handle_smoke odd_port_env no_deps local_smoke fresh_state)) = Raised PortValueError"
  using smoke_port_crash [of odd_port_env local_smoke _ _ no_deps fresh_state, OF _ ] odd_port_loads
  by (auto simp: local_smoke_def no_deps_def)

theorem audit_gate_witness:
  "ro_exit (fst (handle_claims cli_sample AuditClaims ''l'' fresh_state)) = Exit 0 \<and>
     snd (handle_claims cli_sample AuditClaims ''l'' fresh_state) = fresh_state"
proof -
  have "load_ledger (ke_ext cli_sample) (ke_iso cli_sample) (ke_limit cli_sample) ''l'' (cs_ledger fresh_state ''l'') = Inr []"
    by (simp add: fresh_state_def) code_simp
  moreover have "Ledger.ws_root (ke_workspace cli_sample)" by (simp add: cli_sample_def)
  ultimately show ?thesis
    using audit_gate [OF surjective_pairing, of cli_sample "''l''" fresh_state] by auto
qed

theorem command_footprint_witness:
  "\<exists>st'. snd (mt_main cli_sample no_deps (CmdRun general_request) fresh_state) = st' \<and> one_run empty_out (cs_runs st') \<and>
     cs_ledger st' = cs_ledger fresh_state"
proof -
  let ?st = "snd (mt_main cli_sample no_deps (CmdRun general_request) fresh_state)"
  from command_footprint [OF surjective_pairing, of cli_sample no_deps "CmdRun general_request" fresh_state]
  have "one_run (cs_runs fresh_state) (cs_runs ?st)" "\<forall>p. cs_ledger ?st p = cs_ledger fresh_state p" by auto
  then show ?thesis by (auto simp: fresh_state_def)
qed

end
