(* ===== verification/Process.thy ===== *)
theory Process
  imports Bench_Models Ledger
begin

text \<open>
  src/measure_twice/agent_bench/process.py: the immutable request and its limits, the bounded capture of a
  stream, the wait for a terminal state, the resource observations of the monitor, the evaluator scratch, the
  status record of the supervisor and the result.  A byte is a character.  What the kernel tells (control files,
  process records, clocks, the walk of the tree) is an argument; launching, killing and reaping are not modelled.
  Arguments that Python types as tuples are lists here, so the tests that they are tuples hold.
\<close>

section \<open>Errors\<close>

datatype limit_name = CpuLimit | MemoryLimit | ProcessesLimit | FileCountLimit | FileBytesLimit

datatype contract_error =
    NotPositiveInt string
  | NotString string
  | HasNul string
  | BandwidthOver100
  | ScratchBytesShort
  | ScratchInodesShort
  | EqualsInName string
  | DuplicateVariable string
  | TreeLimitsUnpaired
  | EmptyArgv
  | ExecutableNotAbsolute
  | CwdNotAbsolute
  | BadTimeout
  | SecretTooLong nat
  | DuplicateSecret
  | GuardWithoutScratch
  | CapabilitiesMissing
  | SystemdRunMissing
  | TreeCapabilityMissing
  | AlreadyConsumed
  | IncompleteGuardState
  | TokenWithoutGuard
  | NoPosixHost
  | CwdNotDirectory

datatype execution_error =
    ScratchSourceGone
  | ScratchTerminalGone
  | BadPhysicalBounds
  | ScratchClosed
  | NoSuchPhysicalLimit
  | PhysicalBoundsUnknown
  | ControlUnreadable string bool    \<comment> \<open>is the cause that the cgroup is gone?\<close>
  | ControlNotAscii string
  | ControlMalformed string
  | ControlNegative string
  | CounterMissing string string
  | ScopePathInvalid
  | NotCgroup2
  | ReadbackMismatch string
  | MembersOutOfBounds
  | OwnerDisappeared
  | OwnerChanged
  | OwnerDrifted
  | SeveralOwners
  | NoOwner
  | OwnerNotCaptured
  | NotValidated
  | NotTrusted
  | StatusPipeMissing
  | StatusUnfinished
  | StatusUnreadable
  | StatusInvalid
  | TreeInspectionFailed
  | TreeChanged
  | MonitorFailed
  | CapturesMissing
  | StreamUnreadable string
  | NoTargetStatus
  | SetupFailed int
  | ExecFailed int
  | UnknownHardEvent int
  | UnconfiguredHardEvent
  | NotATmpfs
  | TmpfsBoundMismatch
  | TmpfsUninspectable
  | OwnerStatUnreadable
  | OwnerStatMalformed
  | OwnerStateMalformed
  | NoPosixUser
  | ScopeUninspectable
  | ScopeReplaced
  | ScopeNotCollected
  | MonitorNotStopped

text \<open>A capability is a number.\<close>

type_synonym capability = nat

datatype process_exn =
    ProcessContract contract_error
  | ProcessExecution execution_error
  | ModelTreeViolation
  | WaitStatusValueError
  | CloseOSError capability
  | IntegerTooLong       \<comment> \<open>\<open>str\<close> of an integer of more than 4300 digits\<close>
  | TimeoutOverflow      \<comment> \<open>\<open>math.isfinite\<close> of an integer beyond the range of a double\<close>

type_synonym 'a prs = "(process_exn, 'a) res"

abbreviation contract :: "contract_error \<Rightarrow> 'a prs" where "contract e \<equiv> Inl (ProcessContract e)"
abbreviation execution :: "execution_error \<Rightarrow> 'a prs" where "execution e \<equiv> Inl (ProcessExecution e)"

section \<open>Values, limits and the request\<close>

definition positive_int :: "json \<Rightarrow> string \<Rightarrow> int prs" where
  "positive_int v label = (case v of JInt n \<Rightarrow> if n \<le> 0 then contract (NotPositiveInt label) else Inr n
     | _ \<Rightarrow> contract (NotPositiveInt label))"

definition utf8_field :: "json \<Rightarrow> string \<Rightarrow> bool \<Rightarrow> string prs" where
  "utf8_field v label allow_empty = (case v of
     JStr s \<Rightarrow>
       if \<not> allow_empty \<and> s = [] then contract (NotString label)
       else if CHR 0x00 \<in> set s then contract (HasNul label) else Inr s
   | _ \<Rightarrow> contract (NotString label))"

text \<open>UTF-8 of the model's text: one byte below 128, two above.\<close>

definition utf8_bytes :: "string \<Rightarrow> string" where
  "utf8_bytes s = concat (map (\<lambda>c. if code_pt c < 128 then [c]
     else [char_of (192 + code_pt c div 64), char_of (128 + code_pt c mod 64)]) s)"

record resource_guard =
  lg_memory :: int
  lg_processes :: int
  lg_cpu :: int

definition LinuxResourceGuard_init :: "json \<Rightarrow> json \<Rightarrow> json \<Rightarrow> resource_guard prs" where
  "LinuxResourceGuard_init memory processes cpu =
     bindE (positive_int memory ''memory_bytes'') (\<lambda>m.
     bindE (positive_int processes ''processes'') (\<lambda>p.
     bindE (positive_int cpu ''cpu_bandwidth_percent'') (\<lambda>c.
     bindE (checkE (c \<le> 100) (ProcessContract BandwidthOver100)) (\<lambda>_.
       Inr \<lparr>lg_memory = m, lg_processes = p, lg_cpu = c\<rparr>))))"

record process_limits =
  pl_cpu_seconds :: "int option"
  pl_memory :: "int option"
  pl_processes :: "int option"
  pl_file_bytes :: "int option"
  pl_open_files :: "int option"
  pl_tree_files :: "int option"
  pl_tree_bytes :: "int option"

definition optional_limit :: "json option \<Rightarrow> string \<Rightarrow> int option prs" where
  "optional_limit v label = (case v of None \<Rightarrow> Inr None | Some x \<Rightarrow> bindE (positive_int x label) (\<lambda>n. Inr (Some n)))"

definition ProcessResourceLimits_init ::
    "json option \<Rightarrow> json option \<Rightarrow> json option \<Rightarrow> json option \<Rightarrow> json option \<Rightarrow> json option \<Rightarrow> json option
       \<Rightarrow> process_limits prs" where
  "ProcessResourceLimits_init cpu memory processes bytes files tfiles tbytes =
     bindE (optional_limit cpu ''cpu_seconds'') (\<lambda>c.
     bindE (optional_limit memory ''memory_bytes'') (\<lambda>m.
     bindE (optional_limit processes ''processes'') (\<lambda>p.
     bindE (optional_limit bytes ''file_bytes'') (\<lambda>b.
     bindE (optional_limit files ''open_files'') (\<lambda>f.
     bindE (optional_limit tfiles ''tree_files'') (\<lambda>tf.
     bindE (optional_limit tbytes ''tree_bytes'') (\<lambda>tb.
     bindE (checkE ((tf = None) = (tb = None)) (ProcessContract TreeLimitsUnpaired)) (\<lambda>_.
       Inr \<lparr>pl_cpu_seconds = c, pl_memory = m, pl_processes = p, pl_file_bytes = b, pl_open_files = f,
            pl_tree_files = tf, pl_tree_bytes = tb\<rparr>))))))))"

text \<open>The loop over the variables, with the folded names seen so far.\<close>

fun validate_environment_from :: "string list \<Rightarrow> (json \<times> json) list \<Rightarrow> (string \<times> string) list prs" where
  "validate_environment_from seen [] = Inr []"
| "validate_environment_from seen ((n, v) # env) =
     bindE (utf8_field n ''name'' False) (\<lambda>name.
     bindE (utf8_field v ''value'' True) (\<lambda>value.
     bindE (checkE (CHR ''='' \<notin> set name) (ProcessContract (EqualsInName name))) (\<lambda>_.
     bindE (checkE (casefold name \<notin> set seen) (ProcessContract (DuplicateVariable name))) (\<lambda>_.
     bindE (validate_environment_from (casefold name # seen) env) (\<lambda>clean. Inr ((name, value) # clean))))))"

definition validate_environment :: "(json \<times> json) list \<Rightarrow> (string \<times> string) list prs" where
  "validate_environment env = validate_environment_from [] env"

section \<open>The evaluator scratch\<close>

text \<open>Every operation also gives the capabilities it closes, in order.\<close>

record scratch =
  es_source :: capability
  es_file_limit :: int
  es_byte_limit :: int
  es_tmpfs_bytes :: int
  es_tmpfs_inodes :: int
  es_terminal :: "capability option"
  es_physical_bytes :: "int option"
  es_physical_inodes :: "int option"
  es_released :: bool
  es_closed :: bool

definition EvaluatorScratch_init :: "capability \<Rightarrow> json \<Rightarrow> json \<Rightarrow> json \<Rightarrow> json \<Rightarrow> scratch prs" where
  "EvaluatorScratch_init source files bytes tbytes tinodes =
     bindE (positive_int files ''file_limit'') (\<lambda>f.
     bindE (positive_int bytes ''byte_limit'') (\<lambda>b.
     bindE (positive_int tbytes ''tmpfs_bytes'') (\<lambda>tb.
     bindE (positive_int tinodes ''tmpfs_inodes'') (\<lambda>ti.
     bindE (checkE (evaluator_tmpfs_minimum_bytes b f \<le> tb) (ProcessContract ScratchBytesShort)) (\<lambda>_.
     bindE (checkE (f + EVALUATOR_DIRECTORY_ALLOWANCE \<le> ti) (ProcessContract ScratchInodesShort)) (\<lambda>_.
       Inr \<lparr>es_source = source, es_file_limit = f, es_byte_limit = b, es_tmpfs_bytes = tb, es_tmpfs_inodes = ti,
            es_terminal = None, es_physical_bytes = None, es_physical_inodes = None, es_released = False,
            es_closed = False\<rparr>))))))"

definition source_capability :: "scratch \<Rightarrow> capability prs" where
  "source_capability s = (if es_closed s \<or> es_released s then execution ScratchSourceGone else Inr (es_source s))"

definition adopt_terminal_tree :: "capability \<Rightarrow> scratch \<Rightarrow> unit prs \<times> capability list \<times> scratch" where
  "adopt_terminal_tree c s =
     (if es_closed s \<or> es_terminal s \<noteq> None then (execution ScratchTerminalGone, [c], s)
      else (Inr (), [], s\<lparr>es_terminal := Some c\<rparr>))"

definition record_backing_bounds :: "int \<Rightarrow> int \<Rightarrow> scratch \<Rightarrow> unit prs \<times> scratch" where
  "record_backing_bounds bytes inodes s =
     (if bytes \<le> 0 \<or> inodes \<le> 0 then (execution BadPhysicalBounds, s)
      else if es_closed s then (execution ScratchClosed, s)
      else (Inr (), s\<lparr>es_physical_bytes := Some bytes, es_physical_inodes := Some inodes\<rparr>))"

definition physical_limit :: "scratch \<Rightarrow> limit_name \<Rightarrow> int prs" where
  "physical_limit s name = (case name of
     FileBytesLimit \<Rightarrow> (case es_physical_bytes s of None \<Rightarrow> execution PhysicalBoundsUnknown | Some v \<Rightarrow> Inr v)
   | FileCountLimit \<Rightarrow> (case es_physical_inodes s of None \<Rightarrow> execution PhysicalBoundsUnknown | Some v \<Rightarrow> Inr v)
   | _ \<Rightarrow> execution NoSuchPhysicalLimit)"

definition terminal_tree_capability :: "scratch \<Rightarrow> capability prs" where
  "terminal_tree_capability s = (if es_closed s then execution ScratchTerminalGone
     else case es_terminal s of None \<Rightarrow> execution ScratchTerminalGone | Some c \<Rightarrow> Inr c)"

definition release_source :: "scratch \<Rightarrow> capability list \<times> scratch" where
  "release_source s = (if es_released s then ([], s) else ([es_source s], s\<lparr>es_released := True\<rparr>))"

definition close_scratch :: "scratch \<Rightarrow> capability list \<times> scratch" where
  "close_scratch s =
     (if es_closed s then ([], s)
      else ((if es_released s then [] else [es_source s]) @ (case es_terminal s of None \<Rightarrow> [] | Some c \<Rightarrow> [c]),
            s\<lparr>es_closed := True, es_terminal := None, es_released := True\<rparr>))"

section \<open>The request\<close>

record request_capabilities =
  qc_cwd :: "capability option"
  qc_executable :: "capability option"
  qc_namespace :: "capability option"
  qc_supervisor :: "capability option"
  qc_systemd_run :: "capability option"
  qc_inherited :: "capability list"
  qc_tree :: "capability option"

record process_request =
  pq_argv :: "string list"
  pq_stdin :: string
  pq_cwd :: string
  pq_environment :: "(string \<times> string) list"
  pq_timeout :: json
  pq_stream_limit :: int
  pq_secrets :: "string list"
  pq_limits :: "process_limits option"
  pq_guard :: "resource_guard option"
  pq_scratch :: "scratch option"
  pq_capabilities :: request_capabilities

definition MAX_SECRET_BYTES :: nat where "MAX_SECRET_BYTES = 4096"

fun validate_argv :: "nat \<Rightarrow> json list \<Rightarrow> string list prs" where
  "validate_argv i [] = Inr []"
| "validate_argv i (v # vs) = bindE (utf8_field v ''argv'' (i \<noteq> 0)) (\<lambda>s.
     bindE (validate_argv (Suc i) vs) (\<lambda>ss. Inr (s # ss)))"

fun validate_secrets :: "nat \<Rightarrow> string list \<Rightarrow> json list \<Rightarrow> string list prs" where
  "validate_secrets i seen [] = Inr []"
| "validate_secrets i seen (v # vs) =
     bindE (utf8_field v ''secret'' False) (\<lambda>s.
     bindE (checkE (length (utf8_bytes s) \<le> MAX_SECRET_BYTES) (ProcessContract (SecretTooLong i))) (\<lambda>_.
     bindE (checkE (utf8_bytes s \<notin> set seen) (ProcessContract DuplicateSecret)) (\<lambda>_.
     bindE (validate_secrets (Suc i) (utf8_bytes s # seen) vs) (\<lambda>ss. Inr (s # ss)))))"

definition posix_absolute :: "string \<Rightarrow> bool" where
  "posix_absolute p \<longleftrightarrow> p \<noteq> [] \<and> hd p = CHR ''/''"

definition validate_timeout :: "json \<Rightarrow> unit prs" where
  "validate_timeout v = (case v of
     JInt n \<Rightarrow> if float_of_int n = None then Inl TimeoutOverflow else checkE (0 < n) (ProcessContract BadTimeout)
   | JFloat f \<Rightarrow> checkE (finite_positive f) (ProcessContract BadTimeout)
   | _ \<Rightarrow> contract BadTimeout)"

text \<open>\<open>__post_init__\<close>.  \<open>host_absolute\<close> is \<open>Path.is_absolute\<close> of the platform, \<open>linux\<close> whether it is Linux.\<close>

definition ProcessRequest_init ::
    "(string \<Rightarrow> bool) \<Rightarrow> bool \<Rightarrow> json list \<Rightarrow> json \<Rightarrow> string \<Rightarrow> (json \<times> json) list \<Rightarrow> json \<Rightarrow> json \<Rightarrow> json list
       \<Rightarrow> process_limits option \<Rightarrow> resource_guard option \<Rightarrow> scratch option \<Rightarrow> request_capabilities \<Rightarrow> process_request prs" where
  "ProcessRequest_init host_absolute linux argv stdin cwd env timeout stream_limit secrets limits guard scratch caps =
     bindE (checkE (argv \<noteq> []) (ProcessContract EmptyArgv)) (\<lambda>_.
     bindE (validate_argv 0 argv) (\<lambda>av.
     bindE (checkE (if qc_executable caps \<noteq> None then posix_absolute (hd av) else host_absolute (hd av))
       (ProcessContract ExecutableNotAbsolute)) (\<lambda>_.
     bindE (utf8_field stdin ''stdin'' True) (\<lambda>si.
     bindE (checkE (host_absolute cwd \<or> qc_cwd caps \<noteq> None \<and> posix_absolute cwd)
       (ProcessContract CwdNotAbsolute)) (\<lambda>_.
     bindE (validate_environment env) (\<lambda>ev.
     bindE (validate_timeout timeout) (\<lambda>_.
     bindE (positive_int stream_limit ''stream_limit_bytes'') (\<lambda>sl.
     bindE (validate_secrets 0 [] secrets) (\<lambda>sv.
     bindE (checkE ((guard = None) = (scratch = None)) (ProcessContract GuardWithoutScratch)) (\<lambda>_.
     bindE (checkE (linux \<longrightarrow> qc_cwd caps \<noteq> None \<and> qc_executable caps \<noteq> None \<and> qc_namespace caps \<noteq> None \<and>
         qc_supervisor caps \<noteq> None) (ProcessContract CapabilitiesMissing)) (\<lambda>_.
     bindE (checkE (linux \<and> guard \<noteq> None \<longrightarrow> qc_systemd_run caps \<noteq> None) (ProcessContract SystemdRunMissing)) (\<lambda>_.
     bindE (checkE (linux \<and> (\<exists>l \<in> set_option limits. pl_tree_files l \<noteq> None) \<longrightarrow>
         qc_tree caps \<noteq> None \<or> scratch \<noteq> None) (ProcessContract TreeCapabilityMissing)) (\<lambda>_.
       Inr \<lparr>pq_argv = av, pq_stdin = si, pq_cwd = cwd, pq_environment = ev, pq_timeout = timeout,
            pq_stream_limit = sl, pq_secrets = sv, pq_limits = limits, pq_guard = guard, pq_scratch = scratch,
            pq_capabilities = caps\<rparr>)))))))))))))"

text \<open>Ownership of the capabilities of a request: claimed once, closed once.\<close>

record request_ownership =
  ow_consumed :: bool
  ow_closed :: bool

definition all_capabilities :: "request_capabilities \<Rightarrow> capability list" where
  "all_capabilities q = concat (map (\<lambda>c. case c of None \<Rightarrow> [] | Some x \<Rightarrow> [x])
     [qc_cwd q, qc_executable q, qc_namespace q, qc_supervisor q, qc_systemd_run q]) @ qc_inherited q @
     (case qc_tree q of None \<Rightarrow> [] | Some x \<Rightarrow> [x])"

definition claim_request :: "request_ownership \<Rightarrow> unit prs \<times> request_ownership" where
  "claim_request o' = (if ow_consumed o' \<or> ow_closed o' then (contract AlreadyConsumed, o')
     else (Inr (), o'\<lparr>ow_consumed := True\<rparr>))"

definition release_scratch :: "scratch option \<Rightarrow> capability list \<times> scratch option" where
  "release_scratch sc = (case sc of None \<Rightarrow> ([], None) | Some s \<Rightarrow> (case release_source s of (cs, s') \<Rightarrow> (cs, Some s')))"

text \<open>
  Closing one capability, and several in order until one fails.  \<open>fails\<close> says for which descriptors \<open>os.close\<close>
  raises; the capabilities that are marked closed, whether they were closed or given up, are the set \<open>gone\<close>, and to
  close one of them does nothing.  The list holds the descriptors handed to \<open>os.close\<close>.
\<close>

definition close_capability ::
    "(capability \<Rightarrow> bool) \<Rightarrow> capability \<Rightarrow> capability set \<Rightarrow> unit prs \<times> capability list \<times> capability set" where
  "close_capability fails c gone =
     (if c \<in> gone then (Inr (), [], gone)
      else (if fails c then Inl (CloseOSError c) else Inr (), [c], insert c gone))"

fun close_each ::
    "(capability \<Rightarrow> bool) \<Rightarrow> capability list \<Rightarrow> capability set \<Rightarrow> unit prs \<times> capability list \<times> capability set" where
  "close_each fails [] gone = (Inr (), [], gone)"
| "close_each fails (c # cs) gone = (case close_capability fails c gone of
     (Inl e, shut, gone1) \<Rightarrow> (Inl e, shut, gone1)
   | (Inr _, shut, gone1) \<Rightarrow>
       (case close_each fails cs gone1 of (r, shut1, gone2) \<Rightarrow> (r, shut @ shut1, gone2)))"

definition abandon :: "capability \<Rightarrow> capability set \<Rightarrow> capability set" where
  "abandon c gone = insert c gone"

text \<open>The capabilities of the request, then the source of its scratch; an exception keeps the rest from being closed.\<close>

definition close_owned ::
    "(capability \<Rightarrow> bool) \<Rightarrow> process_request \<Rightarrow> capability set
       \<Rightarrow> unit prs \<times> capability list \<times> process_request \<times> capability set" where
  "close_owned fails q gone = (case close_each fails (all_capabilities (pq_capabilities q)) gone of
     (Inl e, shut, gone1) \<Rightarrow> (Inl e, shut, q, gone1)
   | (Inr _, shut, gone1) \<Rightarrow>
       (case release_scratch (pq_scratch q) of (cs, sc) \<Rightarrow>
          (case close_each fails cs gone1 of (r, shut1, gone2) \<Rightarrow> (r, shut @ shut1, q\<lparr>pq_scratch := sc\<rparr>, gone2))))"

definition release_request ::
    "(capability \<Rightarrow> bool) \<Rightarrow> process_request \<Rightarrow> request_ownership \<Rightarrow> capability set
       \<Rightarrow> unit prs \<times> capability list \<times> process_request \<times> request_ownership \<times> capability set" where
  "release_request fails q o' gone = (case close_owned fails q gone of (r, shut, q', gone1) \<Rightarrow>
     (r, shut, q', case r of Inl _ \<Rightarrow> o' | Inr _ \<Rightarrow> o'\<lparr>ow_closed := True\<rparr>, gone1))"

definition close_request ::
    "(capability \<Rightarrow> bool) \<Rightarrow> process_request \<Rightarrow> request_ownership \<Rightarrow> capability set
       \<Rightarrow> unit prs \<times> capability list \<times> process_request \<times> request_ownership \<times> capability set" where
  "close_request fails q o' gone =
     (if ow_closed o' \<or> ow_consumed o' then (Inr (), [], q, o', gone)
      else case close_owned fails q gone of (r, shut, q', gone1) \<Rightarrow> (r, shut, q', o'\<lparr>ow_closed := True\<rparr>, gone1))"

end
