(* ===== verification/Process_Run.thy ===== *)
theory Process_Run
  imports Process "HOL-Library.Sublist"
begin

text \<open>
  src/measure_twice/agent_bench/process.py, continued: one run of a request.  The bounded capture of its streams
  with the redaction of secrets, the wait, the controls of its cgroup, the monitor's resource observations, the
  status record the supervisor writes and the owner reads, and the result that is made of all of these.
\<close>

section \<open>Bounded capture\<close>

type_synonym bytes = string

record capture =
  bc_limit :: nat
  bc_reserve :: nat
  bc_secrets :: "bytes list"
  bc_data :: bytes
  bc_total :: nat
  bc_exceeded :: bool
  bc_detected :: bool
  bc_tail :: bytes
  bc_error :: bool

definition capture_add :: "bytes \<Rightarrow> capture \<Rightarrow> capture" where
  "capture_add chunk c =
     (let scan = bc_tail c @ chunk;
          total = bc_total c + length chunk;
          keep = bc_limit c + bc_reserve c - length (bc_data c)
      in c\<lparr>bc_detected := bc_detected c \<or> list_ex (\<lambda>s. sublist s scan) (bc_secrets c),
           bc_tail := (if 1 < bc_reserve c then drop (length scan - (bc_reserve c - 1)) scan else bc_tail c),
           bc_total := total,
           bc_data := bc_data c @ take keep chunk,
           bc_exceeded := bc_exceeded c \<or> bc_limit c < total\<rparr>)"

definition REDACTION :: bytes where "REDACTION = ''<redacted>''"

text \<open>\<open>bytes.replace\<close>: from the left, occurrences that do not overlap; the empty pattern is before every byte.\<close>

function replace_bytes :: "bytes \<Rightarrow> bytes \<Rightarrow> bytes \<Rightarrow> bytes" where
  "replace_bytes s m [] = (if s = [] then m else [])"
| "replace_bytes s m (x # xs) =
     (if s = [] then m @ x # replace_bytes s m xs
      else if take (length s) (x # xs) = s then m @ replace_bytes s m (drop (length s) (x # xs))
      else x # replace_bytes s m xs)"
  by pat_completeness auto
termination by (relation "measure (\<lambda>(s, m, xs). length xs)") auto

definition redact :: "bytes list \<Rightarrow> bytes \<Rightarrow> bytes" where
  "redact secrets data = fold (\<lambda>s v. replace_bytes s REDACTION v) (sort_key (\<lambda>s. - int (length s)) secrets) data"

definition rendered :: "capture \<Rightarrow> bytes \<times> bool" where
  "rendered c = (take (bc_limit c) (redact (bc_secrets c) (bc_data c)), bc_detected c)"

text \<open>The capture of a run: the reserve is the length of the longest secret.\<close>

definition new_capture :: "nat \<Rightarrow> bytes list \<Rightarrow> capture" where
  "new_capture limit secrets = \<lparr>bc_limit = limit, bc_reserve = foldr max (map length secrets) 0, bc_secrets = secrets,
     bc_data = [], bc_total = 0, bc_exceeded = False, bc_detected = False, bc_tail = [], bc_error = False\<rparr>"

text \<open>What reading the pipe gives until it ends; also whether the stream limit was reached.\<close>

datatype read_event = Chunk bytes | ReadFailed

fun read_pipe :: "read_event list \<Rightarrow> capture \<Rightarrow> capture \<times> bool" where
  "read_pipe [] c = (c, False)"
| "read_pipe (ReadFailed # es) c = (c\<lparr>bc_error := True\<rparr>, False)"
| "read_pipe (Chunk b # es) c =
     (if b = [] then (c, False)
      else let c' = capture_add b c in if bc_exceeded c' then (c', True) else read_pipe es c')"

section \<open>Waiting\<close>

datatype ending = Exited | Signalled | Timeout | StreamLimit | ResourceLimit

text \<open>What one round of the loop sees; without a tracker its two events are unset.\<close>

record poll =
  po_stream_limit :: bool
  po_monitor_failed :: bool
  po_limit_reached :: bool
  po_exited :: bool
  po_stdout_done :: bool
  po_stderr_done :: bool
  po_now :: rat

fun wait_for_process :: "rat \<Rightarrow> poll list \<Rightarrow> (ending \<times> bool) prs option" where
  "wait_for_process deadline [] = None"
| "wait_for_process deadline (p # ps) =
     (if po_stream_limit p then Some (Inr (StreamLimit, True))
      else if po_monitor_failed p then Some (execution MonitorFailed)
      else if po_limit_reached p then Some (Inr (ResourceLimit, True))
      else if po_exited p \<and> po_stdout_done p \<and> po_stderr_done p then Some (Inr (Exited, False))
      else if deadline \<le> po_now p then Some (Inr (Timeout, True))
      else wait_for_process deadline ps)"

section \<open>Control files of the cgroup\<close>

text \<open>A control file read through the held directory; \<open>NoControl\<close> says whether the cgroup is gone.\<close>

datatype control_read = Control string | NoControl bool | ControlBinary

type_synonym controls = "string \<Rightarrow> control_read"

definition read_control :: "controls \<Rightarrow> string \<Rightarrow> string prs" where
  "read_control ctl name = (case ctl name of
     Control t \<Rightarrow> Inr t | NoControl gone \<Rightarrow> execution (ControlUnreadable name gone)
   | ControlBinary \<Rightarrow> execution (ControlNotAscii name))"

text \<open>\<open>str.split(maxsplit=1)\<close> and \<open>int(text)\<close>.\<close>

definition split_once :: "string \<Rightarrow> string list" where
  "split_once l = (let s = lstrip l; w = takeWhile (\<lambda>c. \<not> isspace c) s; r = lstrip (dropWhile (\<lambda>c. \<not> isspace c) s)
     in (if w = [] then [] else [w]) @ (if r = [] then [] else [r]))"

fun digits_with_underscores :: "string \<Rightarrow> bool" where
  "digits_with_underscores [c] = is_digit c"
| "digits_with_underscores (c # d # s) = (is_digit c \<and> (if d = CHR ''_'' then digits_with_underscores s
     else digits_with_underscores (d # s)))"
| "digits_with_underscores [] = False"

definition python_int :: "string \<Rightarrow> int option" where
  "python_int t =
     (let s = strip t;
          negative = s \<noteq> [] \<and> hd s = CHR ''-'';
          body = (if s \<noteq> [] \<and> hd s \<in> {CHR ''-'', CHR ''+''} then tl s else s);
          ds = filter is_digit body
      in if digits_with_underscores body \<and> length ds \<le> int_max_str_digits
         then Some (if negative then - int (read_nat ds) else int (read_nat ds)) else None)"

fun counters_from :: "string \<Rightarrow> string list \<Rightarrow> (string \<Rightarrow> int option) \<Rightarrow> (string \<Rightarrow> int option) prs" where
  "counters_from name [] m = Inr m"
| "counters_from name (l # ls) m = (case split_once l of
     [k, raw] \<Rightarrow>
       (case python_int raw of None \<Rightarrow> execution (ControlMalformed name) | Some v \<Rightarrow> counters_from name ls (m(k \<mapsto> v)))
   | _ \<Rightarrow> execution (ControlMalformed name))"

definition cgroup_counters :: "controls \<Rightarrow> string \<Rightarrow> (string \<Rightarrow> int option) prs" where
  "cgroup_counters ctl name = bindE (read_control ctl name) (\<lambda>t. counters_from name (splitlines t) Map.empty)"

definition required_counter :: "(string \<Rightarrow> int option) \<Rightarrow> string \<Rightarrow> string \<Rightarrow> int prs" where
  "required_counter m key control = (case m key of
     None \<Rightarrow> execution (CounterMissing control key)
   | Some v \<Rightarrow> if v < 0 then execution (CounterMissing control key) else Inr v)"

definition nonnegative_value :: "controls \<Rightarrow> string \<Rightarrow> int prs" where
  "nonnegative_value ctl name = bindE (read_control ctl name) (\<lambda>t. case python_int (strip t) of
     None \<Rightarrow> execution (ControlMalformed name)
   | Some v \<Rightarrow> if v < 0 then execution (ControlNegative name) else Inr v)"

definition scope_collection_path :: "string \<Rightarrow> string prs" where
  "scope_collection_path p =
     (if \<not> posix_absolute p \<or> list_ex (\<lambda>w. w \<in> {[], ''.'', ''..''}) (tl (split_on CHR ''/'' p))
      then execution ScopePathInvalid else Inr (''/sys/fs/cgroup'' @ p))"

record guard_state =
  gs_config :: resource_guard
  gs_memory_before :: "string \<Rightarrow> int option"
  gs_pids_before :: "string \<Rightarrow> int option"
  gs_cpu_before :: int
  gs_owner :: "(int \<times> int) option"
  gs_trusted :: bool
  gs_validated :: bool
  gs_collected :: bool

definition validate_attribution ::
    "(string \<Rightarrow> int option) \<Rightarrow> (string \<Rightarrow> int option) \<Rightarrow> unit prs" where
  "validate_attribution memory pids =
     bindE (required_counter memory ''max'' ''memory.events'') (\<lambda>_.
     bindE (required_counter memory ''oom_kill'' ''memory.events'') (\<lambda>_.
     bindE (required_counter pids ''max'' ''pids.events'') (\<lambda>_. Inr ())))"

text \<open>\<open>str.split()\<close>.\<close>

function split_words :: "string \<Rightarrow> string list" where
  "split_words t = (let s = lstrip t in
     if s = [] then [] else takeWhile (\<lambda>c. \<not> isspace c) s # split_words (dropWhile (\<lambda>c. \<not> isspace c) s))"
  by pat_completeness auto

lemma lstrip_shorter: "length (lstrip t) \<le> length t"
  by (simp add: lstrip_def length_dropWhile_le)

lemma lstrip_head: "lstrip t = c # s \<Longrightarrow> \<not> isspace c"
  by (auto simp: lstrip_def dropWhile_eq_Cons_conv)

termination split_words
proof (relation "measure length")
  fix t s :: string
  assume s: "s = lstrip t" "s \<noteq> []"
  from s(2) obtain c r where cr: "s = c # r" by (cases s) simp_all
  then have "\<not> isspace c" using s lstrip_head by metis
  then have "length (dropWhile (\<lambda>c. \<not> isspace c) s) < length s"
    using length_dropWhile_le [of "\<lambda>c. \<not> isspace c" r] by (simp add: cr)
  then show "(dropWhile (\<lambda>c. \<not> isspace c) s, t) \<in> measure length" using lstrip_shorter [of t] s(1) by simp
qed simp

declare split_words.simps [simp del]

definition verify_readback :: "controls \<Rightarrow> resource_guard \<Rightarrow> unit prs" where
  "verify_readback ctl g =
     bindE (read_control ctl ''memory.max'') (\<lambda>t.
     bindE (checkE (strip t = show_int (lg_memory g)) (ProcessExecution (ReadbackMismatch ''memory.max''))) (\<lambda>_.
     bindE (read_control ctl ''memory.swap.max'') (\<lambda>t.
     bindE (checkE (strip t = ''0'') (ProcessExecution (ReadbackMismatch ''memory.swap.max''))) (\<lambda>_.
     bindE (read_control ctl ''pids.max'') (\<lambda>t.
     bindE (checkE (strip t = show_int (lg_processes g)) (ProcessExecution (ReadbackMismatch ''pids.max''))) (\<lambda>_.
     bindE (read_control ctl ''cpu.max'') (\<lambda>t.
     case split_words t of
       [q, p] \<Rightarrow>
         (if q = ''max'' then execution (ReadbackMismatch ''cpu.max'')
          else case (python_int q, python_int p) of
            (Some quota, Some period) \<Rightarrow>
              checkE (0 < quota \<and> 0 < period \<and> quota * 100 = lg_cpu g * period)
                (ProcessExecution (ReadbackMismatch ''cpu.max''))
          | _ \<Rightarrow> execution (ControlMalformed ''cpu.max''))
     | _ \<Rightarrow> execution (ReadbackMismatch ''cpu.max''))))))))"

text \<open>What /proc tells of a member: start token before and after, namespace chain, unified cgroup.\<close>

record member_view =
  mv_before :: "int option"
  mv_chain :: "int list option"
  mv_cgroup :: "string option"
  mv_after :: "int option"

fun namespace_owner_of ::
    "(int \<Rightarrow> member_view) \<Rightarrow> string \<Rightarrow> int list \<Rightarrow> (int \<times> int) option \<Rightarrow> (int \<times> int) prs" where
  "namespace_owner_of view scope [] owner = (case owner of None \<Rightarrow> execution NoOwner | Some x \<Rightarrow> Inr x)"
| "namespace_owner_of view scope (pid # pids) owner =
     (if pid \<le> 0 then execution (ControlMalformed ''cgroup.procs'')
      else case mv_before (view pid) of
        None \<Rightarrow> execution OwnerDisappeared
      | Some start \<Rightarrow>
          (if mv_after (view pid) \<noteq> Some start then execution OwnerChanged
           else case mv_chain (view pid) of
             Some chain \<Rightarrow>
               (if 2 \<le> length chain \<and> hd chain = pid \<and> last chain = 1
                then (if mv_cgroup (view pid) \<noteq> Some scope then execution OwnerDrifted
                      else if owner \<noteq> None then execution SeveralOwners
                      else namespace_owner_of view scope pids (Some (pid, start)))
                else namespace_owner_of view scope pids owner)
           | None \<Rightarrow> namespace_owner_of view scope pids owner))"

fun parse_members :: "string list \<Rightarrow> int list option" where
  "parse_members [] = Some []"
| "parse_members (l # ls) = (case (python_int l, parse_members ls) of (Some n, Some ns) \<Rightarrow> Some (n # ns) | _ \<Rightarrow> None)"

definition capture_outer_owner ::
    "controls \<Rightarrow> (int \<Rightarrow> member_view) \<Rightarrow> string \<Rightarrow> resource_guard \<Rightarrow> (int \<times> int) prs" where
  "capture_outer_owner ctl view scope g =
     bindE (read_control ctl ''cgroup.procs'') (\<lambda>t.
     case parse_members (splitlines t) of
       None \<Rightarrow> execution (ControlMalformed ''cgroup.procs'')
     | Some pids \<Rightarrow>
         bindE (checkE (pids \<noteq> [] \<and> int (length pids) \<le> lg_processes g) (ProcessExecution MembersOutOfBounds)) (\<lambda>_.
           namespace_owner_of view scope pids None))"

text \<open>\<open>identified\<close>: the scope and the kill descriptor are the expected ones, on cgroup v2.\<close>

definition validate_before_release ::
    "controls \<Rightarrow> (int \<Rightarrow> member_view) \<Rightarrow> string \<Rightarrow> unit prs \<Rightarrow> guard_state \<Rightarrow> unit prs \<times> guard_state" where
  "validate_before_release ctl view scope identified g = (case identified of
     Inl e \<Rightarrow> (Inl e, g)
   | Inr _ \<Rightarrow>
       (let g1 = g\<lparr>gs_trusted := True\<rparr> in
        case bindE (verify_readback ctl (gs_config g)) (\<lambda>_. cgroup_counters ctl ''memory.events'') of
          Inl e \<Rightarrow> (Inl e, g1)
        | Inr m \<Rightarrow>
       (let g2 = g1\<lparr>gs_memory_before := m\<rparr> in
        case cgroup_counters ctl ''pids.events'' of
          Inl e \<Rightarrow> (Inl e, g2)
        | Inr p \<Rightarrow>
       (let g3 = g2\<lparr>gs_pids_before := p\<rparr> in
        case bindE (validate_attribution m p) (\<lambda>_. bindE (cgroup_counters ctl ''cpu.stat'') (\<lambda>cs.
            required_counter cs ''usage_usec'' ''cpu.stat'')) of
          Inl e \<Rightarrow> (Inl e, g3)
        | Inr u \<Rightarrow>
       (let g4 = g3\<lparr>gs_cpu_before := u\<rparr> in
        case bindE (nonnegative_value ctl ''memory.peak'') (\<lambda>_. bindE (nonnegative_value ctl ''pids.peak'') (\<lambda>_.
            capture_outer_owner ctl view scope (gs_config g))) of
          Inl e \<Rightarrow> (Inl e, g4)
        | Inr o' \<Rightarrow> (Inr (), g4\<lparr>gs_owner := Some o', gs_validated := True\<rparr>))))))"

text \<open>Whether the captured owner has ended; its record is its start token and state, if it still exists.\<close>

definition outer_owner_exited :: "guard_state \<Rightarrow> (int \<Rightarrow> (int \<times> char) option) \<Rightarrow> bool \<Rightarrow> bool prs" where
  "outer_owner_exited g proc allow_zombie = (case gs_owner g of
     None \<Rightarrow> execution OwnerNotCaptured
   | Some (pid, start) \<Rightarrow>
       (case proc pid of
          None \<Rightarrow> Inr True
        | Some (token, state) \<Rightarrow> Inr (token \<noteq> start \<or> allow_zombie \<and> state = CHR ''Z'')))"

definition cpu_usage_microseconds :: "controls \<Rightarrow> guard_state \<Rightarrow> int prs" where
  "cpu_usage_microseconds ctl g =
     bindE (checkE (gs_validated g) (ProcessExecution NotValidated)) (\<lambda>_.
     bindE (cgroup_counters ctl ''cpu.stat'') (\<lambda>m.
     bindE (required_counter m ''usage_usec'' ''cpu.stat'') (\<lambda>v. Inr (max 0 (v - gs_cpu_before g)))))"

definition hard_event :: "controls \<Rightarrow> guard_state \<Rightarrow> (limit_name \<times> int) option prs" where
  "hard_event ctl g =
     bindE (checkE (gs_validated g) (ProcessExecution NotValidated)) (\<lambda>_.
     bindE (cgroup_counters ctl ''memory.events'') (\<lambda>m.
     bindE (cgroup_counters ctl ''pids.events'') (\<lambda>p.
     bindE (validate_attribution m p) (\<lambda>_.
     bindE (required_counter m ''max'' ''memory.events'') (\<lambda>max1.
     bindE (required_counter (gs_memory_before g) ''max'' ''memory.events'') (\<lambda>max0.
     bindE (required_counter m ''oom_kill'' ''memory.events'') (\<lambda>oom1.
     bindE (required_counter (gs_memory_before g) ''oom_kill'' ''memory.events'') (\<lambda>oom0.
     if 0 < max (max1 - max0) (oom1 - oom0)
     then bindE (nonnegative_value ctl ''memory.peak'') (\<lambda>v. Inr (Some (MemoryLimit, v)))
     else
       bindE (required_counter p ''max'' ''pids.events'') (\<lambda>p1.
       bindE (required_counter (gs_pids_before g) ''max'' ''pids.events'') (\<lambda>p0.
       if 0 < p1 - p0 then bindE (nonnegative_value ctl ''pids.peak'') (\<lambda>v. Inr (Some (ProcessesLimit, v)))
       else Inr None))))))))))"

definition populated :: "controls \<Rightarrow> guard_state \<Rightarrow> bool prs" where
  "populated ctl g =
     bindE (checkE (gs_trusted g) (ProcessExecution NotTrusted)) (\<lambda>_.
     bindE (cgroup_counters ctl ''cgroup.events'') (\<lambda>m.
     bindE (required_counter m ''populated'' ''cgroup.events'') (\<lambda>v.
       if v = 0 then Inr False else if v = 1 then Inr True else execution (ControlMalformed ''cgroup.events''))))"


section \<open>The monitor's observations\<close>

datatype provenance = HardGuard | SampledThreshold

record limit_state =
  ls_limit :: "limit_name option"
  ls_value :: "int option"
  ls_observed :: "int option"
  ls_provenance :: "provenance option"
  ls_inconclusive :: nat
  ls_reached :: bool
  ls_ticks :: int
  ls_next_scan :: rat

definition configured_limit :: "process_limits option \<Rightarrow> limit_name \<Rightarrow> int option" where
  "configured_limit limits name = (case limits of None \<Rightarrow> None
   | Some l \<Rightarrow> (case name of CpuLimit \<Rightarrow> pl_cpu_seconds l | MemoryLimit \<Rightarrow> pl_memory l
       | ProcessesLimit \<Rightarrow> pl_processes l | FileCountLimit \<Rightarrow> pl_tree_files l | FileBytesLimit \<Rightarrow> pl_tree_bytes l))"

definition set_resource_limit ::
    "process_limits option \<Rightarrow> limit_name \<Rightarrow> provenance \<Rightarrow> int option \<Rightarrow> bool \<Rightarrow> int option \<Rightarrow> limit_state \<Rightarrow> limit_state" where
  "set_resource_limit limits name prov observed replace limit_value st =
     (if ls_limit st = None \<or> replace
      then st\<lparr>ls_limit := Some name,
              ls_value := (case limit_value of None \<Rightarrow> configured_limit limits name | Some v \<Rightarrow> Some v),
              ls_observed := observed, ls_provenance := Some prov, ls_reached := True\<rparr>
      else st)"

abbreviation "set_sampled limits name observed \<equiv> set_resource_limit limits name SampledThreshold (Some observed) False None"

type_synonym observations = "(limit_name \<times> int) option \<times> (int \<times> bool) option"

text \<open>What a walk of the tree ends with.\<close>

datatype tree_walk = WalkDone | WalkLimit limit_name int | WalkDrift | WalkPolicy | WalkFailed

text \<open>
  A tracker's constant parts, and what one check sees: \<open>ts_guard\<close> is the guard's observation, a pair of unset parts
  once it is detached, \<open>ts_full\<close> that of a full tmpfs, \<open>ts_live\<close> the number of live processes, \<open>ts_ticks\<close> and
  \<open>ts_resident\<close> their readable tick counts and resident sizes.
\<close>

record tracker =
  tk_limits :: "process_limits option"
  tk_tree :: bool
  tk_guarded :: bool
  tk_scratch :: "scratch option"
  tk_ticks_per_second :: int

record sample =
  ts_guard :: "observations prs"
  ts_full :: "(limit_name \<times> int) option prs"
  ts_live :: int
  ts_ticks :: "int list"
  ts_resident :: "int list"
  ts_now :: rat
  ts_walk :: tree_walk

text \<open>The filesystem counts of a held tmpfs: blocks, block size, available blocks, inodes, free inodes.\<close>

definition tmpfs_hard_exhaustion :: "int \<Rightarrow> int \<Rightarrow> int \<Rightarrow> int \<Rightarrow> int \<Rightarrow> (limit_name \<times> int) option" where
  "tmpfs_hard_exhaustion blocks frsize bavail inodes ffree =
     (if bavail \<le> 0 then Some (FileBytesLimit, blocks * frsize)
      else if ffree \<le> 0 then Some (FileCountLimit, inodes) else None)"

text \<open>
  A control that is missing is accepted once the exact owner has ended and the scope is gone; \<open>exited\<close> is the
  answer of the owner's record, \<open>absent\<close> the outcome of the wait for the collection.
\<close>

definition control_missing_after_collection ::
    "bool prs \<Rightarrow> unit prs \<Rightarrow> process_exn \<Rightarrow> guard_state \<Rightarrow> bool prs \<times> guard_state" where
  "control_missing_after_collection exited absent e g = (case e of
     ProcessExecution (ControlUnreadable name True) \<Rightarrow>
       (case exited of
          Inl x \<Rightarrow> (Inl x, g)
        | Inr False \<Rightarrow> (Inr False, g)
        | Inr True \<Rightarrow> (case absent of Inl x \<Rightarrow> (Inl x, g) | Inr _ \<Rightarrow> (Inr True, g\<lparr>gs_collected := True\<rparr>)))
   | _ \<Rightarrow> (Inr False, g))"

definition unless_collected ::
    "bool prs \<Rightarrow> unit prs \<Rightarrow> process_exn \<Rightarrow> guard_state \<Rightarrow> observations prs \<times> guard_state" where
  "unless_collected exited absent e g = (case control_missing_after_collection exited absent e g of
     (Inl x, g') \<Rightarrow> (Inl x, g') | (Inr True, g') \<Rightarrow> (Inr (None, None), g') | (Inr False, g') \<Rightarrow> (Inl e, g'))"

definition guard_observations ::
    "controls \<Rightarrow> bool prs \<Rightarrow> unit prs \<Rightarrow> process_limits \<Rightarrow> guard_state \<Rightarrow> observations prs \<times> guard_state" where
  "guard_observations ctl exited absent limits g =
     (if gs_collected g then (Inr (None, None), g)
      else case hard_event ctl g of
        Inl e \<Rightarrow> unless_collected exited absent e g
      | Inr (Some e) \<Rightarrow> (Inr (Some e, None), g)
      | Inr None \<Rightarrow>
          (case pl_cpu_seconds limits of
             None \<Rightarrow> (Inr (None, None), g)
           | Some c \<Rightarrow> (case cpu_usage_microseconds ctl g of
               Inl e \<Rightarrow> unless_collected exited absent e g
             | Inr u \<Rightarrow> (Inr (None, Some (u, c * 1000000 \<le> u)), g))))"

definition set_hard :: "tracker \<Rightarrow> limit_name \<times> int \<Rightarrow> int option \<Rightarrow> limit_state \<Rightarrow> limit_state" where
  "set_hard t e value st = set_resource_limit (tk_limits t) (fst e) HardGuard (Some (snd e)) True value st"

text \<open>A full tmpfs is reported with the physical bound of the scratch.\<close>

definition set_full :: "tracker \<Rightarrow> scratch \<Rightarrow> limit_name \<times> int \<Rightarrow> limit_state \<Rightarrow> limit_state prs" where
  "set_full t sc e st = bindE (physical_limit sc (fst e)) (\<lambda>v. Inr (set_hard t e (Some v) st))"

definition observe_walk :: "tracker \<Rightarrow> process_limits \<Rightarrow> bool \<Rightarrow> sample \<Rightarrow> limit_state \<Rightarrow> limit_state prs" where
  "observe_walk t l force s st =
     (if tk_tree t \<and> pl_tree_files l \<noteq> None \<and> pl_tree_bytes l \<noteq> None \<and> (force \<or> ls_next_scan st \<le> ts_now s)
      then (let st' = st\<lparr>ls_next_scan := ts_now s + 5 / 100\<rparr> in case ts_walk s of
        WalkDone \<Rightarrow> Inr st'
      | WalkLimit name observed \<Rightarrow> Inr (set_sampled (tk_limits t) name observed st')
      | WalkFailed \<Rightarrow> execution TreeInspectionFailed
      | _ \<Rightarrow> Inr (st'\<lparr>ls_inconclusive := ls_inconclusive st' + 1\<rparr>))
      else Inr st)"

text \<open>The processor time: the guard's, or the high water mark of the live processes' ticks.\<close>

definition observe_cpu :: "tracker \<Rightarrow> sample \<Rightarrow> (int \<times> bool) option \<Rightarrow> int \<Rightarrow> limit_state \<Rightarrow> (int \<times> bool) \<times> limit_state" where
  "observe_cpu t s cpu seconds st =
     (if tk_guarded t
      then ((case cpu of None \<Rightarrow> (0, False) | Some (u, exceeded) \<Rightarrow> (u div 1000000, exceeded)), st)
      else (let ticks = max (ls_ticks st) (sum_list (ts_ticks s))
            in ((ticks div tk_ticks_per_second t, seconds * tk_ticks_per_second t \<le> ticks), st\<lparr>ls_ticks := ticks\<rparr>)))"

definition observe_memory :: "tracker \<Rightarrow> process_limits \<Rightarrow> bool \<Rightarrow> sample \<Rightarrow> limit_state \<Rightarrow> limit_state prs" where
  "observe_memory t l force s st = (case pl_memory l of
     Some m \<Rightarrow>
       (if \<not> tk_guarded t \<and> m < sum_list (ts_resident s)
        then Inr (set_sampled (tk_limits t) MemoryLimit (sum_list (ts_resident s)) st)
        else observe_walk t l force s st)
   | None \<Rightarrow> observe_walk t l force s st)"

definition observe_usage :: "tracker \<Rightarrow> (int \<times> bool) option \<Rightarrow> process_limits \<Rightarrow> bool \<Rightarrow> sample \<Rightarrow> limit_state \<Rightarrow> limit_state prs" where
  "observe_usage t cpu l force s st =
     (if \<not> tk_guarded t \<and> (\<exists>n \<in> set_option (pl_processes l). n < ts_live s)
      then Inr (set_sampled (tk_limits t) ProcessesLimit (ts_live s) st)
      else case pl_cpu_seconds l of
        None \<Rightarrow> observe_memory t l force s st
      | Some seconds \<Rightarrow>
          (case observe_cpu t s cpu seconds st of ((observed, exceeded), st') \<Rightarrow>
             if exceeded then Inr (set_sampled (tk_limits t) CpuLimit observed st')
             else observe_memory t l force s st'))"

definition check_resources :: "tracker \<Rightarrow> bool \<Rightarrow> sample \<Rightarrow> limit_state \<Rightarrow> limit_state prs" where
  "check_resources t force s st = (case tk_limits t of
     None \<Rightarrow> Inr st
   | Some l \<Rightarrow>
       (if ls_reached st then Inr st
        else bindE (if tk_guarded t then ts_guard s else Inr (None, None)) (\<lambda>(hard, cpu). case hard of
          Some e \<Rightarrow> Inr (set_hard t e None st)
        | None \<Rightarrow>
            (case tk_scratch t of
               Some sc \<Rightarrow>
                 (if tk_tree t
                  then bindE (ts_full s) (\<lambda>full. case full of
                    Some e \<Rightarrow> set_full t sc e st
                  | None \<Rightarrow> observe_usage t cpu l force s st)
                  else observe_usage t cpu l force s st)
             | None \<Rightarrow> observe_usage t cpu l force s st))))"

text \<open>After quiescence, and just before the cleanup.\<close>

definition validate_terminal_tree :: "tracker \<Rightarrow> sample \<Rightarrow> limit_state \<Rightarrow> limit_state prs" where
  "validate_terminal_tree t s st = (case tk_limits t of
     None \<Rightarrow> Inr st
   | Some l \<Rightarrow>
       (if \<not> tk_tree t \<or> pl_tree_files l = None \<or> pl_tree_bytes l = None then Inr st
        else bindE (case tk_scratch t of
            None \<Rightarrow> Inr st
          | Some sc \<Rightarrow> bindE (ts_full s) (\<lambda>full. case full of None \<Rightarrow> Inr st | Some e \<Rightarrow> set_full t sc e st)) (\<lambda>st'.
          case ts_walk s of
            WalkDone \<Rightarrow> Inr st'
          | WalkLimit name observed \<Rightarrow> Inr (set_sampled (tk_limits t) name observed st')
          | WalkPolicy \<Rightarrow> Inl ModelTreeViolation
          | WalkDrift \<Rightarrow> execution TreeChanged
          | WalkFailed \<Rightarrow> execution TreeInspectionFailed)))"

definition final_guard_observation :: "tracker \<Rightarrow> sample \<Rightarrow> limit_state \<Rightarrow> limit_state prs" where
  "final_guard_observation t s st =
     (if tk_limits t = None \<or> \<not> tk_guarded t then Inr st
      else bindE (ts_guard s) (\<lambda>(hard, cpu). case hard of
        Some e \<Rightarrow> Inr (set_hard t e None st)
      | None \<Rightarrow>
          (case cpu of
             Some (u, True) \<Rightarrow> Inr (set_sampled (tk_limits t) CpuLimit (u div 1000000) st)
           | _ \<Rightarrow> Inr st)))"

definition new_limit_state :: limit_state where
  "new_limit_state = \<lparr>ls_limit = None, ls_value = None, ls_observed = None, ls_provenance = None, ls_inconclusive = 0,
     ls_reached = False, ls_ticks = 0, ls_next_scan = 0\<rparr>"

section \<open>The status record\<close>

record target_status =
  st_wait :: int
  st_exec :: int
  st_cpu :: int
  st_hard :: int
  st_observed :: int
  st_setup :: int

text \<open>Big-endian two's complement on \<open>n\<close> bytes, as \<open>struct\<close> packs and unpacks it.\<close>

fun be_bytes :: "nat \<Rightarrow> nat \<Rightarrow> bytes" where
  "be_bytes 0 v = []"
| "be_bytes (Suc n) v = be_bytes n (v div 256) @ [char_of (v mod 256)]"

definition be_value :: "bytes \<Rightarrow> nat" where
  "be_value b = foldl (\<lambda>a c. a * 256 + of_char c) 0 b"

definition fits_signed :: "nat \<Rightarrow> int \<Rightarrow> bool" where
  "fits_signed n v \<longleftrightarrow> - (2 ^ (8 * n - 1)) \<le> v \<and> v < 2 ^ (8 * n - 1)"

definition pack_signed :: "nat \<Rightarrow> int \<Rightarrow> bytes option" where
  "pack_signed n v = (if fits_signed n v then Some (be_bytes n (nat (v mod 2 ^ (8 * n)))) else None)"

definition unpack_signed :: "bytes \<Rightarrow> int" where
  "unpack_signed b = (let v = int (be_value b) in if v < 2 ^ (8 * length b - 1) then v else v - 2 ^ (8 * length b))"

definition SUPERVISOR_MAGIC :: bytes where "SUPERVISOR_MAGIC = ''MT26''"

definition status_widths :: "nat list" where "status_widths = [4, 4, 8, 4, 8, 4]"

definition status_size :: nat where "status_size = 36"

fun pack_fields :: "nat list \<Rightarrow> int list \<Rightarrow> bytes option" where
  "pack_fields [] [] = Some []"
| "pack_fields (n # ns) (v # vs) = (case (pack_signed n v, pack_fields ns vs) of (Some b, Some bs) \<Rightarrow> Some (b @ bs) | _ \<Rightarrow> None)"
| "pack_fields _ _ = None"

fun unpack_fields :: "nat list \<Rightarrow> bytes \<Rightarrow> int list" where
  "unpack_fields [] b = []"
| "unpack_fields (n # ns) b = unpack_signed (take n b) # unpack_fields ns (drop n b)"

text \<open>What the supervisor writes; \<open>None\<close> is a \<open>struct.error\<close>.\<close>

definition write_status :: "target_status \<Rightarrow> bytes option" where
  "write_status s = map_option (\<lambda>b. SUPERVISOR_MAGIC @ b)
     (pack_fields status_widths [st_wait s, st_exec s, st_cpu s, st_hard s, st_observed s, st_setup s])"

text \<open>How the pipe ends once its bytes are read: closed, silent beyond the deadline, or \<open>select\<close> failed.\<close>

datatype pipe_end = PipeClosed | PipeSilent | SelectFailed

definition read_target_status :: "(bytes \<times> pipe_end) option \<Rightarrow> bool \<Rightarrow> target_status option prs" where
  "read_target_status pipe required = (case pipe of
     None \<Rightarrow> if required then execution StatusPipeMissing else Inr None
   | Some (available, fin) \<Rightarrow>
       (if length available < status_size \<and> fin = PipeSilent then execution StatusUnfinished
        else if length available < status_size \<and> fin = SelectFailed then execution StatusUnreadable
        else (let payload = take (status_size + 1) available in
          if payload = [] \<and> \<not> required then Inr None
          else if length payload \<noteq> status_size \<or> take 4 payload \<noteq> SUPERVISOR_MAGIC then execution StatusInvalid
          else (case unpack_fields status_widths (drop 4 payload) of
                  [w, e, c, h, o', u] \<Rightarrow> Inr (Some \<lparr>st_wait = w, st_exec = e, st_cpu = c, st_hard = h, st_observed = o', st_setup = u\<rparr>)
                | _ \<Rightarrow> execution StatusInvalid))))"

section \<open>The result\<close>

text \<open>\<open>os.waitstatus_to_exitcode\<close> of a nonnegative status.\<close>

definition waitstatus_to_exitcode :: "int \<Rightarrow> int prs" where
  "waitstatus_to_exitcode s =
     (let sig = s mod 128 in
      if sig = 0 then Inr ((s div 256) mod 256)
      else if sig = 127 then Inl WaitStatusValueError else Inr (- sig))"

record process_result =
  pr_stdout :: bytes
  pr_stderr :: bytes
  pr_exit_code :: "int option"
  pr_signal :: "int option"
  pr_elapsed_ms :: int
  pr_ending :: ending
  pr_stdout_exceeded :: bool
  pr_stderr_exceeded :: bool
  pr_stdout_secret :: bool
  pr_stderr_secret :: bool
  pr_limit :: "limit_name option"
  pr_value :: "int option"
  pr_observed :: "int option"
  pr_provenance :: "provenance option"
  pr_inconclusive :: nat

text \<open>A finished run: its captures, tracker, status record, the owner's own return code and the clock.\<close>

record finished_run =
  fr_stdout :: "capture option"
  fr_stderr :: "capture option"
  fr_tracker :: "(tracker \<times> limit_state) option"
  fr_status :: "target_status option"
  fr_returncode :: "int option"
  fr_started :: rat
  fr_finished :: rat

definition collect_streams :: "bool \<Rightarrow> finished_run \<Rightarrow> (capture \<times> capture) prs" where
  "collect_streams abnormal fr = (case (fr_stdout fr, fr_stderr fr) of
     (Some out, Some err) \<Rightarrow>
       (if bc_error out \<and> \<not> abnormal then execution (StreamUnreadable ''stdout'')
        else if bc_error err \<and> \<not> abnormal then execution (StreamUnreadable ''stderr'')
        else Inr (out, err))
   | _ \<Rightarrow> execution CapturesMissing)"

text \<open>The return code of the target, and the limits after its accounted processor time.\<close>

definition target_returncode ::
    "bool \<Rightarrow> process_request \<Rightarrow> bool \<Rightarrow> finished_run \<Rightarrow> (int option \<times> (tracker \<times> limit_state) option) prs" where
  "target_returncode linux q abnormal fr =
     (if \<not> linux then Inr (fr_returncode fr, fr_tracker fr)
      else case fr_status fr of
        None \<Rightarrow> if abnormal then Inr (None, fr_tracker fr) else execution NoTargetStatus
      | Some s \<Rightarrow>
          (if st_setup s \<noteq> 0 then execution (SetupFailed (st_setup s))
           else if st_exec s \<noteq> 0 then execution (ExecFailed (st_exec s))
           else bindE (waitstatus_to_exitcode (st_wait s)) (\<lambda>rc.
             Inr (Some rc, map_option (\<lambda>(t, st).
               (t, case Option.bind (pq_limits q) pl_cpu_seconds of
                     Some c \<Rightarrow> if c * 1000000 \<le> st_cpu s
                       then set_sampled (tk_limits t) CpuLimit (st_cpu s div 1000000) st else st
                   | None \<Rightarrow> st)) (fr_tracker fr)))))"

definition hard_name :: "int \<Rightarrow> limit_name prs" where
  "hard_name code =
     (if code = 1 then Inr MemoryLimit else if code = 2 then Inr ProcessesLimit
      else if code = 3 then Inr FileBytesLimit else if code = 4 then Inr FileCountLimit
      else execution (UnknownHardEvent code))"

definition hard_value :: "process_request \<Rightarrow> limit_name \<Rightarrow> int prs" where
  "hard_value q name = (case (name, pq_guard q, pq_scratch q) of
     (MemoryLimit, Some g, _) \<Rightarrow> Inr (lg_memory g)
   | (ProcessesLimit, Some g, _) \<Rightarrow> Inr (lg_processes g)
   | (FileBytesLimit, _, Some sc) \<Rightarrow> physical_limit sc name
   | (FileCountLimit, _, Some sc) \<Rightarrow> physical_limit sc name
   | _ \<Rightarrow> execution UnconfiguredHardEvent)"

text \<open>The evidence of the result; a hard event the supervisor recorded replaces what the tracker has.\<close>

definition evidence_with_status ::
    "bool \<Rightarrow> process_request \<Rightarrow> target_status option \<Rightarrow> (tracker \<times> limit_state) option \<Rightarrow> limit_state prs" where
  "evidence_with_status linux q status tr =
     (let st = (case tr of None \<Rightarrow> new_limit_state | Some (t, st) \<Rightarrow> st);
          limits = (case tr of None \<Rightarrow> None | Some (t, st) \<Rightarrow> tk_limits t)
      in case status of
        None \<Rightarrow> Inr st
      | Some s \<Rightarrow>
          (if \<not> linux \<or> st_hard s = 0 then Inr st
           else bindE (hard_name (st_hard s)) (\<lambda>name.
                bindE (hard_value q name) (\<lambda>v.
                  Inr (set_resource_limit limits name HardGuard (Some (st_observed s)) True (Some v) st)))))"

definition render_result ::
    "bool \<Rightarrow> process_request \<Rightarrow> ending \<Rightarrow> bool \<Rightarrow> finished_run \<Rightarrow> process_result prs" where
  "render_result linux q ending abnormal fr =
     bindE (collect_streams abnormal fr) (\<lambda>(out, err).
     bindE (target_returncode linux q abnormal fr) (\<lambda>(rc, tr).
     bindE (evidence_with_status linux q (fr_status fr) tr) (\<lambda>st.
     let e1 = (if ls_limit st \<noteq> None then ResourceLimit else ending);
         negative = (case rc of None \<Rightarrow> False | Some n \<Rightarrow> n < 0);
         e2 = (if e1 = Exited \<and> negative then Signalled else e1)
     in Inr \<lparr>pr_stdout = fst (rendered out), pr_stderr = fst (rendered err),
              pr_exit_code = (if e2 = Exited \<and> \<not> negative then rc else None),
              pr_signal = (if negative then map_option uminus rc else None),
              pr_elapsed_ms = max 0 \<lfloor>(fr_finished fr - fr_started fr) * 1000\<rfloor>, pr_ending = e2,
              pr_stdout_exceeded = bc_exceeded out, pr_stderr_exceeded = bc_exceeded err,
              pr_stdout_secret = snd (rendered out), pr_stderr_secret = snd (rendered err),
              pr_limit = ls_limit st, pr_value = ls_value st, pr_observed = ls_observed st,
              pr_provenance = ls_provenance st,
              pr_inconclusive = (case tr of None \<Rightarrow> 0 | Some (t, s) \<Rightarrow> ls_inconclusive s)\<rparr>)))"

end
