(* ===== verification/Process_Launch.thy ===== *)
theory Process_Launch
  imports Process_Run
begin

text \<open>
  src/measure_twice/agent_bench/process.py, the host side: the records read from /proc, the argument vector that
  the owner builds and the supervisor takes apart, the bounds of the private tmpfs, the supervisor's accounting,
  the wait for the scope to be collected, and the one-shot run of a request around all of it.
\<close>

section \<open>Records of /proc\<close>

datatype proc_read = ProcText string | ProcMissing | ProcUnreadable

definition stat_fields_of :: "string \<Rightarrow> string list option" where
  "stat_fields_of raw = (if CHR 0x29 \<notin> set raw then None
     else Some (split_words (drop 1 (rev (takeWhile (\<lambda>c. c \<noteq> CHR 0x29) (rev raw))))))"

definition pid_stat_fields :: "proc_read \<Rightarrow> string list option" where
  "pid_stat_fields r = (case r of ProcText raw \<Rightarrow> stat_fields_of raw | _ \<Rightarrow> None)"

text \<open>\<open>int(fields[i])\<close>.\<close>

definition int_field :: "string list \<Rightarrow> nat \<Rightarrow> int option" where
  "int_field fs i = (if i < length fs then python_int (fs ! i) else None)"

definition pid_starttime :: "proc_read \<Rightarrow> int option" where
  "pid_starttime r = Option.bind (pid_stat_fields r) (\<lambda>fs. int_field fs 19)"

definition pid_state :: "proc_read \<Rightarrow> string option" where
  "pid_state r = (case pid_stat_fields r of None \<Rightarrow> None | Some [] \<Rightarrow> None | Some (f # fs) \<Rightarrow> Some f)"

definition pid_exit_record :: "proc_read \<Rightarrow> (int \<times> char) option prs" where
  "pid_exit_record r = (case r of
     ProcMissing \<Rightarrow> Inr None
   | ProcUnreadable \<Rightarrow> execution OwnerStatUnreadable
   | ProcText raw \<Rightarrow>
       (case stat_fields_of raw of
          None \<Rightarrow> execution OwnerStatMalformed
        | Some fs \<Rightarrow>
            (case (fs, int_field fs 19) of
               (state # _, Some start) \<Rightarrow> (case state of [c] \<Rightarrow> Inr (Some (start, c)) | _ \<Rightarrow> execution OwnerStateMalformed)
             | _ \<Rightarrow> execution OwnerStatMalformed)))"

fun parse_ints :: "string list \<Rightarrow> int list option" where
  "parse_ints [] = Some []"
| "parse_ints (w # ws) = (case (python_int w, parse_ints ws) of (Some n, Some ns) \<Rightarrow> Some (n # ns) | _ \<Rightarrow> None)"

definition pid_namespace_chain :: "proc_read \<Rightarrow> int list option" where
  "pid_namespace_chain r = (case r of
     ProcText t \<Rightarrow>
       (case filter (prefix ''NSpid:'') (splitlines t) of
          [] \<Rightarrow> None
        | l # _ \<Rightarrow>
            (case parse_ints (tl (split_words l)) of
               None \<Rightarrow> None
             | Some ns \<Rightarrow> if ns = [] \<or> list_ex (\<lambda>n. n \<le> 0) ns then None else Some ns))
   | _ \<Rightarrow> None)"

definition pid_unified_cgroup :: "proc_read \<Rightarrow> string option" where
  "pid_unified_cgroup r = (case r of
     ProcText t \<Rightarrow>
       (case map (drop 3) (filter (prefix ''0::'') (splitlines t)) of
          [p] \<Rightarrow> if prefix ''/'' p then Some p else None
        | _ \<Rightarrow> None)
   | _ \<Rightarrow> None)"

definition pid_process_group :: "proc_read \<Rightarrow> int option" where
  "pid_process_group r = Option.bind (pid_stat_fields r) (\<lambda>fs. int_field fs 2)"

definition pid_cpu_ticks :: "proc_read \<Rightarrow> int option" where
  "pid_cpu_ticks r = Option.bind (pid_stat_fields r) (\<lambda>fs.
     case (int_field fs 11, int_field fs 12, int_field fs 13, int_field fs 14) of
       (Some a, Some b, Some c, Some d) \<Rightarrow> Some (a + b + c + d) | _ \<Rightarrow> None)"

definition pid_resident_bytes :: "proc_read \<Rightarrow> int option \<Rightarrow> int option" where
  "pid_resident_bytes r page_size = (case r of
     ProcText t \<Rightarrow> (case (int_field (split_words t) 1, page_size) of (Some n, Some k) \<Rightarrow> Some (n * k) | _ \<Rightarrow> None)
   | _ \<Rightarrow> None)"

text \<open>The view of one member, from its records read in the code's order.\<close>

definition view_of :: "proc_read \<Rightarrow> proc_read \<Rightarrow> proc_read \<Rightarrow> proc_read \<Rightarrow> member_view" where
  "view_of stat1 status cgroup stat2 = \<lparr>mv_before = pid_starttime stat1, mv_chain = pid_namespace_chain status,
     mv_cgroup = pid_unified_cgroup cgroup, mv_after = pid_starttime stat2\<rparr>"

section \<open>The argument vector of the supervisor\<close>

text \<open>\<open>str\<close> of an integer: beyond the limit on digits it raises.\<close>

definition py_str :: "int \<Rightarrow> string prs" where
  "py_str i = (if \<bar>i\<bar> < 10 ^ int_max_str_digits then Inr (show_int i) else Inl IntegerTooLong)"

fun py_strs :: "int list \<Rightarrow> string list prs" where
  "py_strs [] = Inr []"
| "py_strs (i # is) = bindE (py_str i) (\<lambda>s. bindE (py_strs is) (\<lambda>ss. Inr (s # ss)))"

definition EVALUATOR_WORKSPACE_FD_TOKEN :: string where
  "EVALUATOR_WORKSPACE_FD_TOKEN = ''__measure_twice_evaluator_workspace_fd__''"

definition fd_path :: "capability \<Rightarrow> string" where "fd_path c = ''/proc/self/fd/'' @ show_nat c"

definition or_minus_one :: "int option \<Rightarrow> int" where
  "or_minus_one v = (case v of None \<Rightarrow> -1 | Some n \<Rightarrow> n)"

definition launch_numbers :: "process_request \<Rightarrow> capability \<Rightarrow> capability \<Rightarrow> int \<Rightarrow> int list" where
  "launch_numbers q target status control =
     [int status, int target, control, if pq_guard q \<noteq> None then 1 else 0, int (length (pq_environment q)),
      or_minus_one (Option.bind (pq_limits q) pl_file_bytes), or_minus_one (Option.bind (pq_limits q) pl_open_files),
      or_minus_one (map_option lg_memory (pq_guard q)), or_minus_one (map_option lg_processes (pq_guard q)),
      or_minus_one (map_option lg_cpu (pq_guard q)), or_minus_one (map_option es_tmpfs_bytes (pq_scratch q)),
      or_minus_one (map_option es_tmpfs_inodes (pq_scratch q))]"

text \<open>\<open>code\<close> is the text of the supervisor.\<close>

definition linux_launch_argv ::
    "string \<Rightarrow> process_request \<Rightarrow> capability \<Rightarrow> int \<Rightarrow> string \<Rightarrow> string list prs" where
  "linux_launch_argv code q status control scope =
     (case (qc_namespace (pq_capabilities q), qc_supervisor (pq_capabilities q), qc_executable (pq_capabilities q)) of
        (Some namespace, Some supervisor, Some target) \<Rightarrow>
          bindE (checkE ((pq_guard q = None) = (pq_scratch q = None)) (ProcessContract IncompleteGuardState)) (\<lambda>_.
          bindE (checkE (\<not> (pq_guard q = None \<and> EVALUATOR_WORKSPACE_FD_TOKEN \<in> set (pq_argv q)))
            (ProcessContract TokenWithoutGuard)) (\<lambda>_.
          bindE (py_strs (launch_numbers q target status control)) (\<lambda>ns.
            Inr ([fd_path namespace, ''--user'', ''--map-root-user'', ''--mount'', ''--pid'', ''--mount-proc=/proc'',
                  ''--fork'', ''--kill-child=KILL'', ''--'', fd_path supervisor, ''-I'', ''-c'', code] @ ns @ [scope] @
                 concat (map (\<lambda>(n, v). [n, v]) (pq_environment q)) @ pq_argv q))))
      | _ \<Rightarrow> contract CapabilitiesMissing)"

definition systemd_scope_argv :: "process_request \<Rightarrow> string list \<Rightarrow> string \<Rightarrow> string list prs" where
  "systemd_scope_argv q unshare scope =
     (case (qc_systemd_run (pq_capabilities q), pq_guard q) of
        (Some systemd_run, Some g) \<Rightarrow>
          Inr ([fd_path systemd_run, ''--user'', ''--scope'', ''--collect'', ''--quiet'', ''--unit='' @ scope,
                ''--slice=app.slice'', ''--property=Delegate=yes'', ''--property=MemoryMax='' @ show_int (lg_memory g),
                ''--property=MemorySwapMax=0'', ''--property=TasksMax='' @ show_int (lg_processes g),
                ''--property=CPUQuota='' @ show_int (lg_cpu g) @ ''%'', ''--''] @ unshare)
      | _ \<Rightarrow> contract SystemdRunMissing)"

definition systemd_bus_environment :: "nat option \<Rightarrow> (string \<times> string) list prs" where
  "systemd_bus_environment uid = (case uid of
     None \<Rightarrow> execution NoPosixUser
   | Some u \<Rightarrow> (let d = ''/run/user/'' @ show_nat u in
       Inr [(''XDG_RUNTIME_DIR'', d), (''DBUS_SESSION_BUS_ADDRESS'', ''unix:path='' @ d @ ''/bus'')]))"

definition expected_scope_relative_path :: "nat option \<Rightarrow> string \<Rightarrow> string prs" where
  "expected_scope_relative_path uid scope = (case uid of
     None \<Rightarrow> execution NoPosixUser
   | Some u \<Rightarrow> Inr (''/user.slice/user-'' @ show_nat u @ ''.slice/user@'' @ show_nat u @ ''.service/app.slice/'' @ scope @
       ''.scope''))"

definition launch_capabilities :: "request_capabilities \<Rightarrow> capability list" where
  "launch_capabilities q = concat (map (\<lambda>c. case c of None \<Rightarrow> [] | Some x \<Rightarrow> [x])
     [qc_cwd q, qc_executable q, qc_namespace q, qc_supervisor q, qc_systemd_run q]) @ qc_inherited q"

record supervisor_arguments =
  sv_status :: int
  sv_target :: int
  sv_control :: int
  sv_guard :: bool
  sv_file_size :: int
  sv_open_files :: int
  sv_memory :: int
  sv_processes :: int
  sv_cpu :: int
  sv_tmpfs_bytes :: int
  sv_tmpfs_inodes :: int
  sv_cgroup :: string
  sv_environment :: "string \<Rightarrow> string option"
  sv_argv :: "string list"

text \<open>A slice from index 14, whose end may lie beyond the list or be negative; \<open>zip\<close> of its even and odd items.\<close>

definition slice_end :: "int \<Rightarrow> nat \<Rightarrow> nat" where
  "slice_end i n = (if i < 0 then nat (max 0 (i + int n)) else min (nat i) n)"

fun pair_up :: "string list \<Rightarrow> (string \<times> string) list option" where
  "pair_up [] = Some []"
| "pair_up [x] = None"
| "pair_up (x # y # zs) = map_option (\<lambda>ps. (x, y) # ps) (pair_up zs)"

text \<open>The head of the supervisor, on its \<open>sys.argv\<close>; \<open>None\<close> is an uncaught exception.\<close>

definition parse_supervisor_argv :: "string list \<Rightarrow> supervisor_arguments option" where
  "parse_supervisor_argv av =
     (if length av < 14 then None
      else case parse_ints (take 12 (drop 1 av)) of
        Some [status, target, control, guard, n, fsize, ofiles, memory, processes, cpu, tbytes, tinodes] \<Rightarrow>
          (let e = slice_end (14 + n * 2) (length av) in
           case pair_up (take (e - 14) (drop 14 av)) of
             None \<Rightarrow> None
           | Some ps \<Rightarrow>
               Some \<lparr>sv_status = status, sv_target = target, sv_control = control, sv_guard = guard \<noteq> 0,
                 sv_file_size = fsize, sv_open_files = ofiles, sv_memory = memory, sv_processes = processes,
                 sv_cpu = cpu, sv_tmpfs_bytes = tbytes, sv_tmpfs_inodes = tinodes, sv_cgroup = av ! 13,
                 sv_environment = map_of (rev ps), sv_argv = drop e av\<rparr>)
      | _ \<Rightarrow> None)"

text \<open>The target's own vector: the token stands for the number of the scratch directory.\<close>

definition target_argv :: "int \<Rightarrow> string list \<Rightarrow> string list" where
  "target_argv scratch_fd av = (if 0 \<le> scratch_fd
     then map (\<lambda>v. if v = EVALUATOR_WORKSPACE_FD_TOKEN then show_int scratch_fd else v) av else av)"

section \<open>The private tmpfs\<close>

text \<open>What \<open>fstatvfs\<close> gives, and the page size; \<open>None\<close> when one of them fails.\<close>

record tmpfs_counts =
  tc_blocks :: int
  tc_frsize :: int
  tc_bavail :: int
  tc_files :: int
  tc_ffree :: int

definition validate_evaluator_tmpfs ::
    "bool \<Rightarrow> (tmpfs_counts \<times> int) option \<Rightarrow> scratch \<Rightarrow> unit prs \<times> scratch" where
  "validate_evaluator_tmpfs is_tmpfs inspected sc =
     (if \<not> is_tmpfs then (execution NotATmpfs, sc)
      else case inspected of
        None \<Rightarrow> (execution TmpfsUninspectable, sc)
      | Some (v, page) \<Rightarrow>
          (let capacity = tc_blocks v * tc_frsize v;
               configured = (es_tmpfs_bytes sc + page - 1) div page * page
           in if capacity < evaluator_tmpfs_minimum_bytes (es_byte_limit sc) (es_file_limit sc) \<or> configured < capacity
              then (execution TmpfsBoundMismatch, sc)
              else if tc_files v < es_file_limit sc + EVALUATOR_DIRECTORY_ALLOWANCE \<or> es_tmpfs_inodes sc < tc_files v
              then (execution TmpfsBoundMismatch, sc)
              else record_backing_bounds capacity (tc_files v) sc))"

section \<open>The supervisor's accounting\<close>

text \<open>
  The supervisor is a program of its own, with its own readers of the control files.  An exception is the value of its
  attribute \<open>errno\<close>, \<open>None\<close> for an exception that has none; \<open>code\<close> gives the error number of a control file that
  cannot be opened or read.
\<close>

type_synonym 'a svr = "(int option, 'a) res"

definition EPERM :: int where "EPERM = 1"
definition EIO :: int where "EIO = 5"
definition EINVAL :: int where "EINVAL = 22"

text \<open>\<open>getattr(exc, "errno", None) or errno.EIO\<close>.\<close>

definition exception_errno :: "int option \<Rightarrow> int" where
  "exception_errno e = (case e of None \<Rightarrow> EIO | Some n \<Rightarrow> if n = 0 then EIO else n)"

definition sv_read_at :: "(string \<Rightarrow> int) \<Rightarrow> controls \<Rightarrow> string \<Rightarrow> string svr" where
  "sv_read_at code ctl name = (case ctl name of
     Control t \<Rightarrow> Inr t | NoControl _ \<Rightarrow> Inl (Some (code name)) | ControlBinary \<Rightarrow> Inl None)"

fun sv_counters_from :: "string list \<Rightarrow> (string \<Rightarrow> int option) \<Rightarrow> (string \<Rightarrow> int option) svr" where
  "sv_counters_from [] values = Inr values"
| "sv_counters_from (l # ls) values = (case split_once l of
     [key, raw] \<Rightarrow>
       (case python_int raw of None \<Rightarrow> Inl None | Some v \<Rightarrow> sv_counters_from ls (values(key \<mapsto> v)))
   | _ \<Rightarrow> Inl None)"

definition sv_counter_map :: "(string \<Rightarrow> int) \<Rightarrow> controls \<Rightarrow> string \<Rightarrow> (string \<Rightarrow> int option) svr" where
  "sv_counter_map code ctl name = bindE (sv_read_at code ctl name) (\<lambda>t. sv_counters_from (splitlines t) Map.empty)"

definition sv_required_counter :: "(string \<Rightarrow> int option) \<Rightarrow> string \<Rightarrow> int svr" where
  "sv_required_counter values key = (case values key of
     None \<Rightarrow> Inl (Some EPERM) | Some v \<Rightarrow> if v < 0 then Inl (Some EPERM) else Inr v)"

text \<open>The \<open>ValueError\<close> of a file that is no ASCII is caught with that of a malformed number.\<close>

definition sv_nonnegative_value :: "(string \<Rightarrow> int) \<Rightarrow> controls \<Rightarrow> string \<Rightarrow> int svr" where
  "sv_nonnegative_value code ctl name = (case sv_read_at code ctl name of
     Inl None \<Rightarrow> Inl (Some EPERM)
   | Inl (Some n) \<Rightarrow> Inl (Some n)
   | Inr t \<Rightarrow>
       (case python_int (strip t) of
          None \<Rightarrow> Inl (Some EPERM)
        | Some v \<Rightarrow> if v < 0 then Inl (Some EPERM) else Inr v))"

definition sv_verify_controls :: "(string \<Rightarrow> int) \<Rightarrow> controls \<Rightarrow> supervisor_arguments \<Rightarrow> unit svr" where
  "sv_verify_controls code ctl a =
     bindE (sv_read_at code ctl ''memory.max'') (\<lambda>t.
     bindE (checkE (strip t = show_int (sv_memory a)) (Some EPERM)) (\<lambda>_.
     bindE (sv_read_at code ctl ''memory.swap.max'') (\<lambda>t.
     bindE (checkE (strip t = ''0'') (Some EPERM)) (\<lambda>_.
     bindE (sv_read_at code ctl ''pids.max'') (\<lambda>t.
     bindE (checkE (strip t = show_int (sv_processes a)) (Some EPERM)) (\<lambda>_.
     bindE (sv_read_at code ctl ''cpu.max'') (\<lambda>t.
     case split_words t of
       [q, p] \<Rightarrow>
         (if q = ''max'' then Inl (Some EPERM)
          else case (python_int q, python_int p) of
            (Some quota, Some period) \<Rightarrow>
              checkE (0 < quota \<and> 0 < period \<and> quota * 100 = sv_cpu a * period) (Some EPERM)
          | _ \<Rightarrow> Inl None)
     | _ \<Rightarrow> Inl (Some EPERM))))))))"

text \<open>What the supervisor keeps from before the release; \<open>located\<close> is the opening of its own cgroup directory.\<close>

record baseline =
  bl_memory :: "string \<Rightarrow> int option"
  bl_pids :: "string \<Rightarrow> int option"
  bl_cpu :: int

definition supervisor_baseline ::
    "(string \<Rightarrow> int) \<Rightarrow> supervisor_arguments \<Rightarrow> unit svr \<Rightarrow> controls \<Rightarrow> baseline svr" where
  "supervisor_baseline code a located ctl =
     bindE (checkE (0 \<le> sv_control a \<and> 0 < sv_memory a \<and> 0 < sv_processes a \<and> 0 < sv_cpu a \<and> 0 < sv_tmpfs_bytes a \<and>
       0 < sv_tmpfs_inodes a \<and> sv_cgroup a \<noteq> []) (Some EINVAL)) (\<lambda>_.
     bindE located (\<lambda>_.
     bindE (sv_verify_controls code ctl a) (\<lambda>_.
     bindE (sv_counter_map code ctl ''memory.events'') (\<lambda>m.
     bindE (sv_counter_map code ctl ''pids.events'') (\<lambda>p.
     bindE (sv_required_counter m ''max'') (\<lambda>_.
     bindE (sv_required_counter m ''oom_kill'') (\<lambda>_.
     bindE (sv_required_counter p ''max'') (\<lambda>_.
     bindE (bindE (sv_counter_map code ctl ''cpu.stat'') (\<lambda>cs. sv_required_counter cs ''usage_usec'')) (\<lambda>u.
     bindE (sv_nonnegative_value code ctl ''memory.peak'') (\<lambda>_.
     bindE (sv_nonnegative_value code ctl ''pids.peak'') (\<lambda>_.
       Inr \<lparr>bl_memory = m, bl_pids = p, bl_cpu = u\<rparr>)))))))))))"

text \<open>\<open>scratch\<close> is what \<open>fstatvfs\<close> of the scratch gives, if there is one.\<close>

definition supervisor_hard ::
    "(string \<Rightarrow> int) \<Rightarrow> controls \<Rightarrow> baseline \<Rightarrow> tmpfs_counts svr option \<Rightarrow> (int \<times> int) svr" where
  "supervisor_hard code ctl bl scratch =
     bindE (sv_counter_map code ctl ''memory.events'') (\<lambda>m.
     bindE (sv_counter_map code ctl ''pids.events'') (\<lambda>p.
     bindE (sv_required_counter m ''max'') (\<lambda>max1.
     bindE (sv_required_counter m ''oom_kill'') (\<lambda>oom1.
     bindE (sv_required_counter p ''max'') (\<lambda>p1.
     bindE (sv_required_counter (bl_memory bl) ''max'') (\<lambda>max0.
     bindE (sv_required_counter (bl_memory bl) ''oom_kill'') (\<lambda>oom0.
     bindE (sv_required_counter (bl_pids bl) ''max'') (\<lambda>p0.
     if 0 < max (max1 - max0) (oom1 - oom0)
     then bindE (sv_nonnegative_value code ctl ''memory.peak'') (\<lambda>v. Inr (1, v))
     else if 0 < p1 - p0 then bindE (sv_nonnegative_value code ctl ''pids.peak'') (\<lambda>v. Inr (2, v))
     else (case scratch of
        None \<Rightarrow> Inr (0, 0)
      | Some r \<Rightarrow> bindE r (\<lambda>v.
          Inr (if tc_bavail v \<le> 0 then (3, tc_blocks v * tc_frsize v)
               else if tc_ffree v \<le> 0 then (4, tc_files v) else (0, 0))))))))))))"

definition supervisor_status ::
    "(string \<Rightarrow> int) \<Rightarrow> bool \<Rightarrow> controls \<Rightarrow> baseline \<Rightarrow> tmpfs_counts svr option \<Rightarrow> int \<Rightarrow> int \<Rightarrow> int \<Rightarrow> int
       \<Rightarrow> target_status" where
  "supervisor_status code guarded ctl bl scratch waited exec_error setup_error cpu =
     (let start = \<lparr>st_wait = waited, st_exec = exec_error, st_cpu = cpu, st_hard = 0, st_observed = 0, st_setup = setup_error\<rparr> in
      if \<not> guarded then start
      else case supervisor_hard code ctl bl scratch of
        Inl e \<Rightarrow> start\<lparr>st_setup := exception_errno e\<rparr>
      | Inr (h, v) \<Rightarrow>
          (let found = start\<lparr>st_hard := h, st_observed := v\<rparr> in
           case bindE (sv_counter_map code ctl ''cpu.stat'') (\<lambda>cs. sv_required_counter cs ''usage_usec'') of
             Inl e \<Rightarrow> found\<lparr>st_setup := exception_errno e\<rparr>
           | Inr u \<Rightarrow> found\<lparr>st_cpu := max 0 (u - bl_cpu bl)\<rparr>))"

definition supervisor_exit :: "int \<Rightarrow> int prs" where
  "supervisor_exit waited = bindE (waitstatus_to_exitcode waited) (\<lambda>c. Inr (if 0 \<le> c then c else 128 - c))"

section \<open>The collection of the scope\<close>

text \<open>What opening the path of the scope gives; an identity is a device and an inode, \<open>None\<close> if it cannot be read.\<close>

datatype scope_open = ScopeMissing | ScopeOpenFailed | ScopeOpened "(int \<times> int) option"

definition exact_scope_is_absent :: "scope_open \<Rightarrow> int \<times> int \<Rightarrow> bool prs" where
  "exact_scope_is_absent r expected = (case r of
     ScopeMissing \<Rightarrow> Inr True
   | ScopeOpenFailed \<Rightarrow> execution ScopeUninspectable
   | ScopeOpened None \<Rightarrow> execution ScopeUninspectable
   | ScopeOpened (Some i) \<Rightarrow> if i \<noteq> expected then execution ScopeReplaced else Inr False)"

definition scope_absent :: "(int \<times> int) option \<Rightarrow> scope_open \<Rightarrow> bool prs" where
  "scope_absent expected r = (case expected of
     Some i \<Rightarrow> exact_scope_is_absent r i
   | None \<Rightarrow> (case r of ScopeMissing \<Rightarrow> Inr True | ScopeOpenFailed \<Rightarrow> execution ScopeUninspectable | ScopeOpened _ \<Rightarrow> Inr False))"

text \<open>One round: what the path gave, and the clock the first and the second time it is read after that.\<close>

record scope_probe =
  pb_open :: scope_open
  pb_first :: rat
  pb_second :: rat

definition REAP_TIMEOUT_S :: rat where "REAP_TIMEOUT_S = 5"

fun wait_for_scope_collection ::
    "(int \<times> int) option \<Rightarrow> rat \<Rightarrow> rat option \<Rightarrow> scope_probe list \<Rightarrow> unit prs option" where
  "wait_for_scope_collection expected deadline since [] = None"
| "wait_for_scope_collection expected deadline since (p # ps) =
     (case scope_absent expected (pb_open p) of
        Inl e \<Rightarrow> Some (Inl e)
      | Inr True \<Rightarrow>
          (if expected \<noteq> None then Some (Inr ())
           else case since of
             None \<Rightarrow>
               (if pb_first p + REAP_TIMEOUT_S \<le> pb_second p then Some (Inr ())
                else wait_for_scope_collection expected deadline (Some (pb_first p + REAP_TIMEOUT_S)) ps)
           | Some s \<Rightarrow>
               (if s \<le> pb_first p then Some (Inr ()) else wait_for_scope_collection expected deadline (Some s) ps))
      | Inr False \<Rightarrow>
          (if deadline \<le> pb_first p then Some (execution ScopeNotCollected)
           else wait_for_scope_collection expected deadline None ps))"

section \<open>Running a request\<close>

text \<open>
  The phases of a run and what they give: starting, initialising, waiting; the cleanup (told whether the end is
  abnormal), which is left by an exception or comes to its end with the first error it collected; whether the monitor
  thread is still alive at that end; the tree of the scratch the supervisor sent; the scratch as the phases leave it; and
  the record of the finished run.
\<close>

record phases =
  ph_start :: "unit prs"
  ph_initialize :: "unit prs"
  ph_wait :: "(ending \<times> bool) prs"
  ph_cleanup :: "bool \<Rightarrow> process_exn option prs"
  ph_monitor_alive :: bool
  ph_scratch_tree :: "capability option"
  ph_scratch :: "scratch option"
  ph_finished :: finished_run

definition after_run :: "phases \<Rightarrow> process_request \<Rightarrow> process_request" where
  "after_run ph q = q\<lparr>pq_scratch := ph_scratch ph\<rparr>"

text \<open>
  The end of the cleanup.  A monitor thread that is alive was alive after its join, the first error the cleanup collects;
  the tree it may still be reading, of the scratch or else of the request, is given up and not closed.
\<close>

definition end_of_cleanup ::
    "(capability \<Rightarrow> bool) \<Rightarrow> process_request \<Rightarrow> phases \<Rightarrow> process_exn option \<Rightarrow> capability set
       \<Rightarrow> unit prs \<times> capability list \<times> capability set" where
  "end_of_cleanup fails q ph first gone =
     (if ph_monitor_alive ph
      then (execution MonitorNotStopped, [],
            case (case ph_scratch_tree ph of Some c \<Rightarrow> Some c | None \<Rightarrow> qc_tree (pq_capabilities q)) of
              None \<Rightarrow> gone | Some c \<Rightarrow> abandon c gone)
      else let raised = (case first of None \<Rightarrow> Inr () | Some e \<Rightarrow> Inl e) in
        case ph_scratch_tree ph of
          None \<Rightarrow> (raised, [], gone)
        | Some c \<Rightarrow>
            (case close_capability fails c gone of
               (Inl e, shut, gone1) \<Rightarrow> (Inl e, shut, gone1)
             | (Inr _, shut, gone1) \<Rightarrow> (raised, shut, gone1)))"

definition cleanup_process ::
    "(capability \<Rightarrow> bool) \<Rightarrow> process_request \<Rightarrow> phases \<Rightarrow> bool \<Rightarrow> capability set
       \<Rightarrow> unit prs \<times> capability list \<times> capability set" where
  "cleanup_process fails q ph abnormal gone = (case ph_cleanup ph abnormal of
     Inl e \<Rightarrow> (Inl e, [], gone)
   | Inr first \<Rightarrow> end_of_cleanup fails q ph first gone)"

definition run_process_owned ::
    "bool \<Rightarrow> bool \<Rightarrow> bool \<Rightarrow> (capability \<Rightarrow> bool) \<Rightarrow> process_request \<Rightarrow> phases \<Rightarrow> capability set
       \<Rightarrow> process_result prs \<times> capability list \<times> capability set" where
  "run_process_owned linux posix cwd_is_dir fails q ph gone =
     (case bindE (checkE (linux \<or> cwd_is_dir) (ProcessContract CwdNotDirectory)) (\<lambda>_.
           bindE (checkE (pq_limits q = None \<or> posix) (ProcessContract NoPosixHost)) (\<lambda>_. ph_start ph)) of
        Inl e \<Rightarrow> (Inl e, [], gone)
      | Inr _ \<Rightarrow>
          (let waited = bindE (ph_initialize ph) (\<lambda>_. ph_wait ph);
               abnormal = (case waited of Inl _ \<Rightarrow> True | Inr (_, a) \<Rightarrow> a)
           in case cleanup_process fails q ph abnormal gone of (cleaned, shut, gone1) \<Rightarrow>
                (bindE cleaned (\<lambda>_. bindE waited (\<lambda>(how, _).
                   render_result linux (after_run ph q) how abnormal (ph_finished ph))), shut, gone1)))"

text \<open>\<open>_run_process\<close>: claimed first, released whatever happens; an exception of the release replaces the result.\<close>

definition run_process ::
    "bool \<Rightarrow> bool \<Rightarrow> bool \<Rightarrow> (capability \<Rightarrow> bool) \<Rightarrow> phases \<Rightarrow> process_request \<times> request_ownership \<times> capability set
       \<Rightarrow> process_result prs \<times> capability list \<times> process_request \<times> request_ownership \<times> capability set" where
  "run_process linux posix cwd_is_dir fails ph x = (case x of (q, o', gone) \<Rightarrow>
     (case claim_request o' of
        (Inl e, o1) \<Rightarrow> (Inl e, [], q, o1, gone)
      | (Inr _, o1) \<Rightarrow>
          (case run_process_owned linux posix cwd_is_dir fails q ph gone of (r, shut, gone1) \<Rightarrow>
             (case release_request fails (after_run ph q) o1 gone1 of (freed, shut1, q2, o2, gone2) \<Rightarrow>
                (bindE freed (\<lambda>_. r), shut @ shut1, q2, o2, gone2)))))"

end
