(* ===== verification/Process_Facts.thy ===== *)
theory Process_Facts
  imports Process_Launch
begin

text \<open>
  What one run of a request keeps: a validated request, captures that do not depend on how the pipe cuts the
  stream, redaction and its gap at the cut, the bounded wait, the status record, the order of resource evidence,
  the result, and the ownership of the evaluator scratch.
\<close>

section \<open>A request that was accepted\<close>

lemma positive_int_Inr: "positive_int v l = Inr n \<longleftrightarrow> v = JInt n \<and> 0 < n"
  by (auto simp: positive_int_def split: json.splits)

lemma utf8_field_Inr: "utf8_field v l e = Inr s \<longleftrightarrow> v = JStr s \<and> (e \<or> s \<noteq> []) \<and> CHR 0x00 \<notin> set s"
  by (auto simp: utf8_field_def split: json.splits)

lemma utf8_bytes_Nil [simp]: "utf8_bytes s = [] \<longleftrightarrow> s = []"
  by (cases s) (simp_all add: utf8_bytes_def)

lemma validate_secrets_Inr:
  "validate_secrets i seen vs = Inr ss \<Longrightarrow> [] \<notin> set ss \<and> distinct (map utf8_bytes ss) \<and>
     set (map utf8_bytes ss) \<inter> set seen = {} \<and> list_all (\<lambda>s. length (utf8_bytes s) \<le> MAX_SECRET_BYTES) ss"
proof (induction vs arbitrary: i seen ss)
  case (Cons v vs)
  from Cons.prems obtain s rest where s: "utf8_field v ''secret'' False = Inr s" "length (utf8_bytes s) \<le> MAX_SECRET_BYTES"
      "utf8_bytes s \<notin> set seen" "validate_secrets (Suc i) (utf8_bytes s # seen) vs = Inr rest" "ss = s # rest"
    by (auto simp: bindE_Inr_iff checkE_Inr_iff)
  from Cons.IH [OF s(4)] s show ?case by (auto simp: utf8_field_Inr)
qed simp

lemma validate_environment_Inr:
  "validate_environment_from seen env = Inr vs \<Longrightarrow> distinct (map (casefold \<circ> fst) vs) \<and>
     set (map (casefold \<circ> fst) vs) \<inter> set seen = {}"
proof (induction env arbitrary: seen vs)
  case (Cons e env)
  obtain n v where e: "e = (n, v)" by (cases e)
  from Cons.prems obtain name val rest where s: "casefold name \<notin> set seen"
      "validate_environment_from (casefold name # seen) env = Inr rest" "vs = (name, val) # rest"
    by (auto simp: e bindE_Inr_iff checkE_Inr_iff)
  from Cons.IH [OF s(2)] s show ?case by auto
qed simp

lemma request_Inr:
  assumes "ProcessRequest_init ha linux argv stdin cwd env timeout sl secrets limits guard sc caps = Inr q"
  shows "[] \<notin> set (map utf8_bytes (pq_secrets q))" and "distinct (map utf8_bytes (pq_secrets q))"
    and "0 < pq_stream_limit q" and "(pq_guard q = None) = (pq_scratch q = None)"
    and "distinct (map (casefold \<circ> fst) (pq_environment q))"
proof -
  from assms obtain av si ev n sv where p: "validate_environment env = Inr ev" "positive_int sl ''stream_limit_bytes'' = Inr n"
      "validate_secrets 0 [] secrets = Inr sv" "(guard = None) = (sc = None)"
    and r: "\<lparr>pq_argv = av, pq_stdin = si, pq_cwd = cwd, pq_environment = ev, pq_timeout = timeout,
            pq_stream_limit = n, pq_secrets = sv, pq_limits = limits, pq_guard = guard, pq_scratch = sc,
            pq_capabilities = caps\<rparr> = q"
    unfolding ProcessRequest_init_def bindE_Inr_iff checkE_Inr_iff sum.inject by blast
  have q: "pq_secrets q = sv" "pq_stream_limit q = n" "pq_guard q = guard" "pq_scratch q = sc" "pq_environment q = ev"
    by (simp_all add: r [symmetric])
  show "[] \<notin> set (map utf8_bytes (pq_secrets q))" "distinct (map utf8_bytes (pq_secrets q))"
    using validate_secrets_Inr [OF p(3)] utf8_bytes_Nil by (auto simp: q) (metis utf8_bytes_Nil)
  show "0 < pq_stream_limit q" using p(2) by (simp add: positive_int_Inr q)
  show "(pq_guard q = None) = (pq_scratch q = None)" using p(4) by (simp add: q)
  show "distinct (map (casefold \<circ> fst) (pq_environment q))"
    using validate_environment_Inr p(1) unfolding validate_environment_def by (simp add: q)
qed

section \<open>Capturing a stream\<close>

definition lastn :: "nat \<Rightarrow> 'a list \<Rightarrow> 'a list" where
  "lastn n xs = drop (length xs - n) xs"

lemma suffix_lastn: "suffix ys xs \<Longrightarrow> length ys \<le> n \<Longrightarrow> suffix ys (lastn n xs)"
  by (auto simp: suffix_def lastn_def)

lemma lastn_append: "lastn n (lastn n xs @ ys) = lastn n (xs @ ys)"
proof (cases "n \<le> length xs")
  case True
  then show ?thesis by (simp add: lastn_def add.commute [of "length ys"])
qed (simp add: lastn_def)

lemma sublist_lastn: "sublist (lastn n xs) xs"
  by (simp add: lastn_def)

text \<open>A pattern of at most \<open>n + 1\<close> bytes is seen across the cut with the last \<open>n\<close> bytes kept.\<close>

lemma sublist_across:
  assumes "s \<noteq> []" and "length s \<le> Suc n"
  shows "sublist s (xs @ ys) \<longleftrightarrow> sublist s xs \<or> sublist s (lastn n xs @ ys)"
proof
  assume "sublist s (xs @ ys)"
  then consider "sublist s xs" | "sublist s ys" | a b where "s = a @ b" "suffix a xs" "prefix b ys"
    by (auto simp: sublist_append)
  then show "sublist s xs \<or> sublist s (lastn n xs @ ys)"
  proof cases
    case 3
    show ?thesis
    proof (cases "b = []")
      case True
      with 3 show ?thesis by simp
    next
      case False
      with 3(1) assms(2) have "length a \<le> n" by (cases b) auto
      from suffix_lastn [OF 3(2) this] 3 show ?thesis by (auto simp: sublist_append)
    qed
  qed (auto simp: sublist_append)
next
  assume "sublist s xs \<or> sublist s (lastn n xs @ ys)"
  moreover have "sublist (lastn n xs @ ys) (xs @ ys)"
    by (metis append.assoc append_Nil2 append_take_drop_id lastn_def sublist_appendI)
  ultimately show "sublist s (xs @ ys)" by (auto intro: sublist_order.order.trans)
qed

definition longest :: "bytes list \<Rightarrow> nat" where
  "longest secrets = foldr max (map length secrets) 0"

lemma longest_ge: "s \<in> set secrets \<Longrightarrow> length s \<le> longest secrets"
  by (induction secrets) (auto simp: longest_def)

text \<open>The capture of everything read so far.\<close>

definition capture_of :: "nat \<Rightarrow> bytes list \<Rightarrow> bytes \<Rightarrow> capture" where
  "capture_of limit secrets b = (new_capture limit secrets)\<lparr>
     bc_data := take (limit + longest secrets) b, bc_total := length b, bc_exceeded := limit < length b,
     bc_detected := list_ex (\<lambda>s. sublist s b) secrets, bc_tail := lastn (longest secrets - 1) b\<rparr>"

lemma capture_of_Nil: "[] \<notin> set secrets \<Longrightarrow> capture_of limit secrets [] = new_capture limit secrets"
  by (auto simp: capture_of_def new_capture_def lastn_def list_ex_iff)

lemma capture_of_sel:
  "bc_limit (capture_of limit secrets b) = limit" "bc_reserve (capture_of limit secrets b) = longest secrets"
  "bc_secrets (capture_of limit secrets b) = secrets" "bc_data (capture_of limit secrets b) = take (limit + longest secrets) b"
  "bc_total (capture_of limit secrets b) = length b" "bc_exceeded (capture_of limit secrets b) = (limit < length b)"
  "bc_detected (capture_of limit secrets b) = list_ex (\<lambda>s. sublist s b) secrets"
  "bc_tail (capture_of limit secrets b) = lastn (longest secrets - 1) b" "bc_error (capture_of limit secrets b) = False"
  by (simp_all add: capture_of_def new_capture_def longest_def)

lemma capture_add_sel:
  "bc_limit (capture_add x c) = bc_limit c" "bc_reserve (capture_add x c) = bc_reserve c"
  "bc_secrets (capture_add x c) = bc_secrets c" "bc_error (capture_add x c) = bc_error c"
  "bc_total (capture_add x c) = bc_total c + length x"
  "bc_data (capture_add x c) = bc_data c @ take (bc_limit c + bc_reserve c - length (bc_data c)) x"
  "bc_exceeded (capture_add x c) = (bc_exceeded c \<or> bc_limit c < bc_total c + length x)"
  "bc_detected (capture_add x c) = (bc_detected c \<or> list_ex (\<lambda>s. sublist s (bc_tail c @ x)) (bc_secrets c))"
  "bc_tail (capture_add x c) = (if 1 < bc_reserve c then lastn (bc_reserve c - 1) (bc_tail c @ x) else bc_tail c)"
  by (simp_all add: capture_add_def Let_def lastn_def)

lemma capture_add_of:
  assumes "[] \<notin> set secrets"
  shows "capture_add chunk (capture_of limit secrets b) = capture_of limit secrets (b @ chunk)"
proof -
  let ?n = "longest secrets"
  have "sublist s (b @ chunk) \<longleftrightarrow> sublist s b \<or> sublist s (lastn (?n - 1) b @ chunk)" if "s \<in> set secrets" for s
  proof (rule sublist_across)
    show "s \<noteq> []" using assms that by auto
    show "length s \<le> Suc (?n - 1)" using longest_ge [OF that] by simp
  qed
  then have found: "list_ex (\<lambda>s. sublist s b) secrets \<or> list_ex (\<lambda>s. sublist s (lastn (?n - 1) b @ chunk)) secrets \<longleftrightarrow>
      list_ex (\<lambda>s. sublist s (b @ chunk)) secrets"
    by (auto simp: list_ex_iff)
  have tail: "(if 1 < ?n then lastn (?n - 1) (lastn (?n - 1) b @ chunk) else lastn (?n - 1) b) = lastn (?n - 1) (b @ chunk)"
  proof (cases "1 < ?n")
    case False
    then show ?thesis by (simp add: lastn_def)
  qed (simp only: lastn_append if_True)
  have kept: "take (limit + ?n) b @ take (limit + ?n - length (take (limit + ?n) b)) chunk = take (limit + ?n) (b @ chunk)"
    by (cases "length b \<le> limit + ?n") (simp_all add: min_def)
  have over: "limit < length b \<or> limit < length b + length chunk \<longleftrightarrow> limit < length b + length chunk" by auto
  show ?thesis
    by (rule capture.equality; (simp only: capture_of_sel capture_add_sel found tail kept over length_append)?) simp
qed

lemma fold_capture_add:
  assumes "[] \<notin> set secrets"
  shows "fold capture_add chunks (capture_of limit secrets b) = capture_of limit secrets (b @ concat chunks)"
  by (induction chunks arbitrary: b) (simp_all add: capture_add_of [OF assms])


text \<open>C34: however the pipe cuts what it reads into chunks, the capture of an accepted request keeps the same bytes, exceeds the
  limit exactly when more than the limit was read, and reports a secret exactly when one occurs anywhere in the stream,
  across the cuts included.\<close>

theorem capture_ignores_chunking:
  assumes "ProcessRequest_init ha linux argv stdin cwd env timeout sl secrets limits guard sc caps = Inr q"
  shows "let ss = map utf8_bytes (pq_secrets q); n = nat (pq_stream_limit q);
      c = fold capture_add chunks (new_capture n ss); stream = concat chunks
    in bc_data c = take (n + longest ss) stream \<and> (bc_exceeded c \<longleftrightarrow> n < length stream) \<and>
       (snd (rendered c) \<longleftrightarrow> list_ex (\<lambda>s. sublist s stream) ss) \<and> c = fold capture_add [stream] (new_capture n ss)"
proof -
  let ?ss = "map utf8_bytes (pq_secrets q)" and ?n = "nat (pq_stream_limit q)"
  note ne = request_Inr(1) [OF assms]
  have c: "fold capture_add cs (new_capture ?n ?ss) = capture_of ?n ?ss (concat cs)" for cs
    using fold_capture_add [OF ne, of cs ?n "[]"] capture_of_Nil [OF ne, of ?n] by simp
  show ?thesis unfolding Let_def c by (simp only: capture_of_sel rendered_def snd_conv) simp
qed

section \<open>Redaction\<close>

definition off_marker :: "bytes \<Rightarrow> bool" where
  "off_marker s \<longleftrightarrow> s \<noteq> [] \<and> set s \<inter> set REDACTION = {}"

lemma prefix_marker: "off_marker t \<Longrightarrow> \<not> prefix t (REDACTION @ r)"
  by (cases t) (auto simp: off_marker_def REDACTION_def)

lemma sublist_marker:
  assumes "off_marker t" and "sublist t (REDACTION @ r)"
  shows "sublist t r"
proof -
  have "\<not> sublist t REDACTION"
    using assms(1) set_mono_sublist [of t REDACTION] by (cases t) (auto simp: off_marker_def)
  moreover have "a = []" if "t = a @ b" "suffix a REDACTION" for a b
    using assms(1) that set_mono_suffix [OF that(2)] by (cases a) (auto simp: off_marker_def)
  ultimately show ?thesis using assms(2) unfolding sublist_append by (metis append_Nil prefix_imp_sublist)
qed

lemma replace_keeps_prefix:
  assumes "off_marker t"
  shows "s \<noteq> [] \<Longrightarrow> prefix t (replace_bytes s REDACTION b) \<Longrightarrow> prefix t b"
  using assms
proof (induction b arbitrary: t)
  case (Cons x b)
  show ?case
  proof (cases "take (length s) (x # b) = s")
    case True
    with Cons.prems show ?thesis using prefix_marker by auto
  next
    case False
    with Cons.prems obtain t' where t: "t = x # t'" "prefix t' (replace_bytes s REDACTION b)"
      by (cases t) (auto simp: off_marker_def)
    have "prefix t' b"
    proof (cases "t' = []")
      case False
      with Cons.prems(3) have "off_marker t'" by (simp add: t off_marker_def)
      from Cons.IH [OF Cons.prems(1) t(2) this] show ?thesis .
    qed simp
    then show ?thesis by (simp add: t)
  qed
qed (simp add: off_marker_def)

lemma replace_adds_nothing:
  assumes "off_marker t"
  shows "s \<noteq> [] \<Longrightarrow> sublist t (replace_bytes s m b) \<Longrightarrow> m = REDACTION \<Longrightarrow> sublist t b"
proof (induction s m b rule: replace_bytes.induct)
  case (2 s m x b)
  show ?case
  proof (cases "take (length s) (x # b) = s")
    case True
    with 2 have "sublist t (drop (length s) (x # b))" using sublist_marker [OF assms] by simp
    then show ?thesis by (metis append_take_drop_id sublist_append)
  next
    case False
    with 2(4,5,6) have "prefix t (x # replace_bytes s REDACTION b) \<or> sublist t (replace_bytes s REDACTION b)"
      by (simp add: sublist_Cons_right)
    then show ?thesis
    proof
      assume "prefix t (x # replace_bytes s REDACTION b)"
      with False 2(4) have "prefix t (replace_bytes s REDACTION (x # b))" by simp
      from replace_keeps_prefix [OF assms 2(4) this] show ?thesis by (rule prefix_imp_sublist)
    next
      assume "sublist t (replace_bytes s REDACTION b)"
      with False 2(3,4,6) have "sublist t b" by simp
      then show ?thesis by (simp add: sublist_Cons_right)
    qed
  qed
qed simp

lemma replace_removes:
  assumes "off_marker s"
  shows "m = REDACTION \<Longrightarrow> \<not> sublist s (replace_bytes s m b)"
  using assms
proof (induction s m b rule: replace_bytes.induct)
  case (1 s m)
  then show ?case by (simp add: off_marker_def)
next
  case (2 s m x b)
  then have ne: "s \<noteq> []" by (simp add: off_marker_def)
  show ?case
  proof (cases "take (length s) (x # b) = s")
    case True
    with 2 ne show ?thesis using sublist_marker [OF 2(5)] by auto
  next
    case False
    have "\<not> prefix s (x # replace_bytes s REDACTION b)"
    proof
      assume "prefix s (x # replace_bytes s REDACTION b)"
      with False ne have "prefix s (replace_bytes s REDACTION (x # b))" by simp
      from replace_keeps_prefix [OF 2(5) ne this] have "take (length s) (x # b) = s" by (auto simp: prefix_def)
      with False show False by simp
    qed
    with False 2(3,4,5) ne show ?thesis by (simp add: sublist_Cons_right)
  qed
qed

lemma redact_removes:
  assumes "list_all off_marker ss" and "s \<in> set ss \<or> \<not> sublist s b" and "off_marker s"
  shows "\<not> sublist s (fold (\<lambda>s v. replace_bytes s REDACTION v) ss b)"
  using assms
proof (induction ss arbitrary: b)
  case (Cons t ss)
  have t: "off_marker t" "t \<noteq> []" using Cons.prems(1) by (simp_all add: off_marker_def)
  have "s \<in> set ss \<or> \<not> sublist s (replace_bytes t REDACTION b)"
    using Cons.prems(2) replace_removes [OF t(1) refl] replace_adds_nothing [OF Cons.prems(3) t(2) _ refl] by auto
  with Cons show ?case by simp
qed simp

text \<open>redaction is complete while nothing was cut off: when the stream fits the limit and the reserve, and no secret
  shares a byte with the redaction mark, no secret is left in what the result shows.\<close>

theorem redaction_complete:
  assumes "list_all off_marker secrets" and "length (concat chunks) \<le> limit + longest secrets"
  shows "list_all (\<lambda>s. \<not> sublist s (fst (rendered (fold capture_add chunks (new_capture limit secrets))))) secrets"
proof -
  let ?b = "concat chunks"
  have ne: "[] \<notin> set secrets" using assms(1) by (auto simp: list_all_iff off_marker_def)
  have c: "fold capture_add chunks (new_capture limit secrets) = capture_of limit secrets ?b"
    using fold_capture_add [OF ne, of chunks limit "[]"] capture_of_Nil [OF ne] by simp
  have shown: "fst (rendered (capture_of limit secrets ?b)) = take limit (redact secrets ?b)"
    using assms(2) by (simp only: rendered_def capture_of_sel fst_conv take_all)
  have "\<not> sublist s (redact secrets ?b)" if "s \<in> set secrets" for s
    unfolding redact_def by (rule redact_removes) (use assms(1) that in \<open>auto simp: list_all_iff\<close>)
  then show ?thesis
    unfolding c shown list_all_iff using sublist_take sublist_order.order.trans by blast
qed

lemma replace_one: "s \<noteq> [] \<Longrightarrow> replace_bytes s m (s @ b) = m @ replace_bytes s m b"
  by (cases s) auto

lemma replace_short: "length b < length s \<Longrightarrow> replace_bytes s m b = b"
proof (induction b)
  case (Cons x b)
  have "take (length s) (x # b) \<noteq> s" using Cons.prems by auto
  with Cons show ?case by auto
qed simp

text \<open>C35: at the cut redaction has a gap.  The bytes kept are cut before they are redacted, and redaction makes them
  shorter; a secret of 20 bytes or more that is printed three times against a limit of twice its length minus one is shown
  twice as the mark and then all but its last byte in the clear.\<close>

theorem cut_secret_is_shown:
  assumes "20 \<le> length s"
  shows "fst (rendered (fst (read_pipe [Chunk (s @ s @ s)] (new_capture (2 * length s - 1) [s]))))
    = REDACTION @ REDACTION @ butlast s"
proof -
  let ?l = "2 * length s - 1"
  have ne: "s \<noteq> []" "[] \<notin> set [s]" using assms by auto
  have c: "capture_add (s @ s @ s) (new_capture ?l [s]) = capture_of ?l [s] (s @ s @ s)"
    using capture_add_of [OF ne(2), of "s @ s @ s" ?l "[]"] capture_of_Nil [OF ne(2)] by simp
  have "take (?l + longest [s]) (s @ s @ s) = s @ s @ butlast s"
    using assms by (simp add: longest_def butlast_conv_take)
  moreover have "redact [s] (s @ s @ butlast s) = REDACTION @ REDACTION @ butlast s"
    using ne(1) assms by (simp add: redact_def replace_one replace_short)
  moreover have "length (REDACTION @ REDACTION @ butlast s) \<le> ?l" using assms by (simp add: REDACTION_def)
  ultimately have "fst (rendered (capture_of ?l [s] (s @ s @ s))) = REDACTION @ REDACTION @ butlast s"
    by (simp only: rendered_def capture_of_sel fst_conv take_all)
  then show ?thesis using ne(1) c by (simp add: Let_def)
qed

section \<open>Waiting\<close>

text \<open>A round that does not end the wait.\<close>

definition undecided :: "rat \<Rightarrow> poll \<Rightarrow> bool" where
  "undecided deadline p \<longleftrightarrow> \<not> po_stream_limit p \<and> \<not> po_monitor_failed p \<and> \<not> po_limit_reached p \<and>
     \<not> (po_exited p \<and> po_stdout_done p \<and> po_stderr_done p) \<and> po_now p < deadline"

lemma wait_undecided: "list_all (undecided deadline) ps \<Longrightarrow> wait_for_process deadline (ps @ qs) = wait_for_process deadline qs"
  by (induction ps) (auto simp: undecided_def)

text \<open>the wait ends with the first deciding round, and no later than the first round at or after the deadline.  It is a
  timeout only if that round had neither a stream nor a resource limit nor a finished process, so a process that finished
  before the round is never reported as timed out.\<close>

theorem wait_is_bounded:
  assumes "list_all (undecided deadline) ps" and "deadline \<le> po_now p"
  shows "\<exists>r. wait_for_process deadline (ps @ p # qs) = Some r \<and>
    (r = Inr (Timeout, True) \<longleftrightarrow> \<not> po_stream_limit p \<and> \<not> po_monitor_failed p \<and> \<not> po_limit_reached p \<and>
      \<not> (po_exited p \<and> po_stdout_done p \<and> po_stderr_done p)) \<and>
    (r = Inr (Exited, False) \<longleftrightarrow> \<not> po_stream_limit p \<and> \<not> po_monitor_failed p \<and> \<not> po_limit_reached p \<and>
      po_exited p \<and> po_stdout_done p \<and> po_stderr_done p)"
  using assms by (simp add: wait_undecided)


section \<open>The status record\<close>

lemma be_value_snoc: "be_value (b @ [c]) = be_value b * 256 + of_char c"
  by (simp add: be_value_def)

lemma be_bytes_length [simp]: "length (be_bytes n v) = n"
  by (induction n v rule: be_bytes.induct) auto

lemma be_value_bytes: "be_value (be_bytes n v) = v mod 256 ^ n"
proof (induction n v rule: be_bytes.induct)
  case (2 n v)
  then show ?case by (simp add: be_value_snoc of_char_of mod_mult2_eq mult.commute)
qed (simp add: be_value_def)

lemma unpack_pack:
  assumes "pack_signed n v = Some b" and "0 < n"
  shows "unpack_signed b = v" and "length b = n"
proof -
  have fit: "fits_signed n v" and b: "b = be_bytes n (nat (v mod 2 ^ (8 * n)))"
    using assms(1) by (simp_all add: pack_signed_def split: if_splits)
  then show len: "length b = n" by simp
  let ?m = "(2 :: int) ^ (8 * n)" and ?h = "(2 :: int) ^ (8 * n - 1)"
  have "8 * n = Suc (8 * n - 1)" using assms(2) by simp
  then have m: "?m = 2 * ?h" by (metis power_Suc)
  have "(256 :: nat) ^ n = 2 ^ (8 * n)" by (simp add: power_mult)
  then have "be_value b = nat (v mod ?m) mod 2 ^ (8 * n)" by (simp add: b be_value_bytes)
  moreover have "nat (v mod ?m) < 2 ^ (8 * n)" by (simp add: nat_less_iff)
  ultimately have val: "int (be_value b) = v mod ?m" by simp
  have "v mod ?m = (if 0 \<le> v then v else v + ?m)"
  proof (cases "0 \<le> v")
    case False
    have "(v + ?m) mod ?m = v + ?m" using fit m False by (intro mod_pos_pos_trivial) (auto simp: fits_signed_def)
    then show ?thesis using False by simp
  qed (use fit m in \<open>auto simp: fits_signed_def intro!: mod_pos_pos_trivial\<close>)
  then show "unpack_signed b = v"
    using fit m by (auto simp: unpack_signed_def Let_def val len fits_signed_def)
qed

lemma unpack_pack_fields:
  "pack_fields ns vs = Some b \<Longrightarrow> list_all (\<lambda>n. 0 < n) ns \<Longrightarrow> unpack_fields ns b = vs \<and> length b = sum_list ns"
proof (induction ns arbitrary: vs b)
  case Nil
  then show ?case by (cases vs) auto
next
  case (Cons n ns)
  then obtain v ws x y where xy: "vs = v # ws" "pack_signed n v = Some x" "pack_fields ns ws = Some y" "b = x @ y"
    by (cases vs) (auto split: option.splits)
  with Cons.IH [OF xy(3)] unpack_pack [OF xy(2)] Cons.prems(2) show ?case by simp
qed

definition status_fits :: "target_status \<Rightarrow> bool" where
  "status_fits s \<longleftrightarrow> fits_signed 4 (st_wait s) \<and> fits_signed 4 (st_exec s) \<and> fits_signed 8 (st_cpu s) \<and>
     fits_signed 4 (st_hard s) \<and> fits_signed 8 (st_observed s) \<and> fits_signed 4 (st_setup s)"

text \<open>the supervisor's status record comes across.  Writing it fails exactly when a field is out of its signed 32 or 64
  bits; what is written has 36 bytes, and the owner reads the same record from it, whether the pipe is closed or silent
  behind it, and refuses it with any byte missing or added.\<close>

theorem status_record_roundtrip:
  "(case write_status s of
      None \<Rightarrow> \<not> status_fits s
    | Some b \<Rightarrow> status_fits s \<and> length b = status_size \<and>
        (\<forall>fin required x rest. read_target_status (Some (b, fin)) required = Inr (Some s) \<and>
          read_target_status (Some (b @ x # rest, fin)) required = execution StatusInvalid \<and>
          read_target_status (Some (butlast b, PipeClosed)) required = execution StatusInvalid))"
proof (cases "write_status s")
  case None
  then show ?thesis
    by (auto simp: write_status_def status_widths_def status_fits_def pack_signed_def split: option.splits if_splits)
next
  case (Some b)
  then obtain f where f: "pack_fields status_widths [st_wait s, st_exec s, st_cpu s, st_hard s, st_observed s, st_setup s] = Some f"
    and b: "b = SUPERVISOR_MAGIC @ f"
    by (auto simp: write_status_def)
  have fits: "status_fits s"
    using f by (auto simp: status_widths_def status_fits_def pack_signed_def split: option.splits if_splits)
  have "list_all (\<lambda>n. 0 < n) status_widths" "sum_list status_widths = 32" by (simp_all add: status_widths_def)
  then have u: "unpack_fields status_widths f = [st_wait s, st_exec s, st_cpu s, st_hard s, st_observed s, st_setup s]"
      "length f = 32"
    using unpack_pack_fields [OF f] by simp_all
  have len: "length b = status_size" by (simp add: b u(2) SUPERVISOR_MAGIC_def status_size_def)
  have head: "take 4 b = SUPERVISOR_MAGIC" "drop 4 b = f" by (simp_all add: b SUPERVISOR_MAGIC_def)
  have ne: "b \<noteq> []" "butlast b \<noteq> []" using len by (auto simp: status_size_def dest: arg_cong [where f = length])
  have "read_target_status (Some (b, fin)) required = Inr (Some s)" for fin required
    using len head u(1) ne by (simp add: read_target_status_def Let_def)
  moreover have "read_target_status (Some (b @ x # rest, fin)) required = execution StatusInvalid" for fin required x rest
    using len by (simp add: read_target_status_def Let_def)
  moreover have "length (take (status_size + 1) (butlast b)) \<noteq> status_size" "take (status_size + 1) (butlast b) \<noteq> []"
    using len ne by (simp_all add: status_size_def)
  then have "read_target_status (Some (butlast b, PipeClosed)) required = execution StatusInvalid" for required
    by (simp only: read_target_status_def Let_def option.case prod.case pipe_end.distinct simp_thms if_False if_True
      HOL.simp_thms)
  ultimately show ?thesis using Some fits len by simp
qed

section \<open>Which evidence stands\<close>

text \<open>What may happen to the limits of one tracker, in any order.\<close>

inductive tracker_step :: "tracker \<Rightarrow> limit_state \<Rightarrow> limit_state \<Rightarrow> bool" for t where
  Check: "check_resources t force s st = Inr st' \<Longrightarrow> tracker_step t st st'"
| Final: "final_guard_observation t s st = Inr st' \<Longrightarrow> tracker_step t st st'"
| Terminal: "validate_terminal_tree t s st = Inr st' \<Longrightarrow> tracker_step t st st'"
| Accounted: "tracker_step t st (set_sampled (tk_limits t) CpuLimit u st)"
| Recorded: "tracker_step t st (set_hard t (name, v) (Some bound) st)"

definition evidence :: "limit_state \<Rightarrow> limit_name option \<times> int option \<times> int option \<times> provenance option" where
  "evidence st = (ls_limit st, ls_value st, ls_observed st, ls_provenance st)"

text \<open>A sampled limit stands once it is set; hard evidence replaces it and only yields to hard evidence.\<close>

definition stands :: "tracker \<Rightarrow> limit_state \<Rightarrow> limit_state \<Rightarrow> bool" where
  "stands t st st' \<longleftrightarrow>
     evidence st' = evidence st \<and> ls_reached st' = ls_reached st \<or>
     ls_reached st' \<and> ls_limit st' \<noteq> None \<and>
       (ls_provenance st' = Some HardGuard \<or>
        ls_provenance st' = Some SampledThreshold \<and> ls_limit st = None \<and>
          ls_value st' = configured_limit (tk_limits t) (the (ls_limit st')))"

lemma stands_refl [simp]: "stands t st st"
  by (simp add: stands_def)

lemma stands_trans: "stands t st st1 \<Longrightarrow> stands t st1 st2 \<Longrightarrow> stands t st st2"
  by (auto simp: stands_def evidence_def)

lemma stands_sampled [simp]: "stands t st (set_sampled (tk_limits t) n v st)"
  by (simp add: stands_def set_resource_limit_def)

lemma stands_hard [simp]: "stands t st (set_hard t e v st)"
  by (simp add: stands_def set_hard_def set_resource_limit_def)

lemma stands_bookkeeping [simp]:
  "stands t (st\<lparr>ls_next_scan := x\<rparr>) st' \<longleftrightarrow> stands t st st'" "stands t (st\<lparr>ls_ticks := k\<rparr>) st' \<longleftrightarrow> stands t st st'"
  "stands t st (st'\<lparr>ls_next_scan := x\<rparr>) \<longleftrightarrow> stands t st st'" "stands t st (st'\<lparr>ls_inconclusive := n\<rparr>) \<longleftrightarrow> stands t st st'"
  by (simp_all add: stands_def evidence_def)

lemma stands_sampled_later [simp]: "stands t st (set_sampled (tk_limits t) n v (st\<lparr>ls_next_scan := x\<rparr>))"
  by (simp add: stands_def evidence_def set_resource_limit_def)

lemma observe_walk_stands: "observe_walk t l force s st = Inr st' \<Longrightarrow> stands t st st'"
  by (auto simp: observe_walk_def Let_def split: if_splits tree_walk.splits)

lemma observe_memory_stands: "observe_memory t l force s st = Inr st' \<Longrightarrow> stands t st st'"
  using observe_walk_stands by (auto simp: observe_memory_def split: option.splits if_splits)

lemma observe_cpu_stands: "observe_cpu t s cpu seconds st = (r, st') \<Longrightarrow> stands t st' st'' \<Longrightarrow> stands t st st''"
  by (auto simp: observe_cpu_def Let_def split: if_splits option.splits)

lemma observe_usage_stands: "observe_usage t cpu l force s st = Inr st' \<Longrightarrow> stands t st st'"
  by (auto simp: observe_usage_def intro: observe_memory_stands observe_cpu_stands
      split: option.splits if_splits prod.splits)

lemma set_full_stands: "set_full t sc e st = Inr st' \<Longrightarrow> stands t st st'"
  by (auto simp: set_full_def bindE_Inr_iff)

lemma check_resources_stands: "check_resources t force s st = Inr st' \<Longrightarrow> stands t st st'"
  by (auto simp: check_resources_def bindE_Inr_iff intro: observe_usage_stands set_full_stands
      split: option.splits if_splits)

lemma final_guard_observation_stands:
  assumes "final_guard_observation t s st = Inr st'"
  shows "stands t st st'"
proof (cases "tk_limits t = None \<or> \<not> tk_guarded t")
  case False
  with assms obtain hard cpu where "(case hard of Some e \<Rightarrow> Inr (set_hard t e None st)
      | None \<Rightarrow> (case cpu of Some (u, True) \<Rightarrow> Inr (set_sampled (tk_limits t) CpuLimit (u div 1000000) st)
           | _ \<Rightarrow> Inr st)) = (Inr st' :: limit_state prs)"
    by (auto simp: final_guard_observation_def bindE_Inr_iff)
  then show ?thesis by (cases hard) (auto split: option.splits bool.splits)
qed (use assms in \<open>auto simp: final_guard_observation_def\<close>)

lemma terminal_walk_stands:
  assumes "(case w of WalkDone \<Rightarrow> Inr st1 | WalkLimit n v \<Rightarrow> Inr (set_sampled (tk_limits t) n v st1)
    | WalkDrift \<Rightarrow> execution TreeChanged | WalkPolicy \<Rightarrow> Inl ModelTreeViolation
    | WalkFailed \<Rightarrow> execution TreeInspectionFailed) = Inr st'" and "stands t st st1"
  shows "stands t st st'"
  using assms stands_trans [OF assms(2) stands_sampled] by (auto split: tree_walk.splits)

lemma full_tmpfs_stands:
  assumes "(case tk_scratch t of None \<Rightarrow> Inr st
    | Some sc \<Rightarrow> bindE (ts_full s) (\<lambda>full. case full of None \<Rightarrow> Inr st | Some e \<Rightarrow> set_full t sc e st)) = Inr st'"
  shows "stands t st st'"
  using assms by (auto simp: bindE_Inr_iff intro: set_full_stands split: option.splits)

lemma validate_terminal_tree_stands:
  assumes "validate_terminal_tree t s st = Inr st'"
  shows "stands t st st'"
proof (cases "tk_limits t = None \<or> \<not> tk_tree t \<or> (\<exists>l. tk_limits t = Some l \<and> (pl_tree_files l = None \<or> pl_tree_bytes l = None))")
  case True
  with assms show ?thesis by (cases "tk_limits t") (auto simp: validate_terminal_tree_def)
next
  case False
  then obtain l where "tk_limits t = Some l" "tk_tree t" "pl_tree_files l \<noteq> None" "pl_tree_bytes l \<noteq> None" by auto
  with assms obtain st1 where full: "(case tk_scratch t of None \<Rightarrow> Inr st
      | Some sc \<Rightarrow> bindE (ts_full s) (\<lambda>full. case full of None \<Rightarrow> Inr st | Some e \<Rightarrow> set_full t sc e st)) = Inr st1"
    and walk: "(case ts_walk s of WalkDone \<Rightarrow> Inr st1 | WalkLimit n v \<Rightarrow> Inr (set_sampled (tk_limits t) n v st1)
    | WalkDrift \<Rightarrow> execution TreeChanged | WalkPolicy \<Rightarrow> Inl ModelTreeViolation
    | WalkFailed \<Rightarrow> execution TreeInspectionFailed) = Inr st'"
    unfolding validate_terminal_tree_def by (auto simp only: bindE_Inr_iff option.case if_False simp_thms)
  show ?thesis by (rule terminal_walk_stands [OF walk full_tmpfs_stands [OF full]])
qed

lemma tracker_step_stands: "tracker_step t st st' \<Longrightarrow> stands t st st'"
  by (induction rule: tracker_step.induct)
    (simp_all add: check_resources_stands final_guard_observation_stands validate_terminal_tree_stands)

lemma tracker_steps_stand: "(tracker_step t)\<^sup>*\<^sup>* st st' \<Longrightarrow> stands t st st'"
  by (induction rule: rtranclp_induct) (auto intro: stands_trans tracker_step_stands)

lemma stands_new: "stands t new_limit_state st \<Longrightarrow>
  (ls_reached st \<longleftrightarrow> ls_limit st \<noteq> None) \<and> (ls_limit st = None \<longleftrightarrow> ls_provenance st = None) \<and>
  (ls_provenance st = Some SampledThreshold \<longrightarrow> ls_value st = configured_limit (tk_limits t) (the (ls_limit st)))"
  by (auto simp: stands_def evidence_def new_limit_state_def)

text \<open>C36: whatever the monitor, the last observations and the supervisor's record do to the limits of a run, in any order:
  hard evidence is never replaced by a sampled threshold, the first sampled threshold stands until hard evidence replaces
  it and carries the configured bound, the event is set exactly when a limit is, and a hard event that the guard sees in
  the last observation is what the limits then say.\<close>

theorem hard_evidence_wins:
  assumes "(tracker_step t)\<^sup>*\<^sup>* new_limit_state st" and "(tracker_step t)\<^sup>*\<^sup>* st st'"
  shows "(ls_provenance st = Some HardGuard \<longrightarrow> ls_provenance st' = Some HardGuard) \<and>
    (ls_limit st \<noteq> None \<and> ls_provenance st' = Some SampledThreshold \<longrightarrow> evidence st' = evidence st) \<and>
    (ls_provenance st' = Some SampledThreshold \<longrightarrow> ls_value st' = configured_limit (tk_limits t) (the (ls_limit st'))) \<and>
    (ls_reached st' \<longleftrightarrow> ls_limit st' \<noteq> None) \<and>
    (tk_limits t \<noteq> None \<and> tk_guarded t \<and> ts_guard s = Inr (Some e, cpu) \<longrightarrow>
      (\<exists>st''. final_guard_observation t s st' = Inr st'' \<and> ls_limit st'' = Some (fst e) \<and>
        ls_observed st'' = Some (snd e) \<and> ls_provenance st'' = Some HardGuard))"
proof -
  have s: "stands t new_limit_state st" "stands t st st'" using assms by (simp_all add: tracker_steps_stand)
  note new = stands_new [OF s(1)] stands_new [OF stands_trans [OF s]]
  have "ls_provenance st = Some HardGuard \<longrightarrow> ls_provenance st' = Some HardGuard"
    using s(2) new by (auto simp: stands_def evidence_def)
  moreover have "ls_limit st \<noteq> None \<and> ls_provenance st' = Some SampledThreshold \<longrightarrow> evidence st' = evidence st"
    using s(2) unfolding stands_def by (elim disjE conjE) auto
  moreover have "tk_limits t \<noteq> None \<and> tk_guarded t \<and> ts_guard s = Inr (Some e, cpu) \<longrightarrow>
      (\<exists>st''. final_guard_observation t s st' = Inr st'' \<and> ls_limit st'' = Some (fst e) \<and>
        ls_observed st'' = Some (snd e) \<and> ls_provenance st'' = Some HardGuard)"
    by (auto simp: final_guard_observation_def set_hard_def set_resource_limit_def)
  ultimately show ?thesis using new(2) by blast
qed

end
