(* ===== verification/Process_Safety.thy ===== *)
theory Process_Safety
  imports Process_Facts "HOL-Library.Multiset"
begin

text \<open>
  What holds between the two ends of a run: the supervisor reads back the arguments the owner wrote, its accounting
  agrees with the owner's, a scope is only taken for collected after a stable absence, a request runs once, and the
  evaluator scratch closes each capability it owns once.
\<close>

section \<open>The argument vector\<close>

lemma strip_solid:
  assumes "list_all (\<lambda>c. \<not> isspace c) s"
  shows "strip s = s"
proof -
  have w: "dropWhile isspace s = s" if "list_all (\<lambda>c. \<not> isspace c) s" for s
    using that by (cases s) auto
  from w [of s] w [of "rev s"] assms show ?thesis by (simp add: strip_def lstrip_def rstrip_def)
qed

lemma digit_solid: "is_digit c \<Longrightarrow> \<not> isspace c \<and> c \<noteq> CHR ''-'' \<and> c \<noteq> CHR ''+''"
  by (auto simp: is_digit_def in_rng_def isspace_def)

lemma digits_plain: "list_all is_digit s \<Longrightarrow> s \<noteq> [] \<Longrightarrow> digits_with_underscores s"
proof (induction s rule: digits_with_underscores.induct)
  case (2 c d s)
  then have "d \<noteq> CHR ''_''" by (auto simp: is_digit_def in_rng_def)
  with 2 show ?case by simp
qed simp_all

lemma python_int_show_nat:
  assumes "n < 10 ^ int_max_str_digits"
  shows "python_int (show_nat n) = Some (int n)" and "0 < n \<Longrightarrow> python_int (CHR ''-'' # show_nat n) = Some (- int n)"
proof -
  have d: "list_all is_digit (show_nat n)" by (rule show_nat_digits)
  have short: "length (show_nat n) \<le> int_max_str_digits"
    using assms by (rule show_nat_length_le) (simp add: int_max_str_digits_def)
  have all: "filter is_digit (show_nat n) = show_nat n" using d by (simp add: list_all_iff filter_id_conv)
  have minus: "\<not> isspace (CHR ''-'')" by (simp add: isspace_def in_rng_def)
  have solid: "strip (show_nat n) = show_nat n" "strip (CHR ''-'' # show_nat n) = CHR ''-'' # show_nat n"
    using d digit_solid minus by (simp_all add: strip_solid list_all_iff)
  have "hd (show_nat n) \<noteq> CHR ''-'' \<and> hd (show_nat n) \<noteq> CHR ''+''"
    using d digit_solid by (metis hd_in_set list_all_iff show_nat_not_Nil)
  then show "python_int (show_nat n) = Some (int n)"
    using short by (simp add: python_int_def solid all digits_plain [OF d])
  show "python_int (CHR ''-'' # show_nat n) = Some (- int n)"
    using short by (simp add: python_int_def solid all digits_plain [OF d])
qed

lemma python_int_py_str: "py_str i = Inr s \<Longrightarrow> python_int s = Some i"
proof -
  assume a: "py_str i = Inr s"
  then have i: "\<bar>i\<bar> < 10 ^ int_max_str_digits" "s = show_int i" by (auto simp: py_str_def split: if_splits)
  then have "nat \<bar>i\<bar> < 10 ^ int_max_str_digits" by (simp add: nat_less_iff)
  then show ?thesis using python_int_show_nat [of "nat \<bar>i\<bar>"] by (cases "i < 0") (simp_all add: i(2) show_int_def)
qed

lemma parse_py_strs: "py_strs is = Inr ss \<Longrightarrow> parse_ints ss = Some is \<and> length ss = length is"
  by (induction "is" arbitrary: ss) (auto simp: bindE_Inr_iff python_int_py_str)

lemma pair_up_concat: "pair_up (concat (map (\<lambda>(n, v). [n, v]) env)) = Some env"
  by (induction env) auto

lemma length_pairs: "length (concat (map (\<lambda>(n, v). [n, v]) env)) = 2 * length env"
  by (induction env) auto

text \<open>C37: the supervisor reads back what the owner wrote: for an accepted request the head of the supervisor takes
  the argument vector of the owner apart into exactly the descriptors, limits, bounds, scope, environment and target
  vector of the request, whatever text these contain.\<close>

theorem launch_vector_roundtrip:
  assumes "ProcessRequest_init ha linux argv stdin cwd env timeout sl secrets limits guard sc caps = Inr q"
    and "linux_launch_argv code q status control scope = Inr av"
  shows "parse_supervisor_argv (''-c'' # drop 13 av) = Some \<lparr>sv_status = int status,
    sv_target = int (the (qc_executable (pq_capabilities q))), sv_control = control, sv_guard = (pq_guard q \<noteq> None),
    sv_file_size = or_minus_one (Option.bind (pq_limits q) pl_file_bytes),
    sv_open_files = or_minus_one (Option.bind (pq_limits q) pl_open_files),
    sv_memory = or_minus_one (map_option lg_memory (pq_guard q)),
    sv_processes = or_minus_one (map_option lg_processes (pq_guard q)),
    sv_cpu = or_minus_one (map_option lg_cpu (pq_guard q)),
    sv_tmpfs_bytes = or_minus_one (map_option es_tmpfs_bytes (pq_scratch q)),
    sv_tmpfs_inodes = or_minus_one (map_option es_tmpfs_inodes (pq_scratch q)), sv_cgroup = scope,
    sv_environment = map_of (pq_environment q), sv_argv = pq_argv q\<rparr> \<and> av ! 12 = code"
proof -
  let ?env = "pq_environment q" and ?vars = "concat (map (\<lambda>(n, v). [n, v]) (pq_environment q))"
  from assms(2) obtain n s target ns where t: "qc_executable (pq_capabilities q) = Some target"
    and ns: "py_strs (launch_numbers q target status control) = Inr ns"
    and av: "av = [fd_path n, ''--user'', ''--map-root-user'', ''--mount'', ''--pid'', ''--mount-proc=/proc'',
                  ''--fork'', ''--kill-child=KILL'', ''--'', fd_path s, ''-I'', ''-c'', code] @ ns @ [scope] @ ?vars @ pq_argv q"
    by (auto simp: linux_launch_argv_def bindE_Inr_iff checkE_Inr_iff split: option.splits)
  have numbers: "parse_ints ns = Some (launch_numbers q target status control)" "length ns = 12"
    using parse_py_strs [OF ns] by (simp_all add: launch_numbers_def)
  have sys: "''-c'' # drop 13 av = (''-c'' # ns @ [scope]) @ ?vars @ pq_argv q" by (simp add: av)
  define head where "head = ''-c'' # ns @ [scope]"
  have head: "length head = 14" "take 12 (drop 1 (head @ r)) = ns" "(head @ r) ! 13 = scope" for r
    using numbers(2) by (simp_all add: head_def nth_append)
  have e: "slice_end (14 + int (length ?env) * 2) (length (head @ ?vars @ pq_argv q)) = 14 + 2 * length ?env"
    using head(1) by (simp add: slice_end_def length_pairs)
  have vars: "take (14 + 2 * length ?env - 14) (drop 14 (head @ ?vars @ pq_argv q)) = ?vars"
    "drop (14 + 2 * length ?env) (head @ ?vars @ pq_argv q) = pq_argv q"
    using head(1) by (simp_all add: length_pairs)
  have "distinct (map fst ?env)"
    using request_Inr(5) [OF assms(1)] by (simp flip: map_map add: distinct_map)
  then have "map_of (rev ?env) = map_of ?env" by (metis map_of_inject_set set_rev distinct_rev rev_map)
  moreover have "(if pq_guard q = None then 0 else 1 :: int) \<noteq> 0 \<longleftrightarrow> pq_guard q \<noteq> None" by simp
  ultimately show ?thesis
    unfolding sys head_def [symmetric] parse_supervisor_argv_def
    using head e vars numbers(1) t by (simp add: launch_numbers_def pair_up_concat Let_def av)
qed

section \<open>Two accounts of one run\<close>

text \<open>The readers of the supervisor and of the owner, two texts, read the same numbers.\<close>

lemma sv_counters_from_Inr: "sv_counters_from ls m = Inr v \<longleftrightarrow> counters_from name ls m = Inr v"
  by (induction ls arbitrary: m) (auto split: list.splits option.splits)

lemma sv_counter_map_Inr: "sv_counter_map code ctl name = Inr m \<longleftrightarrow> cgroup_counters ctl name = Inr m"
  by (auto simp: sv_counter_map_def cgroup_counters_def sv_read_at_def read_control_def sv_counters_from_Inr [of _ _ _ name]
      split: control_read.splits)

lemma counter_Inr:
  "sv_required_counter m k = Inr v \<longleftrightarrow> m k = Some v \<and> 0 \<le> v" "required_counter m k c = Inr v \<longleftrightarrow> m k = Some v \<and> 0 \<le> v"
  by (auto simp: sv_required_counter_def required_counter_def split: option.splits)

lemma sv_nonnegative_Inr: "sv_nonnegative_value code ctl name = Inr v \<longleftrightarrow> nonnegative_value ctl name = Inr v"
  by (auto simp: sv_nonnegative_value_def nonnegative_value_def sv_read_at_def read_control_def
      split: control_read.splits option.splits)

lemma sv_nonnegative_Inl: "nonnegative_value ctl name = Inl e \<Longrightarrow> \<exists>x. sv_nonnegative_value code ctl name = Inl x"
  using sv_nonnegative_Inr [of code ctl name] by (cases "sv_nonnegative_value code ctl name") auto

lemma exception_errno_nonzero [simp]: "exception_errno e \<noteq> 0"
  by (auto simp: exception_errno_def EIO_def split: option.splits)

text \<open>A counter and a plain value of the controls, when they can be read.\<close>

definition counter_at :: "controls \<Rightarrow> string \<Rightarrow> string \<Rightarrow> int option" where
  "counter_at ctl name key = (case cgroup_counters ctl name of Inl _ \<Rightarrow> None | Inr m \<Rightarrow> m key)"

definition value_at :: "controls \<Rightarrow> string \<Rightarrow> int option" where
  "value_at ctl name = (case nonnegative_value ctl name of Inl _ \<Rightarrow> None | Inr v \<Rightarrow> Some v)"

text \<open>
  What the kernel documents of cgroup v2: the counters of memory.events, pids.events and cpu.stat only grow, and the
  peaks are high-water marks.  \<open>read_later ctl ctl'\<close>: what both readings show is not less in \<open>ctl'\<close>.
\<close>

definition grown :: "int option \<Rightarrow> int option \<Rightarrow> bool" where
  "grown a b \<longleftrightarrow> (case (a, b) of (Some x, Some y) \<Rightarrow> x \<le> y | _ \<Rightarrow> True)"

definition read_later :: "controls \<Rightarrow> controls \<Rightarrow> bool" where
  "read_later ctl ctl' \<longleftrightarrow>
     grown (counter_at ctl ''memory.events'' ''max'') (counter_at ctl' ''memory.events'' ''max'') \<and>
     grown (counter_at ctl ''memory.events'' ''oom_kill'') (counter_at ctl' ''memory.events'' ''oom_kill'') \<and>
     grown (counter_at ctl ''pids.events'' ''max'') (counter_at ctl' ''pids.events'' ''max'') \<and>
     grown (counter_at ctl ''cpu.stat'' ''usage_usec'') (counter_at ctl' ''cpu.stat'' ''usage_usec'') \<and>
     grown (value_at ctl ''memory.peak'') (value_at ctl' ''memory.peak'') \<and>
     grown (value_at ctl ''pids.peak'') (value_at ctl' ''pids.peak'')"

definition event_counters :: "controls \<Rightarrow> int option \<times> int option \<times> int option" where
  "event_counters ctl = (counter_at ctl ''memory.events'' ''max'', counter_at ctl ''memory.events'' ''oom_kill'',
     counter_at ctl ''pids.events'' ''max'')"

lemma validate_attribution_Inr: "validate_attribution m p = Inr u \<longleftrightarrow>
  (\<exists>a b c. m ''max'' = Some a \<and> 0 \<le> a \<and> m ''oom_kill'' = Some b \<and> 0 \<le> b \<and> p ''max'' = Some c \<and> 0 \<le> c)"
  by (auto simp: validate_attribution_def bindE_Inr_iff counter_Inr)

text \<open>The baselines of the two sides, as counters of the controls they were read from.\<close>

lemma validated_guard:
  assumes "validate_before_release ctl view scope identified g0 = (Inr (), g)"
  shows "gs_validated g" and "\<exists>u. validate_attribution (gs_memory_before g) (gs_pids_before g) = Inr u"
    and "gs_memory_before g k = counter_at ctl ''memory.events'' k" and "gs_pids_before g k = counter_at ctl ''pids.events'' k"
    and "counter_at ctl ''cpu.stat'' ''usage_usec'' = Some (gs_cpu_before g)"
  using assms
  by (auto simp: validate_before_release_def Let_def bindE_Inr_iff counter_at_def counter_Inr split: sum.splits)

lemma baseline_read:
  assumes "supervisor_baseline code a located ctl = Inr bl"
  shows "\<exists>x y z. bl_memory bl ''max'' = Some x \<and> 0 \<le> x \<and> bl_memory bl ''oom_kill'' = Some y \<and> 0 \<le> y \<and>
      bl_pids bl ''max'' = Some z \<and> 0 \<le> z"
    and "bl_memory bl k = counter_at ctl ''memory.events'' k" and "bl_pids bl k = counter_at ctl ''pids.events'' k"
    and "counter_at ctl ''cpu.stat'' ''usage_usec'' = Some (bl_cpu bl)"
  using assms
  by (auto simp: supervisor_baseline_def bindE_Inr_iff checkE_Inr_iff sv_counter_map_Inr counter_Inr counter_at_def)

text \<open>What each side concludes, in the counters of the controls and of its baseline.\<close>

lemma hard_event_Some:
  assumes "hard_event ctl g = Inr (Some (name, v))"
  obtains a b where "counter_at ctl ''memory.events'' ''max'' = Some a" "counter_at ctl ''memory.events'' ''oom_kill'' = Some b"
    and "name = MemoryLimit \<and> value_at ctl ''memory.peak'' = Some v \<and>
        0 < max (a - the (gs_memory_before g ''max'')) (b - the (gs_memory_before g ''oom_kill'')) \<or>
      name = ProcessesLimit \<and> value_at ctl ''pids.peak'' = Some v \<and>
        (\<exists>c. counter_at ctl ''pids.events'' ''max'' = Some c \<and> 0 < c - the (gs_pids_before g ''max''))"
  using assms
  by (auto simp: hard_event_def bindE_Inr_iff checkE_Inr_iff counter_Inr counter_at_def value_at_def split: if_splits)

lemma supervisor_hard_Inr:
  assumes "supervisor_hard code ctl bl scratch = Inr (h, v)"
  obtains a b c where "counter_at ctl ''memory.events'' ''max'' = Some a"
    and "counter_at ctl ''memory.events'' ''oom_kill'' = Some b" and "counter_at ctl ''pids.events'' ''max'' = Some c"
    and "if 0 < max (a - the (bl_memory bl ''max'')) (b - the (bl_memory bl ''oom_kill''))
      then h = 1 \<and> value_at ctl ''memory.peak'' = Some v
      else 0 < c - the (bl_pids bl ''max'') \<longrightarrow> h = 2 \<and> value_at ctl ''pids.peak'' = Some v"
  using assms
  by (auto simp: supervisor_hard_def bindE_Inr_iff sv_counter_map_Inr sv_nonnegative_Inr counter_Inr counter_at_def
      value_at_def split: if_splits)

text \<open>With the same baseline and the same controls the supervisor concludes what the owner does.\<close>

lemma supervisor_hard_event:
  assumes "gs_validated g" and "validate_attribution (gs_memory_before g) (gs_pids_before g) = Inr u"
    and "gs_memory_before g ''max'' = bl_memory bl ''max''" "gs_memory_before g ''oom_kill'' = bl_memory bl ''oom_kill''"
      "gs_pids_before g ''max'' = bl_pids bl ''max''"
  shows "case hard_event ctl g of
      Inl e \<Rightarrow> \<exists>x. supervisor_hard code ctl bl scratch = Inl x
    | Inr (Some (name, v)) \<Rightarrow> supervisor_hard code ctl bl scratch = Inr (if name = MemoryLimit then 1 else 2, v)
    | Inr None \<Rightarrow> supervisor_hard code ctl bl scratch = (case scratch of None \<Rightarrow> Inr (0, 0) | Some r \<Rightarrow> bindE r (\<lambda>v.
        Inr (if tc_bavail v \<le> 0 then (3, tc_blocks v * tc_frsize v)
             else if tc_ffree v \<le> 0 then (4, tc_files v) else (0, 0))))"
proof -
  have maps: "cgroup_counters ctl name = Inl e \<Longrightarrow> \<exists>x. sv_counter_map code ctl name = Inl x" for name e
    using sv_counter_map_Inr [of code ctl name] by (cases "sv_counter_map code ctl name") auto
  show ?thesis
  proof (cases "cgroup_counters ctl ''memory.events''")
    case (Inl e)
    with maps [OF Inl] assms(1) show ?thesis by (auto simp: hard_event_def supervisor_hard_def checkE_def)
  next
    case (Inr m)
    note m = this sv_counter_map_Inr [THEN iffD2, OF this, of code]
    show ?thesis
    proof (cases "cgroup_counters ctl ''pids.events''")
      case (Inl e)
      with maps [OF Inl] assms(1) m show ?thesis by (auto simp: hard_event_def supervisor_hard_def checkE_def)
    next
      case (Inr p)
      note p = this sv_counter_map_Inr [THEN iffD2, OF this, of code]
      have req: "required_counter q k c = (case sv_required_counter q k of Inl _ \<Rightarrow> execution (CounterMissing c k) | Inr v \<Rightarrow> Inr v)"
        for q k c
        by (auto simp: required_counter_def sv_required_counter_def split: option.splits)
      from assms(2) obtain a b c where before: "sv_required_counter (bl_memory bl) ''max'' = Inr a"
          "sv_required_counter (bl_memory bl) ''oom_kill'' = Inr b" "sv_required_counter (bl_pids bl) ''max'' = Inr c"
        unfolding validate_attribution_Inr assms(3-5) by (auto simp: sv_required_counter_def)
      have same: "sv_required_counter (gs_memory_before g) ''max'' = sv_required_counter (bl_memory bl) ''max''"
          "sv_required_counter (gs_memory_before g) ''oom_kill'' = sv_required_counter (bl_memory bl) ''oom_kill''"
          "sv_required_counter (gs_pids_before g) ''max'' = sv_required_counter (bl_pids bl) ''max''"
        using assms(3-5) by (simp_all add: sv_required_counter_def)
      have peaks: "case nonnegative_value ctl name of Inl e \<Rightarrow> \<exists>x. sv_nonnegative_value code ctl name = Inl x
          | Inr v \<Rightarrow> sv_nonnegative_value code ctl name = Inr v" for name
        using sv_nonnegative_Inl [of ctl name _ code] sv_nonnegative_Inr [of code ctl name] by (auto split: sum.splits)
      show ?thesis
        using peaks [of "''memory.peak''"] peaks [of "''pids.peak''"] assms(1) m p before
        by (cases "sv_required_counter m ''max''"; cases "sv_required_counter m ''oom_kill''";
            cases "sv_required_counter p ''max''")
          (auto simp: hard_event_def supervisor_hard_def checkE_def validate_attribution_def req same split: sum.splits)
    qed
  qed
qed

lemma hard_event_names: "hard_event ctl g = Inr (Some (name, v)) \<Longrightarrow> name = MemoryLimit \<or> name = ProcessesLimit"
  by (auto simp: hard_event_def bindE_Inr_iff checkE_Inr_iff split: if_splits)

text \<open>With other baselines, the supervisor's read first, and other final controls, the supervisor's read last: it misses no
  event of the owner, and its peak is not below the owner's.\<close>

lemma supervisor_misses_nothing:
  assumes bl: "supervisor_baseline code a located ctl0 = Inr bl"
    and g: "validate_before_release ctl1 view scope identified g0 = (Inr (), g)"
    and later: "read_later ctl0 ctl1" "read_later ctl2 ctl3"
    and own: "hard_event ctl2 g = Inr (Some (name, v))" and sv: "supervisor_hard code ctl3 bl scratch = Inr (h, v')"
  shows "name = MemoryLimit \<and> h = 1 \<and> v \<le> v' \<or> name = ProcessesLimit \<and> (h = 1 \<or> h = 2 \<and> v \<le> v')"
proof -
  note b = baseline_read [OF bl] and o' = validated_guard [OF g]
  from b(1) obtain x y z where bx: "bl_memory bl ''max'' = Some x" "bl_memory bl ''oom_kill'' = Some y"
      "bl_pids bl ''max'' = Some z" by blast
  from o'(2) obtain x1 y1 z1 where ox: "gs_memory_before g ''max'' = Some x1" "gs_memory_before g ''oom_kill'' = Some y1"
      "gs_pids_before g ''max'' = Some z1" unfolding validate_attribution_Inr by blast
  have base: "x \<le> x1" "y \<le> y1" "z \<le> z1"
    using later(1) bx ox b(2) [of "''max''"] b(2) [of "''oom_kill''"] b(3) [of "''max''"] o'(3) [of "''max''"]
      o'(3) [of "''oom_kill''"] o'(4) [of "''max''"]
    by (simp_all add: read_later_def grown_def)
  from sv obtain p q r where s: "counter_at ctl3 ''memory.events'' ''max'' = Some p"
      "counter_at ctl3 ''memory.events'' ''oom_kill'' = Some q" "counter_at ctl3 ''pids.events'' ''max'' = Some r"
      "if 0 < max (p - x) (q - y) then h = 1 \<and> value_at ctl3 ''memory.peak'' = Some v'
        else 0 < r - z \<longrightarrow> h = 2 \<and> value_at ctl3 ''pids.peak'' = Some v'"
    by (elim supervisor_hard_Inr) (use bx in simp)
  from own obtain p2 q2 where o2: "counter_at ctl2 ''memory.events'' ''max'' = Some p2"
      "counter_at ctl2 ''memory.events'' ''oom_kill'' = Some q2"
      "name = MemoryLimit \<and> value_at ctl2 ''memory.peak'' = Some v \<and> 0 < max (p2 - x1) (q2 - y1) \<or>
      name = ProcessesLimit \<and> value_at ctl2 ''pids.peak'' = Some v \<and>
        (\<exists>c. counter_at ctl2 ''pids.events'' ''max'' = Some c \<and> 0 < c - z1)"
    by (elim hard_event_Some) (use ox in simp)
  have end3: "p2 \<le> p" "q2 \<le> q" "grown (counter_at ctl2 ''pids.events'' ''max'') (Some r)"
      "grown (value_at ctl2 ''memory.peak'') (value_at ctl3 ''memory.peak'')"
      "grown (value_at ctl2 ''pids.peak'') (value_at ctl3 ''pids.peak'')"
    using later(2) s o2(1,2) by (simp_all add: read_later_def grown_def)
  from o2(3) show ?thesis
  proof (elim disjE conjE exE)
    assume m: "name = MemoryLimit" "value_at ctl2 ''memory.peak'' = Some v" "0 < max (p2 - x1) (q2 - y1)"
    then have "0 < max (p - x) (q - y)" using base end3(1,2) by linarith
    with s(4) m end3(4) show ?thesis by (simp add: grown_def)
  next
    fix c
    assume m: "name = ProcessesLimit" "value_at ctl2 ''pids.peak'' = Some v" "counter_at ctl2 ''pids.events'' ''max'' = Some c"
      "0 < c - z1"
    then have "0 < r - z" using base end3(3) by (simp add: grown_def)
    with s(4) m end3(5) show ?thesis by (auto simp: grown_def split: if_splits)
  qed
qed

lemma cpu_usage_Inr:
  assumes "validate_before_release ctl1 view scope identified g0 = (Inr (), g)"
  shows "cpu_usage_microseconds ctl g = Inr u \<longleftrightarrow>
    (\<exists>n. counter_at ctl ''cpu.stat'' ''usage_usec'' = Some n \<and> 0 \<le> n \<and> u = max 0 (n - gs_cpu_before g))"
  using validated_guard(1) [OF assms]
  by (auto simp: cpu_usage_microseconds_def checkE_def bindE_Inr_iff counter_Inr counter_at_def split: sum.splits)

lemma supervisor_status_sound:
  assumes "s = supervisor_status code True ctl bl scratch w x 0 c" and "st_setup s = 0"
  obtains n where "supervisor_hard code ctl bl scratch = Inr (st_hard s, st_observed s)"
    and "counter_at ctl ''cpu.stat'' ''usage_usec'' = Some n" and "0 \<le> n" and "st_cpu s = max 0 (n - bl_cpu bl)"
  using assms
  by (auto simp: supervisor_status_def Let_def bindE_Inr_iff sv_counter_map_Inr counter_Inr counter_at_def split: sum.splits)

lemma status_of_hard:
  shows "supervisor_hard code ctl bl scratch = Inr (h, v) \<Longrightarrow> st_hard (supervisor_status code True ctl bl scratch w x 0 c) = h \<and>
      st_observed (supervisor_status code True ctl bl scratch w x 0 c) = v"
    and "supervisor_hard code ctl bl scratch = Inl e \<Longrightarrow> st_setup (supervisor_status code True ctl bl scratch w x 0 c) \<noteq> 0"
  by (simp_all add: supervisor_status_def Let_def split: sum.splits)

text \<open>C38: the two accounts of one run agree, each kept by its own program against its own baseline.  The supervisor reads
  its baseline before the owner validates the guard and reads another; counters and peaks only grow, as the kernel
  documents.  A record without an error of the supervisor, made not before the owner looked, misses nothing: what the
  owner saw as a memory event the supervisor records under the same name with a peak not below the owner's, what it saw as
  a process event is recorded as that or as a memory event, and the processor time is not below the owner's.  When
  the event counters did not move between the two baselines and both sides read the same final controls the accounts are
  the same: the event and its peak are equal, a control the owner cannot read makes the record one of an error, without an
  event of the cgroup the supervisor records the full tmpfs that the owner would see, or none, and the processor
  times differ by at most the time used between the two baselines.\<close>

theorem owner_and_supervisor_agree:
  assumes "supervisor_baseline code a located ctl0 = Inr bl"
    and "validate_before_release ctl1 view scope identified g0 = (Inr (), g)"
    and "read_later ctl0 ctl1" and "read_later ctl2 ctl3"
    and "s = supervisor_status code True ctl3 bl scratch w x 0 c"
  shows "(st_setup s = 0 \<longrightarrow>
      (\<forall>v. hard_event ctl2 g = Inr (Some (MemoryLimit, v)) \<longrightarrow> hard_name (st_hard s) = Inr MemoryLimit \<and> v \<le> st_observed s) \<and>
      (\<forall>v. hard_event ctl2 g = Inr (Some (ProcessesLimit, v)) \<longrightarrow>
        hard_name (st_hard s) = Inr MemoryLimit \<or> hard_name (st_hard s) = Inr ProcessesLimit \<and> v \<le> st_observed s) \<and>
      (\<forall>u. cpu_usage_microseconds ctl2 g = Inr u \<longrightarrow> u \<le> st_cpu s)) \<and>
    (event_counters ctl0 = event_counters ctl1 \<longrightarrow>
      (case hard_event ctl3 g of
        Inl e \<Rightarrow> st_setup s \<noteq> 0
      | Inr (Some (name, v)) \<Rightarrow> hard_name (st_hard s) = Inr name \<and> st_observed s = v
      | Inr None \<Rightarrow> (case scratch of
          None \<Rightarrow> st_hard s = 0
        | Some (Inl e) \<Rightarrow> st_setup s \<noteq> 0
        | Some (Inr v) \<Rightarrow>
            (case tmpfs_hard_exhaustion (tc_blocks v) (tc_frsize v) (tc_bavail v) (tc_files v) (tc_ffree v) of
               None \<Rightarrow> st_hard s = 0
             | Some (name, n) \<Rightarrow> hard_name (st_hard s) = Inr name \<and> st_observed s = n))) \<and>
      (st_setup s = 0 \<longrightarrow> (\<exists>u. cpu_usage_microseconds ctl3 g = Inr u \<and> u \<le> st_cpu s \<and>
        st_cpu s \<le> u + (gs_cpu_before g - bl_cpu bl))))"
proof -
  note b = baseline_read [OF assms(1)] and o' = validated_guard [OF assms(2)] and cpu = cpu_usage_Inr [OF assms(2)]
  have first: "bl_cpu bl \<le> gs_cpu_before g" using assms(3) b(4) o'(5) by (simp add: read_later_def grown_def)
  have missed: "(\<forall>v. hard_event ctl2 g = Inr (Some (MemoryLimit, v)) \<longrightarrow> hard_name (st_hard s) = Inr MemoryLimit \<and> v \<le> st_observed s) \<and>
      (\<forall>v. hard_event ctl2 g = Inr (Some (ProcessesLimit, v)) \<longrightarrow>
        hard_name (st_hard s) = Inr MemoryLimit \<or> hard_name (st_hard s) = Inr ProcessesLimit \<and> v \<le> st_observed s) \<and>
      (\<forall>u. cpu_usage_microseconds ctl2 g = Inr u \<longrightarrow> u \<le> st_cpu s)" if ok: "st_setup s = 0"
  proof -
    obtain n where n: "supervisor_hard code ctl3 bl scratch = Inr (st_hard s, st_observed s)"
        "counter_at ctl3 ''cpu.stat'' ''usage_usec'' = Some n" "0 \<le> n" "st_cpu s = max 0 (n - bl_cpu bl)"
      using supervisor_status_sound [OF assms(5) ok] .
    have "u \<le> st_cpu s" if "cpu_usage_microseconds ctl2 g = Inr u" for u
      using that n first assms(4) by (auto simp: cpu read_later_def grown_def)
    then show ?thesis
      using supervisor_misses_nothing [OF assms(1-4) _ n(1)] by (fastforce simp: hard_name_def)
  qed
  have same: "(case hard_event ctl3 g of
        Inl e \<Rightarrow> st_setup s \<noteq> 0
      | Inr (Some (name, v)) \<Rightarrow> hard_name (st_hard s) = Inr name \<and> st_observed s = v
      | Inr None \<Rightarrow> (case scratch of
          None \<Rightarrow> st_hard s = 0
        | Some (Inl e) \<Rightarrow> st_setup s \<noteq> 0
        | Some (Inr v) \<Rightarrow>
            (case tmpfs_hard_exhaustion (tc_blocks v) (tc_frsize v) (tc_bavail v) (tc_files v) (tc_ffree v) of
               None \<Rightarrow> st_hard s = 0
             | Some (name, n) \<Rightarrow> hard_name (st_hard s) = Inr name \<and> st_observed s = n)))"
    if "event_counters ctl0 = event_counters ctl1"
  proof -
    obtain u where u: "validate_attribution (gs_memory_before g) (gs_pids_before g) = Inr u" using o'(2) by blast
    have eq: "gs_memory_before g ''max'' = bl_memory bl ''max''" "gs_memory_before g ''oom_kill'' = bl_memory bl ''oom_kill''"
        "gs_pids_before g ''max'' = bl_pids bl ''max''"
      using that by (simp_all add: o'(3,4) b(2,3) event_counters_def)
    note hard = supervisor_hard_event [OF o'(1) u eq, where ctl = ctl3 and code = code and scratch = scratch]
    note rec = status_of_hard [where code = code and ctl = ctl3 and bl = bl and scratch = scratch and w = w and x = x and c = c,
      folded assms(5)]
    show ?thesis
    proof (cases "hard_event ctl3 g")
      case (Inl e)
      with hard rec(2) show ?thesis by auto
    next
      case (Inr r)
      show ?thesis
      proof (cases r)
        case (Some nv)
        obtain name v where nv: "nv = (name, v)" by (cases nv)
        with Inr Some hard have "supervisor_hard code ctl3 bl scratch = Inr (if name = MemoryLimit then 1 else 2, v)" by simp
        with rec(1) [OF this] hard_event_names [of ctl3 g name v] Inr Some nv show ?thesis by (auto simp: hard_name_def)
      next
        case None
        have "st_hard s = fst y \<and> st_observed s = snd y" if "supervisor_hard code ctl3 bl scratch = Inr y" for y
          using rec(1) [of "fst y" "snd y"] that by simp
        with None Inr hard rec(2) show ?thesis
          by (auto simp: hard_name_def tmpfs_hard_exhaustion_def split: option.splits sum.splits if_splits)
      qed
    qed
  qed
  have "\<exists>u. cpu_usage_microseconds ctl3 g = Inr u \<and> u \<le> st_cpu s \<and> st_cpu s \<le> u + (gs_cpu_before g - bl_cpu bl)"
    if ok: "st_setup s = 0"
  proof -
    obtain n where n: "supervisor_hard code ctl3 bl scratch = Inr (st_hard s, st_observed s)"
        "counter_at ctl3 ''cpu.stat'' ''usage_usec'' = Some n" "0 \<le> n" "st_cpu s = max 0 (n - bl_cpu bl)"
      using supervisor_status_sound [OF assms(5) ok] .
    then show ?thesis unfolding cpu using first by (intro exI [of _ "max 0 (n - gs_cpu_before g)"]) auto
  qed
  with missed same show ?thesis by blast
qed

section \<open>The collection of a scope\<close>

lemma scope_absent_None: "scope_absent None r = Inr True \<longleftrightarrow> r = ScopeMissing"
  by (cases r) (simp_all add: scope_absent_def)

text \<open>With the absence already under way since the first clock of some earlier round.\<close>

lemma absence_continues:
  "wait_for_scope_collection None deadline (Some since) ps = Some (Inr ()) \<Longrightarrow>
    (\<exists>ys y zs. ps = ys @ y # zs \<and> list_all (\<lambda>p. pb_open p = ScopeMissing) (ys @ [y]) \<and> since \<le> pb_first y) \<or>
    (\<exists>xs rest. ps = xs @ rest \<and> rest \<noteq> [] \<and> length rest < length ps \<and>
      wait_for_scope_collection None deadline None rest = Some (Inr ()))"
proof (induction ps)
  case (Cons p ps)
  show ?case
  proof (cases "pb_open p = ScopeMissing")
    case True
    show ?thesis
    proof (cases "since \<le> pb_first p")
      case True
      with \<open>pb_open p = ScopeMissing\<close> have "p # ps = [] @ p # ps \<and> list_all (\<lambda>p. pb_open p = ScopeMissing) ([] @ [p]) \<and> since \<le> pb_first p"
        by simp
      then show ?thesis by blast
    next
      case False
      with True Cons.prems have "wait_for_scope_collection None deadline (Some since) ps = Some (Inr ())"
        by (simp add: scope_absent_def)
      from Cons.IH [OF this] show ?thesis
      proof (elim disjE exE conjE)
        fix ys y zs
        assume "ps = ys @ y # zs" "list_all (\<lambda>p. pb_open p = ScopeMissing) (ys @ [y])" "since \<le> pb_first y"
        with True have "p # ps = (p # ys) @ y # zs \<and> list_all (\<lambda>p. pb_open p = ScopeMissing) ((p # ys) @ [y]) \<and> since \<le> pb_first y"
          by simp
        then show ?thesis by blast
      next
        fix xs rest
        assume "ps = xs @ rest" "rest \<noteq> []" "wait_for_scope_collection None deadline None rest = Some (Inr ())"
        then have "p # ps = (p # xs) @ rest \<and> rest \<noteq> [] \<and> length rest < length (p # ps) \<and>
            wait_for_scope_collection None deadline None rest = Some (Inr ())"
          by simp
        then show ?thesis by blast
      qed
    qed
  next
    case False
    with Cons.prems have r: "wait_for_scope_collection None deadline None ps = Some (Inr ())"
      by (cases "pb_open p") (auto simp: scope_absent_def split: if_splits)
    then have "ps \<noteq> []" by auto
    with r have "p # ps = [p] @ ps \<and> ps \<noteq> [] \<and> length ps < length (p # ps) \<and>
        wait_for_scope_collection None deadline None ps = Some (Inr ())"
      by simp
    then show ?thesis by blast
  qed
qed simp

text \<open>A stretch of rounds in which the scope was absent for the whole bounded interval.\<close>

definition stable_absence :: "scope_probe list \<Rightarrow> bool" where
  "stable_absence ps \<longleftrightarrow> (\<exists>xs y ys z zs. (ps = xs @ y # zs \<and> ys = [] \<and> z = y \<or> ps = xs @ y # ys @ z # zs) \<and>
     list_all (\<lambda>p. pb_open p = ScopeMissing) (y # ys @ [z]) \<and>
     pb_first y + REAP_TIMEOUT_S \<le> max (pb_first z) (pb_second z))"

lemma stable_absence_later: "stable_absence ps \<Longrightarrow> stable_absence (xs @ ps)"
  unfolding stable_absence_def by (metis append.assoc)

lemma absence_is_stable:
  "wait_for_scope_collection None deadline None ps = Some (Inr ()) \<Longrightarrow> stable_absence ps"
proof (induction ps rule: length_induct)
  case (1 ps)
  from 1(2) obtain p qs where ps: "ps = p # qs" by (cases ps) auto
  show ?case
  proof (cases "pb_open p = ScopeMissing")
    case False
    with 1(2) have "wait_for_scope_collection None deadline None qs = Some (Inr ())"
      by (cases "pb_open p") (auto simp: ps scope_absent_def split: if_splits)
    with 1(1) ps have "stable_absence qs" by simp
    then show ?thesis using stable_absence_later [of qs "[p]"] ps by simp
  next
    case absent: True
    show ?thesis
    proof (cases "pb_first p + REAP_TIMEOUT_S \<le> pb_second p")
      case True
      with absent show ?thesis unfolding stable_absence_def ps
        by (intro exI [of _ "[]"] exI [of _ p] exI [of _ qs]) simp
    next
      case False
      with 1(2) absent have "wait_for_scope_collection None deadline (Some (pb_first p + REAP_TIMEOUT_S)) qs = Some (Inr ())"
        by (simp add: ps scope_absent_def)
      from absence_continues [OF this] show ?thesis
      proof (elim disjE exE conjE)
        fix ys y zs
        assume "qs = ys @ y # zs" "list_all (\<lambda>p. pb_open p = ScopeMissing) (ys @ [y])" "pb_first p + REAP_TIMEOUT_S \<le> pb_first y"
        with absent show ?thesis unfolding stable_absence_def ps
          by (intro exI [of _ "[]"] exI [of _ p] exI [of _ ys] exI [of _ y] exI [of _ zs]) simp
      next
        fix xs rest
        assume r: "qs = xs @ rest" "wait_for_scope_collection None deadline None rest = Some (Inr ())"
        then have "stable_absence rest" using 1(1) by (simp add: ps)
        then show ?thesis using stable_absence_later [of rest "p # xs"] ps r(1) by simp
      qed
    qed
  qed
qed

lemma exact_absence:
  "wait_for_scope_collection (Some i) deadline since ps = Some (Inr ()) \<Longrightarrow>
    \<exists>xs p zs. ps = xs @ p # zs \<and> pb_open p = ScopeMissing \<and> list_all (\<lambda>x. pb_open x = ScopeOpened (Some i)) xs"
proof (induction ps arbitrary: since)
  case (Cons p ps)
  show ?case
  proof (cases "pb_open p = ScopeMissing")
    case True
    then show ?thesis by (intro exI [of _ "[]"]) auto
  next
    case False
    with Cons.prems have p: "pb_open p = ScopeOpened (Some i)"
      and "wait_for_scope_collection (Some i) deadline None ps = Some (Inr ())"
      by (auto simp: scope_absent_def exact_scope_is_absent_def split: scope_open.splits option.splits if_splits)
    from Cons.IH [OF this(2)] obtain xs q zs where "ps = xs @ q # zs" "pb_open q = ScopeMissing"
        "list_all (\<lambda>x. pb_open x = ScopeOpened (Some i)) xs"
      by blast
    with p show ?thesis by (intro exI [of _ "p # xs"]) auto
  qed
qed simp

text \<open>a scope is taken for collected only on proof.  With the identity that was received, some round finds the path
  missing and every round before it found that very scope; without one, there is a stretch of rounds all of which find
  the path missing and which lasts the whole bounded interval.\<close>

theorem collected_on_proof:
  assumes "wait_for_scope_collection expected deadline None ps = Some (Inr ())"
  shows "case expected of
      Some i \<Rightarrow> \<exists>xs p zs. ps = xs @ p # zs \<and> pb_open p = ScopeMissing \<and> list_all (\<lambda>x. pb_open x = ScopeOpened (Some i)) xs
    | None \<Rightarrow> stable_absence ps"
proof (cases expected)
  case None
  with assms show ?thesis by (simp add: absence_is_stable)
next
  case (Some i)
  with assms exact_absence [of i deadline None ps] show ?thesis by simp
qed

section \<open>One run of a request\<close>











section \<open>The capabilities of the scratch\<close>

text \<open>The operations on one scratch, with the capabilities it was offered and those it closed.\<close>

inductive scratch_step :: "scratch \<times> capability list \<times> capability list \<Rightarrow> scratch \<times> capability list \<times> capability list \<Rightarrow> bool" where
  Adopt: "c \<notin> set offered \<Longrightarrow> c \<noteq> es_source s \<Longrightarrow> adopt_terminal_tree c s = (r, cs, s') \<Longrightarrow>
    scratch_step (s, offered, shut) (s', c # offered, shut @ cs)"
| Record: "record_backing_bounds b i s = (r, s') \<Longrightarrow> scratch_step (s, offered, shut) (s', offered, shut)"
| Release: "release_source s = (cs, s') \<Longrightarrow> scratch_step (s, offered, shut) (s', offered, shut @ cs)"
| Close: "close_scratch s = (cs, s') \<Longrightarrow> scratch_step (s, offered, shut) (s', offered, shut @ cs)"

definition scratch_open :: "scratch \<Rightarrow> capability list" where
  "scratch_open s = (if es_released s then [] else [es_source s]) @ (case es_terminal s of None \<Rightarrow> [] | Some c \<Rightarrow> [c])"

definition scratch_owned :: "scratch \<times> capability list \<times> capability list \<Rightarrow> bool" where
  "scratch_owned x \<longleftrightarrow> (case x of (s, offered, shut) \<Rightarrow>
     mset (shut @ scratch_open s) = mset (es_source s # offered) \<and> distinct (es_source s # offered) \<and>
     (es_closed s \<longrightarrow> scratch_open s = []))"

lemma scratch_step_owned: "scratch_step x y \<Longrightarrow> scratch_owned x \<Longrightarrow> scratch_owned y"
proof (induction rule: scratch_step.induct)
  case (Adopt c offered s r cs s' shut)
  then show ?case
    by (cases "es_closed s"; cases "es_terminal s") (auto simp: scratch_owned_def scratch_open_def adopt_terminal_tree_def)
next
  case (Record b i s r s' offered shut)
  then show ?case by (auto simp: scratch_owned_def scratch_open_def record_backing_bounds_def split: if_splits)
next
  case (Release s cs s' offered shut)
  then show ?case by (cases "es_released s") (auto simp: scratch_owned_def scratch_open_def release_source_def)
next
  case (Close s cs s' offered shut)
  then show ?case
    by (cases "es_closed s"; cases "es_terminal s"; cases "es_released s")
      (auto simp: scratch_owned_def scratch_open_def close_scratch_def)
qed

text \<open>C40: the scratch closes each capability it owns exactly once: after any sequence of operations no capability was
  closed twice, each one it started with or was offered is either closed or still held, never both, and a closed scratch
  holds none, so then every one was closed.\<close>

theorem scratch_closes_once:
  assumes "EvaluatorScratch_init source files bytes tbytes tinodes = Inr s"
    and "scratch_step\<^sup>*\<^sup>* (s, [], []) (s', offered, shut)"
  shows "distinct shut \<and> set shut \<inter> set (scratch_open s') = {} \<and>
    set shut \<union> set (scratch_open s') = insert (es_source s') (set offered) \<and>
    (es_closed s' \<longrightarrow> set shut = insert (es_source s') (set offered))"
proof -
  have "scratch_owned (s, [], [])"
    using assms(1) by (auto simp: EvaluatorScratch_init_def bindE_Inr_iff checkE_Inr_iff scratch_owned_def scratch_open_def)
  with assms(2) have "scratch_owned (s', offered, shut)"
    by (induction rule: rtranclp_induct) (simp_all add: scratch_step_owned)
  then have m: "mset (shut @ scratch_open s') = mset (es_source s' # offered)" "distinct (es_source s' # offered)"
    and c: "es_closed s' \<longrightarrow> scratch_open s' = []"
    by (simp_all add: scratch_owned_def)
  have "distinct (shut @ scratch_open s')" using mset_eq_imp_distinct_iff [OF m(1)] m(2) by blast
  moreover have "set (shut @ scratch_open s') = set (es_source s' # offered)" by (rule mset_eq_setD [OF m(1)])
  ultimately show ?thesis using c by auto
qed

section \<open>Concrete runs\<close>

definition sample_capabilities :: request_capabilities where
  "sample_capabilities = \<lparr>qc_cwd = Some 3, qc_executable = Some 4, qc_namespace = Some 5, qc_supervisor = Some 6,
     qc_systemd_run = Some 7, qc_inherited = [8], qc_tree = None\<rparr>"

definition sample_scratch :: scratch where
  "sample_scratch = \<lparr>es_source = 9, es_file_limit = 1, es_byte_limit = 10, es_tmpfs_bytes = 100000000, es_tmpfs_inodes = 100000,
     es_terminal = None, es_physical_bytes = None, es_physical_inodes = None, es_released = False, es_closed = False\<rparr>"

definition sample_guard :: resource_guard where
  "sample_guard = \<lparr>lg_memory = 1000, lg_processes = 2, lg_cpu = 50\<rparr>"

definition sample_request :: process_request where
  "sample_request = \<lparr>pq_argv = [''/bin/x'', EVALUATOR_WORKSPACE_FD_TOKEN], pq_stdin = [], pq_cwd = ''/w'',
     pq_environment = [(''A'', ''b''), (''C'', [])], pq_timeout = JInt 5, pq_stream_limit = 4, pq_secrets = [''key''],
     pq_limits = None, pq_guard = Some sample_guard, pq_scratch = Some sample_scratch,
     pq_capabilities = sample_capabilities\<rparr>"

lemma sample_scratch_made: "EvaluatorScratch_init 9 (JInt 1) (JInt 10) (JInt 100000000) (JInt 100000) = Inr sample_scratch"
  by code_simp

lemma sample_request_made:
  "ProcessRequest_init posix_absolute True [JStr ''/bin/x'', JStr EVALUATOR_WORKSPACE_FD_TOKEN] (JStr []) ''/w''
     [(JStr ''A'', JStr ''b''), (JStr ''C'', JStr [])] (JInt 5) (JInt 4) [JStr ''key''] None (Some sample_guard)
     (Some sample_scratch) sample_capabilities = Inr sample_request"
  by code_simp

lemma capture_ignores_chunking_witness:
  "let c = fold capture_add [''ke'', ''yab''] (new_capture 4 [''key'']) in bc_data c = ''keyab'' \<and> bc_exceeded c \<and> snd (rendered c)"
proof -
  have "map utf8_bytes (pq_secrets sample_request) = [''key'']" "nat (pq_stream_limit sample_request) = 4" by code_simp+
  then show ?thesis
    using capture_ignores_chunking [OF sample_request_made, of "[''ke'', ''yab'']"] by (auto simp: Let_def longest_def)
qed

lemma cut_secret_is_shown_witness:
  "fst (rendered (fst (read_pipe [Chunk (''0123456789abcdefghij0123456789abcdefghij0123456789abcdefghij'')]
     (new_capture 39 [''0123456789abcdefghij''])))) = ''<redacted><redacted>0123456789abcdefghi''"
  using cut_secret_is_shown [of "''0123456789abcdefghij''"] by (simp add: REDACTION_def)

lemma py_str_small: "\<bar>i\<bar> < 10 ^ 9 \<Longrightarrow> py_str i = Inr (show_int i)"
proof -
  have "(10 :: int) ^ 9 \<le> 10 ^ int_max_str_digits" by (rule power_increasing) (simp_all add: int_max_str_digits_def)
  moreover assume "\<bar>i\<bar> < 10 ^ 9"
  ultimately show ?thesis unfolding py_str_def by simp
qed

lemma launch_vector_roundtrip_witness:
  "\<exists>av a. linux_launch_argv ''code'' sample_request 10 11 ''/s'' = Inr av \<and>
     parse_supervisor_argv (''-c'' # drop 13 av) = Some a \<and> sv_argv a = [''/bin/x'', EVALUATOR_WORKSPACE_FD_TOKEN]"
proof -
  obtain av where av: "linux_launch_argv ''code'' sample_request 10 11 ''/s'' = Inr av"
    by (auto simp: linux_launch_argv_def sample_request_def sample_capabilities_def sample_guard_def sample_scratch_def
        checkE_def launch_numbers_def or_minus_one_def py_str_small)
  from launch_vector_roundtrip [OF sample_request_made av] av show ?thesis by (simp add: sample_request_def)
qed

text \<open>Controls of a scope that never had an event, and after its memory was exhausted.\<close>

definition sample_controls :: "bool \<Rightarrow> controls" where
  "sample_controls exhausted name =
     (if name = ''memory.max'' then Control ''1000''
      else if name = ''memory.swap.max'' then Control ''0''
      else if name = ''pids.max'' then Control ''2''
      else if name = ''cpu.max'' then Control ''50 100''
      else if name = ''memory.events'' then Control ((if exhausted then ''max 3'' else ''max 0'') @ newline # ''oom_kill 1'')
      else if name = ''pids.events'' then Control ''max 0''
      else if name = ''cpu.stat'' then Control ''usage_usec 7''
      else if name = ''memory.peak'' then Control ''1000''
      else if name = ''pids.peak'' then Control ''1''
      else if name = ''cgroup.procs'' then Control ''40''
      else NoControl True)"

definition sample_member :: "int \<Rightarrow> member_view" where
  "sample_member pid = \<lparr>mv_before = Some 7, mv_chain = Some [pid, 1], mv_cgroup = Some ''/s'', mv_after = Some 7\<rparr>"

definition sample_validation :: "unit prs \<times> guard_state" where
  "sample_validation = validate_before_release (sample_controls False) sample_member ''/s'' (Inr ())
     \<lparr>gs_config = sample_guard, gs_memory_before = Map.empty, gs_pids_before = Map.empty, gs_cpu_before = 0,
      gs_owner = None, gs_trusted = False, gs_validated = False, gs_collected = False\<rparr>"

definition sample_arguments :: supervisor_arguments where
  "sample_arguments = \<lparr>sv_status = 10, sv_target = 4, sv_control = 11, sv_guard = True, sv_file_size = -1,
     sv_open_files = -1, sv_memory = 1000, sv_processes = 2, sv_cpu = 50, sv_tmpfs_bytes = 100000000,
     sv_tmpfs_inodes = 100000, sv_cgroup = ''/s'', sv_environment = Map.empty, sv_argv = [''/bin/x'']\<rparr>"

definition sample_baseline :: baseline where
  "sample_baseline = (case supervisor_baseline (\<lambda>_. 2) sample_arguments (Inr ()) (sample_controls False) of
     Inr bl \<Rightarrow> bl | Inl _ \<Rightarrow> \<lparr>bl_memory = Map.empty, bl_pids = Map.empty, bl_cpu = 0\<rparr>)"

lemma sample_baseline_read:
  "supervisor_baseline (\<lambda>_. 2) sample_arguments (Inr ()) (sample_controls False) = Inr sample_baseline"
proof -
  have "case supervisor_baseline (\<lambda>_. 2) sample_arguments (Inr ()) (sample_controls False) of Inr _ \<Rightarrow> True | Inl _ \<Rightarrow> False"
    by code_simp
  then show ?thesis by (auto simp: sample_baseline_def split: sum.splits)
qed

lemma owner_and_supervisor_agree_witness:
  "let s = supervisor_status (\<lambda>_. 2) True (sample_controls True) sample_baseline None 0 0 0 0 in
     st_setup s = 0 \<and> hard_name (st_hard s) = Inr MemoryLimit \<and> st_observed s = 1000"
proof -
  have "fst sample_validation = Inr ()" by code_simp
  then have v: "validate_before_release (sample_controls False) sample_member ''/s'' (Inr ())
     \<lparr>gs_config = sample_guard, gs_memory_before = Map.empty, gs_pids_before = Map.empty, gs_cpu_before = 0,
      gs_owner = None, gs_trusted = False, gs_validated = False, gs_collected = False\<rparr> = (Inr (), snd sample_validation)"
    unfolding sample_validation_def by (simp add: prod_eq_iff)
  have "hard_event (sample_controls True) (snd sample_validation) = Inr (Some (MemoryLimit, 1000))" by code_simp
  moreover have "read_later ctl ctl" for ctl by (auto simp: read_later_def grown_def split: option.split)
  moreover have "st_setup (supervisor_status (\<lambda>_. 2) True (sample_controls True) sample_baseline None 0 0 0 0) = 0" by code_simp
  ultimately show ?thesis
    using owner_and_supervisor_agree [OF sample_baseline_read v, of "sample_controls True" "sample_controls True" _ None 0 0 0]
    by (simp add: Let_def)
qed



lemma scratch_closes_once_witness:
  "es_closed (snd (close_scratch (sample_scratch\<lparr>es_terminal := Some 12\<rparr>))) \<and>
   set (fst (close_scratch (sample_scratch\<lparr>es_terminal := Some 12\<rparr>))) = {9, 12}"
proof -
  let ?s = "sample_scratch\<lparr>es_terminal := Some 12\<rparr>"
  have "scratch_step (sample_scratch, [], []) (?s, [12], [] @ [])"
    by (rule scratch_step.Adopt [where r = "Inr ()"]) (simp_all add: sample_scratch_def adopt_terminal_tree_def)
  moreover have "scratch_step (?s, [12], []) (snd (close_scratch ?s), [12], [] @ fst (close_scratch ?s))"
    by (rule scratch_step.Close) simp
  ultimately have "scratch_step\<^sup>*\<^sup>* (sample_scratch, [], []) (snd (close_scratch ?s), [12], fst (close_scratch ?s))" by simp
  from scratch_closes_once [OF sample_scratch_made this] show ?thesis
    by (auto simp: sample_scratch_def close_scratch_def)
qed

definition sample_tracker :: tracker where
  "sample_tracker = \<lparr>tk_limits = None, tk_tree = False, tk_guarded = False, tk_scratch = None, tk_ticks_per_second = 100\<rparr>"

lemma hard_evidence_wins_witness:
  "ls_provenance (set_sampled None CpuLimit 5 (set_hard sample_tracker (MemoryLimit, 9) (Some 8) new_limit_state)) = Some HardGuard"
proof -
  let ?st = "set_hard sample_tracker (MemoryLimit, 9) (Some 8) new_limit_state"
  have "(tracker_step sample_tracker)\<^sup>*\<^sup>* new_limit_state ?st" by (rule r_into_rtranclp) (rule tracker_step.Recorded)
  moreover have "(tracker_step sample_tracker)\<^sup>*\<^sup>* ?st (set_sampled None CpuLimit 5 ?st)"
    using tracker_step.Accounted [of sample_tracker ?st 5] by (auto simp: sample_tracker_def)
  ultimately show ?thesis using hard_evidence_wins [of sample_tracker ?st] by (simp add: set_hard_def set_resource_limit_def)
qed

end
