(* ===== verification/Spec2Isabelle.thy ===== *)
theory Spec2Isabelle
  imports Run_Safety Ledger Report Bench_Suite_Facts Bench_Analysis Author_Facts Report_Page Cli_Facts
    Process_Safety
begin

text \<open>
  Measure-twice runs prompt suites against a roster of models, stores one row per call in a run
  directory that survives crashes, scores the rows and reports them.  This library models the Python
  package src/measure_twice and proves what makes its parts correct.

  The parts and how they interact.  A suite (suite.py) is a list of items with one scoring block; its
  item hash names the instrument.  A configuration (config.py) picks the roster, the judges, the call
  budget and an execution profile (model_sweep_execution.py), which binds every alias to a provider.
  The runner (runner.py) sweeps the grid roster x items x samples: for every cell that has no row yet
  it takes one call from the budget, asks the provider's adapter (adapters/local.py, gemini.py,
  claude_cli.py) and appends one row built from the outcome and the injected scorer
  (scoring/deterministic.py).  A run that was killed is resumed from its log.  A stored run is scored
  again offline, row by row or by the judge panel (scoring/judge.py), and rolled up by report.py.
  ledger.py keeps claims whose citations are pinned by hash.  The agent benchmark (agent_bench) has its own
  inputs: a registry of agent profiles and an execution profile (models.py) and suites that are directories
  of tasks (suite.py), all read through one strict wire format (_wire.py) and identified by hashes.

  Theories and what they hold.
  \<^item> Prelude: the result type of fallible code (error + value) with its bind, traverse and collection
    \<open>res_simps\<close>, the characters and text operations of Python the code uses, decimal numerals,
    insertion-ordered dictionaries.
  \<^item> Json, Json_Text: the values, writer and reader of Python's json module: exact decimal floats, the
    digit limit of \<open>int\<close>, the recursion limit.  Reading what was written gives the value back, and no
    proper prefix of a written object can be read, which is what crash recovery rests on.
  \<^item> Externals: what is not in the repository (the switchboard package's patterns and error names, the
    regular-expression engine, SHA-256) as one record of functions, the documented contract of the
    patterns as a predicate, and the locale \<open>mapping_codec\<close> of a validated from/to-mapping pair.
  \<^item> Suite (suite.py): validators, \<open>ScoringSpec\<close>, \<open>Item\<close>, \<open>Suite\<close>, hash, loader.  A loaded suite satisfies the
    schema, its snapshot loads back, and equal hashes mean equal instruments under a collision-free hash.
  \<^item> Scoring (scoring/deterministic.py): span scan of JSON objects in a text, label extraction, verdict and
    exact scorers, the locale \<open>scorer_seam\<close> of a scorer whose scores lie in the unit interval.
  \<^item> Profile (model_sweep_execution.py): bindings, provider contracts, canonical hashes, the receipt; the
    receipt and profile mappings interpret \<open>mapping_codec\<close>.
  \<^item> Config (config.py): validation and the order in which sources are resolved.
  \<^item> Adapters (adapters): the three-state outcome of a call, one function per provider, the sealed argument
    vector, the doctor, the call budget, a call with the processes it starts, the bounded batch; the locale
    \<open>call_meter\<close> of a caller that never passes its budget.
  \<^item> Run_Store and Runner (runner.py): rows and their lines, the reader that tolerates a torn last line,
    manifest and snapshot; the sweeps, \<open>run\<close> in its fresh and resumed form, re-scoring.
  \<^item> Runner_Facts: the specification \<open>sweep_spec\<close> of a provider sweep (rows serve a subsequence of the cells,
    one call per row, end states), the locale \<open>provider_sweep\<close>, interpreted for all three sweeps.
  \<^item> Runner_Books: the books of a sweep over all bindings and of a fresh run.
  \<^item> Run_History: run directories as reachable states of an inductive step relation (created, resumed,
    re-scored, each sweep cut after any character), its invariant, completion and termination of resuming.
  \<^item> Run_Safety: which directory a run touches, rejected ids, offline against inline scoring, receipts.
  \<^item> Judge (scoring/judge.py): prompt, score parser, sampling, the per-judge gate, the run-level scorer, the
    production caller; the locale \<open>judge_seam\<close> for invariants of a stateful judge.
  \<^item> Ledger (ledger.py): claims, JSONL file, audit, Markdown.
  \<^item> Report (report.py): roll-up, comparison, Markdown and JSONL.
  \<^item> Report_Html, Report_Html_Facts, Report_Page (report_html.py): the item-level page: cells scored again and
    classified, facets, totals, the payload as a JSON island in a template.
  \<^item> Cli, Cli_Facts (cli.py, agent_bench/cli.py): every subcommand after its arguments are parsed, over the state
    of the run store, the reports, the ledgers and the other files; scoring again changes nothing, the smoke and
    audit gates, what each command can change.  Its concrete world is one local endpoint that answers.
  \<^item> Bench_Wire (agent_bench/_wire.py): strict reading (no repeated key, no NaN), field validators, canonical
    text; what a read gives is within the limits of the reader, canonical texts are injective.
  \<^item> Bench_Models (agent_bench/models.py): registry, selection, limits, run policies, ceilings, retries, the
    execution profile; each from/to-mapping pair interprets \<open>mapping_codec\<close>; the shipped registry and
    profile are the samples.
  \<^item> Bench_Suite, Bench_Suite_Facts (agent_bench/suite.py): path and glob grammar, manifests, the walk of a
    bundle as a stack of queued directories, loader, hashes, change policy; the rows of the glob matcher are
    the language of the pattern, the walk is the tree read by recursion.
  \<^item> Bench_Analysis (agent_bench/analysis.py): scopes and the analysis plan, its cross-field checks and the
    checks against the selected profiles and the loaded suite.
  \<^item> Json_Indent: \<open>json.dumps\<close> with an indent; its text reads back as the compact one does.
  \<^item> Author, Author_Facts (author.py): harvesters of goldens, review fixtures and git patches, deduplication,
    the rendered harvest, the stub suite; where the label of a candidate comes from as an inductive predicate.
  \<^item> Process, Process_Run, Process_Launch (agent_bench/process.py): one subprocess of an agent cell. The request
    and who owns its capabilities, the scratch, the bounded capture with redaction, the wait, the controls of
    the cgroup, the checks of the monitor, the status record, the result; the argument vector, its reader in the
    supervisor, the supervisor's own readers of the controls, its baseline and its accounting, the collection of
    the scope, the one-shot run, with the closes that fail and the tree that is given up when the monitor survives.
  \<^item> Process_Facts, Process_Safety: captures do not depend on how a stream is cut, where redaction is complete
    and where it is not, hard evidence as an inductive step relation over the limits, owner against supervisor, each
    with the baseline it read itself, capabilities that are closed once.

  How state corresponds.  A record of the model has the fields of the Python class, constructors take raw
  JSON values and return the record or the error raised, one error constructor per raise site;
  exceptions that escape a module's own error class are further constructors (\<open>run_exn\<close>, \<open>suite_exn\<close> ...).
  A directory of runs is a map from run ids to stores; a store is manifest, snapshot and the text of
  rows.jsonl.  The bundle of an agent suite is a tree of directories, files, links and special entries.  The outside world of a run is the record \<open>run_world\<close>: the transport's answer and elapsed
  time of every cell, the schedule of every wave of the Claude pool, the minted id, the clock.

  Bounds.  \<open>limit\<close> is the recursion limit of the interpreter, the only bound the reader of JSON has; a
  theorem that needs it says from which value on (rows need 1, exported records 2, agent profiles 4,
  suites and profiles what their nesting is).  No definition has fuel: recursion is structural or has a proved measure.

  Not modelled, and why.  Text has the code points 0 to 255, so lone surrogates and wider characters do
  not occur; the two texts of the program outside that range are a constructor (the no-response
  sentinel) and a parameter (a dash in the report).  Scores are exact rationals: rounding of floats and
  their printing with one decimal are parameters.  Network transports, the process launch and kill of the
  Claude command, executable resolution and account homes (adapters/_claude_runtime.py), Windows and Linux
  isolation (agent_bench/isolation.py, _win32_contained.py, and _linux_capabilities.py but for closing and giving up a
  descriptor) are operating-system code.  Of process.py what the kernel tells is an argument (control files, records of /proc,
  clocks, the walk of a tree); startup, the cleanup up to its end, killing and the threads are the phases a run is given; a
  close of a descriptor that fails is modelled where a request is released, not in the close of the scratch.  The contained walk of agent_bench/suite.py is modelled over a tree that does not
  change under it: its handles and the comparisons that detect a race are left out.  The argument parsers of the two command
  lines are argparse calls, and context_qualification.py is a one-off script over the modelled readers.  Two processes writing one run directory at a time, and a file replaced between
  an existence check and its read, are not modelled; an append that stops midway is.
\<close>

end
